(* ===== verification/JsRuntime.thy ===== *)
theory JsRuntime
  imports Complex_Main "HOL-Library.Code_Target_Nat"
begin

text \<open>
  The part of the JavaScript language and standard library the modelled code uses.

  \<^item> A string is its list of UTF-16 code units (\<open>jsstring\<close>); \<open>js\<close> turns an
    ASCII literal into one. The code's literals that hold other characters are written with
    the numbers of their code units.
  \<^item> A value of type \<open>unknown\<close> is a \<open>jsval\<close>: what \<open>JSON.parse\<close> may return,
    plus \<open>undefined\<close> and \<open>Date\<close> instances. A number is an exact rational (every
    finite double is one) or one of the three special values.
  \<^item> A thrown exception is the left side of a sum; \<open>and_then\<close> sequences two steps and
    \<open>mapM\<close> is \<open>Array.prototype.map\<close> with a callback that may throw.
  \<^item> What the host provides beside the language (\<open>Date.parse\<close>, whose non-ISO part is
    implementation-defined, and the classes \<open>URL\<close> and \<open>URLSearchParams\<close>) is the record \<open>host\<close>, an argument
    of the definitions that use it.
  \<^item> \<open>toLowerCase\<close> is modelled for the ASCII, Latin-1, Greek and Cyrillic letters, the
    Kelvin sign and the Angstrom sign; other code units are left as they are.
\<close>

named_theorems js_simps \<open>unfolding rules for the string predicates of the runtime\<close>

section \<open>Strings\<close>

type_synonym jsstring = "nat list"

definition js :: "string \<Rightarrow> jsstring" where
  "js s = map of_char s"

lemma js_eq_iff [simp]: "js s = js t \<longleftrightarrow> s = t"
  unfolding js_def by (rule inj_map_eq_map) (simp add: inj_of_char)

lemma js_Nil [simp]: "js [] = []"
  by (simp add: js_def)

lemma js_eq_Nil [simp]: "js s = [] \<longleftrightarrow> s = []" "[] = js s \<longleftrightarrow> s = []"
  by (auto simp: js_def)

lemma length_js [simp]: "length (js s) = length s"
  by (simp add: js_def)

lemma js_append: "js (s @ t) = js s @ js t"
  by (simp add: js_def)

subsection \<open>Character classes\<close>

text \<open>The white space of \<open>trim\<close> and of \<open>\s\<close>.\<close>

definition is_space :: "nat \<Rightarrow> bool" where
  "is_space c \<longleftrightarrow> (9 \<le> c \<and> c \<le> 13) \<or> c = 32 \<or> c = 160 \<or> c = 0x1680
     \<or> (0x2000 \<le> c \<and> c \<le> 0x200A) \<or> c = 0x2028 \<or> c = 0x2029 \<or> c = 0x202F
     \<or> c = 0x205F \<or> c = 0x3000 \<or> c = 0xFEFF"

definition is_digit :: "nat \<Rightarrow> bool" where
  "is_digit c \<longleftrightarrow> 48 \<le> c \<and> c \<le> 57"

definition is_upper :: "nat \<Rightarrow> bool" where
  "is_upper c \<longleftrightarrow> 65 \<le> c \<and> c \<le> 90"

definition is_lower :: "nat \<Rightarrow> bool" where
  "is_lower c \<longleftrightarrow> 97 \<le> c \<and> c \<le> 122"

definition is_alnum :: "nat \<Rightarrow> bool" where
  "is_alnum c \<longleftrightarrow> is_digit c \<or> is_upper c \<or> is_lower c"

text \<open>\<open>[\u0000-\u001F\u007F]\<close>, and the variant that lets tab, line feed and carriage
  return through.\<close>

definition is_control :: "nat \<Rightarrow> bool" where
  "is_control c \<longleftrightarrow> c \<le> 31 \<or> c = 127"

definition is_unsafe_control :: "nat \<Rightarrow> bool" where
  "is_unsafe_control c \<longleftrightarrow> c \<le> 8 \<or> c = 11 \<or> c = 12 \<or> (14 \<le> c \<and> c \<le> 31) \<or> c = 127"

lemmas char_classes [js_simps] = is_space_def is_digit_def is_upper_def is_lower_def is_alnum_def
  is_control_def is_unsafe_control_def

subsection \<open>Trimming and case\<close>

definition trim :: "jsstring \<Rightarrow> jsstring" where
  "trim s = rev (dropWhile is_space (rev (dropWhile is_space s)))"

definition lower_unit :: "nat \<Rightarrow> nat" where
  "lower_unit c =
     (if 65 \<le> c \<and> c \<le> 90 then c + 32
      else if 0xC0 \<le> c \<and> c \<le> 0xDE \<and> c \<noteq> 0xD7 then c + 32
      else if 0x391 \<le> c \<and> c \<le> 0x3A9 \<and> c \<noteq> 0x3A2 then c + 32
      else if 0x410 \<le> c \<and> c \<le> 0x42F then c + 32
      else if 0x400 \<le> c \<and> c \<le> 0x40F then c + 80
      else if c = 0x212A then 0x6B
      else if c = 0x212B then 0xE5
      else c)"

definition toLowerCase :: "jsstring \<Rightarrow> jsstring" where
  "toLowerCase s = map lower_unit s"

lemma trim_Nil [simp]: "trim [] = []"
  by (simp add: trim_def)

lemma dropWhile_rev_id:
  assumes "s = [] \<or> \<not> P (hd s)"
  shows "dropWhile P s = s"
  using assms by (cases s) auto

lemma trim_fixpoint:
  assumes "s = [] \<or> (\<not> is_space (hd s) \<and> \<not> is_space (last s))"
  shows "trim s = s"
  using assms by (auto simp: trim_def dropWhile_rev_id hd_rev)

lemma trim_ends:
  assumes "trim s \<noteq> []"
  shows "\<not> is_space (hd (trim s)) \<and> \<not> is_space (last (trim s))"
proof -
  let ?t = "dropWhile is_space s"
  let ?u = "dropWhile is_space (rev ?t)"
  have u: "?u \<noteq> []" using assms by (simp add: trim_def)
  then have "\<not> is_space (hd ?u)" by (rule hd_dropWhile)
  then have last: "\<not> is_space (last (trim s))"
    using u by (simp add: trim_def last_rev)
  have t: "?t \<noteq> []"
  proof
    assume "?t = []"
    with u show False by simp
  qed
  then have hd_t: "\<not> is_space (hd ?t)" by (rule hd_dropWhile)
  obtain xs where split: "rev ?t = xs @ ?u"
    by (metis takeWhile_dropWhile_id)
  then have "?t = rev ?u @ rev xs"
    by (metis rev_append rev_rev_ident)
  then have "hd ?t = hd (rev ?u)"
    using u by (metis hd_append2 rev_is_Nil_conv)
  then show ?thesis using hd_t last by (simp add: trim_def)
qed

lemma trim_idem [simp]: "trim (trim s) = trim s"
  using trim_ends [of s] by (cases "trim s = []") (auto intro: trim_fixpoint)

lemma set_trim_subset: "set (trim s) \<subseteq> set s"
  unfolding trim_def by (metis set_dropWhileD set_rev subsetI)

lemma length_trim_le: "length (trim s) \<le> length s"
  unfolding trim_def
  by (metis (no_types, lifting) length_dropWhile_le length_rev order_trans)

lemma is_space_lower_unit [simp]: "is_space (lower_unit c) = is_space c"
  by (auto simp: lower_unit_def is_space_def)

lemma lower_unit_idem [simp]: "lower_unit (lower_unit c) = lower_unit c"
  by (auto simp: lower_unit_def)

lemma toLowerCase_idem [simp]: "toLowerCase (toLowerCase s) = toLowerCase s"
  by (simp add: toLowerCase_def)

lemma length_toLowerCase [simp]: "length (toLowerCase s) = length s"
  by (simp add: toLowerCase_def)

lemma toLowerCase_Nil [simp]: "toLowerCase s = [] \<longleftrightarrow> s = []"
  by (simp add: toLowerCase_def)

lemma trim_toLowerCase: "trim (toLowerCase s) = toLowerCase (trim s)"
  by (simp add: trim_def toLowerCase_def dropWhile_map rev_map o_def)

lemma trim_toLowerCase_trim [simp]: "trim (toLowerCase (trim s)) = toLowerCase (trim s)"
  by (simp add: trim_toLowerCase)

lemma toLowerCase_lower_fixpoint:
  "(\<And>c. c \<in> set s \<Longrightarrow> lower_unit c = c) \<Longrightarrow> toLowerCase s = s"
  by (simp add: toLowerCase_def map_idI)

text \<open>\<open>startsWith\<close> and \<open>includes\<close>.\<close>

definition starts_with :: "jsstring \<Rightarrow> jsstring \<Rightarrow> bool" where
  "starts_with p s \<longleftrightarrow> take (length p) s = p"

definition occurs_in :: "jsstring \<Rightarrow> jsstring \<Rightarrow> bool" where
  "occurs_in p s \<longleftrightarrow> list_ex (\<lambda>n. starts_with p (drop n s)) [0..<Suc (length s)]"

text \<open>\<open>split\<close> with a separator of one code unit.\<close>

fun split_on :: "nat \<Rightarrow> jsstring \<Rightarrow> jsstring list" where
  "split_on d [] = [[]]"
| "split_on d (c # cs) =
     (if c = d then [] # split_on d cs
      else case split_on d cs of p # ps \<Rightarrow> (c # p) # ps | [] \<Rightarrow> [[c]])"

subsection \<open>Code points and UTF-8\<close>

definition is_high_surrogate :: "nat \<Rightarrow> bool" where
  "is_high_surrogate c \<longleftrightarrow> 0xD800 \<le> c \<and> c \<le> 0xDBFF"

definition is_low_surrogate :: "nat \<Rightarrow> bool" where
  "is_low_surrogate c \<longleftrightarrow> 0xDC00 \<le> c \<and> c \<le> 0xDFFF"

text \<open>String iteration: a surrogate pair is one code point, a lone surrogate is itself.\<close>

fun code_points :: "jsstring \<Rightarrow> nat list" where
  "code_points [] = []"
| "code_points [c] = [c]"
| "code_points (c # d # s) =
     (if is_high_surrogate c \<and> is_low_surrogate d
      then (0x10000 + (c - 0xD800) * 0x400 + (d - 0xDC00)) # code_points s
      else c # code_points (d # s))"

text \<open>The UTF-8 bytes of one code point; a surrogate code point has none.\<close>

definition utf8_encode :: "nat \<Rightarrow> nat list option" where
  "utf8_encode p =
     (if p \<le> 0x7F then Some [p]
      else if p \<le> 0x7FF then Some [0xC0 + p div 64, 0x80 + p mod 64]
      else if 0xD800 \<le> p \<and> p \<le> 0xDFFF then None
      else if p \<le> 0xFFFF then Some [0xE0 + p div 4096, 0x80 + p div 64 mod 64, 0x80 + p mod 64]
      else Some [0xF0 + p div 262144, 0x80 + p div 4096 mod 64, 0x80 + p div 64 mod 64,
                 0x80 + p mod 64])"

definition hex_digit :: "nat \<Rightarrow> nat" where
  "hex_digit n = (if n < 10 then 48 + n else 55 + n)"

text \<open>\<open>encodeURIComponent\<close>; \<open>None\<close> is the \<open>URIError\<close> of a lone surrogate.\<close>

definition uri_unreserved :: "nat \<Rightarrow> bool" where
  "uri_unreserved c \<longleftrightarrow> is_alnum c \<or> c \<in> set (js ''-_.!~*'') \<or> c = 39 \<or> c = 40 \<or> c = 41"

fun encode_points :: "nat list \<Rightarrow> jsstring option" where
  "encode_points [] = Some []"
| "encode_points (p # ps) =
     (if uri_unreserved p then map_option ((#) p) (encode_points ps)
      else case utf8_encode p of None \<Rightarrow> None
        | Some bs \<Rightarrow> map_option
            ((@) (concat (map (\<lambda>b. [37, hex_digit (b div 16), hex_digit (b mod 16)]) bs)))
            (encode_points ps))"

definition encodeURIComponent :: "jsstring \<Rightarrow> jsstring option" where
  "encodeURIComponent s = encode_points (code_points s)"

text \<open>\<open>decodeURIComponent\<close>; \<open>None\<close> is the \<open>URIError\<close> of a malformed sequence.\<close>

definition hex_digit_value :: "nat \<Rightarrow> nat option" where
  "hex_digit_value c = (if is_digit c then Some (c - 48)
     else if 97 \<le> c \<and> c \<le> 102 then Some (c - 87)
     else if 65 \<le> c \<and> c \<le> 70 then Some (c - 55) else None)"

definition percent_byte :: "jsstring \<Rightarrow> (nat \<times> jsstring) option" where
  "percent_byte s =
     (case s of
        p # a # b # r \<Rightarrow>
          (if p \<noteq> 37 then None
           else case (hex_digit_value a, hex_digit_value b) of
               (Some x, Some y) \<Rightarrow> Some (16 * x + y, r) | _ \<Rightarrow> None)
      | _ \<Rightarrow> None)"

text \<open>\<open>n\<close> continuation bytes after the value \<open>acc\<close> of the bytes before.\<close>

fun continuation :: "nat \<Rightarrow> nat \<Rightarrow> jsstring \<Rightarrow> (nat \<times> jsstring) option" where
  "continuation 0 acc s = Some (acc, s)"
| "continuation (Suc n) acc s =
     (case percent_byte s of
        Some (b, r) \<Rightarrow> if 128 \<le> b \<and> b < 192 then continuation n (64 * acc + (b - 128)) r else None
      | None \<Rightarrow> None)"

definition utf16_units :: "nat \<Rightarrow> jsstring" where
  "utf16_units p = (if p < 0x10000 then [p]
     else [0xD800 + (p - 0x10000) div 1024, 0xDC00 + (p - 0x10000) mod 1024])"

definition percent_point :: "jsstring \<Rightarrow> (jsstring \<times> jsstring) option" where
  "percent_point s =
     (case percent_byte s of
        None \<Rightarrow> None
      | Some (b, r) \<Rightarrow>
          if b < 128 then Some ([b], r)
          else if 192 \<le> b \<and> b < 224 then
            (case continuation 1 (b - 192) r of
               Some (p, r') \<Rightarrow> if 128 \<le> p then Some (utf16_units p, r') else None | None \<Rightarrow> None)
          else if 224 \<le> b \<and> b < 240 then
            (case continuation 2 (b - 224) r of
               Some (p, r') \<Rightarrow> if 2048 \<le> p \<and> \<not> (0xD800 \<le> p \<and> p \<le> 0xDFFF)
                 then Some (utf16_units p, r') else None | None \<Rightarrow> None)
          else if 240 \<le> b \<and> b < 248 then
            (case continuation 3 (b - 240) r of
               Some (p, r') \<Rightarrow> if 0x10000 \<le> p \<and> p \<le> 0x10FFFF
                 then Some (utf16_units p, r') else None | None \<Rightarrow> None)
          else None)"

text \<open>Fuel: every step consumes a code unit, so the length of the text is enough.\<close>

fun decode_units :: "nat \<Rightarrow> jsstring \<Rightarrow> jsstring option" where
  "decode_units fuel [] = Some []"
| "decode_units 0 (c # s) = None"
| "decode_units (Suc fuel) (c # s) =
     (if c \<noteq> 37 then map_option ((#) c) (decode_units fuel s)
      else case percent_point (c # s) of
          None \<Rightarrow> None
        | Some (us, r) \<Rightarrow> map_option ((@) us) (decode_units fuel r))"

definition decodeURIComponent :: "jsstring \<Rightarrow> jsstring option" where
  "decodeURIComponent s = decode_units (length s) s"

section \<open>Values\<close>

datatype jsnum = Fin rat | NaN | PosInfinity | NegInfinity

datatype jsval =
    JUndef
  | JNull
  | JBool bool
  | JNum jsnum
  | JStr jsstring
  | JDate "int option"
  | JArr "jsval list"
  | JObj "(string \<times> jsval) list"

abbreviation jint :: "int \<Rightarrow> jsval" where
  "jint n \<equiv> JNum (Fin (of_int n))"

text \<open>Property read on a value that is neither \<open>undefined\<close> nor \<open>null\<close>.\<close>

definition get :: "jsval \<Rightarrow> string \<Rightarrow> jsval" where
  "get v k = (case v of JObj kvs \<Rightarrow> (case map_of kvs k of Some w \<Rightarrow> w | None \<Rightarrow> JUndef) | _ \<Rightarrow> JUndef)"

definition has_own :: "jsval \<Rightarrow> string \<Rightarrow> bool" where
  "has_own v k \<longleftrightarrow> (case v of JObj kvs \<Rightarrow> map_of kvs k \<noteq> None | _ \<Rightarrow> False)"

text \<open>\<open>typeof v === 'object' && v !== null && !Array.isArray(v)\<close>.\<close>

definition is_record :: "jsval \<Rightarrow> bool" where
  "is_record v \<longleftrightarrow> (case v of JObj _ \<Rightarrow> True | JDate _ \<Rightarrow> True | _ \<Rightarrow> False)"

text \<open>\<open>typeof v === 'object' && v !== null\<close>.\<close>

definition is_object :: "jsval \<Rightarrow> bool" where
  "is_object v \<longleftrightarrow> (case v of JObj _ \<Rightarrow> True | JDate _ \<Rightarrow> True | JArr _ \<Rightarrow> True | _ \<Rightarrow> False)"

fun is_string :: "jsval \<Rightarrow> bool" where
  "is_string (JStr _) = True"
| "is_string _ = False"

fun is_boolean :: "jsval \<Rightarrow> bool" where
  "is_boolean (JBool _) = True"
| "is_boolean _ = False"

fun the_str :: "jsval \<Rightarrow> jsstring" where
  "the_str (JStr s) = s"
| "the_str _ = []"

fun the_bool :: "jsval \<Rightarrow> bool" where
  "the_bool (JBool b) = b"
| "the_bool _ = False"

fun the_int :: "jsval \<Rightarrow> int" where
  "the_int (JNum (Fin q)) = \<lfloor>q\<rfloor>"
| "the_int _ = 0"

fun truthy :: "jsval \<Rightarrow> bool" where
  "truthy JUndef = False"
| "truthy JNull = False"
| "truthy (JBool b) = b"
| "truthy (JNum n) = (n \<noteq> NaN \<and> n \<noteq> Fin 0)"
| "truthy (JStr s) = (s \<noteq> [])"
| "truthy _ = True"

text \<open>\<open>a ?? b\<close> and \<open>a || b\<close>.\<close>

definition nullish :: "jsval \<Rightarrow> bool" where
  "nullish v \<longleftrightarrow> v = JUndef \<or> v = JNull"

definition coalesce :: "jsval \<Rightarrow> jsval \<Rightarrow> jsval" where
  "coalesce a b = (if nullish a then b else a)"

definition or_else :: "jsval \<Rightarrow> jsval \<Rightarrow> jsval" where
  "or_else a b = (if truthy a then a else b)"

subsection \<open>Numbers\<close>

definition max_safe_integer :: int where
  "max_safe_integer = 9007199254740991"

fun isInteger :: "jsval \<Rightarrow> bool" where
  "isInteger (JNum (Fin q)) = (of_int \<lfloor>q\<rfloor> = q)"
| "isInteger _ = False"

definition isSafeInteger :: "jsval \<Rightarrow> bool" where
  "isSafeInteger v \<longleftrightarrow> isInteger v \<and> \<bar>the_int v\<bar> \<le> max_safe_integer"

text \<open>\<open>Number.isSafeInteger(v) && Number(v) >= 0\<close>, the check every count and amount passes.\<close>

definition safe_count :: "jsval \<Rightarrow> bool" where
  "safe_count v \<longleftrightarrow> isSafeInteger v \<and> 0 \<le> the_int v"

lemma isInteger_iff: "isInteger v \<longleftrightarrow> (\<exists>n. v = jint n)"
proof
  assume "isInteger v"
  then show "\<exists>n. v = jint n"
    by (cases v rule: isInteger.cases) auto
qed auto

lemma the_int_jint [simp]: "the_int (jint n) = n"
  by simp

lemma isSafeInteger_jint [simp]: "isSafeInteger (jint n) \<longleftrightarrow> \<bar>n\<bar> \<le> max_safe_integer"
  by (simp add: isSafeInteger_def)

lemma safe_count_jint [simp]: "safe_count (jint n) \<longleftrightarrow> 0 \<le> n \<and> n \<le> max_safe_integer"
  by (auto simp: safe_count_def)

lemma safe_countE:
  assumes "safe_count v"
  obtains n where "v = jint n" and "0 \<le> n" and "n \<le> max_safe_integer"
  using assms by (auto simp: safe_count_def isSafeInteger_def isInteger_iff)

lemma isSafeIntegerE:
  assumes "isSafeInteger v"
  obtains n where "v = jint n" and "\<bar>n\<bar> \<le> max_safe_integer"
  using assms by (auto simp: isSafeInteger_def isInteger_iff)

lemma jint_inject [simp]: "jint m = jint n \<longleftrightarrow> m = n"
  by simp

subsection \<open>Property reads\<close>

lemma get_Nil [simp]: "get (JObj []) k = JUndef"
  by (simp add: get_def)

lemma get_Cons [simp]: "get (JObj ((k', v) # kvs)) k = (if k = k' then v else get (JObj kvs) k)"
  by (simp add: get_def)

lemma get_append: "get (JObj (xs @ ys)) k =
    (case map_of xs k of None \<Rightarrow> get (JObj ys) k | Some v \<Rightarrow> v)"
  by (simp add: get_def map_add_def split: option.split)

lemma has_own_Nil [simp]: "\<not> has_own (JObj []) k"
  by (simp add: has_own_def)

lemma has_own_Cons [simp]: "has_own (JObj ((k', v) # kvs)) k \<longleftrightarrow> k = k' \<or> has_own (JObj kvs) k"
  by (simp add: has_own_def)

lemma get_not_own: "\<not> has_own v k \<Longrightarrow> get v k = JUndef"
  by (auto simp: has_own_def get_def split: jsval.splits option.splits)

lemma is_record_simps [simp]:
  "is_record (JObj kvs)" "\<not> is_record JUndef" "\<not> is_record JNull" "\<not> is_record (JArr vs)"
  "\<not> is_record (JStr s)" "\<not> is_record (JNum n)" "\<not> is_record (JBool b)" "is_record (JDate d)"
  by (simp_all add: is_record_def)

lemma is_object_simps [simp]:
  "is_object (JObj kvs)" "\<not> is_object JUndef" "\<not> is_object JNull" "is_object (JArr vs)"
  "\<not> is_object (JStr s)" "\<not> is_object (JNum n)" "\<not> is_object (JBool b)" "is_object (JDate d)"
  by (simp_all add: is_object_def)

lemma nullish_simps [simp]:
  "nullish JUndef" "nullish JNull" "\<not> nullish (JStr s)" "\<not> nullish (JNum n)"
  "\<not> nullish (JBool b)" "\<not> nullish (JObj kvs)" "\<not> nullish (JArr vs)" "\<not> nullish (JDate d)"
  by (simp_all add: nullish_def)

lemma coalesce_simps [simp]:
  "coalesce JUndef b = b" "coalesce JNull b = b" "coalesce (JStr s) b = JStr s"
  "coalesce (JNum n) b = JNum n" "coalesce (JBool c) b = JBool c" "coalesce (JObj kvs) b = JObj kvs"
  "coalesce (JArr vs) b = JArr vs" "coalesce (JDate d) b = JDate d"
  by (simp_all add: coalesce_def)

lemma is_string_iff: "is_string v \<longleftrightarrow> (\<exists>s. v = JStr s)"
  by (cases v) auto

lemma is_string_the_str: "is_string v \<Longrightarrow> JStr (the_str v) = v"
  by (cases v) auto

lemma is_boolean_iff: "is_boolean v \<longleftrightarrow> (\<exists>b. v = JBool b)"
  by (cases v) auto

section \<open>Exceptions\<close>

definition and_then :: "'e + 'a \<Rightarrow> ('a \<Rightarrow> 'e + 'b) \<Rightarrow> 'e + 'b" where
  "and_then r f = (case r of Inl e \<Rightarrow> Inl e | Inr x \<Rightarrow> f x)"

definition ensure :: "bool \<Rightarrow> 'e \<Rightarrow> 'e + unit" where
  "ensure b e = (if b then Inr () else Inl e)"

fun mapM :: "('a \<Rightarrow> 'e + 'b) \<Rightarrow> 'a list \<Rightarrow> 'e + 'b list" where
  "mapM f [] = Inr []"
| "mapM f (x # xs) = and_then (f x) (\<lambda>y. and_then (mapM f xs) (\<lambda>ys. Inr (y # ys)))"

lemma and_then_simps [simp]: "and_then (Inl e) f = Inl e" "and_then (Inr x) f = f x"
  by (simp_all add: and_then_def)

lemma and_then_Inr: "and_then r f = Inr y \<longleftrightarrow> (\<exists>x. r = Inr x \<and> f x = Inr y)"
  by (cases r) auto

lemma and_then_Inl: "and_then r f = Inl e \<longleftrightarrow> r = Inl e \<or> (\<exists>x. r = Inr x \<and> f x = Inl e)"
  by (cases r) auto

lemma ensure_Inr [simp]: "ensure b e = Inr u \<longleftrightarrow> b"
  by (simp add: ensure_def)

lemma ensure_Inl [simp]: "ensure b e = Inl e' \<longleftrightarrow> \<not> b \<and> e' = e"
  by (auto simp: ensure_def)

lemma ensure_simps [simp]: "ensure True e = Inr ()" "ensure False e = Inl e"
  by (simp_all add: ensure_def)

lemma mapM_Inr: "mapM f xs = Inr ys \<longleftrightarrow> list_all2 (\<lambda>x y. f x = Inr y) xs ys"
proof (induction xs arbitrary: ys)
  case Nil
  then show ?case by auto
next
  case (Cons x xs)
  then show ?case by (auto simp: and_then_Inr list_all2_Cons1)
qed

lemma mapM_Inr_length: "mapM f xs = Inr ys \<Longrightarrow> length ys = length xs"
  by (simp add: mapM_Inr list_all2_lengthD)

lemma mapM_Inr_mem:
  assumes "mapM f xs = Inr ys" and "y \<in> set ys"
  shows "\<exists>x\<in>set xs. f x = Inr y"
proof -
  obtain i where i: "i < length ys" "y = ys ! i"
    using assms(2) by (auto simp: in_set_conv_nth)
  have "length xs = length ys" "f (xs ! i) = Inr (ys ! i)"
    using assms(1) i(1) by (simp_all add: mapM_Inr list_all2_conv_all_nth)
  then show ?thesis using i by (metis nth_mem)
qed

lemma mapM_map_Inr: "(\<And>y. y \<in> set ys \<Longrightarrow> f (g y) = Inr y) \<Longrightarrow> mapM f (map g ys) = Inr ys"
  by (induction ys) auto

lemmas res_simps = and_then_Inr and_then_Inl

text \<open>An array is read or the response is refused; a guard lets the rest run or throws.\<close>

lemma case_array_Inr:
  "(case v of JArr vs \<Rightarrow> f vs | _ \<Rightarrow> Inl e) = Inr r \<longleftrightarrow> (\<exists>vs. v = JArr vs \<and> f vs = Inr r)"
  by (cases v) auto

lemma guard_Inr:
  "(if b then Inl e else x) = Inr r \<longleftrightarrow> \<not> b \<and> x = Inr r"
  by simp

lemma map_sum_InrD: "map_sum id f x = Inr y \<Longrightarrow> \<exists>z. x = Inr z \<and> f z = y"
  by (cases x) auto

lemmas answer_simps = res_simps case_array_Inr guard_Inr

section \<open>The host\<close>

record url =
  u_protocol :: jsstring
  u_hostname :: jsstring
  u_port :: jsstring
  u_username :: jsstring
  u_password :: jsstring
  u_pathname :: jsstring
  u_search :: jsstring
  u_hash :: jsstring
  u_origin :: jsstring
  u_href :: jsstring

text \<open>\<open>dateParse s = None\<close> is \<open>NaN\<close>; \<open>urlParse s = None\<close> is a \<open>TypeError\<close> of
  the constructor; \<open>searchParams q\<close> are the entries of \<open>new URLSearchParams(q)\<close> in order.\<close>

record host =
  dateParse :: "jsstring \<Rightarrow> int option"
  urlParse :: "jsstring \<Rightarrow> url option"
  searchParams :: "jsstring \<Rightarrow> (jsstring \<times> jsstring) list"

end
