(* ===== verification/ApiBoundary.thy ===== *)
theory ApiBoundary
  imports JsRuntime
begin

text \<open>
  The boundary every member service of the mobile app crosses: thrown errors and how they are
  classified (\<open>apps/mobile/src/services/api-error.ts\<close>), the gateway's response envelope
  (\<open>api-envelope.ts\<close>), the offline check (\<open>connectivity.ts\<close>) and the base URL
  (\<open>api-config.ts\<close>). The two locales state what a validating normalizer of a service
  promises; every service theory interprets them on its own normalizers.
\<close>

section \<open>Errors\<close>

text \<open>
  \<open>JsError m\<close> is \<open>new Error(m)\<close>; \<open>AxiosError r\<close> carries the response (status and
  body) when the gateway sent one; \<open>ThrownValue\<close> is a thrown value that is no \<open>Error\<close>.
\<close>

datatype js_error =
    JsError jsstring
  | TypeError jsstring
  | URIError jsstring
  | AxiosError "(nat \<times> jsval) option"
  | KnownOfflineError
  | MemberSessionIdentityError
  | SessionChangedDuringRefreshError
  | RegistrationOutcomeUnknownError
  | OtpDeliveryUnknownError
  | ThrownValue

abbreviation throw :: "string \<Rightarrow> js_error" where
  "throw m \<equiv> JsError (js m)"

text \<open>The \<open>message\<close> of the \<open>Error\<close> instances that are not Axios errors.\<close>

fun error_message :: "js_error \<Rightarrow> jsstring option" where
  "error_message (JsError m) = Some m"
| "error_message (TypeError m) = Some m"
| "error_message (URIError m) = Some m"
| "error_message KnownOfflineError = Some (js ''You are offline. Reconnect and try again.'')"
| "error_message MemberSessionIdentityError =
     Some (js ''The server returned a profile for another member. Please sign in again.'')"
| "error_message SessionChangedDuringRefreshError =
     Some (js ''The active session changed while credentials were refreshing.'')"
| "error_message RegistrationOutcomeUnknownError =
     Some (js ''We could not confirm whether your account was created.'')"
| "error_message OtpDeliveryUnknownError =
     Some (js ''We could not confirm whether the verification code was delivered.'')"
| "error_message (AxiosError r) = None"
| "error_message ThrownValue = None"

fun httpStatus :: "js_error \<Rightarrow> nat option" where
  "httpStatus (AxiosError (Some (status, body))) = Some status"
| "httpStatus _ = None"

definition isAuthenticationRejection :: "js_error \<Rightarrow> bool" where
  "isAuthenticationRejection e \<longleftrightarrow> httpStatus e = Some 401 \<or> httpStatus e = Some 403"

definition isTerminalMemberSessionError :: "js_error \<Rightarrow> bool" where
  "isTerminalMemberSessionError e \<longleftrightarrow>
     e = MemberSessionIdentityError \<or> isAuthenticationRejection e \<or> httpStatus e = Some 404"

definition max_client_error_length :: nat where
  "max_client_error_length = 500"

fun safeClientErrorCopy :: "jsval \<Rightarrow> jsstring option" where
  "safeClientErrorCopy (JStr s) =
     (let copy = trim s in
      if 0 < length copy \<and> length copy \<le> max_client_error_length \<and> \<not> list_ex is_control copy
      then Some copy else None)"
| "safeClientErrorCopy _ = None"

fun apiErrorMessage :: "js_error \<Rightarrow> jsstring \<Rightarrow> jsstring" where
  "apiErrorMessage (AxiosError None) fallback = fallback"
| "apiErrorMessage (AxiosError (Some (status, body))) fallback =
     (case safeClientErrorCopy (get body ''error'') of
        Some m \<Rightarrow> m
      | None \<Rightarrow> (case safeClientErrorCopy (get body ''message'') of Some m \<Rightarrow> m | None \<Rightarrow> fallback))"
| "apiErrorMessage e fallback =
     (case error_message e of
        None \<Rightarrow> fallback
      | Some m \<Rightarrow> (case safeClientErrorCopy (JStr m) of Some c \<Rightarrow> c | None \<Rightarrow> fallback))"

fun isAmbiguousMutationFailure :: "js_error \<Rightarrow> bool" where
  "isAmbiguousMutationFailure (AxiosError None) = True"
| "isAmbiguousMutationFailure _ = False"

text \<open>What the app may show: trimmed, not empty, bounded, without control characters.\<close>

definition safe_copy :: "jsstring \<Rightarrow> bool" where
  "safe_copy m \<longleftrightarrow> trim m = m \<and> m \<noteq> [] \<and> length m \<le> 500 \<and> (\<forall>c\<in>set m. \<not> is_control c)"

lemma safeClientErrorCopy_Some: "safeClientErrorCopy v = Some m \<Longrightarrow> safe_copy m"
  by (cases v) (auto simp: safe_copy_def Let_def list_ex_iff max_client_error_length_def
      split: if_splits)

lemma safeClientErrorCopy_fixpoint: "safe_copy m \<Longrightarrow> safeClientErrorCopy (JStr m) = Some m"
  by (auto simp: safe_copy_def Let_def list_ex_iff max_client_error_length_def)

declare safeClientErrorCopy.simps [simp del]

lemma apiErrorMessage_cases: "apiErrorMessage e fallback = fallback \<or> safe_copy (apiErrorMessage e fallback)"
  by (induction e fallback rule: apiErrorMessage.induct)
    (auto dest: safeClientErrorCopy_Some split: option.splits)

section \<open>Connectivity\<close>

text \<open>\<open>isConnected\<close> and \<open>isInternetReachable\<close> are \<open>true\<close>, \<open>false\<close> or \<open>null\<close>.\<close>

record netinfo =
  isConnected :: "bool option"
  isInternetReachable :: "bool option"

definition isKnownOffline :: "netinfo \<Rightarrow> bool" where
  "isKnownOffline st \<longleftrightarrow> isConnected st = Some False \<or> isInternetReachable st = Some False"

text \<open>\<open>NetInfo.fetch()\<close> may reject: \<open>None\<close>.\<close>

definition ensureConnectionAvailable :: "netinfo option \<Rightarrow> js_error + unit" where
  "ensureConnectionAvailable fetched =
     (case fetched of
        None \<Rightarrow> Inr ()
      | Some st \<Rightarrow> if isKnownOffline st then Inl KnownOfflineError else Inr ())"

definition connectivityErrorMessage :: "js_error \<Rightarrow> jsstring \<Rightarrow> jsstring" where
  "connectivityErrorMessage e fallback =
     (case e of KnownOfflineError \<Rightarrow> js ''You are offline. Reconnect and try again.'' | _ \<Rightarrow> fallback)"

section \<open>The response envelope\<close>

definition unwrapApiData :: "jsval \<Rightarrow> js_error \<Rightarrow> js_error + jsval" where
  "unwrapApiData v e =
     (if \<not> is_record v then Inr v
      else if \<not> has_own v ''success'' then Inr v
      else if get v ''success'' \<noteq> JBool True \<or> \<not> has_own v ''data'' then Inl e
      else Inr (get v ''data''))"

definition envelopeTotal :: "jsval \<Rightarrow> jsval" where
  "envelopeTotal v =
     (if \<not> is_record v then JUndef
      else let pagination = get v ''pagination'' in
        if \<not> is_record pagination then JUndef else get pagination ''total'')"

definition envelope :: "jsval \<Rightarrow> jsval" where
  "envelope d = JObj [(''success'', JBool True), (''data'', d)]"

lemma unwrap_envelope [simp]: "unwrapApiData (envelope d) e = Inr d"
  by (simp add: unwrapApiData_def envelope_def)

lemma has_own_record: "has_own v k \<Longrightarrow> is_record v"
  by (auto simp: is_record_def has_own_def split: jsval.splits)

text \<open>A payload is used only when the gateway sent it bare or confirmed success.\<close>

lemma unwrapApiData_Inr:
  "unwrapApiData v e = Inr d \<longleftrightarrow>
     (\<not> has_own v ''success'' \<and> d = v)
     \<or> (get v ''success'' = JBool True \<and> has_own v ''data'' \<and> d = get v ''data'')"
proof (cases "has_own v ''success''")
  case True
  then show ?thesis
    using has_own_record [OF True] by (auto simp: unwrapApiData_def)
next
  case False
  then have "get v ''success'' = JUndef" by (rule get_not_own)
  with False show ?thesis by (auto simp: unwrapApiData_def)
qed

section \<open>The base URL\<close>

definition production_api_url :: jsstring where
  "production_api_url = js ''https://api.altaros.com/api/v1''"

definition development_api_url :: jsstring where
  "development_api_url = js ''http://localhost:8080/api/v1''"

definition strip_slashes :: "jsstring \<Rightarrow> jsstring" where
  "strip_slashes s = rev (dropWhile (\<lambda>c. c = 47) (rev s))"

definition resolveApiBaseUrl :: "host \<Rightarrow> jsstring option \<Rightarrow> bool \<Rightarrow> js_error + jsstring" where
  "resolveApiBaseUrl h value development =
     (let configured = (case value of None \<Rightarrow> [] | Some v \<Rightarrow> trim v);
          candidate = (if configured \<noteq> [] then configured
            else if development then development_api_url else production_api_url);
          e = throw ''EXPO_PUBLIC_API_URL is not a valid gateway URL.''
      in if 2048 < length candidate \<or> list_ex is_control candidate then Inl e
         else case urlParse h candidate of
             None \<Rightarrow> Inl e
           | Some u \<Rightarrow>
               (let path = strip_slashes (u_pathname u);
                    valid = (u_protocol u = js ''https:'' \<or> (development \<and> u_protocol u = js ''http:''))
                      \<and> u_hostname u \<noteq> [] \<and> u_username u = [] \<and> u_password u = []
                      \<and> u_search u = [] \<and> u_hash u = [] \<and> path = js ''/api/v1''
                in if valid then Inr (u_origin u @ path) else Inl e))"

section \<open>Requests\<close>

datatype http_method = GET | POST | PUT | DELETE

record request =
  rq_method :: http_method
  rq_path :: jsstring
  rq_params :: "(string \<times> jsval) list"
  rq_body :: jsval

text \<open>
  The gateway as one call of \<open>api\<close> sees it: the \<open>data\<close> of the response or the thrown
  error. It is an argument of every service operation, so a theorem holds for all answers.
\<close>

type_synonym api = "request \<Rightarrow> js_error + jsval"

definition api_get :: "api \<Rightarrow> jsstring \<Rightarrow> (string \<times> jsval) list \<Rightarrow> js_error + jsval" where
  "api_get api p ps = api \<lparr>rq_method = GET, rq_path = p, rq_params = ps, rq_body = JUndef\<rparr>"

definition api_post :: "api \<Rightarrow> jsstring \<Rightarrow> jsval \<Rightarrow> js_error + jsval" where
  "api_post api p b = api \<lparr>rq_method = POST, rq_path = p, rq_params = [], rq_body = b\<rparr>"

definition api_put :: "api \<Rightarrow> jsstring \<Rightarrow> js_error + jsval" where
  "api_put api p = api \<lparr>rq_method = PUT, rq_path = p, rq_params = [], rq_body = JUndef\<rparr>"

definition api_delete :: "api \<Rightarrow> jsstring \<Rightarrow> js_error + jsval" where
  "api_delete api p = api \<lparr>rq_method = DELETE, rq_path = p, rq_params = [], rq_body = JUndef\<rparr>"

lemmas api_calls = api_get_def api_post_def api_put_def api_delete_def

text \<open>A path segment; the callers have checked that the segment is a safe identifier.\<close>

definition path_segment :: "jsstring \<Rightarrow> jsstring" where
  "path_segment s = (case encodeURIComponent s of Some t \<Rightarrow> t | None \<Rightarrow> s)"

section \<open>Identifiers\<close>

text \<open>\<open>/^[A-Za-z0-9][A-Za-z0-9._:-]*$/\<close> with at most 128 code units: the check every
  service has its own copy of.\<close>

definition id_unit :: "nat \<Rightarrow> bool" where
  "id_unit c \<longleftrightarrow> is_alnum c \<or> c = 46 \<or> c = 95 \<or> c = 58 \<or> c = 45"

definition safe_id :: "jsstring \<Rightarrow> bool" where
  "safe_id s \<longleftrightarrow> (case s of [] \<Rightarrow> False | c # cs \<Rightarrow> is_alnum c \<and> list_all id_unit cs)"

definition valid_id :: "jsval \<Rightarrow> bool" where
  "valid_id v \<longleftrightarrow> is_string v \<and> length (the_str v) \<le> 128 \<and> safe_id (the_str v)"

lemma valid_idE:
  assumes "valid_id v"
  obtains s where "v = JStr s" and "length s \<le> 128" and "safe_id s"
  using assms by (auto simp: valid_id_def is_string_iff)

lemma valid_id_JStr: "valid_id (JStr s) \<longleftrightarrow> length s \<le> 128 \<and> safe_id s"
  by (simp add: valid_id_def)

lemma valid_id_not_undef [simp]: "\<not> valid_id JUndef" "\<not> valid_id JNull"
  by (simp_all add: valid_id_def)

lemma valid_id_is_string: "valid_id v \<Longrightarrow> JStr (the_str v) = v"
  by (auto elim: valid_idE)

text \<open>Text checks the services share: \<open>nonEmptyString\<close> and the two \<open>boundedText\<close>.\<close>

definition nonEmptyString :: "jsval \<Rightarrow> bool" where
  "nonEmptyString v \<longleftrightarrow> is_string v \<and> trim (the_str v) \<noteq> []"

definition free_of_controls :: "bool \<Rightarrow> jsstring \<Rightarrow> bool" where
  "free_of_controls allowLineBreaks s =
     (\<not> list_ex (if allowLineBreaks then is_unsafe_control else is_control) s)"

definition bounded_text :: "jsval \<Rightarrow> nat \<Rightarrow> bool \<Rightarrow> bool" where
  "bounded_text v maxLength allowLineBreaks \<longleftrightarrow>
     is_string v \<and> length (the_str v) \<le> maxLength \<and> free_of_controls allowLineBreaks (the_str v)"

definition required_text :: "jsval \<Rightarrow> nat \<Rightarrow> bool \<Rightarrow> bool" where
  "required_text v maxLength allowLineBreaks \<longleftrightarrow>
     nonEmptyString v \<and> bounded_text v maxLength allowLineBreaks"

definition valid_date :: "host \<Rightarrow> jsval \<Rightarrow> bool" where
  "valid_date h v \<longleftrightarrow> is_string v \<and> length (the_str v) \<le> 64 \<and> dateParse h (the_str v) \<noteq> None"

lemma text_is_string:
  "nonEmptyString v \<Longrightarrow> JStr (the_str v) = v"
  "bounded_text v n b \<Longrightarrow> JStr (the_str v) = v"
  "required_text v n b \<Longrightarrow> JStr (the_str v) = v"
  "valid_date h v \<Longrightarrow> JStr (the_str v) = v"
  by (auto simp: nonEmptyString_def bounded_text_def required_text_def valid_date_def is_string_iff)

lemma text_not_undef [simp]:
  "\<not> nonEmptyString JUndef" "\<not> bounded_text JUndef n b" "\<not> required_text JUndef n b"
  "\<not> valid_date h JUndef"
  by (simp_all add: nonEmptyString_def bounded_text_def required_text_def valid_date_def)

text \<open>An optional property of a result: present or spread away.\<close>

definition opt_str :: "jsval \<Rightarrow> jsstring option" where
  "opt_str v = (if v = JUndef then None else Some (the_str v))"

definition opt_val :: "('a \<Rightarrow> jsval) \<Rightarrow> 'a option \<Rightarrow> jsval" where
  "opt_val f x = (case x of None \<Rightarrow> JUndef | Some y \<Rightarrow> f y)"

lemma opt_str_simps [simp]: "opt_str JUndef = None" "opt_str (JStr s) = Some s"
  by (simp_all add: opt_str_def)

lemma opt_val_simps [simp]: "opt_val f None = JUndef" "opt_val f (Some y) = f y"
  by (simp_all add: opt_val_def)

lemma opt_str_val [simp]: "opt_str (opt_val JStr x) = x"
  by (cases x) simp_all

text \<open>\<open>v === undefined || check(v)\<close>.\<close>

definition optional :: "(jsval \<Rightarrow> bool) \<Rightarrow> jsval \<Rightarrow> bool" where
  "optional check v \<longleftrightarrow> v = JUndef \<or> check v"

lemma optional_simps [simp]: "optional check JUndef" "optional check (JStr s) \<longleftrightarrow> check (JStr s)"
  by (simp_all add: optional_def)

lemma optional_val: "optional check (opt_val f x) \<longleftrightarrow> f (the x) = JUndef \<or> (\<forall>y. x = Some y \<longrightarrow> check (f y))"
  by (cases x) (auto simp: optional_def)

lemma optional_JStr [simp]: "optional check (opt_val JStr x) \<longleftrightarrow> (\<forall>s. x = Some s \<longrightarrow> check (JStr s))"
  by (cases x) (auto simp: optional_def)

lemma opt_str_Some:
  assumes "opt_str v = Some s" and "optional check v" and "\<And>w. check w \<Longrightarrow> is_string w"
  shows "check (JStr s)"
proof -
  have "check v" and s: "s = the_str v"
    using assms(1,2) by (auto simp: optional_def opt_str_def split: if_splits)
  then show ?thesis using is_string_the_str [OF assms(3)] by simp
qed

text \<open>What a checked property is after it was copied into a result.\<close>

abbreviation id_ok :: "jsstring \<Rightarrow> bool" where
  "id_ok s \<equiv> valid_id (JStr s)"

lemma checks_strings:
  "valid_id v \<Longrightarrow> is_string v" "nonEmptyString v \<Longrightarrow> is_string v" "bounded_text v n b \<Longrightarrow> is_string v"
  "required_text v n b \<Longrightarrow> is_string v" "valid_date h v \<Longrightarrow> is_string v"
  by (auto simp: valid_id_def nonEmptyString_def bounded_text_def required_text_def valid_date_def)

lemma accepted:
  "valid_id v \<Longrightarrow> valid_id (JStr (the_str v))"
  "nonEmptyString v \<Longrightarrow> nonEmptyString (JStr (the_str v))"
  "bounded_text v n b \<Longrightarrow> bounded_text (JStr (the_str v)) n b"
  "required_text v n b \<Longrightarrow> required_text (JStr (the_str v)) n b"
  "valid_date h v \<Longrightarrow> valid_date h (JStr (the_str v))"
  by (simp_all add: is_string_the_str checks_strings)

lemma accepted_optional:
  "optional valid_id v \<Longrightarrow> \<forall>s. opt_str v = Some s \<longrightarrow> valid_id (JStr s)"
  "optional nonEmptyString v \<Longrightarrow> \<forall>s. opt_str v = Some s \<longrightarrow> nonEmptyString (JStr s)"
  "optional (\<lambda>w. bounded_text w n b) v \<Longrightarrow> \<forall>s. opt_str v = Some s \<longrightarrow> bounded_text (JStr s) n b"
  "optional (\<lambda>w. required_text w n b) v \<Longrightarrow> \<forall>s. opt_str v = Some s \<longrightarrow> required_text (JStr s) n b"
  "optional (valid_date h) v \<Longrightarrow> \<forall>s. opt_str v = Some s \<longrightarrow> valid_date h (JStr s)"
  using opt_str_Some [of v _ valid_id] opt_str_Some [of v _ nonEmptyString]
    opt_str_Some [of v _ "\<lambda>w. bounded_text w n b"] opt_str_Some [of v _ "\<lambda>w. required_text w n b"]
    opt_str_Some [of v _ "valid_date h"]
  by (simp_all add: checks_strings)

lemma accepted_string: "v = JStr s \<Longrightarrow> the_str v = s"
  by simp

text \<open>A union of string literals: the set of its values, tested with \<open>has\<close>.\<close>

definition enum_of :: "('a \<Rightarrow> jsstring) \<Rightarrow> 'a list \<Rightarrow> jsval \<Rightarrow> 'a option" where
  "enum_of text_of all v = find (\<lambda>x. v = JStr (text_of x)) all"

lemma enum_of_Some: "enum_of f all v = Some x \<Longrightarrow> v = JStr (f x) \<and> x \<in> set all"
  by (auto simp: enum_of_def find_Some_iff)

lemma enum_of_text: "inj f \<Longrightarrow> x \<in> set all \<Longrightarrow> enum_of f all (JStr (f x)) = Some x"
  by (induction all) (auto simp: enum_of_def inj_eq)

lemma enum_of_iff: "inj f \<Longrightarrow> set all = UNIV \<Longrightarrow> enum_of f all v = Some x \<longleftrightarrow> v = JStr (f x)"
  using enum_of_Some [of f all v x] enum_of_text [of f x all] by auto

lemma enum_of_None: "enum_of f all v = None \<longleftrightarrow> (\<forall>x\<in>set all. v \<noteq> JStr (f x))"
  by (auto simp: enum_of_def find_None_iff)

section \<open>Formats\<close>

text \<open>\<open>/^[a-f0-9]{24}$/i\<close>.\<close>

definition hex_digit_unit :: "nat \<Rightarrow> bool" where
  "hex_digit_unit c \<longleftrightarrow> is_digit c \<or> (97 \<le> c \<and> c \<le> 102) \<or> (65 \<le> c \<and> c \<le> 70)"

definition mongo_id :: "jsstring \<Rightarrow> bool" where
  "mongo_id s \<longleftrightarrow> length s = 24 \<and> list_all hex_digit_unit s"

lemma hex_lower: "hex_digit_unit c \<Longrightarrow> hex_digit_unit (lower_unit c)"
  by (auto simp: hex_digit_unit_def lower_unit_def is_digit_def)

lemma mongo_id_lower: "mongo_id s \<Longrightarrow> mongo_id (toLowerCase s)"
  by (auto simp: mongo_id_def toLowerCase_def list_all_iff hex_lower)

lemma mongo_id_trim: "mongo_id s \<Longrightarrow> trim s = s \<and> s \<noteq> []"
proof -
  assume id: "mongo_id s"
  then have ne: "s \<noteq> []" by (auto simp: mongo_id_def)
  have "\<not> is_space c" if "c \<in> set s" for c
    using id that by (auto simp: mongo_id_def list_all_iff hex_digit_unit_def is_space_def is_digit_def)
  with ne show ?thesis by (simp add: trim_fixpoint)
qed

text \<open>\<open>/^[^\s@]+@[^\s@]+\.[^\s@]+$/\<close>.\<close>

definition email_unit :: "nat \<Rightarrow> bool" where
  "email_unit c \<longleftrightarrow> \<not> is_space c \<and> c \<noteq> 64"

definition email_shape :: "jsstring \<Rightarrow> bool" where
  "email_shape s \<longleftrightarrow>
     (let local = takeWhile (\<lambda>c. c \<noteq> 64) s; rest = dropWhile (\<lambda>c. c \<noteq> 64) s; domain = tl rest
      in local \<noteq> [] \<and> list_all email_unit local \<and> rest \<noteq> [] \<and> list_all email_unit domain
         \<and> 46 \<in> set (tl (butlast domain)))"

text \<open>Calendar dates \<open>YYYY-MM-DD\<close>: what survives \<open>new Date(..).toISOString()\<close>.\<close>

definition digits_value :: "jsstring \<Rightarrow> nat" where
  "digits_value s = foldl (\<lambda>a c. 10 * a + (c - 48)) 0 s"

definition leap_year :: "nat \<Rightarrow> bool" where
  "leap_year y \<longleftrightarrow> y mod 4 = 0 \<and> (y mod 100 \<noteq> 0 \<or> y mod 400 = 0)"

definition days_in_month :: "nat \<Rightarrow> nat \<Rightarrow> nat" where
  "days_in_month y m = (if m = 2 then (if leap_year y then 29 else 28)
     else if m \<in> {4, 6, 9, 11} then 30 else 31)"

definition date_shape :: "jsstring \<Rightarrow> bool" where
  "date_shape s \<longleftrightarrow> length s = 10 \<and> s ! 4 = 45 \<and> s ! 7 = 45
     \<and> list_all is_digit (take 4 s @ take 2 (drop 5 s) @ drop 8 s)"

definition calendar_date :: "jsstring \<Rightarrow> bool" where
  "calendar_date s \<longleftrightarrow> date_shape s
     \<and> (let y = digits_value (take 4 s); m = digits_value (take 2 (drop 5 s)); d = digits_value (drop 8 s)
        in 1 \<le> m \<and> m \<le> 12 \<and> 1 \<le> d \<and> d \<le> days_in_month y m)"

section \<open>What a normalizer promises\<close>

text \<open>
  A service turns an \<open>unknown\<close> response into a record or throws. \<open>good\<close> is what the record
  promises; \<open>ident\<close> is the property whose duplicates the list operations refuse.
\<close>

definition page_ok :: "('r \<Rightarrow> bool) \<Rightarrow> ('r \<Rightarrow> 'k) \<Rightarrow> int \<Rightarrow> 'r list \<Rightarrow> int \<Rightarrow> bool" where
  "page_ok good ident limit rs tot \<longleftrightarrow>
     (\<forall>r\<in>set rs. good r) \<and> distinct (map ident rs) \<and> int (length rs) \<le> limit
     \<and> int (length rs) \<le> tot"

lemma page_ok_mono: "page_ok good ident n rs tot \<Longrightarrow> n \<le> m \<Longrightarrow> page_ok good ident m rs tot"
  by (simp add: page_ok_def)

locale record_normalizer =
  fixes norm :: "jsval \<Rightarrow> js_error + 'r"
    and good :: "'r \<Rightarrow> bool"
  assumes norm_good: "norm v = Inr r \<Longrightarrow> good r"
begin

lemma mapM_good:
  assumes "mapM norm vs = Inr rs"
  shows "\<forall>r\<in>set rs. good r"
  using assms by (blast dest: mapM_Inr_mem norm_good)

lemma page_okI:
  assumes "mapM norm vs = Inr rs" and "distinct (map ident rs)"
    and "int (length vs) \<le> limit" and "int (length vs) \<le> tot"
  shows "page_ok good ident limit rs tot"
  using assms mapM_good [OF assms(1)] mapM_Inr_length [OF assms(1)] by (simp add: page_ok_def)

end

text \<open>A normalizer whose records can be sent again: on the encoding of a well-formed record it
  is the identity.\<close>

locale canonical_normalizer = record_normalizer +
  fixes encode :: "'a \<Rightarrow> jsval"
  assumes norm_encode: "good r \<Longrightarrow> norm (encode r) = Inr r"
begin

lemma norm_idem: "norm v = Inr r \<Longrightarrow> norm (encode r) = Inr r"
  by (rule norm_encode, rule norm_good)

lemma norm_range: "(\<exists>v. norm v = Inr r) \<longleftrightarrow> good r"
  using norm_good norm_encode by blast

lemma mapM_encode: "\<forall>r\<in>set rs. good r \<Longrightarrow> mapM norm (map encode rs) = Inr rs"
  by (rule mapM_map_Inr) (simp add: norm_encode)

lemma encode_inj: "good r \<Longrightarrow> good r' \<Longrightarrow> encode r = encode r' \<Longrightarrow> r = r'"
  by (metis norm_encode sum.inject(2))

end

text \<open>A partial map to canonical forms.\<close>

locale canonicalizer =
  fixes canon :: "'a \<Rightarrow> jsstring option"
    and embed :: "jsstring \<Rightarrow> 'a"
  assumes canon_fixpoint: "canon v = Some s \<Longrightarrow> canon (embed s) = Some s"
begin

lemma canon_idem: "canon v = Some s \<Longrightarrow> canon (embed s) = Some t \<Longrightarrow> t = s"
  by (simp add: canon_fixpoint)

lemma canon_image: "(\<exists>v. canon v = Some s) \<longleftrightarrow> canon (embed s) = Some s"
  using canon_fixpoint by blast

end

interpretation client_copy: canonicalizer safeClientErrorCopy JStr
  by unfold_locales (blast intro: safeClientErrorCopy_fixpoint dest: safeClientErrorCopy_Some)

end
