(* ===== verification/Money.thy ===== *)
theory Money
  imports ApiBoundary
begin

text \<open>
  Amounts and payment quotes: the first part of \<open>apps/mobile/src/services/giving.service.ts\<close>.
  An amount is a decimal text; its pesewas are a natural number, as \<open>BigInt\<close> has them, and
  \<open>render_minor\<close> is the one text the finance API is sent for each number.
\<close>

section \<open>Decimal texts\<close>

definition dec_value :: "jsstring \<Rightarrow> nat" where
  "dec_value s = foldl (\<lambda>a c. 10 * a + (c - 48)) 0 s"

fun dec :: "nat \<Rightarrow> jsstring" where
  "dec n = (if n < 10 then [48 + n] else dec (n div 10) @ [48 + n mod 10])"

declare dec.simps [simp del]

lemma dec_value_snoc [simp]: "dec_value (s @ [c]) = 10 * dec_value s + (c - 48)"
  by (simp add: dec_value_def)

lemma dec_value_Nil [simp]: "dec_value [] = 0"
  by (simp add: dec_value_def)

lemma dec_value_single [simp]: "dec_value [c] = c - 48"
  by (simp add: dec_value_def)

lemma dec_value_dec [simp]: "dec_value (dec n) = n"
proof (induction n rule: dec.induct)
  case (1 n)
  then show ?case by (subst dec.simps) (auto simp: dec_value_def [of "[_]"])
qed

lemma dec_nonempty [simp]: "dec n \<noteq> []"
  by (subst dec.simps) simp

lemma digit_unit [simp]: "x < 10 \<Longrightarrow> is_digit (48 + x)"
  by (simp add: is_digit_def)

lemma digitE:
  assumes "is_digit c"
  obtains x where "c = 48 + x" and "x < 10"
  using assms by (intro that [of "c - 48"]) (auto simp: is_digit_def)

lemma dec_digits: "list_all is_digit (dec n)"
proof (induction n rule: dec.induct)
  case (1 n)
  then show ?case by (subst dec.simps) auto
qed

lemma dec_inject [simp]: "dec m = dec n \<longleftrightarrow> m = n"
  by (metis dec_value_dec)

text \<open>\<open>replace(/^0+(?=\d)/, '')\<close> on a text of digits.\<close>

fun strip_zeros :: "jsstring \<Rightarrow> jsstring" where
  "strip_zeros (c # d # s) = (if c = 48 then strip_zeros (d # s) else c # d # s)"
| "strip_zeros s = s"

lemma dec_value_append:
  "dec_value (s @ t) = dec_value s * 10 ^ length t + dec_value t"
proof (induction t rule: rev_induct)
  case (snoc c t)
  have "dec_value ((s @ t) @ [c]) = 10 * (dec_value s * 10 ^ length t + dec_value t) + (c - 48)"
    by (simp only: dec_value_snoc snoc.IH)
  then show ?case by (simp add: algebra_simps)
qed simp

lemma dec_value_Cons: "dec_value (c # s) = (c - 48) * 10 ^ length s + dec_value s"
  using dec_value_append [of "[c]" s] by simp

lemma strip_zeros_snoc:
  assumes "list_all is_digit ws" and "ws \<noteq> []"
  shows "strip_zeros (ws @ [c]) = (if dec_value ws = 0 then [c] else strip_zeros ws @ [c])"
  using assms
proof (induction ws rule: strip_zeros.induct)
  case (1 c d s)
  then show ?case by (auto simp: dec_value_Cons is_digit_def)
qed (auto simp: dec_value_Cons is_digit_def)

lemma strip_zeros_dec: "list_all is_digit ws \<Longrightarrow> ws \<noteq> [] \<Longrightarrow> strip_zeros ws = dec (dec_value ws)"
proof (induction ws rule: rev_induct)
  case (snoc c ws)
  obtain x where c: "c = 48 + x" "x < 10" using snoc.prems by (auto elim: digitE)
  show ?case
  proof (cases "dec_value ws = 0")
    case True
    then have "strip_zeros (ws @ [c]) = [c]"
      using snoc.prems by (cases "ws = []") (simp_all add: strip_zeros_snoc)
    with True c show ?thesis by (simp add: dec.simps [of x])
  next
    case False
    then have "ws \<noteq> []" by auto
    moreover have "dec (10 * dec_value ws + x) = dec (dec_value ws) @ [48 + x]"
      using False c(2) by (subst dec.simps) simp
    ultimately show ?thesis
      using False snoc c by (simp add: strip_zeros_snoc)
  qed
qed simp

section \<open>Gift amounts\<close>

text \<open>\<open>/^\d+(?:\.\d{1,2})?$/\<close>.\<close>

definition amount_shape :: "jsstring \<Rightarrow> bool" where
  "amount_shape s \<longleftrightarrow>
     (let whole = takeWhile (\<lambda>c. c \<noteq> 46) s; rest = dropWhile (\<lambda>c. c \<noteq> 46) s; fraction = tl rest
      in whole \<noteq> [] \<and> list_all is_digit whole
         \<and> (rest = [] \<or> (list_all is_digit fraction \<and> 1 \<le> length fraction \<and> length fraction \<le> 2)))"

definition padEnd2 :: "jsstring \<Rightarrow> jsstring" where
  "padEnd2 s = s @ replicate (2 - length s) 48"

definition canonicalGiftAmount :: "jsstring \<Rightarrow> jsstring option" where
  "canonicalGiftAmount v =
     (let candidate = trim v in
      if \<not> amount_shape candidate then None
      else
        let rawWhole = takeWhile (\<lambda>c. c \<noteq> 46) candidate;
            rawFraction = tl (dropWhile (\<lambda>c. c \<noteq> 46) candidate);
            whole = strip_zeros rawWhole
        in if \<not> list_ex (\<lambda>c. 49 \<le> c \<and> c \<le> 57) (whole @ rawFraction) then None
           else
             let fraction = padEnd2 rawFraction;
                 minor = dec_value whole * 100 + dec_value fraction
             in if max_safe_integer < int minor then None
                else Some (whole @ 46 # fraction))"

definition canonicalAmountMinor :: "jsstring \<Rightarrow> js_error + int" where
  "canonicalAmountMinor v =
     (case canonicalGiftAmount v of
        None \<Rightarrow> Inl (throw ''The gift amount is not valid.'')
      | Some canonical \<Rightarrow>
          Inr (int (dec_value (takeWhile (\<lambda>c. c \<noteq> 46) canonical) * 100
             + dec_value (tl (dropWhile (\<lambda>c. c \<noteq> 46) canonical)))))"

definition render_minor :: "nat \<Rightarrow> jsstring" where
  "render_minor n = dec (n div 100) @ [46, 48 + n mod 100 div 10, 48 + n mod 10]"

lemma digits_no_dot: "list_all is_digit ws \<Longrightarrow> c \<in> set ws \<Longrightarrow> c \<noteq> 46"
  by (auto simp: list_all_iff is_digit_def)

lemma split_dot:
  assumes "list_all is_digit ws"
  shows "takeWhile (\<lambda>c. c \<noteq> 46) (ws @ 46 # fs) = ws" "dropWhile (\<lambda>c. c \<noteq> 46) (ws @ 46 # fs) = 46 # fs"
  using digits_no_dot [OF assms]
  by (simp_all add: takeWhile_append dropWhile_append3 takeWhile_append2 dropWhile_append)

lemma zero_digits: "list_all is_digit s \<Longrightarrow> \<not> list_ex (\<lambda>c. 49 \<le> c \<and> c \<le> 57) s \<longleftrightarrow> dec_value s = 0"
proof (induction s rule: rev_induct)
  case (snoc c s)
  then show ?case by (auto simp: is_digit_def)
qed simp

lemma two_digits:
  assumes "list_all is_digit fs" and "length fs = 2"
  shows "fs = [48 + dec_value fs div 10, 48 + dec_value fs mod 10]" and "dec_value fs < 100"
proof -
  obtain a b where "fs = [a, b]" using assms(2) by (metis length_0_conv length_Suc_conv numeral_2_eq_2)
  moreover from this obtain x y where "a = 48 + x" "x < 10" "b = 48 + y" "y < 10"
    using assms(1) by (auto elim!: digitE)
  ultimately have fs: "fs = [48 + x, 48 + y]" "x < 10" "y < 10" by simp_all
  then have "dec_value fs = x * 10 + y" by (simp add: dec_value_Cons)
  then show "fs = [48 + dec_value fs div 10, 48 + dec_value fs mod 10]" "dec_value fs < 100"
    using fs by simp_all
qed

text \<open>The two parts of an amount, and what they come to.\<close>

definition amount_minor :: "jsstring \<Rightarrow> nat" where
  "amount_minor s = dec_value (takeWhile (\<lambda>c. c \<noteq> 46) s) * 100
     + dec_value (padEnd2 (tl (dropWhile (\<lambda>c. c \<noteq> 46) s)))"

lemma padEnd2_digits:
  assumes "list_all is_digit fs" and "length fs \<le> 2"
  shows "list_all is_digit (padEnd2 fs)" and "length (padEnd2 fs) = 2"
    and "dec_value (padEnd2 fs) = 0 \<longleftrightarrow> dec_value fs = 0"
  using assms by (auto simp: padEnd2_def list_all_iff is_digit_def dec_value_append dec_value_Cons
      numeral_2_eq_2 le_Suc_eq length_Suc_conv)

lemma render_parts:
  assumes "list_all is_digit ws" "ws \<noteq> []" "list_all is_digit fs" "length fs = 2"
  shows "strip_zeros ws @ 46 # fs = render_minor (dec_value ws * 100 + dec_value fs)"
proof -
  have fs: "fs = [48 + dec_value fs div 10, 48 + dec_value fs mod 10]" "dec_value fs < 100"
    using two_digits [OF assms(3,4)] .
  have "(dec_value ws * 100 + dec_value fs) mod 10 = (dec_value fs + 10 * (dec_value ws * 10)) mod 10"
    by (simp add: algebra_simps)
  also have "\<dots> = dec_value fs mod 10" by (rule mod_mult_self2)
  finally have "(dec_value ws * 100 + dec_value fs) mod 10 = dec_value fs mod 10" .
  then show ?thesis
    using fs strip_zeros_dec [OF assms(1,2)] by (simp add: render_minor_def)
qed

lemma amount_shapeE:
  assumes "amount_shape s"
  obtains ws fs where "takeWhile (\<lambda>c. c \<noteq> 46) s = ws" "tl (dropWhile (\<lambda>c. c \<noteq> 46) s) = fs"
    and "list_all is_digit ws" "ws \<noteq> []" "list_all is_digit fs" "length fs \<le> 2"
proof -
  have parts: "list_all is_digit (tl r) \<and> length (tl r) \<le> 2"
    if "r = [] \<or> list_all is_digit (tl r) \<and> 1 \<le> length (tl r) \<and> length (tl r) \<le> 2" for r :: jsstring
    using that by auto
  show ?thesis
    using assms that parts unfolding amount_shape_def Let_def by blast
qed

text \<open>What the canonical text is: the rendering of the amount, when it is positive and exact.\<close>

lemma canonicalGiftAmount_iff:
  "canonicalGiftAmount v = Some c \<longleftrightarrow> amount_shape (trim v) \<and> 0 < amount_minor (trim v)
     \<and> int (amount_minor (trim v)) \<le> max_safe_integer \<and> c = render_minor (amount_minor (trim v))"
proof (cases "amount_shape (trim v)")
  case True
  then obtain ws fs where parts: "takeWhile (\<lambda>c. c \<noteq> 46) (trim v) = ws"
      "tl (dropWhile (\<lambda>c. c \<noteq> 46) (trim v)) = fs"
    and d: "list_all is_digit ws" "ws \<noteq> []" "list_all is_digit fs" "length fs \<le> 2"
    by (rule amount_shapeE)
  note pad = padEnd2_digits [OF d(3,4)]
  have sz: "strip_zeros ws = dec (dec_value ws)" using d by (simp add: strip_zeros_dec)
  have minor: "amount_minor (trim v) = dec_value ws * 100 + dec_value (padEnd2 fs)"
    by (simp add: amount_minor_def parts)
  have zero: "\<not> list_ex (\<lambda>c. 49 \<le> c \<and> c \<le> 57) (strip_zeros ws @ fs) \<longleftrightarrow> amount_minor (trim v) = 0"
    using zero_digits [OF dec_digits, of "dec_value ws"] zero_digits [OF d(3)] pad(3)
    by (auto simp: sz minor)
  have rendered: "strip_zeros ws @ 46 # padEnd2 fs = render_minor (amount_minor (trim v))"
    unfolding minor by (rule render_parts [OF d(1,2) pad(1,2)])
  have total: "dec_value (strip_zeros ws) * 100 + dec_value (padEnd2 fs) = amount_minor (trim v)"
    by (simp add: sz minor)
  show ?thesis
    unfolding canonicalGiftAmount_def Let_def parts zero rendered total using True by auto
qed (simp add: canonicalGiftAmount_def Let_def)

lemma render_minor_parts:
  "takeWhile (\<lambda>c. c \<noteq> 46) (render_minor n) = dec (n div 100)"
  "dropWhile (\<lambda>c. c \<noteq> 46) (render_minor n) = [46, 48 + n mod 100 div 10, 48 + n mod 10]"
  using split_dot [OF dec_digits] by (simp_all add: render_minor_def)

lemma render_minor_value:
  "dec_value (dec (n div 100)) * 100 + dec_value [48 + n mod 100 div 10, 48 + n mod 10] = n"
proof -
  have "n mod 100 = n mod 100 div 10 * 10 + n mod 10"
    using div_mult_mod_eq [of "n mod 100" 10] by (simp add: mod_mod_cancel)
  then show ?thesis
    using div_mult_mod_eq [of n 100] by (simp add: dec_value_Cons)
qed

lemma render_minor_shape: "amount_shape (render_minor n)" "amount_minor (render_minor n) = n"
  using render_minor_value [of n]
  by (simp_all add: amount_shape_def amount_minor_def render_minor_parts padEnd2_def dec_digits
      less_mult_imp_div_less)

lemma trim_render_minor [simp]: "trim (render_minor n) = render_minor n"
proof (rule trim_fixpoint, rule disjI2)
  have "is_digit (hd (render_minor n))"
    using dec_digits [of "n div 100"] by (cases "dec (n div 100)") (simp_all add: render_minor_def)
  moreover have "last (render_minor n) = 48 + n mod 10" by (simp add: render_minor_def)
  ultimately show "\<not> is_space (hd (render_minor n)) \<and> \<not> is_space (last (render_minor n))"
    by (auto simp: is_space_def is_digit_def)
qed

lemma canonicalGiftAmount_render:
  "0 < n \<Longrightarrow> int n \<le> max_safe_integer \<Longrightarrow> canonicalGiftAmount (render_minor n) = Some (render_minor n)"
  by (simp add: canonicalGiftAmount_iff render_minor_shape)

interpretation gift_amount: canonicalizer canonicalGiftAmount "\<lambda>s. s"
  by unfold_locales (auto simp: canonicalGiftAmount_iff canonicalGiftAmount_render render_minor_shape)

lemma canonicalAmountMinor_Inr:
  "canonicalAmountMinor v = Inr m \<longleftrightarrow>
     canonicalGiftAmount v \<noteq> None \<and> m = int (amount_minor (trim v))"
proof (cases "canonicalGiftAmount v")
  case (Some c)
  then have "c = render_minor (amount_minor (trim v))" by (simp add: canonicalGiftAmount_iff)
  then show ?thesis
    using Some render_minor_value [of "amount_minor (trim v)"]
    by (auto simp: canonicalAmountMinor_def render_minor_parts)
qed (simp add: canonicalAmountMinor_def)

section \<open>Payment quotes\<close>

text \<open>\<open>isMoneyAmount\<close>; the currency of an accepted amount is always GHS, so a record below
  keeps the pesewas only.\<close>

definition isMoneyAmount :: "jsval \<Rightarrow> bool" where
  "isMoneyAmount v \<longleftrightarrow> is_object v \<and> safe_count (get v ''minor'') \<and> get v ''currency'' = JStr (js ''GHS'')"

definition minor_of :: "jsval \<Rightarrow> int" where
  "minor_of v = the_int (get v ''minor'')"

datatype bearer = Giver | Church

definition bearer_text :: "bearer \<Rightarrow> jsstring" where
  "bearer_text b = (case b of Giver \<Rightarrow> js ''giver'' | Church \<Rightarrow> js ''church'')"

definition bearer_of :: "jsval \<Rightarrow> bearer option" where
  "bearer_of v = (if v = JStr (js ''giver'') then Some Giver
     else if v = JStr (js ''church'') then Some Church else None)"

record ProviderFeeQuote =
  fq_gift :: int
  fq_providerFee :: int
  fq_charged :: int
  fq_bearer :: bearer
  fq_explanation :: jsstring
  fq_estimated :: bool

record LevyQuote =
  lq_levy :: int
  lq_total :: int
  lq_exempt :: bool
  lq_reason :: jsstring
  lq_fee :: ProviderFeeQuote

definition MAX_QUOTE_REASON_LENGTH :: nat where
  "MAX_QUOTE_REASON_LENGTH = 500"

abbreviation invalid_quote :: js_error where
  "invalid_quote \<equiv> throw ''The server returned an invalid payment quote.''"

definition validFee :: "jsval \<Rightarrow> int \<Rightarrow> bool" where
  "validFee fee giftMinor \<longleftrightarrow> fee \<noteq> JUndef
     \<and> isMoneyAmount (get fee ''gift'')
     \<and> minor_of (get fee ''gift'') = giftMinor
     \<and> isMoneyAmount (get fee ''providerFee'')
     \<and> isMoneyAmount (get fee ''charged'')
     \<and> bearer_of (get fee ''bearer'') \<noteq> None
     \<and> is_boolean (get fee ''estimated'')
     \<and> required_text (get fee ''explanation'') MAX_QUOTE_REASON_LENGTH False
     \<and> minor_of (get fee ''charged'') = giftMinor
         + (if bearer_of (get fee ''bearer'') = Some Giver then minor_of (get fee ''providerFee'') else 0)"

definition fee_of :: "jsval \<Rightarrow> ProviderFeeQuote" where
  "fee_of fee =
     \<lparr>fq_gift = minor_of (get fee ''gift''),
      fq_providerFee = minor_of (get fee ''providerFee''),
      fq_charged = minor_of (get fee ''charged''),
      fq_bearer = the (bearer_of (get fee ''bearer'')),
      fq_explanation = the_str (get fee ''explanation''),
      fq_estimated = the_bool (get fee ''estimated'')\<rparr>"

text \<open>The test \<open>fee !== undefined\<close> lets \<open>null\<close> through to \<open>fee.gift\<close>: a \<open>TypeError\<close>.\<close>

definition validateLevyQuote :: "jsval \<Rightarrow> jsstring \<Rightarrow> js_error + LevyQuote" where
  "validateLevyQuote quote giftAmount =
     (if \<not> is_object quote then Inl invalid_quote
      else and_then (canonicalAmountMinor giftAmount) (\<lambda>giftMinor.
        let fee = get quote ''fee'' in
        if fee = JNull then Inl (TypeError (js ''Cannot read properties of null (reading 'gift')''))
        else if isMoneyAmount (get quote ''levy'')
          \<and> isMoneyAmount (get quote ''total'')
          \<and> is_boolean (get quote ''exempt'')
          \<and> required_text (get quote ''reason'') MAX_QUOTE_REASON_LENGTH False
          \<and> validFee fee giftMinor
          \<and> minor_of (get quote ''total'')
              = minor_of (get fee ''charged'') + minor_of (get quote ''levy'')
        then Inr \<lparr>lq_levy = minor_of (get quote ''levy''),
                  lq_total = minor_of (get quote ''total''),
                  lq_exempt = the_bool (get quote ''exempt''),
                  lq_reason = the_str (get quote ''reason''),
                  lq_fee = fee_of fee\<rparr>
        else Inl invalid_quote))"

definition checkoutPricing :: "jsval \<Rightarrow> jsval" where
  "checkoutPricing v =
     (if \<not> is_record v then JUndef
      else JObj [(''fee'', get v ''fee''),
                 (''levy'', get (get v ''levy'') ''levy''),
                 (''total'', get v ''total''),
                 (''exempt'', get (get v ''levy'') ''exempt''),
                 (''reason'', get (get v ''levy'') ''reason'')])"

text \<open>What an accepted quote promises.\<close>

definition amount_ok :: "int \<Rightarrow> bool" where
  "amount_ok m \<longleftrightarrow> 0 \<le> m \<and> m \<le> max_safe_integer"

definition copy_ok :: "jsstring \<Rightarrow> bool" where
  "copy_ok s \<longleftrightarrow> trim s \<noteq> [] \<and> length s \<le> 500 \<and> (\<forall>c\<in>set s. \<not> is_control c)"

definition quote_ok :: "jsstring \<Rightarrow> LevyQuote \<Rightarrow> bool" where
  "quote_ok giftAmount q \<longleftrightarrow>
     canonicalAmountMinor giftAmount = Inr (fq_gift (lq_fee q))
     \<and> amount_ok (lq_levy q) \<and> amount_ok (lq_total q) \<and> amount_ok (fq_gift (lq_fee q))
     \<and> amount_ok (fq_providerFee (lq_fee q)) \<and> amount_ok (fq_charged (lq_fee q))
     \<and> copy_ok (lq_reason q) \<and> copy_ok (fq_explanation (lq_fee q))
     \<and> fq_charged (lq_fee q) = fq_gift (lq_fee q)
         + (if fq_bearer (lq_fee q) = Giver then fq_providerFee (lq_fee q) else 0)
     \<and> lq_total q = fq_charged (lq_fee q) + lq_levy q"

definition money_json :: "int \<Rightarrow> jsval" where
  "money_json m = JObj [(''minor'', jint m), (''currency'', JStr (js ''GHS''))]"

definition quote_json :: "LevyQuote \<Rightarrow> jsval" where
  "quote_json q =
     JObj [(''levy'', money_json (lq_levy q)), (''total'', money_json (lq_total q)),
       (''exempt'', JBool (lq_exempt q)), (''reason'', JStr (lq_reason q)),
       (''fee'', JObj [(''gift'', money_json (fq_gift (lq_fee q))),
          (''providerFee'', money_json (fq_providerFee (lq_fee q))),
          (''charged'', money_json (fq_charged (lq_fee q))),
          (''bearer'', JStr (bearer_text (fq_bearer (lq_fee q)))),
          (''explanation'', JStr (fq_explanation (lq_fee q))),
          (''estimated'', JBool (fq_estimated (lq_fee q)))])]"

lemma isMoneyAmount_ok: "isMoneyAmount v \<Longrightarrow> amount_ok (minor_of v)"
  by (auto simp: isMoneyAmount_def amount_ok_def minor_of_def elim: safe_countE)

lemma money_json_simps [simp]:
  "isMoneyAmount (money_json m) \<longleftrightarrow> amount_ok m" "minor_of (money_json m) = m"
  by (simp_all add: isMoneyAmount_def money_json_def amount_ok_def minor_of_def del: the_int.simps)

lemma bearer_of_text [simp]: "bearer_of (JStr (bearer_text b)) = Some b"
  by (cases b) (simp_all add: bearer_of_def bearer_text_def)

lemma required_text_copy: "required_text v 500 False \<Longrightarrow> copy_ok (the_str v)"
  by (auto simp: required_text_def copy_ok_def nonEmptyString_def bounded_text_def
      free_of_controls_def list_ex_iff)

lemma required_text_JStr: "required_text (JStr s) 500 False \<longleftrightarrow> copy_ok s"
  by (auto simp: required_text_def copy_ok_def nonEmptyString_def bounded_text_def
      free_of_controls_def list_ex_iff)

lemma validateLevyQuote_ok: "validateLevyQuote v a = Inr q \<Longrightarrow> quote_ok a q"
  by (auto simp: validateLevyQuote_def res_simps quote_ok_def validFee_def fee_of_def Let_def
      required_text_copy MAX_QUOTE_REASON_LENGTH_def split: if_splits dest!: isMoneyAmount_ok)

lemma validateLevyQuote_json: "quote_ok a q \<Longrightarrow> validateLevyQuote (quote_json q) a = Inr q"
  by (auto simp: validateLevyQuote_def quote_json_def quote_ok_def validFee_def fee_of_def Let_def
      required_text_JStr MAX_QUOTE_REASON_LENGTH_def
      intro!: LevyQuote.equality ProviderFeeQuote.equality)

interpretation levy_quote: canonical_normalizer "\<lambda>v. validateLevyQuote v a" "quote_ok a" quote_json for a
  by unfold_locales (auto intro: validateLevyQuote_ok validateLevyQuote_json)

section \<open>Properties\<close>

text \<open>C20: the amount a member typed is sent exactly. A text is accepted only when it reads as a
  positive number of pesewas that a JavaScript number holds exactly; what is sent is the one
  rendering of that number, it is accepted unchanged when it comes back, and it stands for the
  same pesewas.\<close>

theorem gift_amount_exact:
  assumes "canonicalGiftAmount v = Some c"
  shows "\<exists>n. 0 < n \<and> int n \<le> max_safe_integer \<and> n = amount_minor (trim v) \<and> c = render_minor n
     \<and> canonicalGiftAmount c = Some c
     \<and> canonicalAmountMinor v = Inr (int n) \<and> canonicalAmountMinor c = Inr (int n)"
proof -
  let ?n = "amount_minor (trim v)"
  have n: "0 < ?n" "int ?n \<le> max_safe_integer" "c = render_minor ?n"
    using assms by (simp_all add: canonicalGiftAmount_iff)
  then have "canonicalGiftAmount c = Some c" by (simp add: canonicalGiftAmount_render)
  with n assms show ?thesis
    by (intro exI [of _ ?n]) (simp add: canonicalAmountMinor_Inr render_minor_shape)
qed

theorem gift_amount_exact_witness:
  "canonicalGiftAmount (js '' 007.5 '') = Some (js ''7.50'')
   \<and> canonicalAmountMinor (js ''7.50'') = Inr 750"
proof -
  have c: "canonicalGiftAmount (js '' 007.5 '') = Some (js ''7.50'')" by code_simp
  then have "canonicalAmountMinor (js ''7.50'') = Inr (int (amount_minor (trim (js '' 007.5 ''))))"
    using gift_amount_exact [OF c] by auto
  moreover have "amount_minor (trim (js '' 007.5 '')) = 750" by code_simp
  ultimately show ?thesis using c by simp
qed

text \<open>The debit a member is asked to accept adds up. An accepted quote is for the gift typed,
  its total is exactly the gift, plus the provider fee when the giver bears it, plus the levy,
  every amount is a non-negative safe integer of GHS, and the two explanations are bounded and
  free of control characters. Every such quote is accepted as it is.\<close>

theorem levy_quote_adds_up:
  "(\<exists>v. validateLevyQuote v giftAmount = Inr q) \<longleftrightarrow>
     canonicalAmountMinor giftAmount = Inr (fq_gift (lq_fee q))
     \<and> lq_total q = fq_gift (lq_fee q)
         + (if fq_bearer (lq_fee q) = Giver then fq_providerFee (lq_fee q) else 0) + lq_levy q
     \<and> fq_charged (lq_fee q) = lq_total q - lq_levy q
     \<and> list_all amount_ok [lq_levy q, lq_total q, fq_gift (lq_fee q), fq_providerFee (lq_fee q),
         fq_charged (lq_fee q)]
     \<and> copy_ok (lq_reason q) \<and> copy_ok (fq_explanation (lq_fee q))"
proof -
  have "(\<exists>v. validateLevyQuote v giftAmount = Inr q) \<longleftrightarrow> quote_ok giftAmount q"
    by (rule levy_quote.norm_range)
  moreover have "c = g + f \<and> t = c + l \<longleftrightarrow> t = g + f + l \<and> c = t - l" for c g f t l :: int
    by auto
  ultimately show ?thesis
    by (simp only: quote_ok_def list.pred_inject simp_thms) blast
qed

text \<open>The unguarded read of \<open>fee.gift\<close>: a quote whose fee is \<open>null\<close> ends in a \<open>TypeError\<close>
  whose text names a property, not in the error the function has for invalid quotes.\<close>

lemma quote_null_fee_type_error:
  "canonicalAmountMinor a = Inr m \<Longrightarrow>
    validateLevyQuote (JObj [(''fee'', JNull)]) a
      = Inl (TypeError (js ''Cannot read properties of null (reading 'gift')''))"
  by (simp add: validateLevyQuote_def)

end
