(* ===== verification/Giving.thy ===== *)
theory Giving
  imports Money
begin

text \<open>
  Giving: the rest of \<open>apps/mobile/src/services/giving.service.ts\<close>. A gift request is
  normalized before it can create a charge, every transaction of a response is normalized, and
  the operations of \<open>givingService\<close> bind what they return to the church and the member they
  were called for. The gateway, \<open>Date.parse\<close> and the \<open>URL\<close> class are arguments.
\<close>

section \<open>Enumerations and formats\<close>

datatype GivingType = Tithe | Offering | Donation | CampaignGift | PledgePayment

datatype GivingChannel = MobileMoney | Card | BankTransfer | Ussd | Cash

datatype PaymentStatus = Pending | Success | FailedPayment | Reversed

fun giving_type_text :: "GivingType \<Rightarrow> jsstring" where
  "giving_type_text Tithe = js ''tithe''"
| "giving_type_text Offering = js ''offering''"
| "giving_type_text Donation = js ''donation''"
| "giving_type_text CampaignGift = js ''campaign''"
| "giving_type_text PledgePayment = js ''pledge_payment''"

fun channel_text :: "GivingChannel \<Rightarrow> jsstring" where
  "channel_text MobileMoney = js ''mobile_money''"
| "channel_text Card = js ''card''"
| "channel_text BankTransfer = js ''bank_transfer''"
| "channel_text Ussd = js ''ussd''"
| "channel_text Cash = js ''cash''"

fun status_text :: "PaymentStatus \<Rightarrow> jsstring" where
  "status_text Pending = js ''pending''"
| "status_text Success = js ''success''"
| "status_text FailedPayment = js ''failed''"
| "status_text Reversed = js ''reversed''"

definition GIVING_TYPES :: "GivingType list" where
  "GIVING_TYPES = [Tithe, Offering, Donation, CampaignGift, PledgePayment]"

definition GIVING_CHANNELS :: "GivingChannel list" where
  "GIVING_CHANNELS = [MobileMoney, Card, BankTransfer, Ussd, Cash]"

definition PAYMENT_STATUSES :: "PaymentStatus list" where
  "PAYMENT_STATUSES = [Pending, Success, FailedPayment, Reversed]"

definition PAYMENT_CHANNELS :: "GivingChannel list" where
  "PAYMENT_CHANNELS = [MobileMoney, Card, BankTransfer, Ussd]"

definition GIFT_NOTE_MAX_LENGTH :: nat where
  "GIFT_NOTE_MAX_LENGTH = 240"

definition MOBILE_PAYMENT_CALLBACK_URL :: jsstring where
  "MOBILE_PAYMENT_CALLBACK_URL = js ''https://altaros.com/giving/complete''"

definition GIVING_HISTORY_MAX_RECORDS :: nat where
  "GIVING_HISTORY_MAX_RECORDS = 500"

definition validDateString :: "host \<Rightarrow> jsval \<Rightarrow> bool" where
  "validDateString h v \<longleftrightarrow> nonEmptyString v \<and> valid_date h v"

definition boundedOptionalText :: "jsval \<Rightarrow> nat \<Rightarrow> bool" where
  "boundedOptionalText v maxLength \<longleftrightarrow> optional (\<lambda>w. bounded_text w maxLength True) v"

text \<open>\<open>T\d{2}:\d{2}:\d{2}(?:\.\d+)?(?:Z|[+-]\d{2}:\d{2})$\<close> after the ten characters of a date.\<close>

definition zone_shape :: "jsstring \<Rightarrow> bool" where
  "zone_shape z \<longleftrightarrow> z = [90]
     \<or> (length z = 6 \<and> (z ! 0 = 43 \<or> z ! 0 = 45) \<and> z ! 3 = 58
        \<and> list_all is_digit [z ! 1, z ! 2, z ! 4, z ! 5])"

definition rfc3339_shape :: "jsstring \<Rightarrow> bool" where
  "rfc3339_shape s \<longleftrightarrow> 19 \<le> length s \<and> date_shape (take 10 s) \<and> s ! 10 = 84
     \<and> s ! 13 = 58 \<and> s ! 16 = 58
     \<and> list_all is_digit [s ! 11, s ! 12, s ! 14, s ! 15, s ! 17, s ! 18]
     \<and> (let rest = drop 19 s in
        if rest \<noteq> [] \<and> hd rest = 46
        then takeWhile is_digit (tl rest) \<noteq> [] \<and> zone_shape (dropWhile is_digit (tl rest))
        else zone_shape rest)"

definition validHistoryDate :: "host \<Rightarrow> jsval \<Rightarrow> bool" where
  "validHistoryDate h v \<longleftrightarrow> is_string v \<and> length (the_str v) \<le> 64
     \<and> (if date_shape (the_str v) then calendar_date (the_str v)
        else rfc3339_shape (the_str v) \<and> calendar_date (take 10 (the_str v))
          \<and> dateParse h (the_str v) \<noteq> None)"

text \<open>\<open>Date.parse(a) > Date.parse(b)\<close>, false when one of them is \<open>NaN\<close>.\<close>

definition parsed_after :: "host \<Rightarrow> jsstring \<Rightarrow> jsstring \<Rightarrow> bool" where
  "parsed_after h a b \<longleftrightarrow> (case (dateParse h a, dateParse h b) of (Some x, Some y) \<Rightarrow> y < x | _ \<Rightarrow> False)"

definition blank_as_undefined :: "jsval \<Rightarrow> jsval" where
  "blank_as_undefined v = (if v = JStr [] then JUndef else v)"

definition normalizeGivingHistoryParams :: "host \<Rightarrow> jsval \<Rightarrow> js_error + (string \<times> jsval) list" where
  "normalizeGivingHistoryParams h value =
     (if value = JUndef then Inr []
      else let since = blank_as_undefined (get value ''from''); until = blank_as_undefined (get value ''to'')
        in if \<not> optional (validHistoryDate h) since \<or> \<not> optional (validHistoryDate h) until
              \<or> (since \<noteq> JUndef \<and> until \<noteq> JUndef \<and> parsed_after h (the_str since) (the_str until))
           then Inl (throw ''The giving history date range is not valid.'')
           else Inr ((if truthy since then [(''from'', since)] else [])
              @ (if truthy until then [(''to'', until)] else [])))"

definition normalizeGivingHistoryPageParams :: "jsval \<Rightarrow> jsval \<Rightarrow> js_error + int \<times> int" where
  "normalizeGivingHistoryPageParams page limit =
     (if \<not> isSafeInteger page \<or> the_int page < 1
        \<or> \<not> isSafeInteger limit \<or> the_int limit < 1 \<or> 100 < the_int limit
      then Inl (throw ''The giving history page is not valid.'')
      else Inr (the_int page, the_int limit))"

section \<open>What the member asks for\<close>

abbreviation invalid_gift :: js_error where
  "invalid_gift \<equiv> throw ''The gift details are not valid.''"

definition normalizeOptionalEmail :: "jsval \<Rightarrow> js_error + jsstring option" where
  "normalizeOptionalEmail v =
     (if v = JUndef \<or> v = JStr [] then Inr None
      else if \<not> is_string v then Inl invalid_gift
      else let email = toLowerCase (trim (the_str v)) in
        if 254 < length email \<or> \<not> email_shape email then Inl invalid_gift else Inr (Some email))"

definition normalizeOptionalNote :: "jsval \<Rightarrow> js_error + jsstring option" where
  "normalizeOptionalNote v =
     (if v = JUndef \<or> v = JStr [] then Inr None
      else if \<not> is_string v then Inl invalid_gift
      else let note = trim (the_str v) in
        if note = [] then Inr None
        else if GIFT_NOTE_MAX_LENGTH < length note \<or> list_ex is_control note then Inl invalid_gift
        else Inr (Some note))"

record QuoteRequest =
  qr_amount :: jsstring
  qr_channel :: GivingChannel
  qr_anonymous :: bool

record GiveRequest = QuoteRequest +
  gq_type :: GivingType
  gq_email :: "jsstring option"
  gq_note :: "jsstring option"
  gq_callbackUrl :: "jsstring option"
  gq_acceptedTotalMinor :: int
  gq_campaignId :: "jsstring option"
  gq_pledgeId :: "jsstring option"

definition normalizeQuoteRequest :: "jsval \<Rightarrow> js_error + QuoteRequest" where
  "normalizeQuoteRequest v =
     (if \<not> is_object v then Inl invalid_gift
      else
        let amount = (if is_string (get v ''amount'') then canonicalGiftAmount (the_str (get v ''amount'')) else None);
            channel = enum_of channel_text PAYMENT_CHANNELS (get v ''channel'');
            anonymous = get v ''anonymous''
        in if amount = None \<or> get v ''currency'' \<noteq> JStr (js ''GHS'') \<or> channel = None
              \<or> \<not> optional is_boolean anonymous
           then Inl invalid_gift
           else Inr \<lparr>qr_amount = the amount, qr_channel = the channel,
                     qr_anonymous = the_bool (coalesce anonymous (JBool False))\<rparr>)"

text \<open>\<open>value.campaignId === undefined ? undefined : value.campaignId.trim()\<close>.\<close>

definition trimmed_optional :: "jsval \<Rightarrow> js_error + jsstring option" where
  "trimmed_optional v =
     (if v = JUndef then Inr None
      else if is_string v then Inr (Some (trim (the_str v)))
      else Inl (TypeError (js ''trim is not a function'')))"

definition validPurpose :: "jsval \<Rightarrow> jsstring option \<Rightarrow> jsstring option \<Rightarrow> bool" where
  "validPurpose ty campaignId pledgeId \<longleftrightarrow>
     (if ty = JStr (js ''campaign'')
      then (case campaignId of None \<Rightarrow> False | Some c \<Rightarrow> mongo_id c) \<and> pledgeId = None
      else if ty = JStr (js ''pledge_payment'')
      then (case pledgeId of None \<Rightarrow> False | Some p \<Rightarrow> mongo_id p)
         \<and> (case campaignId of None \<Rightarrow> True | Some c \<Rightarrow> mongo_id c)
      else campaignId = None \<and> pledgeId = None)"

definition normalizeGiveRequest :: "jsval \<Rightarrow> js_error + GiveRequest" where
  "normalizeGiveRequest v =
     and_then (normalizeQuoteRequest v) (\<lambda>quote.
     and_then (trimmed_optional (get v ''campaignId'')) (\<lambda>campaignId.
     and_then (trimmed_optional (get v ''pledgeId'')) (\<lambda>pledgeId.
     let ty = enum_of giving_type_text GIVING_TYPES (get v ''type'');
         accepted = get v ''acceptedTotalMinor''; callback = get v ''callbackUrl''
     in if ty = None \<or> \<not> validPurpose (get v ''type'') campaignId pledgeId \<or> \<not> safe_count accepted
        then Inl invalid_gift
        else and_then (canonicalAmountMinor (qr_amount quote)) (\<lambda>giftMinor.
        if the_int accepted < giftMinor \<or> \<not> optional (\<lambda>c. c = JStr MOBILE_PAYMENT_CALLBACK_URL) callback
        then Inl invalid_gift
        else and_then (normalizeOptionalEmail (get v ''email'')) (\<lambda>email.
        and_then (normalizeOptionalNote (get v ''note'')) (\<lambda>note.
          Inr \<lparr>qr_amount = qr_amount quote, qr_channel = qr_channel quote,
               qr_anonymous = qr_anonymous quote, gq_type = the ty, gq_email = email, gq_note = note,
               gq_callbackUrl = opt_str callback, gq_acceptedTotalMinor = the_int accepted,
               gq_campaignId = map_option toLowerCase campaignId,
               gq_pledgeId = map_option toLowerCase pledgeId\<rparr>))))))"

definition give_request_json :: "GiveRequest \<Rightarrow> jsval" where
  "give_request_json r =
     JObj [(''amount'', JStr (qr_amount r)), (''currency'', JStr (js ''GHS'')),
       (''channel'', JStr (channel_text (qr_channel r))), (''anonymous'', JBool (qr_anonymous r)),
       (''type'', JStr (giving_type_text (gq_type r))),
       (''email'', opt_val JStr (gq_email r)), (''note'', opt_val JStr (gq_note r)),
       (''callbackUrl'', opt_val JStr (gq_callbackUrl r)),
       (''acceptedTotalMinor'', jint (gq_acceptedTotalMinor r)),
       (''campaignId'', opt_val JStr (gq_campaignId r)), (''pledgeId'', opt_val JStr (gq_pledgeId r))]"

text \<open>What a request that leaves the device promises.\<close>

definition purpose_ok :: "GiveRequest \<Rightarrow> bool" where
  "purpose_ok r \<longleftrightarrow>
     (case gq_type r of
        CampaignGift \<Rightarrow> gq_campaignId r \<noteq> None \<and> gq_pledgeId r = None
      | PledgePayment \<Rightarrow> gq_pledgeId r \<noteq> None
      | _ \<Rightarrow> gq_campaignId r = None \<and> gq_pledgeId r = None)
     \<and> (\<forall>c. gq_campaignId r = Some c \<longrightarrow> mongo_id c \<and> toLowerCase c = c)
     \<and> (\<forall>p. gq_pledgeId r = Some p \<longrightarrow> mongo_id p \<and> toLowerCase p = p)"

definition email_ok :: "jsstring \<Rightarrow> bool" where
  "email_ok e \<longleftrightarrow> email_shape e \<and> length e \<le> 254 \<and> toLowerCase (trim e) = e"

definition note_ok :: "jsstring \<Rightarrow> bool" where
  "note_ok n \<longleftrightarrow> trim n = n \<and> n \<noteq> [] \<and> length n \<le> 240 \<and> (\<forall>c\<in>set n. \<not> is_control c)"

definition give_ok :: "GiveRequest \<Rightarrow> bool" where
  "give_ok r \<longleftrightarrow>
     canonicalGiftAmount (qr_amount r) = Some (qr_amount r)
     \<and> qr_channel r \<in> set PAYMENT_CHANNELS
     \<and> purpose_ok r
     \<and> (\<exists>m. canonicalAmountMinor (qr_amount r) = Inr m \<and> m \<le> gq_acceptedTotalMinor r)
     \<and> amount_ok (gq_acceptedTotalMinor r)
     \<and> (\<forall>e. gq_email r = Some e \<longrightarrow> email_ok e)
     \<and> (\<forall>n. gq_note r = Some n \<longrightarrow> note_ok n)
     \<and> (\<forall>u. gq_callbackUrl r = Some u \<longrightarrow> u = MOBILE_PAYMENT_CALLBACK_URL)"

lemma giving_texts_inj: "inj giving_type_text" "inj channel_text" "inj status_text"
  by (rule injI, rename_tac x y, case_tac x; case_tac y; simp)+

lemma giving_type_mem [simp]: "x \<in> set GIVING_TYPES"
  by (cases x) (simp_all add: GIVING_TYPES_def)

lemma channel_mem [simp]: "c \<in> set GIVING_CHANNELS"
  by (cases c) (simp_all add: GIVING_CHANNELS_def)

lemma status_mem [simp]: "st \<in> set PAYMENT_STATUSES"
  by (cases st) (simp_all add: PAYMENT_STATUSES_def)

lemma enum_texts [simp]:
  "enum_of giving_type_text GIVING_TYPES (JStr (giving_type_text x)) = Some x"
  "enum_of channel_text GIVING_CHANNELS (JStr (channel_text c)) = Some c"
  "enum_of status_text PAYMENT_STATUSES (JStr (status_text st)) = Some st"
  "c \<in> set PAYMENT_CHANNELS \<Longrightarrow> enum_of channel_text PAYMENT_CHANNELS (JStr (channel_text c)) = Some c"
  by (simp_all add: enum_of_text giving_texts_inj)

lemma normalizeOptionalEmail_Inr:
  "normalizeOptionalEmail v = Inr (Some e) \<Longrightarrow> email_ok e"
  by (auto simp: email_ok_def normalizeOptionalEmail_def Let_def split: if_splits)

lemma normalizeOptionalNote_Inr:
  "normalizeOptionalNote v = Inr (Some n) \<Longrightarrow> note_ok n"
  by (auto simp: note_ok_def normalizeOptionalNote_def Let_def GIFT_NOTE_MAX_LENGTH_def list_ex_iff split: if_splits)

lemma trimmed_optional_Inr:
  "trimmed_optional v = Inr x \<Longrightarrow> (v = JUndef \<and> x = None) \<or> (\<exists>s. v = JStr s \<and> x = Some (trim s))"
  by (auto simp: trimmed_optional_def is_string_iff split: if_splits)

lemma normalizeQuoteRequest_Inr:
  "normalizeQuoteRequest v = Inr q \<Longrightarrow>
    canonicalGiftAmount (qr_amount q) = Some (qr_amount q) \<and> qr_channel q \<in> set PAYMENT_CHANNELS"
  by (auto simp: normalizeQuoteRequest_def Let_def dest: enum_of_Some gift_amount.canon_fixpoint
      split: if_splits)

lemma validPurpose_ok:
  assumes "validPurpose (JStr (giving_type_text ty)) c p"
    and "gq_type r = ty" "gq_campaignId r = map_option toLowerCase c" "gq_pledgeId r = map_option toLowerCase p"
  shows "purpose_ok r"
  using assms by (cases ty) (auto simp: validPurpose_def purpose_ok_def mongo_id_lower split: option.splits)

lemma normalizeGiveRequest_ok: "normalizeGiveRequest v = Inr r \<Longrightarrow> give_ok r"
  by (auto simp: normalizeGiveRequest_def res_simps Let_def give_ok_def MOBILE_PAYMENT_CALLBACK_URL_def
      optional_def opt_str_def amount_ok_def
      dest!: normalizeQuoteRequest_Inr enum_of_Some
      dest: normalizeOptionalEmail_Inr normalizeOptionalNote_Inr
      elim!: safe_countE intro: validPurpose_ok split: if_splits)

lemma email_round: "email_ok e \<Longrightarrow> normalizeOptionalEmail (JStr e) = Inr (Some e)"
proof -
  assume ok: "email_ok e"
  have "\<not> email_shape []" by (simp add: email_shape_def)
  with ok have "e \<noteq> []" by (auto simp: email_ok_def)
  with ok show ?thesis by (simp add: email_ok_def normalizeOptionalEmail_def)
qed

lemma note_round: "note_ok n \<Longrightarrow> normalizeOptionalNote (JStr n) = Inr (Some n)"
  by (auto simp: note_ok_def normalizeOptionalNote_def Let_def GIFT_NOTE_MAX_LENGTH_def list_ex_iff)

lemma optional_round:
  "(\<forall>e. x = Some e \<longrightarrow> email_ok e) \<Longrightarrow>
    normalizeOptionalEmail (opt_val JStr x) = Inr x"
  "(\<forall>n. x = Some n \<longrightarrow> note_ok n) \<Longrightarrow>
    normalizeOptionalNote (opt_val JStr x) = Inr x"
  "(\<forall>c. x = Some c \<longrightarrow> mongo_id c) \<Longrightarrow>
    trimmed_optional (opt_val JStr x) = Inr x"
proof -
  have "normalizeOptionalEmail JUndef = Inr None" "normalizeOptionalNote JUndef = Inr None"
    by (simp_all add: normalizeOptionalEmail_def normalizeOptionalNote_def)
  then show "\<forall>e. x = Some e \<longrightarrow> email_ok e \<Longrightarrow> normalizeOptionalEmail (opt_val JStr x) = Inr x"
    and "\<forall>n. x = Some n \<longrightarrow> note_ok n \<Longrightarrow> normalizeOptionalNote (opt_val JStr x) = Inr x"
    and "\<forall>c. x = Some c \<longrightarrow> mongo_id c \<Longrightarrow> trimmed_optional (opt_val JStr x) = Inr x"
    by (cases x; simp add: email_round note_round trimmed_optional_def mongo_id_trim)+
qed

lemma purpose_round:
  "purpose_ok r \<Longrightarrow> validPurpose (JStr (giving_type_text (gq_type r))) (gq_campaignId r) (gq_pledgeId r)"
  by (cases "gq_type r") (auto simp: purpose_ok_def validPurpose_def split: option.splits)

lemma lower_round: "(\<forall>c. x = Some c \<longrightarrow> toLowerCase c = c) \<Longrightarrow> map_option toLowerCase x = x"
  by (cases x) simp_all

lemma quote_round:
  assumes "canonicalGiftAmount (qr_amount r) = Some (qr_amount r)" "qr_channel r \<in> set PAYMENT_CHANNELS"
  shows "normalizeQuoteRequest (give_request_json r)
    = Inr \<lparr>qr_amount = qr_amount r, qr_channel = qr_channel r, qr_anonymous = qr_anonymous r\<rparr>"
  using assms by (simp add: normalizeQuoteRequest_def give_request_json_def Let_def coalesce_def nullish_def
      optional_def)

lemma normalizeGiveRequest_json: "give_ok r \<Longrightarrow> normalizeGiveRequest (give_request_json r) = Inr r"
proof -
  assume ok: "give_ok r"
  obtain m where m: "canonicalAmountMinor (qr_amount r) = Inr m" "m \<le> gq_acceptedTotalMinor r"
    using ok by (auto simp: give_ok_def)
  have gets: "get (give_request_json r) ''type'' = JStr (giving_type_text (gq_type r))"
    "get (give_request_json r) ''email'' = (opt_val JStr (gq_email r))"
    "get (give_request_json r) ''note'' = (opt_val JStr (gq_note r))"
    "get (give_request_json r) ''callbackUrl'' = (opt_val JStr (gq_callbackUrl r))"
    "get (give_request_json r) ''acceptedTotalMinor'' = jint (gq_acceptedTotalMinor r)"
    "get (give_request_json r) ''campaignId'' = (opt_val JStr (gq_campaignId r))"
    "get (give_request_json r) ''pledgeId'' = (opt_val JStr (gq_pledgeId r))"
    by (simp_all add: give_request_json_def)
  have ids: "trimmed_optional (get (give_request_json r) ''campaignId'') = Inr (gq_campaignId r)"
    "trimmed_optional (get (give_request_json r) ''pledgeId'') = Inr (gq_pledgeId r)"
    "map_option toLowerCase (gq_campaignId r) = gq_campaignId r"
    "map_option toLowerCase (gq_pledgeId r) = gq_pledgeId r"
    using ok by (auto simp: gets give_ok_def purpose_ok_def intro!: optional_round lower_round)
  have texts: "normalizeOptionalEmail (get (give_request_json r) ''email'') = Inr (gq_email r)"
    "normalizeOptionalNote (get (give_request_json r) ''note'') = Inr (gq_note r)"
    using ok by (auto simp: gets give_ok_def intro!: optional_round)
  have callback: "optional (\<lambda>c. c = JStr MOBILE_PAYMENT_CALLBACK_URL) (get (give_request_json r) ''callbackUrl'')"
    using ok by (auto simp: gets give_ok_def)
  have quote: "normalizeQuoteRequest (give_request_json r)
    = Inr \<lparr>qr_amount = qr_amount r, qr_channel = qr_channel r, qr_anonymous = qr_anonymous r\<rparr>"
    using ok by (intro quote_round) (simp_all add: give_ok_def)
  show ?thesis
    using ok m callback
    by (simp add: normalizeGiveRequest_def quote ids [unfolded gets] texts [unfolded gets] gets purpose_round give_ok_def amount_ok_def
        Let_def)
qed

interpretation give_request: canonical_normalizer normalizeGiveRequest give_ok give_request_json
  by unfold_locales (auto intro: normalizeGiveRequest_ok normalizeGiveRequest_json)

end
