(* ===== verification/GivingRecords.thy ===== *)
theory GivingRecords
  imports Giving
begin

text \<open>
  Transactions and the operations of \<open>givingService\<close>: the second half of
  \<open>apps/mobile/src/services/giving.service.ts\<close>.
\<close>

section \<open>Transactions\<close>

record GivingRecord =
  gr_id :: jsstring
  gr_churchId :: jsstring
  gr_memberId :: "jsstring option"
  gr_type :: GivingType
  gr_channel :: GivingChannel
  gr_grossMinor :: int
  gr_levyMinor :: int
  gr_providerFeeMinor :: int
  gr_chargedMinor :: int
  gr_feeBearer :: bearer
  gr_netMinor :: int
  gr_status :: PaymentStatus
  gr_providerRef :: "jsstring option"
  gr_idempotencyKey :: jsstring
  gr_note :: "jsstring option"
  gr_occurredAt :: jsstring
  gr_createdAt :: jsstring

abbreviation invalid_record :: js_error where
  "invalid_record \<equiv> throw ''The server returned an invalid giving record.''"

text \<open>The three defaults of older records.\<close>

definition record_providerFee :: "jsval \<Rightarrow> jsval" where
  "record_providerFee v = coalesce (get v ''providerFeeMinor'') (jint 0)"

definition record_charged :: "jsval \<Rightarrow> jsval" where
  "record_charged v = or_else (get v ''chargedMinor'') (get v ''grossMinor'')"

definition record_feeBearer :: "jsval \<Rightarrow> jsval" where
  "record_feeBearer v = or_else (get v ''feeBearer'')
     (if record_charged v = get v ''grossMinor'' then JStr (js ''church'') else JStr (js ''giver''))"

definition validLedger :: "jsval \<Rightarrow> bool" where
  "validLedger v \<longleftrightarrow>
     safe_count (get v ''grossMinor'') \<and> 0 < the_int (get v ''grossMinor'')
     \<and> safe_count (get v ''levyMinor'') \<and> safe_count (record_providerFee v)
     \<and> safe_count (record_charged v) \<and> the_int (get v ''grossMinor'') \<le> the_int (record_charged v)
     \<and> bearer_of (record_feeBearer v) \<noteq> None
     \<and> (bearer_of (record_feeBearer v) \<noteq> Some Church
          \<or> the_int (record_charged v) = the_int (get v ''grossMinor''))
     \<and> (bearer_of (record_feeBearer v) \<noteq> Some Giver \<or> the_int (record_providerFee v) = 0
          \<or> the_int (get v ''grossMinor'') < the_int (record_charged v))
     \<and> safe_count (get v ''netMinor'') \<and> the_int (get v ''netMinor'') \<le> the_int (get v ''grossMinor'')"

definition validGivingRecord :: "host \<Rightarrow> jsval \<Rightarrow> bool" where
  "validGivingRecord h v \<longleftrightarrow>
     valid_id (get v ''id'') \<and> valid_id (get v ''churchId'')
     \<and> optional valid_id (get v ''memberId'')
     \<and> enum_of giving_type_text GIVING_TYPES (get v ''type'') \<noteq> None
     \<and> enum_of channel_text GIVING_CHANNELS (get v ''channel'') \<noteq> None
     \<and> validLedger v
     \<and> get v ''currency'' = JStr (js ''GHS'')
     \<and> enum_of status_text PAYMENT_STATUSES (get v ''status'') \<noteq> None
     \<and> valid_id (get v ''idempotencyKey'')
     \<and> optional valid_id (get v ''providerRef'')
     \<and> boundedOptionalText (get v ''note'') GIFT_NOTE_MAX_LENGTH
     \<and> validDateString h (get v ''occurredAt'') \<and> validDateString h (get v ''createdAt'')"

definition giving_of :: "jsval \<Rightarrow> GivingRecord" where
  "giving_of v =
     \<lparr>gr_id = the_str (get v ''id''), gr_churchId = the_str (get v ''churchId''),
      gr_memberId = opt_str (get v ''memberId''),
      gr_type = the (enum_of giving_type_text GIVING_TYPES (get v ''type'')),
      gr_channel = the (enum_of channel_text GIVING_CHANNELS (get v ''channel'')),
      gr_grossMinor = the_int (get v ''grossMinor''), gr_levyMinor = the_int (get v ''levyMinor''),
      gr_providerFeeMinor = the_int (record_providerFee v),
      gr_chargedMinor = the_int (record_charged v),
      gr_feeBearer = the (bearer_of (record_feeBearer v)), gr_netMinor = the_int (get v ''netMinor''),
      gr_status = the (enum_of status_text PAYMENT_STATUSES (get v ''status'')),
      gr_providerRef = opt_str (get v ''providerRef''),
      gr_idempotencyKey = the_str (get v ''idempotencyKey''), gr_note = opt_str (get v ''note''),
      gr_occurredAt = the_str (get v ''occurredAt''), gr_createdAt = the_str (get v ''createdAt'')\<rparr>"

definition normalizeGivingRecord :: "host \<Rightarrow> jsval \<Rightarrow> js_error + GivingRecord" where
  "normalizeGivingRecord h v =
     (if \<not> is_object v then Inl invalid_record
      else if validGivingRecord h v then Inr (giving_of v) else Inl invalid_record)"

definition ledger_ok :: "GivingRecord \<Rightarrow> bool" where
  "ledger_ok r \<longleftrightarrow>
     0 < gr_grossMinor r \<and> gr_grossMinor r \<le> gr_chargedMinor r
     \<and> (gr_feeBearer r = Church \<longrightarrow> gr_chargedMinor r = gr_grossMinor r)
     \<and> (gr_feeBearer r = Giver \<longrightarrow> gr_providerFeeMinor r = 0 \<or> gr_grossMinor r < gr_chargedMinor r)
     \<and> gr_netMinor r \<le> gr_grossMinor r
     \<and> list_all amount_ok [gr_grossMinor r, gr_levyMinor r, gr_providerFeeMinor r,
         gr_chargedMinor r, gr_netMinor r]"

definition giving_ok :: "host \<Rightarrow> GivingRecord \<Rightarrow> bool" where
  "giving_ok h r \<longleftrightarrow>
     id_ok (gr_id r) \<and> id_ok (gr_churchId r) \<and> (\<forall>m. gr_memberId r = Some m \<longrightarrow> id_ok m)
     \<and> id_ok (gr_idempotencyKey r) \<and> (\<forall>p. gr_providerRef r = Some p \<longrightarrow> id_ok p)
     \<and> ledger_ok r
     \<and> (\<forall>n. gr_note r = Some n \<longrightarrow> bounded_text (JStr n) GIFT_NOTE_MAX_LENGTH True)
     \<and> validDateString h (JStr (gr_occurredAt r)) \<and> validDateString h (JStr (gr_createdAt r))"

definition giving_json :: "GivingRecord \<Rightarrow> jsval" where
  "giving_json r =
     JObj [(''id'', JStr (gr_id r)), (''churchId'', JStr (gr_churchId r)),
       (''memberId'', opt_val JStr (gr_memberId r)),
       (''type'', JStr (giving_type_text (gr_type r))), (''channel'', JStr (channel_text (gr_channel r))),
       (''grossMinor'', jint (gr_grossMinor r)), (''levyMinor'', jint (gr_levyMinor r)),
       (''providerFeeMinor'', jint (gr_providerFeeMinor r)), (''chargedMinor'', jint (gr_chargedMinor r)),
       (''feeBearer'', JStr (bearer_text (gr_feeBearer r))), (''netMinor'', jint (gr_netMinor r)),
       (''currency'', JStr (js ''GHS'')), (''status'', JStr (status_text (gr_status r))),
       (''providerRef'', opt_val JStr (gr_providerRef r)),
       (''idempotencyKey'', JStr (gr_idempotencyKey r)), (''note'', opt_val JStr (gr_note r)),
       (''occurredAt'', JStr (gr_occurredAt r)), (''createdAt'', JStr (gr_createdAt r))]"

lemma safe_count_amount: "safe_count v \<Longrightarrow> amount_ok (the_int v)"
  by (auto simp: amount_ok_def elim: safe_countE)

lemma accepted_date_string: "validDateString h v \<Longrightarrow> validDateString h (JStr (the_str v))"
  by (simp add: validDateString_def accepted)

lemma validLedger_ok: "validLedger v \<Longrightarrow> ledger_ok (giving_of v)"
  by (auto simp: validLedger_def ledger_ok_def giving_of_def safe_count_amount)

lemma normalizeGivingRecord_Inr:
  "normalizeGivingRecord h v = Inr r \<longleftrightarrow> is_object v \<and> validGivingRecord h v \<and> r = giving_of v"
  by (auto simp: normalizeGivingRecord_def)

lemma normalizeGivingRecord_ok:
  assumes "normalizeGivingRecord h v = Inr r"
  shows "giving_ok h r"
proof -
  have "validGivingRecord h v" and r: "r = giving_of v"
    using assms by (simp_all add: normalizeGivingRecord_Inr)
  then show ?thesis
    unfolding r giving_ok_def validGivingRecord_def boundedOptionalText_def
    by (simp add: validLedger_ok)
      (simp add: giving_of_def accepted accepted_date_string, intro conjI; elim conjE; erule accepted_optional)
qed

lemma validLedger_json: "ledger_ok r \<Longrightarrow> validLedger (giving_json r)"
  by (cases "gr_feeBearer r")
    (simp_all add: validLedger_def ledger_ok_def giving_json_def amount_ok_def record_providerFee_def
      record_charged_def record_feeBearer_def coalesce_def nullish_def or_else_def bearer_text_def bearer_of_def)

lemma giving_of_json: "ledger_ok r \<Longrightarrow> giving_of (giving_json r) = r"
  by (cases "gr_feeBearer r"; rule GivingRecord.equality)
    (simp_all add: ledger_ok_def giving_of_def giving_json_def record_providerFee_def
      record_charged_def record_feeBearer_def coalesce_def nullish_def or_else_def bearer_text_def bearer_of_def)

lemma normalizeGivingRecord_json:
  assumes "giving_ok h r"
  shows "normalizeGivingRecord h (giving_json r) = Inr r"
proof -
  have "ledger_ok r" using assms by (simp add: giving_ok_def)
  then have "validGivingRecord h (giving_json r)"
    using assms validLedger_json
    by (simp add: validGivingRecord_def giving_ok_def boundedOptionalText_def) (simp add: giving_json_def)
  then show ?thesis
    using giving_of_json [OF \<open>ledger_ok r\<close>]
    by (simp add: normalizeGivingRecord_Inr) (simp add: giving_json_def)
qed

interpretation giving_record: canonical_normalizer "normalizeGivingRecord h" "giving_ok h" giving_json for h
  by unfold_locales (auto intro: normalizeGivingRecord_ok normalizeGivingRecord_json)

section \<open>Totals\<close>

fun sumConfirmedFrom :: "int \<Rightarrow> GivingRecord list \<Rightarrow> js_error + int" where
  "sumConfirmedFrom tot [] = Inr tot"
| "sumConfirmedFrom tot (r # rs) =
     (if gr_status r \<noteq> Success then sumConfirmedFrom tot rs
      else if \<not> amount_ok (gr_grossMinor r)
        then Inl (throw ''The server returned invalid giving history.'')
      else if max_safe_integer < tot + gr_grossMinor r
        then Inl (throw ''The giving history total is too large to display exactly.'')
      else sumConfirmedFrom (tot + gr_grossMinor r) rs)"

definition sumConfirmedGivingMinor :: "GivingRecord list \<Rightarrow> js_error + int" where
  "sumConfirmedGivingMinor records = sumConfirmedFrom 0 records"

definition memberPaymentUpliftMinor :: "GivingRecord \<Rightarrow> js_error + int" where
  "memberPaymentUpliftMinor r =
     (if \<not> amount_ok (gr_grossMinor r) \<or> \<not> amount_ok (gr_chargedMinor r)
        \<or> gr_chargedMinor r < gr_grossMinor r
      then Inl invalid_record else Inr (gr_chargedMinor r - gr_grossMinor r))"

section \<open>References and checkout links\<close>

text \<open>\<open>/^alt_[a-z2-7]{32}$/i\<close>.\<close>

definition reference_unit :: "nat \<Rightarrow> bool" where
  "reference_unit c \<longleftrightarrow> is_lower c \<or> is_upper c \<or> (50 \<le> c \<and> c \<le> 55)"

definition reference_shape :: "jsstring \<Rightarrow> bool" where
  "reference_shape s \<longleftrightarrow> length s = 36 \<and> toLowerCase (take 4 s) = js ''alt_''
     \<and> list_all reference_unit (drop 4 s)"

definition normalizePaymentReference :: "jsval \<Rightarrow> jsstring option" where
  "normalizePaymentReference v =
     (if \<not> is_string v then None
      else let reference = trim (the_str v) in
        if reference_shape reference then Some (toLowerCase reference) else None)"

definition pendingGivingRecoveryReference :: "GivingRecord \<Rightarrow> jsstring option" where
  "pendingGivingRecoveryReference r =
     (if gr_status r \<noteq> Pending \<or> gr_channel r = Cash then None
      else normalizePaymentReference (JStr (gr_idempotencyKey r)))"

definition normalizeOwnedTransaction ::
    "host \<Rightarrow> jsval \<Rightarrow> jsstring \<Rightarrow> jsstring \<Rightarrow> jsstring \<Rightarrow> js_error + GivingRecord" where
  "normalizeOwnedTransaction h v reference churchId memberId =
     (case normalizePaymentReference (JStr reference) of
        None \<Rightarrow> Inl (throw ''The payment reference is not valid.'')
      | Some normalizedReference \<Rightarrow>
          if \<not> id_ok churchId \<or> \<not> id_ok memberId
          then Inl (throw ''The payment reference is not valid.'')
          else and_then (normalizeGivingRecord h v) (\<lambda>r.
            if toLowerCase (gr_idempotencyKey r) \<noteq> normalizedReference
              \<or> gr_churchId r \<noteq> churchId
              \<or> \<not> (gr_memberId r = None \<or> gr_memberId r = Some memberId)
            then Inl invalid_record else Inr r))"

definition safeCheckoutUrl :: "host \<Rightarrow> jsval \<Rightarrow> jsstring option" where
  "safeCheckoutUrl h v =
     (if \<not> is_string v \<or> 2048 < length (the_str v) \<or> list_ex is_control (the_str v) then None
      else case urlParse h (trim (the_str v)) of
          None \<Rightarrow> None
        | Some u \<Rightarrow>
            if u_protocol u \<noteq> js ''https:'' \<or> toLowerCase (u_hostname u) \<noteq> js ''checkout.paystack.com''
              \<or> u_port u \<noteq> [] \<or> u_username u \<noteq> [] \<or> u_password u \<noteq> []
            then None else Some (u_href u))"

definition MAX_ACCESS_CODE_LENGTH :: nat where
  "MAX_ACCESS_CODE_LENGTH = 512"

definition validAccessCode :: "jsval \<Rightarrow> bool" where
  "validAccessCode v \<longleftrightarrow> is_string v \<and> the_str v \<noteq> []
     \<and> length (the_str v) \<le> MAX_ACCESS_CODE_LENGTH \<and> \<not> list_ex is_control (the_str v)"

record GiveResult =
  gs_transaction :: GivingRecord
  gs_levy :: LevyQuote
  gs_authorizationUrl :: jsstring
  gs_accessCode :: jsstring

definition normalizeCheckoutResult ::
    "host \<Rightarrow> jsval \<Rightarrow> GiveRequest \<Rightarrow> jsstring \<Rightarrow> jsstring \<Rightarrow> js_error + GiveResult" where
  "normalizeCheckoutResult h v payload churchId memberId =
     (let invalid = throw ''The server returned an invalid checkout.'' in
      if \<not> is_record v then Inl invalid
      else and_then (validateLevyQuote (checkoutPricing (get v ''quote'')) (qr_amount payload)) (\<lambda>levy.
        and_then (normalizeGivingRecord h (get v ''transaction'')) (\<lambda>t.
        let authorizationUrl = safeCheckoutUrl h (get v ''authorizationUrl'');
            paymentReference = normalizePaymentReference (JStr (gr_idempotencyKey t));
            validOwner = (if qr_anonymous payload then gr_memberId t = None
              else gr_memberId t = Some memberId)
        in if gr_churchId t = churchId \<and> validOwner
            \<and> gr_type t = gq_type payload \<and> gr_channel t = qr_channel payload
            \<and> canonicalAmountMinor (qr_amount payload) = Inr (gr_grossMinor t)
            \<and> gr_levyMinor t = lq_levy levy
            \<and> gr_status t = Pending \<and> gr_providerRef t = None \<and> gr_note t = gq_note payload
            \<and> paymentReference \<noteq> None
            \<and> gq_acceptedTotalMinor payload = lq_total levy
            \<and> authorizationUrl \<noteq> None \<and> validAccessCode (get v ''accessCode'')
          then Inr \<lparr>gs_transaction = t, gs_levy = levy, gs_authorizationUrl = the authorizationUrl,
                    gs_accessCode = the_str (get v ''accessCode'')\<rparr>
          else Inl invalid)))"

section \<open>Giving options\<close>

record GivingCampaignOption =
  co_id :: jsstring
  co_title :: jsstring
  co_description :: "jsstring option"
  co_targetAmount :: int
  co_currentAmount :: int
  co_progress :: int
  co_endDate :: jsstring

record GivingPledgeOption =
  po_id :: jsstring
  po_campaignId :: "jsstring option"
  po_totalMinor :: int
  po_paidMinor :: int
  po_remainingMinor :: int
  po_percent :: int
  po_note :: "jsstring option"

abbreviation invalid_options :: js_error where
  "invalid_options \<equiv> throw ''The server returned invalid giving options.''"

definition mongo_string :: "jsval \<Rightarrow> bool" where
  "mongo_string v \<longleftrightarrow> is_string v \<and> mongo_id (the_str v)"

definition percentage :: "jsval \<Rightarrow> bool" where
  "percentage v \<longleftrightarrow> isInteger v \<and> 0 \<le> the_int v \<and> the_int v \<le> 100"

definition trimmed_if_present :: "jsval \<Rightarrow> jsstring option" where
  "trimmed_if_present v = (if nonEmptyString v then Some (trim (the_str v)) else None)"

definition normalizeCampaignOption :: "host \<Rightarrow> jsstring \<Rightarrow> jsval \<Rightarrow> js_error + GivingCampaignOption" where
  "normalizeCampaignOption h churchId item =
     (if \<not> is_record item then Inl invalid_options
      else if mongo_string (get item ''id'') \<and> get item ''churchId'' = JStr churchId
        \<and> nonEmptyString (get item ''title'') \<and> length (the_str (get item ''title'')) \<le> 160
        \<and> safe_count (get item ''targetAmount'') \<and> 0 < the_int (get item ''targetAmount'')
        \<and> safe_count (get item ''currentAmount'') \<and> get item ''currency'' = JStr (js ''GHS'')
        \<and> percentage (get item ''progress'')
        \<and> validDateString h (get item ''endDate'')
        \<and> boundedOptionalText (get item ''description'') 1000
      then Inr \<lparr>co_id = toLowerCase (the_str (get item ''id'')), co_title = trim (the_str (get item ''title'')),
            co_description = trimmed_if_present (get item ''description''),
            co_targetAmount = the_int (get item ''targetAmount''),
            co_currentAmount = the_int (get item ''currentAmount''),
            co_progress = the_int (get item ''progress''), co_endDate = the_str (get item ''endDate'')\<rparr>
      else Inl invalid_options)"

definition normalizePledgeOption :: "jsstring \<Rightarrow> jsstring \<Rightarrow> jsval \<Rightarrow> js_error + GivingPledgeOption" where
  "normalizePledgeOption churchId memberId item =
     (if \<not> is_record item then Inl invalid_options
      else let pledge = get item ''pledge'' in
        if \<not> is_record pledge then Inl invalid_options
        else let campaignId = blank_as_undefined (get pledge ''campaignId'') in
          if mongo_string (get pledge ''id'')
            \<and> get pledge ''churchId'' = JStr churchId \<and> get pledge ''memberId'' = JStr memberId
            \<and> optional mongo_string campaignId
            \<and> safe_count (get pledge ''totalMinor'') \<and> 0 < the_int (get pledge ''totalMinor'')
            \<and> safe_count (get item ''paidMinor'') \<and> safe_count (get item ''remainingMinor'')
            \<and> the_int (get item ''remainingMinor'') \<le> the_int (get pledge ''totalMinor'')
            \<and> get item ''currency'' = JStr (js ''GHS'')
            \<and> percentage (get item ''percent'')
            \<and> boundedOptionalText (get pledge ''note'') GIFT_NOTE_MAX_LENGTH
          then Inr \<lparr>po_id = toLowerCase (the_str (get pledge ''id'')),
                po_campaignId = map_option toLowerCase (opt_str campaignId),
                po_totalMinor = the_int (get pledge ''totalMinor''),
                po_paidMinor = the_int (get item ''paidMinor''),
                po_remainingMinor = the_int (get item ''remainingMinor''),
                po_percent = the_int (get item ''percent''),
                po_note = trimmed_if_present (get pledge ''note'')\<rparr>
          else Inl invalid_options)"

definition normalizeGivingOptions ::
    "host \<Rightarrow> jsval \<Rightarrow> jsstring \<Rightarrow> jsstring \<Rightarrow> js_error + GivingCampaignOption list \<times> GivingPledgeOption list" where
  "normalizeGivingOptions h v churchId memberId =
     (if \<not> is_record v then Inl invalid_options
      else case (get v ''campaigns'', get v ''pledges'') of
          (JArr cs, JArr ps) \<Rightarrow>
            if 200 < length cs \<or> 500 < length ps then Inl invalid_options
            else and_then (mapM (normalizeCampaignOption h churchId) cs) (\<lambda>campaigns.
              and_then (mapM (normalizePledgeOption churchId memberId) ps) (\<lambda>pledges.
                if \<not> distinct (map co_id campaigns) \<or> \<not> distinct (map po_id pledges)
                then Inl invalid_options else Inr (campaigns, pledges)))
        | _ \<Rightarrow> Inl invalid_options)"

section \<open>The operations\<close>

abbreviation incomplete_identity :: js_error where
  "incomplete_identity \<equiv> throw ''The member identity is incomplete.''"

abbreviation invalid_history :: js_error where
  "invalid_history \<equiv> throw ''The server returned invalid giving history.''"

definition owned_by :: "jsstring \<Rightarrow> jsstring \<Rightarrow> GivingRecord \<Rightarrow> bool" where
  "owned_by churchId memberId r \<longleftrightarrow> gr_churchId r = churchId
     \<and> (gr_memberId r = None \<or> gr_memberId r = Some memberId)"

definition getGivingOptions ::
    "host \<Rightarrow> api \<Rightarrow> jsstring \<Rightarrow> jsstring \<Rightarrow> js_error + GivingCampaignOption list \<times> GivingPledgeOption list" where
  "getGivingOptions h api churchId memberId =
     (if \<not> id_ok churchId \<or> \<not> id_ok memberId then Inl incomplete_identity
      else and_then (api_get api (js ''/finance/me/giving-options'') []) (\<lambda>data.
        and_then (unwrapApiData data invalid_options) (\<lambda>d. normalizeGivingOptions h d churchId memberId)))"

definition quote_request_json :: "QuoteRequest \<Rightarrow> jsval" where
  "quote_request_json q =
     JObj [(''amount'', JStr (qr_amount q)), (''currency'', JStr (js ''GHS'')),
       (''channel'', JStr (channel_text (qr_channel q))), (''anonymous'', JBool (qr_anonymous q))]"

definition giving_quote :: "api \<Rightarrow> jsval \<Rightarrow> js_error + LevyQuote" where
  "giving_quote api payload =
     and_then (normalizeQuoteRequest payload) (\<lambda>request.
     and_then (api_post api (js ''/finance/give/quote'') (quote_request_json request)) (\<lambda>data.
     and_then (unwrapApiData data invalid_quote) (\<lambda>d. validateLevyQuote d (qr_amount request))))"

definition give :: "host \<Rightarrow> api \<Rightarrow> jsval \<Rightarrow> jsstring \<Rightarrow> jsstring \<Rightarrow> js_error + GiveResult" where
  "give h api payload churchId memberId =
     and_then (normalizeGiveRequest payload) (\<lambda>request.
     if \<not> id_ok churchId \<or> \<not> id_ok memberId then Inl incomplete_identity
     else and_then (api_post api (js ''/finance/give'') (give_request_json request)) (\<lambda>data.
       and_then (unwrapApiData data (throw ''The server returned an invalid checkout.'')) (\<lambda>d.
         normalizeCheckoutResult h d request churchId memberId)))"

text \<open>The checks both history operations end with.\<close>

definition checkedHistory :: "host \<Rightarrow> jsval list \<Rightarrow> jsstring \<Rightarrow> jsstring \<Rightarrow> js_error + GivingRecord list" where
  "checkedHistory h vs churchId memberId =
     and_then (mapM (normalizeGivingRecord h) vs) (\<lambda>records.
       if \<not> list_all (owned_by churchId memberId) records \<or> \<not> distinct (map gr_id records)
       then Inl invalid_history
       else and_then (sumConfirmedGivingMinor records) (\<lambda>_. Inr records))"

definition getHistory :: "host \<Rightarrow> api \<Rightarrow> jsstring \<Rightarrow> jsstring \<Rightarrow> jsval \<Rightarrow> js_error + GivingRecord list" where
  "getHistory h api churchId memberId params =
     (if \<not> id_ok churchId \<or> \<not> id_ok memberId then Inl incomplete_identity
      else and_then (normalizeGivingHistoryParams h params) (\<lambda>requestParams.
        and_then (api_get api (js ''/finance/me/giving'') requestParams) (\<lambda>data.
        and_then (unwrapApiData data invalid_history) (\<lambda>history.
          case history of
            JArr vs \<Rightarrow>
              if GIVING_HISTORY_MAX_RECORDS < length vs then Inl invalid_history
              else checkedHistory h vs churchId memberId
          | _ \<Rightarrow> Inl invalid_history))))"

definition getHistoryPage ::
    "host \<Rightarrow> api \<Rightarrow> jsstring \<Rightarrow> jsstring \<Rightarrow> jsval \<Rightarrow> jsval \<Rightarrow> js_error + GivingRecord list \<times> int" where
  "getHistoryPage h api churchId memberId page limit =
     (if \<not> id_ok churchId \<or> \<not> id_ok memberId then Inl incomplete_identity
      else and_then (normalizeGivingHistoryPageParams page limit) (\<lambda>(p, l).
        and_then (api_get api (js ''/finance/me/giving'') [(''page'', jint p), (''limit'', jint l)]) (\<lambda>data.
        and_then (unwrapApiData data invalid_history) (\<lambda>payload.
          if \<not> is_record payload then Inl invalid_history
          else case get payload ''data'' of
              JArr vs \<Rightarrow>
                if l < int (length vs) \<or> \<not> isSafeInteger (get payload ''total'')
                  \<or> the_int (get payload ''total'') < int (length vs)
                then Inl invalid_history
                else and_then (checkedHistory h vs churchId memberId) (\<lambda>records.
                  Inr (records, the_int (get payload ''total'')))
            | _ \<Rightarrow> Inl invalid_history))))"

definition transaction_call ::
    "host \<Rightarrow> (jsstring \<Rightarrow> js_error + jsval) \<Rightarrow> jsstring \<Rightarrow> jsstring \<Rightarrow> jsstring \<Rightarrow> js_error + GivingRecord" where
  "transaction_call h send reference churchId memberId =
     (case normalizePaymentReference (JStr reference) of
        None \<Rightarrow> Inl (throw ''The payment reference is not valid.'')
      | Some normalizedReference \<Rightarrow>
          if \<not> id_ok churchId \<or> \<not> id_ok memberId then Inl incomplete_identity
          else and_then (send (path_segment normalizedReference)) (\<lambda>data.
            and_then (unwrapApiData data invalid_record) (\<lambda>d.
              normalizeOwnedTransaction h d normalizedReference churchId memberId)))"

definition getTransaction :: "host \<Rightarrow> api \<Rightarrow> jsstring \<Rightarrow> jsstring \<Rightarrow> jsstring \<Rightarrow> js_error + GivingRecord" where
  "getTransaction h api = transaction_call h (\<lambda>r. api_get api (js ''/finance/transactions/'' @ r) [])"

definition settle_transaction :: "host \<Rightarrow> api \<Rightarrow> jsstring \<Rightarrow> jsstring \<Rightarrow> jsstring \<Rightarrow> js_error + GivingRecord" where
  "settle_transaction h api =
     transaction_call h (\<lambda>r. api_post api (js ''/finance/transactions/'' @ r @ js ''/settle'') JUndef)"

section \<open>Lemmas\<close>

definition confirmed_total :: "GivingRecord list \<Rightarrow> int" where
  "confirmed_total rs = sum_list (map gr_grossMinor (filter (\<lambda>r. gr_status r = Success) rs))"

lemma confirmed_total_nonneg: "\<forall>r\<in>set rs. 0 \<le> gr_grossMinor r \<Longrightarrow> 0 \<le> confirmed_total rs"
  unfolding confirmed_total_def by (rule sum_list_nonneg) auto

lemma sumConfirmedFrom_Inr:
  assumes "\<forall>r\<in>set rs. amount_ok (gr_grossMinor r)" and "tot \<le> max_safe_integer"
  shows "sumConfirmedFrom tot rs = Inr n \<longleftrightarrow> n = tot + confirmed_total rs \<and> n \<le> max_safe_integer"
  using assms
proof (induction rs arbitrary: tot)
  case (Cons r rs)
  have "0 \<le> confirmed_total rs"
    using Cons.prems(1) by (intro confirmed_total_nonneg) (simp add: amount_ok_def)
  then show ?case
    using Cons.IH [of tot] Cons.IH [of "tot + gr_grossMinor r"] Cons.prems
    by (auto simp: confirmed_total_def)
qed (auto simp: confirmed_total_def)

lemma reference_unit_lower: "reference_unit c \<Longrightarrow> reference_unit (lower_unit c)"
  by (auto simp: reference_unit_def lower_unit_def is_lower_def is_upper_def)

lemma normalizePaymentReference_fixpoint:
  "normalizePaymentReference v = Some s \<Longrightarrow> normalizePaymentReference (JStr s) = Some s"
proof -
  assume some: "normalizePaymentReference v = Some s"
  then obtain t where t: "reference_shape t" "trim t = t" "s = toLowerCase t"
    by (auto simp: normalizePaymentReference_def Let_def split: if_splits)
  have "reference_shape s"
    using t(1) reference_unit_lower unfolding t(3) reference_shape_def
    by (auto simp: toLowerCase_def take_map drop_map list_all_iff) (simp add: js_def lower_unit_def)
  moreover have "trim s = s" using t by (metis trim_toLowerCase)
  ultimately show ?thesis using t(3) by (simp add: normalizePaymentReference_def)
qed

interpretation payment_reference: canonicalizer normalizePaymentReference JStr
  by unfold_locales (rule normalizePaymentReference_fixpoint)

lemma checkedHistory_Inr:
  assumes "checkedHistory h vs churchId memberId = Inr rs"
  shows "(\<forall>r\<in>set rs. giving_ok h r \<and> owned_by churchId memberId r) \<and> distinct (map gr_id rs)
    \<and> length rs = length vs \<and> confirmed_total rs \<le> max_safe_integer"
proof -
  have m: "mapM (normalizeGivingRecord h) vs = Inr rs" and own: "list_all (owned_by churchId memberId) rs"
    and d: "distinct (map gr_id rs)" and "\<exists>n. sumConfirmedGivingMinor rs = Inr n"
    using assms by (auto simp: checkedHistory_def res_simps split: if_splits)
  moreover have ok: "\<forall>r\<in>set rs. giving_ok h r" by (rule giving_record.mapM_good [OF m])
  moreover have "\<forall>r\<in>set rs. amount_ok (gr_grossMinor r)"
    using ok by (simp add: giving_ok_def ledger_ok_def)
  ultimately show ?thesis
    using sumConfirmedFrom_Inr [of rs 0] mapM_Inr_length [OF m]
    by (auto simp: sumConfirmedGivingMinor_def list_all_iff max_safe_integer_def)
qed

text \<open>A link the app may open for a payment.\<close>

definition trusted_checkout :: "host \<Rightarrow> jsstring \<Rightarrow> bool" where
  "trusted_checkout h link \<longleftrightarrow> (\<exists>t u. urlParse h t = Some u \<and> u_href u = link
     \<and> u_protocol u = js ''https:'' \<and> toLowerCase (u_hostname u) = js ''checkout.paystack.com''
     \<and> u_port u = [] \<and> u_username u = [] \<and> u_password u = [])"

lemma safeCheckoutUrl_Some: "safeCheckoutUrl h v = Some s \<Longrightarrow> trusted_checkout h s"
  unfolding safeCheckoutUrl_def trusted_checkout_def
  by (auto split: if_splits option.splits)

section \<open>Properties\<close>

text \<open>The ledger a member sees. A transaction is accepted exactly when it is well formed: safe
  identifiers, a positive gross amount, a charge that covers it and equals it when the church
  bears the fee, a net amount that does not exceed it, bounded texts; what was accepted encodes to
  a value that is accepted as the same record.\<close>

theorem giving_record_well_formed:
  "((\<exists>v. normalizeGivingRecord h v = Inr r) \<longleftrightarrow> giving_ok h r)
   \<and> (normalizeGivingRecord h (giving_json r) = Inr r \<longleftrightarrow> giving_ok h r)"
  using giving_record.norm_range giving_record.norm_encode giving_record.norm_good by blast

text \<open>C19: a checkout is the one that was asked for. What \<open>give\<close> returns is a pending transaction
  of the church it was called for, of the member (or of nobody, when the gift is anonymous), for
  exactly the amount, purpose, channel and note of the normalized request; its quote adds up to
  the total the member accepted; the link it opens parses to https on checkout.paystack.com without
  port or credentials.\<close>

theorem checkout_is_what_was_asked:
  assumes "give h api payload churchId memberId = Inr result"
  shows "\<exists>request. normalizeGiveRequest payload = Inr request \<and> give_ok request
     \<and> giving_ok h (gs_transaction result) \<and> quote_ok (qr_amount request) (gs_levy result)
     \<and> gr_churchId (gs_transaction result) = churchId
     \<and> gr_memberId (gs_transaction result) = (if qr_anonymous request then None else Some memberId)
     \<and> canonicalAmountMinor (qr_amount request) = Inr (gr_grossMinor (gs_transaction result))
     \<and> gr_type (gs_transaction result) = gq_type request
     \<and> gr_channel (gs_transaction result) = qr_channel request
     \<and> gr_note (gs_transaction result) = gq_note request
     \<and> gr_status (gs_transaction result) = Pending
     \<and> gr_levyMinor (gs_transaction result) = lq_levy (gs_levy result)
     \<and> lq_total (gs_levy result) = gq_acceptedTotalMinor request
     \<and> trusted_checkout h (gs_authorizationUrl result)"
proof -
  obtain request d where req: "normalizeGiveRequest payload = Inr request"
    and res: "normalizeCheckoutResult h d request churchId memberId = Inr result"
    using assms by (auto simp: give_def res_simps split: if_splits)
  obtain levy t where parts: "validateLevyQuote (checkoutPricing (get d ''quote'')) (qr_amount request) = Inr levy"
      "normalizeGivingRecord h (get d ''transaction'') = Inr t"
    and rest: "gr_churchId t = churchId"
      "if qr_anonymous request then gr_memberId t = None else gr_memberId t = Some memberId"
      "gr_type t = gq_type request" "gr_channel t = qr_channel request"
      "canonicalAmountMinor (qr_amount request) = Inr (gr_grossMinor t)" "gr_levyMinor t = lq_levy levy"
      "gr_status t = Pending" "gr_note t = gq_note request" "gq_acceptedTotalMinor request = lq_total levy"
      "safeCheckoutUrl h (get d ''authorizationUrl'') = Some (gs_authorizationUrl result)"
    and result: "gs_transaction result = t" "gs_levy result = levy"
    using res by (auto simp: normalizeCheckoutResult_def Let_def res_simps split: if_splits)
  show ?thesis
    using req rest result give_request.norm_good [OF req] levy_quote.norm_good [OF parts(1)]
      giving_record.norm_good [OF parts(2)] safeCheckoutUrl_Some [OF rest(10)]
    by (intro exI [of _ request]) (simp split: if_splits)
qed

text \<open>The history is the member's own. Every transaction of a history page is well formed, of the church it was called for and of this member or of nobody, the identifiers
  are distinct, the page respects its limit and the announced total, and the confirmed gifts sum
  to an amount that is displayed exactly.\<close>

theorem history_page_is_own:
  assumes "getHistoryPage h api churchId memberId page limit = Inr (records, announced)"
  shows "page_ok (\<lambda>r. giving_ok h r \<and> owned_by churchId memberId r) gr_id (the_int limit) records announced
     \<and> the_int limit \<le> 100
     \<and> sumConfirmedGivingMinor records = Inr (confirmed_total records)"
proof -
  obtain vs where "checkedHistory h vs churchId memberId = Inr records"
    and len: "int (length vs) \<le> the_int limit" "int (length vs) \<le> announced" "the_int limit \<le> 100"
    using assms
    by (auto simp: getHistoryPage_def normalizeGivingHistoryPageParams_def res_simps
        split: if_splits jsval.splits)
  from checkedHistory_Inr [OF this(1)] have ok:
    "\<forall>r\<in>set records. giving_ok h r \<and> owned_by churchId memberId r" "distinct (map gr_id records)"
    "length records = length vs" "confirmed_total records \<le> max_safe_integer"
    by simp_all
  then have "sumConfirmedGivingMinor records = Inr (confirmed_total records)"
    using sumConfirmedFrom_Inr [of records 0]
    by (simp add: sumConfirmedGivingMinor_def giving_ok_def ledger_ok_def max_safe_integer_def)
  with ok len show ?thesis by (simp add: page_ok_def)
qed

text \<open>The total of the confirmed gifts is exact or refused. Over records whose amounts are
  safe, the sum is returned exactly when it is itself a safe integer, and then it is the
  mathematical sum; pending, failed and reversed transactions do not count.\<close>

theorem confirmed_sum_exact:
  assumes "\<forall>r\<in>set records. amount_ok (gr_grossMinor r)"
  shows "sumConfirmedGivingMinor records = Inr n \<longleftrightarrow> n = confirmed_total records \<and> n \<le> max_safe_integer"
  using sumConfirmedFrom_Inr [OF assms, of 0] by (simp add: sumConfirmedGivingMinor_def max_safe_integer_def)

section \<open>Witnesses\<close>

definition sample_host :: host where
  "sample_host = \<lparr>dateParse = (\<lambda>_. Some 0), urlParse = (\<lambda>s. Some
     \<lparr>u_protocol = js ''https:'', u_hostname = js ''checkout.paystack.com'', u_port = [],
      u_username = [], u_password = [], u_pathname = js ''/x'', u_search = [], u_hash = [],
      u_origin = js ''https://checkout.paystack.com'', u_href = s\<rparr>),
     searchParams = (\<lambda>_. [])\<rparr>"

definition sample_giving :: GivingRecord where
  "sample_giving = \<lparr>gr_id = js ''t1'', gr_churchId = js ''c1'', gr_memberId = Some (js ''m1''),
     gr_type = Tithe, gr_channel = MobileMoney, gr_grossMinor = 5000, gr_levyMinor = 0,
     gr_providerFeeMinor = 0, gr_chargedMinor = 5100, gr_feeBearer = Giver, gr_netMinor = 5000,
     gr_status = Pending, gr_providerRef = None,
     gr_idempotencyKey = js ''alt_abcdefghijklmnopqrstuvwxyz234567'', gr_note = None,
     gr_occurredAt = js ''2026-01-04'', gr_createdAt = js ''2026-01-04''\<rparr>"

definition sample_quote :: LevyQuote where
  "sample_quote = \<lparr>lq_levy = 0, lq_total = 5100, lq_exempt = True, lq_reason = js ''Exempt'',
     lq_fee = \<lparr>fq_gift = 5000, fq_providerFee = 100, fq_charged = 5100, fq_bearer = Giver,
       fq_explanation = js ''Mobile money fee'', fq_estimated = True\<rparr>\<rparr>"

definition sample_payload :: jsval where
  "sample_payload = JObj [(''amount'', JStr (js ''50'')), (''currency'', JStr (js ''GHS'')),
     (''type'', JStr (js ''tithe'')), (''channel'', JStr (js ''mobile_money'')),
     (''acceptedTotalMinor'', jint 5100)]"

definition sample_checkout :: api where
  "sample_checkout _ = Inr (envelope (JObj
     [(''transaction'', giving_json sample_giving),
      (''quote'', JObj [(''fee'', get (quote_json sample_quote) ''fee''),
         (''levy'', JObj [(''levy'', money_json 0), (''exempt'', JBool True), (''reason'', JStr (js ''Exempt''))]),
         (''total'', money_json 5100)]),
      (''authorizationUrl'', JStr (js ''https://checkout.paystack.com/x'')),
      (''accessCode'', JStr (js ''code''))]))"

definition sample_result :: GiveResult where
  "sample_result = \<lparr>gs_transaction = sample_giving, gs_levy = sample_quote,
     gs_authorizationUrl = js ''https://checkout.paystack.com/x'', gs_accessCode = js ''code''\<rparr>"

theorem checkout_is_what_was_asked_witness:
  "give sample_host sample_checkout sample_payload (js ''c1'') (js ''m1'') = Inr sample_result
   \<and> gr_grossMinor (gs_transaction sample_result) = 5000
   \<and> (\<exists>request. normalizeGiveRequest sample_payload = Inr request \<and> give_ok request)"
proof -
  have run: "give sample_host sample_checkout sample_payload (js ''c1'') (js ''m1'') = Inr sample_result"
    by code_simp
  show ?thesis
    using run checkout_is_what_was_asked [OF run]
    by (auto simp: sample_result_def sample_giving_def)
qed

definition sample_page :: api where
  "sample_page _ = Inr (envelope (JObj [(''data'', JArr [giving_json sample_giving]), (''total'', jint 1)]))"

theorem history_page_is_own_witness:
  "getHistoryPage sample_host sample_page (js ''c1'') (js ''m1'') (jint 1) (jint 50)
     = Inr ([sample_giving], 1)
   \<and> owned_by (js ''c1'') (js ''m1'') sample_giving"
proof -
  have run: "getHistoryPage sample_host sample_page (js ''c1'') (js ''m1'') (jint 1) (jint 50)
     = Inr ([sample_giving], 1)"
    by code_simp
  show ?thesis
    using run history_page_is_own [OF run] by (simp add: page_ok_def)
qed

theorem confirmed_sum_exact_witness:
  "sumConfirmedGivingMinor [sample_giving\<lparr>gr_status := Success\<rparr>, sample_giving] = Inr 5000"
  by (subst confirmed_sum_exact)
    (simp_all add: sample_giving_def amount_ok_def confirmed_total_def max_safe_integer_def)

end
