(* ===== verification/Steps.thy ===== *)
theory Steps
  imports Main
begin

text \<open>
  Runs of a component given by a step function: \<open>nxt l s\<close> is the state after the event \<open>l\<close>, or \<open>None\<close> when
  the event cannot happen in \<open>s\<close>. A run is a relation, for induction along it, and a function, so that a
  witness can compute one.
\<close>

inductive step_run :: "('l \<Rightarrow> 's \<Rightarrow> 's option) \<Rightarrow> 's \<Rightarrow> 'l list \<Rightarrow> 's \<Rightarrow> bool" for nxt s where
  here: "step_run nxt s [] s"
| further: "step_run nxt s ls t \<Longrightarrow> nxt l t = Some u \<Longrightarrow> step_run nxt s (ls @ [l]) u"

fun run_steps :: "('l \<Rightarrow> 's \<Rightarrow> 's option) \<Rightarrow> 'l list \<Rightarrow> 's \<Rightarrow> 's option" where
  "run_steps nxt [] s = Some s"
| "run_steps nxt (l # ls) s = (case nxt l s of Some t \<Rightarrow> run_steps nxt ls t | None \<Rightarrow> None)"

lemma step_run_append: "step_run nxt t ls u \<Longrightarrow> step_run nxt s ks t \<Longrightarrow> step_run nxt s (ks @ ls) u"
  by (induction rule: step_run.induct) (auto simp flip: append_assoc intro: step_run.further)

lemma step_run_Cons: "nxt l s = Some t \<Longrightarrow> step_run nxt t ls u \<Longrightarrow> step_run nxt s (l # ls) u"
  using step_run_append [of nxt t ls u s "[l]"] step_run.further [OF step_run.here, of nxt l s t] by simp

lemma run_steps_append: "run_steps nxt (ks @ ls) s = Option.bind (run_steps nxt ks s) (run_steps nxt ls)"
  by (induction ks arbitrary: s) (auto split: option.split)

text \<open>The relation and the function agree.\<close>

lemma step_run_iff: "step_run nxt s ls t \<longleftrightarrow> run_steps nxt ls s = Some t"
proof
  show "step_run nxt s ls t \<Longrightarrow> run_steps nxt ls s = Some t"
    by (induction rule: step_run.induct) (auto simp: run_steps_append)
  show "run_steps nxt ls s = Some t \<Longrightarrow> step_run nxt s ls t"
    by (induction ls arbitrary: s) (auto intro: step_run.here step_run_Cons split: option.splits)
qed

text \<open>A property that every step keeps holds after every run.\<close>

lemma step_run_invariant:
  assumes "step_run nxt s ls t" and "I s" and "\<And>l u v. l \<in> set ls \<Longrightarrow> nxt l u = Some v \<Longrightarrow> I u \<Longrightarrow> I v"
  shows "I t"
  using assms by induction auto

text \<open>A component whose steps keep an invariant keeps it in every run.\<close>

locale step_invariant =
  fixes nxt :: "'l \<Rightarrow> 's \<Rightarrow> 's option" and inv :: "'s \<Rightarrow> bool"
  assumes kept: "nxt l s = Some t \<Longrightarrow> inv s \<Longrightarrow> inv t"
begin

lemma run_kept: "step_run nxt s ls t \<Longrightarrow> inv s \<Longrightarrow> inv t"
  by (rule step_run_invariant) (auto intro: kept)

end

end
