(* ===== verification/Linking.thy ===== *)
theory Linking
  imports ApiBoundary Steps
begin

text \<open>
  Member destinations: \<open>apps/mobile/src/services/notification-linking.ts\<close> and the linking options of
  \<open>components/navigation/AppNavigator.tsx\<close>. A link out of a notification or of the operating system is
  handed to Navigation only when it is a known in-app route. The module's state is one deferred destination,
  and a gate that lets the launch link be read once per process; what the Navigation library does with a link
  it is handed is not modelled.
\<close>

section \<open>The allow-list\<close>

definition ALLOWED_STATIC_PATHS :: "jsstring list" where
  "ALLOWED_STATIC_PATHS = map js
     [''notifications'', ''events'', ''community'', ''community/new'', ''give'', ''giving/history'',
      ''giving/complete'', ''profile'', ''devotional'', ''sermons'', ''prayer'', ''welfare'']"

definition MAX_DEEP_LINK_LENGTH :: nat where
  "MAX_DEEP_LINK_LENGTH = 2048"

definition scheme :: jsstring where
  "scheme = js ''altaros://''"

text \<open>\<open>/^[A-Za-z0-9_-]{1,128}$/\<close>.\<close>

definition safe_route_id :: "jsstring \<Rightarrow> bool" where
  "safe_route_id s \<longleftrightarrow> 1 \<le> length s \<and> length s \<le> 128 \<and> list_all (\<lambda>c. is_alnum c \<or> c = 95 \<or> c = 45) s"

text \<open>\<open>/^alt_[a-z2-7]{32}$/i\<close>.\<close>

definition safe_payment_reference :: "jsstring \<Rightarrow> bool" where
  "safe_payment_reference s \<longleftrightarrow> length s = 36 \<and> toLowerCase (take 4 s) = js ''alt_''
     \<and> list_all (\<lambda>c. is_lower c \<or> is_upper c \<or> (50 \<le> c \<and> c \<le> 55)) (drop 4 s)"

fun check_entries :: "jsstring list \<Rightarrow> (jsstring \<times> jsstring) list \<Rightarrow> bool" where
  "check_entries keys [] = True"
| "check_entries keys ((key, v) # entries) =
     (if (key \<noteq> js ''reference'' \<and> key \<noteq> js ''trxref'') \<or> key \<in> set keys \<or> \<not> safe_payment_reference v
      then False else check_entries (key # keys) entries)"

definition hasSafePaymentQuery :: "host \<Rightarrow> jsstring \<Rightarrow> bool" where
  "hasSafePaymentQuery h query =
     (let entries = searchParams h query in
      if length entries < 1 \<or> 2 < length entries then False
      else if \<not> check_entries [] entries then False
      else case (map_of entries (js ''reference''), map_of entries (js ''trxref'')) of
          (Some reference, Some transactionReference) \<Rightarrow>
            \<not> (reference \<noteq> [] \<and> transactionReference \<noteq> []
               \<and> toLowerCase reference \<noteq> toLowerCase transactionReference)
        | _ \<Rightarrow> True)"

text \<open>\<open>/^(events|community\/posts)\/([^/]+)$/\<close>: the second group.\<close>

definition dynamic_segment :: "jsstring \<Rightarrow> jsstring option" where
  "dynamic_segment route =
     (let seg = (if starts_with (js ''events/'') route then drop 7 route
                 else if starts_with (js ''community/posts/'') route then drop 16 route else [])
      in if seg \<noteq> [] \<and> 47 \<notin> set seg then Some seg else None)"

definition isAllowedRoute :: "jsstring \<Rightarrow> bool" where
  "isAllowedRoute route =
     (if route \<in> set ALLOWED_STATIC_PATHS then True
      else case dynamic_segment route of
          None \<Rightarrow> False
        | Some seg \<Rightarrow> (case decodeURIComponent seg of None \<Rightarrow> False | Some s \<Rightarrow> safe_route_id s))"

definition link_route :: "jsstring \<Rightarrow> jsstring" where
  "link_route destination = strip_slashes (takeWhile (\<lambda>c. c \<noteq> 63) destination)"

definition safeNotificationUrl :: "host \<Rightarrow> jsval \<Rightarrow> jsstring option" where
  "safeNotificationUrl h v =
     (if \<not> is_string v then None
      else let candidate = trim (the_str v) in
        if candidate = [] \<or> MAX_DEEP_LINK_LENGTH < length candidate
          \<or> list_ex (\<lambda>c. is_control c \<or> is_space c) candidate
          \<or> \<not> starts_with scheme candidate
        then None
        else let destination = drop (length scheme) candidate in
          if 35 \<in> set destination then None
          else if 63 \<in> set destination
            \<and> (link_route destination \<noteq> js ''giving/complete''
               \<or> \<not> hasSafePaymentQuery h (tl (dropWhile (\<lambda>c. c \<noteq> 63) destination)))
          then None
          else if isAllowedRoute (link_route destination) then Some candidate else None)"

definition notificationUrlFromData :: "host \<Rightarrow> jsval \<Rightarrow> jsstring option" where
  "notificationUrlFromData h data =
     safeNotificationUrl h (coalesce (get data ''deepLink'') (get data ''url''))"

section \<open>The deferred destination\<close>

type_synonym deferred = "jsstring option"

definition rememberDeferredUrl :: "host \<Rightarrow> jsval \<Rightarrow> deferred \<Rightarrow> bool \<times> deferred" where
  "rememberDeferredUrl h v st =
     (case safeNotificationUrl h v of None \<Rightarrow> (False, st) | Some safe \<Rightarrow> (True, Some safe))"

definition consumeDeferredUrl :: "deferred \<Rightarrow> jsstring option \<times> deferred" where
  "consumeDeferredUrl st = (st, None)"

definition clearDeferredUrl :: "deferred \<Rightarrow> deferred" where
  "clearDeferredUrl st = None"

text \<open>The two bridge reads: a thrown error or a value.\<close>

definition resolveInitialMemberUrl :: "host \<Rightarrow> js_error + jsval \<Rightarrow> js_error + jsval \<Rightarrow> jsstring option" where
  "resolveInitialMemberUrl h linkRead notificationRead =
     (let notification = (case notificationRead of Inl _ \<Rightarrow> None | Inr v \<Rightarrow> safeNotificationUrl h v)
      in case linkRead of
          Inl _ \<Rightarrow> notification
        | Inr v \<Rightarrow> (case safeNotificationUrl h v of Some u \<Rightarrow> Some u | None \<Rightarrow> notification))"

section \<open>The launch link\<close>

text \<open>
  \<open>createInitialUrlGate\<close>. A call of \<open>take\<close> answers null, joins the pending read or starts
  one; the read settles later. \<open>ig_reads\<close> counts the reads that were started.
\<close>

record initial_gate =
  ig_consumed :: bool
  ig_pending :: bool
  ig_reads :: nat

definition createInitialUrlGate :: initial_gate where
  "createInitialUrlGate = \<lparr>ig_consumed = False, ig_pending = False, ig_reads = 0\<rparr>"

datatype take_answer = AnswerNull | JoinRead | StartRead

definition gate_take :: "initial_gate \<Rightarrow> take_answer \<times> initial_gate" where
  "gate_take g =
     (if ig_consumed g then (AnswerNull, g)
      else if \<not> ig_pending g then (StartRead, g\<lparr>ig_pending := True, ig_reads := Suc (ig_reads g)\<rparr>)
      else (JoinRead, g))"

definition gate_settle :: "initial_gate \<Rightarrow> initial_gate" where
  "gate_settle g = g\<lparr>ig_consumed := True, ig_pending := False\<rparr>"

inductive gate_run :: "initial_gate \<Rightarrow> bool" where
  "gate_run createInitialUrlGate"
| "gate_run g \<Longrightarrow> gate_take g = (a, g') \<Longrightarrow> gate_run g'"
| "gate_run g \<Longrightarrow> ig_pending g \<Longrightarrow> gate_run (gate_settle g)"

section \<open>Links of the operating system\<close>

text \<open>The linking options of the member navigator: the path pattern of each screen.\<close>

definition linking_screens :: "(jsstring \<times> jsstring) list" where
  "linking_screens = map (map_prod js js)
     [(''Home'', []), (''Give'', ''give''), (''Events'', ''events''), (''Community'', ''community''), (''Profile'', ''profile''),
      (''Devotional'', ''devotional''), (''Sermons'', ''sermons''), (''Prayer'', ''prayer''),
      (''GivingHistory'', ''giving/history''), (''GivingComplete'', ''giving/complete''),
      (''EventDetail'', ''events/:eventId''), (''CreatePost'', ''community/new''),
      (''PostComments'', ''community/posts/:postId''), (''Welfare'', ''welfare''), (''Notifications'', ''notifications'')]"

text \<open>\<open>getInitialURL\<close>, with what the two reads at the launch gave.\<close>

definition getInitialURL ::
    "host \<Rightarrow> js_error + jsval \<Rightarrow> js_error + jsval \<Rightarrow> deferred \<Rightarrow> jsstring option \<times> deferred" where
  "getInitialURL h linkRead notificationRead st =
     (let (deferred, st') = consumeDeferredUrl st
      in case deferred of
          Some url \<Rightarrow> if url = [] then (resolveInitialMemberUrl h linkRead notificationRead, st') else (Some url, st')
        | None \<Rightarrow> (resolveInitialMemberUrl h linkRead notificationRead, st'))"

text \<open>
  The app between its two navigators: signed out, a link or the data of a notification is kept; signed in, the
  container asks for the first link and listens. \<open>lk_opened\<close> are the links handed to Navigation.
\<close>

record link_state =
  lk_signedIn :: bool
  lk_deferred :: deferred
  lk_opened :: "jsstring list"

datatype link_label =
    LinkNoticed jsval
  | NotificationNoticed jsval
  | MemberSignedIn
  | MemberSignedOut
  | FirstLinkAsked "js_error + jsval" "js_error + jsval"
  | LinkReceived jsval
  | NotificationReceived jsval

definition link_init :: "bool \<Rightarrow> link_state" where
  "link_init signedIn = \<lparr>lk_signedIn = signedIn, lk_deferred = None, lk_opened = []\<rparr>"

definition link_open :: "jsstring option \<Rightarrow> link_state \<Rightarrow> link_state" where
  "link_open url s = (case url of None \<Rightarrow> s | Some u \<Rightarrow> s\<lparr>lk_opened := lk_opened s @ [u]\<rparr>)"

fun link_next :: "host \<Rightarrow> link_label \<Rightarrow> link_state \<Rightarrow> link_state option" where
  "link_next h (LinkNoticed v) s =
     (if lk_signedIn s then None else Some (s\<lparr>lk_deferred := snd (rememberDeferredUrl h v (lk_deferred s))\<rparr>))"
| "link_next h (NotificationNoticed data) s =
     (if lk_signedIn s then None
      else Some (s\<lparr>lk_deferred := snd (rememberDeferredUrl h (case notificationUrlFromData h data of
          None \<Rightarrow> JNull | Some u \<Rightarrow> JStr u) (lk_deferred s))\<rparr>))"
| "link_next h MemberSignedIn s = Some (s\<lparr>lk_signedIn := True\<rparr>)"
| "link_next h MemberSignedOut s = Some (s\<lparr>lk_signedIn := False\<rparr>)"
| "link_next h (FirstLinkAsked linkRead notificationRead) s =
     (if \<not> lk_signedIn s then None
      else let (url, st) = getInitialURL h linkRead notificationRead (lk_deferred s)
        in Some (link_open url (s\<lparr>lk_deferred := st\<rparr>)))"
| "link_next h (LinkReceived v) s = (if \<not> lk_signedIn s then None else Some (link_open (safeNotificationUrl h v) s))"
| "link_next h (NotificationReceived data) s =
     (if \<not> lk_signedIn s then None else Some (link_open (notificationUrlFromData h data) s))"

abbreviation link_run :: "host \<Rightarrow> link_state \<Rightarrow> link_label list \<Rightarrow> link_state \<Rightarrow> bool" where
  "link_run h \<equiv> step_run (link_next h)"

section \<open>Lemmas\<close>

lemma safeNotificationUrl_iff:
  "safeNotificationUrl h v = Some u \<longleftrightarrow>
     is_string v \<and> u = trim (the_str v) \<and> safeNotificationUrl h (JStr u) = Some u"
  by (auto simp: safeNotificationUrl_def Let_def split: if_splits)

interpretation destination: canonicalizer "safeNotificationUrl h" JStr for h
  by unfold_locales (use safeNotificationUrl_iff in blast)

text \<open>
  What reaches Navigation, stated apart from the checks of the code: a path is one of the linking options, where the
  parameter of a pattern stands for a segment that decodes to a short identifier of letters, digits, \<open>-\<close> and \<open>_\<close>.
\<close>

definition route_id :: "jsstring \<Rightarrow> bool" where
  "route_id i \<longleftrightarrow> i \<noteq> [] \<and> length i \<le> 128 \<and> (\<forall>c\<in>set i. is_alnum c \<or> c \<in> set (js ''-_''))"

definition path_of_pattern :: "jsstring \<Rightarrow> jsstring \<Rightarrow> bool" where
  "path_of_pattern pattern path \<longleftrightarrow>
     (if set (js '':'') \<subseteq> set pattern
      then \<exists>p name seg i. pattern = p @ js '':'' @ name \<and> path = p @ seg \<and> decodeURIComponent seg = Some i \<and> route_id i
      else path = pattern)"

definition member_path :: "jsstring \<Rightarrow> bool" where
  "member_path path \<longleftrightarrow> (\<exists>(screen, pattern)\<in>set linking_screens. path_of_pattern pattern path)"

text \<open>The query of a payment that returns: one or two references, each key once, all the same but for upper and lower case.\<close>

definition payment_reference :: "jsstring \<Rightarrow> bool" where
  "payment_reference v \<longleftrightarrow>
     (\<exists>p r. v = p @ r \<and> length p = 4 \<and> toLowerCase p = js ''alt_'' \<and> length r = 32
        \<and> (\<forall>c\<in>set r. is_lower c \<or> is_upper c \<or> c \<in> set (js ''234567'')))"

definition payment_entries :: "(jsstring \<times> jsstring) list \<Rightarrow> bool" where
  "payment_entries es \<longleftrightarrow> es \<noteq> [] \<and> distinct (map fst es) \<and> set (map fst es) \<subseteq> {js ''reference'', js ''trxref''}
     \<and> (\<forall>(k, v)\<in>set es. payment_reference v)
     \<and> (\<forall>(k, v)\<in>set es. \<forall>(k', v')\<in>set es. toLowerCase v = toLowerCase v')"

definition destination_ok :: "host \<Rightarrow> jsstring \<Rightarrow> bool" where
  "destination_ok h u \<longleftrightarrow>
     (\<exists>d. u = js ''altaros://'' @ d \<and> length u \<le> 2048 \<and> (\<forall>c\<in>set u. \<not> is_control c \<and> \<not> is_space c)
        \<and> set (js ''#'') \<inter> set d = {}
        \<and> (if set (js ''?'') \<inter> set d = {} then member_path (strip_slashes d)
           else \<exists>path query. d = path @ js ''?'' @ query \<and> strip_slashes path = js ''giving/complete''
             \<and> payment_entries (searchParams h query)))"

lemma starts_withE:
  assumes "starts_with p s"
  obtains t where "s = p @ t" and "t = drop (length p) s"
  using assms unfolding starts_with_def by (metis append_take_drop_id)

lemma static_paths:
  "route \<in> set ALLOWED_STATIC_PATHS \<Longrightarrow> \<exists>(screen, pattern)\<in>set linking_screens. pattern = route \<and> 58 \<notin> set pattern"
  unfolding ALLOWED_STATIC_PATHS_def linking_screens_def by (auto simp: js_def)

lemma dynamic_patterns:
  "(js ''EventDetail'', js ''events/'' @ js '':'' @ js ''eventId'') \<in> set linking_screens"
  "(js ''PostComments'', js ''community/posts/'' @ js '':'' @ js ''postId'') \<in> set linking_screens"
  by (simp_all add: linking_screens_def js_def)

lemma safe_route_id_iff: "safe_route_id i \<longleftrightarrow> route_id i"
  by (cases i) (auto simp: safe_route_id_def route_id_def list_all_iff js_def)

lemma isAllowedRoute_member:
  assumes ok: "isAllowedRoute route"
  shows "member_path route"
proof (cases "route \<in> set ALLOWED_STATIC_PATHS")
  case True
  from static_paths [OF this] show ?thesis
    unfolding member_path_def path_of_pattern_def by (rule bexE) (auto simp: js_def)
next
  case False
  then obtain seg i where seg: "dynamic_segment route = Some seg" "decodeURIComponent seg = Some i" "route_id i"
    using ok by (auto simp: isAllowedRoute_def safe_route_id_iff split: option.splits)
  have dynamic: "path_of_pattern (p @ js '':'' @ name) (p @ seg)" for p name
    using seg(2,3) by (auto simp: path_of_pattern_def)
  consider "starts_with (js ''events/'') route" "seg = drop 7 route"
    | "starts_with (js ''community/posts/'') route" "seg = drop 16 route"
    using seg(1) by (auto simp: dynamic_segment_def Let_def split: if_splits)
  then have "route = js ''events/'' @ seg \<or> route = js ''community/posts/'' @ seg"
    by cases (auto elim!: starts_withE)
  then show ?thesis
    using dynamic dynamic_patterns unfolding member_path_def by blast
qed

lemma safe_payment_reference_ok: "safe_payment_reference v \<Longrightarrow> payment_reference v"
  unfolding payment_reference_def
  by (rule exI [of _ "take 4 v"], rule exI [of _ "drop 4 v"])
    (auto simp: safe_payment_reference_def list_all_iff js_def numeral_eq_Suc le_Suc_eq)

lemma check_entries_ok:
  "check_entries keys es \<Longrightarrow> distinct (map fst es) \<and> set (map fst es) \<inter> set keys = {}
     \<and> (\<forall>(k, v)\<in>set es. k \<in> {js ''reference'', js ''trxref''} \<and> payment_reference v)"
  by (induction keys es rule: check_entries.induct) (auto simp: safe_payment_reference_ok split: if_splits)

lemma payment_reference_nonempty: "payment_reference v \<Longrightarrow> v \<noteq> []"
  by (auto simp: payment_reference_def)

lemma hasSafePaymentQuery_ok:
  assumes "hasSafePaymentQuery h query"
  shows "payment_entries (searchParams h query)"
proof -
  define es where "es = searchParams h query"
  have nonempty: "es \<noteq> []" and checked: "check_entries [] es"
    using assms by (auto simp: hasSafePaymentQuery_def es_def Let_def split: if_splits)
  note ok = check_entries_ok [OF checked]
  have d: "distinct (map fst es)" and v: "\<And>k v. (k, v) \<in> set es \<Longrightarrow> payment_reference v"
    and k: "\<And>k v. (k, v) \<in> set es \<Longrightarrow> k = js ''reference'' \<or> k = js ''trxref''"
    using ok by auto
  have same: "toLowerCase a = toLowerCase b"
    if "(js ''reference'', a) \<in> set es" "(js ''trxref'', b) \<in> set es" for a b
  proof -
    have "map_of es (js ''reference'') = Some a" "map_of es (js ''trxref'') = Some b"
      using that d by (simp_all add: map_of_is_SomeI)
    then show ?thesis
      using assms that [THEN v, THEN payment_reference_nonempty]
      by (simp add: hasSafePaymentQuery_def es_def [symmetric] Let_def split: if_splits)
  qed
  have "toLowerCase a = toLowerCase b" if "(x, a) \<in> set es" "(y, b) \<in> set es" for x y a b
  proof (cases "x = y")
    case True
    with that d have "a = b" by (blast dest: eq_key_imp_eq_value)
    then show ?thesis by simp
  next
    case False
    with k [OF that(1)] k [OF that(2)]
    have "x = js ''reference'' \<and> y = js ''trxref'' \<or> x = js ''trxref'' \<and> y = js ''reference''" by blast
    then show ?thesis using same [of a b] same [of b a] that by (elim disjE conjE) simp_all
  qed
  moreover have "set (map fst es) \<subseteq> {js ''reference'', js ''trxref''}" using k by fastforce
  ultimately show ?thesis using nonempty d v unfolding payment_entries_def es_def [symmetric] by blast
qed

lemma gate_run_reads:
  "gate_run g \<Longrightarrow> ig_reads g = of_bool (ig_pending g \<or> ig_consumed g) \<and> \<not> (ig_pending g \<and> ig_consumed g)"
  by (induction rule: gate_run.induct)
    (auto simp: createInitialUrlGate_def gate_take_def gate_settle_def split: if_splits)

lemma safeNotificationUrl_Some:
  assumes "safeNotificationUrl h v = Some u"
  defines "d \<equiv> drop (length scheme) u"
  shows "u = scheme @ d" and "length u \<le> 2048" and "\<forall>c\<in>set u. \<not> is_control c \<and> \<not> is_space c"
    and "35 \<notin> set d" and "isAllowedRoute (link_route d)"
    and "63 \<in> set d \<Longrightarrow> link_route d = js ''giving/complete''
      \<and> hasSafePaymentQuery h (tl (dropWhile (\<lambda>c. c \<noteq> 63) d))"
proof -
  have u: "u = trim (the_str v)"
    using assms(1) by (auto simp: safeNotificationUrl_def Let_def split: if_splits)
  have all: "length u \<le> MAX_DEEP_LINK_LENGTH" "\<not> list_ex (\<lambda>c. is_control c \<or> is_space c) u"
    "starts_with scheme u" "35 \<notin> set d" "isAllowedRoute (link_route d)"
    "\<not> (63 \<in> set d \<and> (link_route d \<noteq> js ''giving/complete''
       \<or> \<not> hasSafePaymentQuery h (tl (dropWhile (\<lambda>c. c \<noteq> 63) d))))"
    using assms(1) unfolding d_def u safeNotificationUrl_def Let_def
    by (simp_all split: if_splits)
  then show "u = scheme @ d" "length u \<le> 2048" "\<forall>c\<in>set u. \<not> is_control c \<and> \<not> is_space c"
    "35 \<notin> set d" "isAllowedRoute (link_route d)"
    "63 \<in> set d \<Longrightarrow> link_route d = js ''giving/complete''
      \<and> hasSafePaymentQuery h (tl (dropWhile (\<lambda>c. c \<noteq> 63) d))"
    by (auto simp: d_def MAX_DEEP_LINK_LENGTH_def list_ex_iff elim: starts_withE)
qed

lemma safeNotificationUrl_ok:
  assumes "safeNotificationUrl h v = Some u"
  shows "destination_ok h u"
proof -
  define d where "d = drop (length scheme) u"
  note some = safeNotificationUrl_Some [OF assms, folded d_def]
  have q: "js ''?'' = [63]" "js ''#'' = [35]" by (simp_all add: js_def)
  have query: "\<exists>path query. d = path @ js ''?'' @ query \<and> strip_slashes path = js ''giving/complete''
      \<and> payment_entries (searchParams h query)" if "63 \<in> set d"
  proof -
    let ?rest = "dropWhile (\<lambda>c. c \<noteq> 63) d"
    have "?rest \<noteq> []" using that by simp
    moreover from this have "hd ?rest = 63" using hd_dropWhile [of "\<lambda>c. c \<noteq> 63" d] by blast
    ultimately have "d = takeWhile (\<lambda>c. c \<noteq> 63) d @ js ''?'' @ tl ?rest"
      by (metis append_Cons append_Nil list.collapse q(1) takeWhile_dropWhile_id)
    moreover have "strip_slashes (takeWhile (\<lambda>c. c \<noteq> 63) d) = js ''giving/complete''"
        "payment_entries (searchParams h (tl ?rest))"
      using some(6) [OF that] hasSafePaymentQuery_ok by (auto simp: link_route_def)
    ultimately show ?thesis by blast
  qed
  have "member_path (strip_slashes d)" if "63 \<notin> set d"
  proof -
    have "takeWhile (\<lambda>c. c \<noteq> 63) d = d" using that by (auto simp: takeWhile_eq_all_conv)
    then show ?thesis using isAllowedRoute_member [OF some(5)] by (simp add: link_route_def del: takeWhile_eq_all_conv)
  qed
  with query some(1-4) show ?thesis
    unfolding destination_ok_def by (intro exI [of _ d]) (simp add: q scheme_def)
qed

text \<open>Every link kept or handed over passed the check.\<close>

definition links_checked :: "host \<Rightarrow> link_state \<Rightarrow> bool" where
  "links_checked h s \<longleftrightarrow> (\<forall>u. u \<in> set (lk_opened s) \<or> lk_deferred s = Some u \<longrightarrow> safeNotificationUrl h (JStr u) = Some u)"

lemma checked_again: "safeNotificationUrl h v = Some u \<Longrightarrow> safeNotificationUrl h (JStr u) = Some u"
  using safeNotificationUrl_iff by blast

lemma resolved_checked:
  "resolveInitialMemberUrl h a b = Some u \<Longrightarrow> safeNotificationUrl h (JStr u) = Some u"
  by (auto simp: resolveInitialMemberUrl_def Let_def split: sum.splits option.splits dest: checked_again)

lemma getInitialURL_checked:
  assumes "\<And>u. st = Some u \<Longrightarrow> safeNotificationUrl h (JStr u) = Some u"
  shows "fst (getInitialURL h a b st) = Some u \<Longrightarrow> safeNotificationUrl h (JStr u) = Some u"
    and "snd (getInitialURL h a b st) = None"
  using assms by (auto simp: getInitialURL_def consumeDeferredUrl_def split: option.splits if_splits dest: resolved_checked)

lemma rememberDeferredUrl_checked:
  "snd (rememberDeferredUrl h v st) = Some u \<Longrightarrow> st = Some u \<or> safeNotificationUrl h (JStr u) = Some u"
  by (auto simp: rememberDeferredUrl_def split: option.splits dest: checked_again)

lemma link_open_checked:
  "links_checked h s \<Longrightarrow> (\<And>u. url = Some u \<Longrightarrow> safeNotificationUrl h (JStr u) = Some u) \<Longrightarrow> links_checked h (link_open url s)"
  by (auto simp: links_checked_def link_open_def split: option.split)

lemma link_step_checked:
  assumes "link_next h l s = Some t" and "links_checked h s"
  shows "links_checked h t"
proof (cases l)
  case (FirstLinkAsked a b)
  then have t: "t = link_open (fst (getInitialURL h a b (lk_deferred s))) (s\<lparr>lk_deferred := None\<rparr>)"
    using assms getInitialURL_checked(2) [of "lk_deferred s" h a b]
    by (auto simp: links_checked_def split_beta split: if_splits)
  show ?thesis
    unfolding t using assms(2) getInitialURL_checked(1) [of "lk_deferred s" h a b]
    by (intro link_open_checked) (auto simp: links_checked_def)
next
  case (LinkReceived v)
  then show ?thesis using assms by (auto intro!: link_open_checked dest: checked_again split: if_splits)
next
  case (NotificationReceived v)
  then show ?thesis
    using assms by (auto simp: notificationUrlFromData_def intro!: link_open_checked dest: checked_again split: if_splits)
qed (use assms in \<open>auto simp: links_checked_def dest!: rememberDeferredUrl_checked split: if_splits\<close>)

interpretation links: step_invariant "link_next h" "links_checked h" for h
  by unfold_locales (rule link_step_checked)

section \<open>Properties\<close>

text \<open>C37: a notification or a link of the operating system opens only a known screen. In every run, however links
  arrive and members sign in and out, a link that is handed to Navigation starts with the app's scheme, is bounded and
  has no white space, control character or fragment; without a query its path is that of a screen of the linking
  options, with an identifier of at most 128 letters, digits, \<open>-\<close> and \<open>_\<close> after percent-decoding where the screen has a
  parameter; with a query it is the return from a payment with the references \<open>reference\<close> and \<open>trxref\<close>, each at most
  once, well formed and equal up to case; and it passes the check again unchanged.\<close>

theorem destination_is_known_screen:
  assumes "link_run h (link_init signedIn) ls s" and "u \<in> set (lk_opened s)"
  shows "destination_ok h u \<and> safeNotificationUrl h (JStr u) = Some u"
proof -
  have "links_checked h s"
    using assms(1) by (rule links.run_kept) (simp add: links_checked_def link_init_def)
  then have "safeNotificationUrl h (JStr u) = Some u" using assms(2) by (simp add: links_checked_def)
  then show ?thesis using safeNotificationUrl_ok by blast
qed

section \<open>Witnesses\<close>

definition bare_host :: host where
  "bare_host = \<lparr>dateParse = (\<lambda>_. None), urlParse = (\<lambda>_. None), searchParams = (\<lambda>_. [])\<rparr>"

text \<open>A payment returns while the member is signed out; an event and a foreign link arrive after the sign-in.\<close>

abbreviation paid_reference :: jsstring where
  "paid_reference \<equiv> js ''alt_abcdefghijklmnopqrstuvwxyz234567''"

definition paid_host :: host where
  "paid_host = bare_host\<lparr>searchParams := (\<lambda>q. if q = js ''trxref='' @ paid_reference then [(js ''trxref'', paid_reference)] else [])\<rparr>"

abbreviation paid_link :: jsstring where
  "paid_link \<equiv> js ''altaros://giving/complete?trxref='' @ paid_reference"

definition links_arrive :: "link_label list" where
  "links_arrive = [LinkNoticed (JStr paid_link), MemberSignedIn, FirstLinkAsked (Inr JNull) (Inr JNull),
     LinkReceived (JStr (js '' altaros://events/ev%5F1 '')), LinkReceived (JStr (js ''https://events/ev1'')),
     LinkReceived (JStr (js ''altaros://events/ev%2F1'')), LinkReceived (JStr (js ''altaros://giving/complete?trxref=alt_1''))]"

lemma links_arrive_run:
  "map_option lk_opened (run_steps (link_next paid_host) links_arrive (link_init False))
     = Some [paid_link, js ''altaros://events/ev%5F1'']"
  by code_simp

theorem destination_is_known_screen_witness:
  "\<exists>s. link_run paid_host (link_init False) links_arrive s
     \<and> lk_opened s = [paid_link, js ''altaros://events/ev%5F1''] \<and> destination_ok paid_host paid_link
     \<and> destination_ok paid_host (js ''altaros://events/ev%5F1'')"
proof -
  obtain s where run: "link_run paid_host (link_init False) links_arrive s"
    and s: "lk_opened s = [paid_link, js ''altaros://events/ev%5F1'']"
    using links_arrive_run by (auto simp: step_run_iff)
  have "paid_link \<in> set (lk_opened s)" "js ''altaros://events/ev%5F1'' \<in> set (lk_opened s)" using s by simp_all
  from this [THEN destination_is_known_screen [OF run]] run s show ?thesis by blast
qed

text \<open>The launch link is read at most once per process. However the calls of \<open>take\<close> and the
  end of the read interleave, one read is started at most, and after it ended every call answers
  null, so a link opened before a logout is not replayed into the next account.\<close>

theorem launch_link_read_once:
  assumes "gate_run g"
  shows "ig_reads g \<le> 1 \<and> (ig_reads g = 1 \<and> \<not> ig_pending g \<longleftrightarrow> fst (gate_take g) = AnswerNull)"
  using gate_run_reads [OF assms] by (cases g) (auto simp: gate_take_def)

theorem launch_link_read_once_witness:
  "\<exists>g. gate_run g \<and> ig_reads g = 1 \<and> fst (gate_take g) = AnswerNull"
proof -
  let ?g = "gate_settle (snd (gate_take createInitialUrlGate))"
  have "gate_run (snd (gate_take createInitialUrlGate))"
    by (rule gate_run.intros(2) [OF gate_run.intros(1)]) (rule prod.collapse [symmetric])
  then have run: "gate_run ?g"
    by (rule gate_run.intros(3)) (simp add: gate_take_def createInitialUrlGate_def)
  have "ig_reads ?g = 1 \<and> \<not> ig_pending ?g"
    by (simp add: gate_take_def gate_settle_def createInitialUrlGate_def)
  then show ?thesis using run launch_link_read_once [OF run] by blast
qed

end
