(* ===== verification/Notifications.thy ===== *)
theory Notifications
  imports Linking
begin

text \<open>
  The member's notification inbox: \<open>apps/mobile/src/services/notification.service.ts\<close> and
  \<open>notification-action.ts\<close>. Every page is bound to the church and the recipient it was asked
  for; acknowledgements of mutations are checked against what was sent; a push token leaves the
  device only while the session that asked for it may still register it.
\<close>

section \<open>Dates\<close>

text \<open>\<open>Date.prototype.toISOString\<close> for a finite time value (milliseconds).\<close>

definition pad_digits :: "nat \<Rightarrow> nat \<Rightarrow> jsstring" where
  "pad_digits w n = map (\<lambda>i. 48 + (n div 10 ^ (w - 1 - i)) mod 10) [0..<w]"

definition civil_from_days :: "int \<Rightarrow> int \<times> nat \<times> nat" where
  "civil_from_days days =
     (let z = days + 719468;
          era = z div 146097;
          doe = z mod 146097;
          yoe = (doe - doe div 1460 + doe div 36524 - doe div 146096) div 365;
          doy = doe - (365 * yoe + yoe div 4 - yoe div 100);
          mp = (5 * doy + 2) div 153;
          d = doy - (153 * mp + 2) div 5 + 1;
          m = (if mp < 10 then mp + 3 else mp - 9)
      in (yoe + era * 400 + (if m \<le> 2 then 1 else 0), nat m, nat d))"

definition toISOString :: "int \<Rightarrow> jsstring" where
  "toISOString t =
     (let (y, m, d) = civil_from_days (t div 86400000); ms = nat (t mod 86400000);
          year = (if 0 \<le> y \<and> y \<le> 9999 then pad_digits 4 (nat y)
            else (if y < 0 then 45 else 43) # pad_digits 6 (nat \<bar>y\<bar>))
      in year @ 45 # pad_digits 2 m @ 45 # pad_digits 2 d @ 84 # pad_digits 2 (ms div 3600000)
         @ 58 # pad_digits 2 (ms div 60000 mod 60) @ 58 # pad_digits 2 (ms div 1000 mod 60)
         @ 46 # pad_digits 3 (ms mod 1000) @ [90])"

definition validDateValue :: "host \<Rightarrow> jsval \<Rightarrow> bool" where
  "validDateValue h v =
     (case v of
        JStr s \<Rightarrow> length s \<le> 64 \<and> dateParse h s \<noteq> None
      | JDate d \<Rightarrow> d \<noteq> None
      | _ \<Rightarrow> False)"

definition dateString :: "jsval \<Rightarrow> jsval" where
  "dateString v =
     (if \<not> truthy v then JUndef
      else case v of JDate (Some t) \<Rightarrow> JStr (toISOString t) | _ \<Rightarrow> v)"

section \<open>Push tokens\<close>

datatype platform = Ios | Android | WebPlatform

definition platform_text :: "platform \<Rightarrow> jsstring" where
  "platform_text p = (case p of Ios \<Rightarrow> js ''ios'' | Android \<Rightarrow> js ''android'' | WebPlatform \<Rightarrow> js ''web'')"

definition supportsNativePush :: "platform \<Rightarrow> bool" where
  "supportsNativePush p \<longleftrightarrow> p = Ios \<or> p = Android"

record push_token =
  pt_token :: jsstring
  pt_platform :: platform

definition normalizeNativePushToken :: "jsval \<Rightarrow> platform \<Rightarrow> js_error + push_token" where
  "normalizeNativePushToken v expected =
     (let e = throw ''This device returned an invalid push token.'' in
      if \<not> is_record v then Inl e
      else let token = (if is_string (get v ''data'') then trim (the_str (get v ''data'')) else []) in
        if (get v ''type'' = JStr (js ''ios'') \<or> get v ''type'' = JStr (js ''android''))
          \<and> get v ''type'' = JStr (platform_text expected)
          \<and> 32 \<le> length token \<and> length token \<le> 4096 \<and> \<not> list_ex is_control token
        then Inr \<lparr>pt_token = token, pt_platform = expected\<rparr> else Inl e)"

section \<open>Acknowledgements\<close>

definition optionalMutationPayload :: "jsval \<Rightarrow> js_error \<Rightarrow> js_error + jsval option" where
  "optionalMutationPayload v e =
     (if v = JUndef \<or> v = JNull \<or> v = JStr [] then Inr None
      else if \<not> is_record v then Inl e
      else if has_own v ''success'' \<and> get v ''success'' \<noteq> JBool True then Inl e
      else if \<not> has_own v ''data'' then Inr (Some v)
      else if get v ''success'' \<noteq> JBool True then Inl e
      else if nullish (get v ''data'') then Inr None
      else if \<not> is_record (get v ''data'') then Inl e
      else Inr (Some (get v ''data'')))"

definition validateNotificationReadAcknowledgement :: "host \<Rightarrow> jsval \<Rightarrow> jsstring \<Rightarrow> js_error + unit" where
  "validateNotificationReadAcknowledgement h v expectedId =
     (let e = throw ''The server did not confirm this notification was read.'' in
      and_then (optionalMutationPayload v e) (\<lambda>payload.
        case payload of
          None \<Rightarrow> Inr ()
        | Some p \<Rightarrow>
            if (has_own p ''id'' \<and> get p ''id'' \<noteq> JStr expectedId)
              \<or> (has_own p ''notificationId'' \<and> get p ''notificationId'' \<noteq> JStr expectedId)
              \<or> (has_own p ''status'' \<and> get p ''status'' \<noteq> JStr (js ''READ''))
              \<or> (has_own p ''readAt'' \<and> \<not> validDateValue h (get p ''readAt''))
            then Inl e else Inr ()))"

definition validateDeviceRegistrationAcknowledgement :: "jsval \<Rightarrow> push_token \<Rightarrow> js_error + unit" where
  "validateDeviceRegistrationAcknowledgement v expected =
     (let e = throw ''The server did not confirm push notification setup.'' in
      and_then (optionalMutationPayload v e) (\<lambda>payload.
        case payload of
          None \<Rightarrow> Inr ()
        | Some p \<Rightarrow>
            if (has_own p ''token'' \<and> get p ''token'' \<noteq> JStr (pt_token expected))
              \<or> (has_own p ''platform'' \<and> get p ''platform'' \<noteq> JStr (platform_text (pt_platform expected)))
              \<or> (has_own p ''registered'' \<and> get p ''registered'' \<noteq> JBool True)
            then Inl e else Inr ()))"

text \<open>\<open>readAt\<close> of a list entry, absent or present.\<close>

definition rollbackNotificationReadAt ::
    "jsval option \<Rightarrow> jsval \<Rightarrow> jsval option \<Rightarrow> jsval option" where
  "rollbackNotificationReadAt current optimistic previous =
     (if current = Some optimistic then previous else current)"

section \<open>Notifications\<close>

record MemberNotification =
  mn_id :: jsstring
  mn_title :: jsstring
  mn_body :: jsstring
  mn_createdAt :: jsstring
  mn_readAt :: "jsval option"
  mn_deepLink :: "jsstring option"

definition NOTIFICATION_STATUSES :: "jsstring list" where
  "NOTIFICATION_STATUSES = map js [''PENDING'', ''SENT'', ''FAILED'', ''READ'']"

definition NOTIFICATION_CHANNELS :: "jsstring list" where
  "NOTIFICATION_CHANNELS = map js [''PUSH'', ''SMS'', ''EMAIL'']"

definition NOTIFICATION_TYPES :: "jsstring list" where
  "NOTIFICATION_TYPES = map js [''EVENT_REMINDER'', ''GIVING_REMINDER'', ''EMERGENCY_ALERT'',
     ''WELCOME'', ''BIRTHDAY'', ''FOLLOW_UP'', ''ANNOUNCEMENT'', ''CUSTOM'']"

definition one_of :: "jsstring list \<Rightarrow> jsval \<Rightarrow> bool" where
  "one_of all v \<longleftrightarrow> is_string v \<and> the_str v \<in> set all"

text \<open>The tenant part: with an \<open>ownership\<close> argument the wire fields are required.\<close>

definition ownedNotification :: "jsval \<Rightarrow> (jsstring \<times> jsstring) option \<Rightarrow> bool" where
  "ownedNotification item ownership \<longleftrightarrow>
     (case ownership of
        None \<Rightarrow> True
      | Some (churchId, recipientId) \<Rightarrow>
          get item ''churchId'' = JStr churchId \<and> get item ''recipientId'' = JStr recipientId
          \<and> nonEmptyString (get item ''status'') \<and> nonEmptyString (get item ''channel'')
          \<and> nonEmptyString (get item ''type'') \<and> get item ''metadata'' \<noteq> JUndef)"

definition validNotification :: "host \<Rightarrow> jsval \<Rightarrow> (jsstring \<times> jsstring) option \<Rightarrow> bool" where
  "validNotification h item ownership \<longleftrightarrow>
     valid_id (get item ''id'')
     \<and> required_text (get item ''title'') 200 False
     \<and> required_text (get item ''body'') 4096 True
     \<and> validDateValue h (get item ''createdAt'')
     \<and> optional (validDateValue h) (get item ''readAt'')
     \<and> optional (validDateValue h) (get item ''sentAt'')
     \<and> optional (one_of NOTIFICATION_STATUSES) (get item ''status'')
     \<and> optional (one_of NOTIFICATION_CHANNELS) (get item ''channel'')
     \<and> optional (one_of NOTIFICATION_TYPES) (get item ''type'')
     \<and> optional is_record (get item ''metadata'')
     \<and> optional is_string (get item ''deepLink'')
     \<and> ownedNotification item ownership"

definition notification_readAt :: "jsval \<Rightarrow> jsval" where
  "notification_readAt item =
     coalesce (dateString (get item ''readAt''))
       (if get item ''status'' = JStr (js ''READ'')
        then coalesce (dateString (get item ''sentAt'')) (get item ''createdAt'') else JUndef)"

definition notification_link :: "host \<Rightarrow> jsval \<Rightarrow> jsstring option" where
  "notification_link h item =
     (let metadataLink = coalesce (get (get item ''metadata'') ''deepLink'') (get (get item ''metadata'') ''url'')
      in safeNotificationUrl h (if is_string metadataLink then metadataLink else get item ''deepLink''))"

definition normalizeNotification ::
    "host \<Rightarrow> (jsstring \<times> jsstring) option \<Rightarrow> jsval \<Rightarrow> js_error + MemberNotification" where
  "normalizeNotification h ownership item =
     (if \<not> is_record item \<or> \<not> validNotification h item ownership
      then Inl (throw ''The server returned an invalid notification.'')
      else Inr \<lparr>mn_id = the_str (get item ''id''), mn_title = the_str (get item ''title''),
            mn_body = the_str (get item ''body''),
            mn_createdAt = the_str (dateString (get item ''createdAt'')),
            mn_readAt = (let r = notification_readAt item in if truthy r then Some r else None),
            mn_deepLink = notification_link h item\<rparr>)"

section \<open>The operations\<close>

abbreviation invalid_inbox :: js_error where
  "invalid_inbox \<equiv> throw ''The server returned an invalid notification inbox.''"

definition MAX_INBOX_ITEMS :: nat where
  "MAX_INBOX_ITEMS = 200"

definition notification_listPage ::
    "host \<Rightarrow> api \<Rightarrow> jsstring \<Rightarrow> jsstring \<Rightarrow> jsval \<Rightarrow> jsval \<Rightarrow> js_error + MemberNotification list \<times> int" where
  "notification_listPage h api churchId recipientId page limit =
     (if \<not> id_ok churchId \<or> \<not> id_ok recipientId
      then Inl (throw ''The member identity is incomplete.'')
      else if \<not> isSafeInteger page \<or> the_int page < 1
        \<or> \<not> isSafeInteger limit \<or> the_int limit < 1 \<or> 100 < the_int limit
      then Inl (throw ''The notification page is not valid.'')
      else and_then (api_get api (js ''/notifications'')
          [(''page'', page), (''limit'', limit)]) (\<lambda>data.
        if \<not> is_record data \<or> get data ''success'' \<noteq> JBool True then Inl invalid_inbox
        else let payload = get data ''data'' in
          if \<not> is_record payload then Inl invalid_inbox
          else case get payload ''data'' of
              JArr vs \<Rightarrow>
                if the_int limit < int (length vs) \<or> \<not> isSafeInteger (get payload ''total'')
                  \<or> the_int (get payload ''total'') < int (length vs)
                then Inl invalid_inbox
                else and_then (mapM (normalizeNotification h (Some (churchId, recipientId))) vs) (\<lambda>items.
                  if \<not> distinct (map mn_id items)
                  then Inl (throw ''The server returned duplicate notifications.'')
                  else Inr (items, the_int (get payload ''total'')))
            | _ \<Rightarrow> Inl invalid_inbox))"

definition notification_list :: "host \<Rightarrow> api \<Rightarrow> jsstring \<Rightarrow> jsstring \<Rightarrow> js_error + MemberNotification list" where
  "notification_list h api churchId recipientId =
     (if \<not> id_ok churchId \<or> \<not> id_ok recipientId
      then Inl (throw ''The member identity is incomplete.'')
      else and_then (api_get api (js ''/notifications'') []) (\<lambda>data.
        let checked = (\<lambda>vs ownership.
          if MAX_INBOX_ITEMS < length vs then Inl (throw ''The server returned too many notifications.'')
          else and_then (mapM (normalizeNotification h ownership) vs) (\<lambda>items.
            if \<not> distinct (map mn_id items)
            then Inl (throw ''The server returned duplicate notifications.'') else Inr items))
        in case data of
            JArr vs \<Rightarrow> checked vs None
          | _ \<Rightarrow>
              if \<not> is_record data \<or> get data ''success'' \<noteq> JBool True then Inl invalid_inbox
              else (case get data ''data'' of
                  JArr vs \<Rightarrow> checked vs (Some (churchId, recipientId))
                | _ \<Rightarrow> Inl invalid_inbox)))"

definition markRead :: "host \<Rightarrow> api \<Rightarrow> jsstring \<Rightarrow> js_error + unit" where
  "markRead h api notificationId =
     (if \<not> id_ok notificationId then Inl (throw ''The notification reference is not valid.'')
      else and_then (api_put api (js ''/notifications/'' @ path_segment notificationId @ js ''/read'')) (\<lambda>data.
        validateNotificationReadAcknowledgement h data notificationId))"

definition push_json :: "push_token \<Rightarrow> jsval" where
  "push_json t = JObj [(''token'', JStr (pt_token t)), (''platform'', JStr (platform_text (pt_platform t)))]"

definition device_json :: "jsstring \<Rightarrow> platform \<Rightarrow> jsval" where
  "device_json token platform = JObj [(''type'', JStr (platform_text platform)), (''data'', JStr token)]"

definition registerDevice :: "api \<Rightarrow> jsstring \<Rightarrow> platform \<Rightarrow> js_error + unit" where
  "registerDevice api token platform =
     and_then (normalizeNativePushToken (device_json token platform) platform) (\<lambda>normalized.
     and_then (api_post api (js ''/notifications/devices'') (push_json normalized)) (\<lambda>data.
       validateDeviceRegistrationAcknowledgement data normalized))"

abbreviation session_changed :: js_error where
  "session_changed \<equiv> throw ''The member session changed before push setup completed.''"

text \<open>\<open>bound\<close> is the gateway for requests that carry the given access token; the answers of
  \<open>canRegister\<close> are taken from the list, in order. A list that ran out answers false.\<close>

definition next_answer :: "bool list \<Rightarrow> bool" where
  "next_answer cs = (case cs of [] \<Rightarrow> False | c # _ \<Rightarrow> c)"

definition registerDeviceForSession ::
    "(jsstring \<Rightarrow> api) \<Rightarrow> jsstring option \<Rightarrow> jsstring \<Rightarrow> platform \<Rightarrow> bool list \<Rightarrow> js_error + unit" where
  "registerDeviceForSession bound access token platform cs =
     and_then (normalizeNativePushToken (device_json token platform) platform) (\<lambda>normalized.
       case access of
         None \<Rightarrow> Inl session_changed
       | Some accessToken \<Rightarrow>
           if accessToken = [] \<or> \<not> next_answer cs then Inl session_changed
           else and_then (api_post (bound accessToken) (js ''/notifications/devices'') (push_json normalized))
             (\<lambda>data. validateDeviceRegistrationAcknowledgement data normalized))"

text \<open>\<open>granted\<close> is the permission the system reports, \<open>device\<close> the token it hands out.\<close>

definition syncPushRegistration ::
    "(jsstring \<Rightarrow> api) \<Rightarrow> jsstring option \<Rightarrow> platform \<Rightarrow> bool \<Rightarrow> jsval \<Rightarrow> bool list \<Rightarrow> js_error + bool" where
  "syncPushRegistration bound access platform granted device cs =
     (if \<not> supportsNativePush platform then Inr False
      else if \<not> next_answer cs then Inl session_changed
      else if \<not> granted then Inr False
      else if \<not> next_answer (drop 1 cs) \<or> \<not> next_answer (drop 2 cs) then Inl session_changed
      else and_then (normalizeNativePushToken device platform) (\<lambda>token.
        if \<not> next_answer (drop 3 cs) then Inl session_changed
        else and_then (registerDeviceForSession bound access (pt_token token) (pt_platform token) (drop 4 cs))
          (\<lambda>_. Inr True)))"

definition registerRotatedDevice ::
    "(jsstring \<Rightarrow> api) \<Rightarrow> jsstring option \<Rightarrow> platform \<Rightarrow> jsval \<Rightarrow> bool list \<Rightarrow> js_error + bool" where
  "registerRotatedDevice bound access platform device cs =
     (if \<not> supportsNativePush platform then Inr False
      else if \<not> next_answer cs then Inl session_changed
      else and_then (normalizeNativePushToken device platform) (\<lambda>token.
        if \<not> next_answer (drop 1 cs) then Inl session_changed
        else and_then (registerDeviceForSession bound access (pt_token token) (pt_platform token) (drop 2 cs))
          (\<lambda>_. Inr True)))"

section \<open>Inbox actions\<close>

text \<open>\<open>notification-action.ts\<close>: the banner, ownership checks of a screen, and the pair of a read
  receipt and a navigation that run independently.\<close>

record banner_action =
  ba_label :: jsstring
  ba_hint :: jsstring
  ba_disabled :: bool

definition distinct_in_order :: "jsstring list \<Rightarrow> jsstring list" where
  "distinct_in_order xs = rev (remdups (rev xs))"

definition join_space :: "jsstring list \<Rightarrow> jsstring" where
  "join_space xs = (case xs of [] \<Rightarrow> [] | y # ys \<Rightarrow> y @ concat (map (\<lambda>z. 32 # z) ys))"

definition notificationBannerState ::
    "jsstring \<Rightarrow> jsstring \<Rightarrow> bool \<Rightarrow> bool \<Rightarrow> (jsstring \<times> banner_action option) option" where
  "notificationBannerState actionError loadError actionNeedsRefresh offline =
     (let found = filter (\<lambda>m. m \<noteq> []) [trim actionError, trim loadError] in
      if found = [] \<and> \<not> actionNeedsRefresh then None
      else
        let messages = (if found = [] then [js ''Notification read status needs to be refreshed.''] else found);
            refreshRequired = (trim loadError \<noteq> [] \<or> actionNeedsRefresh)
        in Some (join_space (distinct_in_order messages),
             if \<not> refreshRequired then None
             else if offline then Some \<lparr>ba_label = js ''Reconnect to refresh'',
               ba_hint = js ''Reconnect to refresh your notification inbox.'', ba_disabled = True\<rparr>
             else Some \<lparr>ba_label = js ''Refresh inbox'',
               ba_hint = js ''Loads the latest notifications and read status.'', ba_disabled = False\<rparr>))"

record inbox_owner =
  io_churchId :: "jsstring option"
  io_memberId :: "jsstring option"

definition notificationInboxBelongsToIdentity :: "inbox_owner option \<Rightarrow> inbox_owner \<Rightarrow> bool" where
  "notificationInboxBelongsToIdentity owner active =
     (case owner of
        None \<Rightarrow> False
      | Some w \<Rightarrow> io_churchId w \<noteq> None \<and> io_memberId w \<noteq> None
          \<and> io_churchId w = io_churchId active \<and> io_memberId w = io_memberId active)"

definition notificationMutationCompletionBelongsToIdentity ::
    "bool \<Rightarrow> inbox_owner \<Rightarrow> jsstring \<Rightarrow> jsstring \<Rightarrow> bool" where
  "notificationMutationCompletionBelongsToIdentity mounted active startedChurchId startedMemberId \<longleftrightarrow>
     mounted \<and> io_churchId active = Some startedChurchId \<and> io_memberId active = Some startedMemberId"

text \<open>An absent action resolves; a present one resolves or rejects.\<close>

definition started :: "(js_error + unit) option \<Rightarrow> js_error + unit" where
  "started action = (case action of None \<Rightarrow> Inr () | Some r \<Rightarrow> r)"

record action_result =
  ar_readFailed :: bool
  ar_readError :: "js_error option"
  ar_openFailed :: bool

definition runNotificationActions ::
    "(js_error + unit) option \<Rightarrow> (js_error + unit) option \<Rightarrow> action_result" where
  "runNotificationActions readAction openAction =
     \<lparr>ar_readFailed = isl (started readAction),
      ar_readError = (case started readAction of Inl e \<Rightarrow> Some e | Inr _ \<Rightarrow> None),
      ar_openFailed = isl (started openAction)\<rparr>"

definition notificationReadFailure :: "js_error \<Rightarrow> bool \<times> jsstring" where
  "notificationReadFailure e =
     (if isAmbiguousMutationFailure e
      then (True, js ''We could not confirm whether that notification was marked as read. Refresh your inbox to check its latest status.'')
      else (False, js ''That notification could not be marked as read. Try again.''))"

definition notificationActionAccessibility :: "bool \<Rightarrow> bool \<Rightarrow> bool \<Rightarrow> bool \<Rightarrow> bool \<times> bool \<times> jsstring" where
  "notificationActionAccessibility hasDestination isRead offline busy =
     (busy \<or> (\<not> hasDestination \<and> (offline \<or> isRead)), busy,
      if busy then (if hasDestination then js ''Opening the related screen''
        else js ''Marking this notification as read'')
      else if hasDestination then
        (if offline \<and> \<not> isRead
         then js ''Opens the related screen; reconnect later to mark this notification as read''
         else if isRead then js ''Opens the related screen''
         else js ''Marks as read and opens the related screen'')
      else if offline then js ''Reconnect to mark this notification as read''
      else js ''Marks this notification as read'')"

text \<open>A banner always has a text, and offers the refresh exactly when the inbox may be stale.\<close>

lemma banner_message:
  assumes "notificationBannerState a l needs offline = Some (m, act)"
  shows "m \<noteq> []" and "act \<noteq> None \<longleftrightarrow> trim l \<noteq> [] \<or> needs"
  using assms
  by (auto simp: notificationBannerState_def Let_def join_space_def distinct_in_order_def
      split: if_splits list.splits)

section \<open>Properties\<close>

definition notification_ok :: "host \<Rightarrow> MemberNotification \<Rightarrow> bool" where
  "notification_ok h n \<longleftrightarrow> id_ok (mn_id n) \<and> required_text (JStr (mn_title n)) 200 False
     \<and> required_text (JStr (mn_body n)) 4096 True
     \<and> (\<forall>u. mn_deepLink n = Some u \<longrightarrow> safeNotificationUrl h (JStr u) = Some u)"

lemma notification_link_ok: "notification_link h item = Some u \<Longrightarrow> safeNotificationUrl h (JStr u) = Some u"
  unfolding notification_link_def Let_def by (rule destination.canon_fixpoint)

lemma normalizeNotification_ok:
  "normalizeNotification h ownership item = Inr n \<Longrightarrow> notification_ok h n \<and> ownedNotification item ownership"
  by (auto simp: normalizeNotification_def validNotification_def notification_ok_def accepted
      notification_link_ok split: if_splits)

interpretation notification: record_normalizer "normalizeNotification h ownership" "notification_ok h"
  for h ownership
  by unfold_locales (simp add: normalizeNotification_ok)

text \<open>The inbox is the member's own. Every notification of a page comes from a wire entry that
  names this church and this recipient; the page is bounded by its limit and the announced
  total, its identifiers are distinct, its texts are bounded, and a link in it opens only a known
  screen.\<close>

theorem inbox_page_is_own:
  assumes "notification_listPage h api churchId recipientId page limit = Inr (items, announced)"
  shows "page_ok (notification_ok h) mn_id (the_int limit) items announced
     \<and> the_int limit \<le> 100
     \<and> (\<exists>wire. list_all2 (\<lambda>w n. normalizeNotification h (Some (churchId, recipientId)) w = Inr n
           \<and> get w ''churchId'' = JStr churchId \<and> get w ''recipientId'' = JStr recipientId) wire items)"
proof -
  obtain vs where m: "mapM (normalizeNotification h (Some (churchId, recipientId))) vs = Inr items"
    and d: "distinct (map mn_id items)"
    and len: "int (length vs) \<le> the_int limit" "int (length vs) \<le> announced" "the_int limit \<le> 100"
    using assms
    by (auto simp: notification_listPage_def Let_def res_simps split: if_splits jsval.splits)
  have "page_ok (notification_ok h) mn_id (the_int limit) items announced"
    using m d len(1,2) by (rule notification.page_okI)
  moreover have "list_all2 (\<lambda>w n. normalizeNotification h (Some (churchId, recipientId)) w = Inr n
           \<and> get w ''churchId'' = JStr churchId \<and> get w ''recipientId'' = JStr recipientId) vs items"
    using m normalizeNotification_ok
    by (fastforce simp: mapM_Inr ownedNotification_def elim: list_all2_mono)
  ultimately show ?thesis using len(3) by blast
qed

text \<open>The record of an item, in the very answer of the gateway the page was read from.\<close>

lemma notification_page_record:
  assumes "notification_listPage h api churchId recipientId page limit = Inr (items, announced)" and "item \<in> set items"
  shows "\<exists>data wire w. api_get api (js ''/notifications'') [(''page'', page), (''limit'', limit)] = Inr data
     \<and> get (get data ''data'') ''data'' = JArr wire \<and> w \<in> set wire
     \<and> normalizeNotification h (Some (churchId, recipientId)) w = Inr item
     \<and> get w ''churchId'' = JStr churchId \<and> get w ''recipientId'' = JStr recipientId"
proof -
  obtain data wire where data: "api_get api (js ''/notifications'') [(''page'', page), (''limit'', limit)] = Inr data"
      "get (get data ''data'') ''data'' = JArr wire"
    and "mapM (normalizeNotification h (Some (churchId, recipientId))) wire = Inr items"
    using assms(1) by (auto simp: notification_listPage_def Let_def res_simps split: if_splits jsval.splits)
  then obtain w where "w \<in> set wire" "normalizeNotification h (Some (churchId, recipientId)) w = Inr item"
    using assms(2) by (fastforce simp: mapM_Inr list_all2_conv_all_nth in_set_conv_nth)
  moreover from this normalizeNotification_ok have "ownedNotification w (Some (churchId, recipientId))" by blast
  ultimately show ?thesis using data by (auto simp: ownedNotification_def)
qed

text \<open>A push token is never sent for a session that may no longer register it. The result of
  the synchronisation depends on the gateway only when the platform has native push, the system
  granted the permission, and \<open>canRegister\<close> answered true at all five points, the last one after
  the access token was read.\<close>

theorem push_sent_only_when_allowed:
  assumes "\<not> (supportsNativePush platform \<and> granted \<and> 5 \<le> length cs \<and> list_all (\<lambda>c. c) (take 5 cs))"
  shows "syncPushRegistration bound access platform granted device cs
    = syncPushRegistration bound' access platform granted device cs"
proof -
  have answer: "next_answer (drop n cs) \<longleftrightarrow> n < length cs \<and> cs ! n" for n
    by (simp add: next_answer_def Cons_nth_drop_Suc [symmetric] split: list.split)
      (metis drop_eq_Nil hd_drop_conv_nth linorder_not_less list.distinct(1) list.sel(1))
  have first: "next_answer cs \<longleftrightarrow> 0 < length cs \<and> cs ! 0" using answer [of 0] by simp
  have "5 \<le> length cs \<and> list_all (\<lambda>c. c) (take 5 cs)"
    if "next_answer cs" "next_answer (drop 1 cs)" "next_answer (drop 2 cs)" "next_answer (drop 3 cs)"
      "next_answer (drop 4 cs)"
  proof -
    have "5 \<le> length cs" "cs ! 0" "cs ! 1" "cs ! 2" "cs ! 3" "cs ! 4"
      using that first answer by auto
    moreover from this have "take 5 cs = [cs ! 0, cs ! 1, cs ! 2, cs ! 3, cs ! 4]"
      by (intro nth_equalityI) (auto simp: nth_Cons numeral_eq_Suc less_Suc_eq)
    ultimately show ?thesis by simp
  qed
  then consider "\<not> supportsNativePush platform" | "\<not> granted"
    | "\<not> next_answer cs" | "\<not> next_answer (drop 1 cs)" | "\<not> next_answer (drop 2 cs)"
    | "\<not> next_answer (drop 3 cs)" | "\<not> next_answer (drop 4 cs)"
    using assms by blast
  then show ?thesis
    by cases (auto simp: syncPushRegistration_def registerDeviceForSession_def and_then_def
        split: sum.splits option.splits)
qed

section \<open>Witnesses\<close>

definition sample_notification :: jsval where
  "sample_notification = JObj [(''id'', JStr (js ''n1'')), (''churchId'', JStr (js ''c1'')),
     (''recipientId'', JStr (js ''m1'')), (''title'', JStr (js ''Service'')), (''body'', JStr (js ''Sunday'')),
     (''createdAt'', JStr (js ''2026-01-04'')), (''status'', JStr (js ''SENT'')),
     (''channel'', JStr (js ''PUSH'')), (''type'', JStr (js ''ANNOUNCEMENT'')),
     (''metadata'', JObj [(''deepLink'', JStr (js ''altaros://events''))])]"

definition dated_host :: host where
  "dated_host = bare_host\<lparr>dateParse := (\<lambda>_. Some 0)\<rparr>"

definition sample_inbox :: api where
  "sample_inbox _ = Inr (envelope (JObj [(''data'', JArr [sample_notification]), (''total'', jint 3)]))"

definition sample_item :: MemberNotification where
  "sample_item = \<lparr>mn_id = js ''n1'', mn_title = js ''Service'', mn_body = js ''Sunday'',
     mn_createdAt = js ''2026-01-04'', mn_readAt = None, mn_deepLink = Some (js ''altaros://events'')\<rparr>"

theorem inbox_page_is_own_witness:
  "notification_listPage dated_host sample_inbox (js ''c1'') (js ''m1'') (jint 1) (jint 50)
     = Inr ([sample_item], 3)
   \<and> notification_ok dated_host sample_item"
proof -
  have run: "notification_listPage dated_host sample_inbox (js ''c1'') (js ''m1'') (jint 1) (jint 50)
     = Inr ([sample_item], 3)"
    by code_simp
  show ?thesis using run inbox_page_is_own [OF run] by (simp add: page_ok_def)
qed

theorem push_sent_only_when_allowed_witness:
  "syncPushRegistration (\<lambda>_ _. Inr JUndef) (Some (js ''a1'')) Ios True
     (device_json (js ''0123456789012345678901234567890123456789'') Ios) [True, True, True, True, False]
   = syncPushRegistration (\<lambda>_ _. Inl ThrownValue) (Some (js ''a1'')) Ios True
     (device_json (js ''0123456789012345678901234567890123456789'') Ios) [True, True, True, True, False]
   \<and> syncPushRegistration (\<lambda>_ _. Inr JUndef) (Some (js ''a1'')) Ios True
     (device_json (js ''0123456789012345678901234567890123456789'') Ios) [True, True, True, True, True]
     = Inr True"
proof
  show "syncPushRegistration (\<lambda>_ _. Inr JUndef) (Some (js ''a1'')) Ios True
     (device_json (js ''0123456789012345678901234567890123456789'') Ios) [True, True, True, True, False]
   = syncPushRegistration (\<lambda>_ _. Inl ThrownValue) (Some (js ''a1'')) Ios True
     (device_json (js ''0123456789012345678901234567890123456789'') Ios) [True, True, True, True, False]"
    by (rule push_sent_only_when_allowed) simp
  show "syncPushRegistration (\<lambda>_ _. Inr JUndef) (Some (js ''a1'')) Ios True
     (device_json (js ''0123456789012345678901234567890123456789'') Ios) [True, True, True, True, True]
     = Inr True"
    by code_simp
qed

end
