(* ===== verification/Events.thy ===== *)
theory Events
  imports ApiBoundary
begin

text \<open>
  Church events and attendance: \<open>apps/mobile/src/services/event.service.ts\<close>. The current time
  (\<open>Date.now()\<close>) is the argument \<open>now\<close>.
\<close>

section \<open>Wire values\<close>

record ChurchEvent =
  ev_id :: jsstring
  ev_churchId :: jsstring
  ev_title :: jsstring
  ev_description :: jsstring
  ev_startDate :: jsstring
  ev_endDate :: jsstring
  ev_location :: jsstring
  ev_isRsvped :: bool
  ev_rsvpStatusKnown :: bool
  ev_attendeeCount :: int
  ev_maxAttendees :: "int option"

datatype rsvp_status = Going | Maybe | NotGoing

fun rsvp_text :: "rsvp_status \<Rightarrow> jsstring" where
  "rsvp_text Going = js ''GOING''"
| "rsvp_text Maybe = js ''MAYBE''"
| "rsvp_text NotGoing = js ''NOT_GOING''"

definition RSVP_STATUSES :: "rsvp_status list" where
  "RSVP_STATUSES = [Going, Maybe, NotGoing]"

definition MAX_EVENT_PAGE_SIZE :: int where
  "MAX_EVENT_PAGE_SIZE = 50"

definition DEFAULT_EVENT_PAGE_SIZE :: int where
  "DEFAULT_EVENT_PAGE_SIZE = 20"

record event_params =
  ep_page :: jsval
  ep_limit :: jsval
  ep_upcoming :: jsval
  ep_sortOrder :: jsval

definition requestedPageSize :: "event_params \<Rightarrow> js_error + int" where
  "requestedPageSize p =
     (if ep_page p \<noteq> JUndef \<and> (\<not> isSafeInteger (ep_page p) \<or> the_int (ep_page p) < 1)
      then Inl (throw ''The requested event page is invalid.'')
      else if ep_limit p \<noteq> JUndef \<and> (\<not> isSafeInteger (ep_limit p) \<or> the_int (ep_limit p) < 1
        \<or> MAX_EVENT_PAGE_SIZE < the_int (ep_limit p))
      then Inl (throw ''The requested event page size is invalid.'')
      else if \<not> optional is_boolean (ep_upcoming p)
      then Inl (throw ''The requested event filter is invalid.'')
      else if \<not> optional (\<lambda>v. v = JStr (js ''asc'') \<or> v = JStr (js ''desc'')) (ep_sortOrder p)
      then Inl (throw ''The requested event sort order is invalid.'')
      else Inr (if ep_limit p = JUndef then DEFAULT_EVENT_PAGE_SIZE else the_int (ep_limit p)))"

definition unwrapEventData :: "jsval \<Rightarrow> js_error \<Rightarrow> js_error + jsval" where
  "unwrapEventData v e =
     and_then (unwrapApiData v e) (\<lambda>canonical.
       if canonical \<noteq> v then Inr canonical
       else if is_record v \<and> has_own v ''data'' then Inr (get v ''data'')
       else Inr v)"

abbreviation unannounced :: jsstring where
  "unannounced \<equiv> js ''Location to be announced''"

definition validEvent :: "host \<Rightarrow> jsval \<Rightarrow> jsstring option \<Rightarrow> bool" where
  "validEvent h v expectedChurchId \<longleftrightarrow>
     valid_id (get v ''id'') \<and> valid_id (get v ''churchId'')
     \<and> (expectedChurchId = None \<or> expectedChurchId = Some []
        \<or> get v ''churchId'' = JStr (the expectedChurchId))
     \<and> required_text (get v ''title'') 200 False
     \<and> optional (\<lambda>w. bounded_text w 5000 True) (get v ''description'')
     \<and> optional (\<lambda>w. bounded_text w 300 False) (get v ''location'')
     \<and> valid_date h (get v ''startDate'') \<and> valid_date h (get v ''endDate'')
     \<and> the (dateParse h (the_str (get v ''startDate''))) \<le> the (dateParse h (the_str (get v ''endDate'')))
     \<and> safe_count (coalesce (get v ''rsvpCount'') (jint 0))
     \<and> optional (\<lambda>w. isSafeInteger w \<and> 0 < the_int w) (get v ''capacity'')"

definition normalizeEvent :: "host \<Rightarrow> jsstring option \<Rightarrow> jsval \<Rightarrow> js_error + ChurchEvent" where
  "normalizeEvent h expectedChurchId v =
     (if \<not> is_record v \<or> \<not> validEvent h v expectedChurchId
      then Inl (throw ''The server returned an invalid event.'')
      else
        let location = trim (the_str (get v ''location''))
        in Inr \<lparr>ev_id = the_str (get v ''id''), ev_churchId = the_str (get v ''churchId''),
             ev_title = the_str (get v ''title''), ev_description = the_str (get v ''description''),
             ev_startDate = the_str (get v ''startDate''), ev_endDate = the_str (get v ''endDate''),
             ev_location = (if location = [] then unannounced else location),
             ev_isRsvped = False, ev_rsvpStatusKnown = False,
             ev_attendeeCount = the_int (coalesce (get v ''rsvpCount'') (jint 0)),
             ev_maxAttendees = (if get v ''capacity'' = JUndef then None
               else Some (the_int (get v ''capacity'')))\<rparr>)"

record WireRsvp =
  rs_id :: jsstring
  rs_eventId :: jsstring
  rs_memberId :: jsstring
  rs_status :: rsvp_status

definition normalizeRsvp :: "jsval \<Rightarrow> jsstring \<Rightarrow> jsstring \<Rightarrow> rsvp_status option \<Rightarrow> js_error + WireRsvp" where
  "normalizeRsvp v eventId memberId expectedStatus =
     (let status = enum_of rsvp_text RSVP_STATUSES (get v ''status'') in
      if \<not> is_record v \<or> \<not> valid_id (get v ''id'') \<or> get v ''eventId'' \<noteq> JStr eventId
        \<or> get v ''memberId'' \<noteq> JStr memberId \<or> status = None
        \<or> (expectedStatus \<noteq> None \<and> status \<noteq> expectedStatus)
      then Inl (throw ''The server returned an invalid RSVP.'')
      else Inr \<lparr>rs_id = the_str (get v ''id''), rs_eventId = eventId, rs_memberId = memberId,
                rs_status = the status\<rparr>)"

section \<open>What a screen may offer\<close>

record availability =
  av_allowed :: bool
  av_label :: jsstring
  av_reason :: "jsstring option"

definition eventRsvpAvailability :: "host \<Rightarrow> ChurchEvent \<Rightarrow> int \<Rightarrow> availability" where
  "eventRsvpAvailability h e now =
     (if \<not> ev_rsvpStatusKnown e
      then \<lparr>av_allowed = False, av_label = js ''RSVP unavailable'',
            av_reason = Some (js ''Your attendance status could not be confirmed. Refresh before updating your RSVP.'')\<rparr>
      else if ev_isRsvped e then \<lparr>av_allowed = True, av_label = js ''Cancel RSVP'', av_reason = None\<rparr>
      else if (case dateParse h (ev_endDate e) of None \<Rightarrow> True | Some endTime \<Rightarrow> endTime \<le> now)
      then \<lparr>av_allowed = False, av_label = js ''Event ended'',
            av_reason = Some (js ''RSVP is closed because this event has ended.'')\<rparr>
      else if (case ev_maxAttendees e of None \<Rightarrow> False | Some m \<Rightarrow> m \<noteq> 0 \<and> m \<le> ev_attendeeCount e)
      then \<lparr>av_allowed = False, av_label = js ''Event full'',
            av_reason = Some (js ''This event has reached capacity.'')\<rparr>
      else \<lparr>av_allowed = True, av_label = js ''RSVP'', av_reason = None\<rparr>)"

record map_action =
  ma_url :: "jsstring option"
  ma_disabled :: bool
  ma_busy :: bool
  ma_label :: jsstring
  ma_hint :: "jsstring option"

text \<open>\<open>encodeURIComponent\<close> throws on a lone surrogate; the function does not catch it.\<close>

definition eventMapAction :: "jsstring \<Rightarrow> bool \<Rightarrow> bool \<Rightarrow> js_error + map_action" where
  "eventMapAction location offline busy =
     (let available = required_text (JStr location) 300 False \<and> trim location \<noteq> unannounced;
          canonicalLocation = (if available then trim location else [])
      in case encodeURIComponent canonicalLocation of
          None \<Rightarrow> Inl (URIError (js ''URI malformed''))
        | Some query \<Rightarrow>
            let url = (if available
                  then Some (js ''https://www.google.com/maps/search/?api=1&query='' @ query) else None)
            in Inr \<lparr>ma_url = url, ma_disabled = (url = None \<or> offline \<or> busy), ma_busy = busy,
                ma_label = (if url \<noteq> None then js ''Open '' @ canonicalLocation @ js '' in Google Maps''
                  else js ''Event location is not available''),
                ma_hint = (if url = None then Some (js ''Your church has not published a map location.'')
                  else if offline then Some (js ''Reconnect to open this location.'')
                  else if busy then Some (js ''Opening this location on your device.'')
                  else None)\<rparr>)"

section \<open>The operations\<close>

fun join_comma :: "jsstring list \<Rightarrow> jsstring" where
  "join_comma [] = []"
| "join_comma [x] = x"
| "join_comma (x # xs) = x @ 44 # join_comma xs"

abbreviation invalid_rsvps :: js_error where
  "invalid_rsvps \<equiv> throw ''The server returned invalid RSVP history.''"

definition rsvp_entry :: "jsstring list \<Rightarrow> jsstring \<Rightarrow> jsval \<Rightarrow> js_error + jsstring \<times> rsvp_status" where
  "rsvp_entry eventIds memberId v =
     (if \<not> is_record v then Inl invalid_rsvps
      else if \<not> nonEmptyString (get v ''eventId'') \<or> the_str (get v ''eventId'') \<notin> set eventIds
      then Inl invalid_rsvps
      else and_then (normalizeRsvp v (the_str (get v ''eventId'')) memberId None) (\<lambda>rsvp.
        Inr (rs_eventId rsvp, rs_status rsvp)))"

definition rsvpStatuses :: "api \<Rightarrow> jsstring list \<Rightarrow> jsstring \<Rightarrow> js_error + (jsstring \<times> rsvp_status) list" where
  "rsvpStatuses api eventIds memberId =
     (if eventIds = [] then Inr []
      else if \<not> id_ok memberId \<or> MAX_EVENT_PAGE_SIZE < int (length eventIds) \<or> \<not> list_all id_ok eventIds
      then Inl (throw ''The requested RSVP history is invalid.'')
      else and_then (api_get api (js ''/events/rsvps/me'') [(''eventIds'', JStr (join_comma eventIds))]) (\<lambda>data.
        and_then (unwrapEventData data invalid_rsvps) (\<lambda>history.
          case history of
            JArr vs \<Rightarrow>
              if length eventIds < length vs then Inl invalid_rsvps
              else and_then (mapM (rsvp_entry eventIds memberId) vs) (\<lambda>entries.
                if \<not> distinct (map fst entries) then Inl invalid_rsvps else Inr entries)
          | _ \<Rightarrow> Inl invalid_rsvps)))"

text \<open>\<open>statuses\<close> is null when the second request failed.\<close>

definition with_status :: "(jsstring \<times> rsvp_status) list option \<Rightarrow> ChurchEvent \<Rightarrow> ChurchEvent" where
  "with_status statuses e =
     e\<lparr>ev_isRsvped := (case statuses of None \<Rightarrow> False | Some m \<Rightarrow> map_of m (ev_id e) = Some Going),
       ev_rsvpStatusKnown := statuses \<noteq> None\<rparr>"

definition settled :: "js_error + 'a \<Rightarrow> 'a option" where
  "settled r = (case r of Inl _ \<Rightarrow> None | Inr x \<Rightarrow> Some x)"

definition event_time :: "host \<Rightarrow> jsstring \<Rightarrow> int" where
  "event_time h s = the (dateParse h s)"

definition upcoming_events :: "host \<Rightarrow> int \<Rightarrow> ChurchEvent list \<Rightarrow> ChurchEvent list" where
  "upcoming_events h now events =
     foldr (insort_key (\<lambda>e. event_time h (ev_startDate e)))
       (filter (\<lambda>e. now \<le> event_time h (ev_endDate e)) events) []"

definition event_query :: "event_params \<Rightarrow> (string \<times> jsval) list" where
  "event_query p =
     filter (\<lambda>(k, v). v \<noteq> JUndef)
       [(''page'', ep_page p), (''limit'', ep_limit p), (''upcoming'', ep_upcoming p),
        (''sortOrder'', if truthy (ep_upcoming p) then coalesce (ep_sortOrder p) (JStr (js ''asc''))
           else ep_sortOrder p)]"

abbreviation invalid_events :: js_error where
  "invalid_events \<equiv> throw ''The server returned invalid events.''"

abbreviation invalid_total :: js_error where
  "invalid_total \<equiv> throw ''The server returned an invalid event total.''"

definition event_payload :: "event_params \<Rightarrow> jsval \<Rightarrow> js_error + jsval \<times> jsval" where
  "event_payload p data =
     and_then (unwrapApiData data invalid_events) (\<lambda>canonical.
       if ep_page p \<noteq> JUndef then
         (if \<not> is_record canonical then Inl invalid_events
          else Inr (get canonical ''data'', get canonical ''total''))
       else and_then (unwrapEventData data invalid_events) (\<lambda>payload. Inr (payload, JUndef)))"

definition event_page ::
    "host \<Rightarrow> int \<Rightarrow> event_params \<Rightarrow> jsval \<Rightarrow> jsval \<Rightarrow> ChurchEvent list \<Rightarrow> js_error + ChurchEvent list \<times> int" where
  "event_page h now p data pagedTotal events =
     (let visibleEvents = (if truthy (ep_upcoming p) then upcoming_events h now events else events);
          reportedTotal = coalesce (coalesce pagedTotal (envelopeTotal data)) (jint (int (length events)))
      in if ep_page p \<noteq> JUndef \<and> pagedTotal = JUndef then Inl invalid_total
         else if \<not> isSafeInteger reportedTotal \<or> the_int reportedTotal < int (length events)
         then Inl invalid_total
         else Inr (visibleEvents,
           if ep_page p = JUndef \<and> truthy (ep_upcoming p) then int (length visibleEvents)
           else the_int reportedTotal))"

definition getEvents ::
    "host \<Rightarrow> api \<Rightarrow> int \<Rightarrow> jsstring \<Rightarrow> jsstring \<Rightarrow> event_params \<Rightarrow> js_error + ChurchEvent list \<times> int" where
  "getEvents h api now churchId memberId p =
     (if \<not> id_ok churchId \<or> \<not> id_ok memberId then Inl (throw ''The member identity is incomplete.'')
      else and_then (requestedPageSize p) (\<lambda>pageSize.
        and_then (api_get api (js ''/events/church/'' @ path_segment churchId) (event_query p)) (\<lambda>data.
        and_then (event_payload p data) (\<lambda>(payload, pagedTotal).
          case payload of
            JArr vs \<Rightarrow>
              if pageSize < int (length vs) then Inl (throw ''The server returned too many events.'')
              else and_then (mapM (normalizeEvent h (Some churchId)) vs) (\<lambda>normalized.
                if \<not> distinct (map ev_id normalized) then Inl (throw ''The server returned duplicate events.'')
                else event_page h now p data pagedTotal
                  (map (with_status (settled (rsvpStatuses api (map ev_id normalized) memberId))) normalized))
          | _ \<Rightarrow> Inl invalid_events))))"

definition getEvent :: "host \<Rightarrow> api \<Rightarrow> jsstring \<Rightarrow> jsstring \<Rightarrow> jsstring \<Rightarrow> js_error + ChurchEvent" where
  "getEvent h api eventId churchId memberId =
     (if \<not> id_ok eventId then Inl (throw ''The requested event is invalid.'')
      else if \<not> id_ok churchId \<or> \<not> id_ok memberId then Inl (throw ''The member identity is incomplete.'')
      else and_then (api_get api (js ''/events/'' @ path_segment eventId) [(''upcoming'', JBool True)]) (\<lambda>data.
        and_then (unwrapEventData data (throw ''The server returned an invalid event.'')) (\<lambda>d.
        and_then (normalizeEvent h (Some churchId) d) (\<lambda>e.
          if ev_id e \<noteq> eventId then Inl (throw ''The server returned the wrong event.'')
          else Inr (with_status (settled (rsvpStatuses api [eventId] memberId)) e)))))"

datatype rsvp_outcome = Confirmed | Cancelled

definition send_rsvp ::
    "api \<Rightarrow> jsstring \<Rightarrow> jsstring \<Rightarrow> rsvp_status \<Rightarrow> rsvp_outcome \<Rightarrow> js_error + jsstring \<times> rsvp_outcome" where
  "send_rsvp api eventId memberId status outcome =
     (if \<not> id_ok eventId then Inl (throw ''The requested event is invalid.'')
      else if \<not> id_ok memberId then Inl (throw ''The member identity is incomplete.'')
      else and_then (api_post api (js ''/events/rsvp'')
          (JObj [(''eventId'', JStr eventId), (''status'', JStr (rsvp_text status))])) (\<lambda>data.
        and_then (unwrapEventData data (throw ''The server returned an invalid RSVP.'')) (\<lambda>d.
        and_then (normalizeRsvp d eventId memberId (Some status)) (\<lambda>rsvp.
          Inr (rs_eventId rsvp, outcome)))))"

definition rsvp :: "api \<Rightarrow> jsstring \<Rightarrow> jsstring \<Rightarrow> js_error + jsstring \<times> rsvp_outcome" where
  "rsvp api eventId memberId = send_rsvp api eventId memberId Going Confirmed"

definition cancelRsvp :: "api \<Rightarrow> jsstring \<Rightarrow> jsstring \<Rightarrow> js_error + jsstring \<times> rsvp_outcome" where
  "cancelRsvp api eventId memberId = send_rsvp api eventId memberId NotGoing Cancelled"

definition getUpcoming ::
    "host \<Rightarrow> api \<Rightarrow> int \<Rightarrow> jsstring \<Rightarrow> jsstring \<Rightarrow> jsval \<Rightarrow> js_error + ChurchEvent list" where
  "getUpcoming h api now churchId memberId limit =
     (let requestedLimit = coalesce limit (jint 5) in
      if \<not> isSafeInteger requestedLimit \<or> the_int requestedLimit < 1 \<or> 50 < the_int requestedLimit
      then Inl (throw ''The requested upcoming-event count is invalid.'')
      else and_then (getEvents h api now churchId memberId
          \<lparr>ep_page = JUndef, ep_limit = jint 50, ep_upcoming = JBool True, ep_sortOrder = JUndef\<rparr>)
        (\<lambda>(events, _). Inr (take (nat (the_int requestedLimit)) events)))"

section \<open>Lemmas\<close>

definition event_ok :: "host \<Rightarrow> jsstring \<Rightarrow> ChurchEvent \<Rightarrow> bool" where
  "event_ok h churchId e \<longleftrightarrow> id_ok (ev_id e) \<and> ev_churchId e = churchId
     \<and> required_text (JStr (ev_title e)) 200 False
     \<and> valid_date h (JStr (ev_startDate e)) \<and> valid_date h (JStr (ev_endDate e))
     \<and> event_time h (ev_startDate e) \<le> event_time h (ev_endDate e)
     \<and> ev_location e \<noteq> [] \<and> 0 \<le> ev_attendeeCount e
     \<and> (\<forall>m. ev_maxAttendees e = Some m \<longrightarrow> 0 < m)
     \<and> (ev_isRsvped e \<longrightarrow> ev_rsvpStatusKnown e)"

lemma normalizeEvent_ok:
  assumes "normalizeEvent h (Some churchId) v = Inr e" and "churchId \<noteq> []"
  shows "event_ok h churchId e"
  using assms
  by (auto simp: normalizeEvent_def validEvent_def event_ok_def accepted event_time_def Let_def optional_def
      split: if_splits elim: safe_countE)

lemma with_status_ok: "event_ok h churchId e \<Longrightarrow> event_ok h churchId (with_status s e)"
  by (auto simp: event_ok_def with_status_def split: option.splits)

lemma with_status_id [simp]: "ev_id (with_status s e) = ev_id e"
  by (simp add: with_status_def)

interpretation church_event: record_normalizer "normalizeEvent h (Some (c # cs))" "event_ok h (c # cs)" for h c cs
  by unfold_locales (rule normalizeEvent_ok, simp_all)

lemma rsvpStatuses_distinct: "rsvpStatuses api ids memberId = Inr m \<Longrightarrow> distinct (map fst m)"
  unfolding rsvpStatuses_def by (cases "ids = []") (auto simp: answer_simps)

lemma upcoming_events_facts:
  "sorted (map (\<lambda>e. event_time h (ev_startDate e)) (upcoming_events h now es))"
  "set (upcoming_events h now es) = {e \<in> set es. now \<le> event_time h (ev_endDate e)}"
  "distinct (map ev_id es) \<Longrightarrow> distinct (map ev_id (upcoming_events h now es))"
  "length (upcoming_events h now es) \<le> length es"
proof -
  show "sorted (map (\<lambda>e. event_time h (ev_startDate e)) (upcoming_events h now es))"
    by (simp add: upcoming_events_def flip: sort_key_def)
  show "set (upcoming_events h now es) = {e \<in> set es. now \<le> event_time h (ev_endDate e)}"
    by (auto simp: upcoming_events_def simp flip: sort_key_def)
  show "distinct (map ev_id (upcoming_events h now es))" if "distinct (map ev_id es)"
    using that
    by (simp add: upcoming_events_def distinct_map inj_on_subset distinct_filter flip: sort_key_def)
      (metis (mono_tags, lifting) inj_on_subset mem_Collect_eq subsetI)
  show "length (upcoming_events h now es) \<le> length es"
    by (simp add: upcoming_events_def flip: sort_key_def)
qed

text \<open>\<open>encodeURIComponent\<close> is applied to the published location, so a lone surrogate in it makes the
  screen's helper throw.\<close>

lemma map_action_throws_on_lone_surrogate:
  "eventMapAction [0xD800] offline busy = Inl (URIError (js ''URI malformed''))"
  by (cases offline; cases busy; code_simp)

lemma availability_reason:
  "av_allowed (eventRsvpAvailability h e now) \<longleftrightarrow> av_reason (eventRsvpAvailability h e now) = None"
  by (simp add: eventRsvpAvailability_def split: option.split)

section \<open>Properties\<close>

definition attends :: "api \<Rightarrow> jsstring list \<Rightarrow> jsstring \<Rightarrow> jsstring \<Rightarrow> bool" where
  "attends api ids memberId eventId \<longleftrightarrow>
     (\<exists>m. rsvpStatuses api ids memberId = Inr m \<and> (eventId, Going) \<in> set m)"

lemma with_status_attends:
  "ev_isRsvped (with_status (settled (rsvpStatuses api ids memberId)) e) \<longleftrightarrow> attends api ids memberId (ev_id e)"
  by (cases "rsvpStatuses api ids memberId")
    (simp_all add: with_status_def settled_def attends_def map_of_eq_Some_iff rsvpStatuses_distinct)

text \<open>An event page is the church's own and says the truth about attendance. The events of a
  page are well formed, of the church asked for and pairwise distinct, no more than fifty and no
  more than the reported total; with the upcoming filter they are in the order of their start and
  none has ended; and an event is marked as attended exactly when the member's RSVP history, read
  for all events of the answer, says GOING for it.\<close>

lemma event_page_Inr:
  assumes "event_page h now p data pagedTotal all = Inr (events, announced)"
  shows "events = (if truthy (ep_upcoming p) then upcoming_events h now all else all)
    \<and> int (length events) \<le> announced"
  using assms upcoming_events_facts(4) [of h now all]
  by (auto simp: event_page_def Let_def split: if_splits)

lemma requestedPageSize_le: "requestedPageSize p = Inr n \<Longrightarrow> n \<le> 50"
  by (auto simp: requestedPageSize_def MAX_EVENT_PAGE_SIZE_def DEFAULT_EVENT_PAGE_SIZE_def split: if_splits)

text \<open>An event page is the church's own and says the truth about attendance. The events of a
  page are well formed, of the church asked for and pairwise distinct, no more than fifty and no
  more than the reported total; with the upcoming filter they are in the order of their start and
  none has ended; and an event is marked as attended exactly when the member's RSVP history, read
  for all events of the answer, says GOING for it.\<close>

theorem events_page_is_own:
  assumes "getEvents h api now churchId memberId p = Inr (events, announced)"
  shows "list_all (event_ok h churchId) events \<and> distinct (map ev_id events)
     \<and> length events \<le> 50 \<and> int (length events) \<le> announced
     \<and> (truthy (ep_upcoming p) \<longrightarrow> sorted (map (\<lambda>e. event_time h (ev_startDate e)) events)
         \<and> (\<forall>e \<in> set events. now \<le> event_time h (ev_endDate e)))
     \<and> (\<exists>ids. ev_id ` set events \<subseteq> set ids
         \<and> (\<forall>e \<in> set events. ev_isRsvped e \<longleftrightarrow> attends api ids memberId (ev_id e)))"
proof -
  obtain size vs es data tot where c: "id_ok churchId" and size: "requestedPageSize p = Inr size"
    and len: "int (length vs) \<le> size" and m: "mapM (normalizeEvent h (Some churchId)) vs = Inr es"
    and d: "distinct (map ev_id es)"
    and page: "event_page h now p data tot
        (map (with_status (settled (rsvpStatuses api (map ev_id es) memberId))) es) = Inr (events, announced)"
    using assms by (auto simp: getEvents_def answer_simps not_less split: prod.splits)
  define all where "all = map (with_status (settled (rsvpStatuses api (map ev_id es) memberId))) es"
  have ev: "events = (if truthy (ep_upcoming p) then upcoming_events h now all else all)"
    and tot: "int (length events) \<le> announced"
    using event_page_Inr [OF page, folded all_def] by blast+
  have sub: "set events \<subseteq> set all" and le: "length events \<le> length all"
    using ev upcoming_events_facts(2,4) [of h now all] by auto
  have nonempty: "churchId \<noteq> []" using c by (auto simp: valid_id_def safe_id_def)
  have "\<forall>e \<in> set es. event_ok h churchId e"
    using mapM_Inr_mem [OF m] normalizeEvent_ok [OF _ nonempty] by blast
  then have good: "\<forall>e \<in> set all. event_ok h churchId e"
    by (simp add: all_def with_status_ok)
  have ids: "map ev_id all = map ev_id es" by (simp add: all_def)
  have dist: "distinct (map ev_id events)"
    using ev d ids upcoming_events_facts(3) [of all h now] by (simp split: if_splits)
  have length: "length events \<le> 50"
    using le len mapM_Inr_length [OF m] requestedPageSize_le [OF size] by (simp add: all_def)
  have att: "\<forall>e \<in> set all. ev_isRsvped e \<longleftrightarrow> attends api (map ev_id es) memberId (ev_id e)"
    by (auto simp: all_def with_status_attends)
  have "ev_id ` set events \<subseteq> set (map ev_id es)"
    using sub by (metis ids image_mono list.set_map)
  moreover have "truthy (ep_upcoming p) \<longrightarrow> sorted (map (\<lambda>e. event_time h (ev_startDate e)) events)
         \<and> (\<forall>e \<in> set events. now \<le> event_time h (ev_endDate e))"
    using ev by (simp add: upcoming_events_facts)
  ultimately show ?thesis
    using good sub dist length tot att unfolding list_all_iff by blast
qed

definition rsvp_record :: "jsval \<Rightarrow> jsstring \<Rightarrow> jsstring \<Rightarrow> rsvp_status \<Rightarrow> bool" where
  "rsvp_record d eventId memberId status \<longleftrightarrow> is_record d \<and> valid_id (get d ''id'')
     \<and> get d ''eventId'' = JStr eventId \<and> get d ''memberId'' = JStr memberId
     \<and> get d ''status'' = JStr (rsvp_text status)"

definition rsvp_answer :: "api \<Rightarrow> jsstring \<Rightarrow> rsvp_status \<Rightarrow> js_error + jsval" where
  "rsvp_answer api eventId status =
     and_then (api_post api (js ''/events/rsvp'')
       (JObj [(''eventId'', JStr eventId), (''status'', JStr (rsvp_text status))]))
       (\<lambda>data. unwrapEventData data (throw ''The server returned an invalid RSVP.''))"

lemma rsvp_text_inj: "inj rsvp_text"
proof (rule injI)
  show "a = b" if "rsvp_text a = rsvp_text b" for a b
    using that by (cases a; cases b) (simp_all add: js_def)
qed

lemma rsvp_status_of: "enum_of rsvp_text RSVP_STATUSES v = Some s \<longleftrightarrow> v = JStr (rsvp_text s)"
  by (rule enum_of_iff [OF rsvp_text_inj]) (auto simp: RSVP_STATUSES_def intro: rsvp_status.exhaust)

lemma normalizeRsvp_Inr:
  "normalizeRsvp d eventId memberId (Some status) = Inr r
     \<longleftrightarrow> rsvp_record d eventId memberId status
       \<and> r = \<lparr>rs_id = the_str (get d ''id''), rs_eventId = eventId, rs_memberId = memberId, rs_status = status\<rparr>"
proof -
  have "enum_of rsvp_text RSVP_STATUSES (get d ''status'') = Some status
      \<longleftrightarrow> get d ''status'' = JStr (rsvp_text status)"
    by (rule rsvp_status_of)
  then show ?thesis
    unfolding normalizeRsvp_def rsvp_record_def Let_def guard_Inr by fastforce
qed

lemma send_rsvp_Inr:
  "send_rsvp api eventId memberId status out = Inr r
     \<longleftrightarrow> id_ok eventId \<and> id_ok memberId \<and> r = (eventId, out)
       \<and> (\<exists>d. rsvp_answer api eventId status = Inr d \<and> rsvp_record d eventId memberId status)"
  by (auto simp: send_rsvp_def rsvp_answer_def answer_simps normalizeRsvp_Inr)

text \<open>A confirmed or cancelled RSVP is what was asked. \<open>rsvp\<close> and \<open>cancelRsvp\<close> return exactly
  when the identifiers are usable and the server's answer is an RSVP record of this event and this
  member with exactly the status that was sent; what they return names that event and that
  outcome.\<close>

theorem rsvp_is_confirmed_by_record:
  "(rsvp api eventId memberId = Inr r
     \<longleftrightarrow> id_ok eventId \<and> id_ok memberId \<and> r = (eventId, Confirmed)
       \<and> (\<exists>d. rsvp_answer api eventId Going = Inr d \<and> rsvp_record d eventId memberId Going))
   \<and> (cancelRsvp api eventId memberId = Inr r
     \<longleftrightarrow> id_ok eventId \<and> id_ok memberId \<and> r = (eventId, Cancelled)
       \<and> (\<exists>d. rsvp_answer api eventId NotGoing = Inr d \<and> rsvp_record d eventId memberId NotGoing))"
  by (simp add: rsvp_def cancelRsvp_def send_rsvp_Inr)

section \<open>Witnesses\<close>

definition sample_event :: "jsstring \<Rightarrow> jsstring \<Rightarrow> jsval" where
  "sample_event eventId startDate = JObj [(''id'', JStr eventId), (''churchId'', JStr (js ''c1'')),
     (''title'', JStr (js ''Service'')), (''startDate'', JStr startDate), (''endDate'', JStr (js ''9''))]"

text \<open>A host whose dates are single digits.\<close>

definition digit_host :: host where
  "digit_host = \<lparr>dateParse = (\<lambda>s. case s of [c] \<Rightarrow> Some (int c) | _ \<Rightarrow> None),
     urlParse = (\<lambda>_. None), searchParams = (\<lambda>_. [])\<rparr>"

definition sample_events_api :: api where
  "sample_events_api r =
     (if rq_path r = js ''/events/rsvps/me''
      then Inr (envelope (JArr [JObj [(''id'', JStr (js ''r1'')), (''eventId'', JStr (js ''e2'')),
        (''memberId'', JStr (js ''m1'')), (''status'', JStr (js ''GOING''))]]))
      else Inr (envelope (JArr [sample_event (js ''e1'') (js ''7''), sample_event (js ''e2'') (js ''3'')])))"

definition upcoming_params :: event_params where
  "upcoming_params = \<lparr>ep_page = JUndef, ep_limit = jint 50, ep_upcoming = JBool True, ep_sortOrder = JUndef\<rparr>"

definition sample_entries :: "jsval list" where
  "sample_entries = [sample_event (js ''e1'') (js ''7''), sample_event (js ''e2'') (js ''3'')]"

definition event_digest :: "ChurchEvent list \<times> int \<Rightarrow> jsstring list \<times> bool list \<times> int" where
  "event_digest r = (map ev_id (fst r), map ev_isRsvped (fst r), snd r)"

definition sample_church_events :: "ChurchEvent list" where
  "sample_church_events = map (\<lambda>(i, d). \<lparr>ev_id = i, ev_churchId = js ''c1'', ev_title = js ''Service'',
     ev_description = [], ev_startDate = d, ev_endDate = js ''9'', ev_location = unannounced,
     ev_isRsvped = False, ev_rsvpStatusKnown = False, ev_attendeeCount = 0, ev_maxAttendees = None\<rparr>)
     [(js ''e1'', js ''7''), (js ''e2'', js ''3'')]"

lemma sample_events_run:
  "map_sum id event_digest (getEvents digit_host sample_events_api 50 (js ''c1'') (js ''m1'') upcoming_params)
     = Inr ([js ''e2'', js ''e1''], [True, False], 2)"
proof -
  have ids: "id_ok (js ''c1'') \<and> id_ok (js ''m1'')" by code_simp
  have size: "requestedPageSize upcoming_params = Inr 50" by code_simp
  have get: "api_get sample_events_api (js ''/events/church/'' @ path_segment (js ''c1'')) (event_query upcoming_params)
      = Inr (envelope (JArr sample_entries))"
    by code_simp
  have payload: "event_payload upcoming_params (envelope (JArr sample_entries)) = Inr (JArr sample_entries, JUndef)"
    by code_simp
  have m: "mapM (normalizeEvent digit_host (Some (js ''c1''))) sample_entries = Inr sample_church_events"
    by code_simp
  have rsvps: "settled (rsvpStatuses sample_events_api (map ev_id sample_church_events) (js ''m1''))
      = Some [(js ''e2'', Going)]"
    by code_simp
  have d: "distinct (map ev_id sample_church_events) \<and> \<not> 50 < int (length sample_entries)" by code_simp
  have page: "map_sum id event_digest (event_page digit_host 50 upcoming_params (envelope (JArr sample_entries)) JUndef
          (map (with_status (Some [(js ''e2'', Going)])) sample_church_events))
      = Inr ([js ''e2'', js ''e1''], [True, False], 2)"
    by code_simp
  show ?thesis
    unfolding getEvents_def size get payload
    by (simp only: ids payload m rsvps d page and_then_def sum.case prod.case jsval.case simp_thms if_True if_False)
qed

theorem events_page_is_own_witness:
  "\<exists>events. getEvents digit_host sample_events_api 50 (js ''c1'') (js ''m1'') upcoming_params = Inr (events, 2)
     \<and> map ev_id events = [js ''e2'', js ''e1''] \<and> map ev_isRsvped events = [True, False]
     \<and> list_all (event_ok digit_host (js ''c1'')) events"
proof -
  obtain r where r: "getEvents digit_host sample_events_api 50 (js ''c1'') (js ''m1'') upcoming_params = Inr r"
    and ids: "event_digest r = ([js ''e2'', js ''e1''], [True, False], 2)"
    using map_sum_InrD [OF sample_events_run] by blast
  obtain events n where pair: "r = (events, n)" by (cases r)
  have n: "n = 2" and facts: "map ev_id events = [js ''e2'', js ''e1'']" "map ev_isRsvped events = [True, False]"
    using ids unfolding pair event_digest_def by simp_all
  note page = r [unfolded pair n]
  show ?thesis
    by (rule exI [of _ events]) (intro conjI page facts events_page_is_own [OF page, THEN conjunct1])
qed

end
