(* ===== verification/Paging.thy ===== *)
theory Paging
  imports ApiBoundary
begin

text \<open>
  The page protocol the spiritual and the community services repeat: the check of the requested
  page and size, the list found in the payload, the refusal of too many or repeated entries, and
  the announced total. The services differ in their messages, in the property that holds the list
  and in whether a page must announce its total; these are the arguments.
\<close>

section \<open>Requests\<close>

record page_params =
  pp_page :: jsval
  pp_limit :: jsval

definition positive_upto :: "int option \<Rightarrow> jsval \<Rightarrow> bool" where
  "positive_upto most v \<longleftrightarrow> isSafeInteger v \<and> 1 \<le> the_int v
     \<and> (case most of None \<Rightarrow> True | Some m \<Rightarrow> the_int v \<le> m)"

definition requested_size ::
    "js_error \<Rightarrow> js_error \<Rightarrow> int \<Rightarrow> int \<Rightarrow> page_params \<Rightarrow> js_error + int" where
  "requested_size bad_page bad_size most standard p =
     (if \<not> optional (positive_upto None) (pp_page p) then Inl bad_page
      else if \<not> optional (positive_upto (Some most)) (pp_limit p) then Inl bad_size
      else Inr (if pp_limit p = JUndef then standard else the_int (pp_limit p)))"

definition page_query :: "page_params \<Rightarrow> (string \<times> jsval) list" where
  "page_query p = filter (\<lambda>(k, v). v \<noteq> JUndef) [(''page'', pp_page p), (''limit'', pp_limit p)]"

abbreviation no_params :: page_params where
  "no_params \<equiv> \<lparr>pp_page = JUndef, pp_limit = JUndef\<rparr>"

section \<open>Responses\<close>

record page_texts =
  pt_invalid :: js_error
  pt_many :: js_error
  pt_duplicate :: js_error
  pt_total :: js_error

definition payload_list :: "jsval \<Rightarrow> string \<Rightarrow> jsval" where
  "payload_list payload key =
     (case payload of
        JArr vs \<Rightarrow> JArr vs
      | _ \<Rightarrow> if is_object payload then coalesce (get payload key) (get payload ''data'') else JUndef)"

definition reported_total :: "jsval \<Rightarrow> jsval" where
  "reported_total payload = (case payload of JArr _ \<Rightarrow> JUndef | _ \<Rightarrow> get payload ''total'')"

text \<open>\<open>announced\<close>: a page without a total is refused.\<close>

definition read_page ::
    "page_texts \<Rightarrow> string \<Rightarrow> bool \<Rightarrow> (jsval \<Rightarrow> js_error + 'r) \<Rightarrow> ('r \<Rightarrow> jsstring) \<Rightarrow> int \<Rightarrow> jsval
      \<Rightarrow> js_error + 'r list \<times> int" where
  "read_page texts key announced read ident pageSize payload =
     (case payload_list payload key of
        JArr vs \<Rightarrow>
          if pageSize < int (length vs) then Inl (pt_many texts)
          else and_then (mapM read vs) (\<lambda>rs.
            if \<not> distinct (map ident rs) then Inl (pt_duplicate texts)
            else if announced \<and> reported_total payload = JUndef then Inl (pt_total texts)
            else
              let reported = coalesce (reported_total payload) (jint (int (length rs)))
              in if \<not> safe_count reported \<or> the_int reported < int (length rs) then Inl (pt_total texts)
                 else Inr (rs, the_int reported))
      | _ \<Rightarrow> Inl (pt_invalid texts))"

section \<open>What a reader of pages promises\<close>

lemma positive_upto_bounds: "positive_upto most v \<Longrightarrow> 1 \<le> the_int v"
  by (simp add: positive_upto_def)

lemma requested_size_bounds:
  assumes "requested_size bp bs most standard p = Inr n" and "1 \<le> standard" and "standard \<le> most"
  shows "1 \<le> n \<and> n \<le> most"
  using assms by (auto simp: requested_size_def optional_def positive_upto_def split: if_splits)

locale page_reader = record_normalizer norm good
  for norm :: "jsval \<Rightarrow> js_error + 'r" and good :: "'r \<Rightarrow> bool" +
  fixes ident :: "'r \<Rightarrow> jsstring"
  assumes ident_ok: "good r \<Longrightarrow> id_ok (ident r)"
begin

lemma read_page_ok:
  assumes "read_page texts key announced norm ident pageSize payload = Inr (rs, tot)"
  shows "page_ok good ident pageSize rs tot"
proof -
  obtain vs where m: "mapM norm vs = Inr rs" and d: "distinct (map ident rs)"
    and len: "int (length vs) \<le> pageSize" and tot: "int (length rs) \<le> tot"
    using assms by (auto simp: read_page_def answer_simps Let_def not_less)
  moreover have "int (length vs) \<le> tot"
    using tot mapM_Inr_length [OF m] by simp
  ultimately show ?thesis by (intro page_okI [OF m])
qed

lemma read_page_ids:
  assumes "read_page texts key announced norm ident pageSize payload = Inr (rs, tot)"
  shows "\<forall>r\<in>set rs. id_ok (ident r)"
  using read_page_ok [OF assms] ident_ok by (simp add: page_ok_def)

lemma read_page_from_wire:
  assumes "read_page texts key announced norm ident pageSize payload = Inr (rs, tot)"
  shows "\<exists>vs. payload_list payload key = JArr vs \<and> list_all2 (\<lambda>v r. norm v = Inr r) vs rs"
  using assms by (auto simp: read_page_def answer_simps Let_def mapM_Inr)

end

section \<open>Ownership of a screen's state\<close>

text \<open>\<open>*BelongsToIdentity\<close>: loaded content is shown only to the identity it was loaded for. The
  events, social, spiritual and welfare screens each have a copy of this function.\<close>

record screen_owner =
  so_churchId :: "jsstring option"
  so_memberId :: "jsstring option"

definition belongs_to_identity :: "screen_owner option \<Rightarrow> screen_owner \<Rightarrow> bool" where
  "belongs_to_identity owner active =
     (case owner of
        None \<Rightarrow> False
      | Some w \<Rightarrow> so_churchId w \<noteq> None \<and> so_memberId w \<noteq> None
          \<and> so_churchId w = so_churchId active \<and> so_memberId w = so_memberId active)"

definition completion_belongs_to_identity :: "bool \<Rightarrow> screen_owner \<Rightarrow> jsstring \<Rightarrow> jsstring \<Rightarrow> bool" where
  "completion_belongs_to_identity mounted active startedChurchId startedMemberId \<longleftrightarrow>
     mounted \<and> so_churchId active = Some startedChurchId \<and> so_memberId active = Some startedMemberId"

lemma belongs_unique:
  "belongs_to_identity (Some w) a \<Longrightarrow> belongs_to_identity (Some w) b
     \<Longrightarrow> so_churchId a = so_churchId b \<and> so_memberId a = so_memberId b"
  by (auto simp: belongs_to_identity_def)

end
