(* ===== verification/Spiritual.thy ===== *)
theory Spiritual
  imports Paging
begin

text \<open>
  Devotionals, sermons and prayer requests: \<open>apps/mobile/src/services/spiritual.service.ts\<close> and
  \<open>screens/spiritual/spiritual-screen-state.ts\<close>.
\<close>

section \<open>Media links\<close>

definition safeSpiritualMediaUrl :: "host \<Rightarrow> jsval \<Rightarrow> jsstring option" where
  "safeSpiritualMediaUrl h v =
     (if \<not> bounded_text v 2048 False then None
      else case urlParse h (trim (the_str v)) of
          None \<Rightarrow> None
        | Some u \<Rightarrow>
            if u_protocol u \<noteq> js ''https:'' \<or> u_hostname u = [] \<or> u_username u \<noteq> [] \<or> u_password u \<noteq> []
            then None else Some (u_href u))"

definition optional_media :: "host \<Rightarrow> jsval \<Rightarrow> jsstring option" where
  "optional_media h v = (if v = JUndef then None else safeSpiritualMediaUrl h v)"

definition media_ok :: "host \<Rightarrow> jsval \<Rightarrow> bool" where
  "media_ok h v \<longleftrightarrow> v = JUndef \<or> safeSpiritualMediaUrl h v \<noteq> None"

text \<open>\<open>...(url ? { url } : {})\<close>: an empty string is dropped like an absent value.\<close>

definition if_text :: "jsstring option \<Rightarrow> jsstring option" where
  "if_text s = (if s = Some [] then None else s)"

section \<open>Wire values\<close>

record Devotional =
  dv_id :: jsstring
  dv_churchId :: jsstring
  dv_title :: jsstring
  dv_scripture :: jsstring
  dv_scriptureReference :: jsstring
  dv_content :: jsstring
  dv_author :: jsstring
  dv_date :: jsstring
  dv_imageUrl :: "jsstring option"

definition passage :: "jsval \<Rightarrow> jsval" where
  "passage item = coalesce (get item ''scriptureText'') (get item ''scripture'')"

definition passage_reference :: "jsval \<Rightarrow> jsval" where
  "passage_reference item =
     coalesce (get item ''scriptureReference'')
       (if truthy (get item ''scriptureText'') then get item ''scripture'' else JUndef)"

definition validDevotional :: "host \<Rightarrow> jsstring \<Rightarrow> jsval \<Rightarrow> bool" where
  "validDevotional h churchId item \<longleftrightarrow>
     valid_id (get item ''id'') \<and> get item ''churchId'' = JStr churchId
     \<and> required_text (get item ''title'') 200 False
     \<and> required_text (passage item) 50000 True
     \<and> required_text (passage_reference item) 500 False
     \<and> required_text (get item ''content'') 50000 True
     \<and> required_text (get item ''author'') 120 False
     \<and> valid_date h (get item ''date'') \<and> media_ok h (get item ''imageUrl'')"

definition normalizeDevotional :: "host \<Rightarrow> jsstring \<Rightarrow> jsval \<Rightarrow> js_error + Devotional" where
  "normalizeDevotional h churchId item =
     (if \<not> is_record item \<or> \<not> validDevotional h churchId item
      then Inl (throw ''The server returned an invalid devotional.'')
      else Inr \<lparr>dv_id = the_str (get item ''id''), dv_churchId = churchId,
            dv_title = the_str (get item ''title''), dv_scripture = the_str (passage item),
            dv_scriptureReference = the_str (passage_reference item),
            dv_content = the_str (get item ''content''), dv_author = the_str (get item ''author''),
            dv_date = the_str (get item ''date''),
            dv_imageUrl = if_text (optional_media h (get item ''imageUrl''))\<rparr>)"

record Sermon =
  sm_id :: jsstring
  sm_churchId :: jsstring
  sm_title :: jsstring
  sm_speaker :: jsstring
  sm_date :: jsstring
  sm_duration :: jsstring
  sm_audioUrl :: "jsstring option"
  sm_videoUrl :: "jsstring option"
  sm_thumbnailUrl :: "jsstring option"
  sm_series :: "jsstring option"
  sm_description :: "jsstring option"

definition validSermon :: "host \<Rightarrow> jsstring \<Rightarrow> jsval \<Rightarrow> bool" where
  "validSermon h churchId item \<longleftrightarrow>
     valid_id (get item ''id'') \<and> get item ''churchId'' = JStr churchId
     \<and> required_text (get item ''title'') 200 False
     \<and> required_text (get item ''speaker'') 120 False
     \<and> valid_date h (get item ''date'')
     \<and> required_text (get item ''duration'') 64 False
     \<and> media_ok h (get item ''audioUrl'') \<and> media_ok h (get item ''videoUrl'')
     \<and> media_ok h (get item ''thumbnailUrl'')
     \<and> optional (\<lambda>v. bounded_text v 200 False) (get item ''series'')
     \<and> optional (\<lambda>v. bounded_text v 5000 True) (get item ''description'')"

definition normalizeSermon :: "host \<Rightarrow> jsstring \<Rightarrow> jsval \<Rightarrow> js_error + Sermon" where
  "normalizeSermon h churchId item =
     (if \<not> is_record item \<or> \<not> validSermon h churchId item
      then Inl (throw ''The server returned an invalid sermon.'')
      else Inr \<lparr>sm_id = the_str (get item ''id''), sm_churchId = churchId,
            sm_title = the_str (get item ''title''), sm_speaker = the_str (get item ''speaker''),
            sm_date = the_str (get item ''date''), sm_duration = the_str (get item ''duration''),
            sm_audioUrl = if_text (optional_media h (get item ''audioUrl'')),
            sm_videoUrl = if_text (optional_media h (get item ''videoUrl'')),
            sm_thumbnailUrl = if_text (optional_media h (get item ''thumbnailUrl'')),
            sm_series = opt_str (get item ''series''),
            sm_description = opt_str (get item ''description'')\<rparr>)"

record PrayerRequest =
  pr_id :: jsstring
  pr_churchId :: jsstring
  pr_memberId :: "jsstring option"
  pr_title :: jsstring
  pr_description :: jsstring
  pr_isAnonymous :: bool
  pr_prayerCount :: int
  pr_createdAt :: jsstring
  pr_authorName :: "jsstring option"

definition validPrayer :: "host \<Rightarrow> jsstring \<Rightarrow> jsstring option \<Rightarrow> jsval \<Rightarrow> bool" where
  "validPrayer h churchId expectedMemberId item \<longleftrightarrow>
     valid_id (get item ''id'') \<and> get item ''churchId'' = JStr churchId
     \<and> (case if_text expectedMemberId of
          Some m \<Rightarrow> get item ''memberId'' = JStr m \<and> valid_id (get item ''memberId'')
        | None \<Rightarrow> optional valid_id (get item ''memberId''))
     \<and> required_text (get item ''title'') 200 False
     \<and> required_text (get item ''description'') 2000 True
     \<and> is_boolean (get item ''isAnonymous'')
     \<and> safe_count (coalesce (get item ''prayerCount'') (jint 0))
     \<and> valid_date h (get item ''createdAt'')
     \<and> optional (\<lambda>v. bounded_text v 120 False) (get item ''authorName'')"

definition normalizePrayerRequest ::
    "host \<Rightarrow> jsstring \<Rightarrow> jsstring option \<Rightarrow> jsval \<Rightarrow> js_error + PrayerRequest" where
  "normalizePrayerRequest h churchId expectedMemberId item =
     (if \<not> is_record item \<or> \<not> validPrayer h churchId expectedMemberId item
      then Inl (throw ''The server returned an invalid prayer request.'')
      else Inr \<lparr>pr_id = the_str (get item ''id''), pr_churchId = churchId,
            pr_memberId = (if if_text expectedMemberId \<noteq> None then Some (the_str (get item ''memberId'')) else None),
            pr_title = the_str (get item ''title''),
            pr_description = the_str (get item ''description''),
            pr_isAnonymous = the_bool (get item ''isAnonymous''),
            pr_prayerCount = the_int (coalesce (get item ''prayerCount'') (jint 0)),
            pr_createdAt = the_str (get item ''createdAt''),
            pr_authorName = (if the_bool (get item ''isAnonymous'') then None
              else if_text (opt_str (get item ''authorName'')))\<rparr>)"

section \<open>Playback\<close>

datatype playback_kind = Audio | Video

record playback =
  pb_url :: "jsstring option"
  pb_kind :: "playback_kind option"
  pb_disabled :: bool
  pb_busy :: bool
  pb_label :: jsstring
  pb_hint :: "jsstring option"

text \<open>\<open>url\<close> and \<open>kind\<close> test the media link for truth, so an empty one counts as none.\<close>

definition sermonPlaybackAction :: "host \<Rightarrow> Sermon \<Rightarrow> bool \<Rightarrow> jsstring option \<Rightarrow> playback" where
  "sermonPlaybackAction h s offline openingId =
     (let audioUrl = safeSpiritualMediaUrl h (opt_val JStr (sm_audioUrl s));
          videoUrl = (if if_text audioUrl \<noteq> None then None
            else safeSpiritualMediaUrl h (opt_val JStr (sm_videoUrl s)));
          url = (if audioUrl \<noteq> None then audioUrl else videoUrl);
          kind = (if if_text audioUrl \<noteq> None then Some Audio
            else if if_text videoUrl \<noteq> None then Some Video else None);
          busy = (openingId = Some (sm_id s));
          anotherOpening = (openingId \<noteq> None \<and> \<not> busy)
      in \<lparr>pb_url = url, pb_kind = kind,
          pb_disabled = (if_text url = None \<or> offline \<or> openingId \<noteq> None), pb_busy = busy,
          pb_label = (case kind of
              Some Audio \<Rightarrow> js ''Listen to '' @ sm_title s
            | Some Video \<Rightarrow> js ''Watch '' @ sm_title s
            | None \<Rightarrow> sm_title s @ js '' has no playback link''),
          pb_hint = (if if_text url = None then Some (js ''This sermon has no secure playback link.'')
            else if offline then Some (js ''Reconnect to open this sermon.'')
            else if busy then Some (js ''Opening this sermon on your device.'')
            else if anotherOpening then Some (js ''Wait for the current sermon to open.'')
            else None)\<rparr>)"

section \<open>The operations\<close>

abbreviation incomplete_identity :: js_error where
  "incomplete_identity \<equiv> throw ''The member identity is incomplete.''"

definition spiritual_size :: "page_params \<Rightarrow> js_error + int" where
  "spiritual_size = requested_size (throw ''The requested spiritual page is invalid.'')
     (throw ''The requested spiritual page size is invalid.'') 50 20"

definition getTodayDevotional :: "host \<Rightarrow> api \<Rightarrow> jsstring \<Rightarrow> js_error + Devotional option" where
  "getTodayDevotional h api churchId =
     (if \<not> id_ok churchId then Inl incomplete_identity
      else
        let loaded = and_then (api_get api (js ''/spiritual/devotional/today'') []) (\<lambda>data.
            and_then (unwrapApiData data (throw ''The server returned an invalid devotional.'')) (\<lambda>d.
              normalizeDevotional h churchId d))
        in case loaded of
            Inr d \<Rightarrow> Inr (Some d)
          | Inl e \<Rightarrow> if httpStatus e = Some 404 then Inr None else Inl e)"

definition devotional_texts :: page_texts where
  "devotional_texts = \<lparr>pt_invalid = throw ''The server returned invalid devotionals.'',
     pt_many = throw ''The server returned too many devotionals.'',
     pt_duplicate = throw ''The server returned duplicate devotionals.'',
     pt_total = throw ''The server returned an invalid devotional total.''\<rparr>"

definition getDevotionals ::
    "host \<Rightarrow> api \<Rightarrow> jsstring \<Rightarrow> page_params \<Rightarrow> js_error + Devotional list \<times> int" where
  "getDevotionals h api churchId p =
     (if \<not> id_ok churchId then Inl incomplete_identity
      else and_then (spiritual_size p) (\<lambda>size.
        and_then (api_get api (js ''/spiritual/devotionals'') (page_query p)) (\<lambda>data.
        and_then (unwrapApiData data (pt_invalid devotional_texts)) (\<lambda>payload.
          read_page devotional_texts ''devotionals'' (pp_page p \<noteq> JUndef) (normalizeDevotional h churchId)
            dv_id size payload))))"

definition sermon_texts :: page_texts where
  "sermon_texts = \<lparr>pt_invalid = throw ''The server returned invalid sermons.'',
     pt_many = throw ''The server returned too many sermons.'',
     pt_duplicate = throw ''The server returned duplicate sermons.'',
     pt_total = throw ''The server returned an invalid sermon total.''\<rparr>"

definition getSermons ::
    "host \<Rightarrow> api \<Rightarrow> jsstring \<Rightarrow> page_params \<Rightarrow> jsval \<Rightarrow> js_error + Sermon list \<times> int" where
  "getSermons h api churchId p series =
     (if \<not> id_ok churchId then Inl incomplete_identity
      else and_then (spiritual_size p) (\<lambda>size.
        if \<not> optional (\<lambda>v. required_text v 200 False) series
        then Inl (throw ''The requested sermon series is invalid.'')
        else and_then (api_get api (js ''/spiritual/sermons'')
            (page_query p @ filter (\<lambda>(k, v). v \<noteq> JUndef) [(''series'', series)])) (\<lambda>data.
        and_then (unwrapApiData data (pt_invalid sermon_texts)) (\<lambda>payload.
          read_page sermon_texts ''sermons'' (pp_page p \<noteq> JUndef) (normalizeSermon h churchId)
            sm_id size payload))))"

definition getSermon :: "host \<Rightarrow> api \<Rightarrow> jsstring \<Rightarrow> jsstring \<Rightarrow> js_error + Sermon" where
  "getSermon h api sermonId churchId =
     (if \<not> id_ok sermonId then Inl (throw ''The requested sermon is invalid.'')
      else if \<not> id_ok churchId then Inl incomplete_identity
      else and_then (api_get api (js ''/spiritual/sermons/'' @ path_segment sermonId) []) (\<lambda>data.
        and_then (unwrapApiData data (throw ''The server returned an invalid sermon.'')) (\<lambda>d.
        and_then (normalizeSermon h churchId d) (\<lambda>s.
          if sm_id s \<noteq> sermonId then Inl (throw ''The server returned the wrong sermon.'') else Inr s))))"

definition prayer_texts :: page_texts where
  "prayer_texts = \<lparr>pt_invalid = throw ''The server returned invalid prayer requests.'',
     pt_many = throw ''The server returned too many prayer requests.'',
     pt_duplicate = throw ''The server returned duplicate prayer requests.'',
     pt_total = throw ''The server returned an invalid prayer total.''\<rparr>"

definition getPrayerRequests ::
    "host \<Rightarrow> api \<Rightarrow> jsstring \<Rightarrow> page_params \<Rightarrow> js_error + PrayerRequest list \<times> int" where
  "getPrayerRequests h api churchId p =
     (if \<not> id_ok churchId then Inl incomplete_identity
      else and_then (spiritual_size p) (\<lambda>size.
        and_then (api_get api (js ''/spiritual/prayer-requests'') (page_query p)) (\<lambda>data.
        and_then (unwrapApiData data (pt_invalid prayer_texts)) (\<lambda>payload.
          read_page prayer_texts ''requests'' (pp_page p \<noteq> JUndef) (normalizePrayerRequest h churchId None)
            pr_id size payload))))"

abbreviation invalid_prayer :: js_error where
  "invalid_prayer \<equiv> throw ''The prayer request is invalid.''"

definition trimmed :: "jsval \<Rightarrow> jsstring" where
  "trimmed v = (if is_string v then trim (the_str v) else [])"

definition createPrayerRequest ::
    "host \<Rightarrow> api \<Rightarrow> jsval \<Rightarrow> jsstring \<Rightarrow> jsstring \<Rightarrow> js_error + PrayerRequest" where
  "createPrayerRequest h api request churchId memberId =
     (if \<not> id_ok churchId \<or> \<not> id_ok memberId then Inl incomplete_identity
      else if \<not> is_object request then Inl invalid_prayer
      else
        let title = trimmed (get request ''title''); description = trimmed (get request ''description'')
        in if \<not> required_text (JStr title) 200 False \<or> \<not> required_text (JStr description) 2000 True
             \<or> \<not> is_boolean (get request ''isAnonymous'')
           then Inl invalid_prayer
           else and_then (api_post api (js ''/spiritual/prayer-requests'')
               (JObj [(''title'', JStr title), (''description'', JStr description),
                 (''isAnonymous'', get request ''isAnonymous'')])) (\<lambda>data.
             and_then (unwrapApiData data (throw ''The server returned an invalid prayer request.'')) (\<lambda>d.
             and_then (normalizePrayerRequest h churchId (Some memberId) d) (\<lambda>created.
               if pr_title created \<noteq> title \<or> pr_description created \<noteq> description
                 \<or> JBool (pr_isAnonymous created) \<noteq> get request ''isAnonymous''
               then Inl (throw ''The server returned an invalid prayer request.'')
               else Inr created))))"

abbreviation invalid_prayer_count :: js_error where
  "invalid_prayer_count \<equiv> throw ''The server returned an invalid prayer count.''"

definition prayForRequest :: "api \<Rightarrow> jsstring \<Rightarrow> js_error + int option" where
  "prayForRequest api requestId =
     (if \<not> id_ok requestId then Inl (throw ''The requested prayer is invalid.'')
      else and_then (api_post api (js ''/spiritual/prayer-requests/'' @ path_segment requestId @ js ''/pray'') JUndef)
        (\<lambda>data. and_then (unwrapApiData data invalid_prayer_count) (\<lambda>payload.
          if nullish payload then Inr None
          else if \<not> is_record payload then Inl invalid_prayer_count
          else
            let acknowledged = coalesce (get payload ''requestId'') (get payload ''prayerRequestId'');
                count = get payload ''prayerCount''
            in if acknowledged \<noteq> JUndef \<and> acknowledged \<noteq> JStr requestId then Inl invalid_prayer_count
               else if count = JUndef then Inr None
               else if \<not> safe_count count then Inl invalid_prayer_count
               else Inr (Some (the_int count)))))"

definition spiritualPartialRecoveryAction :: "bool \<Rightarrow> jsstring \<times> jsstring \<times> bool" where
  "spiritualPartialRecoveryAction offline =
     (if offline
      then (js ''Reconnect to refresh'', js ''Reconnect to refresh the sermon library before continuing.'', True)
      else (js ''Refresh to continue'', js ''Refreshes the sermon library from its newest page.'', False))"

definition spiritualContentBelongsToIdentity :: "screen_owner option \<Rightarrow> screen_owner \<Rightarrow> bool" where
  "spiritualContentBelongsToIdentity = belongs_to_identity"

section \<open>Lemmas\<close>

definition secure_link :: "host \<Rightarrow> jsstring \<Rightarrow> bool" where
  "secure_link h link \<longleftrightarrow> (\<exists>raw u. urlParse h raw = Some u \<and> link = u_href u
     \<and> u_protocol u = js ''https:'' \<and> u_hostname u \<noteq> [] \<and> u_username u = [] \<and> u_password u = [])"

lemma safeSpiritualMediaUrl_secure: "safeSpiritualMediaUrl h v = Some link \<Longrightarrow> secure_link h link"
  by (auto simp: safeSpiritualMediaUrl_def secure_link_def split: if_splits option.splits)

lemma if_text_Some: "if_text s = Some t \<longleftrightarrow> s = Some t \<and> t \<noteq> []"
  by (auto simp: if_text_def)

lemma media_secure:
  "if_text (optional_media h v) = Some link \<Longrightarrow> secure_link h link"
  by (auto simp: if_text_Some optional_media_def safeSpiritualMediaUrl_secure split: if_splits)

definition devotional_ok :: "host \<Rightarrow> jsstring \<Rightarrow> Devotional \<Rightarrow> bool" where
  "devotional_ok h churchId d \<longleftrightarrow> id_ok (dv_id d) \<and> dv_churchId d = churchId
     \<and> required_text (JStr (dv_title d)) 200 False \<and> required_text (JStr (dv_scripture d)) 50000 True
     \<and> required_text (JStr (dv_scriptureReference d)) 500 False
     \<and> required_text (JStr (dv_content d)) 50000 True \<and> required_text (JStr (dv_author d)) 120 False
     \<and> valid_date h (JStr (dv_date d)) \<and> (\<forall>u. dv_imageUrl d = Some u \<longrightarrow> secure_link h u)"

definition sermon_ok :: "host \<Rightarrow> jsstring \<Rightarrow> Sermon \<Rightarrow> bool" where
  "sermon_ok h churchId s \<longleftrightarrow> id_ok (sm_id s) \<and> sm_churchId s = churchId
     \<and> required_text (JStr (sm_title s)) 200 False \<and> required_text (JStr (sm_speaker s)) 120 False
     \<and> valid_date h (JStr (sm_date s)) \<and> required_text (JStr (sm_duration s)) 64 False
     \<and> (\<forall>u. sm_audioUrl s = Some u \<or> sm_videoUrl s = Some u \<or> sm_thumbnailUrl s = Some u \<longrightarrow> secure_link h u)"

definition prayer_ok :: "host \<Rightarrow> jsstring \<Rightarrow> PrayerRequest \<Rightarrow> bool" where
  "prayer_ok h churchId r \<longleftrightarrow> id_ok (pr_id r) \<and> pr_churchId r = churchId
     \<and> required_text (JStr (pr_title r)) 200 False \<and> required_text (JStr (pr_description r)) 2000 True
     \<and> 0 \<le> pr_prayerCount r \<and> valid_date h (JStr (pr_createdAt r))
     \<and> (pr_isAnonymous r \<longrightarrow> pr_authorName r = None)"

lemma normalizeDevotional_ok: "normalizeDevotional h churchId v = Inr d \<Longrightarrow> devotional_ok h churchId d"
  by (auto simp: normalizeDevotional_def validDevotional_def devotional_ok_def accepted media_secure
      split: if_splits)

lemma normalizeSermon_ok: "normalizeSermon h churchId v = Inr d \<Longrightarrow> sermon_ok h churchId d"
  by (auto simp: normalizeSermon_def validSermon_def sermon_ok_def accepted media_secure
      split: if_splits)

lemma normalizePrayer_ok:
  "normalizePrayerRequest h churchId m v = Inr r \<Longrightarrow> prayer_ok h churchId r"
  by (auto simp: normalizePrayerRequest_def validPrayer_def prayer_ok_def accepted
      split: if_splits elim: safe_countE)

lemma normalizePrayer_member:
  "normalizePrayerRequest h churchId m v = Inr r \<Longrightarrow> pr_memberId r = if_text m"
  by (cases "if_text m") (auto simp: normalizePrayerRequest_def validPrayer_def split: if_splits)

interpretation devotional: page_reader "normalizeDevotional h churchId" "devotional_ok h churchId" dv_id
  for h churchId
  by unfold_locales (simp_all add: normalizeDevotional_ok, simp add: devotional_ok_def)

interpretation sermon: page_reader "normalizeSermon h churchId" "sermon_ok h churchId" sm_id
  for h churchId
  by unfold_locales (simp_all add: normalizeSermon_ok, simp add: sermon_ok_def)

interpretation prayer: page_reader "normalizePrayerRequest h churchId m"
    "\<lambda>r. prayer_ok h churchId r \<and> pr_memberId r = if_text m" pr_id
  for h churchId m
  by unfold_locales (auto simp: normalizePrayer_ok normalizePrayer_member, simp add: prayer_ok_def)

lemma spiritual_size_bounds: "spiritual_size p = Inr n \<Longrightarrow> 1 \<le> n \<and> n \<le> 50"
  unfolding spiritual_size_def by (erule requested_size_bounds) simp_all

section \<open>Properties\<close>

text \<open>The library pages are the church's own. Every devotional and every sermon of a page is
  well formed and of the church asked for, links in it are HTTPS links without credentials, and
  the page has distinct identifiers, at most fifty entries and no more than the announced total.\<close>

theorem library_pages_are_own:
  "(getDevotionals h api churchId p = Inr (ds, n) \<longrightarrow> page_ok (devotional_ok h churchId) dv_id 50 ds n)
   \<and> (getSermons h api churchId p series = Inr (ss, m) \<longrightarrow> page_ok (sermon_ok h churchId) sm_id 50 ss m)"
proof (intro conjI impI)
  assume "getDevotionals h api churchId p = Inr (ds, n)"
  then obtain k payload where "spiritual_size p = Inr k"
    and "read_page devotional_texts ''devotionals'' (pp_page p \<noteq> JUndef) (normalizeDevotional h churchId)
          dv_id k payload = Inr (ds, n)"
    by (auto simp: getDevotionals_def answer_simps)
  then show "page_ok (devotional_ok h churchId) dv_id 50 ds n"
    by (meson devotional.read_page_ok page_ok_mono spiritual_size_bounds)
next
  assume "getSermons h api churchId p series = Inr (ss, m)"
  then obtain k payload where "spiritual_size p = Inr k"
    and "read_page sermon_texts ''sermons'' (pp_page p \<noteq> JUndef) (normalizeSermon h churchId)
          sm_id k payload = Inr (ss, m)"
    by (auto simp: getSermons_def answer_simps)
  then show "page_ok (sermon_ok h churchId) sm_id 50 ss m"
    by (meson sermon.read_page_ok page_ok_mono spiritual_size_bounds)
qed

text \<open>C29: the prayer service gives away no author. Whatever the gateway sends, a prayer request of a page of the
  public list carries no member identifier, and an anonymous one carries no author name; the page is bounded, distinct
  and of the church asked for. A request that a member shares comes back with that member's own identifier and no
  other, also when it is anonymous, and then without an author name. So an entry the screen receives never tells it
  which other member wrote it.\<close>

theorem prayer_authors_stay_private:
  "(getPrayerRequests h api churchId p = Inr (rs, n) \<longrightarrow>
      page_ok (\<lambda>r. prayer_ok h churchId r \<and> pr_memberId r = None \<and> (pr_isAnonymous r \<longrightarrow> pr_authorName r = None))
        pr_id 50 rs n)
   \<and> (createPrayerRequest h api request churchId memberId = Inr r \<longrightarrow>
      pr_memberId r = Some memberId \<and> pr_churchId r = churchId \<and> (pr_isAnonymous r \<longrightarrow> pr_authorName r = None))"
proof (intro conjI impI)
  assume "getPrayerRequests h api churchId p = Inr (rs, n)"
  then obtain k payload where k: "spiritual_size p = Inr k"
    and read: "read_page prayer_texts ''requests'' (pp_page p \<noteq> JUndef) (normalizePrayerRequest h churchId None)
          pr_id k payload = Inr (rs, n)"
    by (auto simp: getPrayerRequests_def answer_simps)
  have "page_ok (\<lambda>r. prayer_ok h churchId r \<and> pr_memberId r = None) pr_id 50 rs n"
    using page_ok_mono [OF prayer.read_page_ok [OF read]] spiritual_size_bounds [OF k]
    by (simp add: if_text_def)
  then show "page_ok (\<lambda>r. prayer_ok h churchId r \<and> pr_memberId r = None \<and> (pr_isAnonymous r \<longrightarrow> pr_authorName r = None))
        pr_id 50 rs n"
    by (simp add: page_ok_def prayer_ok_def)
next
  assume created: "createPrayerRequest h api request churchId memberId = Inr r"
  then obtain d where m: "id_ok memberId" and n: "normalizePrayerRequest h churchId (Some memberId) d = Inr r"
    by (auto simp: createPrayerRequest_def answer_simps Let_def)
  have "memberId \<noteq> []" using m by (auto simp: valid_id_def safe_id_def)
  then show "pr_memberId r = Some memberId" "pr_churchId r = churchId" "pr_isAnonymous r \<Longrightarrow> pr_authorName r = None"
    using normalizePrayer_ok [OF n] normalizePrayer_member [OF n] by (simp_all add: if_text_def prayer_ok_def)
qed

text \<open>A created prayer request is the one submitted. What \<open>createPrayerRequest\<close> returns belongs
  to this church and this member and carries exactly the trimmed title, the trimmed description
  and the anonymity that were sent.\<close>

theorem created_prayer_is_submitted:
  assumes "createPrayerRequest h api request churchId memberId = Inr r"
  shows "prayer_ok h churchId r \<and> pr_memberId r = Some memberId
     \<and> pr_title r = trimmed (get request ''title'') \<and> pr_description r = trimmed (get request ''description'')
     \<and> get request ''isAnonymous'' = JBool (pr_isAnonymous r)"
proof -
  obtain d where m: "id_ok memberId" and n: "normalizePrayerRequest h churchId (Some memberId) d = Inr r"
    and eq: "pr_title r = trimmed (get request ''title'')" "pr_description r = trimmed (get request ''description'')"
      "JBool (pr_isAnonymous r) = get request ''isAnonymous''"
    using assms by (auto simp: createPrayerRequest_def answer_simps Let_def)
  have "memberId \<noteq> []" using m by (auto simp: valid_id_def safe_id_def)
  then show ?thesis
    using normalizePrayer_ok [OF n] normalizePrayer_member [OF n] eq by (simp add: if_text_def)
qed

text \<open>"no devotional today" is told apart from a failure. \<open>getTodayDevotional\<close> answers null
  exactly when the gateway answered 404 to a request with a usable church; any other failure,
  of the network or of the response, is thrown.\<close>

theorem no_devotional_means_404:
  "getTodayDevotional h api churchId = Inr None
     \<longleftrightarrow> id_ok churchId \<and> (\<exists>e. api_get api (js ''/spiritual/devotional/today'') [] = Inl e \<and> httpStatus e = Some 404)"
proof -
  have "httpStatus e \<noteq> Some 404"
    if "and_then (unwrapApiData d (throw m)) (normalizeDevotional h churchId) = Inl e" for d m e
    using that by (auto simp: res_simps unwrapApiData_def normalizeDevotional_def split: if_splits)
  then show ?thesis
    by (cases "api_get api (js ''/spiritual/devotional/today'') []")
      (auto simp: getTodayDevotional_def Let_def split: sum.splits if_splits)
qed

text \<open>The play button opens a secure link. It is enabled exactly when the sermon has an HTTPS
  link without credentials, the device is online and no other sermon is being opened; the link is
  the audio link when there is one.\<close>

theorem playback_opens_secure_link:
  "\<not> pb_disabled (sermonPlaybackAction h s offline openingId)
     \<longleftrightarrow> \<not> offline \<and> openingId = None
       \<and> (\<exists>u. pb_url (sermonPlaybackAction h s offline openingId) = Some u \<and> u \<noteq> [] \<and> secure_link h u
           \<and> (case safeSpiritualMediaUrl h (opt_val JStr (sm_audioUrl s)) of
                Some a \<Rightarrow> u = a
              | None \<Rightarrow> safeSpiritualMediaUrl h (opt_val JStr (sm_videoUrl s)) = Some u))"
  by (auto simp: sermonPlaybackAction_def Let_def if_text_def safeSpiritualMediaUrl_secure split: option.splits)

section \<open>Witnesses\<close>

definition secure_host :: host where
  "secure_host = \<lparr>dateParse = (\<lambda>_. Some 0),
     urlParse = (\<lambda>s. Some \<lparr>u_protocol = js ''https:'', u_hostname = js ''cdn'', u_port = [],
       u_username = [], u_password = [], u_pathname = s, u_search = [], u_hash = [],
       u_origin = js ''https://cdn'', u_href = js ''https://cdn/'' @ s\<rparr>),
     searchParams = (\<lambda>_. [])\<rparr>"

definition sample_sermon :: jsval where
  "sample_sermon = JObj [(''id'', JStr (js ''s1'')), (''churchId'', JStr (js ''c1'')),
     (''title'', JStr (js ''Grace'')), (''speaker'', JStr (js ''Ama'')), (''date'', JStr (js ''2026'')),
     (''duration'', JStr (js ''30m'')), (''audioUrl'', JStr (js ''a''))]"

definition sample_prayer :: "bool \<Rightarrow> jsval" where
  "sample_prayer anonymous = JObj [(''id'', JStr (js ''p1'')), (''churchId'', JStr (js ''c1'')),
     (''memberId'', JStr (js ''m1'')), (''title'', JStr (js ''Exam'')), (''description'', JStr (js ''Pray'')),
     (''isAnonymous'', JBool anonymous), (''createdAt'', JStr (js ''2026'')),
     (''authorName'', JStr (js ''Kofi''))]"

definition sermons_api :: api where
  "sermons_api _ = Inr (envelope (JObj [(''sermons'', JArr [sample_sermon]), (''total'', jint 4)]))"

definition prayers_api :: api where
  "prayers_api _ = Inr (envelope (JArr [sample_prayer True]))"

definition prayer_api :: api where
  "prayer_api _ = Inr (envelope (sample_prayer True))"

definition prayer_submission :: jsval where
  "prayer_submission = JObj [(''title'', JStr (js '' Exam '')), (''description'', JStr (js ''Pray'')),
     (''isAnonymous'', JBool True)]"

definition read_sermon :: Sermon where
  "read_sermon = \<lparr>sm_id = js ''s1'', sm_churchId = js ''c1'', sm_title = js ''Grace'',
     sm_speaker = js ''Ama'', sm_date = js ''2026'', sm_duration = js ''30m'',
     sm_audioUrl = Some (js ''https://cdn/a''), sm_videoUrl = None, sm_thumbnailUrl = None,
     sm_series = None, sm_description = None\<rparr>"

definition read_prayer :: "jsstring option \<Rightarrow> PrayerRequest" where
  "read_prayer m = \<lparr>pr_id = js ''p1'', pr_churchId = js ''c1'', pr_memberId = m, pr_title = js ''Exam'',
     pr_description = js ''Pray'', pr_isAnonymous = True, pr_prayerCount = 0, pr_createdAt = js ''2026'',
     pr_authorName = None\<rparr>"

theorem library_pages_are_own_witness:
  "getSermons secure_host sermons_api (js ''c1'') no_params JUndef = Inr ([read_sermon], 4)
     \<and> sermon_ok secure_host (js ''c1'') read_sermon"
proof -
  have run: "getSermons secure_host sermons_api (js ''c1'') no_params JUndef = Inr ([read_sermon], 4)"
    by code_simp
  then have "page_ok (sermon_ok secure_host (js ''c1'')) sm_id 50 [read_sermon] 4"
    by (rule library_pages_are_own [THEN conjunct2, rule_format])
  then show ?thesis using run by (simp add: page_ok_def)
qed

theorem prayer_authors_stay_private_witness:
  "getPrayerRequests secure_host prayers_api (js ''c1'') no_params = Inr ([read_prayer None], 1)
     \<and> pr_isAnonymous (read_prayer None) \<and> pr_authorName (read_prayer None) = None"
proof -
  have run: "getPrayerRequests secure_host prayers_api (js ''c1'') no_params = Inr ([read_prayer None], 1)"
    by code_simp
  have anonymous: "pr_isAnonymous (read_prayer None)" by (simp add: read_prayer_def)
  show ?thesis
    using run anonymous prayer_authors_stay_private [THEN conjunct1, rule_format, OF run] by (simp add: page_ok_def)
qed

theorem created_prayer_is_submitted_witness:
  "createPrayerRequest secure_host prayer_api prayer_submission (js ''c1'') (js ''m1'')
     = Inr (read_prayer (Some (js ''m1''))) \<and> pr_memberId (read_prayer (Some (js ''m1''))) = Some (js ''m1'')"
proof -
  have run: "createPrayerRequest secure_host prayer_api prayer_submission (js ''c1'') (js ''m1'')
     = Inr (read_prayer (Some (js ''m1'')))"
    by code_simp
  show ?thesis using run created_prayer_is_submitted [OF run] by simp
qed

end
