(* ===== verification/Social.thy ===== *)
theory Social
  imports Paging
begin

text \<open>
  The community feed: \<open>apps/mobile/src/services/social.service.ts\<close> and the decisions of its
  screens, \<open>screens/social/community-state.ts\<close>, \<open>community-mutation.ts\<close> and
  \<open>social-authoring-state.ts\<close>.
\<close>

section \<open>Wire values\<close>

datatype post_type = General | Testimony | PraiseReport

fun post_type_text :: "post_type \<Rightarrow> jsstring" where
  "post_type_text General = js ''general''"
| "post_type_text Testimony = js ''testimony''"
| "post_type_text PraiseReport = js ''praise_report''"

definition POST_TYPES :: "post_type list" where
  "POST_TYPES = [General, Testimony, PraiseReport]"

definition REPORT_REASONS :: "jsstring list" where
  "REPORT_REASONS = map js [''spam'', ''harassment'', ''misleading'', ''inappropriate'', ''privacy'']"

definition https_media :: "host \<Rightarrow> jsstring \<Rightarrow> bool" where
  "https_media h s \<longleftrightarrow> length s \<le> 2048 \<and> \<not> list_ex is_control s
     \<and> (case urlParse h s of
          None \<Rightarrow> False
        | Some u \<Rightarrow> u_protocol u = js ''https:'' \<and> u_username u = [] \<and> u_password u = [])"

definition safeMediaUrl :: "host \<Rightarrow> jsval \<Rightarrow> bool" where
  "safeMediaUrl h v = optional (\<lambda>w. is_string w \<and> https_media h (the_str w)) v"

record Post =
  po_id :: jsstring
  po_churchId :: jsstring
  po_content :: jsstring
  po_authorId :: jsstring
  po_authorName :: jsstring
  po_authorAvatar :: "jsstring option"
  po_imageUrl :: "jsstring option"
  po_type :: post_type
  po_likesCount :: int
  po_commentsCount :: int
  po_isLiked :: bool
  po_reactionStatusKnown :: bool
  po_createdAt :: jsstring

text \<open>\<open>v ? { key: v } : {}\<close>.\<close>

definition truthy_str :: "jsval \<Rightarrow> jsstring option" where
  "truthy_str v = (if truthy v then Some (the_str v) else None)"

definition post_type_of :: "jsval \<Rightarrow> post_type option" where
  "post_type_of post = enum_of post_type_text POST_TYPES (coalesce (get post ''type'') (JStr (js ''general'')))"

definition post_liked :: "jsval \<Rightarrow> jsval" where
  "post_liked post = coalesce (coalesce (get post ''isLikedByMe'') (get post ''isLiked'')) (JBool False)"

definition avatar :: "jsval \<Rightarrow> jsstring option" where
  "avatar item = truthy_str (coalesce (get item ''authorAvatarUrl'') (get item ''authorAvatar''))"

definition validPost :: "host \<Rightarrow> jsstring option \<Rightarrow> jsval \<Rightarrow> bool" where
  "validPost h expectedChurchId post \<longleftrightarrow>
     valid_id (get post ''id'') \<and> valid_id (get post ''churchId'')
     \<and> (expectedChurchId = None \<or> expectedChurchId = Some []
        \<or> get post ''churchId'' = JStr (the expectedChurchId))
     \<and> required_text (get post ''content'') 500 True
     \<and> valid_id (get post ''authorId'')
     \<and> required_text (get post ''authorName'') 120 False
     \<and> safeMediaUrl h (get post ''authorAvatar'') \<and> safeMediaUrl h (get post ''authorAvatarUrl'')
     \<and> safeMediaUrl h (get post ''imageUrl'')
     \<and> post_type_of post \<noteq> None
     \<and> safe_count (get post ''likesCount'') \<and> safe_count (get post ''commentsCount'')
     \<and> is_boolean (post_liked post) \<and> valid_date h (get post ''createdAt'')"

definition normalizePost :: "host \<Rightarrow> jsstring option \<Rightarrow> jsval \<Rightarrow> js_error + Post" where
  "normalizePost h expectedChurchId post =
     (if \<not> is_record post \<or> \<not> validPost h expectedChurchId post
      then Inl (throw ''The server returned an invalid community post.'')
      else Inr \<lparr>po_id = the_str (get post ''id''), po_churchId = the_str (get post ''churchId''),
            po_content = the_str (get post ''content''), po_authorId = the_str (get post ''authorId''),
            po_authorName = the_str (get post ''authorName''), po_authorAvatar = avatar post,
            po_imageUrl = truthy_str (get post ''imageUrl''), po_type = the (post_type_of post),
            po_likesCount = the_int (get post ''likesCount''),
            po_commentsCount = the_int (get post ''commentsCount''),
            po_isLiked = the_bool (post_liked post),
            po_reactionStatusKnown = (get post ''isLikedByMe'' \<noteq> JUndef \<or> get post ''isLiked'' \<noteq> JUndef),
            po_createdAt = the_str (get post ''createdAt'')\<rparr>)"

record Comment =
  co_id :: jsstring
  co_postId :: jsstring
  co_content :: jsstring
  co_authorId :: jsstring
  co_authorName :: jsstring
  co_authorAvatar :: "jsstring option"
  co_createdAt :: jsstring

definition validComment :: "host \<Rightarrow> jsstring \<Rightarrow> jsval \<Rightarrow> bool" where
  "validComment h expectedPostId comment \<longleftrightarrow>
     valid_id (get comment ''id'') \<and> get comment ''postId'' = JStr expectedPostId
     \<and> valid_id (get comment ''postId'')
     \<and> required_text (get comment ''content'') 500 True
     \<and> valid_id (get comment ''authorId'')
     \<and> required_text (get comment ''authorName'') 120 False
     \<and> safeMediaUrl h (get comment ''authorAvatar'') \<and> safeMediaUrl h (get comment ''authorAvatarUrl'')
     \<and> valid_date h (get comment ''createdAt'')"

definition normalizeComment :: "host \<Rightarrow> jsstring \<Rightarrow> jsval \<Rightarrow> js_error + Comment" where
  "normalizeComment h expectedPostId comment =
     (if \<not> is_record comment \<or> \<not> validComment h expectedPostId comment
      then Inl (throw ''The server returned an invalid comment.'')
      else Inr \<lparr>co_id = the_str (get comment ''id''), co_postId = the_str (get comment ''postId''),
            co_content = the_str (get comment ''content''), co_authorId = the_str (get comment ''authorId''),
            co_authorName = the_str (get comment ''authorName''), co_authorAvatar = avatar comment,
            co_createdAt = the_str (get comment ''createdAt'')\<rparr>)"

definition normalizeReaction :: "jsval \<Rightarrow> js_error + int option" where
  "normalizeReaction v =
     (let e = throw ''The server returned an invalid reaction count.'' in
      if nullish v then Inr None
      else if \<not> is_record v then Inl e
      else if get v ''likesCount'' = JUndef then Inr None
      else if \<not> safe_count (get v ''likesCount'') then Inl e
      else Inr (Some (the_int (get v ''likesCount''))))"

section \<open>The operations\<close>

abbreviation incomplete_member :: js_error where
  "incomplete_member \<equiv> throw ''The member identity is incomplete.''"

abbreviation invalid_post_reference :: js_error where
  "invalid_post_reference \<equiv> throw ''The community post reference is not valid.''"

definition community_size :: "page_params \<Rightarrow> js_error + int" where
  "community_size = requested_size (throw ''The requested community page is invalid.'')
     (throw ''The requested community page size is invalid.'') 100 100"

definition feed_texts :: page_texts where
  "feed_texts = \<lparr>pt_invalid = throw ''The server returned an invalid community feed.'',
     pt_many = throw ''The server returned too many community posts.'',
     pt_duplicate = throw ''The server returned duplicate community posts.'',
     pt_total = throw ''The server returned an invalid community total.''\<rparr>"

definition getFeed :: "host \<Rightarrow> api \<Rightarrow> jsstring \<Rightarrow> page_params \<Rightarrow> js_error + Post list \<times> int" where
  "getFeed h api churchId p =
     (if \<not> id_ok churchId then Inl incomplete_member
      else and_then (community_size p) (\<lambda>n.
        and_then (api_get api (js ''/social/feed'') (page_query p)) (\<lambda>data.
        and_then (unwrapApiData data (pt_invalid feed_texts)) (\<lambda>payload.
          read_page feed_texts ''posts'' False (normalizePost h (Some churchId)) po_id n payload))))"

abbreviation invalid_post :: js_error where
  "invalid_post \<equiv> throw ''The community post is invalid.''"

definition post_text :: "jsval \<Rightarrow> jsstring" where
  "post_text post = (if is_string (get post ''content'') then trim (the_str (get post ''content'')) else [])"

definition createPost :: "host \<Rightarrow> api \<Rightarrow> jsval \<Rightarrow> jsstring \<Rightarrow> jsstring \<Rightarrow> js_error + Post" where
  "createPost h api post churchId memberId =
     (let postType = enum_of post_type_text POST_TYPES (get post ''type'') in
      if \<not> is_object post then Inl invalid_post
      else if \<not> id_ok churchId \<or> \<not> id_ok memberId then Inl incomplete_member
      else if \<not> required_text (JStr (post_text post)) 500 True \<or> postType = None
        \<or> \<not> safeMediaUrl h (get post ''imageUrl'')
      then Inl invalid_post
      else and_then (api_post api (js ''/social/posts'')
          (JObj ([(''content'', JStr (post_text post)), (''type'', get post ''type'')]
            @ (if truthy (get post ''imageUrl'') then [(''imageUrl'', get post ''imageUrl'')] else [])))) (\<lambda>data.
        and_then (unwrapApiData data (throw ''The server returned an invalid community post.'')) (\<lambda>d.
        and_then (normalizePost h (Some churchId) d) (\<lambda>created.
          if po_authorId created \<noteq> memberId \<or> po_content created \<noteq> post_text post
            \<or> Some (po_type created) \<noteq> postType
          then Inl (throw ''The server returned an invalid community post.'') else Inr created))))"

definition post_path :: "jsstring \<Rightarrow> string \<Rightarrow> jsstring" where
  "post_path postId suffix = js ''/social/posts/'' @ path_segment postId @ js suffix"

definition reaction :: "js_error + jsval \<Rightarrow> js_error + int option" where
  "reaction response = and_then response (\<lambda>data.
     and_then (unwrapApiData data (throw ''The server returned an invalid reaction count.'')) normalizeReaction)"

definition likePost :: "api \<Rightarrow> jsstring \<Rightarrow> js_error + int option" where
  "likePost api postId =
     (if \<not> id_ok postId then Inl invalid_post_reference
      else reaction (api_post api (post_path postId ''/like'') JUndef))"

definition unlikePost :: "api \<Rightarrow> jsstring \<Rightarrow> js_error + int option" where
  "unlikePost api postId =
     (if \<not> id_ok postId then Inl invalid_post_reference
      else reaction (api_delete api (post_path postId ''/like'')))"

definition comment_texts :: page_texts where
  "comment_texts = \<lparr>pt_invalid = throw ''The server returned invalid comments.'',
     pt_many = throw ''The server returned too many comments.'',
     pt_duplicate = throw ''The server returned duplicate comments.'',
     pt_total = throw ''The server returned an invalid comment total.''\<rparr>"

definition getComments :: "host \<Rightarrow> api \<Rightarrow> jsstring \<Rightarrow> page_params \<Rightarrow> js_error + Comment list \<times> int" where
  "getComments h api postId p =
     (if \<not> id_ok postId then Inl invalid_post_reference
      else and_then (community_size p) (\<lambda>n.
        and_then (api_get api (post_path postId ''/comments'') (page_query p)) (\<lambda>data.
        and_then (unwrapApiData data (pt_invalid comment_texts)) (\<lambda>payload.
          read_page comment_texts ''comments'' False (normalizeComment h postId) co_id n payload))))"

definition addComment :: "host \<Rightarrow> api \<Rightarrow> jsstring \<Rightarrow> jsstring \<Rightarrow> jsstring \<Rightarrow> js_error + Comment" where
  "addComment h api postId content memberId =
     (if \<not> id_ok postId then Inl invalid_post_reference
      else if \<not> id_ok memberId then Inl incomplete_member
      else if \<not> required_text (JStr (trim content)) 500 True then Inl (throw ''The comment is invalid.'')
      else and_then (api_post api (post_path postId ''/comments'') (JObj [(''content'', JStr (trim content))])) (\<lambda>data.
        and_then (unwrapApiData data (throw ''The server returned an invalid comment.'')) (\<lambda>d.
        and_then (normalizeComment h postId d) (\<lambda>created.
          if co_authorId created \<noteq> memberId \<or> co_content created \<noteq> trim content
          then Inl (throw ''The server returned an invalid comment.'') else Inr created))))"

definition acknowledged :: "js_error \<Rightarrow> (jsval \<Rightarrow> bool) \<Rightarrow> js_error + jsval \<Rightarrow> js_error + unit" where
  "acknowledged e confirms response =
     and_then response (\<lambda>data. and_then (unwrapApiData data e) (\<lambda>a.
       ensure (is_record a \<and> confirms a) e))"

definition reportPost :: "api \<Rightarrow> jsstring \<Rightarrow> jsval \<Rightarrow> js_error + unit" where
  "reportPost api postId reason =
     (if \<not> id_ok postId then Inl invalid_post_reference
      else if \<not> (is_string reason \<and> the_str reason \<in> set REPORT_REASONS)
      then Inl (throw ''Choose a valid reason for this report.'')
      else acknowledged (throw ''The server did not confirm this report.'')
        (\<lambda>a. get a ''reported'' = JBool True \<and> valid_id (get a ''reportId''))
        (api_post api (post_path postId ''/report'') (JObj [(''reason'', reason), (''detail'', JStr [])])))"

definition confirms_deletion :: "jsval \<Rightarrow> bool" where
  "confirms_deletion a \<longleftrightarrow> get a ''deleted'' = JBool True"

definition deleteComment :: "api \<Rightarrow> jsstring \<Rightarrow> jsstring \<Rightarrow> js_error + unit" where
  "deleteComment api postId commentId =
     (if \<not> id_ok postId \<or> \<not> id_ok commentId
      then Inl (throw ''The community comment reference is not valid.'')
      else acknowledged (throw ''The server did not confirm this comment was deleted.'') confirms_deletion
        (api_delete api (post_path postId ''/comments/'' @ path_segment commentId)))"

definition deletePost :: "api \<Rightarrow> jsstring \<Rightarrow> js_error + unit" where
  "deletePost api postId =
     (if \<not> id_ok postId then Inl invalid_post_reference
      else acknowledged (throw ''The server did not confirm this post was deleted.'') confirms_deletion
        (api_delete api (post_path postId [])))"

section \<open>What the screens decide\<close>

datatype surface = Feed | Comments

definition communityPartialRecoveryAction :: "bool \<Rightarrow> surface \<Rightarrow> jsstring \<times> jsstring \<times> bool" where
  "communityPartialRecoveryAction offline surface =
     (if offline then
        (js ''Reconnect to refresh'',
         (if surface = Feed then js ''Reconnect to refresh the community feed.''
          else js ''Reconnect to refresh this comment thread.''), True)
      else if surface = Feed then
        (js ''Refresh community'',
         js ''Refreshes community posts and reaction status from the newest page.'', False)
      else
        (js ''Refresh thread'',
         js ''Refreshes comments and mutation status from the first page.'', False))"

definition communityFeedBelongsToIdentity :: "screen_owner option \<Rightarrow> screen_owner \<Rightarrow> bool" where
  "communityFeedBelongsToIdentity = belongs_to_identity"

definition nextCommunityPage :: "jsval \<Rightarrow> jsval \<Rightarrow> jsval \<Rightarrow> bool \<Rightarrow> int option" where
  "nextCommunityPage loadedPage visibleCount tot unavailable =
     (if unavailable \<or> \<not> isSafeInteger loadedPage \<or> the_int loadedPage < 1
        \<or> \<not> isSafeInteger visibleCount \<or> the_int visibleCount < 0
        \<or> \<not> isSafeInteger tot \<or> the_int tot < 0 \<or> the_int tot \<le> the_int visibleCount
      then None else Some (the_int loadedPage + 1))"

datatype authoring = AuthorPost | AuthorComment

record authoring_action =
  aa_recover :: bool
  aa_label :: jsstring
  aa_disabled :: bool
  aa_hint :: "jsstring option"

definition socialAuthoringActionState ::
    "authoring \<Rightarrow> jsstring \<Rightarrow> bool \<Rightarrow> bool \<Rightarrow> bool \<Rightarrow> bool \<Rightarrow> authoring_action" where
  "socialAuthoringActionState kind content offline busy outcomeUnknown targetReady =
     (let post = (kind = AuthorPost); hasContent = (trim content \<noteq> []);
          recoveryDisabled = (\<not> post \<and> (offline \<or> busy))
      in \<lparr>aa_recover = outcomeUnknown,
          aa_label = (if outcomeUnknown then
              (if post then js ''Return to community and refresh''
               else if busy then js ''Refreshing thread'' @ [0x2026]
               else if offline then js ''Reconnect to refresh thread'' else js ''Refresh thread to continue'')
            else if busy then
              (if post then js ''Sharing your post'' @ [0x2026] else js ''Sending your comment'' @ [0x2026])
            else if offline then
              (if post then js ''Reconnect to share your post'' else js ''Reconnect to send your comment'')
            else if \<not> targetReady then
              (if post then js ''Sign in again to post'' else js ''Load thread to comment'')
            else if \<not> hasContent then
              (if post then js ''Write something to share'' else js ''Write a comment'')
            else if post then js ''Post'' else js ''Send''),
          aa_disabled = (if outcomeUnknown then recoveryDisabled
            else offline \<or> busy \<or> \<not> targetReady \<or> \<not> hasContent),
          aa_hint = (if outcomeUnknown then
              (if post then Some (js ''Returns to the community feed so you can refresh before posting again.'')
               else if offline then Some (js ''Reconnect to refresh this thread before sending again.'')
               else Some (js ''Refreshes the thread to confirm whether your comment was shared.''))
            else if offline then
              (if post then Some (js ''Reconnect to share this post.'')
               else Some (js ''Reconnect to share this comment.''))
            else if \<not> targetReady then
              (if post then Some (js ''Your member session is incomplete. Sign in again.'')
               else Some (js ''Load this comment thread before sharing a response.''))
            else if \<not> hasContent then
              (if post then Some (js ''Write a post before sharing it.'')
               else Some (js ''Write a comment before sending it.''))
            else None)\<rparr>)"

datatype mutation_kind = MPost | MComment | MReaction | MReport | MDelete | MDeleteComment

record failure_copy =
  fc_outcomeUnknown :: bool
  fc_title :: jsstring
  fc_message :: jsstring

fun unknown_outcome :: "mutation_kind \<Rightarrow> jsstring \<times> jsstring" where
  "unknown_outcome MPost = (js ''Post status unknown'',
     js ''We could not confirm whether your post was shared. Return to the community feed and refresh before posting it again.'')"
| "unknown_outcome MComment = (js ''Comment status unknown'',
     js ''We could not confirm whether your comment was shared. Refresh this thread before sending it again.'')"
| "unknown_outcome MReport = (js ''Report status unknown'',
     js ''We could not confirm whether moderators received this report. Avoid sending it repeatedly; your church team may already have it.'')"
| "unknown_outcome MDelete = (js ''Deletion status unknown'',
     js ''We could not confirm whether your post was deleted. Refresh the community feed before trying to remove it again.'')"
| "unknown_outcome MDeleteComment = (js ''Deletion status unknown'',
     js ''We could not confirm whether your comment was deleted. Refresh this thread before trying to remove it again.'')"
| "unknown_outcome MReaction = (js ''Reaction status unknown'',
     js ''We could not confirm your reaction. Refresh the community feed before changing it again.'')"

fun known_failure :: "mutation_kind \<Rightarrow> js_error \<Rightarrow> jsstring \<times> jsstring" where
  "known_failure MPost e = (js ''Post not shared'', apiErrorMessage e (js ''Check your connection and try again.''))"
| "known_failure MComment e = (js ''Comment not shared'', apiErrorMessage e (js ''Check your connection and try again.''))"
| "known_failure MReport e = (js ''Report not sent'', apiErrorMessage e (js ''We could not send this report. Try again.''))"
| "known_failure MDelete e = (js ''Post not deleted'', apiErrorMessage e (js ''We could not delete this post. Try again.''))"
| "known_failure MDeleteComment e = (js ''Comment not deleted'', apiErrorMessage e (js ''We could not delete this comment. Try again.''))"
| "known_failure MReaction e = (js ''Reaction not saved'', js ''Your reaction was not saved. Try again.'')"

definition communityMutationFailure :: "mutation_kind \<Rightarrow> js_error \<Rightarrow> failure_copy" where
  "communityMutationFailure kind e =
     (let (title, message) = (if isAmbiguousMutationFailure e then unknown_outcome kind else known_failure kind e)
      in \<lparr>fc_outcomeUnknown = isAmbiguousMutationFailure e, fc_title = title, fc_message = message\<rparr>)"

section \<open>Lemmas\<close>

definition post_ok :: "host \<Rightarrow> jsstring \<Rightarrow> Post \<Rightarrow> bool" where
  "post_ok h churchId p \<longleftrightarrow> id_ok (po_id p) \<and> po_churchId p = churchId
     \<and> required_text (JStr (po_content p)) 500 True \<and> id_ok (po_authorId p)
     \<and> required_text (JStr (po_authorName p)) 120 False
     \<and> (\<forall>u. po_authorAvatar p = Some u \<or> po_imageUrl p = Some u \<longrightarrow> https_media h u)
     \<and> 0 \<le> po_likesCount p \<and> 0 \<le> po_commentsCount p
     \<and> (po_isLiked p \<longrightarrow> po_reactionStatusKnown p) \<and> valid_date h (JStr (po_createdAt p))"

definition comment_ok :: "host \<Rightarrow> jsstring \<Rightarrow> Comment \<Rightarrow> bool" where
  "comment_ok h postId c \<longleftrightarrow> id_ok (co_id c) \<and> co_postId c = postId
     \<and> required_text (JStr (co_content c)) 500 True \<and> id_ok (co_authorId c)
     \<and> required_text (JStr (co_authorName c)) 120 False
     \<and> (\<forall>u. co_authorAvatar c = Some u \<longrightarrow> https_media h u) \<and> valid_date h (JStr (co_createdAt c))"

lemma truthy_media:
  assumes "safeMediaUrl h v" and "truthy_str v = Some u"
  shows "https_media h u"
  using assms by (auto simp: safeMediaUrl_def truthy_str_def optional_def split: if_splits)

lemma avatar_media:
  assumes "safeMediaUrl h (get item ''authorAvatar'')" and "safeMediaUrl h (get item ''authorAvatarUrl'')"
    and "avatar item = Some u"
  shows "https_media h u"
  using assms truthy_media
  by (cases "nullish (get item ''authorAvatarUrl'')") (simp_all add: avatar_def coalesce_def)

lemma normalizePost_ok:
  assumes "normalizePost h (Some churchId) v = Inr p" and "churchId \<noteq> []"
  shows "post_ok h churchId p"
proof -
  have valid: "validPost h (Some churchId) v"
    and p: "p = \<lparr>po_id = the_str (get v ''id''), po_churchId = the_str (get v ''churchId''),
            po_content = the_str (get v ''content''), po_authorId = the_str (get v ''authorId''),
            po_authorName = the_str (get v ''authorName''), po_authorAvatar = avatar v,
            po_imageUrl = truthy_str (get v ''imageUrl''), po_type = the (post_type_of v),
            po_likesCount = the_int (get v ''likesCount''),
            po_commentsCount = the_int (get v ''commentsCount''),
            po_isLiked = the_bool (post_liked v),
            po_reactionStatusKnown = (get v ''isLikedByMe'' \<noteq> JUndef \<or> get v ''isLiked'' \<noteq> JUndef),
            po_createdAt = the_str (get v ''createdAt'')\<rparr>"
    using assms(1) by (simp_all add: normalizePost_def split: if_splits)
  have liked: "the_bool (post_liked v) \<longrightarrow> get v ''isLikedByMe'' \<noteq> JUndef \<or> get v ''isLiked'' \<noteq> JUndef"
    by (auto simp: post_liked_def)
  have media: "\<forall>u. avatar v = Some u \<or> truthy_str (get v ''imageUrl'') = Some u \<longrightarrow> https_media h u"
    using valid avatar_media truthy_media unfolding validPost_def by blast
  have counts: "0 \<le> the_int (get v ''likesCount'')" "0 \<le> the_int (get v ''commentsCount'')"
    using valid by (simp_all add: validPost_def safe_count_def)
  show ?thesis
    unfolding p post_ok_def
    using valid [unfolded validPost_def] liked media counts assms(2) accepted
    by (intro conjI) (simp_all only: Post.simps, auto)
qed

lemma normalizeComment_ok: "normalizeComment h postId v = Inr c \<Longrightarrow> comment_ok h postId c"
  by (auto simp: normalizeComment_def validComment_def comment_ok_def accepted avatar_media split: if_splits)

interpretation community_post: page_reader "normalizePost h (Some (c # cs))" "post_ok h (c # cs)" po_id
  for h c cs
  by unfold_locales (rule normalizePost_ok, simp_all add: post_ok_def)

interpretation community_comment: page_reader "normalizeComment h postId" "comment_ok h postId" co_id
  for h postId
  by unfold_locales (simp_all add: normalizeComment_ok, simp add: comment_ok_def)

lemma community_size_bounds: "community_size p = Inr n \<Longrightarrow> 1 \<le> n \<and> n \<le> 100"
  unfolding community_size_def by (erule requested_size_bounds) simp_all

lemma failure_fallbacks:
  "list_all (\<lambda>m. safe_copy (js m)) [''Check your connection and try again.'',
     ''We could not send this report. Try again.'', ''We could not delete this post. Try again.'',
     ''We could not delete this comment. Try again.'', ''Your reaction was not saved. Try again.'']"
  by code_simp

section \<open>Properties\<close>

text \<open>The feed is the church's own and a thread is the post's own. A page of posts holds only
  well-formed posts of the church asked for, a page of comments only comments on the post asked
  for; both have distinct identifiers, at most a hundred entries and no more than the announced
  total, and show a reaction as given only when the gateway said so.\<close>

theorem feed_and_thread_are_own:
  "(getFeed h api churchId p = Inr (ps, n) \<longrightarrow> page_ok (post_ok h churchId) po_id 100 ps n)
   \<and> (getComments h api postId p = Inr (cs, m) \<longrightarrow> page_ok (comment_ok h postId) co_id 100 cs m)"
proof (intro conjI impI)
  assume "getFeed h api churchId p = Inr (ps, n)"
  then obtain k payload where church: "id_ok churchId" and "community_size p = Inr k"
    and read: "read_page feed_texts ''posts'' False (normalizePost h (Some churchId)) po_id k payload = Inr (ps, n)"
    by (auto simp: getFeed_def answer_simps)
  moreover obtain a as where "churchId = a # as"
    using church by (cases churchId) (auto simp: valid_id_def safe_id_def)
  ultimately show "page_ok (post_ok h churchId) po_id 100 ps n"
    by (metis community_post.read_page_ok page_ok_mono community_size_bounds)
next
  assume "getComments h api postId p = Inr (cs, m)"
  then obtain k payload where "community_size p = Inr k"
    and "read_page comment_texts ''comments'' False (normalizeComment h postId) co_id k payload = Inr (cs, m)"
    by (auto simp: getComments_def answer_simps)
  then show "page_ok (comment_ok h postId) co_id 100 cs m"
    by (metis community_comment.read_page_ok page_ok_mono community_size_bounds)
qed

text \<open>What a member published is what they wrote. A post that \<open>createPost\<close> returns is of this
  church, authored by this member, with exactly the trimmed text and the type that were sent; a
  comment that \<open>addComment\<close> returns is on this post, by this member, with exactly the trimmed
  text.\<close>

theorem published_is_submitted:
  "(createPost h api post churchId memberId = Inr p
      \<longrightarrow> post_ok h churchId p \<and> po_authorId p = memberId \<and> po_content p = post_text post
        \<and> get post ''type'' = JStr (post_type_text (po_type p)))
   \<and> (addComment h api postId content memberId = Inr c
      \<longrightarrow> comment_ok h postId c \<and> co_authorId c = memberId \<and> co_content c = trim content)"
proof (intro conjI impI; (elim conjE)?)
  assume run: "createPost h api post churchId memberId = Inr p"
  then obtain d where church: "id_ok churchId" and n: "normalizePost h (Some churchId) d = Inr p"
    and author: "po_authorId p = memberId" and words: "po_content p = post_text post"
    and t: "enum_of post_type_text POST_TYPES (get post ''type'') = Some (po_type p)"
    by (auto simp: createPost_def answer_simps Let_def)
  have "churchId \<noteq> []" using church by (auto simp: valid_id_def safe_id_def)
  then show "post_ok h churchId p" using n by (rule normalizePost_ok [rotated])
  show "po_authorId p = memberId" by (rule author)
  show "po_content p = post_text post" by (rule words)
  show "get post ''type'' = JStr (post_type_text (po_type p))" using enum_of_Some [OF t] by simp
next
  assume "addComment h api postId content memberId = Inr c"
  then show "comment_ok h postId c" "co_authorId c = memberId" "co_content c = trim content"
    by (auto simp: addComment_def answer_simps normalizeComment_ok)
qed

text \<open>The failure shown after a community mutation says what is known. It claims an unknown
  outcome exactly when no response arrived, and for every error its message is copy that may be
  shown: not empty, trimmed, bounded and without control characters.\<close>

theorem mutation_failure_copy:
  "(fc_outcomeUnknown (communityMutationFailure kind e) \<longleftrightarrow> e = AxiosError None)
   \<and> safe_copy (fc_message (communityMutationFailure kind e))"
proof
  show "fc_outcomeUnknown (communityMutationFailure kind e) \<longleftrightarrow> e = AxiosError None"
    by (cases e rule: isAmbiguousMutationFailure.cases) (simp_all add: communityMutationFailure_def Let_def split_beta)
  have "list_all (\<lambda>k. safe_copy (snd (unknown_outcome k)))
      [MPost, MComment, MReaction, MReport, MDelete, MDeleteComment]"
    by code_simp
  then have "safe_copy (snd (unknown_outcome kind))" by (cases kind) simp_all
  moreover have "safe_copy (snd (known_failure kind e))"
    using failure_fallbacks apiErrorMessage_cases [of e] by (cases kind) (simp_all, metis+)
  ultimately show "safe_copy (fc_message (communityMutationFailure kind e))"
    by (simp add: communityMutationFailure_def Let_def split_beta)
qed

section \<open>Witnesses\<close>

definition media_host :: host where
  "media_host = \<lparr>dateParse = (\<lambda>_. Some 0), urlParse = (\<lambda>_. None), searchParams = (\<lambda>_. [])\<rparr>"

definition sample_post :: jsval where
  "sample_post = JObj [(''id'', JStr (js ''p1'')), (''churchId'', JStr (js ''c1'')),
     (''content'', JStr (js ''Praise'')), (''authorId'', JStr (js ''m1'')), (''authorName'', JStr (js ''Esi'')),
     (''type'', JStr (js ''testimony'')), (''likesCount'', jint 2), (''commentsCount'', jint 0),
     (''createdAt'', JStr (js ''2026''))]"

definition feed_api :: api where
  "feed_api _ = Inr (envelope (JObj [(''posts'', JArr [sample_post]), (''total'', jint 9)]))"

definition post_api :: api where
  "post_api _ = Inr (envelope sample_post)"

definition read_post :: Post where
  "read_post = \<lparr>po_id = js ''p1'', po_churchId = js ''c1'', po_content = js ''Praise'', po_authorId = js ''m1'',
     po_authorName = js ''Esi'', po_authorAvatar = None, po_imageUrl = None, po_type = Testimony,
     po_likesCount = 2, po_commentsCount = 0, po_isLiked = False, po_reactionStatusKnown = False,
     po_createdAt = js ''2026''\<rparr>"

definition post_submission :: jsval where
  "post_submission = JObj [(''content'', JStr (js '' Praise '')), (''type'', JStr (js ''testimony''))]"

theorem feed_and_thread_are_own_witness:
  "getFeed media_host feed_api (js ''c1'') no_params = Inr ([read_post], 9) \<and> post_ok media_host (js ''c1'') read_post"
proof -
  have run: "getFeed media_host feed_api (js ''c1'') no_params = Inr ([read_post], 9)" by code_simp
  then have "page_ok (post_ok media_host (js ''c1'')) po_id 100 [read_post] 9"
    by (rule feed_and_thread_are_own [THEN conjunct1, rule_format])
  then show ?thesis using run by (simp add: page_ok_def)
qed

theorem published_is_submitted_witness:
  "createPost media_host post_api post_submission (js ''c1'') (js ''m1'') = Inr read_post
     \<and> po_content read_post = js ''Praise'' \<and> po_authorId read_post = js ''m1''"
proof -
  have run: "createPost media_host post_api post_submission (js ''c1'') (js ''m1'') = Inr read_post" by code_simp
  have words: "post_text post_submission = js ''Praise''" by code_simp
  show ?thesis using run words published_is_submitted [THEN conjunct1, rule_format, OF run] by simp
qed

end
