(* ===== verification/Welfare.thy ===== *)
theory Welfare
  imports Paging
begin

text \<open>
  Welfare requests and the emergency alert: \<open>apps/mobile/src/services/welfare.service.ts\<close> and
  \<open>screens/welfare/welfare-state.ts\<close>, with the confirmation gate of the alert as a state machine.
\<close>

section \<open>Wire values\<close>

datatype welfare_category = Financial | Medical | Food | Housing | Counseling | OtherCare

fun category_text :: "welfare_category \<Rightarrow> jsstring" where
  "category_text Financial = js ''financial''"
| "category_text Medical = js ''medical''"
| "category_text Food = js ''food''"
| "category_text Housing = js ''housing''"
| "category_text Counseling = js ''counseling''"
| "category_text OtherCare = js ''other''"

definition CATEGORIES :: "welfare_category list" where
  "CATEGORIES = [Financial, Medical, Food, Housing, Counseling, OtherCare]"

datatype welfare_urgency = Low | Medium | High | Critical

fun urgency_text :: "welfare_urgency \<Rightarrow> jsstring" where
  "urgency_text Low = js ''low''"
| "urgency_text Medium = js ''medium''"
| "urgency_text High = js ''high''"
| "urgency_text Critical = js ''critical''"

definition URGENCIES :: "welfare_urgency list" where
  "URGENCIES = [Low, Medium, High, Critical]"

datatype welfare_status = Pending | UnderReview | Approved | Fulfilled | Declined

fun status_text :: "welfare_status \<Rightarrow> jsstring" where
  "status_text Pending = js ''pending''"
| "status_text UnderReview = js ''under_review''"
| "status_text Approved = js ''approved''"
| "status_text Fulfilled = js ''fulfilled''"
| "status_text Declined = js ''declined''"

definition STATUSES :: "welfare_status list" where
  "STATUSES = [Pending, UnderReview, Approved, Fulfilled, Declined]"

definition validDescription :: "jsval \<Rightarrow> bool" where
  "validDescription v = required_text v 2000 True"

definition coordinate :: "jsval \<Rightarrow> rat \<Rightarrow> bool" where
  "coordinate v most = (case v of JNum (Fin q) \<Rightarrow> - most \<le> q \<and> q \<le> most | _ \<Rightarrow> False)"

definition validCoordinatePair :: "jsval \<Rightarrow> jsval \<Rightarrow> bool" where
  "validCoordinatePair latitude longitude \<longleftrightarrow>
     (latitude = JUndef \<and> longitude = JUndef) \<or> (coordinate latitude 90 \<and> coordinate longitude 180)"

record EmergencyAlertAcknowledgement =
  em_id :: jsstring
  em_churchId :: jsstring
  em_memberId :: jsstring
  em_title :: jsstring
  em_description :: jsstring
  em_position :: "(jsval \<times> jsval) option"
  em_createdAt :: jsstring

definition validEmergency :: "host \<Rightarrow> jsstring \<Rightarrow> jsstring \<Rightarrow> jsstring option \<Rightarrow> jsval \<Rightarrow> bool" where
  "validEmergency h churchId memberId expectedDescription alert \<longleftrightarrow>
     id_ok churchId \<and> id_ok memberId \<and> valid_id (get alert ''id'')
     \<and> get alert ''churchId'' = JStr churchId \<and> get alert ''memberId'' = JStr memberId
     \<and> validDescription (get alert ''title'') \<and> validDescription (get alert ''description'')
     \<and> (expectedDescription = None \<or> get alert ''description'' = JStr (the expectedDescription))
     \<and> get alert ''isActive'' = JBool True \<and> valid_date h (get alert ''createdAt'')
     \<and> validCoordinatePair (get alert ''latitude'') (get alert ''longitude'')"

text \<open>A valid pair has both coordinates or none.\<close>

definition normalizeEmergencyAcknowledgement ::
    "host \<Rightarrow> jsval \<Rightarrow> jsstring \<Rightarrow> jsstring \<Rightarrow> jsstring option \<Rightarrow> js_error + EmergencyAlertAcknowledgement" where
  "normalizeEmergencyAcknowledgement h v churchId memberId expectedDescription =
     (let e = throw ''The server did not acknowledge this urgent request.'' in
      and_then (unwrapApiData v e) (\<lambda>alert.
        if \<not> is_record alert \<or> \<not> validEmergency h churchId memberId expectedDescription alert then Inl e
        else Inr \<lparr>em_id = the_str (get alert ''id''), em_churchId = churchId, em_memberId = memberId,
              em_title = the_str (get alert ''title''), em_description = the_str (get alert ''description''),
              em_position = (if get alert ''latitude'' = JUndef then None
                else Some (get alert ''latitude'', get alert ''longitude'')),
              em_createdAt = the_str (get alert ''createdAt'')\<rparr>))"

record WelfareRequest =
  wr_id :: jsstring
  wr_churchId :: jsstring
  wr_memberId :: jsstring
  wr_category :: welfare_category
  wr_description :: jsstring
  wr_urgency :: welfare_urgency
  wr_isAnonymous :: bool
  wr_status :: welfare_status
  wr_createdAt :: jsstring

definition category_of :: "jsval \<Rightarrow> welfare_category option" where
  "category_of v = enum_of category_text CATEGORIES v"

definition urgency_of :: "jsval \<Rightarrow> welfare_urgency option" where
  "urgency_of v = enum_of urgency_text URGENCIES v"

definition status_of :: "jsval \<Rightarrow> welfare_status option" where
  "status_of v = enum_of status_text STATUSES v"

definition validWelfare :: "host \<Rightarrow> jsstring \<Rightarrow> jsstring \<Rightarrow> jsval \<Rightarrow> bool" where
  "validWelfare h churchId memberId r \<longleftrightarrow>
     id_ok churchId \<and> id_ok memberId \<and> valid_id (get r ''id'')
     \<and> get r ''churchId'' = JStr churchId \<and> get r ''memberId'' = JStr memberId
     \<and> category_of (get r ''category'') \<noteq> None \<and> validDescription (get r ''description'')
     \<and> urgency_of (get r ''urgency'') \<noteq> None \<and> is_boolean (get r ''isAnonymous'')
     \<and> status_of (get r ''status'') \<noteq> None \<and> valid_date h (get r ''createdAt'')"

definition welfare_from :: "jsval \<Rightarrow> WelfareRequest" where
  "welfare_from r = \<lparr>wr_id = the_str (get r ''id''), wr_churchId = the_str (get r ''churchId''),
     wr_memberId = the_str (get r ''memberId''), wr_category = the (category_of (get r ''category'')),
     wr_description = the_str (get r ''description''), wr_urgency = the (urgency_of (get r ''urgency'')),
     wr_isAnonymous = the_bool (get r ''isAnonymous''), wr_status = the (status_of (get r ''status'')),
     wr_createdAt = the_str (get r ''createdAt'')\<rparr>"

definition normalizeWelfareRequest :: "host \<Rightarrow> jsstring \<Rightarrow> jsstring \<Rightarrow> jsval \<Rightarrow> js_error + WelfareRequest" where
  "normalizeWelfareRequest h churchId memberId r =
     (if \<not> is_record r \<or> \<not> validWelfare h churchId memberId r
      then Inl (throw ''The server returned an invalid welfare request.'')
      else Inr (welfare_from r))"

section \<open>The operations\<close>

abbreviation invalid_identity :: js_error where
  "invalid_identity \<equiv> throw ''The member identity is invalid.''"

abbreviation invalid_history :: js_error where
  "invalid_history \<equiv> throw ''The server returned invalid welfare history.''"

definition distinct_requests :: "host \<Rightarrow> jsstring \<Rightarrow> jsstring \<Rightarrow> jsval list \<Rightarrow> js_error + WelfareRequest list" where
  "distinct_requests h churchId memberId vs =
     and_then (mapM (normalizeWelfareRequest h churchId memberId) vs) (\<lambda>rs.
       if \<not> distinct (map wr_id rs) then Inl (throw ''The server returned duplicate welfare requests.'')
       else Inr rs)"

definition listMinePage ::
    "host \<Rightarrow> api \<Rightarrow> jsstring \<Rightarrow> jsstring \<Rightarrow> jsval \<Rightarrow> jsval \<Rightarrow> js_error + WelfareRequest list \<times> int" where
  "listMinePage h api churchId memberId page limit =
     (if \<not> id_ok churchId \<or> \<not> id_ok memberId then Inl invalid_identity
      else if \<not> positive_upto None page \<or> \<not> positive_upto (Some 50) limit
      then Inl (throw ''The welfare history page is invalid.'')
      else and_then (api_get api (js ''/welfare/my-requests'') [(''page'', page), (''limit'', limit)]) (\<lambda>data.
        and_then (unwrapApiData data invalid_history) (\<lambda>payload.
          if \<not> is_record payload then Inl invalid_history
          else case get payload ''data'' of
              JArr vs \<Rightarrow>
                if the_int limit < int (length vs) \<or> \<not> isSafeInteger (get payload ''total'')
                  \<or> the_int (get payload ''total'') < int (length vs)
                then Inl invalid_history
                else and_then (distinct_requests h churchId memberId vs) (\<lambda>rs.
                  Inr (rs, the_int (get payload ''total'')))
            | _ \<Rightarrow> Inl invalid_history)))"

definition listMine :: "host \<Rightarrow> api \<Rightarrow> jsstring \<Rightarrow> jsstring \<Rightarrow> js_error + WelfareRequest list" where
  "listMine h api churchId memberId =
     (if \<not> id_ok churchId \<or> \<not> id_ok memberId then Inl invalid_identity
      else and_then (api_get api (js ''/welfare/my-requests'') []) (\<lambda>data.
        and_then (unwrapApiData data invalid_history) (\<lambda>history.
          case history of
            JArr vs \<Rightarrow>
              if 100 < length vs then Inl (throw ''The server returned too many welfare requests.'')
              else distinct_requests h churchId memberId vs
          | _ \<Rightarrow> Inl invalid_history)))"

definition care_text :: "jsval \<Rightarrow> jsstring" where
  "care_text payload =
     (if is_string (get payload ''description'') then trim (the_str (get payload ''description'')) else [])"

abbreviation invalid_request :: js_error where
  "invalid_request \<equiv> throw ''The welfare request is invalid.''"

definition createWelfare :: "host \<Rightarrow> api \<Rightarrow> jsval \<Rightarrow> jsstring \<Rightarrow> jsstring \<Rightarrow> js_error + WelfareRequest" where
  "createWelfare h api payload churchId memberId =
     (if \<not> id_ok churchId \<or> \<not> id_ok memberId then Inl invalid_identity
      else if \<not> is_record payload then Inl invalid_request
      else if category_of (get payload ''category'') = None \<or> \<not> validDescription (JStr (care_text payload))
        \<or> urgency_of (get payload ''urgency'') = None \<or> \<not> is_boolean (get payload ''isAnonymous'')
      then Inl invalid_request
      else and_then (api_post api (js ''/welfare/requests'')
          (JObj [(''category'', get payload ''category''), (''description'', JStr (care_text payload)),
            (''urgency'', get payload ''urgency''), (''isAnonymous'', get payload ''isAnonymous'')])) (\<lambda>data.
        and_then (unwrapApiData data (throw ''The server returned an invalid welfare request.'')) (\<lambda>d.
        and_then (normalizeWelfareRequest h churchId memberId d) (\<lambda>created.
          if Some (wr_category created) \<noteq> category_of (get payload ''category'')
            \<or> wr_description created \<noteq> care_text payload
            \<or> Some (wr_urgency created) \<noteq> urgency_of (get payload ''urgency'')
            \<or> JBool (wr_isAnonymous created) \<noteq> get payload ''isAnonymous''
            \<or> wr_status created \<noteq> Pending
          then Inl (throw ''The server returned a welfare request that did not match your submission.'')
          else Inr created))))"

text \<open>\<open>message?.trim() || undefined\<close>.\<close>

definition emergency_context :: "jsstring option \<Rightarrow> jsstring option" where
  "emergency_context message =
     (case message of None \<Rightarrow> None | Some m \<Rightarrow> if trim m = [] then None else Some (trim m))"

definition emergency ::
    "host \<Rightarrow> api \<Rightarrow> jsstring option \<Rightarrow> jsstring \<Rightarrow> jsstring \<Rightarrow> js_error + EmergencyAlertAcknowledgement" where
  "emergency h api message churchId memberId =
     (let normalizedMessage = emergency_context message in
      if \<not> id_ok churchId \<or> \<not> id_ok memberId then Inl invalid_identity
      else if \<not> optional validDescription (opt_val JStr normalizedMessage)
      then Inl (throw ''The emergency context is invalid.'')
      else and_then (api_post api (js ''/welfare/emergency-alert'')
          (JObj [(''message'', opt_val JStr normalizedMessage)])) (\<lambda>data.
        normalizeEmergencyAcknowledgement h data churchId memberId normalizedMessage))"

section \<open>What the screen decides\<close>

record form_state =
  fs_controlsDisabled :: bool
  fs_requestDisabled :: bool
  fs_emergencyDisabled :: bool

definition welfareFormActionState :: "bool \<Rightarrow> bool \<Rightarrow> bool \<Rightarrow> bool \<Rightarrow> form_state" where
  "welfareFormActionState offline submitting emergencySubmitting outcomeUnknown =
     (let mutationInFlight = (submitting \<or> emergencySubmitting)
      in \<lparr>fs_controlsDisabled = (mutationInFlight \<or> outcomeUnknown),
          fs_requestDisabled = (offline \<or> mutationInFlight),
          fs_emergencyDisabled = (offline \<or> mutationInFlight \<or> outcomeUnknown)\<rparr>)"

record request_action =
  ra_refresh :: bool
  ra_label :: jsstring
  ra_disabled :: bool
  ra_hint :: "jsstring option"

definition welfareRequestActionState :: "bool \<Rightarrow> bool \<Rightarrow> bool \<Rightarrow> request_action" where
  "welfareRequestActionState offline busy outcomeUnknown =
     \<lparr>ra_refresh = outcomeUnknown,
      ra_label = (if outcomeUnknown then
          (if offline then js ''Reconnect to confirm request'' else js ''Refresh care history'')
        else js ''Submit Request''),
      ra_disabled = (offline \<or> busy),
      ra_hint = (if outcomeUnknown then
          Some (if offline then js ''Reconnect to confirm whether your private request was recorded.''
            else js ''Refreshes your private care history before another request can be submitted.'')
        else None)\<rparr>"

definition welfareRefreshOwnsReconciliation :: "int \<Rightarrow> int \<Rightarrow> bool" where
  "welfareRefreshOwnsReconciliation startedRevision currentRevision \<longleftrightarrow> startedRevision = currentRevision"

definition welfareChoiceAccessibility :: "bool \<Rightarrow> bool \<Rightarrow> bool \<times> bool \<times> bool" where
  "welfareChoiceAccessibility selected disabled = (selected, selected, disabled)"

definition welfareStateBelongsToIdentity :: "screen_owner option \<Rightarrow> screen_owner \<Rightarrow> bool" where
  "welfareStateBelongsToIdentity = belongs_to_identity"

definition welfareMutationCompletionBelongsToIdentity :: "bool \<Rightarrow> screen_owner \<Rightarrow> jsstring \<Rightarrow> jsstring \<Rightarrow> bool" where
  "welfareMutationCompletionBelongsToIdentity = completion_belongs_to_identity"

datatype welfare_mutation = CareRequest | EmergencyAlert

definition welfareUnknownOutcomeCopy :: "welfare_mutation \<Rightarrow> jsstring \<times> jsstring" where
  "welfareUnknownOutcomeCopy kind =
     (if kind = EmergencyAlert
      then (js ''Alert status unknown'',
        js ''We could not confirm whether your urgent request reached the pastoral queue. Avoid sending it repeatedly. If you are in immediate danger, contact local emergency services now.'')
      else (js ''Request status unknown'',
        js ''We could not confirm whether your request was recorded. Refresh your care history before submitting it again.''))"

definition welfareMutationFailureAlert :: "welfare_mutation \<Rightarrow> js_error \<Rightarrow> bool \<times> jsstring \<times> jsstring" where
  "welfareMutationFailureAlert kind e =
     (if isAmbiguousMutationFailure e then (True, welfareUnknownOutcomeCopy kind)
      else if kind = EmergencyAlert
      then (False, js ''Alert not sent'', js ''Contact local emergency services now if you are in immediate danger.'')
      else (False, js ''Request not sent'', apiErrorMessage e (js ''Check your connection and try again.'')))"

section \<open>The confirmation gate\<close>

record gate =
  gt_version :: int
  gt_active :: bool

definition createEmergencyConfirmationGate :: gate where
  "createEmergencyConfirmationGate = \<lparr>gt_version = 0, gt_active = False\<rparr>"

definition gate_begin :: "gate \<Rightarrow> int \<times> gate" where
  "gate_begin g = (gt_version g + 1, \<lparr>gt_version = gt_version g + 1, gt_active = True\<rparr>)"

text \<open>\<open>consume\<close> and \<open>cancel\<close> are the same function.\<close>

definition gate_finish :: "int \<Rightarrow> gate \<Rightarrow> bool \<times> gate" where
  "gate_finish token g =
     (if \<not> gt_active g \<or> token \<noteq> gt_version g then (False, g) else (True, g\<lparr>gt_active := False\<rparr>))"

definition gate_invalidate :: "gate \<Rightarrow> gate" where
  "gate_invalidate g = \<lparr>gt_version = gt_version g + 1, gt_active = False\<rparr>"

text \<open>The lock is released exactly when the result is true.\<close>

definition expireEmergencyConfirmation :: "gate \<Rightarrow> bool \<times> gate" where
  "expireEmergencyConfirmation g = (if \<not> gt_active g then (False, g) else (True, gate_invalidate g))"

datatype gate_event = Opened int | Consumed int bool | Cancelled int bool | Invalidated | Expired bool

inductive gate_step :: "gate \<Rightarrow> gate_event \<Rightarrow> gate \<Rightarrow> bool" where
  opened: "gate_begin g = (t, g') \<Longrightarrow> gate_step g (Opened t) g'"
| consumed: "gate_finish t g = (b, g') \<Longrightarrow> gate_step g (Consumed t b) g'"
| cancelled: "gate_finish t g = (b, g') \<Longrightarrow> gate_step g (Cancelled t b) g'"
| invalidated: "gate_step g Invalidated (gate_invalidate g)"
| expired: "expireEmergencyConfirmation g = (b, g') \<Longrightarrow> gate_step g (Expired b) g'"

inductive gate_run :: "gate_event list \<Rightarrow> gate \<Rightarrow> bool" where
  start: "gate_run [] createEmergencyConfirmationGate"
| step: "gate_run es g \<Longrightarrow> gate_step g e g' \<Longrightarrow> gate_run (es @ [e]) g'"

inductive_cases gate_stepE [elim!]: "gate_step g e g'"

section \<open>Lemmas\<close>

lemma category_of_iff [simp]: "category_of v = Some c \<longleftrightarrow> v = JStr (category_text c)"
proof -
  have "inj category_text"
  proof (rule injI)
    show "a = b" if "category_text a = category_text b" for a b
      using that by (cases a; cases b) simp_all
  qed
  moreover have "set CATEGORIES = UNIV" by (auto simp: CATEGORIES_def intro: welfare_category.exhaust)
  ultimately show ?thesis unfolding category_of_def by (rule enum_of_iff)
qed

lemma urgency_of_iff [simp]: "urgency_of v = Some c \<longleftrightarrow> v = JStr (urgency_text c)"
proof -
  have "inj urgency_text"
  proof (rule injI)
    show "a = b" if "urgency_text a = urgency_text b" for a b
      using that by (cases a; cases b) simp_all
  qed
  moreover have "set URGENCIES = UNIV" by (auto simp: URGENCIES_def intro: welfare_urgency.exhaust)
  ultimately show ?thesis unfolding urgency_of_def by (rule enum_of_iff)
qed

lemma status_of_iff [simp]: "status_of v = Some c \<longleftrightarrow> v = JStr (status_text c)"
proof -
  have "inj status_text"
  proof (rule injI)
    show "a = b" if "status_text a = status_text b" for a b
      using that by (cases a; cases b) simp_all
  qed
  moreover have "set STATUSES = UNIV" by (auto simp: STATUSES_def intro: welfare_status.exhaust)
  ultimately show ?thesis unfolding status_of_def by (rule enum_of_iff)
qed

lemma of_text [simp]:
  "category_of (JStr (category_text c)) = Some c" "urgency_of (JStr (urgency_text u)) = Some u"
  "status_of (JStr (status_text t)) = Some t"
  by simp_all

definition welfare_ok :: "host \<Rightarrow> jsstring \<Rightarrow> jsstring \<Rightarrow> WelfareRequest \<Rightarrow> bool" where
  "welfare_ok h churchId memberId r \<longleftrightarrow> id_ok churchId \<and> id_ok memberId \<and> id_ok (wr_id r)
     \<and> wr_churchId r = churchId \<and> wr_memberId r = memberId
     \<and> validDescription (JStr (wr_description r)) \<and> valid_date h (JStr (wr_createdAt r))"

definition welfare_json :: "WelfareRequest \<Rightarrow> jsval" where
  "welfare_json r = JObj [(''id'', JStr (wr_id r)), (''churchId'', JStr (wr_churchId r)),
     (''memberId'', JStr (wr_memberId r)), (''category'', JStr (category_text (wr_category r))),
     (''description'', JStr (wr_description r)), (''urgency'', JStr (urgency_text (wr_urgency r))),
     (''isAnonymous'', JBool (wr_isAnonymous r)), (''status'', JStr (status_text (wr_status r))),
     (''createdAt'', JStr (wr_createdAt r))]"

lemma normalizeWelfare_ok:
  "normalizeWelfareRequest h churchId memberId v = Inr r \<Longrightarrow> welfare_ok h churchId memberId r"
  by (auto simp: normalizeWelfareRequest_def validWelfare_def welfare_ok_def welfare_from_def accepted
      validDescription_def split: if_splits)

lemma normalizeWelfare_json:
  assumes "welfare_ok h churchId memberId r"
  shows "normalizeWelfareRequest h churchId memberId (welfare_json r) = Inr r"
proof -
  have "validWelfare h churchId memberId (welfare_json r)"
    using assms by (simp add: validWelfare_def welfare_ok_def welfare_json_def)
  moreover have "welfare_from (welfare_json r) = r"
    by (simp add: welfare_from_def welfare_json_def)
  moreover have "is_record (welfare_json r)" by (simp add: welfare_json_def)
  ultimately show ?thesis by (simp add: normalizeWelfareRequest_def)
qed

interpretation welfare: canonical_normalizer "normalizeWelfareRequest h churchId memberId"
    "welfare_ok h churchId memberId" welfare_json
  for h churchId memberId
  by unfold_locales (simp_all add: normalizeWelfare_ok normalizeWelfare_json)

text \<open>The abstract gate: the token that may still be confirmed after a sequence of events.\<close>

fun pending_after :: "int option \<Rightarrow> gate_event \<Rightarrow> int option" where
  "pending_after p (Opened t) = Some t"
| "pending_after p (Consumed t b) = (if b then None else p)"
| "pending_after p (Cancelled t b) = (if b then None else p)"
| "pending_after p Invalidated = None"
| "pending_after p (Expired b) = (if b then None else p)"

definition pending :: "gate_event list \<Rightarrow> int option" where
  "pending es = foldl pending_after None es"

definition confirmations :: "int \<Rightarrow> gate_event list \<Rightarrow> nat" where
  "confirmations t es = length (filter (\<lambda>e. e = Consumed t True \<or> e = Cancelled t True) es)"

definition gate_token :: "gate \<Rightarrow> int option" where
  "gate_token g = (if gt_active g then Some (gt_version g) else None)"

lemma gate_refines:
  "gate_run es g \<Longrightarrow> pending es = gate_token g"
proof (induction rule: gate_run.induct)
  case start
  then show ?case by (simp add: pending_def gate_token_def createEmergencyConfirmationGate_def)
next
  case (step es g e g')
  have "pending (es @ [e]) = pending_after (gate_token g) e"
    using step.IH by (simp add: pending_def)
  also have "\<dots> = gate_token g'"
    using step.hyps(2)
    by (auto simp: gate_begin_def gate_finish_def gate_invalidate_def expireEmergencyConfirmation_def
        gate_token_def split: if_splits)
  finally show ?case .
qed

lemma gate_finish_token: "gate_finish t g = (b, g') \<Longrightarrow> b \<longleftrightarrow> gate_token g = Some t"
  by (auto simp: gate_finish_def gate_token_def split: if_splits)

lemma gate_counts:
  "gate_run es g \<Longrightarrow> confirmations t es + (if gate_token g = Some t then 1 else 0) \<le> count_list es (Opened t)
     \<and> count_list es (Opened t) \<le> (if t \<le> gt_version g then 1 else 0)"
proof (induction rule: gate_run.induct)
  case start
  then show ?case by (simp add: confirmations_def gate_token_def createEmergencyConfirmationGate_def)
next
  case (step es g e g')
  then show ?case
    by (auto simp: gate_begin_def gate_finish_def gate_invalidate_def expireEmergencyConfirmation_def
        gate_token_def confirmations_def split: if_splits)
qed

section \<open>Properties\<close>

text \<open>The care history is the member's own. Both history operations return only well-formed
  requests of this church and this member with distinct identifiers, within the limit asked for
  (a hundred without one); and the normalizer behind them accepts exactly these records, reading
  each back from its own encoding.\<close>

theorem care_history_is_own:
  "(listMinePage h api churchId memberId page limit = Inr (rs, n)
      \<longrightarrow> page_ok (welfare_ok h churchId memberId) wr_id (the_int limit) rs n \<and> the_int limit \<le> 50)
   \<and> (listMine h api churchId memberId = Inr qs
      \<longrightarrow> page_ok (welfare_ok h churchId memberId) wr_id 100 qs (int (length qs)))
   \<and> ((\<exists>v. normalizeWelfareRequest h churchId memberId v = Inr r) \<longleftrightarrow> welfare_ok h churchId memberId r)"
proof (intro conjI impI)
  assume "listMinePage h api churchId memberId page limit = Inr (rs, n)"
  then obtain vs where m: "mapM (normalizeWelfareRequest h churchId memberId) vs = Inr rs"
    and d: "distinct (map wr_id rs)" and len: "int (length vs) \<le> the_int limit" "int (length vs) \<le> n"
    and fifty: "the_int limit \<le> 50"
    by (auto simp: listMinePage_def distinct_requests_def positive_upto_def answer_simps not_less)
  show "page_ok (welfare_ok h churchId memberId) wr_id (the_int limit) rs n"
    using m d len by (rule welfare.page_okI)
  show "the_int limit \<le> 50" by (rule fifty)
next
  assume "listMine h api churchId memberId = Inr qs"
  then obtain vs where m: "mapM (normalizeWelfareRequest h churchId memberId) vs = Inr qs"
    and d: "distinct (map wr_id qs)" and len: "int (length vs) \<le> 100"
    by (auto simp: listMine_def distinct_requests_def answer_simps not_less)
  show "page_ok (welfare_ok h churchId memberId) wr_id 100 qs (int (length qs))"
    using mapM_Inr_length [OF m] by (intro welfare.page_okI [OF m d len]) simp
next
  show "(\<exists>v. normalizeWelfareRequest h churchId memberId v = Inr r) \<longleftrightarrow> welfare_ok h churchId memberId r"
    by (rule welfare.norm_range)
qed

text \<open>What the care team received is what was sent. A request that \<open>create\<close> returns belongs to
  this church and member, is pending and carries the submitted category, trimmed description,
  urgency and anonymity; an alert that \<open>emergency\<close> returns belongs to this church and member and
  carries the context that was given, and a position in it is a point on the globe.\<close>

theorem care_mutations_are_confirmed:
  "(createWelfare h api payload churchId memberId = Inr r
      \<longrightarrow> welfare_ok h churchId memberId r \<and> wr_status r = Pending
        \<and> get payload ''category'' = JStr (category_text (wr_category r))
        \<and> wr_description r = care_text payload
        \<and> get payload ''urgency'' = JStr (urgency_text (wr_urgency r))
        \<and> get payload ''isAnonymous'' = JBool (wr_isAnonymous r))
   \<and> (emergency h api message churchId memberId = Inr a
      \<longrightarrow> id_ok (em_id a) \<and> em_churchId a = churchId \<and> em_memberId a = memberId
        \<and> (emergency_context message = None \<or> emergency_context message = Some (em_description a))
        \<and> (case em_position a of None \<Rightarrow> True
            | Some (latitude, longitude) \<Rightarrow> coordinate latitude 90 \<and> coordinate longitude 180))"
proof
  show "createWelfare h api payload churchId memberId = Inr r
      \<longrightarrow> welfare_ok h churchId memberId r \<and> wr_status r = Pending
        \<and> get payload ''category'' = JStr (category_text (wr_category r))
        \<and> wr_description r = care_text payload
        \<and> get payload ''urgency'' = JStr (urgency_text (wr_urgency r))
        \<and> get payload ''isAnonymous'' = JBool (wr_isAnonymous r)"
  proof
    assume "createWelfare h api payload churchId memberId = Inr r"
    then obtain d where n: "normalizeWelfareRequest h churchId memberId d = Inr r"
      and eqs: "category_of (get payload ''category'') = Some (wr_category r)" "wr_description r = care_text payload"
        "urgency_of (get payload ''urgency'') = Some (wr_urgency r)"
        "JBool (wr_isAnonymous r) = get payload ''isAnonymous''" "wr_status r = Pending"
      by (auto simp del: category_of_iff urgency_of_iff simp: createWelfare_def answer_simps)
    then show "welfare_ok h churchId memberId r \<and> wr_status r = Pending
        \<and> get payload ''category'' = JStr (category_text (wr_category r))
        \<and> wr_description r = care_text payload
        \<and> get payload ''urgency'' = JStr (urgency_text (wr_urgency r))
        \<and> get payload ''isAnonymous'' = JBool (wr_isAnonymous r)"
      using normalizeWelfare_ok [OF n] by simp
  qed
  show "emergency h api message churchId memberId = Inr a
      \<longrightarrow> id_ok (em_id a) \<and> em_churchId a = churchId \<and> em_memberId a = memberId
        \<and> (emergency_context message = None \<or> emergency_context message = Some (em_description a))
        \<and> (case em_position a of None \<Rightarrow> True
            | Some (latitude, longitude) \<Rightarrow> coordinate latitude 90 \<and> coordinate longitude 180)"
    by (cases "emergency_context message") (auto simp: emergency_def Let_def answer_simps
        normalizeEmergencyAcknowledgement_def validEmergency_def validCoordinatePair_def accepted)
qed

text \<open>C22: an emergency prompt confirms at most one alert. In every sequence of calls on the gate
  each token is consumed or cancelled successfully at most once and only after it was handed out;
  and a confirmation succeeds exactly when its token is the one still pending, that is, no later
  prompt, invalidation, expiry or confirmation came between.\<close>

theorem emergency_confirmed_once:
  assumes "gate_run es g"
  shows "confirmations t es \<le> 1 \<and> confirmations t es \<le> count_list es (Opened t)
     \<and> (fst (gate_finish t g) \<longleftrightarrow> pending es = Some t)"
proof -
  have "confirmations t es \<le> count_list es (Opened t)" "count_list es (Opened t) \<le> 1"
    using gate_counts [OF assms, of t] by (auto split: if_splits)
  moreover have "fst (gate_finish t g) \<longleftrightarrow> pending es = Some t"
    using gate_refines [OF assms] gate_finish_token [of t g] by (metis prod.exhaust_sel)
  ultimately show ?thesis by simp
qed

section \<open>Witnesses\<close>

definition care_host :: host where
  "care_host = \<lparr>dateParse = (\<lambda>_. Some 0), urlParse = (\<lambda>_. None), searchParams = (\<lambda>_. [])\<rparr>"

definition sample_request :: WelfareRequest where
  "sample_request = \<lparr>wr_id = js ''w1'', wr_churchId = js ''c1'', wr_memberId = js ''m1'', wr_category = Food,
     wr_description = js ''Groceries'', wr_urgency = High, wr_isAnonymous = True, wr_status = Pending,
     wr_createdAt = js ''2026''\<rparr>"

definition care_page_api :: api where
  "care_page_api _ = Inr (envelope (JObj [(''data'', JArr [welfare_json sample_request]), (''total'', jint 1)]))"

definition care_api :: api where
  "care_api _ = Inr (envelope (welfare_json sample_request))"

theorem care_history_is_own_witness:
  "listMinePage care_host care_page_api (js ''c1'') (js ''m1'') (jint 1) (jint 25) = Inr ([sample_request], 1)
     \<and> welfare_ok care_host (js ''c1'') (js ''m1'') sample_request"
proof -
  have run: "listMinePage care_host care_page_api (js ''c1'') (js ''m1'') (jint 1) (jint 25)
      = Inr ([sample_request], 1)"
    by code_simp
  show ?thesis
    using run care_history_is_own [THEN conjunct1, rule_format, OF run] by (simp add: page_ok_def)
qed

theorem care_mutations_are_confirmed_witness:
  "createWelfare care_host care_api (welfare_json sample_request) (js ''c1'') (js ''m1'') = Inr sample_request
     \<and> wr_status sample_request = Pending"
proof -
  have run: "createWelfare care_host care_api (welfare_json sample_request) (js ''c1'') (js ''m1'')
      = Inr sample_request"
    by code_simp
  show ?thesis
    using run care_mutations_are_confirmed [THEN conjunct1, rule_format, OF run] by simp
qed

definition prompt_run :: "gate_event list" where
  "prompt_run = [Opened 1, Invalidated, Opened 3, Consumed 1 False, Consumed 3 True]"

lemma prompt_run: "gate_run prompt_run \<lparr>gt_version = 3, gt_active = False\<rparr>"
proof -
  have "gate_run ([] @ [Opened 1]) \<lparr>gt_version = 1, gt_active = True\<rparr>"
    by (rule gate_run.step [OF gate_run.start opened]) (simp add: gate_begin_def createEmergencyConfirmationGate_def)
  then have "gate_run (([] @ [Opened 1]) @ [Invalidated]) \<lparr>gt_version = 2, gt_active = False\<rparr>"
    by (rule gate_run.step) (use invalidated [of "\<lparr>gt_version = 1, gt_active = True\<rparr>"] in \<open>simp add: gate_invalidate_def\<close>)
  then have "gate_run ((([] @ [Opened 1]) @ [Invalidated]) @ [Opened 3]) \<lparr>gt_version = 3, gt_active = True\<rparr>"
    by (rule gate_run.step) (rule opened, simp add: gate_begin_def)
  then have "gate_run (((([] @ [Opened 1]) @ [Invalidated]) @ [Opened 3]) @ [Consumed 1 False])
      \<lparr>gt_version = 3, gt_active = True\<rparr>"
    by (rule gate_run.step) (rule consumed, simp add: gate_finish_def)
  then have "gate_run ((((([] @ [Opened 1]) @ [Invalidated]) @ [Opened 3]) @ [Consumed 1 False]) @ [Consumed 3 True])
      \<lparr>gt_version = 3, gt_active = False\<rparr>"
    by (rule gate_run.step) (rule consumed, simp add: gate_finish_def)
  then show ?thesis by (simp add: prompt_run_def)
qed

theorem emergency_confirmed_once_witness:
  "gate_run prompt_run \<lparr>gt_version = 3, gt_active = False\<rparr> \<and> confirmations 3 prompt_run = 1
     \<and> \<not> fst (gate_finish 3 \<lparr>gt_version = 3, gt_active = False\<rparr>)"
proof -
  have "confirmations 3 prompt_run = 1" and none: "pending prompt_run = None"
    by (simp_all add: prompt_run_def confirmations_def pending_def)
  then show ?thesis
    using prompt_run emergency_confirmed_once [OF prompt_run, of 3] by simp
qed

end
