(* ===== verification/SessionToken.thy ===== *)
theory SessionToken
  imports ApiBoundary
begin

text \<open>
  Session credentials (\<open>apps/mobile/src/services/session-token.ts\<close>) and the JSON texts the
  session store keeps.

  The store keeps flat objects of string properties only. For these, \<open>JSON.stringify\<close> and
  \<open>JSON.parse\<close> are written out here, escapes included; for every other value and text they
  are the two functions of the argument of type \<open>json\<close>. \<open>parse_stringify\<close> is the round
  trip, stated as the interface \<open>json_codec\<close> the session store relies on.
\<close>

section \<open>Opaque tokens\<close>

definition MAX_SESSION_TOKEN_LENGTH :: nat where
  "MAX_SESSION_TOKEN_LENGTH = 4096"

record SessionTokenPair =
  accessToken :: jsstring
  refreshToken :: jsstring

definition validOpaqueToken :: "jsval \<Rightarrow> bool" where
  "validOpaqueToken v \<longleftrightarrow> is_string v \<and> 0 < length (the_str v)
     \<and> length (the_str v) \<le> MAX_SESSION_TOKEN_LENGTH
     \<and> list_all (\<lambda>c. 0x21 \<le> c \<and> c \<le> 0x7E) (the_str v)"

abbreviation invalid_session :: js_error where
  "invalid_session \<equiv> throw ''The server returned an invalid session.''"

definition normalizeOpaqueSessionToken :: "jsval \<Rightarrow> js_error + jsstring" where
  "normalizeOpaqueSessionToken v =
     (if validOpaqueToken v then Inr (the_str v) else Inl invalid_session)"

definition normalizeSessionTokenPair :: "jsval \<Rightarrow> jsval \<Rightarrow> js_error + SessionTokenPair" where
  "normalizeSessionTokenPair access refresh =
     and_then (normalizeOpaqueSessionToken access) (\<lambda>a.
     and_then (normalizeOpaqueSessionToken refresh) (\<lambda>r.
       if a = r then Inl invalid_session
       else Inr \<lparr>accessToken = a, refreshToken = r\<rparr>))"

text \<open>What a pair in use satisfies: both halves are safe in an HTTP header and distinct.\<close>

definition token_ok :: "jsstring \<Rightarrow> bool" where
  "token_ok s \<longleftrightarrow> s \<noteq> [] \<and> length s \<le> 4096 \<and> (\<forall>c\<in>set s. 0x21 \<le> c \<and> c \<le> 0x7E)"

definition pair_ok :: "SessionTokenPair \<Rightarrow> bool" where
  "pair_ok t \<longleftrightarrow> token_ok (accessToken t) \<and> token_ok (refreshToken t)
     \<and> accessToken t \<noteq> refreshToken t"

definition pair_json :: "SessionTokenPair \<Rightarrow> jsval" where
  "pair_json t = JObj [(''accessToken'', JStr (accessToken t)), (''refreshToken'', JStr (refreshToken t))]"

text \<open>Reading a pair from an \<open>unknown\<close> object, as the session store and the refresh do.\<close>

definition pair_of :: "jsval \<Rightarrow> js_error + SessionTokenPair" where
  "pair_of v = normalizeSessionTokenPair (get v ''accessToken'') (get v ''refreshToken'')"

lemma normalizeOpaque_Inr: "normalizeOpaqueSessionToken v = Inr s \<longleftrightarrow> v = JStr s \<and> token_ok s"
  by (cases v) (auto simp: normalizeOpaqueSessionToken_def validOpaqueToken_def token_ok_def
      MAX_SESSION_TOKEN_LENGTH_def list_all_iff)

lemma normalizePair_Inr:
  "normalizeSessionTokenPair a r = Inr t \<longleftrightarrow>
     a = JStr (accessToken t) \<and> r = JStr (refreshToken t) \<and> pair_ok t"
  by (cases t) (auto simp: normalizeSessionTokenPair_def res_simps normalizeOpaque_Inr pair_ok_def)

lemma normalizePair_error: "normalizeSessionTokenPair a r = Inl e \<Longrightarrow> e = invalid_session"
  by (auto simp: normalizeSessionTokenPair_def res_simps normalizeOpaqueSessionToken_def
      split: if_splits)

lemma get_pair_json [simp]:
  "get (pair_json t) ''accessToken'' = JStr (accessToken t)"
  "get (pair_json t) ''refreshToken'' = JStr (refreshToken t)"
  by (simp_all add: pair_json_def)

interpretation token_pair: canonical_normalizer pair_of pair_ok pair_json
  by unfold_locales (auto simp: pair_of_def normalizePair_Inr)

section \<open>JSON texts of flat string objects\<close>

definition hex_unit :: "nat \<Rightarrow> nat" where
  "hex_unit n = (if n < 10 then 48 + n else 87 + n)"

definition hex_value :: "nat \<Rightarrow> nat option" where
  "hex_value c = (if is_digit c then Some (c - 48)
     else if 97 \<le> c \<and> c \<le> 102 then Some (c - 87)
     else if 65 \<le> c \<and> c \<le> 70 then Some (c - 55) else None)"

definition unicode_escape :: "nat \<Rightarrow> jsstring" where
  "unicode_escape c = [92, 117, hex_unit (c div 4096 mod 16), hex_unit (c div 256 mod 16),
     hex_unit (c div 16 mod 16), hex_unit (c mod 16)]"

text \<open>The escapes of \<open>JSON.stringify\<close>: quotes, backslashes, the short control escapes, the
  other controls and lone surrogates as \<open>\uXXXX\<close>.\<close>

definition json_escape :: "nat \<Rightarrow> jsstring" where
  "json_escape c =
     (if c = 34 then [92, 34] else if c = 92 then [92, 92]
      else if c = 8 then [92, 98] else if c = 12 then [92, 102] else if c = 10 then [92, 110]
      else if c = 13 then [92, 114] else if c = 9 then [92, 116]
      else if c < 32 \<or> is_high_surrogate c \<or> is_low_surrogate c then unicode_escape c
      else [c])"

fun json_quote :: "jsstring \<Rightarrow> jsstring" where
  "json_quote [] = []"
| "json_quote [c] = json_escape c"
| "json_quote (c # d # s) =
     (if is_high_surrogate c \<and> is_low_surrogate d then c # d # json_quote s
      else json_escape c @ json_quote (d # s))"

text \<open>Reads a string body up to its closing quote; the rest of the text is returned.\<close>

definition short_escape :: "nat \<Rightarrow> nat option" where
  "short_escape c = (if c = 34 then Some 34 else if c = 92 then Some 92 else if c = 47 then Some 47
     else if c = 98 then Some 8 else if c = 102 then Some 12 else if c = 110 then Some 10
     else if c = 114 then Some 13 else if c = 116 then Some 9 else None)"

fun json_unquote :: "jsstring \<Rightarrow> (jsstring \<times> jsstring) option" where
  "json_unquote [] = None"
| "json_unquote (c # s) =
     (if c = 34 then Some ([], s)
      else if c = 92 then
        (case s of
           [] \<Rightarrow> None
         | x # t \<Rightarrow>
             if x = 117 then
               (case t of
                  a # b # d # e # u \<Rightarrow>
                    (case (hex_value a, hex_value b, hex_value d, hex_value e) of
                       (Some a', Some b', Some d', Some e') \<Rightarrow>
                         map_option (apfst ((#) (a' * 4096 + b' * 256 + d' * 16 + e')))
                           (json_unquote u)
                     | _ \<Rightarrow> None)
                | _ \<Rightarrow> None)
             else
               (case short_escape x of
                  Some y \<Rightarrow> map_option (apfst ((#) y)) (json_unquote t)
                | None \<Rightarrow> None))
      else if c < 32 then None
      else map_option (apfst ((#) c)) (json_unquote s))"

lemma hex_value_unit: "n < 16 \<Longrightarrow> hex_value (hex_unit n) = Some n"
  by (auto simp: hex_value_def hex_unit_def is_digit_def)

lemma hex_digits:
  "c div 4096 * 4096 + c div 256 mod 16 * 256 + c div 16 mod 16 * 16 + c mod 16 = (c::nat)"
proof -
  have "c = c div 16 * 16 + c mod 16" by simp
  moreover have "c div 16 = c div 256 * 16 + c div 16 mod 16"
    using div_mult_mod_eq [of "c div 16" 16] by (simp add: div_mult2_eq [symmetric])
  moreover have "c div 256 = c div 4096 * 16 + c div 256 mod 16"
    using div_mult_mod_eq [of "c div 256" 16] by (simp add: div_mult2_eq [symmetric])
  ultimately show ?thesis by linarith
qed

lemma unquote_unicode:
  assumes "c < 65536"
  shows "json_unquote (unicode_escape c @ t) = map_option (apfst ((#) c)) (json_unquote t)"
proof -
  have "c div 4096 < 16" using assms by (simp add: less_mult_imp_div_less)
  then show ?thesis
    using hex_digits [of c] by (simp add: unicode_escape_def hex_value_unit)
qed

lemma unquote_escape:
  "json_unquote (json_escape c @ t) = map_option (apfst ((#) c)) (json_unquote t)"
proof -
  have "c < 65536" if "c < 32 \<or> is_high_surrogate c \<or> is_low_surrogate c"
    using that by (auto simp: is_high_surrogate_def is_low_surrogate_def)
  then show ?thesis
    using unquote_unicode [of c t]
    by (auto simp: json_escape_def short_escape_def split: list.split)
qed

lemma unquote_quote: "json_unquote (json_quote s @ 34 # t) = Some (s, t)"
proof (induction s rule: json_quote.induct)
  case (3 c d s)
  then show ?case
    by (auto simp: unquote_escape is_high_surrogate_def is_low_surrogate_def)
qed (simp_all add: unquote_escape)

text \<open>One property and the list of properties; the text after the object is returned.\<close>

definition print_property :: "string \<times> jsstring \<Rightarrow> jsstring" where
  "print_property kv = 34 # json_quote (js (fst kv)) @ 34 # 58 # 34 # json_quote (snd kv) @ [34]"

fun print_properties :: "(string \<times> jsstring) list \<Rightarrow> jsstring" where
  "print_properties [] = [125]"
| "print_properties [kv] = print_property kv @ [125]"
| "print_properties (kv # kvs) = print_property kv @ 44 # print_properties kvs"

definition print_flat :: "(string \<times> jsstring) list \<Rightarrow> jsstring" where
  "print_flat kvs = 123 # print_properties kvs"

definition key_of :: "jsstring \<Rightarrow> string option" where
  "key_of s = (if list_all (\<lambda>c. c < 256) s then Some (map char_of s) else None)"

definition parse_property :: "jsstring \<Rightarrow> ((string \<times> jsstring) \<times> jsstring) option" where
  "parse_property s =
     (if s = [] \<or> hd s \<noteq> 34 then None
      else case json_unquote (tl s) of
          Some (k, x # y # u) \<Rightarrow>
            if x = 58 \<and> y = 34 then
              (case (key_of k, json_unquote u) of
                 (Some k', Some (v, w)) \<Rightarrow> Some ((k', v), w) | _ \<Rightarrow> None)
            else None
        | _ \<Rightarrow> None)"

fun parse_properties :: "nat \<Rightarrow> jsstring \<Rightarrow> (string \<times> jsstring) list option" where
  "parse_properties 0 s = None"
| "parse_properties (Suc fuel) s =
     (case parse_property s of
        Some (kv, r) \<Rightarrow>
          (if r = [125] then Some [kv]
           else if r \<noteq> [] \<and> hd r = 44 then map_option ((#) kv) (parse_properties fuel (tl r))
           else None)
      | None \<Rightarrow> None)"

text \<open>Fuel: every property takes at least one code unit, so the length of the text is enough.\<close>

definition parse_flat :: "jsstring \<Rightarrow> (string \<times> jsstring) list option" where
  "parse_flat s =
     (if s = [123, 125] then Some []
      else if s \<noteq> [] \<and> hd s = 123 then parse_properties (length s) (tl s) else None)"

lemma of_char_bound: "of_char c < (256::nat)"
  by (metis of_char_mod_256 mod_less_divisor zero_less_numeral)

lemma key_of_js [simp]: "key_of (js k) = Some k"
  by (auto simp: key_of_def js_def list_all_iff o_def of_char_bound)

lemma parse_print_property: "parse_property (print_property kv @ r) = Some (kv, r)"
proof -
  have "json_unquote (json_quote (js (fst kv)) @ 34 # 58 # 34 # json_quote (snd kv) @ 34 # r)
      = Some (js (fst kv), 58 # 34 # json_quote (snd kv) @ 34 # r)"
    by (rule unquote_quote)
  then show ?thesis
    by (simp add: parse_property_def print_property_def unquote_quote)
qed

lemma parse_print_properties:
  "kvs \<noteq> [] \<Longrightarrow> length kvs \<le> fuel \<Longrightarrow> parse_properties fuel (print_properties kvs) = Some kvs"
proof (induction kvs arbitrary: fuel rule: print_properties.induct)
  case (2 kv)
  then show ?case by (cases fuel) (simp_all add: parse_print_property)
next
  case (3 kv kv' kvs)
  then obtain n where "fuel = Suc n" "length (kv' # kvs) \<le> n" by (cases fuel) auto
  with "3.IH" [of n] show ?case by (simp add: parse_print_property)
qed simp

lemma length_print_properties: "length kvs \<le> length (print_properties kvs)"
  by (induction kvs rule: print_properties.induct) (auto simp: print_property_def)

lemma parse_print_flat: "parse_flat (print_flat kvs) = Some kvs"
proof (cases kvs)
  case (Cons kv kvs')
  have "print_properties kvs \<noteq> [125]"
    using Cons by (cases kvs') (auto simp: print_property_def)
  moreover have "length kvs \<le> length (print_flat kvs)"
    using length_print_properties [of kvs] by (simp add: print_flat_def)
  ultimately show ?thesis
    using Cons parse_print_properties [of kvs "length (print_flat kvs)"]
    by (simp add: parse_flat_def print_flat_def)
qed (simp add: parse_flat_def print_flat_def)

section \<open>\<open>JSON.stringify\<close> and \<open>JSON.parse\<close>\<close>

record json =
  otherStringify :: "jsval \<Rightarrow> jsstring option"
  otherParse :: "jsstring \<Rightarrow> jsval option"

fun flat_fields :: "jsval \<Rightarrow> (string \<times> jsstring) list option" where
  "flat_fields (JObj kvs) =
     (if list_all (\<lambda>(k, v). is_string v) kvs \<and> distinct (map fst kvs)
      then Some (map (\<lambda>(k, v). (k, the_str v)) kvs) else None)"
| "flat_fields _ = None"

definition flat_object :: "(string \<times> jsstring) list \<Rightarrow> jsval" where
  "flat_object kvs = JObj (map (\<lambda>(k, s). (k, JStr s)) kvs)"

definition json_stringify :: "json \<Rightarrow> jsval \<Rightarrow> jsstring option" where
  "json_stringify J v =
     (case flat_fields v of Some kvs \<Rightarrow> Some (print_flat kvs) | None \<Rightarrow> otherStringify J v)"

definition json_parse :: "json \<Rightarrow> jsstring \<Rightarrow> jsval option" where
  "json_parse J s =
     (case parse_flat s of
        Some kvs \<Rightarrow> if distinct (map fst kvs) then Some (flat_object kvs) else otherParse J s
      | None \<Rightarrow> otherParse J s)"

text \<open>What the session store needs of JSON: texts of flat objects are not empty and read back.\<close>

locale json_codec =
  fixes stringify :: "jsval \<Rightarrow> jsstring option"
    and parse :: "jsstring \<Rightarrow> jsval option"
  assumes stringify_flat: "flat_fields v \<noteq> None \<Longrightarrow> \<exists>t. stringify v = Some t"
    and parse_stringify: "flat_fields v \<noteq> None \<Longrightarrow> stringify v = Some t \<Longrightarrow> t \<noteq> [] \<and> parse t = Some v"
begin

lemma stored_pair:
  assumes "stringify (pair_json t) = Some s"
  shows "s \<noteq> [] \<and> parse s = Some (pair_json t)"
  using assms by (intro parse_stringify) (simp_all add: pair_json_def)

lemma pair_text: "\<exists>s. stringify (pair_json t) = Some s"
  by (rule stringify_flat) (simp add: pair_json_def)

end

lemma flat_fields_inverse:
  "list_all (\<lambda>(k, v). is_string v) kvs \<Longrightarrow> map (\<lambda>(k, v). (k, JStr (the_str v))) kvs = kvs"
  by (induction kvs) (auto simp: is_string_the_str)

lemma flat_object_fields: "flat_fields v = Some kvs \<Longrightarrow> flat_object kvs = v \<and> distinct (map fst kvs)"
  by (induction v rule: flat_fields.induct)
    (auto simp: flat_object_def flat_fields_inverse [unfolded case_prod_beta'] o_def case_prod_beta' split: if_splits)

lemma json_roundtrip:
  assumes "flat_fields v = Some kvs"
  shows "json_stringify J v = Some (print_flat kvs) \<and> print_flat kvs \<noteq> []
    \<and> json_parse J (print_flat kvs) = Some v"
  using assms flat_object_fields [OF assms]
  by (simp add: json_stringify_def json_parse_def parse_print_flat) (simp add: print_flat_def)

interpretation json: json_codec "json_stringify J" "json_parse J" for J
  by unfold_locales (use json_roundtrip in fastforce)+

end
