(* ===== verification/AuthIdentity.thy ===== *)
theory AuthIdentity
  imports SessionToken
begin

text \<open>
  The identity half of \<open>apps/mobile/src/services/auth.service.ts\<close>: the canonical forms of an email
  address, a workspace and a phone number, password and name limits, and the normalization of the
  member identity, of church details and of sign-in and registration responses. \<open>\d\<close> matches ASCII
  digits and \<open>\s\<close> the white space of \<open>trim\<close>.
\<close>

section \<open>Canonical forms\<close>

definition canonicalEmail :: "jsval \<Rightarrow> jsstring option" where
  "canonicalEmail v =
     (if \<not> is_string v then None
      else let email = toLowerCase (trim (the_str v)) in
        if 0 < length email \<and> length email \<le> 254 \<and> \<not> list_ex is_control email \<and> email_shape email
        then Some email else None)"

text \<open>\<open>/^[a-z0-9]+(?:-[a-z0-9]+)*$/\<close> as an automaton; \<open>seen\<close>: the current segment has a character.\<close>

definition slug_unit :: "nat \<Rightarrow> bool" where
  "slug_unit c \<longleftrightarrow> is_digit c \<or> is_lower c"

fun slug_run :: "bool \<Rightarrow> jsstring \<Rightarrow> bool" where
  "slug_run seen [] = seen"
| "slug_run seen (c # cs) =
     (if slug_unit c then slug_run True cs else if c = 45 then seen \<and> slug_run False cs else False)"

definition slug_shape :: "jsstring \<Rightarrow> bool" where
  "slug_shape s = slug_run False s"

definition canonicalWorkspace :: "jsval \<Rightarrow> jsstring option" where
  "canonicalWorkspace v =
     (if \<not> is_string v then None
      else let workspace = toLowerCase (trim (the_str v)) in
        if 0 < length workspace \<and> length workspace \<le> 80 \<and> \<not> list_ex is_control workspace
          \<and> slug_shape workspace
        then Some workspace else None)"

text \<open>The loop over the code points of the text.\<close>

definition point_bytes :: "nat \<Rightarrow> nat" where
  "point_bytes p = (if p \<le> 0x7F then 1 else if p \<le> 0x7FF then 2 else if p \<le> 0xFFFF then 3 else 4)"

definition utf8ByteLength :: "jsstring \<Rightarrow> nat" where
  "utf8ByteLength s = foldl (\<lambda>bytes p. bytes + point_bytes p) 0 (code_points s)"

definition validAuthPassword :: "jsval \<Rightarrow> nat \<Rightarrow> bool" where
  "validAuthPassword v minimumLength \<longleftrightarrow>
     is_string v \<and> minimumLength \<le> length (the_str v) \<and> utf8ByteLength (the_str v) \<le> 72
     \<and> \<not> list_ex is_control (the_str v)"

definition full_name :: "jsstring \<Rightarrow> jsstring \<Rightarrow> jsstring" where
  "full_name firstName lastName = trim (trim firstName @ 32 # trim lastName)"

definition validRegistrationName :: "jsstring \<Rightarrow> jsstring \<Rightarrow> bool" where
  "validRegistrationName firstName lastName \<longleftrightarrow>
     (let name = full_name firstName lastName
      in 2 \<le> length name \<and> utf8ByteLength name \<le> 120 \<and> \<not> list_ex is_control name)"

definition phone_unit :: "nat \<Rightarrow> bool" where
  "phone_unit c \<longleftrightarrow> is_digit c \<or> is_space c \<or> c = 40 \<or> c = 41 \<or> c = 43 \<or> c = 46 \<or> c = 45"

text \<open>\<open>/^[1-9]\d{7,14}$/\<close>.\<close>

definition international_digits :: "jsstring \<Rightarrow> bool" where
  "international_digits d \<longleftrightarrow> 8 \<le> length d \<and> length d \<le> 15 \<and> list_all is_digit d \<and> hd d \<noteq> 48"

definition canonicalPhone :: "jsstring \<Rightarrow> jsstring option" where
  "canonicalPhone v =
     (let trimmed = trim v in
      if trimmed = [] \<or> 32 < length trimmed \<or> \<not> list_all phone_unit trimmed then None
      else
        let digits = filter is_digit trimmed;
            zeros = (take 2 trimmed = [48, 48])
        in if hd trimmed = 43 \<or> zeros then
             (let d = (if zeros then drop 2 digits else digits)
              in if international_digits d then Some (43 # d) else None)
           else if length digits = 12 \<and> take 3 digits = js ''233'' then Some (43 # digits)
           else if length digits = 10 \<and> take 1 digits = [48] then Some (js ''+233'' @ drop 1 digits)
           else if length digits = 9 then Some (js ''+233'' @ digits)
           else None)"

text \<open>\<open>/[\s().-]/g\<close> is removed when there is no canonical form.\<close>

definition normalizePhone :: "jsstring \<Rightarrow> jsstring" where
  "normalizePhone v =
     (case canonicalPhone v of
        Some p \<Rightarrow> p
      | None \<Rightarrow> filter (\<lambda>c. \<not> (is_space c \<or> c = 40 \<or> c = 41 \<or> c = 46 \<or> c = 45)) (trim v))"

section \<open>Identity properties\<close>

abbreviation invalid_member :: js_error where
  "invalid_member \<equiv> throw ''The server returned an invalid member identity.''"

definition USER_ROLES :: "jsstring list" where
  "USER_ROLES = map js [''SUPER_ADMIN'', ''ORG_ADMIN'', ''CHURCH_ADMIN'', ''DEPARTMENT_LEADER'', ''MEMBER'']"

definition boundedIdentityString :: "jsstring option \<Rightarrow> nat \<Rightarrow> bool \<Rightarrow> js_error + jsstring" where
  "boundedIdentityString v maxLength required =
     (let normalized = (case v of None \<Rightarrow> [] | Some s \<Rightarrow> trim s) in
      if (required \<and> normalized = []) \<or> maxLength < length normalized \<or> list_ex is_control normalized
      then Inl invalid_member else Inr normalized)"

definition boundedIdentityId :: "jsstring option \<Rightarrow> js_error + jsstring" where
  "boundedIdentityId v =
     and_then (boundedIdentityString v 128 True) (\<lambda>s.
       if s = [] \<or> \<not> list_all id_unit s then Inl invalid_member else Inr s)"

definition safeIdentityAvatar :: "host \<Rightarrow> jsstring option \<Rightarrow> jsstring option" where
  "safeIdentityAvatar h v =
     (case v of
        None \<Rightarrow> None
      | Some s \<Rightarrow>
          let candidate = trim s in
          if candidate = [] \<or> 2048 < length candidate \<or> list_ex is_control candidate then None
          else case urlParse h candidate of
              None \<Rightarrow> None
            | Some u \<Rightarrow>
                if u_protocol u = js ''https:'' \<and> u_hostname u \<noteq> [] \<and> u_username u = [] \<and> u_password u = []
                then Some candidate else None)"

definition unwrap_auth :: "jsval \<Rightarrow> js_error + jsval" where
  "unwrap_auth v =
     (if is_object v \<and> has_own v ''data'' then
        (if get v ''success'' \<noteq> JUndef \<and> get v ''success'' \<noteq> JBool True
         then Inl (throw ''The server did not confirm that request.'')
         else Inr (get v ''data''))
      else Inr v)"

datatype logout_scope = CurrentSession | AllSessions

definition logout_message :: "logout_scope \<Rightarrow> jsstring" where
  "logout_message scope = (if scope = AllSessions then js ''Signed out on all devices.'' else js ''Signed out.'')"

definition normalizeLogoutAcknowledgement :: "jsval \<Rightarrow> logout_scope \<Rightarrow> js_error + bool" where
  "normalizeLogoutAcknowledgement v scope =
     and_then (unwrap_auth v) (\<lambda>a.
       if \<not> is_record a \<or> get a ''message'' \<noteq> JStr (logout_message scope)
         \<or> \<not> is_boolean (get a ''deviceCleanupConfirmed'')
       then Inl (throw ''The server did not confirm that your sessions were ended.'')
       else Inr (the_bool (get a ''deviceCleanupConfirmed'')))"

definition optionalString :: "jsval \<Rightarrow> string \<Rightarrow> js_error + jsstring option" where
  "optionalString r key =
     (if nullish (get r key) then Inr None
      else if \<not> is_string (get r key) then Inl invalid_member
      else Inr (Some (the_str (get r key))))"

section \<open>The member\<close>

record User =
  us_id :: jsstring
  us_memberId :: jsstring
  us_firstName :: jsstring
  us_lastName :: jsstring
  us_email :: jsstring
  us_phone :: jsstring
  us_avatar :: "jsstring option"
  us_churchId :: jsstring
  us_churchName :: "jsstring option"
  us_role :: jsstring

text \<open>\<open>s.trim().split(/\s+/).filter(Boolean)\<close>; \<open>acc\<close> is the reversed current word.\<close>

fun words_from :: "jsstring \<Rightarrow> jsstring \<Rightarrow> jsstring list" where
  "words_from [] acc = (if acc = [] then [] else [rev acc])"
| "words_from (c # cs) acc =
     (if is_space c then (if acc = [] then words_from cs [] else rev acc # words_from cs [])
      else words_from cs (c # acc))"

definition name_words :: "jsstring \<Rightarrow> jsstring list" where
  "name_words s = words_from (trim s) []"

fun join_words :: "jsstring list \<Rightarrow> jsstring" where
  "join_words [] = []"
| "join_words [w] = w"
| "join_words (w # ws) = w @ 32 # join_words ws"

text \<open>\<open>s.replace(/\s+/g, ' ')\<close>.\<close>

fun collapse_spaces :: "bool \<Rightarrow> jsstring \<Rightarrow> jsstring" where
  "collapse_spaces after [] = []"
| "collapse_spaces after (c # cs) =
     (if is_space c then (if after then collapse_spaces True cs else 32 # collapse_spaces True cs)
      else c # collapse_spaces False cs)"

text \<open>\<open>s || undefined\<close> on a text.\<close>

definition non_empty :: "jsstring \<Rightarrow> jsstring option" where
  "non_empty s = (if s = [] then None else Some s)"

definition identity_text :: "jsval \<Rightarrow> string \<Rightarrow> nat \<Rightarrow> js_error + jsstring" where
  "identity_text r key maxLength =
     and_then (optionalString r key) (\<lambda>v. boundedIdentityString v maxLength False)"

definition identity_ident :: "jsval \<Rightarrow> string \<Rightarrow> js_error + jsstring" where
  "identity_ident r key = and_then (optionalString r key) boundedIdentityId"

definition identity_role :: "jsval \<Rightarrow> js_error + jsstring" where
  "identity_role r =
     and_then (optionalString r ''role'') (\<lambda>v.
     and_then (boundedIdentityString (Some (case v of None \<Rightarrow> js ''MEMBER'' | Some s \<Rightarrow> s)) 32 True) (\<lambda>role.
       if role \<notin> set USER_ROLES then Inl invalid_member else Inr role))"

definition identity_email :: "jsval \<Rightarrow> js_error + jsstring" where
  "identity_email r =
     and_then (identity_text r ''email'' 254) (\<lambda>s.
       if s = [] then Inr []
       else case canonicalEmail (JStr s) of None \<Rightarrow> Inl invalid_member | Some e \<Rightarrow> Inr e)"

definition identity_phone :: "jsval \<Rightarrow> js_error + jsstring" where
  "identity_phone r =
     and_then (identity_text r ''phone'' 32) (\<lambda>s.
       if s = [] then Inr []
       else case canonicalPhone s of None \<Rightarrow> Inl invalid_member | Some p \<Rightarrow> Inr p)"

text \<open>The display names: given parts win over the parts of the full name.\<close>

definition display_first :: "jsstring option \<Rightarrow> jsstring list \<Rightarrow> jsstring" where
  "display_first firstName parts =
     (let first = trim (case firstName of Some s \<Rightarrow> s
          | None \<Rightarrow> (case parts of [] \<Rightarrow> js ''Member'' | w # _ \<Rightarrow> w))
      in if first = [] then js ''Member'' else first)"

definition display_last :: "jsstring option \<Rightarrow> jsstring list \<Rightarrow> jsstring" where
  "display_last lastName parts =
     trim (case lastName of Some s \<Rightarrow> s | None \<Rightarrow> join_words (drop 1 parts))"

text \<open>Every refusal of the function has the same error, so their order does not show.\<close>

definition normalizeUser :: "host \<Rightarrow> jsval \<Rightarrow> js_error + User" where
  "normalizeUser h r =
     (if \<not> is_record r then Inl invalid_member
      else
        and_then (identity_ident r ''id'') (\<lambda>ident.
        and_then (identity_ident r ''churchId'') (\<lambda>churchId.
        and_then (identity_ident r ''memberId'') (\<lambda>memberId.
        and_then (identity_role r) (\<lambda>role.
        and_then (identity_email r) (\<lambda>email.
        and_then (identity_phone r) (\<lambda>phone.
        and_then (identity_text r ''name'' 120) (\<lambda>name.
        and_then (identity_text r ''firstName'' 120) (\<lambda>firstName.
        and_then (identity_text r ''lastName'' 120) (\<lambda>lastName.
        and_then (optionalString r ''avatar'') (\<lambda>avatar.
        and_then (optionalString r ''avatarUrl'') (\<lambda>avatarUrl.
        and_then (identity_text r ''churchName'' 160) (\<lambda>churchName.
          let parts = name_words name
          in Inr \<lparr>us_id = ident, us_memberId = memberId,
              us_firstName = display_first (non_empty firstName) parts,
              us_lastName = display_last (non_empty lastName) parts,
              us_email = email, us_phone = phone,
              us_avatar = (case safeIdentityAvatar h avatar of
                  Some a \<Rightarrow> Some a | None \<Rightarrow> safeIdentityAvatar h avatarUrl),
              us_churchId = churchId, us_churchName = non_empty (trim churchName),
              us_role = role\<rparr>)))))))))))))"

section \<open>Church details\<close>

abbreviation invalid_church :: js_error where
  "invalid_church \<equiv> throw ''The server returned invalid church details.''"

definition inactive :: "jsval \<Rightarrow> bool" where
  "inactive r \<longleftrightarrow> get r ''isActive'' \<noteq> JUndef \<and> get r ''isActive'' \<noteq> JBool True"

definition required_identity :: "jsval \<Rightarrow> string \<Rightarrow> nat \<Rightarrow> js_error + jsstring" where
  "required_identity r key maxLength =
     and_then (optionalString r key) (\<lambda>v. boundedIdentityString v maxLength True)"

definition normalizeCurrentChurch :: "jsval \<Rightarrow> jsstring \<Rightarrow> js_error + jsstring" where
  "normalizeCurrentChurch v churchId =
     and_then (unwrap_auth v) (\<lambda>r.
       if \<not> is_record r then Inl invalid_church
       else and_then (identity_ident r ''id'') (\<lambda>ident.
         if ident \<noteq> churchId then Inl (throw ''The server returned church details for another account.'')
         else and_then (required_identity r ''name'' 160) (\<lambda>name.
           if name = [] \<or> inactive r then Inl invalid_church else Inr name)))"

record RegistrationChurch =
  rc_id :: jsstring
  rc_name :: jsstring
  rc_slug :: jsstring

abbreviation invalid_code :: js_error where
  "invalid_code \<equiv> throw ''That church code returned invalid details. Ask your church for a new code.''"

definition normalizeRegistrationChurch :: "jsval \<Rightarrow> jsstring \<Rightarrow> js_error + RegistrationChurch" where
  "normalizeRegistrationChurch v expectedSlug =
     and_then (unwrap_auth v) (\<lambda>r.
       if \<not> is_record r then Inl invalid_code
       else and_then (identity_ident r ''id'') (\<lambda>ident.
         and_then (required_identity r ''name'' 160) (\<lambda>name.
         and_then (required_identity r ''slug'' 80) (\<lambda>slug.
           if name = [] \<or> toLowerCase slug \<noteq> expectedSlug \<or> inactive r then Inl invalid_code
           else Inr \<lparr>rc_id = ident, rc_name = name, rc_slug = toLowerCase slug\<rparr>))))"

section \<open>Responses\<close>

abbreviation invalid_auth :: js_error where
  "invalid_auth \<equiv> throw ''The server returned an invalid session. Please try again.''"

record AuthResponse =
  au_tokens :: SessionTokenPair
  au_user :: User

definition response_token :: "jsval \<Rightarrow> string \<Rightarrow> jsval" where
  "response_token r key = coalesce (get (get r ''tokens'') key) (get r key)"

definition normalizeAuthResponse :: "host \<Rightarrow> jsval \<Rightarrow> js_error + AuthResponse" where
  "normalizeAuthResponse h v =
     and_then (unwrap_auth v) (\<lambda>r.
       if \<not> is_record r \<or> \<not> truthy (get r ''user'') then Inl invalid_auth
       else case normalizeSessionTokenPair (response_token r ''accessToken'') (response_token r ''refreshToken'') of
           Inl _ \<Rightarrow> Inl invalid_auth
         | Inr tokens \<Rightarrow> and_then (normalizeUser h (get r ''user'')) (\<lambda>user.
             Inr \<lparr>au_tokens = tokens, au_user = user\<rparr>))"

definition normalizeRegistrationResponse ::
    "host \<Rightarrow> jsval \<Rightarrow> jsstring \<Rightarrow> jsstring \<Rightarrow> jsstring \<Rightarrow> jsstring \<Rightarrow> js_error + User \<times> jsstring option" where
  "normalizeRegistrationResponse h v churchId phone email name =
     (let e = throw ''The server returned an invalid registration result.'' in
      and_then (unwrap_auth v) (\<lambda>r.
        if \<not> is_record r then Inl e
        else and_then (normalizeUser h (get r ''user'')) (\<lambda>user.
          and_then (optionalString r ''message'') (\<lambda>message.
            let returnedName = collapse_spaces False (trim (us_firstName user @ 32 # us_lastName user));
                expectedName = collapse_spaces False (trim name)
            in if us_churchId user \<noteq> churchId \<or> us_phone user \<noteq> phone \<or> us_email user \<noteq> email
                 \<or> returnedName \<noteq> expectedName \<or> us_role user \<noteq> js ''MEMBER''
               then Inl e
               else Inr (user, (case message of None \<Rightarrow> None | Some m \<Rightarrow> non_empty (trim m)))))))"

definition normalizeOtpDispatch :: "jsval \<Rightarrow> js_error + jsstring" where
  "normalizeOtpDispatch v =
     (let e = throw ''The server did not confirm that a code was requested.'' in
      and_then (unwrap_auth v) (\<lambda>r.
        if \<not> is_record r then Inl e
        else and_then (optionalString r ''message'') (\<lambda>message.
          case message of None \<Rightarrow> Inl e | Some m \<Rightarrow> if trim m = [] then Inl e else Inr (trim m))))"

section \<open>Lemmas on canonical forms\<close>

lemma canonicalEmail_fixpoint: "canonicalEmail v = Some e \<Longrightarrow> canonicalEmail (JStr e) = Some e"
  by (auto simp: canonicalEmail_def Let_def split: if_splits)

lemma canonicalWorkspace_fixpoint: "canonicalWorkspace v = Some w \<Longrightarrow> canonicalWorkspace (JStr w) = Some w"
  by (auto simp: canonicalWorkspace_def Let_def split: if_splits)

definition e164 :: "jsstring \<Rightarrow> bool" where
  "e164 p \<longleftrightarrow> (\<exists>d. p = 43 # d \<and> international_digits d)"

lemma local_number:
  assumes "length d = 9" and "list_all is_digit d"
  shows "e164 (js ''+233'' @ d)"
proof -
  have j: "js ''+233'' = [43, 50, 51, 51]" by code_simp
  show ?thesis
    using assms by (simp add: e164_def j international_digits_def is_digit_def)
qed

lemma canonicalPhone_e164:
  assumes "canonicalPhone v = Some p"
  shows "e164 p"
proof -
  let ?d = "filter is_digit (trim v)"
  have digits: "list_all is_digit ?d" by (simp add: list_all_iff)
  then have tail: "list_all is_digit (drop 1 ?d)" by (auto simp: list_all_iff dest: in_set_dropD)
  have ghana: "international_digits ?d" if "length ?d = 12" "take 3 ?d = js ''233''"
  proof -
    have "js ''233'' = [50, 51, 51]" by code_simp
    then have "hd ?d = 50" using that by (cases ?d) auto
    then show ?thesis using that digits by (simp add: international_digits_def)
  qed
  show ?thesis
    using assms local_number [OF _ digits] local_number [OF _ tail] ghana
    by (auto simp: canonicalPhone_def Let_def e164_def split: if_splits)
qed

lemma canonicalPhone_fixpoint:
  assumes "e164 p"
  shows "canonicalPhone p = Some p"
proof -
  obtain d where p: "p = 43 # d" and d: "international_digits d" using assms by (auto simp: e164_def)
  have dig: "\<And>c. c \<in> set d \<Longrightarrow> is_digit c" and len: "8 \<le> length d" "length d \<le> 15"
    using d by (simp_all add: international_digits_def list_all_iff)
  have "d \<noteq> []" using len by auto
  then have "is_digit (last d)" using dig by simp
  then have "\<not> is_space (last p)" using \<open>d \<noteq> []\<close> by (auto simp: p is_space_def is_digit_def)
  moreover have "\<not> is_space (hd p)" by (simp add: p is_space_def)
  ultimately have "trim p = p" by (simp add: trim_fixpoint)
  moreover have "filter is_digit p = d" using dig by (simp add: p is_digit_def filter_id_conv)
  moreover have "list_all phone_unit p" using dig by (auto simp: p list_all_iff phone_unit_def)
  moreover have "take 2 p \<noteq> [48, 48]" by (simp add: p numeral_2_eq_2)
  ultimately show ?thesis using d len by (simp add: canonicalPhone_def p)
qed

interpretation email_form: canonicalizer canonicalEmail JStr
  by unfold_locales (rule canonicalEmail_fixpoint)

interpretation workspace_form: canonicalizer canonicalWorkspace JStr
  by unfold_locales (rule canonicalWorkspace_fixpoint)

interpretation phone_form: canonicalizer canonicalPhone id
  by unfold_locales (simp add: canonicalPhone_e164 canonicalPhone_fixpoint)

section \<open>Lemmas on identities\<close>

definition tidy :: "nat \<Rightarrow> jsstring \<Rightarrow> bool" where
  "tidy n s \<longleftrightarrow> trim s = s \<and> length s \<le> n \<and> (\<forall>c\<in>set s. \<not> is_control c)"

lemma tidy_trim:
  assumes "length s \<le> n" and "\<forall>c\<in>set s. \<not> is_control c"
  shows "tidy n (trim s)"
  using assms set_trim_subset [of s] length_trim_le [of s] by (auto simp: tidy_def)

lemma boundedIdentityString_Inr:
  "boundedIdentityString v n req = Inr s \<Longrightarrow> tidy n s \<and> (req \<longrightarrow> s \<noteq> [])"
  by (auto simp: boundedIdentityString_def Let_def tidy_def list_ex_iff split: if_splits option.splits)

lemma boundedIdentityString_tidy:
  "tidy n s \<Longrightarrow> (req \<longrightarrow> s \<noteq> []) \<Longrightarrow> boundedIdentityString (Some s) n req = Inr s"
  by (auto simp: boundedIdentityString_def tidy_def list_ex_iff)

lemma boundedIdentityString_None [simp]: "boundedIdentityString None n False = Inr []"
  by (simp add: boundedIdentityString_def)

definition identity_id_ok :: "jsstring \<Rightarrow> bool" where
  "identity_id_ok s \<longleftrightarrow> tidy 128 s \<and> s \<noteq> [] \<and> list_all id_unit s"

lemma boundedIdentityId_iff: "boundedIdentityId (Some s) = Inr s \<longleftrightarrow> identity_id_ok s"
  using boundedIdentityString_Inr [of "Some s" 128 True s] boundedIdentityString_tidy [of 128 s True]
  by (auto simp: boundedIdentityId_def identity_id_ok_def res_simps split: if_splits)

lemma boundedIdentityId_Inr: "boundedIdentityId v = Inr s \<Longrightarrow> identity_id_ok s"
  using boundedIdentityString_Inr [of v 128 True s]
  by (auto simp: boundedIdentityId_def identity_id_ok_def res_simps split: if_splits)

lemma optionalString_JStr [simp]:
  "get r k = JStr s \<Longrightarrow> optionalString r k = Inr (Some s)"
  "get r k = JUndef \<Longrightarrow> optionalString r k = Inr None"
  by (simp_all add: optionalString_def)

lemma safeIdentityAvatar_fixpoint: "safeIdentityAvatar h v = Some a \<Longrightarrow> safeIdentityAvatar h (Some a) = Some a"
  by (auto simp: safeIdentityAvatar_def Let_def split: if_splits option.splits)

text \<open>The words of a text are shorter than the text and made of its characters.\<close>

lemma words_from_mem:
  "w \<in> set (words_from s acc) \<Longrightarrow> length w \<le> length s + length acc \<and> set w \<subseteq> set s \<union> set acc"
  by (induction s acc rule: words_from.induct) (fastforce split: if_splits)+

lemma join_words_set: "c \<in> set (join_words ws) \<Longrightarrow> c = 32 \<or> (\<exists>w\<in>set ws. c \<in> set w)"
  by (induction ws rule: join_words.induct) auto

lemma length_join_Cons: "length (join_words (w # ws)) \<le> Suc (length w + length (join_words ws))"
  by (cases ws) simp_all

lemma words_from_length: "length (join_words (words_from s acc)) \<le> length s + length acc"
proof (induction s acc rule: words_from.induct)
  case (1 acc)
  then show ?case by simp
next
  case (2 c cs acc)
  then show ?case
    using length_join_Cons [of "rev acc" "words_from cs []"] by (auto split: if_splits)
qed

lemma length_join_drop: "length (join_words (drop 1 ws)) \<le> length (join_words ws)"
  by (cases ws rule: join_words.cases) auto

lemma name_words_bounds:
  assumes "tidy n name"
  shows "w \<in> set (name_words name) \<Longrightarrow> length w \<le> n \<and> (\<forall>c\<in>set w. \<not> is_control c)"
    and "length (join_words (drop 1 (name_words name))) \<le> n"
    and "\<forall>c\<in>set (join_words (drop 1 (name_words name))). \<not> is_control c"
proof -
  have word: "length w \<le> n \<and> (\<forall>c\<in>set w. \<not> is_control c)" if "w \<in> set (name_words name)" for w
    using assms words_from_mem [of w "trim name" "[]"] that
    by (fastforce simp: name_words_def tidy_def)
  then show "w \<in> set (name_words name) \<Longrightarrow> length w \<le> n \<and> (\<forall>c\<in>set w. \<not> is_control c)" .
  have "length (join_words (name_words name)) \<le> n"
    using assms words_from_length [of "trim name" "[]"] by (simp add: name_words_def tidy_def)
  then show "length (join_words (drop 1 (name_words name))) \<le> n"
    using length_join_drop order_trans by blast
  show "\<forall>c\<in>set (join_words (drop 1 (name_words name))). \<not> is_control c"
  proof
    fix c
    assume "c \<in> set (join_words (drop 1 (name_words name)))"
    then consider "c = 32" | w where "w \<in> set (name_words name)" "c \<in> set w"
      using join_words_set in_set_dropD by metis
    then show "\<not> is_control c" using word by cases (auto simp: is_control_def)
  qed
qed

lemma member_tidy: "tidy 120 (js ''Member'')"
  by (simp add: tidy_def) code_simp

lemma display_first_ok:
  assumes "\<forall>s. firstName = Some s \<longrightarrow> tidy 120 s" and "tidy 120 name"
  shows "tidy 120 (display_first firstName (name_words name)) \<and> display_first firstName (name_words name) \<noteq> []"
proof -
  let ?raw = "case firstName of Some s \<Rightarrow> s
      | None \<Rightarrow> (case name_words name of [] \<Rightarrow> js ''Member'' | w # _ \<Rightarrow> w)"
  have "\<forall>w\<in>set (name_words name). length w \<le> 120 \<and> (\<forall>c\<in>set w. \<not> is_control c)"
    using name_words_bounds(1) [OF assms(2)] by blast
  then have "length ?raw \<le> 120 \<and> (\<forall>c\<in>set ?raw. \<not> is_control c)"
    using assms member_tidy
    by (cases firstName; cases "name_words name") (simp_all add: tidy_def)
  then have "tidy 120 (trim ?raw)" by (intro tidy_trim) blast+
  then show ?thesis using member_tidy by (simp add: display_first_def Let_def)
qed

lemma display_last_ok:
  assumes "\<forall>s. lastName = Some s \<longrightarrow> tidy 120 s" and "tidy 120 name"
  shows "tidy 120 (display_last lastName (name_words name))"
  unfolding display_last_def
  by (rule tidy_trim) (use assms name_words_bounds(2,3) [OF assms(2)] in \<open>auto simp: tidy_def split: option.split\<close>)

definition user_ok :: "host \<Rightarrow> User \<Rightarrow> bool" where
  "user_ok h u \<longleftrightarrow> identity_id_ok (us_id u) \<and> identity_id_ok (us_memberId u) \<and> identity_id_ok (us_churchId u)
     \<and> us_role u \<in> set USER_ROLES
     \<and> tidy 120 (us_firstName u) \<and> us_firstName u \<noteq> [] \<and> tidy 120 (us_lastName u)
     \<and> (us_email u = [] \<or> canonicalEmail (JStr (us_email u)) = Some (us_email u))
     \<and> (us_phone u = [] \<or> e164 (us_phone u))
     \<and> (\<forall>a. us_avatar u = Some a \<longrightarrow> safeIdentityAvatar h (Some a) = Some a)
     \<and> (\<forall>n. us_churchName u = Some n \<longrightarrow> n \<noteq> [] \<and> tidy 160 n)"

lemma identity_text_tidy: "identity_text r k n = Inr s \<Longrightarrow> tidy n s"
  by (auto simp: identity_text_def res_simps dest: boundedIdentityString_Inr)

lemma identity_email_ok: "identity_email r = Inr e \<Longrightarrow> e = [] \<or> canonicalEmail (JStr e) = Some e"
  by (auto simp: identity_email_def res_simps canonicalEmail_fixpoint split: if_splits option.splits)

lemma identity_phone_ok: "identity_phone r = Inr p \<Longrightarrow> p = [] \<or> e164 p"
  by (auto simp: identity_phone_def res_simps canonicalPhone_e164 split: if_splits option.splits)

lemma identity_ident_ok: "identity_ident r k = Inr s \<Longrightarrow> identity_id_ok s"
  by (auto simp: identity_ident_def res_simps boundedIdentityId_Inr)

lemma identity_role_ok: "identity_role r = Inr s \<Longrightarrow> s \<in> set USER_ROLES"
  by (auto simp: identity_role_def res_simps split: if_splits)

lemma non_empty_Some [simp]: "non_empty s = Some t \<longleftrightarrow> s = t \<and> t \<noteq> []"
  by (auto simp: non_empty_def)

lemma normalizeUser_ok:
  assumes "normalizeUser h r = Inr u"
  shows "user_ok h u"
proof -
  obtain ident churchId memberId role email phone name firstName lastName avatar avatarUrl churchName
    where ids: "identity_ident r ''id'' = Inr ident" "identity_ident r ''churchId'' = Inr churchId"
        "identity_ident r ''memberId'' = Inr memberId"
      and role: "identity_role r = Inr role" and email: "identity_email r = Inr email"
      and phone: "identity_phone r = Inr phone"
      and names: "identity_text r ''name'' 120 = Inr name" "identity_text r ''firstName'' 120 = Inr firstName"
        "identity_text r ''lastName'' 120 = Inr lastName" "identity_text r ''churchName'' 160 = Inr churchName"
      and u: "u = \<lparr>us_id = ident, us_memberId = memberId,
              us_firstName = display_first (non_empty firstName) (name_words name),
              us_lastName = display_last (non_empty lastName) (name_words name),
              us_email = email, us_phone = phone,
              us_avatar = (case safeIdentityAvatar h avatar of
                  Some a \<Rightarrow> Some a | None \<Rightarrow> safeIdentityAvatar h avatarUrl),
              us_churchId = churchId, us_churchName = non_empty (trim churchName), us_role = role\<rparr>"
    using assms by (auto simp: normalizeUser_def answer_simps Let_def)
  have tidy: "tidy 120 name" "tidy 120 firstName" "tidy 120 lastName" "tidy 160 churchName"
    using names by (simp_all add: identity_text_tidy)
  then have "tidy 160 (trim churchName)" by (simp add: tidy_def)
  moreover have "\<forall>a. us_avatar u = Some a \<longrightarrow> safeIdentityAvatar h (Some a) = Some a"
    by (auto simp: u safeIdentityAvatar_fixpoint split: option.splits)
  ultimately show ?thesis
    using display_first_ok [of "non_empty firstName" name] display_last_ok [of "non_empty lastName" name] tidy
      identity_ident_ok [OF ids(1)] identity_ident_ok [OF ids(2)] identity_ident_ok [OF ids(3)]
      identity_role_ok [OF role] identity_email_ok [OF email] identity_phone_ok [OF phone]
    by (simp add: u user_ok_def)
qed

text \<open>The stored form: absent properties are not written.\<close>

definition optional_field :: "string \<Rightarrow> jsstring option \<Rightarrow> (string \<times> jsstring) list" where
  "optional_field k v = (case v of None \<Rightarrow> [] | Some s \<Rightarrow> [(k, s)])"

definition user_fields :: "User \<Rightarrow> (string \<times> jsstring) list" where
  "user_fields u = [(''id'', us_id u), (''memberId'', us_memberId u), (''firstName'', us_firstName u),
       (''lastName'', us_lastName u), (''email'', us_email u), (''phone'', us_phone u)]
     @ optional_field ''avatar'' (us_avatar u) @ [(''churchId'', us_churchId u)]
     @ optional_field ''churchName'' (us_churchName u) @ [(''role'', us_role u)]"

definition user_json :: "User \<Rightarrow> jsval" where
  "user_json u = flat_object (user_fields u)"

lemma user_get [simp]:
  "get (user_json u) ''id'' = JStr (us_id u)" "get (user_json u) ''memberId'' = JStr (us_memberId u)"
  "get (user_json u) ''firstName'' = JStr (us_firstName u)" "get (user_json u) ''lastName'' = JStr (us_lastName u)"
  "get (user_json u) ''email'' = JStr (us_email u)" "get (user_json u) ''phone'' = JStr (us_phone u)"
  "get (user_json u) ''avatar'' = opt_val JStr (us_avatar u)" "get (user_json u) ''avatarUrl'' = JUndef"
  "get (user_json u) ''churchId'' = JStr (us_churchId u)" "get (user_json u) ''name'' = JUndef"
  "get (user_json u) ''churchName'' = opt_val JStr (us_churchName u)" "get (user_json u) ''role'' = JStr (us_role u)"
  "is_record (user_json u)"
  by (simp_all add: user_json_def user_fields_def flat_object_def optional_field_def split: option.split)

lemma user_flat: "flat_fields (user_json u) = Some (user_fields u)"
  by (simp add: user_json_def user_fields_def flat_object_def optional_field_def split: option.split)

lemma optionalString_opt [simp]: "get r k = opt_val JStr x \<Longrightarrow> optionalString r k = Inr x"
  by (cases x) simp_all

lemma role_tidy: "role \<in> set USER_ROLES \<Longrightarrow> tidy 32 role \<and> role \<noteq> []"
proof -
  have "list_all (\<lambda>r. tidy 32 r \<and> r \<noteq> []) USER_ROLES"
    unfolding tidy_def by code_simp
  then show "role \<in> set USER_ROLES \<Longrightarrow> tidy 32 role \<and> role \<noteq> []" by (auto simp: list_all_iff)
qed

lemma canonical_email_tidy: "canonicalEmail v = Some e \<Longrightarrow> tidy 254 e \<and> e \<noteq> []"
  by (auto simp: canonicalEmail_def tidy_def Let_def list_ex_iff split: if_splits)

lemma e164_tidy:
  assumes "e164 p"
  shows "tidy 32 p \<and> p \<noteq> []"
proof -
  obtain d where p: "p = 43 # d" and d: "international_digits d" using assms by (auto simp: e164_def)
  have dig: "\<And>c. c \<in> set d \<Longrightarrow> is_digit c" and len: "length d \<le> 15" "d \<noteq> []"
    using d by (auto simp: international_digits_def list_all_iff)
  have "is_digit (last d)" using dig len by simp
  then have "\<not> is_space (last p)" and "\<not> is_space (hd p)"
    using len by (auto simp: p is_space_def is_digit_def)
  then have "trim p = p" by (simp add: trim_fixpoint)
  moreover have "\<forall>c\<in>set p. \<not> is_control c"
    using dig by (fastforce simp: p is_control_def is_digit_def)
  ultimately show ?thesis using len by (simp add: tidy_def p)
qed

lemma identity_text_json:
  assumes "get r k = JStr s" and "tidy n s"
  shows "identity_text r k n = Inr s"
  using assms by (simp add: identity_text_def boundedIdentityString_tidy)

lemma identity_text_absent: "get r k = JUndef \<Longrightarrow> identity_text r k n = Inr []"
  by (simp add: identity_text_def)

lemma identity_ident_json: "get r k = JStr s \<Longrightarrow> identity_id_ok s \<Longrightarrow> identity_ident r k = Inr s"
  by (simp add: identity_ident_def boundedIdentityId_iff)

lemma display_given:
  "tidy n s \<Longrightarrow> s \<noteq> [] \<Longrightarrow> display_first (Some s) parts = s"
  "tidy n s \<Longrightarrow> display_last (Some s) parts = s"
  "display_last None [] = []"
  by (simp_all add: display_first_def display_last_def tidy_def)

lemma normalizeUser_json:
  assumes "user_ok h u"
  shows "normalizeUser h (user_json u) = Inr u"
proof -
  let ?r = "user_json u"
  have "identity_ident ?r ''id'' = Inr (us_id u)" "identity_ident ?r ''churchId'' = Inr (us_churchId u)"
    "identity_ident ?r ''memberId'' = Inr (us_memberId u)"
    using assms by (simp_all add: identity_ident_json user_ok_def)
  moreover have "identity_role ?r = Inr (us_role u)"
    using assms role_tidy [of "us_role u"]
    by (simp add: identity_role_def user_ok_def boundedIdentityString_tidy)
  moreover have "identity_email ?r = Inr (us_email u)"
  proof (cases "us_email u = []")
    case True
    then have "identity_text ?r ''email'' 254 = Inr []"
      by (intro identity_text_json) (simp_all add: tidy_def)
    with True show ?thesis by (simp add: identity_email_def)
  next
    case False
    then have e: "canonicalEmail (JStr (us_email u)) = Some (us_email u)" using assms by (simp add: user_ok_def)
    then have "identity_text ?r ''email'' 254 = Inr (us_email u)"
      by (intro identity_text_json) (simp_all add: canonical_email_tidy)
    with False e show ?thesis by (simp add: identity_email_def)
  qed
  moreover have "identity_phone ?r = Inr (us_phone u)"
  proof (cases "us_phone u = []")
    case True
    then have "identity_text ?r ''phone'' 32 = Inr []"
      by (intro identity_text_json) (simp_all add: tidy_def)
    with True show ?thesis by (simp add: identity_phone_def)
  next
    case False
    then have e: "e164 (us_phone u)" using assms by (simp add: user_ok_def)
    then have "identity_text ?r ''phone'' 32 = Inr (us_phone u)"
      by (intro identity_text_json) (simp_all add: e164_tidy)
    with False e show ?thesis by (simp add: identity_phone_def canonicalPhone_fixpoint)
  qed
  moreover have "identity_text ?r ''firstName'' 120 = Inr (us_firstName u)"
    "identity_text ?r ''lastName'' 120 = Inr (us_lastName u)" "identity_text ?r ''name'' 120 = Inr []"
    using assms by (simp_all add: identity_text_json identity_text_absent user_ok_def)
  moreover have "identity_text ?r ''churchName'' 160 = Inr (case us_churchName u of None \<Rightarrow> [] | Some n \<Rightarrow> n)"
    using assms
    by (cases "us_churchName u") (simp_all add: identity_text_json identity_text_absent user_ok_def)
  moreover have "non_empty (trim (case us_churchName u of None \<Rightarrow> [] | Some n \<Rightarrow> n)) = us_churchName u"
    using assms by (cases "us_churchName u") (auto simp: user_ok_def tidy_def non_empty_def)
  moreover have "optionalString ?r ''avatar'' = Inr (us_avatar u)" "optionalString ?r ''avatarUrl'' = Inr None"
    by (simp_all add:)
  moreover have "(case safeIdentityAvatar h (us_avatar u) of Some a \<Rightarrow> Some a | None \<Rightarrow> safeIdentityAvatar h None)
      = us_avatar u"
    using assms by (cases "us_avatar u") (simp_all add: user_ok_def safeIdentityAvatar_def)
  moreover have "name_words [] = []" by (simp add: name_words_def)
  moreover have "display_first (non_empty (us_firstName u)) [] = us_firstName u"
    "display_last (non_empty (us_lastName u)) [] = us_lastName u"
    using assms display_given by (auto simp: user_ok_def non_empty_def)
  moreover have "is_record ?r" by simp
  ultimately show ?thesis by (simp add: normalizeUser_def Let_def)
qed

interpretation member: canonical_normalizer "normalizeUser h" "user_ok h" user_json for h
  by unfold_locales (simp_all add: normalizeUser_ok normalizeUser_json)

section \<open>Properties\<close>

text \<open>Canonical identifiers. A phone number is accepted only as E.164, a plus sign and eight to
  fifteen digits the first of which is not zero; and for the phone number, the email address and
  the workspace the canonical form is a fixpoint, so what the app compares and sends does not
  depend on how often a value was normalized.\<close>

theorem canonical_forms:
  "((\<exists>v. canonicalPhone v = Some p) \<longleftrightarrow> e164 p)
   \<and> ((\<exists>v. canonicalPhone v = Some p) \<longleftrightarrow> canonicalPhone p = Some p)
   \<and> ((\<exists>v. canonicalEmail v = Some e) \<longleftrightarrow> canonicalEmail (JStr e) = Some e)
   \<and> ((\<exists>v. canonicalWorkspace v = Some w) \<longleftrightarrow> canonicalWorkspace (JStr w) = Some w)"
  using email_form.canon_image workspace_form.canon_image phone_form.canon_image
    canonicalPhone_e164 canonicalPhone_fixpoint
  by (metis id_apply)

text \<open>The member profile survives the cache. The identity that \<open>normalizeUser\<close> returns is
  exactly a well-formed one, with usable identifiers, a known role, a first name, a canonical email
  address and phone number or none, and a secure avatar or none; and normalizing its stored form
  again gives the same identity.\<close>

theorem member_identity_roundtrip:
  "((\<exists>v. normalizeUser h v = Inr u) \<longleftrightarrow> user_ok h u)
   \<and> (user_ok h u \<longleftrightarrow> normalizeUser h (user_json u) = Inr u)"
  using member.norm_range member.norm_encode member.norm_good by blast

end
