(* ===== verification/StoreIO.thy ===== *)
theory StoreIO
  imports SessionToken
begin

text \<open>
  Asynchronous programs over the device's two key-value stores, as the session module writes
  them: AsyncStorage and the platform keychain (SecureStore). An operation may succeed, reject
  without effect, reject after its effect, or never return because the process is killed; the
  list of outcomes is an argument, so a theorem that quantifies over it covers every failure and
  every crash point. An empty list means that everything succeeds. \<open>wp\<close> is the weakest
  precondition over all outcome lists, with one rule per construct.

  The parts of \<open>Promise.all\<close> and \<open>Promise.allSettled\<close> run in their array order; a part that
  has not happened when the process dies is a rejected part before a \<open>Crashed\<close> one.
\<close>

section \<open>The stores\<close>

datatype area = AsyncArea | SecureArea

type_synonym slot = "area \<times> string"

text \<open>\<open>st_notices\<close> counts the calls of the expiry listeners.\<close>

record store =
  st_kv :: "slot \<Rightarrow> jsstring option"
  st_notices :: nat

definition put_slot :: "slot \<Rightarrow> jsstring option \<Rightarrow> store \<Rightarrow> store" where
  "put_slot x v s = s\<lparr>st_kv := (st_kv s)(x := v)\<rparr>"

lemma put_slot_simps [simp]:
  "st_notices (put_slot x v s) = st_notices s"
  "st_kv (put_slot x v s) y = (if y = x then v else st_kv s y)"
  by (simp_all add: put_slot_def)

section \<open>Programs\<close>

datatype outcome = Done | Failed | DoneThenFailed | Crashed

datatype 'a run = Ret 'a | Thrown js_error | Killed

type_synonym 'a io = "store \<Rightarrow> outcome list \<Rightarrow> 'a run \<times> store \<times> outcome list"

abbreviation storage_failure :: js_error where
  "storage_failure \<equiv> throw ''The device storage operation failed.''"

definition io_return :: "'a \<Rightarrow> 'a io" where
  "io_return x s fs = (Ret x, s, fs)"

definition io_throw :: "js_error \<Rightarrow> 'a io" where
  "io_throw e s fs = (Thrown e, s, fs)"

definition io_bind :: "'a io \<Rightarrow> ('a \<Rightarrow> 'b io) \<Rightarrow> 'b io" where
  "io_bind m f s fs =
     (case m s fs of
        (Ret x, s', fs') \<Rightarrow> f x s' fs'
      | (Thrown e, s', fs') \<Rightarrow> (Thrown e, s', fs')
      | (Killed, s', fs') \<Rightarrow> (Killed, s', fs'))"

definition io_seq :: "'a io \<Rightarrow> 'b io \<Rightarrow> 'b io" where
  "io_seq m n = io_bind m (\<lambda>_. n)"

definition io_try :: "'a io \<Rightarrow> (js_error \<Rightarrow> 'a io) \<Rightarrow> 'a io" where
  "io_try m h s fs =
     (case m s fs of
        (Thrown e, s', fs') \<Rightarrow> h e s' fs'
      | r \<Rightarrow> r)"

definition io_finally :: "'a io \<Rightarrow> unit io \<Rightarrow> 'a io" where
  "io_finally m f =
     io_bind (io_try (io_bind m (\<lambda>x. io_return (Inr x))) (\<lambda>e. io_return (Inl e)))
       (\<lambda>r. io_seq f (case r of Inl e \<Rightarrow> io_throw e | Inr x \<Rightarrow> io_return x))"

definition io_lift :: "js_error + 'a \<Rightarrow> 'a io" where
  "io_lift r = (case r of Inl e \<Rightarrow> io_throw e | Inr x \<Rightarrow> io_return x)"

definition io_notice :: "unit io" where
  "io_notice s fs = (Ret (), s\<lparr>st_notices := Suc (st_notices s)\<rparr>, fs)"

text \<open>One storage operation, with the next outcome.\<close>

definition storage_op :: "(store \<Rightarrow> 'a \<times> store) \<Rightarrow> 'a io" where
  "storage_op f s fs =
     (case fs of
        [] \<Rightarrow> (Ret (fst (f s)), snd (f s), [])
      | Done # fs' \<Rightarrow> (Ret (fst (f s)), snd (f s), fs')
      | Failed # fs' \<Rightarrow> (Thrown storage_failure, s, fs')
      | DoneThenFailed # fs' \<Rightarrow> (Thrown storage_failure, snd (f s), fs')
      | Crashed # fs' \<Rightarrow> (Killed, s, fs'))"

definition get_item :: "slot \<Rightarrow> jsstring option io" where
  "get_item x = storage_op (\<lambda>s. (st_kv s x, s))"

definition set_item :: "slot \<Rightarrow> jsstring \<Rightarrow> unit io" where
  "set_item x v = storage_op (\<lambda>s. ((), put_slot x (Some v) s))"

definition remove_item :: "slot \<Rightarrow> unit io" where
  "remove_item x = storage_op (\<lambda>s. ((), put_slot x None s))"

definition settle :: "'a io \<Rightarrow> (js_error + 'a) io" where
  "settle m = io_try (io_bind m (\<lambda>x. io_return (Inr x))) (\<lambda>e. io_return (Inl e))"

fun all_settled :: "'a io list \<Rightarrow> (js_error + 'a) list io" where
  "all_settled [] = io_return []"
| "all_settled (m # ms) =
     io_bind (settle m) (\<lambda>r. io_bind (all_settled ms) (\<lambda>rs. io_return (r # rs)))"

text \<open>\<open>Promise.all\<close> rejects with the first rejection.\<close>

fun first_failure :: "(js_error + 'a) list \<Rightarrow> js_error + 'a list" where
  "first_failure [] = Inr []"
| "first_failure (r # rs) =
     and_then r (\<lambda>x. and_then (first_failure rs) (\<lambda>xs. Inr (x # xs)))"

definition promise_all :: "'a io list \<Rightarrow> 'a list io" where
  "promise_all ms = io_bind (all_settled ms) (\<lambda>rs. io_lift (first_failure rs))"

section \<open>Weakest preconditions\<close>

definition wp :: "'a io \<Rightarrow> ('a run \<Rightarrow> store \<Rightarrow> bool) \<Rightarrow> store \<Rightarrow> bool" where
  "wp m Q s \<longleftrightarrow> (\<forall>fs. Q (fst (m s fs)) (fst (snd (m s fs))))"

named_theorems wp_rules \<open>weakest precondition rules, one per construct\<close>

lemma wpD: "wp m Q s \<Longrightarrow> m s fs = (r, s', fs') \<Longrightarrow> Q r s'"
  unfolding wp_def by (metis fst_conv snd_conv)

lemma wpI: "(\<And>fs r s' fs'. m s fs = (r, s', fs') \<Longrightarrow> Q r s') \<Longrightarrow> wp m Q s"
  unfolding wp_def by (metis prod.exhaust_sel)

lemma wp_conseq:
  assumes "wp m P s" and "\<And>r s'. P r s' \<Longrightarrow> Q r s'"
  shows "wp m Q s"
  using assms unfolding wp_def by blast

lemma wp_return [wp_rules]: "Q (Ret x) s \<Longrightarrow> wp (io_return x) Q s"
  by (simp add: wp_def io_return_def)

lemma wp_throw [wp_rules]: "Q (Thrown e) s \<Longrightarrow> wp (io_throw e) Q s"
  by (simp add: wp_def io_throw_def)

lemma wp_notice [wp_rules]: "Q (Ret ()) (s\<lparr>st_notices := Suc (st_notices s)\<rparr>) \<Longrightarrow> wp io_notice Q s"
  by (simp add: wp_def io_notice_def)

lemma wp_lift [wp_rules]:
  "(\<And>e. r = Inl e \<Longrightarrow> Q (Thrown e) s) \<Longrightarrow> (\<And>x. r = Inr x \<Longrightarrow> Q (Ret x) s) \<Longrightarrow> wp (io_lift r) Q s"
  by (cases r) (simp_all add: io_lift_def wp_return wp_throw)

lemma wp_bind [wp_rules]:
  assumes "wp m (\<lambda>r s'. case r of Ret x \<Rightarrow> wp (f x) Q s' | Thrown e \<Rightarrow> Q (Thrown e) s'
      | Killed \<Rightarrow> Q Killed s') s"
  shows "wp (io_bind m f) Q s"
proof (rule wpI)
  fix fs r s' fs'
  assume run: "io_bind m f s fs = (r, s', fs')"
  obtain r1 s1 fs1 where m: "m s fs = (r1, s1, fs1)" by (cases "m s fs")
  have "case r1 of Ret x \<Rightarrow> wp (f x) Q s1 | Thrown e \<Rightarrow> Q (Thrown e) s1 | Killed \<Rightarrow> Q Killed s1"
    using wpD [OF assms m] .
  then show "Q r s'"
    using run m by (cases r1) (auto simp: io_bind_def dest: wpD)
qed

lemma wp_seq [wp_rules]:
  assumes "wp m (\<lambda>r s'. case r of Ret x \<Rightarrow> wp n Q s' | Thrown e \<Rightarrow> Q (Thrown e) s'
      | Killed \<Rightarrow> Q Killed s') s"
  shows "wp (io_seq m n) Q s"
  unfolding io_seq_def by (rule wp_bind) (use assms in simp)

lemma wp_try [wp_rules]:
  assumes "wp m (\<lambda>r s'. case r of Ret x \<Rightarrow> Q (Ret x) s' | Thrown e \<Rightarrow> wp (h e) Q s'
      | Killed \<Rightarrow> Q Killed s') s"
  shows "wp (io_try m h) Q s"
proof (rule wpI)
  fix fs r s' fs'
  assume run: "io_try m h s fs = (r, s', fs')"
  obtain r1 s1 fs1 where m: "m s fs = (r1, s1, fs1)" by (cases "m s fs")
  have "case r1 of Ret x \<Rightarrow> Q (Ret x) s1 | Thrown e \<Rightarrow> wp (h e) Q s1 | Killed \<Rightarrow> Q Killed s1"
    using wpD [OF assms m] .
  then show "Q r s'"
    using run m by (cases r1) (auto simp: io_try_def dest: wpD)
qed

lemma wp_settle [wp_rules]:
  assumes "wp m (\<lambda>r s'. case r of Ret x \<Rightarrow> Q (Ret (Inr x)) s' | Thrown e \<Rightarrow> Q (Ret (Inl e)) s'
      | Killed \<Rightarrow> Q Killed s') s"
  shows "wp (settle m) Q s"
  unfolding settle_def
  by (rule wp_try, rule wp_bind, rule wp_conseq [OF assms])
    (auto split: run.splits intro: wp_return)

lemma wp_finally [wp_rules]:
  assumes "wp m (\<lambda>r s'. case r of
      Ret x \<Rightarrow> wp f (\<lambda>r' s''. case r' of Ret _ \<Rightarrow> Q (Ret x) s'' | Thrown e \<Rightarrow> Q (Thrown e) s''
        | Killed \<Rightarrow> Q Killed s'') s'
    | Thrown e \<Rightarrow> wp f (\<lambda>r' s''. case r' of Ret _ \<Rightarrow> Q (Thrown e) s'' | Thrown e' \<Rightarrow> Q (Thrown e') s''
        | Killed \<Rightarrow> Q Killed s'') s'
    | Killed \<Rightarrow> Q Killed s') s"
  shows "wp (io_finally m f) Q s"
  unfolding io_finally_def settle_def [symmetric]
proof (rule wp_bind, rule wp_settle, rule wp_conseq [OF assms])
  fix r s'
  assume "case r of
      Ret x \<Rightarrow> wp f (\<lambda>r' s''. case r' of Ret _ \<Rightarrow> Q (Ret x) s'' | Thrown e \<Rightarrow> Q (Thrown e) s''
        | Killed \<Rightarrow> Q Killed s'') s'
    | Thrown e \<Rightarrow> wp f (\<lambda>r' s''. case r' of Ret _ \<Rightarrow> Q (Thrown e) s'' | Thrown e' \<Rightarrow> Q (Thrown e') s''
        | Killed \<Rightarrow> Q Killed s'') s'
    | Killed \<Rightarrow> Q Killed s'"
  then show "case r of
      Ret x \<Rightarrow> (case Ret (Inr x) of Ret x \<Rightarrow> wp (io_seq f (case x of Inl e \<Rightarrow> io_throw e | Inr x \<Rightarrow> io_return x)) Q s'
        | Thrown e \<Rightarrow> Q (Thrown e) s' | Killed \<Rightarrow> Q Killed s')
    | Thrown e \<Rightarrow> (case Ret (Inl e) of Ret x \<Rightarrow> wp (io_seq f (case x of Inl e \<Rightarrow> io_throw e | Inr x \<Rightarrow> io_return x)) Q s'
        | Thrown e \<Rightarrow> Q (Thrown e) s' | Killed \<Rightarrow> Q Killed s')
    | Killed \<Rightarrow> (case Killed of Ret x \<Rightarrow> wp (io_seq f (case x of Inl e \<Rightarrow> io_throw e | Inr x \<Rightarrow> io_return x)) Q s'
        | Thrown e \<Rightarrow> Q (Thrown e) s' | Killed \<Rightarrow> Q Killed s')"
    by (cases r) (auto intro!: wp_seq elim!: wp_conseq split: run.splits intro: wp_return wp_throw)
qed

lemma wp_op:
  assumes "Q (Ret (fst (f s))) (snd (f s))" and "Q (Thrown storage_failure) s"
    and "Q (Thrown storage_failure) (snd (f s))" and "Q Killed s"
  shows "wp (storage_op f) Q s"
  using assms by (auto simp: wp_def storage_op_def split: list.split outcome.split)

lemma wp_get_item [wp_rules]:
  assumes "Q (Ret (st_kv s x)) s" and "Q (Thrown storage_failure) s" and "Q Killed s"
  shows "wp (get_item x) Q s"
  unfolding get_item_def by (rule wp_op) (simp_all add: assms)

lemma wp_set_item [wp_rules]:
  assumes "Q (Ret ()) (put_slot x (Some v) s)" and "Q (Thrown storage_failure) s"
    and "Q (Thrown storage_failure) (put_slot x (Some v) s)" and "Q Killed s"
  shows "wp (set_item x v) Q s"
  unfolding set_item_def by (rule wp_op) (simp_all add: assms)

lemma wp_remove_item [wp_rules]:
  assumes "Q (Ret ()) (put_slot x None s)" and "Q (Thrown storage_failure) s"
    and "Q (Thrown storage_failure) (put_slot x None s)" and "Q Killed s"
  shows "wp (remove_item x) Q s"
  unfolding remove_item_def by (rule wp_op) (simp_all add: assms)

section \<open>Runs without failures\<close>

text \<open>The run of a program when every operation succeeds.\<close>

lemma run_simps:
  "io_return x s fs = (Ret x, s, fs)" "io_throw e s fs = (Thrown e, s, fs)"
  "io_notice s fs = (Ret (), s\<lparr>st_notices := Suc (st_notices s)\<rparr>, fs)"
  by (simp_all add: io_return_def io_throw_def io_notice_def)

lemma run_items:
  "get_item x s [] = (Ret (st_kv s x), s, [])"
  "set_item x v s [] = (Ret (), put_slot x (Some v) s, [])"
  "remove_item x s [] = (Ret (), put_slot x None s, [])"
  by (simp_all add: get_item_def set_item_def remove_item_def storage_op_def)

lemma run_bind: "m s fs = (Ret x, s', fs') \<Longrightarrow> io_bind m f s fs = f x s' fs'"
  by (simp add: io_bind_def)

lemma run_seq: "m s fs = (Ret x, s', fs') \<Longrightarrow> io_seq m n s fs = n s' fs'"
  by (simp add: io_seq_def io_bind_def)

lemma run_try: "m s fs = (Ret x, s', fs') \<Longrightarrow> io_try m h s fs = (Ret x, s', fs')"
  by (simp add: io_try_def)

lemmas io_defs = io_bind_def io_seq_def io_try_def io_finally_def io_lift_def settle_def promise_all_def

section \<open>Deleting\<close>

text \<open>\<open>s'\<close> is \<open>s\<close> with some of the slots of \<open>D\<close> deleted.\<close>

definition erased :: "slot set \<Rightarrow> store \<Rightarrow> store \<Rightarrow> bool" where
  "erased D s s' \<longleftrightarrow> st_notices s' = st_notices s
     \<and> (\<forall>x. st_kv s' x = st_kv s x \<or> (x \<in> D \<and> st_kv s' x = None))"

lemma erased_refl [simp]: "erased D s s"
  by (simp add: erased_def)

lemma erased_remove: "x \<in> D \<Longrightarrow> erased D s (put_slot x None s)"
  by (simp add: erased_def)

lemma erased_trans: "erased D s s' \<Longrightarrow> erased D' s' s'' \<Longrightarrow> D \<subseteq> E \<Longrightarrow> D' \<subseteq> E \<Longrightarrow> erased E s s''"
  unfolding erased_def by (metis subsetD)

lemma erased_slot: "erased D s s' \<Longrightarrow> st_kv s' x = st_kv s x \<or> st_kv s' x = None"
  unfolding erased_def by metis

lemma erased_None: "erased D s s' \<Longrightarrow> st_kv s x = None \<Longrightarrow> st_kv s' x = None"
  unfolding erased_def by metis

lemma erased_other: "erased D s s' \<Longrightarrow> x \<notin> D \<Longrightarrow> st_kv s' x = st_kv s x"
  unfolding erased_def by blast

lemma erased_notices: "erased D s s' \<Longrightarrow> st_notices s' = st_notices s"
  by (simp add: erased_def)

lemma erased_mono: "erased D s s' \<Longrightarrow> D \<subseteq> E \<Longrightarrow> erased E s s'"
  unfolding erased_def by blast

lemma wp_remove_erased:
  "wp (remove_item x) (\<lambda>r s'. erased {x} s s' \<and> (\<forall>u. r = Ret u \<longrightarrow> st_kv s' x = None)) s"
  by (rule wp_remove_item) (simp_all add: erased_remove)

text \<open>What removing a list of slots leaves, and what it reports.\<close>

definition removal :: "slot list \<Rightarrow> store \<Rightarrow> (js_error + unit) list run \<Rightarrow> store \<Rightarrow> bool" where
  "removal xs s r s' \<longleftrightarrow> erased (set xs) s s' \<and> (\<forall>e. r \<noteq> Thrown e)
     \<and> (\<forall>rs. r = Ret rs \<longrightarrow> list_all (\<lambda>q. \<not> isl q) rs \<longrightarrow> (\<forall>x\<in>set xs. st_kv s' x = None))"

lemma removal_Killed: "erased (set xs) s s' \<Longrightarrow> removal xs s Killed s'"
  by (simp add: removal_def)

lemma removal_Cons:
  assumes "erased {x} s s1" and "\<not> isl q \<Longrightarrow> st_kv s1 x = None" and "removal xs s1 (Ret rs) s2"
  shows "removal (x # xs) s (Ret (q # rs)) s2"
proof -
  have "erased (set (x # xs)) s s2"
    using assms(1,3) by (auto simp: removal_def intro: erased_trans)
  moreover have "st_kv s2 x = None" if "\<not> isl q"
    using assms(2) [OF that] assms(3) erased_None [of "set xs" s1 s2 x] by (simp add: removal_def)
  ultimately show ?thesis using assms(3) by (simp add: removal_def)
qed

lemma wp_remove_all: "wp (all_settled (map remove_item xs)) (removal xs s) s"
proof (induction xs arbitrary: s)
  case Nil
  show ?case by (simp add: removal_def wp_return)
next
  case (Cons x xs)
  have rest: "wp (io_bind (all_settled (map remove_item xs)) (\<lambda>rs. io_return (q # rs)))
      (removal (x # xs) s) s1"
    if "erased {x} s s1" and "\<not> isl q \<Longrightarrow> st_kv s1 x = None" for q s1
  proof (rule wp_bind, rule wp_conseq [OF Cons.IH])
    fix r2 s2
    assume r2: "removal xs s1 r2 s2"
    show "case r2 of Ret rs \<Rightarrow> wp (io_return (q # rs)) (removal (x # xs) s) s2
      | Thrown e \<Rightarrow> removal (x # xs) s (Thrown e) s2 | Killed \<Rightarrow> removal (x # xs) s Killed s2"
      using r2 removal_Cons [OF that] that(1)
      by (cases r2) (auto intro!: wp_return removal_Killed simp: removal_def [of xs] intro: erased_trans)
  qed
  show ?case
    unfolding list.map all_settled.simps
    by (rule wp_bind, rule wp_settle, rule wp_conseq [OF wp_remove_erased])
      (auto split: run.splits intro!: rest removal_Killed intro: erased_trans)
qed

lemma wp_all_settled_erased:
  assumes "\<And>m s. m \<in> set ms \<Longrightarrow> wp m (\<lambda>r s'. erased D s s') s"
  shows "wp (all_settled ms) (\<lambda>r s'. erased D s s' \<and> (\<forall>e. r \<noteq> Thrown e)) s"
  using assms
proof (induction ms arbitrary: s)
  case Nil
  show ?case by (simp add: wp_return)
next
  case (Cons m ms)
  have rest: "wp (io_bind (all_settled ms) (\<lambda>rs. io_return (q # rs)))
      (\<lambda>r s'. erased D s s' \<and> (\<forall>e. r \<noteq> Thrown e)) s1" if "erased D s s1" for q s1
    by (rule wp_bind, rule wp_conseq [OF Cons.IH])
      (use Cons.prems that in \<open>auto split: run.splits intro!: wp_return intro: erased_trans\<close>)
  show ?case
    unfolding all_settled.simps
    by (rule wp_bind, rule wp_settle, rule wp_conseq [OF Cons.prems])
      (auto split: run.splits intro!: rest)
qed

text \<open>\<open>Promise.all\<close> over deletions: what is left is the same, and a return means all are gone.\<close>

lemma first_failure_Inr: "first_failure rs = Inr xs \<Longrightarrow> list_all (\<lambda>q. \<not> isl q) rs"
  by (induction rs arbitrary: xs) (auto simp: res_simps)

lemma wp_promise_all_remove:
  "wp (promise_all (map remove_item xs))
     (\<lambda>r s'. erased (set xs) s s' \<and> (\<forall>u. r = Ret u \<longrightarrow> (\<forall>x\<in>set xs. st_kv s' x = None))) s"
  unfolding promise_all_def
  by (rule wp_bind, rule wp_conseq [OF wp_remove_all])
    (auto simp: removal_def split: run.splits intro!: wp_lift dest: first_failure_Inr)

text \<open>Reads change nothing.\<close>

lemma wp_read_all:
  "wp (all_settled (map get_item xs))
     (\<lambda>r s'. s' = s \<and> (\<forall>e. r \<noteq> Thrown e)
        \<and> (\<forall>rs. r = Ret rs \<longrightarrow> list_all2 (\<lambda>x q. isl q \<or> q = Inr (st_kv s x)) xs rs)) s"
proof (induction xs)
  case Nil
  show ?case by (simp add: wp_return)
next
  case (Cons x xs)
  show ?case
    unfolding list.map all_settled.simps
    by (rule wp_bind, rule wp_settle, rule wp_get_item)
      (auto intro!: wp_bind wp_conseq [OF Cons.IH] wp_return split: run.splits)
qed

lemma first_failure_reads:
  assumes "list_all2 (\<lambda>x q. isl q \<or> q = Inr (f x)) xs rs" and "first_failure rs = Inr ys"
  shows "ys = map f xs"
  using assms by (induction arbitrary: ys rule: list_all2_induct) (auto simp: res_simps)

lemma wp_promise_all_read:
  "wp (promise_all (map get_item xs)) (\<lambda>r s'. s' = s \<and> (\<forall>vs. r = Ret vs \<longrightarrow> vs = map (st_kv s) xs)) s"
  unfolding promise_all_def
  by (rule wp_bind, rule wp_conseq [OF wp_read_all])
    (auto split: run.splits intro!: wp_lift first_failure_reads)

declare all_settled.simps [simp del]

section \<open>Returning\<close>

text \<open>When no storage operation fails, a \<open>calm\<close> program returns and an \<open>orderly\<close> one
  returns or throws.\<close>

named_theorems calm_intro \<open>programs that return when the storage works\<close>

definition calm :: "'a io \<Rightarrow> bool" where
  "calm m \<longleftrightarrow> (\<forall>s. \<exists>x s'. m s [] = (Ret x, s', []))"

definition orderly :: "'a io \<Rightarrow> bool" where
  "orderly m \<longleftrightarrow> (\<forall>s. \<exists>r s'. m s [] = (r, s', []) \<and> r \<noteq> Killed)"

lemma calmD: "calm m \<Longrightarrow> \<exists>x s'. m s [] = (Ret x, s', [])"
  by (simp add: calm_def)

lemma calm_items [calm_intro]: "calm (get_item x)" "calm (set_item x v)" "calm (remove_item x)"
  by (simp_all add: calm_def run_items)

lemma calm_return [calm_intro]: "calm (io_return x)" "calm io_notice"
  by (simp_all add: calm_def run_simps)

lemma calm_bind [calm_intro]: "calm m \<Longrightarrow> (\<And>x. calm (f x)) \<Longrightarrow> calm (io_bind m f)"
proof -
  assume m: "calm m" and f: "\<And>x. calm (f x)"
  show ?thesis
    unfolding calm_def
  proof
    fix s
    obtain x s1 where "m s [] = (Ret x, s1, [])" using calmD [OF m] by blast
    then show "\<exists>y s'. io_bind m f s [] = (Ret y, s', [])"
      using calmD [OF f, of x s1] by (simp add: io_bind_def)
  qed
qed

lemma calm_seq [calm_intro]: "calm m \<Longrightarrow> calm n \<Longrightarrow> calm (io_seq m n)"
  unfolding io_seq_def by (rule calm_bind)

lemma calm_lift [calm_intro]: "r = Inr x \<Longrightarrow> calm (io_lift r)"
  by (simp add: io_lift_def calm_return)

lemma orderly_calm: "calm m \<Longrightarrow> orderly m"
  unfolding calm_def orderly_def by blast

lemma orderly_throw: "orderly (io_throw e)"
  by (simp add: orderly_def run_simps)

lemma orderly_lift: "orderly (io_lift r)"
  by (cases r) (simp_all add: io_lift_def orderly_throw orderly_calm calm_return)

lemma orderly_bind: "orderly m \<Longrightarrow> (\<And>x. orderly (f x)) \<Longrightarrow> orderly (io_bind m f)"
proof -
  assume m: "orderly m" and f: "\<And>x. orderly (f x)"
  show ?thesis
    unfolding orderly_def
  proof
    fix s
    obtain r s1 where run: "m s [] = (r, s1, [])" "r \<noteq> Killed" using m unfolding orderly_def by blast
    then show "\<exists>r s'. io_bind m f s [] = (r, s', []) \<and> r \<noteq> Killed"
      using f unfolding orderly_def by (cases r) (auto simp: io_bind_def)
  qed
qed

lemma calm_try: "orderly m \<Longrightarrow> (\<And>e. calm (h e)) \<Longrightarrow> calm (io_try m h)"
proof -
  assume m: "orderly m" and h: "\<And>e. calm (h e)"
  show ?thesis
    unfolding calm_def
  proof
    fix s
    obtain r s1 where run: "m s [] = (r, s1, [])" "r \<noteq> Killed" using m unfolding orderly_def by blast
    then show "\<exists>x s'. io_try m h s [] = (Ret x, s', [])"
      using calmD [OF h, of _ s1] by (cases r) (auto simp: io_try_def)
  qed
qed

lemma calm_try_calm [calm_intro]: "calm m \<Longrightarrow> calm (io_try m h)"
proof -
  assume m: "calm m"
  have "\<exists>x s'. io_try m h s [] = (Ret x, s', [])" for s
    using calmD [OF m, of s] by (auto simp: io_try_def)
  then show ?thesis by (simp add: calm_def)
qed

lemma settle_calm: "calm m \<Longrightarrow> \<exists>x s'. settle m s [] = (Ret (Inr x), s', [])"
  using calmD [of m s] by (auto simp: settle_def io_bind_def io_try_def run_simps)

lemma calm_finally [calm_intro]: "calm m \<Longrightarrow> calm f \<Longrightarrow> calm (io_finally m f)"
proof -
  assume m: "calm m" and f: "calm f"
  show ?thesis
    unfolding calm_def io_finally_def settle_def [symmetric]
  proof
    fix s
    obtain x s1 where "settle m s [] = (Ret (Inr x), s1, [])" using settle_calm [OF m] by blast
    then show "\<exists>x s'. io_bind (settle m) (\<lambda>r. io_seq f (case r of Inl e \<Rightarrow> io_throw e | Inr x \<Rightarrow> io_return x))
        s [] = (Ret x, s', [])"
      using calmD [OF f, of s1] by (auto simp: run_bind run_seq run_simps)
  qed
qed

lemma all_settled_calm:
  "(\<And>m. m \<in> set ms \<Longrightarrow> calm m) \<Longrightarrow> \<exists>xs s'. all_settled ms s [] = (Ret (map Inr xs), s', [])"
proof (induction ms arbitrary: s)
  case (Cons m ms)
  obtain x s1 where m: "settle m s [] = (Ret (Inr x), s1, [])"
    using settle_calm [of m s] Cons.prems by auto
  obtain xs s2 where "all_settled ms s1 [] = (Ret (map Inr xs), s2, [])"
    using Cons.IH [of s1] Cons.prems by auto
  with m have "all_settled (m # ms) s [] = (Ret (map Inr (x # xs)), s2, [])"
    by (simp add: all_settled.simps run_bind run_simps)
  then show ?case by blast
qed (simp add: all_settled.simps run_simps)

lemma first_failure_map_Inr [simp]: "first_failure (map Inr xs) = Inr xs"
  by (induction xs) auto

lemma calm_all_settled [calm_intro]: "(\<And>m. m \<in> set ms \<Longrightarrow> calm m) \<Longrightarrow> calm (all_settled ms)"
  unfolding calm_def [of "all_settled ms"] using all_settled_calm by blast

lemma calm_promise_all [calm_intro]: "(\<And>m. m \<in> set ms \<Longrightarrow> calm m) \<Longrightarrow> calm (promise_all ms)"
proof -
  assume ms: "\<And>m. m \<in> set ms \<Longrightarrow> calm m"
  have "\<exists>x s'. promise_all ms s [] = (Ret x, s', [])" for s
    using all_settled_calm [of ms s, OF ms] by (auto simp: promise_all_def run_bind run_simps io_lift_def)
  then show ?thesis by (simp add: calm_def)
qed

text \<open>A calm program returns a value its weakest precondition allows.\<close>

lemma calm_wp:
  assumes "calm m" and "wp m (\<lambda>r s'. \<forall>x. r = Ret x \<longrightarrow> P x s') s"
  shows "\<exists>x s'. m s [] = (Ret x, s', []) \<and> P x s'"
  using calmD [OF assms(1), of s] wpD [OF assms(2)] by blast

end
