(* ===== verification/SessionStore.thy ===== *)
theory SessionStore
  imports StoreIO
begin

text \<open>
  The member session of the mobile app: \<open>apps/mobile/src/services/session.ts\<close>. Tokens live in
  one JSON envelope; two older layouts (two keychain entries, and three AsyncStorage entries) are
  migrated on the first read; a marker in AsyncStorage makes a logout final. A call is one step here: the mutations
  are, because their queue runs them one after the other; \<open>getAccessToken\<close> and \<open>getRefreshToken\<close> read outside the queue,
  and what a mutation queued during such a read leads to is in \<open>SessionProperties\<close> (\<open>readTokensOpen\<close>).

  \<open>view\<close> is the abstract session: what a read answers. The lemmas show that reads never change
  it, what each mutation may change it to, under every schedule of failures and crashes, and that
  no token pair ever appears that was not stored as a pair.
\<close>

section \<open>Keys\<close>

datatype os = Web | Native

definition secret_slot :: "os \<Rightarrow> string \<Rightarrow> slot" where
  "secret_slot os k = (if os = Web then AsyncArea else SecureArea, k)"

abbreviation SESSION_KEY :: string where "SESSION_KEY \<equiv> ''altar.session''"
abbreviation ACCESS_TOKEN_KEY :: string where "ACCESS_TOKEN_KEY \<equiv> ''altar.accessToken''"
abbreviation REFRESH_TOKEN_KEY :: string where "REFRESH_TOKEN_KEY \<equiv> ''altar.refreshToken''"
abbreviation USER_KEY :: string where "USER_KEY \<equiv> ''altar.user''"
abbreviation REVOKED :: slot where "REVOKED \<equiv> (AsyncArea, ''altar.sessionRevoked'')"

abbreviation LEGACY_ASYNC_SLOTS :: "slot list" where
  "LEGACY_ASYNC_SLOTS \<equiv> [(AsyncArea, ''accessToken''), (AsyncArea, ''refreshToken''), (AsyncArea, ''user'')]"

definition MAX_CACHED_USER_LENGTH :: nat where
  "MAX_CACHED_USER_LENGTH = 16384"

section \<open>Operations\<close>

definition encodeCachedUser :: "json \<Rightarrow> jsval \<Rightarrow> js_error + jsstring" where
  "encodeCachedUser J user =
     (case json_stringify J user of
        None \<Rightarrow> Inl (throw ''The member profile could not be stored safely.'')
      | Some encoded \<Rightarrow>
          if encoded = [] \<or> MAX_CACHED_USER_LENGTH < length encoded
          then Inl (throw ''The member profile could not be stored safely.'')
          else Inr encoded)"

definition getSecret :: "os \<Rightarrow> string \<Rightarrow> jsstring option io" where
  "getSecret os k = get_item (secret_slot os k)"

definition setSecret :: "os \<Rightarrow> string \<Rightarrow> jsstring \<Rightarrow> unit io" where
  "setSecret os k v = set_item (secret_slot os k) v"

definition deleteSecret :: "os \<Rightarrow> string \<Rightarrow> unit io" where
  "deleteSecret os k = remove_item (secret_slot os k)"

text \<open>The mutation queue runs its operations one after the other; a rejected one does not stop
  the next.\<close>

definition serializeTokenMutation :: "'a io list \<Rightarrow> (js_error + 'a) list io" where
  "serializeTokenMutation operations = all_settled operations"

definition persistTokens :: "json \<Rightarrow> os \<Rightarrow> SessionTokenPair \<Rightarrow> unit io" where
  "persistTokens J os tokens =
     (case json_stringify J (pair_json tokens) of
        None \<Rightarrow> io_throw (TypeError (js ''JSON.stringify''))
      | Some text \<Rightarrow>
          io_seq (setSecret os SESSION_KEY text)
          (io_seq (remove_item REVOKED)
          (io_seq (all_settled [deleteSecret os ACCESS_TOKEN_KEY, deleteSecret os REFRESH_TOKEN_KEY])
          (io_return ()))))"

definition removeLegacyAsyncSession :: "unit io" where
  "removeLegacyAsyncSession =
     io_seq (promise_all (map remove_item LEGACY_ASYNC_SLOTS)) (io_return ())"

definition text_value :: "jsstring option \<Rightarrow> jsval" where
  "text_value v = (case v of None \<Rightarrow> JNull | Some s \<Rightarrow> JStr s)"

text \<open>The profile part of the migration: \<open>try\<close>, \<open>catch\<close> and \<open>finally\<close>.\<close>

definition migrateProfile :: "json \<Rightarrow> os \<Rightarrow> jsval \<Rightarrow> unit io" where
  "migrateProfile J os encodedUser =
     io_finally
       (io_try
         (if truthy encodedUser
          then (case json_parse J (the_str encodedUser) of
              None \<Rightarrow> io_throw (throw ''SyntaxError'')
            | Some user \<Rightarrow>
                io_bind (io_lift (encodeCachedUser J user))
                  (\<lambda>canonicalUser. setSecret os USER_KEY canonicalUser))
          else io_return ())
         (\<lambda>_. io_return ()))
       removeLegacyAsyncSession"

definition migrateValues :: "json \<Rightarrow> os \<Rightarrow> jsval \<Rightarrow> jsval \<Rightarrow> jsval \<Rightarrow> SessionTokenPair option io" where
  "migrateValues J os access refresh encodedUser =
     (if \<not> truthy access \<and> \<not> truthy refresh \<and> \<not> truthy encodedUser then io_return None
      else case normalizeSessionTokenPair access refresh of
          Inl _ \<Rightarrow> io_seq removeLegacyAsyncSession (io_return None)
        | Inr tokens \<Rightarrow>
            io_seq (persistTokens J os tokens)
              (io_seq (migrateProfile J os encodedUser) (io_return (Some tokens))))"

definition migrateLegacyAsyncSession :: "json \<Rightarrow> os \<Rightarrow> SessionTokenPair option io" where
  "migrateLegacyAsyncSession J os =
     (if os = Web then io_return None
      else io_bind (promise_all (map get_item LEGACY_ASYNC_SLOTS)) (\<lambda>vals.
        migrateValues J os (text_value (vals ! 0)) (text_value (vals ! 1)) (text_value (vals ! 2))))"

definition clearSessionUnlocked :: "os \<Rightarrow> unit io" where
  "clearSessionUnlocked os =
     io_bind
       (all_settled
         (set_item REVOKED (js ''1'')
          # map remove_item
              ([secret_slot os ACCESS_TOKEN_KEY, secret_slot os REFRESH_TOKEN_KEY,
                secret_slot os SESSION_KEY, secret_slot os USER_KEY] @ LEGACY_ASYNC_SLOTS)))
       (\<lambda>results. io_seq (io_lift (first_failure results)) (io_return ()))"

definition decode_envelope :: "json \<Rightarrow> jsstring option \<Rightarrow> SessionTokenPair option" where
  "decode_envelope J encoded =
     (case encoded of
        None \<Rightarrow> None
      | Some text \<Rightarrow>
          if text = [] then None
          else case json_parse J text of
              None \<Rightarrow> None
            | Some parsed \<Rightarrow> (case pair_of parsed of Inl _ \<Rightarrow> None | Inr tokens \<Rightarrow> Some tokens))"

text \<open>\<open>readTokensUnlocked\<close> in the order of its parts: under the logout marker, with a readable
  envelope, with two keychain entries, with neither.\<close>

definition forgetRevoked :: "os \<Rightarrow> SessionTokenPair option io" where
  "forgetRevoked os =
     io_seq
       (all_settled [deleteSecret os ACCESS_TOKEN_KEY, deleteSecret os REFRESH_TOKEN_KEY,
          deleteSecret os SESSION_KEY, removeLegacyAsyncSession])
       (io_return None)"

definition returnFound :: "SessionTokenPair \<Rightarrow> SessionTokenPair option io" where
  "returnFound tokens =
     io_seq (io_try removeLegacyAsyncSession (\<lambda>_. io_return ())) (io_return (Some tokens))"

definition dropUnreadable :: "json \<Rightarrow> os \<Rightarrow> SessionTokenPair option io" where
  "dropUnreadable J os =
     io_seq (promise_all (map remove_item
         [secret_slot os ACCESS_TOKEN_KEY, secret_slot os REFRESH_TOKEN_KEY]))
       (migrateLegacyAsyncSession J os)"

definition readKeychainPair :: "json \<Rightarrow> os \<Rightarrow> SessionTokenPair option io" where
  "readKeychainPair J os =
     io_bind (promise_all
         (map get_item [secret_slot os ACCESS_TOKEN_KEY, secret_slot os REFRESH_TOKEN_KEY]))
       (\<lambda>vals.
         case normalizeSessionTokenPair (text_value (vals ! 0)) (text_value (vals ! 1)) of
           Inl _ \<Rightarrow> dropUnreadable J os
         | Inr tokens \<Rightarrow> io_seq (persistTokens J os tokens) (returnFound tokens))"

definition readTokensUnlocked :: "json \<Rightarrow> os \<Rightarrow> SessionTokenPair option io" where
  "readTokensUnlocked J os =
     io_bind (get_item REVOKED) (\<lambda>marker.
       if truthy (text_value marker) then forgetRevoked os
       else io_bind (getSecret os SESSION_KEY) (\<lambda>encoded.
         case decode_envelope J encoded of
           Some tokens \<Rightarrow> returnFound tokens
         | None \<Rightarrow>
             io_seq (if truthy (text_value encoded) then deleteSecret os SESSION_KEY else io_return ())
               (readKeychainPair J os)))"

definition session_getAccessToken :: "json \<Rightarrow> os \<Rightarrow> jsstring option io" where
  "session_getAccessToken J os =
     io_bind (readTokensUnlocked J os) (\<lambda>t. io_return (map_option accessToken t))"

definition session_getRefreshToken :: "json \<Rightarrow> os \<Rightarrow> jsstring option io" where
  "session_getRefreshToken J os =
     io_bind (readTokensUnlocked J os) (\<lambda>t. io_return (map_option refreshToken t))"

text \<open>The queued part of a sign-in. \<open>canCommit\<close> is asked three times; its answers are \<open>c1\<close>,
  \<open>c2\<close>, \<open>c3\<close>. \<open>abandon\<close> is what an answer of \<open>false\<close> leads to and
  \<open>rollback\<close> is the \<open>catch\<close> block.\<close>

definition abandon :: "os \<Rightarrow> bool io" where
  "abandon os = io_seq (clearSessionUnlocked os) (io_return False)"

definition rollback :: "os \<Rightarrow> js_error \<Rightarrow> bool io" where
  "rollback os e = io_seq (io_try (clearSessionUnlocked os) (\<lambda>_. io_return ())) (io_throw e)"

definition commitUnlocked ::
    "json \<Rightarrow> os \<Rightarrow> SessionTokenPair \<Rightarrow> jsstring \<Rightarrow> bool \<Rightarrow> bool \<Rightarrow> bool \<Rightarrow> bool io" where
  "commitUnlocked J os tokens encodedUser c1 c2 c3 =
     (if \<not> c1 then io_return False
      else io_try
        (io_seq (persistTokens J os tokens)
          (if \<not> c2 then abandon os
           else io_seq (setSecret os USER_KEY encodedUser)
             (if \<not> c3 then abandon os else io_return True)))
        (rollback os))"

definition commitAuthenticatedSessionIf ::
    "json \<Rightarrow> os \<Rightarrow> jsval \<Rightarrow> jsval \<Rightarrow> jsval \<Rightarrow> bool \<Rightarrow> bool \<Rightarrow> bool \<Rightarrow> bool io" where
  "commitAuthenticatedSessionIf J os access refresh user c1 c2 c3 =
     io_bind (io_lift (normalizeSessionTokenPair access refresh)) (\<lambda>tokens.
     io_bind (io_lift (encodeCachedUser J user)) (\<lambda>encodedUser.
       commitUnlocked J os tokens encodedUser c1 c2 c3))"

definition replaceTokensIfCurrent :: "json \<Rightarrow> os \<Rightarrow> jsval \<Rightarrow> jsval \<Rightarrow> jsval \<Rightarrow> bool io" where
  "replaceTokensIfCurrent J os expectedRefresh access refresh =
     io_bind (io_lift (normalizeOpaqueSessionToken expectedRefresh)) (\<lambda>expected.
     io_bind (io_lift (normalizeSessionTokenPair access refresh)) (\<lambda>replacement.
     io_bind (readTokensUnlocked J os) (\<lambda>current.
       if map_option refreshToken current \<noteq> Some expected then io_return False
       else io_seq (persistTokens J os replacement) (io_return True))))"

definition session_getUser :: "json \<Rightarrow> os \<Rightarrow> jsval option io" where
  "session_getUser J os =
     io_bind (getSecret os USER_KEY) (\<lambda>v.
       if \<not> truthy (text_value v) then io_return None
       else if MAX_CACHED_USER_LENGTH < length (the v)
         then io_seq (deleteSecret os USER_KEY) (io_return None)
       else case json_parse J (the v) of
           Some user \<Rightarrow> io_return (Some user)
         | None \<Rightarrow> io_seq (deleteSecret os USER_KEY) (io_return None))"

definition replaceUserIfRefreshTokenCurrent ::
    "json \<Rightarrow> os \<Rightarrow> jsval \<Rightarrow> jsval \<Rightarrow> bool \<Rightarrow> bool \<Rightarrow> bool \<Rightarrow> bool io" where
  "replaceUserIfRefreshTokenCurrent J os expectedRefresh user c1 c2 c3 =
     io_bind (io_lift (normalizeOpaqueSessionToken expectedRefresh)) (\<lambda>expected.
     io_bind (io_lift (encodeCachedUser J user)) (\<lambda>encodedUser.
       if \<not> c1 then io_return False
       else io_bind (readTokensUnlocked J os) (\<lambda>current.
         if map_option refreshToken current \<noteq> Some expected \<or> \<not> c2 then io_return False
         else io_seq (setSecret os USER_KEY encodedUser) (io_return c3))))"

definition session_clear :: "os \<Rightarrow> unit io" where
  "session_clear os = clearSessionUnlocked os"

definition clearIfRefreshTokenCurrent :: "json \<Rightarrow> os \<Rightarrow> jsval \<Rightarrow> bool \<Rightarrow> bool io" where
  "clearIfRefreshTokenCurrent J os expectedRefresh notifyExpired =
     io_bind (io_lift (normalizeOpaqueSessionToken expectedRefresh)) (\<lambda>expected.
     io_bind (readTokensUnlocked J os) (\<lambda>current.
       if map_option refreshToken current \<noteq> Some expected then io_return False
       else io_seq
         (io_finally (clearSessionUnlocked os) (if notifyExpired then io_notice else io_return ()))
         (io_return True)))"

section \<open>The abstract session\<close>

definition revoked :: "store \<Rightarrow> bool" where
  "revoked s \<longleftrightarrow> truthy (text_value (st_kv s REVOKED))"

definition stored_envelope :: "json \<Rightarrow> os \<Rightarrow> store \<Rightarrow> SessionTokenPair option" where
  "stored_envelope J os s = decode_envelope J (st_kv s (secret_slot os SESSION_KEY))"

definition legacy_secret :: "os \<Rightarrow> store \<Rightarrow> SessionTokenPair option" where
  "legacy_secret os s =
     (case normalizeSessionTokenPair (text_value (st_kv s (secret_slot os ACCESS_TOKEN_KEY)))
         (text_value (st_kv s (secret_slot os REFRESH_TOKEN_KEY))) of Inl _ \<Rightarrow> None | Inr t \<Rightarrow> Some t)"

definition legacy_async :: "os \<Rightarrow> store \<Rightarrow> SessionTokenPair option" where
  "legacy_async os s =
     (if os = Web then None
      else case normalizeSessionTokenPair (text_value (st_kv s (AsyncArea, ''accessToken'')))
         (text_value (st_kv s (AsyncArea, ''refreshToken''))) of Inl _ \<Rightarrow> None | Inr t \<Rightarrow> Some t)"

definition view :: "json \<Rightarrow> os \<Rightarrow> store \<Rightarrow> SessionTokenPair option" where
  "view J os s =
     (if revoked s then None
      else case stored_envelope J os s of Some t \<Rightarrow> Some t
        | None \<Rightarrow> (case legacy_secret os s of Some t \<Rightarrow> Some t | None \<Rightarrow> legacy_async os s))"

lemma secret_slot_simps [simp]:
  "secret_slot os k = secret_slot os k' \<longleftrightarrow> k = k'"
  "secret_slot os k = (AsyncArea, k') \<longleftrightarrow> os = Web \<and> k = k'"
  "(AsyncArea, k') = secret_slot os k \<longleftrightarrow> os = Web \<and> k' = k"
  by (auto simp: secret_slot_def)

lemma text_value_simps [simp]:
  "text_value None = JNull" "text_value (Some v) = JStr v"
  "text_value x = JStr v \<longleftrightarrow> x = Some v"
  by (auto simp: text_value_def split: option.splits)

lemma not_revoked_None [simp]: "st_kv s REVOKED = None \<Longrightarrow> \<not> revoked s"
  by (simp add: revoked_def)

lemma revoked_cong: "st_kv s' REVOKED = st_kv s REVOKED \<Longrightarrow> revoked s' = revoked s"
  by (simp add: revoked_def)

lemma normalizePair_missing [simp]:
  "normalizeSessionTokenPair JNull r = Inl invalid_session"
  "normalizeSessionTokenPair a JNull = Inl invalid_session"
  by (auto simp: normalizeSessionTokenPair_def normalizeOpaqueSessionToken_def validOpaqueToken_def
      and_then_def split: sum.split)

lemma decode_envelope_stored:
  "decode_envelope J (json_stringify J (pair_json t)) = (if pair_ok t then Some t else None)"
proof -
  obtain enc where enc: "json_stringify J (pair_json t) = Some enc"
    using json.pair_text [of J t] by blast
  have "enc \<noteq> [] \<and> json_parse J enc = Some (pair_json t)"
    using json.stored_pair [OF enc] .
  moreover have "pair_of (pair_json t) = Inr t" if "pair_ok t"
    using token_pair.norm_encode [OF that] .
  moreover have "\<exists>e. pair_of (pair_json t) = Inl e" if "\<not> pair_ok t"
    using that token_pair.norm_good by (cases "pair_of (pair_json t)")
      (auto simp: pair_of_def normalizePair_Inr pair_ok_def)
  ultimately show ?thesis
    using enc by (cases "pair_ok t") (auto simp: decode_envelope_def split: sum.splits)
qed

text \<open>Deleting keys a decision does not depend on, or that hold no pair, keeps the session.\<close>

lemma legacy_secret_erased: "legacy_secret os s = None \<Longrightarrow> erased D s s' \<Longrightarrow> legacy_secret os s' = None"
proof -
  assume none: "legacy_secret os s = None" and er: "erased D s s'"
  let ?a = "secret_slot os ACCESS_TOKEN_KEY" and ?r = "secret_slot os REFRESH_TOKEN_KEY"
  have "st_kv s' ?a = st_kv s ?a \<or> st_kv s' ?a = None"
    and "st_kv s' ?r = st_kv s ?r \<or> st_kv s' ?r = None"
    by (rule erased_slot [OF er])+
  then show ?thesis
    using none unfolding legacy_secret_def by (elim disjE) simp_all
qed

lemma stored_envelope_erased:
  "stored_envelope J os s = None \<Longrightarrow> erased D s s' \<Longrightarrow> stored_envelope J os s' = None"
proof -
  assume none: "stored_envelope J os s = None" and er: "erased D s s'"
  have "st_kv s' (secret_slot os SESSION_KEY) = st_kv s (secret_slot os SESSION_KEY)
      \<or> st_kv s' (secret_slot os SESSION_KEY) = None"
    by (rule erased_slot [OF er])
  then show ?thesis
    using none by (auto simp: stored_envelope_def decode_envelope_def)
qed

lemma legacy_async_erased: "legacy_async os s = None \<Longrightarrow> erased D s s' \<Longrightarrow> legacy_async os s' = None"
proof -
  assume none: "legacy_async os s = None" and er: "erased D s s'"
  let ?a = "(AsyncArea, ''accessToken'')" and ?r = "(AsyncArea, ''refreshToken'')"
  have "st_kv s' ?a = st_kv s ?a \<or> st_kv s' ?a = None"
    and "st_kv s' ?r = st_kv s ?r \<or> st_kv s' ?r = None"
    by (rule erased_slot [OF er])+
  then show ?thesis
    using none unfolding legacy_async_def by (elim disjE) (simp_all split: if_splits)
qed

lemma not_revoked_erased: "\<not> revoked s \<Longrightarrow> erased D s s' \<Longrightarrow> \<not> revoked s'"
  using erased_slot [of D s s' REVOKED] by (auto simp: revoked_def)

lemma view_revoked: "revoked s \<Longrightarrow> view J os s = None"
  by (simp add: view_def)

lemma view_envelope:
  "\<not> revoked s \<Longrightarrow> stored_envelope J os s = Some t \<Longrightarrow> view J os s = Some t"
  by (simp add: view_def)

lemma view_erased_revoked:
  assumes "revoked s" and "erased D s s'" and "REVOKED \<notin> D"
  shows "view J os s' = view J os s"
  using assms erased_other [OF assms(2,3)] revoked_cong [of s' s] by (simp add: view_revoked)

lemma view_erased_envelope:
  assumes "stored_envelope J os s \<noteq> None" and "erased D s s'"
    and "REVOKED \<notin> D" and "secret_slot os SESSION_KEY \<notin> D"
  shows "view J os s' = view J os s"
  using assms erased_other [OF assms(2,3)] erased_other [OF assms(2,4)] revoked_cong [of s' s]
  by (auto simp: view_def stored_envelope_def)

lemma view_erased_secret:
  assumes "stored_envelope J os s = None" and "legacy_secret os s \<noteq> None" and "erased D s s'"
    and "REVOKED \<notin> D" and "secret_slot os ACCESS_TOKEN_KEY \<notin> D"
    and "secret_slot os REFRESH_TOKEN_KEY \<notin> D"
  shows "view J os s' = view J os s"
  using assms stored_envelope_erased [OF assms(1,3)] erased_other [OF assms(3,4)]
    erased_other [OF assms(3,5)] erased_other [OF assms(3,6)] revoked_cong [of s' s]
  by (auto simp: view_def legacy_secret_def split: sum.splits)

lemma view_erased_async:
  assumes "stored_envelope J os s = None" and "legacy_secret os s = None" and "erased D s s'"
    and "REVOKED \<notin> D"
    and "legacy_async os s = None \<or> D \<inter> set LEGACY_ASYNC_SLOTS = {}"
  shows "view J os s' = view J os s"
proof -
  have "legacy_async os s' = legacy_async os s"
  proof (cases "legacy_async os s = None")
    case True
    then show ?thesis using legacy_async_erased [OF _ assms(3)] by simp
  next
    case False
    then have "(AsyncArea, ''accessToken'') \<notin> D" "(AsyncArea, ''refreshToken'') \<notin> D"
      using assms(5) by auto
    then show ?thesis
      using assms(3) by (simp add: legacy_async_def erased_other)
  qed
  then show ?thesis
    using assms stored_envelope_erased [OF assms(1,3)] legacy_secret_erased [OF assms(2,3)]
      erased_other [OF assms(3,4)] revoked_cong [of s' s]
    by (simp add: view_def)
qed

section \<open>The pairs a store holds\<close>

text \<open>Whether or not the marker hides them.\<close>

definition held :: "json \<Rightarrow> os \<Rightarrow> store \<Rightarrow> SessionTokenPair set" where
  "held J os s = {t. stored_envelope J os s = Some t \<or> legacy_secret os s = Some t
     \<or> legacy_async os s = Some t}"

lemma view_None_iff: "view J os s = None \<longleftrightarrow> revoked s \<or> held J os s = {}"
  by (auto simp: view_def held_def split: option.splits)

lemma view_held: "view J os s = Some t \<Longrightarrow> t \<in> held J os s"
  by (auto simp: view_def held_def split: if_splits option.splits)

lemma erased_readings:
  assumes er: "erased D s s'"
  shows "stored_envelope J os s' = stored_envelope J os s \<or> stored_envelope J os s' = None"
    and "legacy_secret os s' = legacy_secret os s \<or> legacy_secret os s' = None"
    and "legacy_async os s' = legacy_async os s \<or> legacy_async os s' = None"
proof -
  have slot: "st_kv s' x = st_kv s x \<or> st_kv s' x = None" for x
    by (rule erased_slot [OF er])
  show "stored_envelope J os s' = stored_envelope J os s \<or> stored_envelope J os s' = None"
    using slot [of "secret_slot os SESSION_KEY"] by (auto simp: stored_envelope_def decode_envelope_def)
  show "legacy_secret os s' = legacy_secret os s \<or> legacy_secret os s' = None"
    using slot [of "secret_slot os ACCESS_TOKEN_KEY"] slot [of "secret_slot os REFRESH_TOKEN_KEY"]
    by (auto simp: legacy_secret_def)
  show "legacy_async os s' = legacy_async os s \<or> legacy_async os s' = None"
    using slot [of "(AsyncArea, ''accessToken'')"] slot [of "(AsyncArea, ''refreshToken'')"]
    by (auto simp: legacy_async_def)
qed

lemma held_erased: "erased D s s' \<Longrightarrow> held J os s' \<subseteq> held J os s"
  using erased_readings(1) [of D s s' J os] erased_readings(2) [of D s s' os]
    erased_readings(3) [of D s s' os] unfolding held_def by auto

lemma held_erasedD: "erased D s s' \<Longrightarrow> t \<in> held J os s' \<Longrightarrow> t \<in> held J os s"
  using held_erased by blast

lemma held_put_irrelevant [simp]:
  "held J os (put_slot REVOKED v s) = held J os s"
  "held J os (put_slot (secret_slot os USER_KEY) v s) = held J os s"
  by (simp_all add: held_def stored_envelope_def legacy_secret_def legacy_async_def)

lemma held_put_session:
  "held J os (put_slot (secret_slot os SESSION_KEY) (json_stringify J (pair_json t)) s)
     \<subseteq> insert t (held J os s)"
  by (auto simp: held_def stored_envelope_def legacy_secret_def legacy_async_def
      decode_envelope_stored split: if_splits)

section \<open>What each step may do\<close>

text \<open>Storing a pair: nothing happened, or the envelope is written and some of the marker and
  the old entries are gone; a return means that the marker is gone.\<close>

definition persisted :: "json \<Rightarrow> os \<Rightarrow> SessionTokenPair \<Rightarrow> store \<Rightarrow> unit run \<Rightarrow> store \<Rightarrow> bool" where
  "persisted J os t s r s' \<longleftrightarrow>
     ((\<forall>u. r \<noteq> Ret u) \<and> s' = s)
     \<or> (erased {REVOKED, secret_slot os ACCESS_TOKEN_KEY, secret_slot os REFRESH_TOKEN_KEY}
           (put_slot (secret_slot os SESSION_KEY) (json_stringify J (pair_json t)) s) s'
        \<and> (\<forall>u. r = Ret u \<longrightarrow> st_kv s' REVOKED = None))"

lemma wp_persistTokens: "wp (persistTokens J os t) (persisted J os t s) s"
proof -
  obtain enc where enc: "json_stringify J (pair_json t) = Some enc"
    using json.pair_text [of J t] by blast
  let ?D = "{REVOKED, secret_slot os ACCESS_TOKEN_KEY, secret_slot os REFRESH_TOKEN_KEY}"
  have clean: "wp (all_settled [deleteSecret os ACCESS_TOKEN_KEY, deleteSecret os REFRESH_TOKEN_KEY])
      (\<lambda>r s'. erased ?D s1 s' \<and> (\<forall>e. r \<noteq> Thrown e)) s1" for s1
    by (rule wp_all_settled_erased)
      (auto simp: deleteSecret_def intro!: wp_remove_item erased_remove)
  have tail: "wp (all_settled [deleteSecret os ACCESS_TOKEN_KEY, deleteSecret os REFRESH_TOKEN_KEY])
      (\<lambda>r s'. case r of Ret x \<Rightarrow> wp (io_return ()) (persisted J os t s) s'
        | Thrown e \<Rightarrow> persisted J os t s (Thrown e) s' | Killed \<Rightarrow> persisted J os t s Killed s') s2"
    if s1: "s1 = put_slot (secret_slot os SESSION_KEY) (Some enc) s" and s2: "s2 = put_slot REVOKED None s1"
    for s1 s2
  proof (rule wp_conseq [OF clean])
    fix r s'
    assume post: "erased ?D s2 s' \<and> (\<forall>e. r \<noteq> Thrown e)"
    have "erased ?D s1 s2" using s2 by (simp add: erased_remove)
    then have "erased ?D s1 s'" using post by (auto intro: erased_trans)
    moreover have "st_kv s' REVOKED = None"
      using post s2 by (auto intro: erased_None)
    ultimately show "case r of Ret x \<Rightarrow> wp (io_return ()) (persisted J os t s) s'
        | Thrown e \<Rightarrow> persisted J os t s (Thrown e) s' | Killed \<Rightarrow> persisted J os t s Killed s'"
      using s1 enc post by (auto simp: persisted_def split: run.splits intro!: wp_return)
  qed
  show ?thesis
    unfolding persistTokens_def enc option.case setSecret_def
    by (rule wp_seq, rule wp_set_item)
      (auto simp: persisted_def enc intro!: wp_seq wp_remove_item tail intro: erased_remove)
qed

lemma persisted_view:
  assumes "persisted J os t s r s'" and "pair_ok t"
  shows "view J os s' = view J os s \<or> view J os s' = Some t \<or> (revoked s' \<and> view J os s' = None)"
    and "r = Ret u \<Longrightarrow> view J os s' = Some t \<and> \<not> revoked s'"
    and "\<not> revoked s \<Longrightarrow> view J os s' = view J os s \<or> view J os s' = Some t"
proof -
  let ?S = "secret_slot os SESSION_KEY"
  have env: "stored_envelope J os s' = Some t"
    if "erased {REVOKED, secret_slot os ACCESS_TOKEN_KEY, secret_slot os REFRESH_TOKEN_KEY}
        (put_slot ?S (json_stringify J (pair_json t)) s) s'"
    using erased_other [OF that, of ?S] assms(2)
    by (simp add: stored_envelope_def decode_envelope_stored)
  have nr: "\<not> revoked s'" if "\<not> revoked s" and
      "erased {REVOKED, secret_slot os ACCESS_TOKEN_KEY, secret_slot os REFRESH_TOKEN_KEY}
        (put_slot ?S (json_stringify J (pair_json t)) s) s'"
    using that(1) not_revoked_erased [OF _ that(2)] by (simp add: revoked_def)
  show "view J os s' = view J os s \<or> view J os s' = Some t \<or> (revoked s' \<and> view J os s' = None)"
    using assms(1) env by (auto simp: persisted_def view_def)
  show "r = Ret u \<Longrightarrow> view J os s' = Some t \<and> \<not> revoked s'"
    using assms(1) env by (auto simp: persisted_def view_def)
  show "\<not> revoked s \<Longrightarrow> view J os s' = view J os s \<or> view J os s' = Some t"
    using assms(1) env nr by (auto simp: persisted_def view_def)
qed

lemma persisted_notices: "persisted J os t s r s' \<Longrightarrow> st_notices s' = st_notices s"
  by (auto simp: persisted_def dest: erased_notices)

lemma persisted_held: "persisted J os t s r s' \<Longrightarrow> held J os s' \<subseteq> insert t (held J os s)"
  unfolding persisted_def using held_put_session held_erased by blast

lemma wp_removeLegacy:
  "wp removeLegacyAsyncSession (\<lambda>r s'. erased (set LEGACY_ASYNC_SLOTS) s s') s"
  unfolding removeLegacyAsyncSession_def
  by (rule wp_seq, rule wp_conseq [OF wp_promise_all_remove])
    (auto split: run.splits intro!: wp_return)

lemma wp_try_removeLegacy:
  "wp (io_try removeLegacyAsyncSession (\<lambda>_. io_return ()))
     (\<lambda>r s'. erased (set LEGACY_ASYNC_SLOTS) s s' \<and> (\<forall>e. r \<noteq> Thrown e)) s"
  by (rule wp_try, rule wp_conseq [OF wp_removeLegacy])
    (auto split: run.splits intro!: wp_return)

text \<open>A read keeps the session and answers it.\<close>

definition read_post :: "json \<Rightarrow> os \<Rightarrow> store \<Rightarrow> SessionTokenPair option run \<Rightarrow> store \<Rightarrow> bool" where
  "read_post J os s r s' \<longleftrightarrow> view J os s' = view J os s \<and> st_notices s' = st_notices s
     \<and> held J os s' \<subseteq> held J os s
     \<and> (\<forall>t. r = Ret t \<longrightarrow> t = view J os s)"

definition secured :: "json \<Rightarrow> os \<Rightarrow> SessionTokenPair \<Rightarrow> store \<Rightarrow> store \<Rightarrow> bool" where
  "secured J os t s0 s \<longleftrightarrow> stored_envelope J os s = Some t \<and> \<not> revoked s
     \<and> st_notices s = st_notices s0 \<and> held J os s \<subseteq> held J os s0"

lemma secured_view:
  "secured J os t s0 s \<Longrightarrow> view J os s = Some t \<and> st_notices s = st_notices s0
     \<and> held J os s \<subseteq> held J os s0"
  by (simp add: secured_def view_envelope)

lemma secured_erased:
  assumes "secured J os t s0 s" and "erased (set LEGACY_ASYNC_SLOTS) s s'"
  shows "secured J os t s0 s'"
  using assms not_revoked_erased [OF _ assms(2)] erased_notices [OF assms(2)]
    erased_other [OF assms(2), of "secret_slot os SESSION_KEY"] held_erased [OF assms(2), of J os]
  by (auto simp: secured_def stored_envelope_def)

lemma secured_erased_view:
  assumes "secured J os t s0 s" and "erased (set LEGACY_ASYNC_SLOTS) s s'"
  shows "view J os s' = Some t" and "st_notices s' = st_notices s0" and "held J os s' \<subseteq> held J os s0"
  using secured_view [OF secured_erased [OF assms]] by simp_all

lemma secured_user: "secured J os t s0 s \<Longrightarrow> secured J os t s0 (put_slot (secret_slot os USER_KEY) v s)"
  by (simp add: secured_def stored_envelope_def revoked_def)

lemma persisted_secured:
  assumes "persisted J os t s (Ret u) s'" and "pair_ok t" and "t \<in> held J os s"
  shows "secured J os t s s'"
proof -
  have er: "erased {REVOKED, secret_slot os ACCESS_TOKEN_KEY, secret_slot os REFRESH_TOKEN_KEY}
      (put_slot (secret_slot os SESSION_KEY) (json_stringify J (pair_json t)) s) s'"
    and "st_kv s' REVOKED = None"
    using assms(1) by (simp_all add: persisted_def)
  then show ?thesis
    using erased_other [OF er, of "secret_slot os SESSION_KEY"] assms(2) erased_notices [OF er]
      persisted_held [OF assms(1)] assms(3)
    by (auto simp: secured_def stored_envelope_def decode_envelope_stored)
qed

lemma wp_migrateProfile:
  assumes "secured J os t s0 s"
  shows "wp (migrateProfile J os u) (\<lambda>r s'. secured J os t s0 s') s"
proof -
  have legacy: "wp removeLegacyAsyncSession (\<lambda>r s'. secured J os t s0 s') s1"
    if "secured J os t s0 s1" for s1
    by (rule wp_conseq [OF wp_removeLegacy]) (rule secured_erased [OF that])
  show ?thesis
    unfolding migrateProfile_def
    by (rule wp_finally, rule wp_try)
      (use assms in \<open>auto split: option.split run.splits simp: setSecret_def
        intro!: wp_bind wp_lift wp_throw wp_return wp_set_item wp_conseq [OF legacy] secured_user\<close>)
qed

lemma legacy_secret_Some:
  "normalizeSessionTokenPair (text_value (st_kv s (secret_slot os ACCESS_TOKEN_KEY)))
     (text_value (st_kv s (secret_slot os REFRESH_TOKEN_KEY))) = Inr t \<Longrightarrow> legacy_secret os s = Some t"
  by (simp add: legacy_secret_def)

lemma read_postI:
  assumes "view J os s' = view J os s" and "st_notices s' = st_notices s"
    and "held J os s' \<subseteq> held J os s" and "\<And>t. r = Ret t \<Longrightarrow> t = view J os s"
  shows "read_post J os s r s'"
  using assms by (simp add: read_post_def)

text \<open>From the moment a found pair is being stored again.\<close>

lemma wp_persist_found:
  assumes found: "view J os s = Some t" and ok: "pair_ok t"
    and rest: "\<And>s1. secured J os t s s1 \<Longrightarrow> wp m (read_post J os s) s1"
  shows "wp (io_seq (persistTokens J os t) m) (read_post J os s) s"
proof -
  have "\<not> revoked s" using found by (auto simp: view_def split: if_splits)
  then have "view J os s' = view J os s" if "persisted J os t s r s'" for r s'
    using persisted_view(3) [OF that ok] found by auto
  moreover have "x \<in> held J os s" if "persisted J os t s r s'" and "x \<in> held J os s'" for r s' x
    using persisted_held [OF that(1)] view_held [OF found] that(2) by blast
  ultimately show ?thesis
    by (intro wp_seq wp_conseq [OF wp_persistTokens])
      (auto split: run.splits intro!: rest read_postI simp: ok persisted_notices
        intro: persisted_secured view_held [OF found])
qed

lemma wp_return_secured:
  "secured J os t s s1 \<Longrightarrow> view J os s = Some t \<Longrightarrow>
    wp (io_return (Some t)) (read_post J os s) s1"
  by (auto intro!: wp_return read_postI dest: secured_view)

lemma wp_migrateValues:
  assumes "os \<noteq> Web" and v: "view J os s = legacy_async os s"
    and stored: "stored_envelope J os s = None" "legacy_secret os s = None"
    and a: "a = text_value (st_kv s (AsyncArea, ''accessToken''))"
    and r: "r = text_value (st_kv s (AsyncArea, ''refreshToken''))"
  shows "wp (migrateValues J os a r u) (read_post J os s) s"
proof (cases "normalizeSessionTokenPair a r")
  case (Inl e)
  then have none: "legacy_async os s = None" using a r by (simp add: legacy_async_def)
  have "wp (io_seq removeLegacyAsyncSession (io_return None)) (read_post J os s) s"
    by (rule wp_seq, rule wp_conseq [OF wp_removeLegacy])
      (use none v stored in \<open>auto split: run.splits intro!: wp_return read_postI
        view_erased_async intro: erased_notices held_erasedD\<close>)
  moreover have "wp (io_return None) (read_post J os s) s"
    using none v by (auto intro!: wp_return read_postI)
  ultimately show ?thesis using Inl by (simp add: migrateValues_def)
next
  case (Inr t)
  then have t: "a = JStr (accessToken t)" "pair_ok t" by (simp_all add: normalizePair_Inr)
  have found: "view J os s = Some t"
    using v a r Inr \<open>os \<noteq> Web\<close> by (simp add: legacy_async_def)
  have "wp (io_seq (migrateProfile J os u) (io_return (Some t))) (read_post J os s) s1"
    if "secured J os t s s1" for s1
    by (rule wp_seq, rule wp_conseq [OF wp_migrateProfile [OF that]])
      (use found in \<open>auto split: run.splits intro!: wp_return_secured read_postI dest: secured_view\<close>)
  then have "wp (io_seq (persistTokens J os t) (io_seq (migrateProfile J os u) (io_return (Some t))))
      (read_post J os s) s"
    by (rule wp_persist_found [OF found t(2)])
  moreover have "truthy a" using t by (simp add: pair_ok_def token_ok_def)
  ultimately show ?thesis using Inr by (simp add: migrateValues_def)
qed

lemma wp_migrate:
  assumes "\<not> revoked s" and "stored_envelope J os s = None" and "legacy_secret os s = None"
  shows "wp (migrateLegacyAsyncSession J os) (read_post J os s) s"
proof -
  have v: "view J os s = legacy_async os s" using assms by (simp add: view_def)
  show ?thesis
  proof (cases "os = Web")
    case True
    then have "view J os s = None" using v by (simp add: legacy_async_def)
    with True show ?thesis
      by (auto simp: migrateLegacyAsyncSession_def intro!: wp_return read_postI)
  next
    case False
    have "wp (io_bind (promise_all (map get_item LEGACY_ASYNC_SLOTS)) (\<lambda>vals.
        migrateValues J os (text_value (vals ! 0)) (text_value (vals ! 1)) (text_value (vals ! 2))))
        (read_post J os s) s"
      by (rule wp_bind, rule wp_conseq [OF wp_promise_all_read])
        (use False v assms(2,3) in \<open>auto split: run.splits intro!: wp_migrateValues read_postI\<close>)
    with False show ?thesis by (simp add: migrateLegacyAsyncSession_def)
  qed
qed

text \<open>The repeated clean-up while the logout marker is there.\<close>

lemma wp_forgetRevoked:
  assumes "revoked s"
  shows "wp (forgetRevoked os) (read_post J os s) s"
proof -
  let ?D = "{secret_slot os ACCESS_TOKEN_KEY, secret_slot os REFRESH_TOKEN_KEY,
      secret_slot os SESSION_KEY} \<union> set LEGACY_ASYNC_SLOTS"
  have legacy: "wp removeLegacyAsyncSession (\<lambda>r s'. erased ?D s1 s') s1" for s1
    by (rule wp_conseq [OF wp_removeLegacy]) (auto elim: erased_mono)
  have "wp (all_settled [deleteSecret os ACCESS_TOKEN_KEY, deleteSecret os REFRESH_TOKEN_KEY,
          deleteSecret os SESSION_KEY, removeLegacyAsyncSession])
      (\<lambda>r s'. erased ?D s s' \<and> (\<forall>e. r \<noteq> Thrown e)) s"
    by (rule wp_all_settled_erased)
      (use legacy in \<open>auto simp: deleteSecret_def intro!: wp_remove_item erased_remove\<close>)
  then show ?thesis
    unfolding forgetRevoked_def
    by (intro wp_seq, elim wp_conseq)
      (use assms in \<open>auto split: run.splits intro!: wp_return read_postI view_erased_revoked
        simp: view_revoked intro: erased_notices held_erasedD\<close>)
qed

lemma wp_returnFound:
  assumes "secured J os t s s1" and "view J os s = Some t"
  shows "wp (returnFound t) (read_post J os s) s1"
  unfolding returnFound_def
  by (rule wp_seq, rule wp_conseq [OF wp_try_removeLegacy])
    (use assms secured_erased_view [OF assms(1)] in
      \<open>simp split: run.splits add: wp_return read_post_def del: list.set\<close>)

lemma wp_read_after:
  assumes "wp m (read_post J os s1) s1" and "erased D s s1" and "view J os s1 = view J os s"
  shows "wp m (read_post J os s) s1"
  by (rule wp_conseq [OF assms(1)])
    (use assms(3) erased_notices [OF assms(2)] held_erased [OF assms(2), of J os] in
      \<open>auto simp: read_post_def\<close>)

lemma wp_dropUnreadable:
  assumes "\<not> revoked s" and "stored_envelope J os s = None" and "legacy_secret os s = None"
  shows "wp (dropUnreadable J os) (read_post J os s) s"
proof -
  let ?D = "set [secret_slot os ACCESS_TOKEN_KEY, secret_slot os REFRESH_TOKEN_KEY]"
  have v: "view J os s2 = view J os s" if "erased ?D s s2" for s2
    using assms(2,3) that by (rule view_erased_async) simp_all
  have m: "wp (migrateLegacyAsyncSession J os) (read_post J os s) s2" if er: "erased ?D s s2" for s2
    by (rule wp_read_after [OF _ er v [OF er]],
      rule wp_migrate [OF not_revoked_erased [OF assms(1) er] stored_envelope_erased [OF assms(2) er]
        legacy_secret_erased [OF assms(3) er]])
  show ?thesis
    unfolding dropUnreadable_def
    by (rule wp_seq, rule wp_conseq [OF wp_promise_all_remove])
      (auto split: run.splits simp del: list.set list.map intro!: read_postI v m
        intro: erased_notices held_erasedD)
qed

lemma wp_readKeychainPair:
  assumes "\<not> revoked s" and "stored_envelope J os s = None"
  shows "wp (readKeychainPair J os) (read_post J os s) s"
proof -
  let ?a = "text_value (st_kv s (secret_slot os ACCESS_TOKEN_KEY))"
  let ?r = "text_value (st_kv s (secret_slot os REFRESH_TOKEN_KEY))"
  have body: "wp (case normalizeSessionTokenPair ?a ?r of
         Inl _ \<Rightarrow> dropUnreadable J os
       | Inr tokens \<Rightarrow> io_seq (persistTokens J os tokens) (returnFound tokens)) (read_post J os s) s"
  proof (cases "normalizeSessionTokenPair ?a ?r")
    case (Inl e)
    then have "legacy_secret os s = None" by (simp add: legacy_secret_def)
    then show ?thesis unfolding Inl using wp_dropUnreadable assms by simp
  next
    case (Inr t)
    then have "view J os s = Some t" and "pair_ok t"
      using assms legacy_secret_Some [OF Inr] by (simp_all add: view_def normalizePair_Inr)
    then show ?thesis
      unfolding Inr by (auto intro!: wp_persist_found wp_returnFound)
  qed
  show ?thesis
    unfolding readKeychainPair_def
    by (rule wp_bind, rule wp_conseq [OF wp_promise_all_read])
      (use body in \<open>auto split: run.splits intro!: read_postI\<close>)
qed

text \<open>Deleting an envelope that holds no pair.\<close>

lemma view_erased_session:
  assumes none: "stored_envelope J os s = None" and er: "erased {secret_slot os SESSION_KEY} s s'"
    and "\<not> revoked s"
  shows "view J os s' = view J os s"
proof -
  have "legacy_secret os s' = legacy_secret os s" "legacy_async os s' = legacy_async os s"
    using er by (simp_all add: legacy_secret_def legacy_async_def erased_other)
  then show ?thesis
    using stored_envelope_erased [OF none er] not_revoked_erased [OF assms(3) er] none assms(3)
    by (auto simp: view_def split: option.split)
qed

lemma wp_read_no_envelope:
  assumes nr: "\<not> revoked s" and none: "stored_envelope J os s = None"
  shows "wp (io_seq (if b then remove_item (secret_slot os SESSION_KEY) else io_return ())
    (readKeychainPair J os)) (read_post J os s) s"
    (is "wp (io_seq ?del ?rest) _ _")
proof -
  let ?E = "erased {secret_slot os SESSION_KEY}"
  have del: "wp ?del (\<lambda>r s'. ?E s s') s"
    by (auto intro!: wp_return wp_remove_item erased_remove)
  have rest: "wp ?rest (read_post J os s) s1" if er: "?E s s1" for s1
    by (rule wp_read_after [OF _ er view_erased_session [OF none er nr]],
      rule wp_readKeychainPair [OF not_revoked_erased [OF nr er] stored_envelope_erased [OF none er]])
  show ?thesis
    by (rule wp_seq, rule wp_conseq [OF del])
      (auto split: run.splits intro!: rest read_postI view_erased_session [OF none _ nr]
        intro: erased_notices held_erasedD)
qed

lemma wp_readTokensUnlocked: "wp (readTokensUnlocked J os) (read_post J os s) s"
proof -
  let ?S = "secret_slot os SESSION_KEY"
  have found: "wp (returnFound t) (read_post J os s) s"
    if "\<not> revoked s" and "decode_envelope J (st_kv s ?S) = Some t" for t
    using that by (intro wp_returnFound) (simp_all add: secured_def view_def stored_envelope_def)
  show ?thesis
    unfolding readTokensUnlocked_def getSecret_def deleteSecret_def
    by (intro wp_bind wp_get_item)
      (auto simp: revoked_def [symmetric] stored_envelope_def
        intro!: read_postI wp_bind wp_get_item wp_forgetRevoked found
          wp_read_no_envelope [where b = True, simplified]
          wp_read_no_envelope [where b = False, simplified]
        split: option.split)
qed

section \<open>Logging out\<close>

definition session_slots :: "os \<Rightarrow> slot list" where
  "session_slots os = [secret_slot os ACCESS_TOKEN_KEY, secret_slot os REFRESH_TOKEN_KEY,
     secret_slot os SESSION_KEY, secret_slot os USER_KEY] @ LEGACY_ASYNC_SLOTS"

definition cleared :: "json \<Rightarrow> os \<Rightarrow> store \<Rightarrow> unit run \<Rightarrow> store \<Rightarrow> bool" where
  "cleared J os s r s' \<longleftrightarrow> st_notices s' = st_notices s \<and> held J os s' \<subseteq> held J os s
     \<and> (revoked s \<longrightarrow> revoked s')
     \<and> (\<forall>u. r = Ret u \<longrightarrow> revoked s' \<and> (\<forall>x\<in>set (session_slots os). st_kv s' x = None))"

lemma clearedI:
  assumes "s1 = s \<or> s1 = put_slot REVOKED (Some (js ''1'')) s"
    and er: "erased (set (session_slots os)) s1 s'"
    and "\<And>u. r = Ret u \<Longrightarrow> s1 = put_slot REVOKED (Some (js ''1'')) s"
    and "\<And>u. r = Ret u \<Longrightarrow> \<forall>x\<in>set (session_slots os). st_kv s' x = None"
  shows "cleared J os s r s'"
proof -
  have "revoked s' = revoked s1"
    using erased_other [OF er, of REVOKED] by (simp add: session_slots_def revoked_def)
  moreover have "revoked (put_slot REVOKED (Some (js ''1'')) s)"
    by (simp add: revoked_def)
  moreover have "held J os s' \<subseteq> held J os s" "st_notices s' = st_notices s"
    using held_erased [OF er, of J os] erased_notices [OF er] assms(1) by auto
  ultimately show ?thesis
    using assms(1,3,4) by (auto simp: cleared_def)
qed

lemma wp_clearSessionUnlocked: "wp (clearSessionUnlocked os) (cleared J os s) s"
proof -
  have rest: "wp (io_bind (all_settled (map remove_item (session_slots os))) (\<lambda>rs. io_return (q # rs)))
      (\<lambda>r s'. case r of
          Ret rs \<Rightarrow> wp (io_seq (io_lift (first_failure rs)) (io_return ())) (cleared J os s) s'
        | Thrown e \<Rightarrow> cleared J os s (Thrown e) s' | Killed \<Rightarrow> cleared J os s Killed s') s1"
    if "s1 = s \<or> s1 = put_slot REVOKED (Some (js ''1'')) s"
      and "\<not> isl q \<Longrightarrow> s1 = put_slot REVOKED (Some (js ''1'')) s" for q s1
    by (rule wp_bind, rule wp_conseq [OF wp_remove_all])
      (use that in \<open>auto split: run.splits simp: removal_def dest!: first_failure_Inr
        intro!: wp_return wp_seq wp_lift clearedI [of s1]\<close>)
  show ?thesis
    unfolding clearSessionUnlocked_def all_settled.simps session_slots_def [symmetric]
    by (rule wp_bind, rule wp_bind, rule wp_settle, rule wp_set_item)
      (auto intro!: rest clearedI [of s])
qed

section \<open>Committing a sign-in\<close>

text \<open>Only the envelope of a revoked session may be left over; no older layout holds a pair.\<close>

definition signed_out :: "os \<Rightarrow> store \<Rightarrow> bool" where
  "signed_out os s \<longleftrightarrow> revoked s \<and> legacy_secret os s = None \<and> legacy_async os s = None"

definition commit_stage :: "json \<Rightarrow> os \<Rightarrow> SessionTokenPair \<Rightarrow> store \<Rightarrow> store \<Rightarrow> bool" where
  "commit_stage J os t s s1 \<longleftrightarrow> held J os s1 \<subseteq> insert t (held J os s) \<and> st_notices s1 = st_notices s
     \<and> (signed_out os s \<longrightarrow> revoked s1 \<or> held J os s1 \<subseteq> {t})"

lemma commit_stage_refl: "commit_stage J os t s s"
  by (auto simp: commit_stage_def signed_out_def)

lemma commit_stage_persisted:
  assumes "persisted J os t s r s1"
  shows "commit_stage J os t s s1"
proof -
  let ?p = "put_slot (secret_slot os SESSION_KEY) (json_stringify J (pair_json t)) s"
  have "held J os s1 \<subseteq> {t}" if "erased D ?p s1" and "signed_out os s" for D
  proof -
    have "held J os ?p \<subseteq> {t}"
      using that(2) by (auto simp: held_def signed_out_def stored_envelope_def legacy_secret_def
          legacy_async_def decode_envelope_stored split: if_splits sum.splits)
    then show ?thesis using held_erased [OF that(1)] by blast
  qed
  then show ?thesis
    using persisted_held [OF assms] persisted_notices [OF assms] assms
    by (auto simp: commit_stage_def persisted_def signed_out_def)
qed

lemma commit_stage_cleared:
  "commit_stage J os t s s1 \<Longrightarrow> cleared J os s1 r s2 \<Longrightarrow> commit_stage J os t s s2"
  by (auto simp: commit_stage_def cleared_def)

lemma commit_stage_user:
  "commit_stage J os t s s1 \<Longrightarrow> commit_stage J os t s (put_slot (secret_slot os USER_KEY) v s1)"
  by (auto simp: commit_stage_def revoked_def)

definition commit_post ::
    "json \<Rightarrow> os \<Rightarrow> SessionTokenPair \<Rightarrow> jsstring \<Rightarrow> bool \<Rightarrow> bool \<Rightarrow> bool \<Rightarrow> store \<Rightarrow> bool run \<Rightarrow> store \<Rightarrow> bool" where
  "commit_post J os t enc c1 c2 c3 s r s' \<longleftrightarrow> commit_stage J os t s s'
     \<and> (\<forall>b. r = Ret b \<longrightarrow> b = (c1 \<and> c2 \<and> c3))
     \<and> (r = Ret True \<longrightarrow> view J os s' = Some t \<and> st_kv s' (secret_slot os USER_KEY) = Some enc)
     \<and> (r = Ret False \<longrightarrow> (if c1 then view J os s' = None else s' = s))"

lemma commit_post_simps [simp]:
  "commit_post J os t enc c1 c2 c3 s (Thrown e) s' \<longleftrightarrow> commit_stage J os t s s'"
  "commit_post J os t enc c1 c2 c3 s Killed s' \<longleftrightarrow> commit_stage J os t s s'"
  by (simp_all add: commit_post_def)

lemma wp_clear_stage:
  assumes "commit_stage J os t s s1"
  shows "wp (clearSessionUnlocked os)
    (\<lambda>r s2. commit_stage J os t s s2 \<and> (\<forall>u. r = Ret u \<longrightarrow> revoked s2)) s1"
  by (rule wp_conseq [OF wp_clearSessionUnlocked [where J = J]])
    (use commit_stage_cleared [OF assms] in \<open>auto simp: cleared_def\<close>)

lemma wp_rollback:
  assumes "commit_stage J os t s s1"
  shows "wp (rollback os e) (\<lambda>r s2. commit_stage J os t s s2 \<and> (\<forall>b. r \<noteq> Ret b)) s1"
  unfolding rollback_def
  by (rule wp_seq, rule wp_try, rule wp_conseq [OF wp_clear_stage [OF assms]])
    (auto split: run.splits intro!: wp_return wp_throw)

lemma wp_abandon:
  assumes "commit_stage J os t s s1" and "\<not> (c1 \<and> c2 \<and> c3)" and "c1"
  shows "wp (abandon os) (commit_post J os t enc c1 c2 c3 s) s1"
  unfolding abandon_def
  by (rule wp_seq, rule wp_conseq [OF wp_clear_stage [OF assms(1)]])
    (use assms(2,3) in \<open>auto split: run.splits intro!: wp_return simp: commit_post_def view_revoked\<close>)

lemma view_put_user [simp]: "view J os (put_slot (secret_slot os USER_KEY) v s) = view J os s"
  by (simp add: view_def revoked_def stored_envelope_def legacy_secret_def legacy_async_def
      cong: option.case_cong)

lemma wp_commit_profile:
  assumes "commit_stage J os t s s1" "view J os s1 = Some t"
  shows "wp (io_seq (setSecret os USER_KEY enc) (if \<not> c3 then abandon os else io_return True))
    (commit_post J os t enc True True c3 s) s1"
  unfolding setSecret_def
  by (rule wp_seq, rule wp_set_item)
    (use assms in \<open>auto intro!: wp_abandon wp_return commit_stage_user
      simp: commit_post_def [of _ _ _ _ _ _ _ _ "Ret True"]\<close>)

lemma wp_commitUnlocked:
  assumes ok: "pair_ok t"
  shows "wp (commitUnlocked J os t enc c1 c2 c3) (commit_post J os t enc c1 c2 c3 s) s"
proof (cases c1)
  case False
  then show ?thesis
    by (auto simp: commitUnlocked_def commit_post_def intro!: wp_return commit_stage_refl)
next
  case True
  have guarded: "wp (io_try m (rollback os)) (commit_post J os t enc True c2 c3 s) s1"
    if "wp m (commit_post J os t enc True c2 c3 s) s1" for m s1
  proof (rule wp_try, rule wp_conseq [OF that])
    have "wp (rollback os e) (commit_post J os t enc True c2 c3 s) s1"
      if "commit_stage J os t s s1" for e s1
      by (rule wp_conseq [OF wp_rollback [OF that]]) (auto simp: commit_post_def)
    then show "case r of Ret x \<Rightarrow> commit_post J os t enc True c2 c3 s (Ret x) s'
        | Thrown e \<Rightarrow> wp (rollback os e) (commit_post J os t enc True c2 c3 s) s'
        | Killed \<Rightarrow> commit_post J os t enc True c2 c3 s Killed s'"
      if "commit_post J os t enc True c2 c3 s r s'" for r s'
      using that by (cases r) auto
  qed
  have stored: "commit_stage J os t s s1" "r = Ret u \<Longrightarrow> view J os s1 = Some t"
    if "persisted J os t s r s1" for r s1 u
    using commit_stage_persisted [OF that] persisted_view(2) [OF that ok] by blast+
  have "wp (io_seq (persistTokens J os t)
          (if \<not> c2 then abandon os
           else io_seq (setSecret os USER_KEY enc)
             (if \<not> c3 then abandon os else io_return True))) (commit_post J os t enc True c2 c3 s) s"
    by (rule wp_seq, rule wp_conseq [OF wp_persistTokens])
      (auto split: run.splits intro: stored intro!: wp_abandon wp_commit_profile [of _ _ _ _ _ _ True, simplified]
        wp_commit_profile [of _ _ _ _ _ _ False, simplified])
  then show ?thesis
    using True by (simp add: commitUnlocked_def guarded)
qed

section \<open>Rotating, updating and expiring\<close>

text \<open>What a caller's refresh token is compared with.\<close>

definition current_refresh :: "json \<Rightarrow> os \<Rightarrow> store \<Rightarrow> jsstring option" where
  "current_refresh J os s = map_option refreshToken (view J os s)"

definition unchanged :: "json \<Rightarrow> os \<Rightarrow> store \<Rightarrow> store \<Rightarrow> bool" where
  "unchanged J os s s1 \<longleftrightarrow> view J os s1 = view J os s \<and> st_notices s1 = st_notices s
     \<and> held J os s1 \<subseteq> held J os s"

text \<open>Every conditional mutation reads the session first and compares.\<close>

lemma wp_if_current:
  assumes hit: "\<And>s1. unchanged J os s s1 \<Longrightarrow> current_refresh J os s = Some expected \<Longrightarrow> wp m Q s1"
    and miss: "\<And>s1. unchanged J os s s1 \<Longrightarrow> current_refresh J os s \<noteq> Some expected \<Longrightarrow> Q (Ret False) s1"
    and failed: "\<And>e s1. unchanged J os s s1 \<Longrightarrow> Q (Thrown e) s1 \<and> Q Killed s1"
  shows "wp (io_bind (readTokensUnlocked J os) (\<lambda>current.
      if map_option refreshToken current \<noteq> Some expected then io_return False else m)) Q s"
proof (rule wp_bind, rule wp_conseq [OF wp_readTokensUnlocked])
  fix r s1
  assume read: "read_post J os s r s1"
  then have same: "unchanged J os s s1"
    by (simp add: read_post_def unchanged_def)
  have body: "wp (if map_option refreshToken (view J os s) \<noteq> Some expected then io_return False else m) Q s1"
    using hit [OF same] miss [OF same] unfolding current_refresh_def by (metis wp_return)
  show "case r of
      Ret x \<Rightarrow> wp (if map_option refreshToken x \<noteq> Some expected then io_return False else m) Q s1
      | Thrown e \<Rightarrow> Q (Thrown e) s1 | Killed \<Rightarrow> Q Killed s1"
  proof (cases r)
    case (Ret x)
    then have "x = view J os s" using read by (simp add: read_post_def)
    with Ret body show ?thesis by (simp only: run.case)
  qed (use failed [OF same] in simp_all)
qed

definition replace_post ::
    "json \<Rightarrow> os \<Rightarrow> jsstring \<Rightarrow> SessionTokenPair \<Rightarrow> store \<Rightarrow> bool run \<Rightarrow> store \<Rightarrow> bool" where
  "replace_post J os expected t s r s' \<longleftrightarrow>
     (if current_refresh J os s = Some expected
      then st_notices s' = st_notices s \<and> held J os s' \<subseteq> insert t (held J os s)
        \<and> (view J os s' = view J os s \<or> view J os s' = Some t)
        \<and> r \<noteq> Ret False \<and> (r = Ret True \<longrightarrow> view J os s' = Some t)
      else unchanged J os s s' \<and> r \<noteq> Ret True)"

lemma wp_persist_current:
  assumes ok: "pair_ok t" and s1: "unchanged J os s s1"
    and cur: "current_refresh J os s = Some expected"
  shows "wp (io_seq (persistTokens J os t) (io_return True)) (replace_post J os expected t s) s1"
proof -
  have "\<not> revoked s1" using cur s1 view_revoked by (fastforce simp: current_refresh_def unchanged_def)
  then have "view J os s2 = view J os s \<or> view J os s2 = Some t"
    and "st_notices s2 = st_notices s" and "r = Ret u \<Longrightarrow> view J os s2 = Some t"
    and "held J os s2 \<subseteq> insert t (held J os s)"
    if "persisted J os t s1 r s2" for r s2 u
    using persisted_view(2,3) [OF that ok] persisted_notices [OF that] persisted_held [OF that] s1
    by (auto simp: unchanged_def)
  then show ?thesis
    by (intro wp_seq wp_conseq [OF wp_persistTokens])
      (use cur in \<open>auto split: run.splits intro!: wp_return simp: replace_post_def\<close>)
qed

text \<open>Arguments are normalized before the queue is entered.\<close>

lemma opaque_error: "normalizeOpaqueSessionToken e = Inl err \<Longrightarrow> err = invalid_session"
  by (simp add: normalizeOpaqueSessionToken_def split: if_splits)

lemma wp_lift_bind:
  assumes "\<And>e. r = Inl e \<Longrightarrow> Q (Thrown e) s" and "\<And>x. r = Inr x \<Longrightarrow> wp (f x) Q s"
  shows "wp (io_bind (io_lift r) f) Q s"
  by (rule wp_bind, rule wp_lift) (simp_all add: assms)

lemma wp_replaceTokensIfCurrent:
  "wp (replaceTokensIfCurrent J os e a r)
     (\<lambda>res s'. case (normalizeOpaqueSessionToken e, normalizeSessionTokenPair a r) of
         (Inr expected, Inr t) \<Rightarrow> replace_post J os expected t s res s'
       | _ \<Rightarrow> res = Thrown invalid_session \<and> s' = s) s"
  unfolding replaceTokensIfCurrent_def
proof (rule wp_lift_bind, goal_cases)
  case (2 expected)
  then show ?case
  proof (intro wp_lift_bind, goal_cases)
    case (2 t)
    then have ok: "pair_ok t" by (simp add: normalizePair_Inr)
    have "wp (io_bind (readTokensUnlocked J os) (\<lambda>current.
       if map_option refreshToken current \<noteq> Some expected then io_return False
       else io_seq (persistTokens J os t) (io_return True))) (replace_post J os expected t s) s"
      by (rule wp_if_current, rule wp_persist_current [OF ok], assumption+)
        (auto simp: replace_post_def unchanged_def)
    with 2 show ?case by simp
  qed (simp add: normalizePair_error)
qed (auto simp: opaque_error)

definition profile_post :: "json \<Rightarrow> os \<Rightarrow> jsstring \<Rightarrow> jsstring \<Rightarrow> bool \<Rightarrow> store \<Rightarrow> bool run \<Rightarrow> store \<Rightarrow> bool" where
  "profile_post J os expected enc ok s r s' \<longleftrightarrow> unchanged J os s s'
     \<and> (r = Ret True \<longrightarrow> ok \<and> current_refresh J os s = Some expected
          \<and> st_kv s' (secret_slot os USER_KEY) = Some enc)"

lemma unchanged_refl [simp]: "unchanged J os s s"
  by (simp add: unchanged_def)

lemma unchanged_user [simp]:
  "unchanged J os s (put_slot (secret_slot os USER_KEY) v s1) \<longleftrightarrow> unchanged J os s s1"
  by (simp add: unchanged_def)

lemma wp_replaceUserIfRefreshTokenCurrent:
  "wp (replaceUserIfRefreshTokenCurrent J os e user c1 c2 c3)
     (\<lambda>res s'. case (normalizeOpaqueSessionToken e, encodeCachedUser J user) of
         (Inr expected, Inr enc) \<Rightarrow> profile_post J os expected enc (c1 \<and> c2 \<and> c3) s res s'
       | _ \<Rightarrow> (\<exists>err. res = Thrown err) \<and> s' = s) s"
  unfolding replaceUserIfRefreshTokenCurrent_def
proof (rule wp_lift_bind, goal_cases)
  case (2 expected)
  then show ?case
  proof (intro wp_lift_bind, goal_cases)
    case (2 enc)
    let ?Q = "profile_post J os expected enc (c1 \<and> c2 \<and> c3) s"
    have store: "wp (io_seq (setSecret os USER_KEY enc) (io_return c3)) (profile_post J os expected enc c3 s) s1"
      if "unchanged J os s s1" "current_refresh J os s = Some expected" for s1
      unfolding setSecret_def
      by (rule wp_seq, rule wp_set_item) (use that in \<open>auto intro!: wp_return simp: profile_post_def\<close>)
    have "wp (if \<not> c1 then io_return False
       else io_bind (readTokensUnlocked J os) (\<lambda>current.
         if map_option refreshToken current \<noteq> Some expected \<or> \<not> c2 then io_return False
         else io_seq (setSecret os USER_KEY enc) (io_return c3))) ?Q s"
    proof (cases "c1 \<and> c2")
      case True
      then show ?thesis
        by (simp only: simp_thms if_False if_True, intro wp_if_current store)
          (simp_all add: profile_post_def)
    next
      case False
      then show ?thesis
        by (auto intro!: wp_return wp_bind wp_conseq [OF wp_readTokensUnlocked] split: run.splits
            simp: profile_post_def read_post_def unchanged_def)
    qed
    with 2 show ?case by simp
  qed auto
qed auto

text \<open>Expiring a matching session: the notice is given once the deletion ran, even if it threw.\<close>

definition expire_post :: "json \<Rightarrow> os \<Rightarrow> jsstring \<Rightarrow> bool \<Rightarrow> store \<Rightarrow> bool run \<Rightarrow> store \<Rightarrow> bool" where
  "expire_post J os expected notify s r s' \<longleftrightarrow>
     (if current_refresh J os s = Some expected
      then held J os s' \<subseteq> held J os s \<and> r \<noteq> Ret False
        \<and> (r = Ret True \<longrightarrow> view J os s' = None \<and> st_notices s' = st_notices s + of_bool notify)
        \<and> (\<forall>e. r = Thrown e \<longrightarrow> unchanged J os s s' \<or> st_notices s' = st_notices s + of_bool notify)
        \<and> (r = Killed \<longrightarrow> st_notices s' = st_notices s)
      else unchanged J os s s' \<and> r \<noteq> Ret True)"

lemma notice_irrelevant [simp]:
  "held J os (s\<lparr>st_notices := n\<rparr>) = held J os s" "view J os (s\<lparr>st_notices := n\<rparr>) = view J os s"
  by (simp_all add: held_def view_def revoked_def stored_envelope_def legacy_secret_def
      legacy_async_def cong: option.case_cong)

lemma wp_expire_current:
  assumes s1: "unchanged J os s s1" and cur: "current_refresh J os s = Some expected"
  shows "wp (io_seq
         (io_finally (clearSessionUnlocked os) (if notify then io_notice else io_return ()))
         (io_return True)) (expire_post J os expected notify s) s1"
proof -
  have clear: "wp (clearSessionUnlocked os) (\<lambda>r s'. st_notices s' = st_notices s
      \<and> held J os s' \<subseteq> held J os s \<and> (\<forall>u. r = Ret u \<longrightarrow> view J os s' = None)) s1"
    by (rule wp_conseq [OF wp_clearSessionUnlocked [where J = J]])
      (use s1 in \<open>auto simp: cleared_def unchanged_def view_revoked\<close>)
  show ?thesis
    by (rule wp_seq, rule wp_finally, rule wp_conseq [OF clear])
      (use cur in \<open>auto split: run.splits simp: expire_post_def intro!: wp_return wp_notice\<close>)
qed

lemma wp_clearIfRefreshTokenCurrent:
  "wp (clearIfRefreshTokenCurrent J os e notify)
     (\<lambda>res s'. case normalizeOpaqueSessionToken e of
         Inr expected \<Rightarrow> expire_post J os expected notify s res s'
       | Inl _ \<Rightarrow> res = Thrown invalid_session \<and> s' = s) s"
  unfolding clearIfRefreshTokenCurrent_def
proof (rule wp_lift_bind, goal_cases)
  case (2 expected)
  have "wp (io_bind (readTokensUnlocked J os) (\<lambda>current.
       if map_option refreshToken current \<noteq> Some expected then io_return False
       else io_seq
         (io_finally (clearSessionUnlocked os) (if notify then io_notice else io_return ()))
         (io_return True))) (expire_post J os expected notify s) s"
    by (rule wp_if_current, rule wp_expire_current, assumption+)
      (auto simp: expire_post_def unchanged_def)
  with 2 show ?case by simp
qed (auto simp: opaque_error)

lemma wp_session_getUser: "wp (session_getUser J os) (\<lambda>r s'. unchanged J os s s') s"
  unfolding session_getUser_def getSecret_def deleteSecret_def
  by (intro wp_bind wp_get_item)
    (auto split: option.split intro!: wp_return wp_seq wp_remove_item)

lemma wp_commitAuthenticatedSessionIf:
  "wp (commitAuthenticatedSessionIf J os a r user c1 c2 c3)
     (\<lambda>res s'. case (normalizeSessionTokenPair a r, encodeCachedUser J user) of
         (Inr t, Inr enc) \<Rightarrow> commit_post J os t enc c1 c2 c3 s res s'
       | _ \<Rightarrow> (\<exists>err. res = Thrown err) \<and> s' = s) s"
  unfolding commitAuthenticatedSessionIf_def
proof (rule wp_lift_bind, goal_cases)
  case (2 t)
  then have "pair_ok t" by (simp add: normalizePair_Inr)
  then show ?case
    using 2 by (intro wp_lift_bind) (auto intro: wp_commitUnlocked)
qed auto

end
