(* ===== verification/SessionProperties.thy ===== *)
theory SessionProperties
  imports SessionStore
begin

text \<open>
  What the session module promises to its callers, over single calls and over every sequence of
  calls, with any operation of the device storage failing, failing after its effect, or the
  process dying. \<open>session_run\<close> is the reachability relation: its set collects the token pairs
  the store had at the start and the pairs the calls were given.
\<close>

section \<open>Calls\<close>

datatype session_call =
    GetAccessToken
  | GetRefreshToken
  | Commit jsval jsval jsval bool bool bool
  | ReplaceTokens jsval jsval jsval
  | GetUser
  | ReplaceUser jsval jsval bool bool bool
  | Clear
  | ClearIf jsval bool

definition state_after :: "'a io \<Rightarrow> store \<Rightarrow> outcome list \<Rightarrow> store" where
  "state_after m s fs = fst (snd (m s fs))"

fun call_session :: "json \<Rightarrow> os \<Rightarrow> session_call \<Rightarrow> store \<Rightarrow> outcome list \<Rightarrow> store" where
  "call_session J os GetAccessToken s fs = state_after (session_getAccessToken J os) s fs"
| "call_session J os GetRefreshToken s fs = state_after (session_getRefreshToken J os) s fs"
| "call_session J os (Commit a r u c1 c2 c3) s fs =
     state_after (commitAuthenticatedSessionIf J os a r u c1 c2 c3) s fs"
| "call_session J os (ReplaceTokens e a r) s fs = state_after (replaceTokensIfCurrent J os e a r) s fs"
| "call_session J os GetUser s fs = state_after (session_getUser J os) s fs"
| "call_session J os (ReplaceUser e u c1 c2 c3) s fs =
     state_after (replaceUserIfRefreshTokenCurrent J os e u c1 c2 c3) s fs"
| "call_session J os Clear s fs = state_after (session_clear os) s fs"
| "call_session J os (ClearIf e notify) s fs =
     state_after (clearIfRefreshTokenCurrent J os e notify) s fs"

fun issued_by :: "session_call \<Rightarrow> SessionTokenPair set" where
  "issued_by (Commit a r u c1 c2 c3) =
     (case normalizeSessionTokenPair a r of Inl _ \<Rightarrow> {} | Inr t \<Rightarrow> {t})"
| "issued_by (ReplaceTokens e a r) =
     (case normalizeSessionTokenPair a r of Inl _ \<Rightarrow> {} | Inr t \<Rightarrow> {t})"
| "issued_by _ = {}"

fun is_commit :: "session_call \<Rightarrow> bool" where
  "is_commit (Commit _ _ _ _ _ _) = True"
| "is_commit _ = False"

fun call_all :: "json \<Rightarrow> os \<Rightarrow> (session_call \<times> outcome list) list \<Rightarrow> store \<Rightarrow> store" where
  "call_all J os [] s = s"
| "call_all J os ((c, fs) # cs) s = call_all J os cs (call_session J os c s fs)"

inductive session_run :: "json \<Rightarrow> os \<Rightarrow> store \<Rightarrow> SessionTokenPair set \<Rightarrow> store \<Rightarrow> bool"
  for J os s0 where
  start: "session_run J os s0 (held J os s0) s0"
| call: "session_run J os s0 issued s \<Longrightarrow>
    session_run J os s0 (issued \<union> issued_by c) (call_session J os c s fs)"

lemma wp_state_after: "wp m (\<lambda>r s'. P s') s \<Longrightarrow> P (state_after m s fs)"
  by (simp add: wp_def state_after_def)

text \<open>The reads of the two tokens.\<close>

lemma wp_getters:
  "wp (session_getAccessToken J os) (\<lambda>r s'. unchanged J os s s') s"
  "wp (session_getRefreshToken J os) (\<lambda>r s'. unchanged J os s s') s"
  unfolding session_getAccessToken_def session_getRefreshToken_def
  by (rule wp_bind, rule wp_conseq [OF wp_readTokensUnlocked],
    auto split: run.splits intro!: wp_return simp: read_post_def unchanged_def)+

section \<open>Every call in terms of the pairs held and the session shown\<close>

lemma call_held: "held J os (call_session J os c s fs) \<subseteq> held J os s \<union> issued_by c"
proof (cases c)
  case (Commit a r u c1 c2 c3)
  have "wp (commitAuthenticatedSessionIf J os a r u c1 c2 c3)
      (\<lambda>_ s'. held J os s' \<subseteq> held J os s \<union> issued_by (Commit a r u c1 c2 c3)) s"
    by (rule wp_conseq [OF wp_commitAuthenticatedSessionIf])
      (auto split: sum.splits simp: commit_post_def commit_stage_def)
  from wp_state_after [OF this] Commit show ?thesis by simp
next
  case (ReplaceTokens e a r)
  have "wp (replaceTokensIfCurrent J os e a r)
      (\<lambda>_ s'. held J os s' \<subseteq> held J os s \<union> issued_by (ReplaceTokens e a r)) s"
    by (rule wp_conseq [OF wp_replaceTokensIfCurrent])
      (auto split: sum.splits if_splits simp: replace_post_def unchanged_def)
  from wp_state_after [OF this] ReplaceTokens show ?thesis by simp
next
  case (ReplaceUser e u c1 c2 c3)
  have "wp (replaceUserIfRefreshTokenCurrent J os e u c1 c2 c3) (\<lambda>_ s'. held J os s' \<subseteq> held J os s) s"
    by (rule wp_conseq [OF wp_replaceUserIfRefreshTokenCurrent])
      (auto split: sum.splits simp: profile_post_def unchanged_def)
  from wp_state_after [OF this] ReplaceUser show ?thesis by simp
next
  case (ClearIf e notify)
  have "wp (clearIfRefreshTokenCurrent J os e notify) (\<lambda>_ s'. held J os s' \<subseteq> held J os s) s"
    by (rule wp_conseq [OF wp_clearIfRefreshTokenCurrent])
      (auto split: sum.splits if_splits simp: expire_post_def unchanged_def)
  from wp_state_after [OF this] ClearIf show ?thesis by simp
next
  case Clear
  have "wp (session_clear os) (\<lambda>_ s'. held J os s' \<subseteq> held J os s) s"
    unfolding session_clear_def
    by (rule wp_conseq [OF wp_clearSessionUnlocked [where J = J]]) (auto simp: cleared_def)
  from wp_state_after [OF this] Clear show ?thesis by simp
qed (use wp_state_after [OF wp_getters(1)] wp_state_after [OF wp_getters(2)]
    wp_state_after [OF wp_session_getUser] in \<open>auto simp: unchanged_def\<close>)

lemma call_signed_out:
  assumes none: "view J os s = None" and "\<not> is_commit c"
  shows "view J os (call_session J os c s fs) = None"
proof (cases c)
  case (ReplaceTokens e a r)
  have "wp (replaceTokensIfCurrent J os e a r) (\<lambda>_ s'. view J os s' = None) s"
    by (rule wp_conseq [OF wp_replaceTokensIfCurrent])
      (use none in \<open>auto split: sum.splits simp: replace_post_def unchanged_def current_refresh_def\<close>)
  from wp_state_after [OF this] ReplaceTokens show ?thesis by simp
next
  case (ReplaceUser e u c1 c2 c3)
  have "wp (replaceUserIfRefreshTokenCurrent J os e u c1 c2 c3) (\<lambda>_ s'. view J os s' = None) s"
    by (rule wp_conseq [OF wp_replaceUserIfRefreshTokenCurrent])
      (use none in \<open>auto split: sum.splits simp: profile_post_def unchanged_def\<close>)
  from wp_state_after [OF this] ReplaceUser show ?thesis by simp
next
  case (ClearIf e notify)
  have "wp (clearIfRefreshTokenCurrent J os e notify) (\<lambda>_ s'. view J os s' = None) s"
    by (rule wp_conseq [OF wp_clearIfRefreshTokenCurrent])
      (use none in \<open>auto split: sum.splits simp: expire_post_def unchanged_def current_refresh_def\<close>)
  from wp_state_after [OF this] ClearIf show ?thesis by simp
next
  case Clear
  have "wp (session_clear os) (\<lambda>_ s'. view J os s' = None) s"
    unfolding session_clear_def
    by (rule wp_conseq [OF wp_clearSessionUnlocked [where J = J]])
      (use none in \<open>auto simp: cleared_def view_None_iff\<close>)
  from wp_state_after [OF this] Clear show ?thesis by simp
qed (use assms wp_state_after [OF wp_getters(1)] wp_state_after [OF wp_getters(2)]
    wp_state_after [OF wp_session_getUser] in \<open>auto simp: unchanged_def\<close>)

lemma run_held: "session_run J os s0 issued s \<Longrightarrow> held J os s \<subseteq> issued"
proof (induction rule: session_run.induct)
  case (call issued s c fs)
  then show ?case using call_held [of J os c s fs] by blast
qed simp

lemma run_calls:
  "session_run J os s0 issued s \<Longrightarrow>
    session_run J os s0 (issued \<union> (\<Union>(c, fs)\<in>set cs. issued_by c)) (call_all J os cs s)"
proof (induction cs arbitrary: s issued)
  case (Cons cf cs)
  obtain c fs where cf: "cf = (c, fs)" by force
  show ?case
    using Cons.IH [OF session_run.call [OF Cons.prems, of c fs]] by (simp add: cf Un_assoc)
qed simp

lemma calls_signed_out:
  "view J os s = None \<Longrightarrow> list_all (\<lambda>(c, fs). \<not> is_commit c) cs \<Longrightarrow> view J os (call_all J os cs s) = None"
  by (induction J os cs s rule: call_all.induct) (auto simp: call_signed_out)

section \<open>With a working storage every call returns\<close>

lemma calm_persistTokens [calm_intro]: "calm (persistTokens J os t)"
proof -
  obtain enc where "json_stringify J (pair_json t) = Some enc"
    using json.pair_text [of J t] by blast
  then show ?thesis
    by (auto simp: persistTokens_def setSecret_def deleteSecret_def intro!: calm_intro)
qed

lemma calm_removeLegacy [calm_intro]: "calm removeLegacyAsyncSession"
  unfolding removeLegacyAsyncSession_def by (auto intro!: calm_intro)

lemma calm_migrateProfile [calm_intro]: "calm (migrateProfile J os u)"
  unfolding migrateProfile_def setSecret_def
  by (intro calm_finally calm_try calm_removeLegacy)
    (auto split: option.split intro!: calm_intro orderly_bind orderly_lift orderly_throw
      intro: orderly_calm calm_intro)

lemma calm_migrate [calm_intro]: "calm (migrateLegacyAsyncSession J os)"
  unfolding migrateLegacyAsyncSession_def migrateValues_def
  by (auto split: sum.split intro!: calm_intro)

lemma calm_readTokensUnlocked [calm_intro]: "calm (readTokensUnlocked J os)"
  unfolding readTokensUnlocked_def forgetRevoked_def returnFound_def readKeychainPair_def
    dropUnreadable_def getSecret_def deleteSecret_def
  by (auto split: sum.split option.split intro!: calm_intro)

lemma calm_clear [calm_intro]: "calm (clearSessionUnlocked os)"
proof -
  have "\<exists>x s'. clearSessionUnlocked os s [] = (Ret x, s', [])" for s
  proof -
    let ?ms = "set_item REVOKED (js ''1'')
          # map remove_item
              ([secret_slot os ACCESS_TOKEN_KEY, secret_slot os REFRESH_TOKEN_KEY,
                secret_slot os SESSION_KEY, secret_slot os USER_KEY] @ LEGACY_ASYNC_SLOTS)"
    obtain xs s' where "all_settled ?ms s [] = (Ret (map Inr xs), s', [])"
      using all_settled_calm [of ?ms s] by (auto intro: calm_intro)
    then show ?thesis
      unfolding clearSessionUnlocked_def by (simp add: run_bind run_seq run_simps io_lift_def)
  qed
  then show ?thesis by (simp add: calm_def)
qed

section \<open>Reads that other calls run into\<close>

text \<open>What other calls do to the store between two steps of a call, as far as the process lives.\<close>

definition elsewhere :: "unit io \<Rightarrow> unit io" where
  "elsewhere others = io_try others (\<lambda>_. io_return ())"

lemma elsewhere_never_throws: "elsewhere others s fs \<noteq> (Thrown e, s', fs')"
  by (auto simp: elsewhere_def io_try_def run_simps split: prod.splits run.splits)

text \<open>
  \<open>getAccessToken\<close> and \<open>getRefreshToken\<close> wait for the queue and then read outside it, so a call queued behind them
  runs between the storage operations of the read. \<open>others\<close> are what such calls do after the marker was read, and
  after the two keychain entries were.
\<close>

definition readTokensOpen :: "json \<Rightarrow> os \<Rightarrow> unit io \<Rightarrow> unit io \<Rightarrow> SessionTokenPair option io" where
  "readTokensOpen J os others others' =
     io_bind (get_item REVOKED) (\<lambda>marker. io_seq (elsewhere others)
       (if truthy (text_value marker) then forgetRevoked os
        else io_bind (getSecret os SESSION_KEY) (\<lambda>encoded.
          case decode_envelope J encoded of
            Some tokens \<Rightarrow> returnFound tokens
          | None \<Rightarrow>
              io_seq (if truthy (text_value encoded) then deleteSecret os SESSION_KEY else io_return ())
                (io_bind (promise_all (map get_item [secret_slot os ACCESS_TOKEN_KEY, secret_slot os REFRESH_TOKEN_KEY]))
                  (\<lambda>vals. io_seq (elsewhere others')
                    (case normalizeSessionTokenPair (text_value (vals ! 0)) (text_value (vals ! 1)) of
                      Inl _ \<Rightarrow> dropUnreadable J os
                    | Inr tokens \<Rightarrow> io_seq (persistTokens J os tokens) (returnFound tokens)))))))"

lemma elsewhere_idle [simp]: "io_seq (elsewhere (io_return ())) m = m"
  by (rule ext, rule ext) (simp add: elsewhere_def io_seq_def io_bind_def io_try_def io_return_def split: prod.split)

lemma open_read_alone: "readTokensOpen J os (io_return ()) (io_return ()) = readTokensUnlocked J os"
  unfolding readTokensOpen_def readTokensUnlocked_def readKeychainPair_def elsewhere_idle ..

section \<open>Properties\<close>

text \<open>C35: a read of the session that no other call runs into (the reads inside the mutation queue, and a call of
  \<open>getAccessToken\<close> or \<open>getRefreshToken\<close> with nothing queued behind it) never changes the session, whatever storage
  operation fails and wherever the process dies, although it migrates and deletes older entries; it answers the session
  there is or it throws; when the storage works it returns. (Both calls read outside the queue: what a call queued
  meanwhile may lose is in the lemmas \<open>open_read_drops_sign_in\<close> and \<open>open_read_undoes_logout\<close>.)\<close>

theorem session_read_sound:
  "(case readTokensUnlocked J os s fs of (r, s', _) \<Rightarrow>
      view J os s' = view J os s \<and> held J os s' \<subseteq> held J os s
      \<and> (case r of Ret t \<Rightarrow> t = view J os s | _ \<Rightarrow> True))
   \<and> (\<exists>s'. readTokensUnlocked J os s [] = (Ret (view J os s), s', []))"
proof -
  have "case readTokensUnlocked J os s fs of (r, s', _) \<Rightarrow>
      view J os s' = view J os s \<and> held J os s' \<subseteq> held J os s
      \<and> (case r of Ret t \<Rightarrow> t = view J os s | _ \<Rightarrow> True)"
    using wpD [OF wp_readTokensUnlocked [of J os s]]
    by (auto simp: read_post_def split: prod.split run.split)
  moreover have "\<exists>t s'. readTokensUnlocked J os s [] = (Ret t, s', []) \<and> t = view J os s"
    by (rule calm_wp [OF calm_readTokensUnlocked], rule wp_conseq [OF wp_readTokensUnlocked])
      (simp add: read_post_def)
  ultimately show ?thesis by auto
qed

text \<open>C1: in every sequence of calls of the session module, with every schedule of failures and
  crashes, the session shown is a pair that was stored before the first call or was given to a
  call as a pair; an access token is never combined with the refresh token of another family.\<close>

theorem session_pairs_never_mixed:
  assumes "session_run J os s0 issued s" and "view J os s = Some t"
  shows "t \<in> issued"
  using run_held [OF assms(1)] view_held [OF assms(2)] by blast

text \<open>C2: a logout that returned is final. Whatever calls other than a sign-in follow, with every
  schedule of failures and crashes, no session is shown.\<close>

theorem logout_is_final:
  assumes "session_clear os s fs = (Ret (), s1, fs')" and "list_all (\<lambda>(c, fs). \<not> is_commit c) cs"
  shows "view J os (call_all J os cs s1) = None"
proof -
  have "cleared J os s (Ret ()) s1"
    using wpD [OF wp_clearSessionUnlocked] assms(1) by (simp add: session_clear_def)
  then have "view J os s1 = None" by (simp add: cleared_def view_revoked)
  then show ?thesis using assms(2) by (rule calls_signed_out)
qed

text \<open>C6: what a sign-in commit leaves. It answers true exactly when all three checks passed, and
  then the new pair and its profile are stored; it answers false with nothing shown (or nothing
  touched, when the first check failed). On every branch the pairs held are old ones or the new
  one.\<close>

theorem commit_outcome:
  assumes "normalizeSessionTokenPair access refresh = Inr t" and "encodeCachedUser J user = Inr enc"
    and "commitAuthenticatedSessionIf J os access refresh user c1 c2 c3 s fs = (r, s', fs')"
  shows "held J os s' \<subseteq> insert t (held J os s)
    \<and> (case r of
        Ret True \<Rightarrow> c1 \<and> c2 \<and> c3 \<and> view J os s' = Some t \<and> st_kv s' (secret_slot os USER_KEY) = Some enc
      | Ret False \<Rightarrow> \<not> (c1 \<and> c2 \<and> c3) \<and> (if c1 then view J os s' = None else s' = s)
      | _ \<Rightarrow> True)"
proof -
  have "commit_post J os t enc c1 c2 c3 s r s'"
    using wpD [OF wp_commitAuthenticatedSessionIf assms(3)] assms(1,2) by simp
  then show ?thesis
    by (auto simp: commit_post_def commit_stage_def split: run.split bool.split)
qed

text \<open>C30: fail closed. After a logout whose envelope could not be deleted, no failure and no crash
  in the middle of the next sign-in brings the old session back: the app shows the new session
  or none.\<close>

theorem commit_fails_closed:
  assumes "normalizeSessionTokenPair access refresh = Inr t" and "encodeCachedUser J user = Inr enc"
    and "signed_out os s"
    and "commitAuthenticatedSessionIf J os access refresh user c1 c2 c3 s fs = (r, s', fs')"
  shows "view J os s' \<in> {None, Some t}"
proof (cases "view J os s'")
  case (Some t')
  then have "\<not> revoked s'" and "t' \<in> held J os s'"
    using view_revoked view_held by force+
  moreover have "commit_post J os t enc c1 c2 c3 s r s'"
    using wpD [OF wp_commitAuthenticatedSessionIf assms(4)] assms(1,2) by simp
  ultimately have "t' \<in> {t}" using assms(3) by (auto simp: commit_post_def commit_stage_def)
  with Some show ?thesis by simp
qed simp

text \<open>Queued rotations.\<close>

lemma rotation_stale:
  assumes "current_refresh J os s \<noteq> Some expected"
  shows "wp (all_settled (map (\<lambda>(a, r). replaceTokensIfCurrent J os (JStr expected) a r) reqs))
    (\<lambda>res s'. \<forall>rs. res = Ret rs \<longrightarrow> filter (\<lambda>q. q = Inr True) rs = [] \<and> view J os s' = view J os s) s"
  using assms
proof (induction reqs arbitrary: s)
  case Nil
  show ?case by (simp add: all_settled.simps wp_return)
next
  case (Cons q reqs s)
  obtain a r where q: "q = (a, r)" by force
  have head: "wp (replaceTokensIfCurrent J os (JStr expected) a r)
      (\<lambda>res s'. res \<noteq> Ret True \<and> view J os s' = view J os s) s"
    by (rule wp_conseq [OF wp_replaceTokensIfCurrent])
      (use Cons.prems in \<open>auto split: sum.splits simp: replace_post_def unchanged_def
        normalizeOpaque_Inr\<close>)
  have rest: "wp (io_bind (all_settled (map (\<lambda>(a, r). replaceTokensIfCurrent J os (JStr expected) a r) reqs))
        (\<lambda>rs. io_return (x # rs)))
      (\<lambda>res s'. \<forall>rs. res = Ret rs \<longrightarrow> filter (\<lambda>q. q = Inr True) rs = [] \<and> view J os s' = view J os s) s1"
    if "x \<noteq> Inr True" and "view J os s1 = view J os s" for x s1
    by (rule wp_bind, rule wp_conseq [OF Cons.IH])
      (use Cons.prems that in \<open>auto split: run.splits intro!: wp_return simp: current_refresh_def\<close>)
  show ?case
    unfolding q list.map prod.case all_settled.simps
    by (rule wp_bind, rule wp_settle, rule wp_conseq [OF head])
      (auto split: run.splits intro!: rest)
qed

lemma wp_rotations:
  assumes "list_all (\<lambda>(a, r). \<forall>t. normalizeSessionTokenPair a r = Inr t \<longrightarrow> refreshToken t \<noteq> expected) reqs"
  shows "wp (all_settled (map (\<lambda>(a, r). replaceTokensIfCurrent J os (JStr expected) a r) reqs))
    (\<lambda>res s'. \<forall>rs. res = Ret rs \<longrightarrow> length (filter (\<lambda>q. q = Inr True) rs) \<le> Suc 0) s"
  using assms
proof (induction reqs arbitrary: s)
  case Nil
  show ?case by (simp add: all_settled.simps wp_return)
next
  case (Cons q reqs s)
  obtain a r where q: "q = (a, r)" by force
  let ?tail = "all_settled (map (\<lambda>(a, r). replaceTokensIfCurrent J os (JStr expected) a r) reqs)"
  have head: "wp (replaceTokensIfCurrent J os (JStr expected) a r)
      (\<lambda>res s'. res = Ret True \<longrightarrow> current_refresh J os s' \<noteq> Some expected) s"
    by (rule wp_conseq [OF wp_replaceTokensIfCurrent])
      (use Cons.prems q in \<open>auto split: sum.splits if_splits simp: replace_post_def current_refresh_def\<close>)
  have rest: "wp (io_bind ?tail (\<lambda>rs. io_return (x # rs)))
      (\<lambda>res s'. \<forall>rs. res = Ret rs \<longrightarrow> length (filter (\<lambda>q. q = Inr True) rs) \<le> Suc 0) s1"
    if x: "x = Inr True \<Longrightarrow> current_refresh J os s1 \<noteq> Some expected" for x s1
  proof (cases "x = Inr True")
    case True
    then show ?thesis
      by (intro wp_bind wp_conseq [OF rotation_stale [OF x]])
        (auto split: run.splits intro!: wp_return)
  next
    case False
    then show ?thesis
      by (intro wp_bind wp_conseq [OF Cons.IH])
        (use Cons.prems in \<open>auto split: run.splits intro!: wp_return\<close>)
  qed
  show ?case
    unfolding q list.map prod.case all_settled.simps
    by (rule wp_bind, rule wp_settle, rule wp_conseq [OF head])
      (auto split: run.splits intro!: rest)
qed

text \<open>Single use of a refresh token. Of several rotations queued with the same expected
  refresh token, at most one is reported as stored, whatever fails, as long as the gateway hands
  out new refresh tokens.\<close>

theorem rotation_single_use:
  assumes "list_all (\<lambda>(a, r). \<forall>t. normalizeSessionTokenPair a r = Inr t \<longrightarrow> refreshToken t \<noteq> expected) reqs"
    and "serializeTokenMutation
      (map (\<lambda>(a, r). replaceTokensIfCurrent J os (JStr expected) a r) reqs) s fs = (Ret results, s', fs')"
  shows "length (filter (\<lambda>q. q = Inr True) results) \<le> 1"
  using wpD [OF wp_rotations [OF assms(1)]] assms(2) by (simp add: serializeTokenMutation_def)

text \<open>A rejected refresh expires only its own session. With another session current (or
  none) nothing changes and no expiry notice is given; with its own, a return means that nothing
  is shown any more and the notice was given exactly when asked for, and an exception out of the
  deletion still comes after the notice.\<close>

theorem expire_only_matching:
  assumes "normalizeOpaqueSessionToken token = Inr expected"
    and "clearIfRefreshTokenCurrent J os token notify s fs = (r, s', fs')"
  shows "if current_refresh J os s \<noteq> Some expected
     then view J os s' = view J os s \<and> st_notices s' = st_notices s \<and> r \<noteq> Ret True
     else (case r of
         Ret b \<Rightarrow> b \<and> view J os s' = None \<and> st_notices s' = st_notices s + of_bool notify
       | Thrown _ \<Rightarrow> view J os s' = view J os s \<and> st_notices s' = st_notices s
           \<or> st_notices s' = st_notices s + of_bool notify
       | Killed \<Rightarrow> st_notices s' = st_notices s)"
proof -
  have "expire_post J os expected notify s r s'"
    using wpD [OF wp_clearIfRefreshTokenCurrent assms(2)] assms(1) by simp
  then show ?thesis
    by (auto simp: expire_post_def unchanged_def split: run.split if_splits)
qed

section \<open>Witnesses\<close>

definition plain_json :: json where
  "plain_json = \<lparr>otherStringify = (\<lambda>_. None), otherParse = (\<lambda>_. None)\<rparr>"

definition empty_store :: store where
  "empty_store = \<lparr>st_kv = (\<lambda>_. None), st_notices = 0\<rparr>"

definition sample_pair :: SessionTokenPair where
  "sample_pair = \<lparr>accessToken = js ''a1'', refreshToken = js ''r1''\<rparr>"

definition sample_user :: jsval where
  "sample_user = JObj [(''firstName'', JStr (js ''Ama''))]"

definition sample_commit :: session_call where
  "sample_commit = Commit (JStr (js ''a1'')) (JStr (js ''r1'')) sample_user True True True"

text \<open>A device that is signed out: the marker is set and a stale envelope could not be deleted.\<close>

definition revoked_store :: store where
  "revoked_store = put_slot (SecureArea, SESSION_KEY)
     (json_stringify plain_json (pair_json \<lparr>accessToken = js ''a0'', refreshToken = js ''r0''\<rparr>))
     (put_slot REVOKED (Some (js ''1'')) empty_store)"

lemma sample_tokens: "normalizeSessionTokenPair (JStr (js ''a1'')) (JStr (js ''r1'')) = Inr sample_pair"
  by code_simp

lemma sample_profile:
  "encodeCachedUser plain_json sample_user = Inr (print_flat [(''firstName'', js ''Ama'')])"
  by code_simp

theorem session_pairs_never_mixed_witness:
  "\<exists>issued s. session_run plain_json Native empty_store issued s
     \<and> view plain_json Native s = Some sample_pair \<and> sample_pair \<in> issued"
proof -
  let ?s = "call_session plain_json Native sample_commit empty_store []"
  have run: "session_run plain_json Native empty_store
      (held plain_json Native empty_store \<union> issued_by sample_commit) ?s"
    by (rule session_run.call, rule session_run.start)
  have shown: "view plain_json Native ?s = Some sample_pair" by code_simp
  show ?thesis using run shown session_pairs_never_mixed [OF run shown] by blast
qed

theorem logout_is_final_witness:
  "\<exists>s1. session_clear Native revoked_store [] = (Ret (), s1, [])
     \<and> view plain_json Native (call_all plain_json Native [(GetUser, [Failed]), (GetAccessToken, [])] s1) = None"
proof -
  obtain s1 where "session_clear Native revoked_store [] = (Ret (), s1, [])"
    using calmD [OF calm_clear, of Native revoked_store] by (auto simp: session_clear_def)
  then show ?thesis
    using logout_is_final [of Native revoked_store "[]" s1 "[]" "[(GetUser, [Failed]), (GetAccessToken, [])]"]
    by simp
qed

theorem commit_outcome_witness:
  "\<exists>s' fs'. commitAuthenticatedSessionIf plain_json Native (JStr (js ''a1'')) (JStr (js ''r1''))
      sample_user True True True empty_store [] = (Ret True, s', fs')
     \<and> view plain_json Native s' = Some sample_pair"
proof -
  have "fst (commitAuthenticatedSessionIf plain_json Native (JStr (js ''a1'')) (JStr (js ''r1''))
      sample_user True True True empty_store []) = Ret True"
    by code_simp
  then obtain s' fs' where run: "commitAuthenticatedSessionIf plain_json Native (JStr (js ''a1''))
      (JStr (js ''r1'')) sample_user True True True empty_store [] = (Ret True, s', fs')"
    by (metis prod.exhaust_sel)
  show ?thesis
    using run commit_outcome [OF sample_tokens sample_profile run] by simp
qed

theorem commit_fails_closed_witness:
  "\<exists>r s' fs'. commitAuthenticatedSessionIf plain_json Native (JStr (js ''a1'')) (JStr (js ''r1''))
      sample_user True True True revoked_store [Done, DoneThenFailed] = (r, s', fs')
     \<and> view plain_json Native s' \<in> {None, Some sample_pair}"
proof -
  obtain r s' fs' where run: "commitAuthenticatedSessionIf plain_json Native (JStr (js ''a1''))
      (JStr (js ''r1'')) sample_user True True True revoked_store [Done, DoneThenFailed] = (r, s', fs')"
    by (metis prod.exhaust)
  have "signed_out Native revoked_store" by code_simp
  then show ?thesis
    using run commit_fails_closed [OF sample_tokens sample_profile _ run] by blast
qed

text \<open>Two rotations queued with the same token: the second one finds it used.\<close>

definition signed_in_store :: store where
  "signed_in_store = call_session plain_json Native sample_commit empty_store []"

definition sample_rotations :: "(jsval \<times> jsval) list" where
  "sample_rotations = [(JStr (js ''a2''), JStr (js ''r2'')), (JStr (js ''a3''), JStr (js ''r3''))]"

theorem rotation_single_use_witness:
  "\<exists>s' fs'. serializeTokenMutation
      (map (\<lambda>(a, r). replaceTokensIfCurrent plain_json Native (JStr (js ''r1'')) a r) sample_rotations)
      signed_in_store [] = (Ret [Inr True, Inr False], s', fs')
    \<and> length (filter (\<lambda>q. q = Inr True) [Inr True, Inr False :: js_error + bool]) \<le> 1"
proof -
  let ?m = "serializeTokenMutation
      (map (\<lambda>(a, r). replaceTokensIfCurrent plain_json Native (JStr (js ''r1'')) a r) sample_rotations)"
  have "fst (?m signed_in_store []) = Ret [Inr True, Inr False]" by code_simp
  then obtain s' fs' where run: "?m signed_in_store [] = (Ret [Inr True, Inr False], s', fs')"
    by (metis prod.exhaust_sel)
  have fresh: "list_all (\<lambda>(a, r). \<forall>t. normalizeSessionTokenPair a r = Inr t \<longrightarrow>
      refreshToken t \<noteq> js ''r1'') sample_rotations"
    by (auto simp: sample_rotations_def normalizePair_Inr)
  show ?thesis
    using run rotation_single_use [OF fresh run] by blast
qed

theorem expire_only_matching_witness:
  "\<exists>s' fs'. clearIfRefreshTokenCurrent plain_json Native (JStr (js ''r1'')) True signed_in_store []
      = (Ret True, s', fs')
     \<and> view plain_json Native s' = None \<and> st_notices s' = st_notices signed_in_store + 1"
proof -
  have "fst (clearIfRefreshTokenCurrent plain_json Native (JStr (js ''r1'')) True signed_in_store []) = Ret True"
    and token: "normalizeOpaqueSessionToken (JStr (js ''r1'')) = Inr (js ''r1'')"
    and "current_refresh plain_json Native signed_in_store = Some (js ''r1'')"
    by code_simp+
  then obtain s' fs' where run: "clearIfRefreshTokenCurrent plain_json Native (JStr (js ''r1'')) True
      signed_in_store [] = (Ret True, s', fs')"
    by (metis prod.exhaust_sel)
  show ?thesis
    using run expire_only_matching [OF token run]
      \<open>current_refresh plain_json Native signed_in_store = Some (js ''r1'')\<close> by simp
qed

text \<open>A read that saw the marker of a logout deletes the envelope of a sign-in that was committed meanwhile: the sign-in
  returned true, and nothing is shown after the read.\<close>

definition sign_in_meanwhile :: "unit io" where
  "sign_in_meanwhile = io_bind (commitAuthenticatedSessionIf plain_json Native (JStr (js ''a1'')) (JStr (js ''r1''))
     sample_user True True True) (\<lambda>_. io_return ())"

lemma open_read_drops_sign_in:
  "view plain_json Native (state_after sign_in_meanwhile revoked_store []) = Some sample_pair"
  "fst (readTokensOpen plain_json Native sign_in_meanwhile (io_return ()) revoked_store []) = Ret None"
  "view plain_json Native
     (state_after (readTokensOpen plain_json Native sign_in_meanwhile (io_return ())) revoked_store []) = None"
  by code_simp+

text \<open>A read that found the two keychain entries of the former layout stores them as an envelope after a logout that
  returned meanwhile, and takes its marker away: the session is shown again.\<close>

definition former_store :: store where
  "former_store = put_slot (SecureArea, ACCESS_TOKEN_KEY) (Some (js ''a1''))
     (put_slot (SecureArea, REFRESH_TOKEN_KEY) (Some (js ''r1'')) empty_store)"

lemma open_read_undoes_logout:
  "fst (session_clear Native former_store []) = Ret ()"
  "view plain_json Native (state_after (session_clear Native) former_store []) = None"
  "view plain_json Native
     (state_after (readTokensOpen plain_json Native (io_return ()) (session_clear Native)) former_store []) = Some sample_pair"
  by code_simp+

end
