(* ===== verification/AuthService.thy ===== *)
theory AuthService
  imports AuthIdentity SessionProperties
begin

text \<open>
  The operations of \<open>apps/mobile/src/services/auth.service.ts\<close>, composed with the session store:
  sign-in, registration, one-time codes, the current member and both logouts. \<open>bearer t\<close> is the
  gateway for requests that carry the access token \<open>t\<close>; the three answers of \<open>canCommit\<close> are \<open>c1\<close>,
  \<open>c2\<close>, \<open>c3\<close>, as in the session store.
\<close>

section \<open>Churches\<close>

definition resolveChurchCode :: "api \<Rightarrow> jsstring \<Rightarrow> js_error + RegistrationChurch" where
  "resolveChurchCode api v =
     (case canonicalWorkspace (JStr v) of
        None \<Rightarrow> Inl (throw ''Enter the church code exactly as your church shared it.'')
      | Some slug \<Rightarrow>
          if length slug < 3 then Inl (throw ''Enter the church code exactly as your church shared it.'')
          else and_then (api_get api (js ''/churches/slug/'' @ path_segment slug) []) (\<lambda>data.
            normalizeRegistrationChurch data slug))"

text \<open>A failure of any kind leaves the member as it was.\<close>

definition enrichChurchName :: "api \<Rightarrow> User \<Rightarrow> User" where
  "enrichChurchName api user =
     (if us_churchName user \<noteq> None \<and> us_churchName user \<noteq> Some [] then user
      else case and_then (api_get api (js ''/churches/current'') []) (\<lambda>data.
          normalizeCurrentChurch data (us_churchId user)) of
        Inr name \<Rightarrow> user\<lparr>us_churchName := Some name\<rparr>
      | Inl _ \<Rightarrow> user)"

section \<open>Sign-in\<close>

definition storeAuthData :: "json \<Rightarrow> os \<Rightarrow> AuthResponse \<Rightarrow> bool \<Rightarrow> bool \<Rightarrow> bool \<Rightarrow> unit io" where
  "storeAuthData J os r c1 c2 c3 =
     io_bind (commitAuthenticatedSessionIf J os (JStr (accessToken (au_tokens r)))
         (JStr (refreshToken (au_tokens r))) (user_json (au_user r)) c1 c2 c3)
       (\<lambda>committed.
         if \<not> committed then io_throw (throw ''The sign-in attempt is no longer active.'')
         else io_return ())"

definition enriched :: "(jsstring \<Rightarrow> api) \<Rightarrow> AuthResponse \<Rightarrow> AuthResponse" where
  "enriched bearer r =
     r\<lparr>au_user := enrichChurchName (bearer (accessToken (au_tokens r))) (au_user r)\<rparr>"

abbreviation other_member :: js_error where
  "other_member \<equiv> throw ''The server returned a session for another member. Please try again.''"

record LoginRequest =
  lr_email :: jsval
  lr_password :: jsval
  lr_method :: jsval
  lr_workspace :: jsval

definition login_response :: "host \<Rightarrow> api \<Rightarrow> (jsstring \<Rightarrow> api) \<Rightarrow> LoginRequest \<Rightarrow> js_error + AuthResponse" where
  "login_response h api bearer c =
     (let e = throw ''Enter a valid church workspace, email and password to continue.'' in
      case (canonicalEmail (lr_email c), canonicalWorkspace (lr_workspace c)) of
        (Some email, Some workspace) \<Rightarrow>
          if (lr_method c \<noteq> JUndef \<and> lr_method c \<noteq> JStr (js ''PASSWORD''))
            \<or> \<not> validAuthPassword (lr_password c) 1
          then Inl e
          else and_then (api_post api (js ''/auth/login'') (JObj [(''email'', JStr email),
              (''password'', lr_password c), (''method'', JStr (js ''PASSWORD'')), (''workspace'', JStr workspace)]))
            (\<lambda>data. and_then (normalizeAuthResponse h data) (\<lambda>normalized.
              if us_email (au_user normalized) \<noteq> email then Inl other_member
              else Inr (enriched bearer normalized)))
      | _ \<Rightarrow> Inl e)"

definition signed_in :: "json \<Rightarrow> os \<Rightarrow> js_error + AuthResponse \<Rightarrow> bool \<Rightarrow> bool \<Rightarrow> bool \<Rightarrow> AuthResponse io" where
  "signed_in J os response c1 c2 c3 =
     io_bind (io_lift response) (\<lambda>r. io_seq (storeAuthData J os r c1 c2 c3) (io_return r))"

definition login ::
    "host \<Rightarrow> api \<Rightarrow> (jsstring \<Rightarrow> api) \<Rightarrow> json \<Rightarrow> os \<Rightarrow> LoginRequest \<Rightarrow> bool \<Rightarrow> bool \<Rightarrow> bool \<Rightarrow> AuthResponse io" where
  "login h api bearer J os c = signed_in J os (login_response h api bearer c)"

record OtpRequest =
  or_phone :: jsstring
  or_otp :: jsstring
  or_workspace :: jsval

definition six_digits :: "jsstring \<Rightarrow> bool" where
  "six_digits s \<longleftrightarrow> length s = 6 \<and> list_all is_digit s"

abbreviation invalid_phone :: js_error where
  "invalid_phone \<equiv> throw ''Enter a valid mobile number, including the country code.''"

abbreviation invalid_workspace :: js_error where
  "invalid_workspace \<equiv> throw ''Enter the church workspace provided by your church.''"

definition otp_response :: "host \<Rightarrow> api \<Rightarrow> (jsstring \<Rightarrow> api) \<Rightarrow> OtpRequest \<Rightarrow> js_error + AuthResponse" where
  "otp_response h api bearer q =
     (case canonicalPhone (or_phone q) of
        None \<Rightarrow> Inl invalid_phone
      | Some phone \<Rightarrow>
          (case canonicalWorkspace (or_workspace q) of
             None \<Rightarrow> Inl invalid_workspace
           | Some workspace \<Rightarrow>
               if \<not> six_digits (or_otp q) then Inl (throw ''Enter the full 6-digit code.'')
               else and_then (api_post api (js ''/auth/verify-otp'') (JObj [(''otp'', JStr (or_otp q)),
                   (''phone'', JStr phone), (''workspace'', JStr workspace)]))
                 (\<lambda>data. and_then (normalizeAuthResponse h data) (\<lambda>normalized.
                   if us_phone (au_user normalized) \<noteq> phone then Inl other_member
                   else Inr (enriched bearer normalized)))))"

definition verifyOtp ::
    "host \<Rightarrow> api \<Rightarrow> (jsstring \<Rightarrow> api) \<Rightarrow> json \<Rightarrow> os \<Rightarrow> OtpRequest \<Rightarrow> bool \<Rightarrow> bool \<Rightarrow> bool \<Rightarrow> AuthResponse io" where
  "verifyOtp h api bearer J os q = signed_in J os (otp_response h api bearer q)"

section \<open>Registration and one-time codes\<close>

record RegisterRequest =
  rg_firstName :: jsstring
  rg_lastName :: jsstring
  rg_email :: jsval
  rg_phone :: jsstring
  rg_password :: jsval
  rg_churchCode :: "jsstring option"
  rg_confirmedChurchId :: "jsstring option"

definition given :: "jsstring option \<Rightarrow> bool" where
  "given s \<longleftrightarrow> s \<noteq> None \<and> s \<noteq> Some []"

definition register_body :: "jsstring \<Rightarrow> jsstring \<Rightarrow> jsstring \<Rightarrow> jsval \<Rightarrow> jsstring \<Rightarrow> jsval" where
  "register_body name email phone password churchId =
     JObj [(''name'', JStr name), (''email'', JStr email), (''phone'', JStr phone), (''password'', password),
       (''churchId'', JStr churchId)]"

text \<open>The message has an en dash, code unit 0x2013.\<close>

abbreviation invalid_registration :: js_error where
  "invalid_registration \<equiv> JsError (js ''Enter valid registration details and a password of 8'' @ [0x2013]
     @ js ''72 UTF-8 bytes. Some symbols use more than one byte.'')"

definition unknown_unless_answered :: "js_error \<Rightarrow> js_error + jsval \<Rightarrow> js_error + jsval" where
  "unknown_unless_answered unknown r =
     (case r of
        Inl e \<Rightarrow> Inl (if isAmbiguousMutationFailure e then unknown else e)
      | Inr d \<Rightarrow> Inr d)"

definition register :: "host \<Rightarrow> api \<Rightarrow> RegisterRequest \<Rightarrow> js_error + User \<times> jsstring option" where
  "register h api d =
     (if \<not> given (rg_churchCode d) then Inl (throw ''Enter the church code provided by your church.'')
      else case canonicalPhone (rg_phone d) of
          None \<Rightarrow> Inl invalid_phone
        | Some phone \<Rightarrow>
            (case canonicalEmail (rg_email d) of
               None \<Rightarrow> Inl invalid_registration
             | Some email \<Rightarrow>
                 if \<not> validRegistrationName (rg_firstName d) (rg_lastName d)
                   \<or> \<not> validAuthPassword (rg_password d) 8
                 then Inl invalid_registration
                 else
                   let name = full_name (rg_firstName d) (rg_lastName d)
                   in and_then (resolveChurchCode api (the (rg_churchCode d))) (\<lambda>church.
                     if given (rg_confirmedChurchId d) \<and> rc_id church \<noteq> the (rg_confirmedChurchId d)
                     then Inl (throw ''That church code has changed. Confirm your church again before joining.'')
                     else and_then (unknown_unless_answered RegistrationOutcomeUnknownError
                         (api_post api (js ''/auth/register'')
                           (register_body name email phone (rg_password d) (rc_id church)))) (\<lambda>data.
                       normalizeRegistrationResponse h data (rc_id church) phone email name))))"

definition requestOtp :: "api \<Rightarrow> jsstring \<Rightarrow> jsval \<Rightarrow> js_error + jsstring" where
  "requestOtp api phoneInput workspaceInput =
     (case canonicalPhone phoneInput of
        None \<Rightarrow> Inl invalid_phone
      | Some phone \<Rightarrow>
          (case canonicalWorkspace workspaceInput of
             None \<Rightarrow> Inl invalid_workspace
           | Some workspace \<Rightarrow>
               and_then (unknown_unless_answered OtpDeliveryUnknownError
                 (api_post api (js ''/auth/request-otp'')
                   (JObj [(''phone'', JStr phone), (''workspace'', JStr workspace)]))) normalizeOtpDispatch))"

section \<open>The current member\<close>

text \<open>\<open>expected\<close>: account, member and church identifier.\<close>

definition getCurrentUser ::
    "host \<Rightarrow> api \<Rightarrow> (jsstring \<times> jsstring \<times> jsstring) option \<Rightarrow> js_error + User" where
  "getCurrentUser h api expected =
     and_then (api_get api (js ''/auth/me'') []) (\<lambda>data.
     and_then (unwrap_auth data) (\<lambda>d.
     and_then (normalizeUser h d) (\<lambda>normalized.
       let user = enrichChurchName api normalized
       in case expected of
           None \<Rightarrow> Inr user
         | Some (ident, memberId, churchId) \<Rightarrow>
             if us_id user \<noteq> ident \<or> us_memberId user \<noteq> memberId \<or> us_churchId user \<noteq> churchId
             then Inl MemberSessionIdentityError else Inr user)))"

text \<open>A cached profile from before account and member were told apart counts as absent.\<close>

definition pre_member_profile :: "jsval \<Rightarrow> bool" where
  "pre_member_profile v \<longleftrightarrow> is_record v \<and> is_string (get v ''id'') \<and> is_string (get v ''churchId'')
     \<and> get v ''memberId'' = JUndef"

definition getStoredUser :: "host \<Rightarrow> json \<Rightarrow> os \<Rightarrow> User option io" where
  "getStoredUser h J os =
     io_bind (session_getUser J os) (\<lambda>stored.
       case stored of
         None \<Rightarrow> io_return None
       | Some v \<Rightarrow>
           if v = JNull \<or> pre_member_profile v then io_return None
           else io_lift (map_sum id Some (normalizeUser h v)))"

definition isAuthenticated :: "json \<Rightarrow> os \<Rightarrow> bool io" where
  "isAuthenticated J os = io_bind (session_getAccessToken J os) (\<lambda>t. io_return (given t))"

section \<open>Logout\<close>

definition clearTokens :: "os \<Rightarrow> bool \<Rightarrow> unit io" where
  "clearTokens os notify =
     io_finally (session_clear os) (if notify then io_notice else io_return ())"

definition access_or_none :: "json \<Rightarrow> os \<Rightarrow> jsstring option io" where
  "access_or_none J os = io_try (session_getAccessToken J os) (\<lambda>_. io_return None)"

definition logout_path :: "logout_scope \<Rightarrow> jsstring" where
  "logout_path scope = (if scope = AllSessions then js ''/auth/logout-all'' else js ''/auth/logout'')"

definition revoke_remotely :: "(jsstring \<Rightarrow> api) \<Rightarrow> logout_scope \<Rightarrow> jsstring \<Rightarrow> js_error + unit" where
  "revoke_remotely bearer scope access =
     and_then (api_post (bearer access) (logout_path scope) JUndef) (\<lambda>data.
     and_then (normalizeLogoutAcknowledgement data scope) (\<lambda>_. Inr ()))"

text \<open>The request is started before the local cleanup and does not touch the store.\<close>

definition endSession :: "(jsstring \<Rightarrow> api) \<Rightarrow> json \<Rightarrow> os \<Rightarrow> logout_scope \<Rightarrow> unit io" where
  "endSession bearer J os scope =
     io_bind (access_or_none J os) (\<lambda>access.
       let remote = (if given access then revoke_remotely bearer scope (the access) else Inr ())
       in io_bind (settle (clearTokens os False)) (\<lambda>localResult.
         case localResult of Inl e \<Rightarrow> io_throw e | Inr _ \<Rightarrow> io_lift remote))"

definition logout :: "(jsstring \<Rightarrow> api) \<Rightarrow> json \<Rightarrow> os \<Rightarrow> unit io" where
  "logout bearer J os = endSession bearer J os CurrentSession"

definition clear_quietly :: "os \<Rightarrow> unit io" where
  "clear_quietly os = io_try (clearTokens os False) (\<lambda>_. io_return ())"

text \<open>
  What other calls do to the store between two steps of this one: \<open>meanwhile\<close> while the
  request is in flight, \<open>between\<close> from the last reading of the token until the clearing, which waits for its turn in the
  queue of the session module, is done.
\<close>

definition endAllSessions :: "(jsstring \<Rightarrow> api) \<Rightarrow> json \<Rightarrow> os \<Rightarrow> unit io \<Rightarrow> unit io \<Rightarrow> bool io" where
  "endAllSessions bearer J os meanwhile between =
     io_bind (access_or_none J os) (\<lambda>access.
       if \<not> given access then io_seq (elsewhere between) (io_seq (clear_quietly os) (io_return True))
       else io_bind (elsewhere meanwhile) (\<lambda>_.
         io_bind (io_lift (revoke_remotely bearer AllSessions (the access))) (\<lambda>_.
         io_bind (access_or_none J os) (\<lambda>current.
           if current \<noteq> access then io_return False
           else io_seq (elsewhere between) (io_seq (clear_quietly os) (io_return True))))))"

definition logoutEverywhere :: "(jsstring \<Rightarrow> api) \<Rightarrow> json \<Rightarrow> os \<Rightarrow> unit io \<Rightarrow> unit io \<Rightarrow> bool io" where
  "logoutEverywhere = endAllSessions"

section \<open>Lemmas\<close>

lemma required_identity_Inr: "required_identity r k n = Inr s \<Longrightarrow> tidy n s \<and> s \<noteq> []"
  using boundedIdentityString_Inr by (fastforce simp: required_identity_def res_simps)

lemma normalizeCurrentChurch_Inr: "normalizeCurrentChurch v churchId = Inr n \<Longrightarrow> tidy 160 n \<and> n \<noteq> []"
  by (auto simp: normalizeCurrentChurch_def answer_simps dest: required_identity_Inr)

lemma enrichChurchName_ok:
  assumes "user_ok h u"
  shows "user_ok h (enrichChurchName api u)"
  using assms normalizeCurrentChurch_Inr
  by (auto simp: enrichChurchName_def user_ok_def res_simps split: sum.splits)

lemma enrichChurchName_keeps [simp]:
  "us_id (enrichChurchName api u) = us_id u" "us_memberId (enrichChurchName api u) = us_memberId u"
  "us_churchId (enrichChurchName api u) = us_churchId u" "us_email (enrichChurchName api u) = us_email u"
  "us_phone (enrichChurchName api u) = us_phone u" "us_role (enrichChurchName api u) = us_role u"
  by (simp_all add: enrichChurchName_def split: sum.split)

definition auth_ok :: "host \<Rightarrow> AuthResponse \<Rightarrow> bool" where
  "auth_ok h r \<longleftrightarrow> pair_ok (au_tokens r) \<and> user_ok h (au_user r)"

lemma normalizeAuthResponse_ok: "normalizeAuthResponse h v = Inr r \<Longrightarrow> auth_ok h r"
  by (auto simp: normalizeAuthResponse_def auth_ok_def res_simps normalizePair_Inr normalizeUser_ok
      split: if_splits sum.splits)

interpretation auth_response: record_normalizer "normalizeAuthResponse h" "auth_ok h" for h
  by unfold_locales (rule normalizeAuthResponse_ok)

lemma enriched_ok: "auth_ok h r \<Longrightarrow> auth_ok h (enriched bearer r)"
  by (simp add: auth_ok_def enriched_def enrichChurchName_ok)

lemma enriched_keeps [simp]:
  "us_email (au_user (enriched bearer r)) = us_email (au_user r)"
  "us_phone (au_user (enriched bearer r)) = us_phone (au_user r)"
  "au_tokens (enriched bearer r) = au_tokens r"
  by (simp_all add: enriched_def)

lemma login_response_ok:
  assumes "login_response h api bearer c = Inr r"
  shows "auth_ok h r \<and> canonicalEmail (lr_email c) = Some (us_email (au_user r))"
  using assms
  by (auto simp: login_response_def Let_def res_simps enriched_ok normalizeAuthResponse_ok
      split: option.splits if_splits)

lemma otp_response_ok:
  assumes "otp_response h api bearer q = Inr r"
  shows "auth_ok h r \<and> canonicalPhone (or_phone q) = Some (us_phone (au_user r))"
  using assms
  by (auto simp: otp_response_def Let_def res_simps enriched_ok normalizeAuthResponse_ok
      split: option.splits if_splits)

text \<open>What a sign-in that returned left in the store, for both ways to sign in.\<close>

lemma io_bind_Ret:
  assumes "io_bind m f s fs = (Ret y, s', fs')"
  obtains x s1 fs1 where "m s fs = (Ret x, s1, fs1)" and "f x s1 fs1 = (Ret y, s', fs')"
  using assms by (auto simp: io_bind_def split: prod.splits run.splits)

lemma getStoredUser_cached:
  assumes "user_ok h u" and "encodeCachedUser J (user_json u) = Inr enc"
    and "st_kv s (secret_slot os USER_KEY) = Some enc"
  shows "getStoredUser h J os s [] = (Ret (Some u), s, [])"
proof -
  have enc: "enc = print_flat (user_fields u)" "enc \<noteq> []" "length enc \<le> MAX_CACHED_USER_LENGTH"
    and parse: "json_parse J enc = Some (user_json u)"
    using assms(2) json_roundtrip [OF user_flat, of J u]
    by (auto simp: encodeCachedUser_def split: if_splits)
  have "session_getUser J os s [] = (Ret (Some (user_json u)), s, [])"
    using enc(2,3) parse assms(3)
    by (simp add: session_getUser_def getSecret_def run_items io_bind_def run_simps text_value_def)
  moreover have "user_json u \<noteq> JNull" by (simp add: user_json_def flat_object_def)
  moreover have "\<not> pre_member_profile (user_json u)" by (simp add: pre_member_profile_def)
  ultimately show ?thesis
    by (simp add: getStoredUser_def io_bind_def run_simps io_lift_def normalizeUser_json [OF assms(1)])
qed

lemma signed_in_Ret:
  assumes "signed_in J os response c1 c2 c3 s fs = (Ret r, s', fs')"
  shows "response = Inr r \<and> (auth_ok h r \<longrightarrow> c1 \<and> c2 \<and> c3 \<and> view J os s' = Some (au_tokens r)
    \<and> getStoredUser h J os s' [] = (Ret (Some (au_user r)), s', []))"
proof -
  let ?commit = "\<lambda>r. commitAuthenticatedSessionIf J os (JStr (accessToken (au_tokens r)))
    (JStr (refreshToken (au_tokens r))) (user_json (au_user r)) c1 c2 c3"
  obtain x where x: "response = Inr x" and rest: "io_seq (storeAuthData J os x c1 c2 c3) (io_return x) s fs = (Ret r, s', fs')"
    using assms by (cases response) (auto simp: signed_in_def io_bind_def io_lift_def run_simps)
  then obtain u fs1 where store: "storeAuthData J os x c1 c2 c3 s fs = (Ret u, s', fs1)" and r: "x = r"
    by (auto simp: io_seq_def run_simps elim!: io_bind_Ret)
  obtain b s1 fs2 where com: "?commit r s fs = (Ret b, s1, fs2)"
    and fin: "(if \<not> b then io_throw (throw ''The sign-in attempt is no longer active.'') else io_return ()) s1 fs2
      = (Ret u, s', fs1)"
    using store unfolding storeAuthData_def r by (rule io_bind_Ret)
  have com': "?commit r s fs = (Ret True, s', fs2)"
    using com fin by (cases b) (simp_all add: run_simps)
  have "c1 \<and> c2 \<and> c3 \<and> view J os s' = Some (au_tokens r)
    \<and> getStoredUser h J os s' [] = (Ret (Some (au_user r)), s', [])" if ok: "auth_ok h r"
  proof -
    have pair: "normalizeSessionTokenPair (JStr (accessToken (au_tokens r))) (JStr (refreshToken (au_tokens r)))
        = Inr (au_tokens r)"
      using ok by (simp add: auth_ok_def normalizePair_Inr)
    obtain enc where enc: "encodeCachedUser J (user_json (au_user r)) = Inr enc"
      using wpD [OF wp_commitAuthenticatedSessionIf com'] pair
      by (cases "encodeCachedUser J (user_json (au_user r))") auto
    have "commit_post J os (au_tokens r) enc c1 c2 c3 s (Ret True) s'"
      using wpD [OF wp_commitAuthenticatedSessionIf com'] pair enc by simp
    then have post: "c1 \<and> c2 \<and> c3" "view J os s' = Some (au_tokens r)"
        "st_kv s' (secret_slot os USER_KEY) = Some enc"
      unfolding commit_post_def by blast+
    then show ?thesis
      using getStoredUser_cached [OF _ enc post(3)] ok by (simp add: auth_ok_def)
  qed
  then show ?thesis using x r by simp
qed

text \<open>Reading the access token, and clearing.\<close>

lemma view_pair_ok: "view J os s = Some t \<Longrightarrow> pair_ok t"
  by (auto simp: view_def stored_envelope_def legacy_secret_def legacy_async_def decode_envelope_def
      pair_of_def normalizePair_Inr split: if_splits option.splits sum.splits)

lemma given_access [simp]: "given (map_option accessToken (view J os s)) \<longleftrightarrow> view J os s \<noteq> None"
  using view_pair_ok [of J os s] by (cases "view J os s") (auto simp: given_def pair_ok_def token_ok_def)

lemma wp_access_or_none:
  "wp (access_or_none J os) (\<lambda>r s'. view J os s' = view J os s \<and> (\<forall>e. r \<noteq> Thrown e)
     \<and> (\<forall>t. r = Ret (Some t) \<longrightarrow> map_option accessToken (view J os s) = Some t)) s"
  unfolding access_or_none_def session_getAccessToken_def
  by (rule wp_try, rule wp_bind, rule wp_conseq [OF wp_readTokensUnlocked])
    (auto split: run.splits intro!: wp_return simp: read_post_def)

lemma access_or_none_calm:
  "\<exists>s'. access_or_none J os s [] = (Ret (map_option accessToken (view J os s)), s', [])
     \<and> view J os s' = view J os s"
proof -
  obtain t s1 where read: "readTokensUnlocked J os s [] = (Ret t, s1, [])" "t = view J os s \<and> view J os s1 = view J os s"
    using calm_wp [OF calm_readTokensUnlocked [of J os] wp_conseq [OF wp_readTokensUnlocked [of J os s]],
        of "\<lambda>t s1. t = view J os s \<and> view J os s1 = view J os s"]
    by (auto simp: read_post_def)
  then show ?thesis
    by (simp add: access_or_none_def session_getAccessToken_def io_try_def io_bind_def run_simps)
qed

lemma wp_clearTokens:
  "wp (clearTokens os False) (\<lambda>r s'. r = Ret () \<longrightarrow> view J os s' = None) s"
  unfolding clearTokens_def session_clear_def
  by (rule wp_finally, rule wp_conseq [OF wp_clearSessionUnlocked [where J = J]])
    (auto split: run.splits intro!: wp_return simp: cleared_def view_revoked)


lemma clear_quietly_never_throws: "clear_quietly os s fs \<noteq> (Thrown e, s', fs')"
  by (auto simp: clear_quietly_def io_try_def run_simps split: prod.splits run.splits)

text \<open>The gateway said that all sessions of a token are ended: the message of its answer, in an envelope or not.\<close>

definition ended_everywhere :: "(jsstring \<Rightarrow> api) \<Rightarrow> jsstring \<Rightarrow> bool" where
  "ended_everywhere bearer access \<longleftrightarrow>
     (\<exists>data answer. api_post (bearer access) (js ''/auth/logout-all'') JUndef = Inr data
        \<and> (answer = data \<or> get data ''success'' \<in> {JUndef, JBool True} \<and> answer = get data ''data'')
        \<and> get answer ''message'' = JStr (js ''Signed out on all devices.'')
        \<and> get answer ''deviceCleanupConfirmed'' \<in> {JBool True, JBool False})"

lemma revoked_everywhere: "revoke_remotely bearer AllSessions access = Inr () \<Longrightarrow> ended_everywhere bearer access"
proof -
  assume "revoke_remotely bearer AllSessions access = Inr ()"
  then obtain data answer where data: "api_post (bearer access) (js ''/auth/logout-all'') JUndef = Inr data"
      "unwrap_auth data = Inr answer" "get answer ''message'' = JStr (js ''Signed out on all devices.'')"
      "is_boolean (get answer ''deviceCleanupConfirmed'')"
    by (auto simp: revoke_remotely_def logout_path_def normalizeLogoutAcknowledgement_def logout_message_def res_simps
        split: if_splits)
  then have "answer = data \<or> get data ''success'' \<in> {JUndef, JBool True} \<and> answer = get data ''data''"
    by (auto simp: unwrap_auth_def split: if_splits)
  moreover have "get answer ''deviceCleanupConfirmed'' \<in> {JBool True, JBool False}"
    using data(4) by (cases "get answer ''deviceCleanupConfirmed''") auto
  ultimately show ?thesis using data(1,3) unfolding ended_everywhere_def by blast
qed

text \<open>The last step of a global logout: nothing is shown, unless the deletion failed.\<close>

abbreviation cleared_at_last :: "os \<Rightarrow> unit io \<Rightarrow> bool io" where
  "cleared_at_last os between \<equiv> io_seq (elsewhere between) (io_seq (clear_quietly os) (io_return True))"

definition gone :: "json \<Rightarrow> os \<Rightarrow> store \<Rightarrow> outcome list \<Rightarrow> bool" where
  "gone J os s' fs' \<longleftrightarrow> view J os s' = None \<or> (\<exists>s4 fs4 e. clearTokens os False s4 fs4 = (Thrown e, s', fs'))"

lemma cleared_at_last_outcome:
  assumes "cleared_at_last os between s fs = (r, s', fs')" and "r \<noteq> Killed"
  shows "r = Ret True \<and> gone J os s' fs'"
proof -
  obtain q s3 fs3 where e: "elsewhere between s fs = (q, s3, fs3)" by (metis prod.exhaust)
  obtain d s4 fs4 where c: "clearTokens os False s3 fs3 = (d, s4, fs4)" by (metis prod.exhaust)
  have "q \<noteq> Thrown x" for x using elsewhere_never_throws e by metis
  then have q: "q = Ret ()" using assms e by (cases q) (auto simp: io_seq_def io_bind_def)
  have "d = Ret () \<Longrightarrow> view J os s4 = None" using wpD [OF wp_clearTokens c] by blast
  then show ?thesis
    using assms e c q
    by (cases d) (auto simp: gone_def io_seq_def io_bind_def clear_quietly_def io_try_def run_simps)
qed

section \<open>Properties\<close>

text \<open>C21: signing in stores exactly what it returns. When \<open>login\<close> or \<open>verifyOtp\<close> returns, every
  answer of \<open>canCommit\<close> was yes, the session shown is the returned token pair, the cached profile
  reads back as the returned member, that member is well formed, and its email address (for a
  code, its phone number) is the canonical form of the one that was entered.\<close>

theorem sign_in_stores_what_it_returns:
  "(login h api bearer J os c c1 c2 c3 s fs = (Ret r, s', fs')
      \<longrightarrow> c1 \<and> c2 \<and> c3 \<and> view J os s' = Some (au_tokens r) \<and> user_ok h (au_user r)
        \<and> getStoredUser h J os s' [] = (Ret (Some (au_user r)), s', [])
        \<and> canonicalEmail (lr_email c) = Some (us_email (au_user r)))
   \<and> (verifyOtp h api bearer J os q c1 c2 c3 s fs = (Ret r, s', fs')
      \<longrightarrow> c1 \<and> c2 \<and> c3 \<and> view J os s' = Some (au_tokens r) \<and> user_ok h (au_user r)
        \<and> getStoredUser h J os s' [] = (Ret (Some (au_user r)), s', [])
        \<and> canonicalPhone (or_phone q) = Some (us_phone (au_user r)))"
proof (intro conjI [OF impI impI])
  assume "login h api bearer J os c c1 c2 c3 s fs = (Ret r, s', fs')"
  then have "signed_in J os (login_response h api bearer c) c1 c2 c3 s fs = (Ret r, s', fs')"
    by (simp add: login_def)
  from signed_in_Ret [OF this, of h] login_response_ok [of h api bearer c r]
  show "c1 \<and> c2 \<and> c3 \<and> view J os s' = Some (au_tokens r) \<and> user_ok h (au_user r)
        \<and> getStoredUser h J os s' [] = (Ret (Some (au_user r)), s', [])
        \<and> canonicalEmail (lr_email c) = Some (us_email (au_user r))"
    unfolding auth_ok_def by blast
next
  assume "verifyOtp h api bearer J os q c1 c2 c3 s fs = (Ret r, s', fs')"
  then have "signed_in J os (otp_response h api bearer q) c1 c2 c3 s fs = (Ret r, s', fs')"
    by (simp add: verifyOtp_def)
  from signed_in_Ret [OF this, of h] otp_response_ok [of h api bearer q r]
  show "c1 \<and> c2 \<and> c3 \<and> view J os s' = Some (au_tokens r) \<and> user_ok h (au_user r)
        \<and> getStoredUser h J os s' [] = (Ret (Some (au_user r)), s', [])
        \<and> canonicalPhone (or_phone q) = Some (us_phone (au_user r))"
    unfolding auth_ok_def by blast
qed


text \<open>C31: a global logout confirms before it signs out, and keeps a session that replaced the one it revoked. Every
  outcome, whatever other calls do meanwhile: with a token to revoke it returns only after the gateway confirmed the
  revocation of the session it started with, and if it throws, it throws the answer of the gateway and leaves the
  store as the other calls left it; when the token read after the confirmation is not the one that was revoked it
  answers false and leaves the session shown then; it answers true only when that reading still gave the revoked
  session, and then nothing is shown unless the deletion failed. Without a token that can be read it asks the gateway
  nothing, clears the store and answers true. (The clearing comes later than the reading, and a reading that fails
  counts as no token: lemmas \<open>session_between_is_cleared\<close> and \<open>unread_token_is_not_revoked\<close>.)\<close>

theorem global_logout_keeps_newer_session:
  assumes "logoutEverywhere bearer J os meanwhile between s fs = (r, s', fs')" and "r \<noteq> Killed"
  shows "(r = Ret True \<longrightarrow> view J os s' = None \<or> (\<exists>s4 fs4 e. clearTokens os False s4 fs4 = (Thrown e, s', fs')))
    \<and> (\<exists>access s1 fs1. access_or_none J os s fs = (Ret access, s1, fs1)
       \<and> (case access of
            None \<Rightarrow> r = Ret True
          | Some a \<Rightarrow> \<exists>t s2 fs2. view J os s = Some t \<and> a = accessToken t
              \<and> elsewhere meanwhile s1 fs1 = (Ret (), s2, fs2)
              \<and> (case r of
                   Ret True \<Rightarrow> ended_everywhere bearer a
                     \<and> map_option accessToken (view J os s2) = Some a
                 | Ret False \<Rightarrow> ended_everywhere bearer a \<and> view J os s' = view J os s2
                 | Thrown e \<Rightarrow> revoke_remotely bearer AllSessions a = Inl e \<and> view J os s' = view J os s2
                 | Killed \<Rightarrow> False)))"
proof -
  obtain q s1 fs1 where acc: "access_or_none J os s fs = (q, s1, fs1)" by (metis prod.exhaust)
  have shown: "q \<noteq> Thrown e" "q = Ret (Some a) \<Longrightarrow> map_option accessToken (view J os s) = Some a" for a e
    using wpD [OF wp_access_or_none acc] by auto
  then obtain access where q: "q = Ret access"
    using assms acc by (cases q) (auto simp: logoutEverywhere_def endAllSessions_def io_bind_def)
  show ?thesis
  proof (cases access)
    case None
    then have "cleared_at_last os between s1 fs1 = (r, s', fs')"
      using assms(1) acc q by (simp add: logoutEverywhere_def endAllSessions_def io_bind_def given_def)
    from cleared_at_last_outcome [OF this assms(2)] show ?thesis using acc q None by (simp add: gone_def)
  next
    case (Some a)
    then obtain t where t: "view J os s = Some t" "a = accessToken t" using shown(2) q by auto
    have g: "given (Some a)" using given_access [of J os s] t by simp
    obtain u s2 fs2 where mid: "elsewhere meanwhile s1 fs1 = (u, s2, fs2)" by (metis prod.exhaust)
    have "u \<noteq> Thrown e" for e using elsewhere_never_throws mid by metis
    then have u: "u = Ret ()"
      using assms acc q Some g mid by (cases u) (auto simp: logoutEverywhere_def endAllSessions_def io_bind_def)
    let ?rest = "io_bind (io_lift (revoke_remotely bearer AllSessions a)) (\<lambda>_.
        io_bind (access_or_none J os) (\<lambda>current.
          if current \<noteq> Some a then io_return False else cleared_at_last os between))"
    have run: "?rest s2 fs2 = (r, s', fs')"
      using assms(1) acc q Some g mid u by (simp add: logoutEverywhere_def endAllSessions_def io_bind_def)
    have "(r = Ret True \<longrightarrow> gone J os s' fs')
        \<and> (case r of
            Ret True \<Rightarrow> revoke_remotely bearer AllSessions a = Inr ()
              \<and> map_option accessToken (view J os s2) = Some a
          | Ret False \<Rightarrow> revoke_remotely bearer AllSessions a = Inr () \<and> view J os s' = view J os s2
          | Thrown e \<Rightarrow> revoke_remotely bearer AllSessions a = Inl e \<and> view J os s' = view J os s2
          | Killed \<Rightarrow> False)"
    proof (cases "revoke_remotely bearer AllSessions a")
      case (Inl e)
      then show ?thesis using run by (auto simp: io_bind_def io_lift_def run_simps)
    next
      case (Inr v)
      obtain c s3 fs3 where again: "access_or_none J os s2 fs2 = (c, s3, fs3)" by (metis prod.exhaust)
      have read: "view J os s3 = view J os s2" "\<And>e. c \<noteq> Thrown e"
        "\<And>x. c = Ret (Some x) \<Longrightarrow> map_option accessToken (view J os s2) = Some x"
        using wpD [OF wp_access_or_none again] by auto
      then obtain current where c: "c = Ret current"
        using run Inr again assms(2) by (cases c) (auto simp: io_bind_def io_lift_def run_simps)
      show ?thesis
      proof (cases "current = Some a")
        case True
        then have "cleared_at_last os between s3 fs3 = (r, s', fs')"
          using run Inr again c by (simp add: io_bind_def io_lift_def run_simps)
        from cleared_at_last_outcome [OF this assms(2)] show ?thesis using Inr read(3) c True by simp
      next
        case False
        then have "r = Ret False \<and> s' = s3"
          using run Inr again c by (auto simp: io_bind_def io_lift_def run_simps)
        then show ?thesis using Inr read(1) by simp
      qed
    qed
    then have "(r = Ret True \<longrightarrow> gone J os s' fs')
        \<and> (case r of
            Ret True \<Rightarrow> ended_everywhere bearer a \<and> map_option accessToken (view J os s2) = Some a
          | Ret False \<Rightarrow> ended_everywhere bearer a \<and> view J os s' = view J os s2
          | Thrown e \<Rightarrow> revoke_remotely bearer AllSessions a = Inl e \<and> view J os s' = view J os s2
          | Killed \<Rightarrow> False)"
      using revoked_everywhere by (auto split: run.splits bool.splits)
    then show ?thesis using acc q Some t mid u by (auto simp: gone_def)
  qed
qed

text \<open>A registration that returns is the member's own. The account is in the church the code
  resolved to (the confirmed one, when one was confirmed), with the canonical phone number and
  email address that were entered, the plain member role and the same full name.\<close>

theorem registration_is_own:
  assumes "register h api d = Inr (u, message)"
  shows "user_ok h u \<and> us_role u = js ''MEMBER''
     \<and> canonicalPhone (rg_phone d) = Some (us_phone u) \<and> canonicalEmail (rg_email d) = Some (us_email u)
     \<and> (\<exists>church. resolveChurchCode api (the (rg_churchCode d)) = Inr church \<and> us_churchId u = rc_id church
          \<and> (given (rg_confirmedChurchId d) \<longrightarrow> rg_confirmedChurchId d = Some (us_churchId u)))
     \<and> collapse_spaces False (trim (us_firstName u @ 32 # us_lastName u))
        = collapse_spaces False (trim (full_name (rg_firstName d) (rg_lastName d)))"
proof -
  obtain phone email church data where
    phone: "canonicalPhone (rg_phone d) = Some phone" and email: "canonicalEmail (rg_email d) = Some email"
    and church: "resolveChurchCode api (the (rg_churchCode d)) = Inr church"
    and confirmed: "\<not> (given (rg_confirmedChurchId d) \<and> rc_id church \<noteq> the (rg_confirmedChurchId d))"
    and n: "normalizeRegistrationResponse h data (rc_id church) phone email
        (full_name (rg_firstName d) (rg_lastName d)) = Inr (u, message)"
    using assms
    by (auto simp: register_def Let_def res_simps split: option.splits if_splits)
  have "user_ok h u" "us_churchId u = rc_id church" "us_phone u = phone" "us_email u = email"
    "us_role u = js ''MEMBER''"
    "collapse_spaces False (trim (us_firstName u @ 32 # us_lastName u))
        = collapse_spaces False (trim (full_name (rg_firstName d) (rg_lastName d)))"
    using n by (auto simp: normalizeRegistrationResponse_def Let_def res_simps normalizeUser_ok split: if_splits)
  moreover have "given (rg_confirmedChurchId d) \<longrightarrow> rg_confirmedChurchId d = Some (rc_id church)"
    using confirmed by (auto simp: given_def)
  ultimately show ?thesis using phone email church by auto
qed

section \<open>Witnesses\<close>

definition plain_host :: host where
  "plain_host = \<lparr>dateParse = (\<lambda>_. None), urlParse = (\<lambda>_. None), searchParams = (\<lambda>_. [])\<rparr>"

definition sample_member :: User where
  "sample_member = \<lparr>us_id = js ''u1'', us_memberId = js ''m1'', us_firstName = js ''Ama'', us_lastName = js ''Osei'',
     us_email = js ''ama@x.io'', us_phone = js ''+233201234567'', us_avatar = None, us_churchId = js ''c1'',
     us_churchName = Some (js ''Grace''), us_role = js ''MEMBER''\<rparr>"

definition auth_api :: api where
  "auth_api _ = Inr (envelope (JObj [(''user'', user_json sample_member), (''accessToken'', JStr (js ''a1'')),
     (''refreshToken'', JStr (js ''r1''))]))"

definition sample_login :: LoginRequest where
  "sample_login = \<lparr>lr_email = JStr (js '' AMA@x.io''), lr_password = JStr (js ''secret''), lr_method = JUndef,
     lr_workspace = JStr (js ''Grace-City'')\<rparr>"

definition sample_response :: AuthResponse where
  "sample_response = \<lparr>au_tokens = sample_pair, au_user = sample_member\<rparr>"

theorem sign_in_stores_what_it_returns_witness:
  "\<exists>s' fs'. login plain_host auth_api (\<lambda>_. auth_api) plain_json Native sample_login True True True empty_store []
      = (Ret sample_response, s', fs')
     \<and> getStoredUser plain_host plain_json Native s' [] = (Ret (Some sample_member), s', [])"
proof -
  have "fst (login plain_host auth_api (\<lambda>_. auth_api) plain_json Native sample_login True True True empty_store [])
      = Ret sample_response"
    by code_simp
  then obtain s' fs' where run: "login plain_host auth_api (\<lambda>_. auth_api) plain_json Native sample_login
      True True True empty_store [] = (Ret sample_response, s', fs')"
    by (metis prod.exhaust_sel)
  have "au_user sample_response = sample_member" by (simp add: sample_response_def)
  then show ?thesis
    using run sign_in_stores_what_it_returns [THEN conjunct1, rule_format, OF run] by simp
qed

definition revoking_gateway :: "jsstring \<Rightarrow> api" where
  "revoking_gateway _ _ = Inr (envelope (JObj [(''message'', JStr (js ''Signed out on all devices.'')),
     (''deviceCleanupConfirmed'', JBool True)]))"

definition newer_sign_in :: "unit io" where
  "newer_sign_in = io_bind (commitAuthenticatedSessionIf plain_json Native (JStr (js ''a2'')) (JStr (js ''r2''))
     (JObj []) True True True) (\<lambda>_. io_return ())"

text \<open>A new sign-in while the request is in flight is kept.\<close>

lemma newer_sign_in_shown:
  "fst (logoutEverywhere revoking_gateway plain_json Native newer_sign_in (io_return ()) signed_in_store []) = Ret False"
  "map_option accessToken (view plain_json Native
     (fst (snd (logoutEverywhere revoking_gateway plain_json Native newer_sign_in (io_return ()) signed_in_store []))))
   = Some (js ''a2'')"
  by code_simp+

theorem global_logout_keeps_newer_session_witness:
  "\<exists>s' fs' s1 fs1 s2 fs2. logoutEverywhere revoking_gateway plain_json Native newer_sign_in (io_return ()) signed_in_store []
      = (Ret False, s', fs')
    \<and> access_or_none plain_json Native signed_in_store [] = (Ret (Some (js ''a1'')), s1, fs1)
    \<and> elsewhere newer_sign_in s1 fs1 = (Ret (), s2, fs2) \<and> view plain_json Native s' = view plain_json Native s2
    \<and> map_option accessToken (view plain_json Native s') = Some (js ''a2'')"
proof -
  obtain s' fs' where run: "logoutEverywhere revoking_gateway plain_json Native newer_sign_in (io_return ())
      signed_in_store [] = (Ret False, s', fs')"
    by (metis newer_sign_in_shown(1) prod.exhaust_sel)
  have shown: "view plain_json Native signed_in_store = Some sample_pair" by code_simp
  obtain s1 where acc: "access_or_none plain_json Native signed_in_store [] = (Ret (Some (js ''a1'')), s1, [])"
    using access_or_none_calm [of plain_json Native signed_in_store] shown by (auto simp: sample_pair_def)
  obtain s2 fs2 where "elsewhere newer_sign_in s1 [] = (Ret (), s2, fs2)"
      "view plain_json Native s' = view plain_json Native s2"
    using global_logout_keeps_newer_session [OF run] acc by auto
  then show ?thesis using run acc newer_sign_in_shown(2) by auto
qed

text \<open>A new sign-in after the last reading of the token, while the clearing waits for its turn, is cleared, though the
  session that was revoked is another one.\<close>

lemma session_between_is_cleared:
  "fst (logoutEverywhere revoking_gateway plain_json Native (io_return ()) newer_sign_in signed_in_store []) = Ret True"
  "view plain_json Native
     (fst (snd (logoutEverywhere revoking_gateway plain_json Native (io_return ()) newer_sign_in signed_in_store []))) = None"
  by code_simp+

text \<open>A token that cannot be read counts as none: the gateway is not asked, the session is cleared on the device, and the
  answer claims success, though every session goes on elsewhere.\<close>

lemma unread_token_is_not_revoked:
  "fst (logoutEverywhere bearer plain_json Native (io_return ()) (io_return ()) signed_in_store [Failed]) = Ret True"
  "view plain_json Native
     (fst (snd (logoutEverywhere bearer plain_json Native (io_return ()) (io_return ()) signed_in_store [Failed]))) = None"
  by code_simp+

definition registration_api :: api where
  "registration_api r =
     (if rq_method r = GET
      then Inr (envelope (JObj [(''id'', JStr (js ''c1'')), (''name'', JStr (js ''Grace'')), (''slug'', JStr (js ''grace''))]))
      else Inr (envelope (JObj [(''user'', user_json sample_member)])))"

definition sample_registration :: RegisterRequest where
  "sample_registration = \<lparr>rg_firstName = js ''Ama'', rg_lastName = js '' Osei'', rg_email = JStr (js ''ama@x.io''),
     rg_phone = js ''020 123 4567'', rg_password = JStr (js ''long-enough''), rg_churchCode = Some (js ''Grace''),
     rg_confirmedChurchId = Some (js ''c1'')\<rparr>"

theorem registration_is_own_witness:
  "register plain_host registration_api sample_registration = Inr (sample_member, None)
     \<and> us_role sample_member = js ''MEMBER'' \<and> canonicalPhone (js ''020 123 4567'') = Some (us_phone sample_member)"
proof -
  have run: "register plain_host registration_api sample_registration = Inr (sample_member, None)"
    by code_simp
  have "rg_phone sample_registration = js ''020 123 4567''" by (simp add: sample_registration_def)
  then show ?thesis using run registration_is_own [OF run] by simp
qed

end
