(* ===== verification/AuthForms.thy ===== *)
theory AuthForms
  imports AuthService Money
begin

text \<open>
  The decisions of the authentication screens of the mobile app: what each form refuses
  (\<open>screens/auth/login-state.ts\<close>, \<open>registration-state.ts\<close>), the state of the one-time code screen
  (\<open>otp-state.ts\<close>), the navigation key of a session (\<open>components/navigation/navigation-session.ts\<close>)
  and the state of a paging button. A \<open>Partial<Record<field, string>>\<close> is the list of its entries in
  the order they are assigned. \<open>login_request\<close> and \<open>register_request\<close> are what \<open>LoginScreen\<close> and
  \<open>RegisterScreen\<close> hand to the service after a form without errors.
\<close>

section \<open>Actions\<close>

record action_state =
  ac_label :: jsstring
  ac_disabled :: bool
  ac_hint :: "jsstring option"

abbreviation ellipsis :: "string \<Rightarrow> jsstring" where
  "ellipsis s \<equiv> js s @ [0x2026]"

subsection \<open>Login form\<close>

datatype login_method = PhoneMethod | PasswordMethod

record LoginFormValues =
  lf_phone :: jsstring
  lf_email :: jsstring
  lf_password :: jsstring
  lf_workspace :: jsstring

definition loginPrimaryActionState :: "login_method \<Rightarrow> bool \<Rightarrow> bool \<Rightarrow> action_state" where
  "loginPrimaryActionState m offline loading =
     (let requestingCode = (m = PhoneMethod) in
      \<lparr>ac_label =
         (if loading then (if requestingCode then ellipsis ''Sending your code'' else ellipsis ''Signing you in'')
          else if offline
            then (if requestingCode then js ''Reconnect to request a code'' else js ''Reconnect to sign in'')
          else if requestingCode then js ''Send my code'' else js ''Sign in''),
       ac_disabled = offline,
       ac_hint =
         (if offline
          then Some (if requestingCode then js ''Reconnect to request a sign-in code.''
            else js ''Reconnect to sign in.'')
          else None)\<rparr>)"

type_synonym form_errors = "(string \<times> jsstring) list"

definition error_unless :: "bool \<Rightarrow> string \<Rightarrow> string \<Rightarrow> form_errors" where
  "error_unless b field message = (if b then [] else [(field, js message)])"

definition loginErrors :: "login_method \<Rightarrow> LoginFormValues \<Rightarrow> form_errors" where
  "loginErrors m values =
     (let workspaceError = error_unless (canonicalWorkspace (JStr (lf_workspace values)) \<noteq> None)
        ''workspace'' ''Enter the church workspace provided by your church''
      in if m = PhoneMethod
         then workspaceError @ error_unless (canonicalPhone (lf_phone values) \<noteq> None)
           ''phone'' ''Enter a valid mobile number, including the country code''
         else workspaceError
           @ error_unless (canonicalEmail (JStr (lf_email values)) \<noteq> None)
               ''email'' ''Enter a valid email address''
           @ error_unless (validAuthPassword (JStr (lf_password values)) 1)
               ''password'' ''Enter a valid password of 72 UTF-8 bytes or fewer'')"

definition login_request :: "LoginFormValues \<Rightarrow> LoginRequest" where
  "login_request f =
     \<lparr>lr_email = JStr (toLowerCase (trim (lf_email f))), lr_password = JStr (lf_password f),
      lr_method = JStr (js ''PASSWORD''), lr_workspace = JStr (lf_workspace f)\<rparr>"

subsection \<open>Registration form\<close>

datatype registration_step = NameStep | ContactStep | PasswordStep | ChurchStep

fun step_index :: "registration_step \<Rightarrow> nat" where
  "step_index NameStep = 0"
| "step_index ContactStep = 1"
| "step_index PasswordStep = 2"
| "step_index ChurchStep = 3"

definition registration_steps :: "registration_step list" where
  "registration_steps = [NameStep, ContactStep, PasswordStep, ChurchStep]"

record RegistrationFormValues =
  rf_firstName :: jsstring
  rf_lastName :: jsstring
  rf_email :: jsstring
  rf_phone :: jsstring
  rf_password :: jsstring
  rf_confirmPassword :: jsstring
  rf_churchCode :: jsstring

definition REGISTRATION_STEPS :: "(jsstring \<times> jsstring) list" where
  "REGISTRATION_STEPS =
     [(js ''Your name'', js ''Tell us what your church community should call you.''),
      (js ''Contact details'',
        js ''We'' @ [0x2019] @ js ''ll use your mobile number to verify this account.''),
      (js ''Secure your account'', js ''Choose a private password you do not use elsewhere.''),
      (js ''Find your church'', js ''Enter the code shared by your church office.'')]"

text \<open>\<open>min\<close>, \<open>max\<close>, \<open>now\<close>.\<close>

definition registrationProgressValue :: "registration_step \<Rightarrow> nat \<times> nat \<times> nat" where
  "registrationProgressValue step = (0, length REGISTRATION_STEPS, step_index step + 1)"

definition registrationChurchActionState ::
    "bool \<Rightarrow> bool \<Rightarrow> bool \<Rightarrow> bool \<Rightarrow> bool \<Rightarrow> action_state \<times> action_state" where
  "registrationChurchActionState offline resolving committing hasCode churchConfirmed =
     (\<lparr>ac_label = (if resolving then ellipsis ''Finding your church''
         else if offline then js ''Reconnect to find your church'' else js ''Find my church''),
       ac_disabled = (offline \<or> resolving \<or> committing \<or> \<not> hasCode),
       ac_hint = (if offline then Some (js ''Reconnect to find and confirm your church.'') else None)\<rparr>,
      \<lparr>ac_label = (if committing then ellipsis ''Creating your account''
         else if offline then js ''Reconnect to create your account'' else js ''Create account''),
       ac_disabled = (offline \<or> resolving \<or> committing \<or> \<not> churchConfirmed),
       ac_hint = (if offline then Some (js ''Reconnect to create and verify your account.'') else None)\<rparr>)"

datatype removal_decision = AllowRemoval | BlockRemoval | StepBack registration_step

fun previous_step :: "registration_step \<Rightarrow> registration_step option" where
  "previous_step NameStep = None"
| "previous_step ContactStep = Some NameStep"
| "previous_step PasswordStep = Some ContactStep"
| "previous_step ChurchStep = Some PasswordStep"

definition registrationRemovalDecision :: "registration_step \<Rightarrow> bool \<Rightarrow> bool \<Rightarrow> removal_decision" where
  "registrationRemovalDecision step isCommitting explicitExit =
     (if explicitExit then AllowRemoval
      else if isCommitting then BlockRemoval
      else case previous_step step of Some s \<Rightarrow> StepBack s | None \<Rightarrow> AllowRemoval)"

definition canonicalChurchCodeInput :: "jsstring \<Rightarrow> jsstring" where
  "canonicalChurchCodeInput v = toLowerCase (trim v)"

definition registrationChurchMatchesCode :: "RegistrationChurch option \<Rightarrow> jsstring \<Rightarrow> bool" where
  "registrationChurchMatchesCode church input \<longleftrightarrow>
     (case church of None \<Rightarrow> False | Some c \<Rightarrow> rc_slug c = canonicalChurchCodeInput input)"

definition name_errors :: "RegistrationFormValues \<Rightarrow> form_errors" where
  "name_errors form =
     (let missing = error_unless (trim (rf_firstName form) \<noteq> []) ''firstName'' ''First name is required''
        @ error_unless (trim (rf_lastName form) \<noteq> []) ''lastName'' ''Last name is required''
      in if missing \<noteq> [] then missing
         else error_unless (validRegistrationName (rf_firstName form) (rf_lastName form))
           ''firstName'' ''Enter a valid name using 120 UTF-8 bytes or fewer'')"

definition contact_errors :: "RegistrationFormValues \<Rightarrow> form_errors" where
  "contact_errors form =
     (if trim (rf_email form) = [] then [(''email'', js ''Email is required'')]
      else error_unless (canonicalEmail (JStr (rf_email form)) \<noteq> None) ''email'' ''Enter a valid email address'')
     @ (if trim (rf_phone form) = [] then [(''phone'', js ''Phone is required'')]
        else error_unless (canonicalPhone (rf_phone form) \<noteq> None)
          ''phone'' ''Enter a valid mobile number, including the country code'')"

definition password_errors :: "RegistrationFormValues \<Rightarrow> form_errors" where
  "password_errors form =
     (if validAuthPassword (JStr (rf_password form)) 8 then []
      else [(''password'', js ''Use 8'' @ [0x2013] @ js ''72 UTF-8 bytes without control characters'')])
     @ error_unless (rf_password form = rf_confirmPassword form) ''confirmPassword'' ''Passwords do not match''"

definition church_errors :: "RegistrationFormValues \<Rightarrow> RegistrationChurch option \<Rightarrow> form_errors" where
  "church_errors form church =
     (if trim (rf_churchCode form) = [] then [(''churchCode'', js ''Church code is required'')]
      else error_unless (registrationChurchMatchesCode church (rf_churchCode form))
        ''churchCode'' ''Find and confirm your church before creating your account'')"

fun registrationErrorsForStep ::
    "registration_step \<Rightarrow> RegistrationFormValues \<Rightarrow> RegistrationChurch option \<Rightarrow> form_errors" where
  "registrationErrorsForStep NameStep form church = name_errors form"
| "registrationErrorsForStep ContactStep form church = contact_errors form"
| "registrationErrorsForStep PasswordStep form church = password_errors form"
| "registrationErrorsForStep ChurchStep form church = church_errors form church"

fun first_invalid ::
    "registration_step list \<Rightarrow> RegistrationFormValues \<Rightarrow> RegistrationChurch option
      \<Rightarrow> (registration_step \<times> form_errors) option" where
  "first_invalid [] form church = None"
| "first_invalid (step # steps) form church =
     (let errors = registrationErrorsForStep step form church
      in if errors \<noteq> [] then Some (step, errors) else first_invalid steps form church)"

definition firstInvalidRegistrationStep ::
    "RegistrationFormValues \<Rightarrow> RegistrationChurch option \<Rightarrow> (registration_step \<times> form_errors) option" where
  "firstInvalidRegistrationStep = first_invalid registration_steps"

definition ownsRegistrationLookup :: "nat \<Rightarrow> nat \<Rightarrow> jsstring \<Rightarrow> jsstring \<Rightarrow> bool" where
  "ownsRegistrationLookup activeRevision startedRevision activeCode startedCode \<longleftrightarrow>
     activeRevision = startedRevision
     \<and> canonicalChurchCodeInput activeCode = canonicalChurchCodeInput startedCode"

definition unknownRegistrationRecoveryParams :: "jsstring \<Rightarrow> jsstring \<Rightarrow> (jsstring \<times> jsstring) option" where
  "unknownRegistrationRecoveryParams phoneInput workspaceInput =
     (case (canonicalPhone phoneInput, canonicalWorkspace (JStr workspaceInput)) of
        (Some phone, Some workspace) \<Rightarrow> Some (phone, workspace)
      | _ \<Rightarrow> None)"

definition register_request :: "RegistrationFormValues \<Rightarrow> RegistrationChurch option \<Rightarrow> RegisterRequest" where
  "register_request form church =
     \<lparr>rg_firstName = trim (rf_firstName form), rg_lastName = trim (rf_lastName form),
      rg_email = JStr (trim (rf_email form)), rg_phone = trim (rf_phone form),
      rg_password = JStr (rf_password form),
      rg_churchCode = non_empty (canonicalChurchCodeInput (rf_churchCode form)),
      rg_confirmedChurchId = map_option rc_id church\<rparr>"

subsection \<open>One-time code screen\<close>

definition OTP_RESEND_DELAY_MS :: nat where
  "OTP_RESEND_DELAY_MS = 60000"

record input_state =
  in_editable :: bool
  in_disabled :: bool
  in_busy :: bool

definition otpCodeInputState :: "bool \<Rightarrow> bool \<Rightarrow> bool \<Rightarrow> input_state" where
  "otpCodeInputState hasRequestedCode verifying resending =
     (let busy = verifying \<or> resending; editable = hasRequestedCode \<and> \<not> busy
      in \<lparr>in_editable = editable, in_disabled = (\<not> editable), in_busy = busy\<rparr>)"

record resend_state = action_state +
  ac_busy :: bool

definition otpResendActionState :: "bool \<Rightarrow> bool \<Rightarrow> bool \<Rightarrow> bool \<Rightarrow> resend_state" where
  "otpResendActionState validRoute offline resending verifying =
     (let busy = resending \<or> verifying in
      \<lparr>ac_label = (if resending then ellipsis ''Sending another code''
         else if offline then js ''Reconnect to request a code'' else js ''Send another code''),
       ac_disabled = (\<not> validRoute \<or> offline \<or> busy),
       ac_hint = (if \<not> validRoute then Some (js ''Return to sign in and enter a valid mobile number.'')
         else if offline then Some (js ''Reconnect to request another code.'')
         else if verifying then Some (js ''Wait while this code is being verified.'') else None),
       ac_busy = busy\<rparr>)"

definition otpVerifyActionState ::
    "bool \<Rightarrow> bool \<Rightarrow> bool \<Rightarrow> bool \<Rightarrow> bool \<Rightarrow> bool \<Rightarrow> bool \<Rightarrow> action_state" where
  "otpVerifyActionState validRoute offline hasRequestedCode outcomeUnknown codeComplete resending verifying =
     \<lparr>ac_label = (if verifying then ellipsis ''Verifying your code''
        else if offline then js ''Reconnect to verify this code''
        else if outcomeUnknown then js ''Request a new code to continue''
        else if \<not> hasRequestedCode then js ''Request a code to continue''
        else if \<not> codeComplete then js ''Enter all 6 digits'' else js ''Verify and continue''),
      ac_disabled = (\<not> validRoute \<or> offline \<or> \<not> hasRequestedCode \<or> outcomeUnknown
        \<or> \<not> codeComplete \<or> resending \<or> verifying),
      ac_hint = (if \<not> validRoute then Some (js ''Return to sign in and request a new code.'')
        else if offline then Some (js ''Reconnect to verify this code.'')
        else if outcomeUnknown
          then Some (js ''Request a new code because the previous verification result is unknown.'')
        else if \<not> hasRequestedCode then Some (js ''Request a code before verification.'')
        else if \<not> codeComplete then Some (js ''Enter all 6 digits from the message.'')
        else if resending then Some (js ''Wait while a new code is being requested.'') else None)\<rparr>"

text \<open>\<open>outcomeUnknown\<close> (or \<open>deliveryUnknown\<close>) and the message.\<close>

definition otpVerificationFailure :: "js_error \<Rightarrow> bool \<times> jsstring" where
  "otpVerificationFailure e =
     (if e = OtpDeliveryUnknownError \<or> isAmbiguousMutationFailure e
      then (True, js ''We could not confirm whether that code was accepted. It may already be used. Request a new code before trying again.'')
      else (False, apiErrorMessage e (js ''We could not verify that code. Try again.'')))"

definition otpResendFailure :: "js_error \<Rightarrow> bool \<times> jsstring" where
  "otpResendFailure e =
     (if isAmbiguousMutationFailure e
      then (True, js ''We could not confirm delivery. A new code may already be on its way; wait before requesting another one.'')
      else (False, apiErrorMessage e (js ''We could not resend the code. Try again.'')))"

definition key_part :: "jsstring \<Rightarrow> jsstring" where
  "key_part s = dec (length s) @ 58 # s"

definition flag_unit :: "bool \<Rightarrow> nat" where
  "flag_unit b = (if b then 49 else 48)"

definition or_empty :: "jsstring option \<Rightarrow> jsstring" where
  "or_empty s = (case s of Some t \<Rightarrow> t | None \<Rightarrow> [])"

definition otpJourneyKey :: "jsstring option \<Rightarrow> jsstring option \<Rightarrow> bool \<Rightarrow> bool \<Rightarrow> jsstring" where
  "otpJourneyKey phone workspace codeRequested deliveryUnconfirmed =
     key_part (or_empty phone) @ 58 # key_part (or_empty workspace)
     @ [58, flag_unit codeRequested, 58, flag_unit deliveryUnconfirmed]"

definition ownsOtpJourney :: "jsstring \<Rightarrow> jsstring \<Rightarrow> bool" where
  "ownsOtpJourney activeJourney startedJourney \<longleftrightarrow> activeJourney = startedJourney"

fun otpResendSeconds :: "jsnum \<Rightarrow> jsnum \<Rightarrow> int" where
  "otpResendSeconds (Fin availableAt) (Fin now) =
     (if availableAt \<le> now then 0
      else min (int OTP_RESEND_DELAY_MS div 1000) \<lceil>(availableAt - now) / 1000\<rceil>)"
| "otpResendSeconds _ _ = 0"

subsection \<open>Navigation and paging\<close>

record navigation_identity =
  nv_churchId :: "jsstring option"
  nv_memberId :: "jsstring option"

definition navigationIdentityForUser :: "navigation_identity option \<Rightarrow> navigation_identity" where
  "navigationIdentityForUser user =
     \<lparr>nv_churchId = Option.bind user nv_churchId, nv_memberId = Option.bind user nv_memberId\<rparr>"

definition navigationSessionKey :: "bool \<Rightarrow> navigation_identity \<Rightarrow> jsstring" where
  "navigationSessionKey authenticated identity =
     (if \<not> authenticated then js ''auth-navigation''
      else if \<not> given (nv_churchId identity) \<or> \<not> given (nv_memberId identity)
        then js ''member-navigation-incomplete''
      else js ''member-navigation:'' @ key_part (the (nv_churchId identity)) @ 58
        # key_part (the (nv_memberId identity)))"

definition paginationActionState :: "jsstring \<Rightarrow> bool \<Rightarrow> bool \<Rightarrow> bool \<Rightarrow> bool \<Rightarrow> resend_state" where
  "paginationActionState itemLabel offline loading refreshing requiresRefresh =
     \<lparr>ac_label = (if loading then js ''Loading '' @ itemLabel @ [0x2026]
        else if refreshing then ellipsis ''Refresh in progress''
        else if requiresRefresh then js ''Refresh to continue''
        else if offline then js ''Reconnect to load '' @ itemLabel else js ''Load '' @ itemLabel),
      ac_disabled = (offline \<or> loading \<or> refreshing \<or> requiresRefresh),
      ac_hint = Some (if offline then js ''Reconnect to load '' @ itemLabel @ js ''.''
        else if refreshing then js ''Wait for the current refresh to finish.''
        else if requiresRefresh then js ''Refresh the current list before loading another page.''
        else js ''Loads '' @ itemLabel @ js ''.''),
      ac_busy = (loading \<or> refreshing)\<rparr>"

section \<open>Lemmas\<close>

lemma error_unless_Nil [simp]: "error_unless b f m = [] \<longleftrightarrow> b"
  by (simp add: error_unless_def)

subsection \<open>Keys\<close>

lemma takeWhile_dec: "takeWhile is_digit (dec n @ 58 # s) = dec n"
proof -
  have "\<forall>c\<in>set (dec n). is_digit c"
    using dec_digits by (simp add: list_all_iff)
  then show ?thesis by (simp add: takeWhile_append is_digit_def)
qed

lemma key_part_prefix_free: "key_part s @ x = key_part t @ y \<longleftrightarrow> s = t \<and> x = y"
proof
  assume eq: "key_part s @ x = key_part t @ y"
  then have "dec (length s) = dec (length t)"
    unfolding key_part_def by (metis append.assoc append_Cons takeWhile_dec)
  then have len: "length s = length t" by simp
  then have "s @ x = t @ y"
    using eq by (simp add: key_part_def)
  then show "s = t \<and> x = y"
    using len by (simp add: append_eq_append_conv)
qed simp

lemma key_part_inject [simp]: "key_part s = key_part t \<longleftrightarrow> s = t"
  using key_part_prefix_free [of s "[]" t "[]"] by simp

lemma flag_unit_inject [simp]: "flag_unit a = flag_unit b \<longleftrightarrow> a = b"
  by (simp add: flag_unit_def)

lemma key_part_fold [simp]: "dec (length s) @ 58 # s @ x = key_part s @ x"
  by (simp add: key_part_def)

lemma member_key_differs:
  "js ''member-navigation:'' @ s \<noteq> js ''auth-navigation''"
  "js ''member-navigation:'' @ s \<noteq> js ''member-navigation-incomplete''"
  by (simp_all add: js_def)

subsection \<open>Forms and services\<close>

lemma canonicalEmail_tidied [simp]:
  "canonicalEmail (JStr (toLowerCase (trim s))) = canonicalEmail (JStr s)"
  "canonicalEmail (JStr (trim s)) = canonicalEmail (JStr s)"
  by (simp_all add: canonicalEmail_def Let_def)

lemma canonicalPhone_trim [simp]: "canonicalPhone (trim s) = canonicalPhone s"
  by (simp add: canonicalPhone_def)

lemma canonicalWorkspace_code [simp]:
  "canonicalWorkspace (JStr (canonicalChurchCodeInput s)) = canonicalWorkspace (JStr s)"
  by (simp add: canonicalWorkspace_def canonicalChurchCodeInput_def Let_def)

lemma registration_name_trim [simp]:
  "full_name (trim f) (trim l) = full_name f l"
  "validRegistrationName (trim f) (trim l) = validRegistrationName f l"
  by (simp_all add: full_name_def validRegistrationName_def)

lemma resolveChurchCode_code [simp]:
  "resolveChurchCode api (canonicalChurchCodeInput s) = resolveChurchCode api s"
  by (simp add: resolveChurchCode_def)

lemma loginErrors_Nil:
  "loginErrors m f = [] \<longleftrightarrow> canonicalWorkspace (JStr (lf_workspace f)) \<noteq> None
     \<and> (if m = PhoneMethod then canonicalPhone (lf_phone f) \<noteq> None
        else canonicalEmail (JStr (lf_email f)) \<noteq> None \<and> validAuthPassword (JStr (lf_password f)) 1)"
  by (auto simp: loginErrors_def Let_def)

lemma first_invalid_find:
  "first_invalid steps form church =
     map_option (\<lambda>s. (s, registrationErrorsForStep s form church))
       (find (\<lambda>s. registrationErrorsForStep s form church \<noteq> []) steps)"
  by (induction steps) (auto simp: Let_def)

lemma registration_complete:
  "firstInvalidRegistrationStep form church = None \<longleftrightarrow>
     name_errors form = [] \<and> contact_errors form = [] \<and> password_errors form = []
     \<and> church_errors form church = []"
  by (auto simp: firstInvalidRegistrationStep_def registration_steps_def Let_def)

lemma registration_fields:
  assumes "firstInvalidRegistrationStep form church = None"
  shows "validRegistrationName (rf_firstName form) (rf_lastName form)"
    and "canonicalEmail (JStr (rf_email form)) \<noteq> None" and "canonicalPhone (rf_phone form) \<noteq> None"
    and "validAuthPassword (JStr (rf_password form)) 8" and "rf_password form = rf_confirmPassword form"
    and "registrationChurchMatchesCode church (rf_churchCode form)"
    and "canonicalChurchCodeInput (rf_churchCode form) \<noteq> []"
  using assms unfolding registration_complete
  by (auto simp: name_errors_def contact_errors_def password_errors_def church_errors_def Let_def
      canonicalChurchCodeInput_def split: if_splits)

section \<open>Properties\<close>

text \<open>A gateway that refuses every request, to see which calls reach it.\<close>

definition refused :: js_error where
  "refused = AxiosError (Some (503, JNull))"

definition refusing :: api where
  "refusing r = Inl refused"

lemma refusing_answers [simp]:
  "api_post refusing p b = Inl refused" "api_get refusing p q = Inl refused"
  "JsError m \<noteq> refused" "\<not> isAmbiguousMutationFailure refused"
  by (simp_all add: api_post_def api_get_def refusing_def refused_def)

text \<open>The login form reports no error exactly when the service sends the request. With a gateway
  that refuses everything, the answer of \<open>login\<close> (password) or \<open>requestOtp\<close> (phone) is the refusal of
  the gateway, and not an error of the service's own checks, if and only if the form has no error.\<close>

theorem login_form_agrees_with_service:
  "(loginErrors PasswordMethod f = []
      \<longleftrightarrow> login_response h refusing bearer (login_request f) = Inl refused)
   \<and> (loginErrors PhoneMethod f = []
      \<longleftrightarrow> requestOtp refusing (lf_phone f) (JStr (lf_workspace f)) = Inl refused)"
  by (auto simp: loginErrors_Nil login_response_def login_request_def requestOtp_def Let_def
      unknown_unless_answered_def split: option.splits)

text \<open>A registration form that passes every step, with the church that the code entered was
  resolved to, is accepted by the service: the account request is sent for exactly that church, with the
  canonical e-mail address and phone number of the form, and the rest is the gateway's answer.\<close>

theorem registration_form_is_sent:
  assumes "firstInvalidRegistrationStep form (Some church) = None"
    and "resolveChurchCode api (rf_churchCode form) = Inr church"
  shows "\<exists>phone email. canonicalPhone (rf_phone form) = Some phone
     \<and> canonicalEmail (JStr (rf_email form)) = Some email
     \<and> register h api (register_request form (Some church))
       = (let name = full_name (rf_firstName form) (rf_lastName form) in
          and_then (unknown_unless_answered RegistrationOutcomeUnknownError
              (api_post api (js ''/auth/register'')
                (register_body name email phone (JStr (rf_password form)) (rc_id church))))
            (\<lambda>data. normalizeRegistrationResponse h data (rc_id church) phone email name))"
  using assms(2) registration_fields [OF assms(1)]
  by (auto simp: register_def register_request_def given_def non_empty_def Let_def)

definition sample_form :: RegistrationFormValues where
  "sample_form = \<lparr>rf_firstName = js '' Ama'', rf_lastName = js ''Mensah '', rf_email = js ''Ama@Example.com'',
     rf_phone = js ''024 123 4567'', rf_password = js ''long enough'', rf_confirmPassword = js ''long enough'',
     rf_churchCode = js '' Grace ''\<rparr>"

definition sample_church :: RegistrationChurch where
  "sample_church = \<lparr>rc_id = js ''c1'', rc_name = js ''Grace'', rc_slug = js ''grace''\<rparr>"

definition church_directory :: api where
  "church_directory r = (if rq_path r = js ''/churches/slug/grace''
     then Inr (JObj [(''data'', JObj [(''id'', JStr (js ''c1'')), (''name'', JStr (js ''Grace'')),
       (''slug'', JStr (js ''grace''))])]) else Inl refused)"

lemma sample_form_complete: "firstInvalidRegistrationStep sample_form (Some sample_church) = None"
  by code_simp

lemma sample_church_resolved:
  "resolveChurchCode church_directory (rf_churchCode sample_form) = Inr sample_church"
  by code_simp

lemma registration_form_is_sent_witness:
  "\<exists>phone email. canonicalPhone (rf_phone sample_form) = Some phone
     \<and> canonicalEmail (JStr (rf_email sample_form)) = Some email
     \<and> register plain_host church_directory (register_request sample_form (Some sample_church))
       = (let name = full_name (rf_firstName sample_form) (rf_lastName sample_form) in
          and_then (unknown_unless_answered RegistrationOutcomeUnknownError
              (api_post church_directory (js ''/auth/register'')
                (register_body name email phone (JStr (rf_password sample_form)) (rc_id sample_church))))
            (\<lambda>data. normalizeRegistrationResponse plain_host data (rc_id sample_church) phone email name))"
  by (rule registration_form_is_sent [OF sample_form_complete sample_church_resolved])

text \<open>The keys that separate one-time code journeys and navigation trees tell them apart. Two
  journey keys are equal exactly for the same number, workspace and flags (an absent text counts as an
  empty one); two navigation keys are equal exactly when both are signed out, both are signed in
  without a complete identity, or both belong to the same church and member.\<close>

theorem keys_identify_their_owner:
  "(otpJourneyKey p w c d = otpJourneyKey p' w' c' d'
      \<longleftrightarrow> or_empty p = or_empty p' \<and> or_empty w = or_empty w' \<and> c = c' \<and> d = d')
   \<and> (navigationSessionKey a i = navigationSessionKey a' i'
      \<longleftrightarrow> a = a' \<and> (a \<longrightarrow>
        (let complete = (\<lambda>j. given (nv_churchId j) \<and> given (nv_memberId j))
         in complete i = complete i' \<and> (complete i \<longrightarrow> i = i'))))"
proof
  show "otpJourneyKey p w c d = otpJourneyKey p' w' c' d'
      \<longleftrightarrow> or_empty p = or_empty p' \<and> or_empty w = or_empty w' \<and> c = c' \<and> d = d'"
    by (auto simp: otpJourneyKey_def key_part_prefix_free)
next
  show "navigationSessionKey a i = navigationSessionKey a' i'
      \<longleftrightarrow> a = a' \<and> (a \<longrightarrow>
        (let complete = (\<lambda>j. given (nv_churchId j) \<and> given (nv_memberId j))
         in complete i = complete i' \<and> (complete i \<longrightarrow> i = i')))"
    by (cases i; cases i')
      (auto simp: navigationSessionKey_def key_part_prefix_free given_def Let_def member_key_differs
        member_key_differs [symmetric])
qed

text \<open>The countdown before a new code may be requested is a whole number of seconds from 0 to 60;
  it is 0 exactly when the moment has come or is no finite time, and unless it is the full minute,
  waiting that long is enough and a second less is not.\<close>

theorem resend_countdown_bounds:
  "0 \<le> otpResendSeconds a n \<and> otpResendSeconds a n \<le> 60
   \<and> (otpResendSeconds (Fin q) (Fin r) = 0 \<longleftrightarrow> q \<le> r)
   \<and> (otpResendSeconds (Fin q) (Fin r) < 60 \<longrightarrow>
        q \<le> r + 1000 * of_int (otpResendSeconds (Fin q) (Fin r))
        \<and> (r < q \<longrightarrow> r + 1000 * of_int (otpResendSeconds (Fin q) (Fin r) - 1) < q))"
proof -
  have pos: "0 < \<lceil>(x - y) / 1000\<rceil>" if "y < x" for x y :: rat
    using that by simp
  have range: "0 \<le> otpResendSeconds a n \<and> otpResendSeconds a n \<le> 60"
    using pos by (cases "(a, n)" rule: otpResendSeconds.cases)
      (auto simp: OTP_RESEND_DELAY_MS_def not_le intro: less_imp_le)
  have zero: "otpResendSeconds (Fin q) (Fin r) = 0 \<longleftrightarrow> q \<le> r"
  proof (cases "q \<le> r")
    case False
    then have "\<lceil>(q - r) / 1000\<rceil> \<noteq> 0" using pos [of r q] by linarith
    with False show ?thesis by (auto simp: OTP_RESEND_DELAY_MS_def min_def)
  qed simp
  have tight: "q \<le> r + 1000 * of_int (otpResendSeconds (Fin q) (Fin r))
        \<and> (r < q \<longrightarrow> r + 1000 * of_int (otpResendSeconds (Fin q) (Fin r) - 1) < q)"
    if "otpResendSeconds (Fin q) (Fin r) < 60"
  proof (cases "q \<le> r")
    case True
    then show ?thesis by simp
  next
    case False
    with that have eq: "otpResendSeconds (Fin q) (Fin r) = \<lceil>(q - r) / 1000\<rceil>"
      by (auto simp: OTP_RESEND_DELAY_MS_def min_def split: if_splits)
    have "q \<le> r + 1000 * of_int k \<and> r + 1000 * of_int (k - 1) < q"
      if "(q - r) / 1000 \<le> of_int k" "of_int (k - 1) < (q - r) / 1000" for k
      using that by (simp add: field_simps)
    moreover have "(q - r) / 1000 \<le> of_int \<lceil>(q - r) / 1000\<rceil>"
      and "of_int (\<lceil>(q - r) / 1000\<rceil> - 1) < (q - r) / 1000"
      by linarith+
    ultimately show ?thesis unfolding eq by blast
  qed
  show ?thesis using range zero tight by blast
qed

lemma resend_countdown_bounds_witness:
  "otpResendSeconds (Fin 1500) (Fin 0) < 60 \<and> (0::rat) < 1500
   \<and> (1500::rat) \<le> 0 + 1000 * of_int (otpResendSeconds (Fin 1500) (Fin 0))
   \<and> 0 + 1000 * of_int (otpResendSeconds (Fin 1500) (Fin 0) - 1) < (1500::rat)"
proof -
  have "otpResendSeconds (Fin 1500) (Fin 0) < 60" by code_simp
  with resend_countdown_bounds [of NaN NaN 1500 0] show ?thesis by simp
qed

lemma keys_identify_their_owner_witness:
  "navigationSessionKey True \<lparr>nv_churchId = Some (js ''1:a''), nv_memberId = Some (js ''b'')\<rparr>
     \<noteq> navigationSessionKey True \<lparr>nv_churchId = Some (js ''1''), nv_memberId = Some (js ''a:b'')\<rparr>"
  using keys_identify_their_owner
    [of None None False False None None False False
      True "\<lparr>nv_churchId = Some (js ''1:a''), nv_memberId = Some (js ''b'')\<rparr>"
      True "\<lparr>nv_churchId = Some (js ''1''), nv_memberId = Some (js ''a:b'')\<rparr>"]
  by (simp add: given_def Let_def)

end
