(* ===== verification/Gates.thy ===== *)
theory Gates
  imports ApiBoundary
begin

text \<open>
  The small stateful helpers the screens of the mobile app share: the latest-request gate
  (\<open>services/latest-request.ts\<close>), submission locks (\<open>submission-lock.ts\<close>), the push registration
  gate (\<open>push-registration-sync.ts\<close>), single-flight session refresh
  (\<open>session-refresh-coordinator.ts\<close>) and list reconciliation (\<open>list-reconciliation.ts\<close>). A closure
  over \<open>let\<close> variables is a function of their values and returns them updated; an asynchronous
  helper is a transition system whose labels are the calls and the promise callbacks.
\<close>

section \<open>Latest-request gate\<close>

text \<open>\<open>revision += 1\<close> on a double: above \<open>2^53\<close> the sum rounds back.\<close>

definition next_revision :: "int \<Rightarrow> int" where
  "next_revision r = (if r < 9007199254740992 then r + 1 else r)"

definition request_begin :: "int \<Rightarrow> int \<times> int" where
  "request_begin revision = (next_revision revision, next_revision revision)"

definition isLatest :: "jsval \<Rightarrow> int \<Rightarrow> bool" where
  "isLatest ticket revision \<longleftrightarrow> isSafeInteger ticket \<and> 0 < the_int ticket \<and> the_int ticket = revision"

definition request_invalidate :: "int \<Rightarrow> int" where
  "request_invalidate revision = next_revision revision"

datatype request_call = BeginRequest | InvalidateRequests

text \<open>The tickets handed out, in order, and the revision after the calls.\<close>

fun request_calls :: "request_call list \<Rightarrow> int \<Rightarrow> int list \<times> int" where
  "request_calls [] r = ([], r)"
| "request_calls (BeginRequest # cs) r =
     (let (t, r1) = request_begin r; (ts, r2) = request_calls cs r1 in (t # ts, r2))"
| "request_calls (InvalidateRequests # cs) r = request_calls cs (request_invalidate r)"

section \<open>Submission locks\<close>

text \<open>The lock of one form is a flag; the keyed lock is a \<open>Set\<close> of keys in insertion order.\<close>

definition lock_acquire :: "unit \<Rightarrow> bool \<Rightarrow> bool \<times> bool" where
  "lock_acquire k locked = (if locked then (False, locked) else (True, True))"

definition lock_release :: "unit \<Rightarrow> bool \<Rightarrow> bool" where
  "lock_release k locked = False"

definition lock_isLocked :: "unit \<Rightarrow> bool \<Rightarrow> bool" where
  "lock_isLocked k locked = locked"

definition keyed_acquire :: "jsstring \<Rightarrow> jsstring list \<Rightarrow> bool \<times> jsstring list" where
  "keyed_acquire key lockedKeys =
     (if key \<in> set lockedKeys then (False, lockedKeys) else (True, lockedKeys @ [key]))"

definition keyed_release :: "jsstring \<Rightarrow> jsstring list \<Rightarrow> jsstring list" where
  "keyed_release key lockedKeys = filter (\<lambda>k. k \<noteq> key) lockedKeys"

definition keyed_has :: "jsstring \<Rightarrow> jsstring list \<Rightarrow> bool" where
  "keyed_has key lockedKeys \<longleftrightarrow> key \<in> set lockedKeys"

text \<open>Sequences of calls; an entry of the result list is the answer of an \<open>acquire\<close>.\<close>

datatype 'k lock_call = Acquire 'k | Release 'k

fun lock_calls ::
    "('k \<Rightarrow> 's \<Rightarrow> bool \<times> 's) \<Rightarrow> ('k \<Rightarrow> 's \<Rightarrow> 's) \<Rightarrow> 'k lock_call list \<Rightarrow> 's \<Rightarrow> bool list \<times> 's" where
  "lock_calls acq rel [] s = ([], s)"
| "lock_calls acq rel (Acquire k # cs) s =
     (let (b, s1) = acq k s; (bs, s2) = lock_calls acq rel cs s1 in (b # bs, s2))"
| "lock_calls acq rel (Release k # cs) s = lock_calls acq rel cs (rel k s)"

section \<open>Push registration gate\<close>

text \<open>
  \<open>pending\<close> is the attempt the closure holds; an attempt is numbered, and its phase says which of
  its three callbacks ran: \<open>then(sync)\<close>, the check of the outcome, and \<open>finally\<close>. The labels carry
  what the environment answers at that moment: \<open>ownsSession()\<close> and the result of \<open>sync\<close>
  (\<open>None\<close>: it rejects).
\<close>

datatype attempt_phase = Queued | Syncing | Settled "bool option" | Finished "bool option"

record push_gate =
  pg_active :: bool
  pg_pending :: "nat option"
  pg_attempts :: "attempt_phase list"

datatype push_answer = NotRegistered | Attempt nat

definition push_gate_init :: push_gate where
  "push_gate_init = \<lparr>pg_active = True, pg_pending = None, pg_attempts = []\<rparr>"

definition push_request :: "bool \<Rightarrow> push_gate \<Rightarrow> push_answer \<times> push_gate" where
  "push_request owns g =
     (if \<not> pg_active g \<or> \<not> owns then (NotRegistered, g)
      else case pg_pending g of
          Some a \<Rightarrow> (Attempt a, g)
        | None \<Rightarrow>
            (let a = length (pg_attempts g)
             in (Attempt a, g\<lparr>pg_pending := Some a, pg_attempts := pg_attempts g @ [Queued]\<rparr>)))"

definition push_deactivate :: "push_gate \<Rightarrow> push_gate" where
  "push_deactivate g = g\<lparr>pg_active := False\<rparr>"

definition set_phase :: "nat \<Rightarrow> attempt_phase \<Rightarrow> push_gate \<Rightarrow> push_gate" where
  "set_phase a p g = g\<lparr>pg_attempts := (pg_attempts g)[a := p]\<rparr>"

definition push_settled :: "bool \<Rightarrow> bool option \<Rightarrow> push_gate \<Rightarrow> bool option" where
  "push_settled owns registered g =
     (case registered of Some b \<Rightarrow> Some (pg_active g \<and> owns \<and> b) | None \<Rightarrow> None)"

definition push_finally :: "nat \<Rightarrow> push_gate \<Rightarrow> push_gate" where
  "push_finally a g = (if pg_pending g = Some a then g\<lparr>pg_pending := None\<rparr> else g)"

datatype push_label =
    Request bool
  | Deactivate
  | Sync nat
  | Outcome nat bool "bool option"
  | Finally nat

inductive push_step :: "push_gate \<Rightarrow> push_label \<Rightarrow> push_gate \<Rightarrow> bool" where
  request: "push_step g (Request owns) (snd (push_request owns g))"
| deactivate: "push_step g Deactivate (push_deactivate g)"
| sync: "a < length (pg_attempts g) \<Longrightarrow> pg_attempts g ! a = Queued \<Longrightarrow>
    push_step g (Sync a) (set_phase a Syncing g)"
| outcome: "a < length (pg_attempts g) \<Longrightarrow> pg_attempts g ! a = Syncing \<Longrightarrow>
    push_step g (Outcome a owns r) (set_phase a (Settled (push_settled owns r g)) g)"
| finish: "a < length (pg_attempts g) \<Longrightarrow> pg_attempts g ! a = Settled r \<Longrightarrow>
    push_step g (Finally a) (push_finally a (set_phase a (Finished r) g))"

inductive push_run :: "push_label list \<Rightarrow> push_gate \<Rightarrow> bool" where
  begin_fresh: "push_run [] push_gate_init"
| more: "push_run ls g \<Longrightarrow> push_step g l g' \<Longrightarrow> push_run (ls @ [l]) g'"

inductive_cases outcomeE: "push_step g (Outcome a owns r) g'"

section \<open>Single-flight session refresh\<close>

text \<open>
  \<open>refreshFlights\<close> maps a refresh token to the flight that uses it; flights are numbered in the
  order they start, \<open>rf_started\<close> lists their tokens, \<open>rf_open\<close> are those not yet settled.
\<close>

record refresh_flights =
  rf_flights :: "jsstring \<Rightarrow> nat option"
  rf_started :: "jsstring list"
  rf_open :: "nat list"

definition no_flights :: refresh_flights where
  "no_flights = \<lparr>rf_flights = (\<lambda>_. None), rf_started = [], rf_open = []\<rparr>"

definition coalesceSessionRefresh :: "jsstring \<Rightarrow> refresh_flights \<Rightarrow> nat \<times> refresh_flights" where
  "coalesceSessionRefresh refreshToken f =
     (case rf_flights f refreshToken of
        Some current \<Rightarrow> (current, f)
      | None \<Rightarrow>
          (let flight = length (rf_started f)
           in (flight, \<lparr>rf_flights = (rf_flights f)(refreshToken := Some flight),
                rf_started = rf_started f @ [refreshToken], rf_open = flight # rf_open f\<rparr>)))"

definition flight_release :: "nat \<Rightarrow> refresh_flights \<Rightarrow> refresh_flights" where
  "flight_release flight f =
     (let token = rf_started f ! flight in
      f\<lparr>rf_open := filter (\<lambda>n. n \<noteq> flight) (rf_open f),
        rf_flights := (if rf_flights f token = Some flight then (rf_flights f)(token := None)
          else rf_flights f)\<rparr>)"

inductive refresh_run :: "refresh_flights \<Rightarrow> bool" where
  none: "refresh_run no_flights"
| start: "refresh_run f \<Longrightarrow> refresh_run (snd (coalesceSessionRefresh token f))"
| settle: "refresh_run f \<Longrightarrow> n \<in> set (rf_open f) \<Longrightarrow> refresh_run (flight_release n f)"

section \<open>List reconciliation\<close>

definition insertUniqueById :: "('a \<Rightarrow> jsstring) \<Rightarrow> 'a list \<Rightarrow> 'a \<Rightarrow> bool \<Rightarrow> 'a list" where
  "insertUniqueById ident items item atStart =
     (if list_ex (\<lambda>current. ident current = ident item) items then items
      else if atStart then item # items else items @ [item])"

text \<open>The filter with the growing set \<open>seen\<close>.\<close>

fun unseen :: "('a \<Rightarrow> jsstring) \<Rightarrow> jsstring list \<Rightarrow> 'a list \<Rightarrow> 'a list" where
  "unseen ident seen [] = []"
| "unseen ident seen (item # items) =
     (if ident item \<in> set seen then unseen ident seen items
      else item # unseen ident (ident item # seen) items)"

definition appendUniquePageById :: "('a \<Rightarrow> jsstring) \<Rightarrow> 'a list \<Rightarrow> 'a list \<Rightarrow> 'a list" where
  "appendUniquePageById ident items page =
     (if page = [] then items
      else let additions = unseen ident (map ident items) page
           in if additions = [] then items else items @ additions)"

record toggle_state =
  tg_selected :: bool
  tg_count :: int

definition reconcileToggleCount :: "toggle_state \<Rightarrow> bool \<Rightarrow> int option \<Rightarrow> toggle_state" where
  "reconcileToggleCount current selected authoritative =
     (let delta = (if tg_selected current = selected then 0 else if selected then 1 else - 1)
      in \<lparr>tg_selected = selected,
          tg_count = (case authoritative of Some n \<Rightarrow> n | None \<Rightarrow> max 0 (tg_count current + delta))\<rparr>)"

definition rollbackOptimisticToggle :: "toggle_state \<Rightarrow> toggle_state \<Rightarrow> toggle_state \<Rightarrow> toggle_state" where
  "rollbackOptimisticToggle current optimistic previous =
     (if tg_selected current = tg_selected optimistic \<and> tg_count current = tg_count optimistic
      then previous else current)"

definition reconcileIncrementCount :: "int \<Rightarrow> int \<Rightarrow> int option \<Rightarrow> int" where
  "reconcileIncrementCount current startedAt authoritative =
     (let incremented = (if startedAt < max_safe_integer then startedAt + 1 else startedAt)
      in case authoritative of
          Some n \<Rightarrow> max (max current incremented) n
        | None \<Rightarrow> if current \<le> startedAt then incremented else current)"

section \<open>Latest requests\<close>

lemma request_calls_append:
  "request_calls (xs @ ys) r =
     (let (ts, r1) = request_calls xs r; (us, r2) = request_calls ys r1 in (ts @ us, r2))"
  by (induction xs r rule: request_calls.induct) (auto simp: Let_def split: prod.splits)

lemma request_calls_revision:
  "0 \<le> r \<Longrightarrow> r + int (length cs) \<le> max_safe_integer \<Longrightarrow> snd (request_calls cs r) = r + int (length cs)"
  by (induction cs r rule: request_calls.induct)
    (auto simp: request_begin_def request_invalidate_def next_revision_def max_safe_integer_def Let_def
      split: prod.splits)

lemma isLatest_jint: "isLatest (jint n) r \<longleftrightarrow> n \<le> max_safe_integer \<and> 0 < n \<and> n = r"
  by (auto simp: isLatest_def)

text \<open>Only the newest response may own the screen. For every sequence of calls (fewer than
  \<open>2^53\<close>), the ticket that a \<open>begin\<close> handed out is the latest one at the end exactly when no \<open>begin\<close> and
  no \<open>invalidate\<close> came after it, and a value that is no ticket of the gate never is.\<close>

theorem only_newest_request_is_latest:
  assumes "length before + length after < 9007199254740991"
  shows "isLatest (jint (fst (request_begin (snd (request_calls before 0)))))
       (snd (request_calls (before @ BeginRequest # after) 0)) \<longleftrightarrow> after = []"
proof -
  have r: "snd (request_calls before 0) = int (length before)"
    using request_calls_revision [of 0 before] assms by (simp add: max_safe_integer_def)
  have "snd (request_calls (before @ BeginRequest # after) 0) = int (length (before @ BeginRequest # after))"
    using request_calls_revision [of 0 "before @ BeginRequest # after"] assms
    by (simp add: max_safe_integer_def)
  then show ?thesis
    unfolding isLatest_jint
    using assms by (simp add: r request_begin_def next_revision_def max_safe_integer_def)
qed

lemma only_newest_request_is_latest_witness:
  "isLatest (jint (fst (request_begin (snd (request_calls [BeginRequest] 0)))))
       (snd (request_calls ([BeginRequest] @ BeginRequest # [InvalidateRequests]) 0)) \<longleftrightarrow> False"
  using only_newest_request_is_latest [of "[BeginRequest]" "[InvalidateRequests]"] by simp

section \<open>Locks\<close>

text \<open>The contract of a lock: what is held, and what the two operations do to it.\<close>

locale keyed_lock =
  fixes acq :: "'k \<Rightarrow> 's \<Rightarrow> bool \<times> 's" and rel :: "'k \<Rightarrow> 's \<Rightarrow> 's" and held :: "'k \<Rightarrow> 's \<Rightarrow> bool"
  assumes granted: "fst (acq k s) \<longleftrightarrow> \<not> held k s"
    and acquired: "held k' (snd (acq k s)) \<longleftrightarrow> k' = k \<or> held k' s"
    and released: "held k' (rel k s) \<longleftrightarrow> k' \<noteq> k \<and> held k' s"

text \<open>The abstract lock: the set of the keys held.\<close>

fun lock_spec :: "'k lock_call list \<Rightarrow> 'k set \<Rightarrow> bool list \<times> 'k set" where
  "lock_spec [] H = ([], H)"
| "lock_spec (Acquire k # cs) H = (let (bs, H') = lock_spec cs (insert k H) in ((k \<notin> H) # bs, H'))"
| "lock_spec (Release k # cs) H = lock_spec cs (H - {k})"

context keyed_lock begin

lemma refines:
  "fst (lock_calls acq rel cs s) = fst (lock_spec cs {k. held k s})
   \<and> {k. held k (snd (lock_calls acq rel cs s))} = snd (lock_spec cs {k. held k s})"
proof (induction cs arbitrary: s)
  case (Cons c cs)
  show ?case
  proof (cases c)
    case (Acquire k)
    have "{k'. held k' (snd (acq k s))} = insert k {k. held k s}" by (auto simp: acquired)
    then show ?thesis
      using Cons.IH [of "snd (acq k s)"] by (simp add: Acquire Let_def granted case_prod_unfold)
  next
    case (Release k)
    have "{k'. held k' (rel k s)} = {k. held k s} - {k}" by (auto simp: released)
    then show ?thesis using Cons.IH [of "rel k s"] by (simp add: Release)
  qed
qed simp

lemma kept: "held k s \<Longrightarrow> Release k \<notin> set cs \<Longrightarrow> held k (snd (lock_calls acq rel cs s))"
proof (induction cs arbitrary: s)
  case (Cons c cs)
  then show ?case
    by (cases c) (auto simp: acquired released Let_def case_prod_unfold)
qed simp

lemma exclusive:
  "Release k \<notin> set cs \<Longrightarrow> \<not> fst (acq k (snd (lock_calls acq rel cs (snd (acq k s)))))"
  by (simp add: granted kept acquired)

end

interpretation form_lock: keyed_lock lock_acquire lock_release lock_isLocked
  by unfold_locales (auto simp: lock_acquire_def lock_release_def lock_isLocked_def)

interpretation key_lock: keyed_lock keyed_acquire keyed_release keyed_has
  by unfold_locales (auto simp: keyed_acquire_def keyed_release_def keyed_has_def)

text \<open>Both submission locks implement the abstract set of held keys: for every sequence of calls
  the answers of \<open>acquire\<close> and the keys held at the end are those of the set. Between two taps on the
  same key that are both let through there is always a release of that key.\<close>

theorem locks_implement_held_keys:
  "fst (lock_calls keyed_acquire keyed_release cs ks) = fst (lock_spec cs (set ks))
   \<and> set (snd (lock_calls keyed_acquire keyed_release cs ks)) = snd (lock_spec cs (set ks))
   \<and> fst (lock_calls lock_acquire lock_release us locked) = fst (lock_spec us {u. locked})
   \<and> (fst (keyed_acquire k (snd (lock_calls keyed_acquire keyed_release cs (snd (keyed_acquire k ks)))))
       \<longrightarrow> Release k \<in> set cs)"
  using key_lock.refines [of cs ks] form_lock.refines [of us locked] key_lock.exclusive [of k cs ks]
  by (auto simp: keyed_has_def lock_isLocked_def)

lemma locks_implement_held_keys_witness:
  "fst (keyed_acquire [1] (snd (lock_calls keyed_acquire keyed_release [Release [1]] (snd (keyed_acquire [1] [])))))
   \<and> Release [1] \<in> set [Release [1::nat]]"
proof -
  have "fst (keyed_acquire [1] (snd (lock_calls keyed_acquire keyed_release [Release [1]] (snd (keyed_acquire [1] [])))))"
    by (simp add: keyed_acquire_def keyed_release_def)
  then show ?thesis
    using locks_implement_held_keys [of "[Release [1]]" "[]" "[]" False "[1]"] by blast
qed

section \<open>Push registration\<close>

fun is_finished :: "attempt_phase \<Rightarrow> bool" where
  "is_finished (Finished _) = True"
| "is_finished _ = False"

text \<open>The invariant: the attempt the gate holds is the one attempt that is not finished.\<close>

definition push_inv :: "push_gate \<Rightarrow> bool" where
  "push_inv g \<longleftrightarrow>
     (case pg_pending g of
        None \<Rightarrow> \<forall>a<length (pg_attempts g). is_finished (pg_attempts g ! a)
      | Some p \<Rightarrow> p < length (pg_attempts g) \<and> \<not> is_finished (pg_attempts g ! p)
          \<and> (\<forall>a<length (pg_attempts g). a \<noteq> p \<longrightarrow> is_finished (pg_attempts g ! a)))"

lemma push_inv_pending:
  "push_inv g \<Longrightarrow> a < length (pg_attempts g) \<Longrightarrow> \<not> is_finished (pg_attempts g ! a) \<Longrightarrow> pg_pending g = Some a"
  by (auto simp: push_inv_def split: option.splits)

lemma push_gate_simps [simp]:
  "pg_active (set_phase a p g) = pg_active g" "pg_pending (set_phase a p g) = pg_pending g"
  "pg_attempts (set_phase a p g) = (pg_attempts g)[a := p]"
  "pg_active (push_finally a g) = pg_active g" "pg_attempts (push_finally a g) = pg_attempts g"
  "pg_pending (push_finally a g) = (if pg_pending g = Some a then None else pg_pending g)"
  by (simp_all add: set_phase_def push_finally_def)

lemma push_inv_init: "push_inv push_gate_init"
  by (simp add: push_inv_def push_gate_init_def)

lemma push_inv_phase:
  assumes "push_inv g" and "a < length (pg_attempts g)" and "\<not> is_finished (pg_attempts g ! a)"
    and "\<not> is_finished p"
  shows "push_inv (set_phase a p g)"
  using assms push_inv_pending [OF assms(1-3)] by (simp add: push_inv_def nth_list_update)

lemma push_inv_request: "push_inv g \<Longrightarrow> push_inv (snd (push_request owns g))"
  by (simp add: push_inv_def push_request_def Let_def nth_append less_Suc_eq split: option.splits)

lemma push_inv_finish:
  assumes "push_inv g" and "a < length (pg_attempts g)" and "\<not> is_finished (pg_attempts g ! a)"
  shows "push_inv (push_finally a (set_phase a (Finished r) g))"
  using assms push_inv_pending [OF assms] by (simp add: push_inv_def nth_list_update)

lemma push_inv_step:
  assumes "push_step g l g'" and "push_inv g"
  shows "push_inv g'"
  using assms(1)
proof cases
  case deactivate
  with assms(2) show ?thesis by (simp add: push_inv_def push_deactivate_def cong: option.case_cong)
qed (use assms(2) in \<open>simp_all add: push_inv_request push_inv_phase push_inv_finish\<close>)

lemma push_run_inv: "push_run ls g \<Longrightarrow> push_inv g"
  by (induction rule: push_run.induct) (auto intro: push_inv_init push_inv_step)

lemma push_step_active: "push_step g l g' \<Longrightarrow> pg_active g' \<longleftrightarrow> pg_active g \<and> l \<noteq> Deactivate"
  by (cases rule: push_step.cases, assumption)
    (simp_all add: push_deactivate_def push_request_def Let_def split: option.split)

lemma push_run_active: "push_run ls g \<Longrightarrow> pg_active g \<longleftrightarrow> Deactivate \<notin> set ls"
  by (induction rule: push_run.induct) (auto simp: push_step_active push_gate_init_def)

text \<open>In every interleaving of requests, callbacks and deactivation, at most one registration
  attempt is in flight, and a request while one is in flight gets exactly that one. An attempt reports
  a registration only if, when its outcome arrives, the gate is active, the session is still owned and
  the registration succeeded; after a deactivation no attempt reports one and no request starts one.\<close>

theorem push_registration_single_flight:
  assumes "push_run ls g"
  shows "(\<forall>a b. a < length (pg_attempts g) \<and> b < length (pg_attempts g)
       \<and> \<not> is_finished (pg_attempts g ! a) \<and> \<not> is_finished (pg_attempts g ! b) \<longrightarrow> a = b)
     \<and> (\<forall>a owns. a < length (pg_attempts g) \<and> \<not> is_finished (pg_attempts g ! a)
       \<longrightarrow> push_request owns g = (if pg_active g \<and> owns then Attempt a else NotRegistered, g))
     \<and> (\<forall>a owns r g'. push_step g (Outcome a owns r) g' \<and> pg_attempts g' ! a = Settled (Some True)
       \<longrightarrow> Deactivate \<notin> set ls \<and> owns \<and> r = Some True)
     \<and> (Deactivate \<in> set ls \<longrightarrow> (\<forall>owns. push_request owns g = (NotRegistered, g)))"
proof -
  have pending: "a < length (pg_attempts g) \<Longrightarrow> \<not> is_finished (pg_attempts g ! a) \<Longrightarrow> pg_pending g = Some a" for a
    using push_inv_pending [OF push_run_inv [OF assms]] by blast
  have outcome: "Deactivate \<notin> set ls \<and> owns \<and> r = Some True"
    if "push_step g (Outcome a owns r) g'" and "pg_attempts g' ! a = Settled (Some True)" for a owns r g'
    using that push_run_active [OF assms]
    by (auto elim!: outcomeE simp: push_settled_def split: option.splits)
  have "push_request owns g = (if pg_active g \<and> owns then Attempt a else NotRegistered, g)"
    if "a < length (pg_attempts g)" and "\<not> is_finished (pg_attempts g ! a)" for a owns
    using pending [OF that] by (simp add: push_request_def)
  moreover have "push_request owns g = (NotRegistered, g)" if "Deactivate \<in> set ls" for owns
    using that push_run_active [OF assms] by (simp add: push_request_def)
  moreover have "a = b" if "a < length (pg_attempts g) \<and> b < length (pg_attempts g)
       \<and> \<not> is_finished (pg_attempts g ! a) \<and> \<not> is_finished (pg_attempts g ! b)" for a b
    using that pending [of a] pending [of b] by simp
  ultimately show ?thesis using outcome by blast
qed

lemma push_registration_single_flight_witness:
  "\<exists>g. push_run [Request True] g \<and> push_request True g = (Attempt 0, g)"
proof -
  let ?g = "snd (push_request True push_gate_init)"
  have run: "push_run ([] @ [Request True]) ?g"
    by (rule push_run.more [OF push_run.begin_fresh]) (rule push_step.request)
  have "0 < length (pg_attempts ?g) \<and> \<not> is_finished (pg_attempts ?g ! 0)" and "pg_active ?g"
    by (simp_all add: push_request_def push_gate_init_def Let_def)
  then have "push_request True ?g = (Attempt 0, ?g)"
    using push_registration_single_flight [OF run] by presburger
  then show ?thesis using run by auto
qed

section \<open>Session refresh flights\<close>

definition flights_inv :: "refresh_flights \<Rightarrow> bool" where
  "flights_inv f \<longleftrightarrow>
     (\<forall>t n. rf_flights f t = Some n \<longrightarrow> n \<in> set (rf_open f) \<and> rf_started f ! n = t)
     \<and> (\<forall>n\<in>set (rf_open f). n < length (rf_started f) \<and> rf_flights f (rf_started f ! n) = Some n)"

lemma flights_invD:
  assumes "flights_inv f"
  shows "rf_flights f t = Some n \<Longrightarrow> n \<in> set (rf_open f) \<and> rf_started f ! n = t"
    and "n \<in> set (rf_open f) \<Longrightarrow> n < length (rf_started f) \<and> rf_flights f (rf_started f ! n) = Some n"
  using assms by (simp_all add: flights_inv_def)

lemma flights_inv_start:
  assumes inv: "flights_inv f"
  shows "flights_inv (snd (coalesceSessionRefresh t f))"
proof (cases "rf_flights f t")
  case None
  let ?n = "length (rf_started f)"
  have old: "n < ?n \<and> rf_flights f (rf_started f ! n) = Some n \<and> rf_started f ! n \<noteq> t"
    if "n \<in> set (rf_open f)" for n
    using flights_invD(2) [OF inv that] None by auto
  have flights: "n \<in> set (rf_open f) \<and> rf_started f ! n = u \<and> n < ?n" if "rf_flights f u = Some n" for u n
    using flights_invD [OF inv] that by blast
  show ?thesis
    using old flights None
    by (simp add: flights_inv_def coalesceSessionRefresh_def Let_def nth_append less_SucI)
next
  case (Some n)
  then show ?thesis using inv by (simp add: coalesceSessionRefresh_def)
qed

lemma flights_inv_settle:
  assumes inv: "flights_inv f" and n: "n \<in> set (rf_open f)"
  shows "flights_inv (flight_release n f)"
proof -
  have cur: "rf_flights f (rf_started f ! n) = Some n" using flights_invD(2) [OF inv n] by simp
  have other: "rf_started f ! m \<noteq> rf_started f ! n" if "m \<in> set (rf_open f)" "m \<noteq> n" for m
    using flights_invD(2) [OF inv that(1)] that(2) cur by auto
  have token: "m \<noteq> n \<and> m \<in> set (rf_open f) \<and> rf_started f ! m = t"
    if "rf_flights f t = Some m" "t \<noteq> rf_started f ! n" for t m
    using flights_invD(1) [OF inv that(1)] that(2) by auto
  show ?thesis
    unfolding flights_inv_def
  proof (intro conjI allI impI ballI)
    fix t m assume "rf_flights (flight_release n f) t = Some m"
    then have "rf_flights f t = Some m" "t \<noteq> rf_started f ! n"
      using cur by (auto simp: flight_release_def Let_def split: if_splits)
    from token [OF this]
    show "m \<in> set (rf_open (flight_release n f))" "rf_started (flight_release n f) ! m = t"
      by (simp_all add: flight_release_def Let_def)
  next
    fix m assume "m \<in> set (rf_open (flight_release n f))"
    then have m: "m \<in> set (rf_open f)" "m \<noteq> n" by (auto simp: flight_release_def Let_def)
    from flights_invD(2) [OF inv m(1)] other [OF m]
    show "m < length (rf_started (flight_release n f))"
      and "rf_flights (flight_release n f) (rf_started (flight_release n f) ! m) = Some m"
      by (simp_all add: flight_release_def Let_def)
  qed
qed

lemma refresh_run_inv: "refresh_run f \<Longrightarrow> flights_inv f"
proof (induction rule: refresh_run.induct)
  case none
  show ?case by (simp add: flights_inv_def no_flights_def)
qed (simp_all add: flights_inv_start flights_inv_settle)

text \<open>Refresh tokens are single-use. In every run, no two open flights use the same token, and a
  caller joins the open flight of its own token, or starts one when there is none; the flight of
  another token (a replacement login) is never joined.\<close>

theorem refresh_flights_single_use:
  assumes "refresh_run f"
  shows "inj_on (\<lambda>n. rf_started f ! n) (set (rf_open f))
    \<and> (case coalesceSessionRefresh t f of (n, f') \<Rightarrow>
        n \<in> set (rf_open f') \<and> rf_started f' ! n = t
        \<and> (if \<exists>m\<in>set (rf_open f). rf_started f ! m = t then f' = f
           else rf_started f' = rf_started f @ [t]))"
proof -
  have inv: "flights_inv f" by (rule refresh_run_inv [OF assms])
  have "inj_on (\<lambda>n. rf_started f ! n) (set (rf_open f))"
  proof (rule inj_onI)
    fix n m assume "n \<in> set (rf_open f)" "m \<in> set (rf_open f)" "rf_started f ! n = rf_started f ! m"
    then show "n = m" using flights_invD(2) [OF inv] by (metis option.inject)
  qed
  moreover have "case coalesceSessionRefresh t f of (n, f') \<Rightarrow>
        n \<in> set (rf_open f') \<and> rf_started f' ! n = t
        \<and> (if \<exists>m\<in>set (rf_open f). rf_started f ! m = t then f' = f
           else rf_started f' = rf_started f @ [t])"
  proof (cases "rf_flights f t")
    case None
    then have "\<not> (\<exists>m\<in>set (rf_open f). rf_started f ! m = t)"
      using flights_invD(2) [OF inv] by auto
    with None show ?thesis by (simp add: coalesceSessionRefresh_def Let_def)
  next
    case (Some n)
    then have "n \<in> set (rf_open f) \<and> rf_started f ! n = t" by (rule flights_invD(1) [OF inv])
    with Some show ?thesis by (auto simp: coalesceSessionRefresh_def)
  qed
  ultimately show ?thesis by (rule conjI)
qed

lemma refresh_flights_single_use_witness:
  "case coalesceSessionRefresh [1] (snd (coalesceSessionRefresh [1] no_flights)) of (n, f') \<Rightarrow>
     n = 0 \<and> f' = snd (coalesceSessionRefresh [1] no_flights)"
proof -
  let ?f = "snd (coalesceSessionRefresh [1] no_flights)"
  have run: "refresh_run ?f" by (rule refresh_run.start [OF refresh_run.none])
  have "rf_open ?f = [0]" and "\<exists>m\<in>set (rf_open ?f). rf_started ?f ! m = [1]"
    by (simp_all add: coalesceSessionRefresh_def no_flights_def Let_def)
  then show ?thesis
    using refresh_flights_single_use [OF run, of "[1]"] by (auto split: prod.splits)
qed

section \<open>Lists\<close>

lemma unseen_cong: "set seen = set seen' \<Longrightarrow> unseen ident seen xs = unseen ident seen' xs"
proof (induction xs arbitrary: seen seen')
  case (Cons x xs)
  show ?case
    using Cons.prems Cons.IH [of seen seen'] Cons.IH [of "ident x # seen" "ident x # seen'"] by simp
qed simp

lemma appendUniquePageById_unseen:
  "appendUniquePageById ident items page = items @ unseen ident (map ident items) page"
  by (simp add: appendUniquePageById_def Let_def)

lemma unseen_distinct:
  "distinct (map ident (unseen ident seen page)) \<and> (\<forall>x\<in>set (unseen ident seen page). ident x \<notin> set seen)
   \<and> ident ` set (unseen ident seen page) = ident ` set page - set seen"
proof (induction page arbitrary: seen)
  case (Cons x page)
  show ?case
  proof (cases "ident x \<in> set seen")
    case True
    then show ?thesis using Cons.IH [of seen] by auto
  next
    case False
    have "distinct (map ident (unseen ident (ident x # seen) page))"
      and "\<And>y. y \<in> set (unseen ident (ident x # seen) page) \<Longrightarrow> ident y \<notin> insert (ident x) (set seen)"
      and "ident ` set (unseen ident (ident x # seen) page) = ident ` set page - insert (ident x) (set seen)"
      using Cons.IH [of "ident x # seen"] by simp_all
    with False show ?thesis by auto
  qed
qed simp

text \<open>Joining a page to a list keeps it free of repeated identifiers. \<open>appendUniquePageById\<close> is
  \<open>insertUniqueById\<close> at the end, entry by entry; the list shown stays where it is, no identifier
  appears twice if none did, and none of the page is lost.\<close>

theorem pages_join_without_repeats:
  "appendUniquePageById ident items page = foldl (\<lambda>xs x. insertUniqueById ident xs x False) items page
   \<and> take (length items) (appendUniquePageById ident items page) = items
   \<and> distinct (map ident (appendUniquePageById ident items page)) = distinct (map ident items)
   \<and> ident ` set (appendUniquePageById ident items page) = ident ` set items \<union> ident ` set page"
proof -
  have fold: "items @ unseen ident (map ident items) page
      = foldl (\<lambda>xs x. insertUniqueById ident xs x False) items page"
  proof (induction page arbitrary: items)
    case (Cons x page)
    have "unseen ident (ident x # map ident items) page = unseen ident (map ident (items @ [x])) page"
      by (rule unseen_cong) auto
    moreover have "list_ex (\<lambda>current. ident current = ident x) items \<longleftrightarrow> ident x \<in> set (map ident items)"
      by (auto simp: list_ex_iff intro: image_eqI [OF sym])
    ultimately show ?case
      using Cons.IH [of items] Cons.IH [of "items @ [x]"]
      by (simp add: insertUniqueById_def)
  qed simp
  have "appendUniquePageById ident items page = foldl (\<lambda>xs x. insertUniqueById ident xs x False) items page"
    by (simp only: appendUniquePageById_unseen fold)
  moreover have "take (length items) (appendUniquePageById ident items page) = items
     \<and> distinct (map ident (appendUniquePageById ident items page)) = distinct (map ident items)
     \<and> ident ` set (appendUniquePageById ident items page) = ident ` set items \<union> ident ` set page"
    using unseen_distinct [of ident "map ident items" page]
    by (auto simp: appendUniquePageById_unseen)
  ultimately show ?thesis by simp
qed

text \<open>An optimistic toggle can be undone: for a count that includes the member's own reaction,
  toggling there and back restores the state, and rolling back the optimistic state that is still
  shown restores the previous one and never overwrites another; no count becomes negative.\<close>

theorem toggle_can_be_undone:
  assumes "0 \<le> tg_count cur" and "tg_selected cur \<longrightarrow> 0 < tg_count cur"
  shows "reconcileToggleCount (reconcileToggleCount cur b None) (tg_selected cur) None = cur
    \<and> rollbackOptimisticToggle (reconcileToggleCount cur b None) (reconcileToggleCount cur b None) cur = cur
    \<and> (now \<noteq> reconcileToggleCount cur b None
        \<longrightarrow> rollbackOptimisticToggle now (reconcileToggleCount cur b None) cur = now)
    \<and> 0 \<le> tg_count (reconcileToggleCount now b None)"
  using assms
  by (cases cur; cases now)
    (auto simp: reconcileToggleCount_def rollbackOptimisticToggle_def Let_def max_def)

lemma toggle_can_be_undone_witness:
  "reconcileToggleCount (reconcileToggleCount \<lparr>tg_selected = True, tg_count = 1\<rparr> False None) True None
     = \<lparr>tg_selected = True, tg_count = 1\<rparr>"
  using toggle_can_be_undone [of "\<lparr>tg_selected = True, tg_count = 1\<rparr>" False] by simp

end
