(* ===== verification/SessionFlow.thy ===== *)
theory SessionFlow
  imports AuthService Gates
begin

text \<open>
  How an authenticated request uses the session: the interceptors of \<open>apps/mobile/src/services/api.ts\<close>
  and the rotation of \<open>token-refresh.ts\<close>, over the session store, and the small decisions of
  \<open>session-recovery.ts\<close> and \<open>session-copy.ts\<close>. The record \<open>client_env\<close> holds what is outside: the
  connectivity reading, the transport, the bare client of the rotation, the answer of a refresh flight
  that is already open for a token (\<open>coalesceSessionRefresh\<close> returns that flight; \<open>Gates\<close> models the
  map itself), and what other calls do to the store while the rotation request is in flight.
\<close>

section \<open>Requests\<close>

record client_request =
  cr_authorization :: jsval
  cr_retry :: bool
  cr_sessionBound :: bool
  cr_payload :: request

definition bearer_header :: "jsstring \<Rightarrow> jsval" where
  "bearer_header access = JStr (js ''Bearer '' @ access)"

definition sessionBoundRequest :: "jsstring \<Rightarrow> request \<Rightarrow> client_request" where
  "sessionBoundRequest access payload =
     \<lparr>cr_authorization = bearer_header access, cr_retry = False, cr_sessionBound = True, cr_payload = payload\<rparr>"

definition shouldAttachCurrentSessionToken :: "jsval \<Rightarrow> bool" where
  "shouldAttachCurrentSessionToken existing \<longleftrightarrow> \<not> is_string existing \<or> trim (the_str existing) = []"

definition resolveSessionAuthorization :: "jsval \<Rightarrow> jsstring option io \<Rightarrow> jsval io" where
  "resolveSessionAuthorization existing readAccessToken =
     (if \<not> shouldAttachCurrentSessionToken existing then io_return existing
      else io_try (io_bind readAccessToken (\<lambda>token.
          io_return (if given token then bearer_header (the token) else JUndef)))
        (\<lambda>_. io_return JUndef))"

definition shouldRetryWithRefreshedSession :: "nat option \<Rightarrow> (bool \<times> bool) option \<Rightarrow> bool" where
  "shouldRetryWithRefreshedSession status retry_bound \<longleftrightarrow>
     status = Some 401
     \<and> (case retry_bound of None \<Rightarrow> False | Some (retry, bound) \<Rightarrow> \<not> retry \<and> \<not> bound)"

record client_env =
  en_json :: json
  en_os :: os
  en_net :: "netinfo option"
  en_base :: jsstring
  en_send :: "client_request \<Rightarrow> js_error + jsval"
  en_bare :: api
  en_flight :: "jsstring \<Rightarrow> (js_error + jsstring) option"
  en_others :: "store \<Rightarrow> store"

text \<open>The request interceptor: the value of the \<open>Authorization\<close> header.\<close>

definition request_authorization :: "client_env \<Rightarrow> jsval \<Rightarrow> jsval io" where
  "request_authorization E existing =
     io_bind (io_lift (ensureConnectionAvailable (en_net E))) (\<lambda>_.
     io_bind (resolveSessionAuthorization existing (session_getAccessToken (en_json E) (en_os E)))
       (\<lambda>authorization. io_return (if truthy authorization then authorization else existing)))"

section \<open>Rotation\<close>

definition TOKEN_REFRESH_TIMEOUT_MS :: nat where
  "TOKEN_REFRESH_TIMEOUT_MS = 15000"

text \<open>What the rotation reads out of the gateway's response.\<close>

definition refreshed_tokens :: "jsval \<Rightarrow> js_error + SessionTokenPair" where
  "refreshed_tokens data =
     (let e = throw ''The server returned an invalid session.'' in
      if \<not> is_record data then Inl e
      else let payload = (if has_own data ''data'' then get data ''data'' else data) in
        if (has_own data ''success'' \<and> get data ''success'' \<noteq> JBool True) \<or> \<not> is_record payload then Inl e
        else let wire = coalesce (get payload ''tokens'') payload in
          (case normalizeSessionTokenPair (get wire ''accessToken'') (get wire ''refreshToken'') of
             Inl _ \<Rightarrow> Inl e | Inr t \<Rightarrow> Inr t))"

definition others_meanwhile :: "client_env \<Rightarrow> unit io" where
  "others_meanwhile E s fs = (Ret (), en_others E s, fs)"

definition rotation_response :: "client_env \<Rightarrow> jsstring \<Rightarrow> js_error + SessionTokenPair" where
  "rotation_response E token =
     and_then (api_post (en_bare E) (en_base E @ js ''/auth/refresh-token'')
       (JObj [(''refreshToken'', JStr token)])) refreshed_tokens"

definition rotateSessionTokens :: "client_env \<Rightarrow> jsstring \<Rightarrow> jsstring io" where
  "rotateSessionTokens E token =
     io_bind (io_lift (ensureConnectionAvailable (en_net E))) (\<lambda>_.
     io_bind (others_meanwhile E) (\<lambda>_.
     io_bind (io_lift (rotation_response E token)) (\<lambda>tokens.
     io_bind (replaceTokensIfCurrent (en_json E) (en_os E) (JStr token)
         (JStr (accessToken tokens)) (JStr (refreshToken tokens))) (\<lambda>replaced.
       if \<not> replaced then io_throw SessionChangedDuringRefreshError
       else io_return (accessToken tokens)))))"

text \<open>\<open>coalesceSessionRefresh(token, rotate)\<close>: an open flight of this token, or an own one.\<close>

definition coalesced_rotation :: "client_env \<Rightarrow> jsstring \<Rightarrow> jsstring io" where
  "coalesced_rotation E token =
     (case en_flight E token of
        Some answer \<Rightarrow> io_seq (others_meanwhile E) (io_lift answer)
      | None \<Rightarrow> rotateSessionTokens E token)"

section \<open>The response interceptor\<close>

definition expire_rejected :: "client_env \<Rightarrow> jsstring \<Rightarrow> unit io" where
  "expire_rejected E token =
     io_try (io_seq (clearIfRefreshTokenCurrent (en_json E) (en_os E) (JStr token) True) (io_return ()))
       (\<lambda>_. io_return ())"

text \<open>The part of the 401 branch before the request is sent again; \<open>e\<close> is the original error.\<close>

definition refresh_session :: "client_env \<Rightarrow> js_error \<Rightarrow> jsstring io" where
  "refresh_session E e =
     io_bind (io_try (session_getRefreshToken (en_json E) (en_os E)) (\<lambda>_. io_throw e)) (\<lambda>token.
       if \<not> given token then io_throw e
       else io_try (coalesced_rotation E (the token)) (\<lambda>refreshError.
         io_seq (if isAuthenticationRejection refreshError then expire_rejected E (the token) else io_return ())
           (io_throw refreshError)))"

text \<open>One call of the client: interceptors and transport, and the request sent again after a
  refresh. The recursion ends because the request sent again is marked.\<close>

function api_call :: "client_env \<Rightarrow> client_request \<Rightarrow> jsval io" where
  "api_call E req =
     io_bind (request_authorization E (cr_authorization req)) (\<lambda>authorization.
       case en_send E (req\<lparr>cr_authorization := authorization\<rparr>) of
         Inr data \<Rightarrow> io_return data
       | Inl e \<Rightarrow>
           if httpStatus e = Some 401 \<and> cr_sessionBound req then io_throw e
           else if shouldRetryWithRefreshedSession (httpStatus e) (Some (cr_retry req, cr_sessionBound req))
           then io_bind (refresh_session E e) (\<lambda>access.
             api_call E (req\<lparr>cr_authorization := bearer_header access, cr_retry := True\<rparr>))
           else io_throw e)"
  by pat_completeness auto

termination
  by (relation "measure (\<lambda>(E, req). if cr_retry req then 0 else 1)")
    (auto simp: shouldRetryWithRefreshedSession_def)

declare api_call.simps [simp del]

section \<open>Recovery and copy\<close>

definition canRevealCachedMember :: "bool \<Rightarrow> bool \<Rightarrow> bool" where
  "canRevealCachedMember hasSession hasCachedUser \<longleftrightarrow> hasSession \<and> hasCachedUser"

definition shouldRecoverPendingIdentity :: "bool \<Rightarrow> bool \<Rightarrow> netinfo \<Rightarrow> bool" where
  "shouldRecoverPendingIdentity hasSession hasUser st \<longleftrightarrow> hasSession \<and> \<not> hasUser \<and> \<not> isKnownOffline st"

definition canCommitSessionResult :: "jsval \<Rightarrow> jsval \<Rightarrow> bool \<Rightarrow> bool" where
  "canCommitSessionResult startedRevision currentRevision hasSession \<longleftrightarrow>
     safe_count startedRevision \<and> safe_count currentRevision
     \<and> the_int startedRevision = the_int currentRevision \<and> hasSession"

definition sessionPlatform :: "jsstring \<Rightarrow> os" where
  "sessionPlatform v = (if v = js ''web'' then Web else Native)"

definition credentialStorageCopy :: "os \<Rightarrow> jsstring" where
  "credentialStorageCopy platform =
     (if platform = Web then js ''Using a shared browser? Sign out when you finish.''
      else js ''Your credentials and member profile use this device'' @ [39]
        @ js ''s secure credential store.'')"

definition sessionStorageLabel :: "os \<Rightarrow> jsstring" where
  "sessionStorageLabel platform =
     (if platform = Web then js ''Browser session'' else js ''Secure device storage'')"

section \<open>Lemmas\<close>

lemma unchanged_trans: "unchanged J os s s1 \<Longrightarrow> unchanged J os s1 s2 \<Longrightarrow> unchanged J os s s2"
  by (auto simp: unchanged_def)

lemma unchanged_refresh: "unchanged J os s s1 \<Longrightarrow> current_refresh J os s1 = current_refresh J os s"
  by (simp add: unchanged_def current_refresh_def)

lemma wp_others: "Q (Ret ()) (en_others E s) \<Longrightarrow> wp (others_meanwhile E) Q s"
  by (simp add: wp_def others_meanwhile_def)

lemma read_refresh_exact:
  "wp (session_getRefreshToken J os) (\<lambda>r s'. unchanged J os s s'
     \<and> (\<forall>t. r = Ret t \<longrightarrow> t = current_refresh J os s)) s"
  unfolding session_getRefreshToken_def
  by (rule wp_bind, rule wp_conseq [OF wp_readTokensUnlocked])
    (auto split: run.splits intro!: wp_return simp: read_post_def unchanged_def current_refresh_def)

text \<open>What the rotation, own or shared, leaves of the session the others left (\<open>s1\<close>).\<close>

definition rotation_post :: "client_env \<Rightarrow> jsstring \<Rightarrow> store \<Rightarrow> jsstring run \<Rightarrow> store \<Rightarrow> bool" where
  "rotation_post E token s1 r s' \<longleftrightarrow>
     (let J = en_json E; os = en_os E in
      unchanged J os s1 s' \<and> (\<forall>a. r = Ret a \<longrightarrow> en_flight E token = Some (Inr a))
      \<or> current_refresh J os s1 = Some token
        \<and> (\<exists>t. rotation_response E token = Inr t \<and> st_notices s' = st_notices s1
            \<and> (view J os s' = view J os s1 \<or> view J os s' = Some t)
            \<and> (\<forall>a. r = Ret a \<longrightarrow> a = accessToken t \<and> view J os s' = Some t)))"

lemma wp_store_rotated:
  assumes "rotation_response E token = Inr t" and "en_flight E token = None"
  shows "wp (io_bind (replaceTokensIfCurrent (en_json E) (en_os E) (JStr token)
         (JStr (accessToken t)) (JStr (refreshToken t))) (\<lambda>replaced.
       if \<not> replaced then io_throw SessionChangedDuringRefreshError
       else io_return (accessToken t))) (rotation_post E token s1) s1"
proof -
  let ?J = "en_json E" and ?os = "en_os E"
  have pair: "normalizeSessionTokenPair (JStr (accessToken t)) (JStr (refreshToken t)) = Inr t"
  proof -
    obtain d where "refreshed_tokens d = Inr t"
      using assms(1) by (auto simp: rotation_response_def res_simps)
    then have "\<exists>a r. normalizeSessionTokenPair a r = Inr t"
      by (auto simp: refreshed_tokens_def Let_def split: if_splits sum.splits)
    then show ?thesis by (auto simp: normalizePair_Inr)
  qed
  have "wp (replaceTokensIfCurrent ?J ?os (JStr token) (JStr (accessToken t)) (JStr (refreshToken t)))
      (\<lambda>res s'. replace_post ?J ?os token t s1 res s' \<or> s' = s1 \<and> res = Thrown invalid_session) s1"
    by (rule wp_conseq [OF wp_replaceTokensIfCurrent])
      (use pair in \<open>auto split: sum.splits simp: normalizeOpaque_Inr\<close>)
  then show ?thesis
    by (intro wp_bind, elim wp_conseq)
      (use assms in \<open>auto split: run.splits if_splits intro!: wp_return wp_throw
         simp: replace_post_def rotation_post_def Let_def\<close>)
qed

lemma wp_coalesced_rotation:
  "wp (coalesced_rotation E token)
    (\<lambda>r s'. s' = s \<and> r = Thrown KnownOfflineError \<or> rotation_post E token (en_others E s) r s') s"
proof (cases "en_flight E token")
  case None
  show ?thesis
    unfolding coalesced_rotation_def None option.case rotateSessionTokens_def
  proof (rule wp_lift_bind, goal_cases)
    case (2 u)
    show ?case
    proof (rule wp_bind, rule wp_others, simp only: run.case, rule wp_lift_bind, goal_cases)
      case (1 e)
      then show ?case by (simp add: rotation_post_def Let_def)
    next
      case (2 t)
      show ?case by (rule wp_conseq [OF wp_store_rotated [OF 2 None]]) simp
    qed
  qed (auto simp: ensureConnectionAvailable_def split: option.splits if_splits)
next
  case (Some answer)
  show ?thesis
    unfolding coalesced_rotation_def Some option.case
    by (intro wp_seq wp_others, simp only: run.case, rule wp_lift)
      (simp_all add: rotation_post_def Let_def Some)
qed

text \<open>A rejected refresh ends the session that used the token, and no other.\<close>

definition expired_post :: "client_env \<Rightarrow> jsstring \<Rightarrow> store \<Rightarrow> store \<Rightarrow> bool" where
  "expired_post E token s s' \<longleftrightarrow>
     unchanged (en_json E) (en_os E) s s' \<or> current_refresh (en_json E) (en_os E) s = Some token"

lemma wp_expire_rejected:
  "wp (expire_rejected E token) (\<lambda>r s'. expired_post E token s s' \<and> (\<forall>e. r \<noteq> Thrown e)) s"
  unfolding expire_rejected_def
  by (intro wp_try wp_seq, rule wp_conseq [OF wp_clearIfRefreshTokenCurrent])
    (auto split: run.splits sum.splits if_splits intro!: wp_return
      simp: expire_post_def expired_post_def normalizeOpaque_Inr)

text \<open>The whole 401 branch. No refresh: nothing changes. A refresh with another session current when it
  ends: that one is left alone. A refresh of the session that is still current.\<close>

definition refresh_settled :: "client_env \<Rightarrow> jsstring \<Rightarrow> store \<Rightarrow> jsstring run \<Rightarrow> store \<Rightarrow> bool" where
  "refresh_settled E token s1 r s' \<longleftrightarrow>
     (let J = en_json E; os = en_os E in
      if current_refresh J os s1 \<noteq> Some token
      then unchanged J os s1 s' \<and> (\<forall>a. r = Ret a \<longrightarrow> en_flight E token = Some (Inr a))
      else case r of
          Ret a \<Rightarrow> unchanged J os s1 s' \<and> en_flight E token = Some (Inr a)
            \<or> (\<exists>t. rotation_response E token = Inr t \<and> accessToken t = a \<and> view J os s' = Some t)
        | Thrown e \<Rightarrow> isAuthenticationRejection e \<or> view J os s' = view J os s1
            \<or> (\<exists>t. rotation_response E token = Inr t \<and> view J os s' = Some t)
        | Killed \<Rightarrow> True)"

definition refresh_post :: "client_env \<Rightarrow> store \<Rightarrow> jsstring run \<Rightarrow> store \<Rightarrow> bool" where
  "refresh_post E s r s' \<longleftrightarrow>
     unchanged (en_json E) (en_os E) s s' \<and> (\<forall>a. r \<noteq> Ret a)
     \<or> (\<exists>token s2. current_refresh (en_json E) (en_os E) s = Some token
         \<and> unchanged (en_json E) (en_os E) s s2 \<and> refresh_settled E token (en_others E s2) r s')"

lemma refresh_postI:
  "current_refresh (en_json E) (en_os E) s = Some token \<Longrightarrow> unchanged (en_json E) (en_os E) s s2 \<Longrightarrow>
   refresh_settled E token (en_others E s2) r s' \<Longrightarrow> refresh_post E s r s'"
  unfolding refresh_post_def by blast

lemma settled_rotated: "rotation_post E token s1 r s' \<Longrightarrow> refresh_settled E token s1 r s'"
  by (auto simp: rotation_post_def refresh_settled_def Let_def unchanged_def split: run.split)

lemma settled_expired:
  assumes "rotation_post E token s1 (Thrown e) s3" and "expired_post E token s3 s'"
    and "isAuthenticationRejection e" and "r = Killed \<or> r = Thrown e"
  shows "refresh_settled E token s1 r s'"
proof (cases "current_refresh (en_json E) (en_os E) s1 = Some token")
  case False
  then have same: "unchanged (en_json E) (en_os E) s1 s3"
    using assms(1) by (auto simp: rotation_post_def Let_def)
  have "unchanged (en_json E) (en_os E) s3 s'"
    using False assms(2) unchanged_refresh [OF same] by (simp add: expired_post_def)
  with False assms(4) unchanged_trans [OF same] show ?thesis
    by (auto simp: refresh_settled_def)
qed (use assms(3,4) in \<open>auto simp: refresh_settled_def Let_def\<close>)

lemma wp_refresh_session: "wp (refresh_session E e) (refresh_post E s) s"
proof -
  let ?J = "en_json E" and ?os = "en_os E"
  have no_refresh: "refresh_post E s r s'" if "unchanged ?J ?os s s'" and "\<forall>a. r \<noteq> Ret a" for r s'
    using that by (simp add: refresh_post_def)
  have refresh: "wp (io_try (coalesced_rotation E token) (\<lambda>re.
         io_seq (if isAuthenticationRejection re then expire_rejected E token else io_return ())
           (io_throw re))) (refresh_post E s) s2"
    if s2: "unchanged ?J ?os s s2" and cur: "current_refresh ?J ?os s = Some token" for token s2
  proof (rule wp_try, rule wp_conseq [OF wp_coalesced_rotation])
    fix r s3
    assume post: "s3 = s2 \<and> r = Thrown KnownOfflineError \<or> rotation_post E token (en_others E s2) r s3"
    have settled: "refresh_post E s r s'" if "refresh_settled E token (en_others E s2) r s'" for r s'
      by (rule refresh_postI [OF cur s2 that])
    have thrown: "wp (io_seq (if isAuthenticationRejection re then expire_rejected E token else io_return ())
        (io_throw re)) (refresh_post E s) s3" if "r = Thrown re" for re
    proof (cases "isAuthenticationRejection re")
      case True
      then have "rotation_post E token (en_others E s2) (Thrown re) s3"
        using post that by (auto simp: isAuthenticationRejection_def)
      then have expired: "refresh_post E s r s'"
        if "expired_post E token s3 s'" and "r = Killed \<or> r = Thrown re" for r s'
        using settled settled_expired that True by blast
      show ?thesis
        unfolding if_P [OF True]
        by (rule wp_seq, rule wp_conseq [OF wp_expire_rejected])
          (auto split: run.splits intro!: wp_throw intro: expired)
    next
      case False
      then show ?thesis
        using post that no_refresh [OF s2] settled settled_rotated
        by (auto intro!: wp_seq wp_return wp_throw)
    qed
    show "case r of Ret x \<Rightarrow> refresh_post E s (Ret x) s3
        | Thrown re \<Rightarrow> wp (io_seq (if isAuthenticationRejection re then expire_rejected E token else io_return ())
            (io_throw re)) (refresh_post E s) s3
        | Killed \<Rightarrow> refresh_post E s Killed s3"
      using post thrown settled settled_rotated by (auto split: run.split)
  qed
  show ?thesis
  proof (cases "current_refresh ?J ?os s")
    case None
    show ?thesis
      unfolding refresh_session_def
      by (rule wp_bind, rule wp_try, rule wp_conseq [OF read_refresh_exact])
        (use None in \<open>auto split: run.splits intro!: wp_throw no_refresh simp: given_def\<close>)
  next
    case (Some token)
    show ?thesis
      unfolding refresh_session_def
      by (rule wp_bind, rule wp_try, rule wp_conseq [OF read_refresh_exact])
        (use Some in \<open>auto split: run.splits if_splits intro!: wp_throw no_refresh refresh simp: given_def\<close>)
  qed
qed

subsection \<open>The client\<close>

lemma io_bind_assoc: "io_bind (io_bind m f) g = io_bind m (\<lambda>x. io_bind (f x) g)"
  by (rule ext)+ (simp add: io_bind_def split: prod.split run.split)

lemma io_bind_return [simp]: "io_bind (io_return x) f = f x"
  by (rule ext)+ (simp add: io_bind_def io_return_def)

lemma trim_eq_Nil: "trim s = [] \<longleftrightarrow> (\<forall>c\<in>set s. is_space c)"
proof -
  have "(\<forall>c\<in>set (dropWhile is_space s). is_space c) \<longleftrightarrow> (\<forall>c\<in>set s. is_space c)"
    by (induction s) auto
  then show ?thesis by (simp add: trim_def dropWhile_eq_Nil_conv)
qed

lemma bearer_header_kept:
  "request_authorization E (bearer_header access)
     = io_bind (io_lift (ensureConnectionAvailable (en_net E))) (\<lambda>_. io_return (bearer_header access))"
proof -
  have "\<not> shouldAttachCurrentSessionToken (bearer_header access)"
    by (simp add: shouldAttachCurrentSessionToken_def bearer_header_def trim_eq_Nil js_def is_space_def)
  then show ?thesis
    by (simp add: request_authorization_def resolveSessionAuthorization_def bearer_header_def js_def)
qed

lemma sent_once:
  assumes "cr_retry req \<or> cr_sessionBound req"
  shows "api_call E req = io_bind (request_authorization E (cr_authorization req))
    (\<lambda>authorization. io_lift (en_send E (req\<lparr>cr_authorization := authorization\<rparr>)))"
  by (subst api_call.simps, rule arg_cong [where f = "io_bind _"], rule ext)
    (use assms in \<open>auto simp: io_lift_def shouldRetryWithRefreshedSession_def split: sum.split\<close>)

text \<open>C24: every call of the client ends, and the gateway gets the request at most twice. A request that
  is sent again carries the new bearer and is not refreshed again whatever it is answered; a request
  bound to the session of its initiator is sent once, with that bearer, and reads nothing from the store.\<close>

theorem requests_are_sent_at_most_twice:
  "api_call E req =
     io_bind (request_authorization E (cr_authorization req)) (\<lambda>authorization.
       case en_send E (req\<lparr>cr_authorization := authorization\<rparr>) of
         Inr data \<Rightarrow> io_return data
       | Inl e \<Rightarrow>
           if httpStatus e = Some 401 \<and> \<not> cr_retry req \<and> \<not> cr_sessionBound req
           then io_bind (refresh_session E e) (\<lambda>access.
             io_bind (io_lift (ensureConnectionAvailable (en_net E))) (\<lambda>_.
               io_lift (en_send E (req\<lparr>cr_authorization := bearer_header access, cr_retry := True\<rparr>))))
           else io_throw e)
   \<and> api_call E (sessionBoundRequest access payload) =
     io_bind (io_lift (ensureConnectionAvailable (en_net E))) (\<lambda>_.
       io_lift (en_send E (sessionBoundRequest access payload)))"
proof
  have again: "api_call E (q\<lparr>cr_authorization := bearer_header a, cr_retry := True\<rparr>)
      = io_bind (io_lift (ensureConnectionAvailable (en_net E))) (\<lambda>_.
          io_lift (en_send E (q\<lparr>cr_authorization := bearer_header a, cr_retry := True\<rparr>)))" for q a
    by (cases q) (simp add: sent_once bearer_header_kept io_bind_assoc)
  show "api_call E req =
     io_bind (request_authorization E (cr_authorization req)) (\<lambda>authorization.
       case en_send E (req\<lparr>cr_authorization := authorization\<rparr>) of
         Inr data \<Rightarrow> io_return data
       | Inl e \<Rightarrow>
           if httpStatus e = Some 401 \<and> \<not> cr_retry req \<and> \<not> cr_sessionBound req
           then io_bind (refresh_session E e) (\<lambda>access.
             io_bind (io_lift (ensureConnectionAvailable (en_net E))) (\<lambda>_.
               io_lift (en_send E (req\<lparr>cr_authorization := bearer_header access, cr_retry := True\<rparr>))))
           else io_throw e)"
    by (subst api_call.simps)
      (auto simp: again shouldRetryWithRefreshedSession_def intro!: arg_cong [where f = "io_bind _"]
        split: sum.split)
  show "api_call E (sessionBoundRequest access payload) =
     io_bind (io_lift (ensureConnectionAvailable (en_net E))) (\<lambda>_.
       io_lift (en_send E (sessionBoundRequest access payload)))"
    by (simp add: sent_once sessionBoundRequest_def bearer_header_kept io_bind_assoc)
qed

section \<open>Properties\<close>

text \<open>C3: a refresh never ends or replaces a session that it does not belong to. Whatever other calls
  do to the store while the rotation is in flight and whatever storage operation fails: with no session
  nothing changes; when the session that is current afterwards is another one than the refresh token was
  read from, it is left as it is and an own rotation does not return; otherwise a return means that
  the gateway's new pair is the session shown (or the answer of the flight joined), and an exception
  leaves the session, or the new pair, unless the gateway rejected the token.\<close>

theorem refresh_never_ends_another_session:
  assumes "refresh_session E e s fs = (r, s', fs')"
  shows "unchanged (en_json E) (en_os E) s s' \<and> (\<forall>a. r \<noteq> Ret a)
    \<or> (\<exists>token s2. current_refresh (en_json E) (en_os E) s = Some token
        \<and> unchanged (en_json E) (en_os E) s s2
        \<and> (let J = en_json E; os = en_os E; s1 = en_others E s2 in
           if current_refresh J os s1 \<noteq> Some token
           then unchanged J os s1 s' \<and> (\<forall>a. r = Ret a \<longrightarrow> en_flight E token = Some (Inr a))
           else case r of
               Ret a \<Rightarrow> unchanged J os s1 s' \<and> en_flight E token = Some (Inr a)
                 \<or> (\<exists>t. rotation_response E token = Inr t \<and> accessToken t = a \<and> view J os s' = Some t)
             | Thrown e \<Rightarrow> isAuthenticationRejection e \<or> view J os s' = view J os s1
                 \<or> (\<exists>t. rotation_response E token = Inr t \<and> view J os s' = Some t)
             | Killed \<Rightarrow> True))"
  using wpD [OF wp_refresh_session assms] unfolding refresh_post_def refresh_settled_def Let_def .

text \<open>A member logs in anew while an old refresh is being rejected.\<close>

definition newer_store :: store where
  "newer_store = call_session plain_json Native
     (Commit (JStr (js ''a9'')) (JStr (js ''r9'')) sample_user True True True) empty_store []"

definition relogin_env :: client_env where
  "relogin_env = \<lparr>en_json = plain_json, en_os = Native, en_net = None, en_base = js ''https://api'',
     en_send = (\<lambda>_. Inl (AxiosError (Some (401, JNull)))),
     en_bare = (\<lambda>_. Inl (AxiosError (Some (401, JNull)))),
     en_flight = (\<lambda>_. None), en_others = (\<lambda>_. newer_store)\<rparr>"

lemma refresh_never_ends_another_session_witness:
  "\<exists>r s' fs'. refresh_session relogin_env (AxiosError (Some (401, JNull))) signed_in_store [] = (r, s', fs')
     \<and> view plain_json Native s' = view plain_json Native newer_store
     \<and> (\<forall>a. r \<noteq> Ret a)"
proof -
  let ?m = "refresh_session relogin_env (AxiosError (Some (401, JNull))) signed_in_store []"
  obtain r s' fs' where run: "?m = (r, s', fs')" by (metis prod.exhaust)
  have shown: "view plain_json Native (fst (snd ?m)) = Some \<lparr>accessToken = js ''a9'', refreshToken = js ''r9''\<rparr>"
    and old: "view plain_json Native signed_in_store = Some \<lparr>accessToken = js ''a1'', refreshToken = js ''r1''\<rparr>"
    and new: "view plain_json Native newer_store = Some \<lparr>accessToken = js ''a9'', refreshToken = js ''r9''\<rparr>"
    by code_simp+
  have env: "en_json relogin_env = plain_json" "en_os relogin_env = Native"
    "en_flight relogin_env = (\<lambda>_. None)" "en_others relogin_env = (\<lambda>_. newer_store)"
    by (simp_all add: relogin_env_def)
  show ?thesis
    using refresh_never_ends_another_session [OF run] run shown old new
    by (auto simp: env current_refresh_def unchanged_def Let_def)
qed

end
