(* ===== verification/Permissions.thy ===== *)
theory Permissions
  imports JsRuntime "HOL-Library.List_Lexorder"
begin

text \<open>
  The permission vocabulary of the staff applications: \<open>packages/permissions/src/permission.ts\<close> and
  the navigation filter of \<open>navigation.ts\<close>. \<open>RESOURCES\<close> and \<open>ACTIONS\<close> are the two unions; a permission
  is its text \<open>resource:action\<close>; a \<open>Set\<close> is the list of its members in insertion order. Texts are
  ordered by their code units, as \<open>sort\<close> without a comparison orders them.
\<close>

section \<open>Vocabulary\<close>

datatype action = Read | Create | Update | Delete

datatype resource = Church | Communication | Event | Finance | Member | Prayer | Report | Role | Settings
  | User | Welfare

fun action_text :: "action \<Rightarrow> jsstring" where
  "action_text Read = js ''read''"
| "action_text Create = js ''create''"
| "action_text Update = js ''update''"
| "action_text Delete = js ''delete''"

fun resource_text :: "resource \<Rightarrow> jsstring" where
  "resource_text Church = js ''church''"
| "resource_text Communication = js ''communication''"
| "resource_text Event = js ''event''"
| "resource_text Finance = js ''finance''"
| "resource_text Member = js ''member''"
| "resource_text Prayer = js ''prayer''"
| "resource_text Report = js ''report''"
| "resource_text Role = js ''role''"
| "resource_text Settings = js ''settings''"
| "resource_text User = js ''user''"
| "resource_text Welfare = js ''welfare''"

definition ACTIONS :: "action list" where
  "ACTIONS = [Read, Create, Update, Delete]"

definition RESOURCES :: "resource list" where
  "RESOURCES = [Church, Communication, Event, Finance, Member, Prayer, Report, Role, Settings, User, Welfare]"

text \<open>The vocabulary is ordered by the texts, so that the library's sorting applies to it.\<close>

instantiation action :: linorder begin
definition less_eq_action :: "action \<Rightarrow> action \<Rightarrow> bool" where
  "less_eq_action a b \<longleftrightarrow> action_text a \<le> action_text b"
definition less_action :: "action \<Rightarrow> action \<Rightarrow> bool" where
  "less_action a b \<longleftrightarrow> action_text a < action_text b"
instance proof
  have inj: "action_text a = action_text b \<Longrightarrow> a = b" for a b
    by (cases a; cases b) simp_all
  show "\<And>x y :: action. x \<le> y \<Longrightarrow> y \<le> x \<Longrightarrow> x = y"
    by (rule inj) (simp add: less_eq_action_def)
qed (auto simp: less_eq_action_def less_action_def)
end

instantiation resource :: linorder begin
definition less_eq_resource :: "resource \<Rightarrow> resource \<Rightarrow> bool" where
  "less_eq_resource a b \<longleftrightarrow> resource_text a \<le> resource_text b"
definition less_resource :: "resource \<Rightarrow> resource \<Rightarrow> bool" where
  "less_resource a b \<longleftrightarrow> resource_text a < resource_text b"
instance proof
  have inj: "resource_text a = resource_text b \<Longrightarrow> a = b" for a b
    by (cases a; cases b) simp_all
  show "\<And>x y :: resource. x \<le> y \<Longrightarrow> y \<le> x \<Longrightarrow> x = y"
    by (rule inj) (simp add: less_eq_resource_def)
qed (auto simp: less_eq_resource_def less_resource_def)
end

definition permission :: "resource \<Rightarrow> action \<Rightarrow> jsstring" where
  "permission r a = resource_text r @ 58 # action_text a"

text \<open>The member of a union whose text is \<open>s\<close>; \<open>split(':')\<close> and the first two parts, where a missing second part is \<open>undefined\<close>.\<close>

definition find_text :: "('a \<Rightarrow> jsstring) \<Rightarrow> 'a list \<Rightarrow> jsstring \<Rightarrow> 'a option" where
  "find_text name xs s = find (\<lambda>x. name x = s) xs"

definition splitPermission :: "jsstring \<Rightarrow> (resource \<times> action) option" where
  "splitPermission v =
     (case split_on 58 (trim (toLowerCase v)) of
        r # a # _ \<Rightarrow>
          (case (find_text resource_text RESOURCES r, find_text action_text ACTIONS a) of
             (Some resource, Some action) \<Rightarrow> Some (resource, action)
           | _ \<Rightarrow> None)
      | _ \<Rightarrow> None)"

definition isWrite :: "action \<Rightarrow> bool" where
  "isWrite a \<longleftrightarrow> a \<noteq> Read"

section \<open>Sets of permissions\<close>

definition set_add :: "'a \<Rightarrow> 'a list \<Rightarrow> 'a list" where
  "set_add x xs = (if x \<in> set xs then xs else xs @ [x])"

fun expand_onto :: "jsstring list \<Rightarrow> jsstring list \<Rightarrow> jsstring list" where
  "expand_onto out [] = out"
| "expand_onto out (raw # raws) =
     (case splitPermission raw of
        None \<Rightarrow> expand_onto out raws
      | Some (r, a) \<Rightarrow>
          (let out1 = set_add (permission r a) out
           in expand_onto (if isWrite a then set_add (permission r Read) out1 else out1) raws))"

definition expand :: "jsstring list \<Rightarrow> jsstring list" where
  "expand raws = expand_onto [] raws"

fun held_and_wanted ::
    "jsstring list \<times> jsstring list \<Rightarrow> jsstring list \<Rightarrow> jsstring list \<times> jsstring list" where
  "held_and_wanted acc [] = acc"
| "held_and_wanted (held, wanted) (raw # raws) =
     (case splitPermission raw of
        None \<Rightarrow> held_and_wanted (held, wanted) raws
      | Some (r, a) \<Rightarrow>
          held_and_wanted (set_add (permission r a) held,
            if isWrite a then set_add (permission r Read) wanted else wanted) raws)"

definition sort_texts :: "jsstring list \<Rightarrow> jsstring list" where
  "sort_texts xs = foldr insort xs []"

definition missingReads :: "jsstring list \<Rightarrow> jsstring list" where
  "missingReads raws =
     (let (held, wanted) = held_and_wanted ([], []) raws
      in sort_texts (filter (\<lambda>read. read \<notin> set held) wanted))"

text \<open>The class \<open>PermissionSet\<close>: its field is the expanded set.\<close>

record PermissionSet =
  ps_held :: "jsstring list"

definition new_PermissionSet :: "jsstring list \<Rightarrow> PermissionSet" where
  "new_PermissionSet raws = \<lparr>ps_held = expand raws\<rparr>"

definition can :: "PermissionSet \<Rightarrow> resource \<Rightarrow> action \<Rightarrow> bool" where
  "can p r a \<longleftrightarrow> permission r a \<in> set (ps_held p)"

definition has :: "PermissionSet \<Rightarrow> jsstring \<Rightarrow> bool" where
  "has p v = (case splitPermission v of Some (r, a) \<Rightarrow> can p r a | None \<Rightarrow> False)"

definition hasAll :: "PermissionSet \<Rightarrow> jsstring list \<Rightarrow> bool" where
  "hasAll p vs = list_all (has p) vs"

definition hasAny :: "PermissionSet \<Rightarrow> jsstring list \<Rightarrow> bool" where
  "hasAny p vs = list_ex (has p) vs"

definition canRead :: "PermissionSet \<Rightarrow> resource \<Rightarrow> bool" where
  "canRead p r = can p r Read"

definition ps_list :: "PermissionSet \<Rightarrow> jsstring list" where
  "ps_list p = sort_texts (ps_held p)"

definition ps_size :: "PermissionSet \<Rightarrow> nat" where
  "ps_size p = length (ps_held p)"

definition NO_PERMISSIONS :: PermissionSet where
  "NO_PERMISSIONS = new_PermissionSet []"

section \<open>Navigation\<close>

text \<open>An entry is what it requires (\<open>None\<close>: the property is absent) and its path.\<close>

record nav_item =
  nav_requires :: "jsstring list option"
  nav_path :: jsstring

definition visibleNav :: "nav_item list \<Rightarrow> PermissionSet \<Rightarrow> nav_item list" where
  "visibleNav items permissions =
     filter (\<lambda>item. case nav_requires item of
         None \<Rightarrow> True
       | Some required \<Rightarrow> length required = 0 \<or> hasAll permissions required) items"

definition firstVisiblePath :: "nav_item list \<Rightarrow> PermissionSet \<Rightarrow> jsstring \<Rightarrow> jsstring" where
  "firstVisiblePath items permissions fallback =
     (case visibleNav items permissions of item # _ \<Rightarrow> nav_path item | [] \<Rightarrow> fallback)"

section \<open>Guards\<close>

text \<open>What \<open>Can\<close>, \<open>Cannot\<close> and \<open>RequirePermission\<close> render.\<close>

datatype rendering = ShowLoading | ShowChildren | ShowFallback

record permissions_value =
  pv_permissions :: PermissionSet
  pv_isLoading :: bool
  pv_error :: "jsstring option"

definition guard_renders :: "permissions_value \<Rightarrow> jsstring list \<Rightarrow> rendering" where
  "guard_renders v required =
     (if pv_isLoading v then ShowLoading
      else if hasAll (pv_permissions v) required then ShowChildren else ShowFallback)"

definition cannot_renders :: "permissions_value \<Rightarrow> jsstring list \<Rightarrow> rendering" where
  "cannot_renders v required =
     (if pv_isLoading v then ShowFallback
      else if hasAll (pv_permissions v) required then ShowFallback else ShowChildren)"

definition useCan :: "permissions_value \<Rightarrow> jsstring list \<Rightarrow> bool" where
  "useCan v required \<longleftrightarrow> \<not> pv_isLoading v \<and> hasAll (pv_permissions v) required"

section \<open>The provider\<close>

text \<open>
  The provider as a transition system. \<open>ef_generation\<close> is the reference \<open>generation\<close>; an effect with
  \<open>enabled\<close> starts a fetch that owns the generation it set, and aborts the one before. \<open>ef_flights\<close> are
  the fetches without an answer, \<open>ef_aborted\<close> the aborted ones, \<open>ef_settled\<close> those whose \<open>then\<close> or
  \<open>catch\<close> ran and whose \<open>finally\<close> did not. A change of \<open>enabled\<close>, of \<open>fetchPermissions\<close> or of the
  nonce of \<open>refresh\<close> is the label \<open>Effect\<close>.
\<close>

record provider = permissions_value +
  ef_generation :: nat
  ef_flights :: "nat list"
  ef_aborted :: "nat list"
  ef_settled :: "nat list"

definition provider_start :: "bool \<Rightarrow> provider" where
  "provider_start enabled =
     \<lparr>pv_permissions = NO_PERMISSIONS, pv_isLoading = enabled, pv_error = None,
      ef_generation = 0, ef_flights = [], ef_aborted = [], ef_settled = []\<rparr>"

definition provider_effect :: "bool \<Rightarrow> provider \<Rightarrow> provider" where
  "provider_effect enabled s =
     (let s1 = s\<lparr>ef_generation := ef_generation s + 1, ef_aborted := ef_flights s @ ef_aborted s\<rparr>
      in if \<not> enabled then s1\<lparr>pv_permissions := NO_PERMISSIONS, pv_isLoading := False, pv_error := None\<rparr>
         else s1\<lparr>pv_isLoading := True, ef_flights := ef_generation s1 # ef_flights s1\<rparr>)"

definition provider_then :: "nat \<Rightarrow> jsstring list \<Rightarrow> provider \<Rightarrow> provider" where
  "provider_then mine list s =
     (if ef_generation s \<noteq> mine then s
      else s\<lparr>pv_permissions := new_PermissionSet list, pv_error := None\<rparr>)"

definition provider_catch :: "nat \<Rightarrow> jsstring \<Rightarrow> provider \<Rightarrow> provider" where
  "provider_catch mine cause s =
     (if ef_generation s \<noteq> mine then s
      else if mine \<in> set (ef_aborted s) then s
      else s\<lparr>pv_permissions := NO_PERMISSIONS, pv_error := Some cause\<rparr>)"

definition provider_finally :: "nat \<Rightarrow> provider \<Rightarrow> provider" where
  "provider_finally mine s =
     (if ef_generation s \<noteq> mine then s else s\<lparr>pv_isLoading := False\<rparr>)"

definition answered :: "nat \<Rightarrow> provider \<Rightarrow> provider" where
  "answered mine s = s\<lparr>ef_flights := remove1 mine (ef_flights s), ef_settled := mine # ef_settled s\<rparr>"

datatype provider_label =
    Effect bool
  | Then nat "jsstring list"
  | Catch nat jsstring
  | Finally nat

inductive provider_step :: "provider \<Rightarrow> provider_label \<Rightarrow> provider \<Rightarrow> bool" where
  eff: "provider_step s (Effect enabled) (provider_effect enabled s)"
| fulfilled: "mine \<in> set (ef_flights s) \<Longrightarrow> provider_step s (Then mine list) (answered mine (provider_then mine list s))"
| rejected: "mine \<in> set (ef_flights s) \<Longrightarrow> provider_step s (Catch mine cause) (answered mine (provider_catch mine cause s))"
| finished: "mine \<in> set (ef_settled s) \<Longrightarrow> provider_step s (Finally mine) (provider_finally mine s)"

inductive_simps finally_step: "provider_step s (Finally mine) s'"

inductive provider_run :: "bool \<Rightarrow> provider_label list \<Rightarrow> provider \<Rightarrow> bool" for enabled where
  mounted: "provider_run enabled [] (provider_start enabled)"
| further: "provider_run enabled ls s \<Longrightarrow> provider_step s l s' \<Longrightarrow> provider_run enabled (ls @ [l]) s'"

section \<open>Lemmas\<close>

lemma lower_text [simp]:
  "toLowerCase (action_text a) = action_text a" "toLowerCase (resource_text r) = resource_text r"
  by (cases a; simp add: toLowerCase_def js_def lower_unit_def)
    (cases r; simp add: toLowerCase_def js_def lower_unit_def)

lemma list_all_RESOURCES: "list_all P RESOURCES \<Longrightarrow> P r"
  by (cases r) (simp_all add: RESOURCES_def)

lemma list_all_ACTIONS: "list_all P ACTIONS \<Longrightarrow> P a"
  by (cases a) (simp_all add: ACTIONS_def)

lemma splitPermission_permission [simp]: "splitPermission (permission r a) = Some (r, a)"
proof -
  have "list_all (\<lambda>r. list_all (\<lambda>a. splitPermission (permission r a) = Some (r, a)) ACTIONS) RESOURCES"
    by code_simp
  then show ?thesis using list_all_RESOURCES list_all_ACTIONS by blast
qed

lemma permission_inject [simp]: "permission r a = permission r' a' \<longleftrightarrow> r = r' \<and> a = a'"
  by (metis Pair_inject option.inject splitPermission_permission)

lemma set_add_set [simp]: "set (set_add x xs) = insert x (set xs)"
  by (auto simp: set_add_def)

lemma set_add_distinct [simp]: "distinct (set_add x xs) \<longleftrightarrow> distinct xs"
  by (simp add: set_add_def)

text \<open>The pairs a list of texts names, and the reads they imply.\<close>

definition named :: "jsstring list \<Rightarrow> (resource \<times> action) set" where
  "named raws = {p. \<exists>raw\<in>set raws. splitPermission raw = Some p}"

definition implied :: "(resource \<times> action) set \<Rightarrow> (resource \<times> action) set" where
  "implied P = {(r, Read) | r a. (r, a) \<in> P \<and> a \<noteq> Read}"

definition texts_of :: "(resource \<times> action) set \<Rightarrow> jsstring set" where
  "texts_of P = (\<lambda>(r, a). permission r a) ` P"

lemma named_simps [simp]:
  "named [] = {}"
  "named (raw # raws) = (case splitPermission raw of None \<Rightarrow> named raws | Some p \<Rightarrow> insert p (named raws))"
  by (auto simp: named_def split: option.splits)

lemma implied_simps [simp]:
  "implied (P \<union> Q) = implied P \<union> implied Q" "implied {} = {}"
  "implied (insert (r, a) P) = (if a = Read then implied P else insert (r, Read) (implied P))"
  by (auto simp: implied_def)

lemma texts_of_simps [simp]:
  "texts_of (P \<union> Q) = texts_of P \<union> texts_of Q" "texts_of {} = {}"
  "texts_of (insert (r, a) P) = insert (permission r a) (texts_of P)"
  by (auto simp: texts_of_def)

lemma texts_of_iff [simp]: "permission r a \<in> texts_of P \<longleftrightarrow> (r, a) \<in> P"
  by (auto simp: texts_of_def)

lemma expand_onto_set:
  "set (expand_onto out raws) = set out \<union> texts_of (named raws) \<union> texts_of (implied (named raws))
   \<and> (distinct (expand_onto out raws) \<longleftrightarrow> distinct out)"
proof (induction raws arbitrary: out)
  case (Cons raw raws)
  show ?case
  proof (cases "splitPermission raw")
    case (Some p)
    obtain r a where "p = (r, a)" by force
    with Some show ?thesis
      by (cases "a = Read") (simp_all add: Cons.IH isWrite_def Let_def Un_ac insert_commute)
  qed (simp add: Cons.IH)
qed simp

lemma expand_set: "set (expand raws) = texts_of (named raws \<union> implied (named raws))"
  and expand_distinct: "distinct (expand raws)"
  using expand_onto_set [of "[]" raws] by (simp_all add: expand_def)

lemma held_and_wanted_set:
  "set (fst (held_and_wanted (h, w) raws)) = set h \<union> texts_of (named raws)
   \<and> set (snd (held_and_wanted (h, w) raws)) = set w \<union> texts_of (implied (named raws))
   \<and> (distinct w \<longrightarrow> distinct (snd (held_and_wanted (h, w) raws)))"
proof (induction raws arbitrary: h w)
  case (Cons raw raws)
  show ?case
  proof (cases "splitPermission raw")
    case (Some p)
    obtain r a where "p = (r, a)" by force
    with Some show ?thesis
      by (cases "a = Read") (simp_all add: Cons.IH isWrite_def)
  qed (simp add: Cons.IH)
qed simp

lemma sort_texts_sort: "sort_texts xs = sort xs"
  by (simp add: sort_texts_def sort_key_def)

lemma missingReads_set:
  "set (missingReads raws) = texts_of (implied (named raws) - named raws)"
  "sorted (missingReads raws) \<and> distinct (missingReads raws)"
proof -
  have diff: "texts_of P - texts_of Q = texts_of (P - Q)" for P Q
    by (auto simp: texts_of_def)
  obtain h w where acc: "held_and_wanted ([], []) raws = (h, w)" by force
  have sets: "set h = texts_of (named raws)" "set w = texts_of (implied (named raws))" "distinct w"
    using held_and_wanted_set [of "[]" "[]" raws] by (simp_all add: acc)
  have "set (filter (\<lambda>read. read \<notin> set h) w) = set w - set h" by auto
  then show "set (missingReads raws) = texts_of (implied (named raws) - named raws)"
    by (simp add: missingReads_def sort_texts_sort acc sets diff)
  show "sorted (missingReads raws) \<and> distinct (missingReads raws)"
    using sets(3) by (simp add: missingReads_def sort_texts_sort acc)
qed

lemma named_texts: "set raws = texts_of P \<Longrightarrow> named raws = P"
  by (force simp: named_def texts_of_def)

lemma named_expand: "named (expand raws) = named raws \<union> implied (named raws)"
  by (rule named_texts) (simp only: expand_set)

lemma implied_idem [simp]: "implied (implied P) = {}"
  by (auto simp: implied_def)

lemma has_iff: "has (new_PermissionSet raws) v \<longleftrightarrow>
    (\<exists>p. splitPermission v = Some p \<and> p \<in> named raws \<union> implied (named raws))"
  unfolding has_def can_def new_PermissionSet_def
  by (auto simp: expand_set simp del: texts_of_simps split: option.splits)

subsection \<open>Provider\<close>

text \<open>What may be shown: nothing, or an answer to the fetch of the current generation.\<close>

definition shown_ok :: "provider_label list \<Rightarrow> provider \<Rightarrow> bool" where
  "shown_ok ls s \<longleftrightarrow> pv_permissions s = NO_PERMISSIONS
     \<or> (\<exists>list. Then (ef_generation s) list \<in> set ls \<and> pv_permissions s = new_PermissionSet list)"

definition provider_inv :: "provider_label list \<Rightarrow> provider \<Rightarrow> bool" where
  "provider_inv ls s \<longleftrightarrow>
     (pv_isLoading s \<or> shown_ok ls s) \<and> (ef_generation s \<in> set (ef_settled s) \<longrightarrow> shown_ok ls s)
     \<and> (\<forall>g\<in>set (ef_settled s) \<union> set (ef_flights s). g \<le> ef_generation s)
     \<and> (\<forall>g\<in>set (ef_aborted s). g < ef_generation s)"

lemma provider_inv_start: "provider_inv [] (provider_start enabled)"
  by (simp add: provider_inv_def provider_start_def shown_ok_def)

lemma shown_ok_more: "shown_ok ls s \<Longrightarrow> shown_ok (ls @ [l]) s"
  by (auto simp: shown_ok_def)

lemma shown_ok_cong:
  "pv_permissions s' = pv_permissions s \<Longrightarrow> ef_generation s' = ef_generation s \<Longrightarrow> shown_ok ls s' = shown_ok ls s"
  by (simp add: shown_ok_def)

lemma provider_inv_answered:
  assumes inv: "provider_inv ls s" and flight: "mine \<in> set (ef_flights s)"
    and same: "ef_generation s1 = ef_generation s" "ef_flights s1 = ef_flights s"
      "ef_aborted s1 = ef_aborted s" "ef_settled s1 = ef_settled s" "pv_isLoading s1 = pv_isLoading s"
    and other: "mine \<noteq> ef_generation s \<Longrightarrow> pv_permissions s1 = pv_permissions s"
    and own: "mine = ef_generation s \<Longrightarrow> shown_ok (ls @ [l]) s1"
  shows "provider_inv (ls @ [l]) (answered mine s1)"
proof -
  have shown: "shown_ok (ls @ [l]) (answered mine s1) = shown_ok (ls @ [l]) s1"
    by (rule shown_ok_cong) (simp_all add: answered_def)
  have kept: "shown_ok (ls @ [l]) s1" if "shown_ok ls s"
  proof (cases "mine = ef_generation s")
    case False
    have "shown_ok (ls @ [l]) s1 = shown_ok (ls @ [l]) s"
      by (rule shown_ok_cong) (simp_all add: other [OF False] same(1))
    then show ?thesis using shown_ok_more [OF that] by simp
  qed (rule own)
  have bounds: "g \<le> ef_generation s" if "g \<in> set (remove1 mine (ef_flights s))" for g
    using that inv by (auto simp: provider_inv_def dest: notin_set_remove1 intro: set_remove1_subset [THEN subsetD])
  show ?thesis
    using inv flight kept own bounds
    unfolding provider_inv_def shown by (auto simp: answered_def same)
qed

lemma provider_inv_step:
  assumes "provider_step s l s'" and inv: "provider_inv ls s"
  shows "provider_inv (ls @ [l]) s'"
  using assms(1)
proof cases
  case (eff enabled)
  then show ?thesis
    using inv by (force simp: provider_inv_def provider_effect_def shown_ok_def Let_def)
next
  case (fulfilled mine list)
  show ?thesis
    unfolding fulfilled(1,2)
    by (rule provider_inv_answered [OF inv fulfilled(3)])
      (auto simp: provider_then_def shown_ok_def)
next
  case (rejected mine cause)
  have "mine \<notin> set (ef_aborted s)" if "mine = ef_generation s"
    using inv that by (auto simp: provider_inv_def)
  then show ?thesis
    unfolding rejected(1,2)
    by (intro provider_inv_answered [OF inv rejected(3)])
      (auto simp: provider_catch_def shown_ok_def)
next
  case (finished mine)
  then show ?thesis
    using inv by (auto simp: provider_inv_def provider_finally_def shown_ok_def)
qed

lemma provider_run_inv: "provider_run enabled ls s \<Longrightarrow> provider_inv ls s"
  by (induction rule: provider_run.induct) (auto intro: provider_inv_start provider_inv_step)

section \<open>Properties\<close>

text \<open>\<open>expand\<close> closes a set of permissions under the read that every write implies, and nothing
  else: its members are the permissions named and the implied reads, each once; expanding again adds
  nothing; \<open>missingReads\<close> are exactly the members it adds, sorted, and an expanded set misses none.\<close>

theorem expand_is_read_closure:
  "(permission r a \<in> set (expand raws) \<longleftrightarrow>
      (r, a) \<in> named raws \<or> a = Read \<and> (\<exists>w. isWrite w \<and> (r, w) \<in> named raws))
   \<and> set (expand (expand raws)) = set (expand raws) \<and> distinct (expand raws)
   \<and> set (expand raws) = texts_of (named raws) \<union> set (missingReads raws)
   \<and> texts_of (named raws) \<inter> set (missingReads raws) = {}
   \<and> sorted (missingReads raws) \<and> missingReads (expand raws) = []"
proof -
  have "permission r a \<in> set (expand raws) \<longleftrightarrow>
     (r, a) \<in> named raws \<or> a = Read \<and> (\<exists>w. isWrite w \<and> (r, w) \<in> named raws)"
    by (auto simp: expand_set implied_def isWrite_def simp del: texts_of_simps)
  moreover have "set (expand (expand raws)) = set (expand raws) \<and> distinct (expand raws)"
    by (simp add: expand_set expand_distinct named_expand Un_ac)
  moreover have "missingReads (expand raws) = []"
    using missingReads_set(1) [of "expand raws"]
    by (simp add: named_expand Un_commute Diff_triv texts_of_def Diff_eq_empty_iff [THEN iffD2])
  moreover have "set (expand raws) = texts_of (named raws) \<union> set (missingReads raws)"
    and "texts_of (named raws) \<inter> set (missingReads raws) = {}" and "sorted (missingReads raws)"
    using missingReads_set [of raws] by (auto simp: expand_set texts_of_def)
  ultimately show ?thesis by blast
qed

text \<open>Whoever may change a resource may see it, more permissions never hide an entry, every visible
  entry is one whose requirements are held, and the landing route is the path of such an entry, or the
  fallback when there is none.\<close>

theorem navigation_shows_what_is_held:
  "(can (new_PermissionSet raws) r a \<longrightarrow> canRead (new_PermissionSet raws) r)
   \<and> (item \<in> set (visibleNav items (new_PermissionSet raws)) \<longleftrightarrow> item \<in> set items
       \<and> (\<forall>required\<in>set (case nav_requires item of None \<Rightarrow> [] | Some rs \<Rightarrow> rs). has (new_PermissionSet raws) required))
   \<and> (set raws \<subseteq> set larger \<longrightarrow>
       set (visibleNav items (new_PermissionSet raws)) \<subseteq> set (visibleNav items (new_PermissionSet larger)))
   \<and> firstVisiblePath items p fallback = hd (map nav_path (visibleNav items p) @ [fallback])"
proof -
  have "can (new_PermissionSet raws) r a \<longrightarrow> canRead (new_PermissionSet raws) r"
    by (cases a) (auto simp: can_def canRead_def new_PermissionSet_def expand_set implied_def
        simp del: texts_of_simps)
  moreover have vis: "item \<in> set (visibleNav items p) \<longleftrightarrow> item \<in> set items
     \<and> (\<forall>required\<in>set (case nav_requires item of None \<Rightarrow> [] | Some rs \<Rightarrow> rs). has p required)" for item p
    by (auto simp: visibleNav_def hasAll_def list_all_iff split: option.splits)
  moreover have "has (new_PermissionSet larger) v"
    if "set raws \<subseteq> set larger" "has (new_PermissionSet raws) v" for v
    using that by (fastforce simp: has_iff named_def implied_def)
  then have "set raws \<subseteq> set larger \<longrightarrow>
     set (visibleNav items (new_PermissionSet raws)) \<subseteq> set (visibleNav items (new_PermissionSet larger))"
    by (auto simp: vis)
  moreover have "firstVisiblePath items p fallback = hd (map nav_path (visibleNav items p) @ [fallback])"
    by (simp add: firstVisiblePath_def split: list.split)
  ultimately show ?thesis by blast
qed

text \<open>C23: in every order in which fetches, refreshes, sign-outs and account switches interleave, a guard
  renders its children only with permissions that the fetch of the current generation was answered: an
  answer for an earlier user or an earlier refresh is never shown, and after a failure nothing is.\<close>

theorem guards_never_use_stale_permissions:
  assumes "provider_run enabled ls s" and "guard_renders (permissions_value.truncate s) required = ShowChildren"
    and "required \<noteq> []"
  shows "\<exists>list. Then (ef_generation s) list \<in> set ls \<and> (\<forall>v\<in>set required. has (new_PermissionSet list) v)"
proof -
  have idle: "\<not> pv_isLoading s" and held: "hasAll (pv_permissions s) required"
    using assms(2) by (simp_all add: guard_renders_def permissions_value.truncate_def split: if_splits)
  have "pv_permissions s \<noteq> NO_PERMISSIONS"
    using held assms(3)
    by (cases required) (auto simp: hasAll_def NO_PERMISSIONS_def has_iff)
  then show ?thesis
    using provider_run_inv [OF assms(1)] idle held
    by (auto simp: provider_inv_def shown_ok_def hasAll_def list_all_iff)
qed

lemma navigation_shows_what_is_held_witness:
  "canRead (new_PermissionSet [js ''finance:update'']) Finance
   \<and> \<lparr>nav_requires = Some [js ''finance:read''], nav_path = js ''/finance''\<rparr>
     \<in> set (visibleNav [\<lparr>nav_requires = Some [js ''finance:read''], nav_path = js ''/finance''\<rparr>]
         (new_PermissionSet [js ''finance:update'', js ''member:read'']))"
proof -
  let ?item = "\<lparr>nav_requires = Some [js ''finance:read''], nav_path = js ''/finance''\<rparr> :: nav_item"
  have "can (new_PermissionSet [js ''finance:update'']) Finance Update"
    and "visibleNav [?item] (new_PermissionSet [js ''finance:update'']) = [?item]"
    by code_simp+
  then show ?thesis
    using navigation_shows_what_is_held [of "[js ''finance:update'']" Finance Update ?item "[?item]"
        "[js ''finance:update'', js ''member:read'']" NO_PERMISSIONS "[]"] by auto
qed

lemma expand_is_read_closure_example:
  "expand [js '' Member:Update'', js ''finance'', js ''event:read''] =
     [js ''member:update'', js ''member:read'', js ''event:read'']"
  by code_simp

lemma guards_never_use_stale_permissions_witness:
  "\<exists>s. provider_run True [Effect True, Then 1 [js ''member:update''], Finally 1] s
     \<and> (\<exists>list. Then (ef_generation s) list \<in> set [Effect True, Then 1 [js ''member:update''], Finally 1]
          \<and> (\<forall>v\<in>set [js ''member:read'']. has (new_PermissionSet list) v))"
proof -
  let ?s1 = "provider_effect True (provider_start True)"
  let ?s2 = "answered 1 (provider_then 1 [js ''member:update''] ?s1)"
  let ?s3 = "provider_finally 1 ?s2"
  have "provider_run True (([] @ [Effect True]) @ [Then 1 [js ''member:update'']]) ?s2"
    by (rule provider_run.further [OF provider_run.further [OF provider_run.mounted]],
        rule provider_step.eff, rule provider_step.fulfilled)
      (simp add: provider_effect_def provider_start_def Let_def)
  then have run: "provider_run True [Effect True, Then 1 [js ''member:update''], Finally 1] ?s3"
    using provider_run.further [of True "[Effect True, Then 1 [js ''member:update'']]" ?s2 "Finally 1" ?s3]
    by (simp add: finally_step answered_def)
  have "guard_renders (permissions_value.truncate ?s3) [js ''member:read''] = ShowChildren"
    by code_simp
  then show ?thesis
    using guards_never_use_stale_permissions [OF run] run by blast
qed

end
