(* ===== verification/ApiServer.thy ===== *)
theory ApiServer
  imports AuthIdentity
begin

text \<open>
  The ground of the TypeScript API under \<open>apps/api/src\<close>: errors and the error handler, the
  authentication and validation middleware, and the monad its services run in. A service runs on a
  repository state \<open>'db\<close>, which it hands to the repository ports and gets back; the repositories
  themselves (MongoDB) are records of functions, arguments of the definitions that call them. What
  \<open>jsonwebtoken\<close> does is the record \<open>jwt\<close>.
\<close>

section \<open>Errors\<close>

datatype api_error =
    AppError nat jsstring "jsstring list option"
  | OtherError jsstring

abbreviation app_error :: "nat \<Rightarrow> string \<Rightarrow> api_error" where
  "app_error status message \<equiv> AppError status (js message) None"

record http_response =
  hr_status :: nat
  hr_body :: jsval

definition failure_body :: "jsstring \<Rightarrow> jsstring list option \<Rightarrow> jsval" where
  "failure_body message errors =
     JObj [(''success'', JBool False), (''message'', JStr message),
       (''errors'', case errors of None \<Rightarrow> JUndef | Some es \<Rightarrow> JArr (map JStr es))]"

definition refusal :: "nat \<Rightarrow> string \<Rightarrow> http_response" where
  "refusal status message =
     \<lparr>hr_status = status, hr_body = JObj [(''success'', JBool False), (''message'', JStr (js message))]\<rparr>"

fun errorHandler :: "bool \<Rightarrow> api_error \<Rightarrow> http_response" where
  "errorHandler production (AppError status message errors) =
     \<lparr>hr_status = status, hr_body = failure_body message errors\<rparr>"
| "errorHandler production (OtherError message) =
     \<lparr>hr_status = 500, hr_body = JObj [(''success'', JBool False),
        (''message'', JStr (if production then js ''Internal server error'' else message))]\<rparr>"

section \<open>Services\<close>

type_synonym ('db, 'a) service = "'db \<Rightarrow> (api_error + 'a) \<times> 'db"

definition svc_return :: "'a \<Rightarrow> ('db, 'a) service" where
  "svc_return x db = (Inr x, db)"

definition svc_throw :: "api_error \<Rightarrow> ('db, 'a) service" where
  "svc_throw e db = (Inl e, db)"

definition svc_bind :: "('db, 'a) service \<Rightarrow> ('a \<Rightarrow> ('db, 'b) service) \<Rightarrow> ('db, 'b) service" where
  "svc_bind m f db = (case m db of (Inl e, db1) \<Rightarrow> (Inl e, db1) | (Inr x, db1) \<Rightarrow> f x db1)"

text \<open>A port that only reads.\<close>

definition svc_read :: "('db \<Rightarrow> 'a) \<Rightarrow> ('db, 'a) service" where
  "svc_read f db = (Inr (f db), db)"

definition svc_found :: "api_error \<Rightarrow> 'a option \<Rightarrow> ('db, 'a) service" where
  "svc_found e x = (case x of None \<Rightarrow> svc_throw e | Some y \<Rightarrow> svc_return y)"

lemma svc_simps [simp]:
  "svc_bind (svc_return x) f = f x" "svc_bind (svc_throw e) g = svc_throw e"
  "svc_bind (svc_read h) f db = f (h db) db"
  by (simp_all add: fun_eq_iff svc_bind_def svc_return_def svc_throw_def svc_read_def)

lemma svc_run [simp]:
  "svc_return x db = (Inr x, db)" "svc_throw e db = (Inl e, db)" "svc_read h db = (Inr (h db), db)"
  by (simp_all add: svc_return_def svc_throw_def svc_read_def)

lemma svc_bind_Inr:
  "svc_bind m f db = (Inr y, db') \<longleftrightarrow> (\<exists>x db1. m db = (Inr x, db1) \<and> f x db1 = (Inr y, db'))"
  by (auto simp: svc_bind_def split: prod.splits sum.splits)

lemma svc_bind_Inl:
  "svc_bind m f db = (Inl e, db') \<longleftrightarrow>
     m db = (Inl e, db') \<or> (\<exists>x db1. m db = (Inr x, db1) \<and> f x db1 = (Inl e, db'))"
  by (auto simp: svc_bind_def split: prod.splits sum.splits)

lemma svc_found_run [simp]:
  "svc_found e None db = (Inl e, db)" "svc_found e (Some x) db = (Inr x, db)"
  by (simp_all add: svc_found_def)

lemma svc_found_Inr: "svc_found e x db = (Inr y, db') \<longleftrightarrow> x = Some y \<and> db' = db"
  by (auto simp: svc_found_def split: option.splits)

lemmas svc_answers = svc_bind_Inr svc_bind_Inl svc_found_Inr

section \<open>Tokens and middleware\<close>

record auth_payload =
  ap_id :: jsstring
  ap_churchId :: jsstring
  ap_role :: jsstring

record token_claims = auth_payload +
  tc_type :: "jsstring option"

text \<open>\<open>sign claims lifetime\<close> and \<open>verify text\<close> (\<open>None\<close>: it throws) under the one secret of the
  server.\<close>

record jwt =
  jwt_sign :: "token_claims \<Rightarrow> jsstring \<Rightarrow> jsstring"
  jwt_verify :: "jsstring \<Rightarrow> token_claims option"

definition authenticate :: "jwt \<Rightarrow> jsstring option \<Rightarrow> http_response + token_claims" where
  "authenticate J header =
     (case header of
        None \<Rightarrow> Inl (refusal 401 ''Missing or invalid authorization header'')
      | Some h \<Rightarrow>
          if take 7 h \<noteq> js ''Bearer '' then Inl (refusal 401 ''Missing or invalid authorization header'')
          else case jwt_verify J (drop 7 h) of
              None \<Rightarrow> Inl (refusal 401 ''Invalid or expired token'')
            | Some payload \<Rightarrow> Inr payload)"

definition authorize :: "jsstring list \<Rightarrow> token_claims option \<Rightarrow> http_response + unit" where
  "authorize roles user =
     (case user of
        None \<Rightarrow> Inl (refusal 401 ''Not authenticated'')
      | Some u \<Rightarrow>
          if 0 < length roles \<and> ap_role u \<notin> set roles then Inl (refusal 403 ''Insufficient permissions'')
          else Inr ())"

text \<open>A schema reads a value, or fails with \<open>ZodError\<close> issues (path and message), or with another
  exception. \<open>validate\<close> answers the three parts read, a response, or hands the error on.\<close>

datatype schema_failure = ZodIssues "(jsstring list \<times> jsstring) list" | SchemaException api_error

type_synonym schema = "jsval \<Rightarrow> schema_failure + jsval"

definition run_schema :: "schema option \<Rightarrow> jsval \<Rightarrow> schema_failure + jsval" where
  "run_schema s v = (case s of None \<Rightarrow> Inr v | Some parse \<Rightarrow> parse v)"

fun join_path :: "jsstring list \<Rightarrow> jsstring" where
  "join_path [] = []"
| "join_path [p] = p"
| "join_path (p # ps) = p @ 46 # join_path ps"

definition issue_text :: "jsstring list \<times> jsstring \<Rightarrow> jsstring" where
  "issue_text i = join_path (fst i) @ js '': '' @ snd i"

definition validate ::
    "schema option \<Rightarrow> schema option \<Rightarrow> schema option \<Rightarrow> jsval \<times> jsval \<times> jsval
      \<Rightarrow> (http_response + api_error) + (jsval \<times> jsval \<times> jsval)" where
  "validate body params query req =
     (case req of (b, p, q) \<Rightarrow>
       (case and_then (run_schema body b) (\<lambda>b'.
          and_then (run_schema params p) (\<lambda>p'.
          and_then (run_schema query q) (\<lambda>q'. Inr (b', p', q')))) of
          Inr r \<Rightarrow> Inr r
        | Inl (ZodIssues issues) \<Rightarrow>
            Inl (Inl \<lparr>hr_status = 400,
              hr_body = failure_body (js ''Validation failed'') (Some (map issue_text issues))\<rparr>)
        | Inl (SchemaException e) \<Rightarrow> Inl (Inr e)))"

section \<open>Pages\<close>

text \<open>\<open>Number(q) || d\<close> for a query that was absent or coerced to a number (an integer when the route
  validated it), and the \<open>pagination\<close> object of a listing. \<open>Math.ceil(total / limit)\<close> is exact for
  counts below \<open>2^53\<close>.\<close>

definition number_or :: "int option \<Rightarrow> int \<Rightarrow> int" where
  "number_or q d = (case q of None \<Rightarrow> d | Some n \<Rightarrow> if n = 0 then d else n)"

record page_meta =
  pm_page :: int
  pm_limit :: int
  pm_total :: int
  pm_totalPages :: int

definition page_meta_of :: "int option \<Rightarrow> int option \<Rightarrow> int \<Rightarrow> page_meta" where
  "page_meta_of page limit count =
     (let p = number_or page 1; l = number_or limit 20
      in \<lparr>pm_page = p, pm_limit = l, pm_total = count, pm_totalPages = - ((- count) div l)\<rparr>)"

text \<open>The window a repository asks the database for: \<open>skip\<close> and \<open>limit\<close>.\<close>

definition page_window :: "int option \<Rightarrow> int option \<Rightarrow> int \<times> int" where
  "page_window page limit =
     (let p = number_or page 1; l = number_or limit 20 in ((p - 1) * l, l))"

definition window :: "int \<times> int \<Rightarrow> 'a list \<Rightarrow> 'a list" where
  "window w xs = take (nat (snd w)) (drop (nat (fst w)) xs)"

definition send_ok :: "nat \<Rightarrow> jsval \<Rightarrow> string option \<Rightarrow> http_response" where
  "send_ok status data message =
     \<lparr>hr_status = status, hr_body = JObj ([(''success'', JBool True), (''data'', data)]
        @ (case message of None \<Rightarrow> [] | Some m \<Rightarrow> [(''message'', JStr (js m))]))\<rparr>"

lemma ceiling_as_div: "\<lceil>(of_int n :: rat) / of_int l\<rceil> = - ((- n) div l)"
proof -
  have "- ((of_int n :: rat) / of_int l) = of_int (- n) / of_int l" by simp
  then show ?thesis unfolding ceiling_def by (simp only: floor_divide_of_int_eq)
qed

text \<open>The windows of the pages 1 to \<open>totalPages\<close> are the whole listing, in order.\<close>

lemma windows_cover:
  assumes "0 < l" and "length xs \<le> k * nat l"
  shows "concat (map (\<lambda>i. window (int i * l, l) xs) [0..<k]) = xs"
proof -
  have "concat (map (\<lambda>i. take m (drop (i * m) xs)) [0..<k]) = take (k * m) xs" for m
  proof (induction k)
    case (Suc k)
    have "take (Suc k * m) xs = take (k * m) xs @ take m (drop (k * m) xs)"
      using take_add [of "k * m" m xs] by (simp add: add.commute)
    with Suc show ?case by simp
  qed simp
  moreover have "window (int i * l, l) xs = take (nat l) (drop (i * nat l) xs)" for i
    using assms(1) by (simp add: window_def nat_mult_distrib)
  ultimately show ?thesis using assms(2) by simp
qed

text \<open>The numbers a listing reports fit the windows it reads. For every limit the routes let
  through (positive) and every listing, reading the pages 1 to \<open>totalPages\<close> one after the other gives every
  entry once, in the order of the listing; \<open>totalPages\<close> is the quotient rounded up, and a page beyond it
  is empty.\<close>

theorem pages_cover_listing:
  assumes "0 < number_or limit 20"
  shows "concat (map (\<lambda>p. window (page_window (Some (int p)) limit) xs)
      [1..<Suc (nat (pm_totalPages (page_meta_of page limit (int (length xs)))))]) = xs
    \<and> pm_totalPages (page_meta_of page limit (int (length xs)))
      = \<lceil>(of_int (int (length xs)) :: rat) / of_int (number_or limit 20)\<rceil>
    \<and> (\<forall>p. pm_totalPages (page_meta_of page limit (int (length xs))) < p \<and> 0 < p
        \<longrightarrow> window (page_window (Some p) limit) xs = [])"
proof -
  let ?l = "number_or limit 20"
  let ?k = "pm_totalPages (page_meta_of page limit (int (length xs)))"
  have k: "?k = \<lceil>(of_int (int (length xs)) :: rat) / of_int ?l\<rceil>"
    unfolding ceiling_as_div by (simp add: page_meta_of_def Let_def)
  have "0 \<le> ?k" using assms unfolding k by (simp add: zero_le_ceiling less_le_trans [of _ 0])
  have "(of_int (int (length xs)) :: rat) / of_int ?l \<le> of_int ?k" unfolding k by (rule le_of_int_ceiling)
  then have "(of_int (int (length xs)) :: rat) \<le> of_int (?k * ?l)"
    using assms by (simp add: field_simps)
  then have size: "int (length xs) \<le> ?k * ?l" by (simp only: of_int_le_iff)
  have "concat (map (\<lambda>p. window (page_window (Some (int p)) limit) xs) [1..<Suc (nat ?k)])
      = concat (map (\<lambda>i. window (int i * ?l, ?l) xs) [0..<nat ?k])"
    by (simp add: map_Suc_upt [symmetric] page_window_def number_or_def [of "Some _"] Let_def o_def
        del: upt_Suc)
  also have "\<dots> = xs"
    using size assms \<open>0 \<le> ?k\<close> by (intro windows_cover) (simp_all add: nat_mult_distrib [symmetric] le_nat_iff)
  finally have cover: "concat (map (\<lambda>p. window (page_window (Some (int p)) limit) xs) [1..<Suc (nat ?k)]) = xs" .
  have "window (page_window (Some p) limit) xs = []" if "?k < p" "0 < p" for p
  proof -
    have "?k * ?l \<le> (p - 1) * ?l" using that assms by (intro mult_right_mono) simp_all
    then have "length xs \<le> nat ((p - 1) * ?l)" using size by linarith
    then show ?thesis using that by (simp add: window_def page_window_def number_or_def [of "Some p"] Let_def)
  qed
  with cover k show ?thesis by blast
qed

lemma pages_cover_listing_witness:
  "concat (map (\<lambda>p. window (page_window (Some (int p)) (Some 2)) [10, 11, 12 :: nat])
      [1..<Suc (nat (pm_totalPages (page_meta_of None (Some 2) (int (length [10, 11, 12 :: nat])))))])
    = [10, 11, 12]"
  by (rule pages_cover_listing [THEN conjunct1]) (simp add: number_or_def)

end
