(* ===== verification/ApiChurches.thy ===== *)
theory ApiChurches
  imports ApiServer AuthService
begin

text \<open>
  Churches in the TypeScript API: the reserved subdomains of
  \<open>packages/shared-types/src/reserved-slugs.ts\<close>, and the service of
  \<open>apps/api/src/domain/church/application/church.service.ts\<close> with the pages its adapter asks the
  database for. The repository port is the record \<open>church_repo\<close>; its reads cannot fail here, its other
  operations can.
\<close>

section \<open>Reserved slugs\<close>

definition RESERVED_SLUGS :: "jsstring list" where
  "RESERVED_SLUGS = map js
     [''admin'', ''api'', ''app'', ''assets'', ''auth'', ''blog'', ''cdn'', ''checkout'', ''dashboard'',
      ''dev'', ''docs'', ''ftp'', ''help'', ''internal'', ''login'', ''mail'', ''my'', ''pay'', ''secure'',
      ''smtp'', ''staging'', ''static'', ''status'', ''support'', ''test'', ''www'',
      ''abuse'', ''administrator'', ''hostmaster'', ''postmaster'', ''root'', ''ssl'', ''sysadmin'',
      ''webmaster'',
      ''account'', ''accounts'', ''billing'', ''cms'', ''console'', ''email'', ''events'', ''files'',
      ''give'', ''giving'', ''graphql'', ''img'', ''media'', ''metrics'', ''mobile'', ''ns1'', ''ns2'',
      ''portal'', ''public'', ''sms'', ''sso'', ''track'', ''web'', ''webhook'', ''webhooks'']"

definition isReservedSlug :: "jsstring \<Rightarrow> bool" where
  "isReservedSlug slug \<longleftrightarrow> toLowerCase (trim slug) \<in> set RESERVED_SLUGS"

section \<open>Slugs\<close>

text \<open>\<open>replace(/[^a-z0-9]+/g, "-")\<close>; \<open>in_run\<close>: the unit before was replaced too.\<close>

fun dash_runs :: "bool \<Rightarrow> jsstring \<Rightarrow> jsstring" where
  "dash_runs in_run [] = []"
| "dash_runs in_run (c # cs) =
     (if slug_unit c then c # dash_runs False cs
      else if in_run then dash_runs True cs else 45 # dash_runs True cs)"

text \<open>\<open>replace(/^-|-$/g, "")\<close>: one dash at each end.\<close>

definition strip_end_dash :: "jsstring \<Rightarrow> jsstring" where
  "strip_end_dash s = (if s \<noteq> [] \<and> last s = 45 then butlast s else s)"

definition strip_end_dashes :: "jsstring \<Rightarrow> jsstring" where
  "strip_end_dashes s = strip_end_dash (if s \<noteq> [] \<and> hd s = 45 then tl s else s)"

definition generateSlug :: "jsstring \<Rightarrow> jsstring" where
  "generateSlug name = strip_end_dashes (dash_runs False (toLowerCase name))"

text \<open>\<open>assertUsableSlug\<close>.\<close>

definition assertUsableSlug :: "jsstring \<Rightarrow> api_error + unit" where
  "assertUsableSlug slug =
     (if length slug < 3 \<or> 63 < length slug
      then Inl (app_error 400 ''That church name is too short or too long to use as a web address'')
      else if isReservedSlug slug
        then Inl (app_error 409 ''That name is reserved by the platform. Please choose another.'')
      else Inr ())"

section \<open>Church service\<close>

record church_data =
  cd_name :: jsstring
  cd_slug :: jsstring
  cd_address :: jsstring
  cd_city :: jsstring
  cd_country :: jsstring
  cd_phone :: jsstring
  cd_email :: jsstring
  cd_timezone :: jsstring
  cd_currency :: jsstring
  cd_requestedPlan :: "jsstring option"
  cd_optional :: "(string \<times> jsval) list"

record church = church_data +
  cr_id :: jsstring

record church_update =
  cu_name :: "jsstring option"
  cu_slug :: "jsstring option"
  cu_other :: "(string \<times> jsval) list"

record page_query =
  pq_page :: "int option"
  pq_limit :: "int option"
  pq_sortBy :: "jsstring option"
  pq_sortOrder :: "jsstring option"

record 'db church_repo =
  ch_findById :: "jsstring \<Rightarrow> 'db \<Rightarrow> church option"
  ch_findBySlug :: "jsstring \<Rightarrow> 'db \<Rightarrow> church option"
  ch_findAll :: "page_query \<Rightarrow> 'db \<Rightarrow> church list \<times> int"
  ch_create :: "church_data \<Rightarrow> ('db, church) service"
  ch_update :: "jsstring \<Rightarrow> church_update \<Rightarrow> ('db, church option) service"
  ch_delete :: "jsstring \<Rightarrow> ('db, bool) service"

definition church_not_found :: api_error where
  "church_not_found = app_error 404 ''Church not found''"

definition church_create :: "'db church_repo \<Rightarrow> church_data \<Rightarrow> ('db, church) service" where
  "church_create R data =
     (let slug = generateSlug (cd_name data) in
      case assertUsableSlug slug of
        Inl e \<Rightarrow> svc_throw e
      | Inr _ \<Rightarrow>
          svc_bind (svc_read (ch_findBySlug R slug)) (\<lambda>existing.
            if existing \<noteq> None then svc_throw (app_error 409 ''A church with this name already exists'')
            else ch_create R (data\<lparr>cd_slug := slug\<rparr>)))"

definition church_getById :: "'db church_repo \<Rightarrow> jsstring \<Rightarrow> ('db, church) service" where
  "church_getById R ident = svc_bind (svc_read (ch_findById R ident)) (svc_found church_not_found)"

definition church_getBySlug :: "'db church_repo \<Rightarrow> jsstring \<Rightarrow> ('db, church) service" where
  "church_getBySlug R slug = svc_bind (svc_read (ch_findBySlug R slug)) (svc_found church_not_found)"

definition church_getAll :: "'db church_repo \<Rightarrow> page_query \<Rightarrow> ('db, church list \<times> int) service" where
  "church_getAll R q = svc_read (ch_findAll R q)"

text \<open>\<open>data.name\<close> is truthy when it is present and not empty.\<close>

definition church_update_with_slug :: "church_update \<Rightarrow> api_error + church_update" where
  "church_update_with_slug data =
     (if cu_name data = None \<or> cu_name data = Some [] then Inr data
      else let slug = generateSlug (the (cu_name data)) in
        and_then (assertUsableSlug slug) (\<lambda>_. Inr (data\<lparr>cu_slug := Some slug\<rparr>)))"

definition church_update :: "'db church_repo \<Rightarrow> jsstring \<Rightarrow> church_update \<Rightarrow> ('db, church) service" where
  "church_update R ident data =
     (case church_update_with_slug data of
        Inl e \<Rightarrow> svc_throw e
      | Inr data' \<Rightarrow> svc_bind (ch_update R ident data') (svc_found church_not_found))"

definition church_delete :: "'db church_repo \<Rightarrow> jsstring \<Rightarrow> ('db, unit) service" where
  "church_delete R ident =
     svc_bind (ch_delete R ident) (\<lambda>deleted. if deleted then svc_return () else svc_throw church_not_found)"

text \<open>What the adapter asks the database for in \<open>findAll\<close>: window, sort key and direction.\<close>

definition church_findAll_request :: "page_query \<Rightarrow> (int \<times> int) \<times> jsstring \<times> int" where
  "church_findAll_request q =
     (page_window (pq_page q) (pq_limit q),
      (case pq_sortBy q of None \<Rightarrow> js ''createdAt'' | Some b \<Rightarrow> if b = [] then js ''createdAt'' else b),
      (if pq_sortOrder q = Some (js ''desc'') then - 1 else 1))"

section \<open>Lemmas\<close>

lemma slug_unit_not_dash: "slug_unit c \<Longrightarrow> c \<noteq> 45"
  by (auto simp: slug_unit_def is_digit_def is_lower_def)

lemma strip_end_dash_Cons:
  "strip_end_dash (c # s) = (if s = [] then (if c = 45 then [] else [c]) else c # strip_end_dash s)"
  by (simp add: strip_end_dash_def)

lemma strip_end_dash_Nil [simp]: "strip_end_dash [] = []"
  by (simp add: strip_end_dash_def)

text \<open>After a slug unit the rest is a slug continuation; after a dash it is empty or starts a segment.\<close>

lemma dash_runs_slug:
  "slug_run True (strip_end_dash (dash_runs False s))
   \<and> (dash_runs True s = [] \<or> slug_run False (strip_end_dash (dash_runs True s)))"
proof (induction s)
  case (Cons c s)
  then show ?case by (auto simp: strip_end_dash_Cons dest: slug_unit_not_dash)
qed simp

lemma dash_runs_head: "dash_runs True s \<noteq> [] \<Longrightarrow> slug_unit (hd (dash_runs True s))"
  by (induction s) (auto simp: split: if_splits)

lemma strip_dashed_shape:
  "strip_end_dashes (dash_runs False s) = [] \<or> slug_shape (strip_end_dashes (dash_runs False s))"
proof (cases s)
  case Nil
  then show ?thesis by (simp add: strip_end_dashes_def)
next
  case (Cons c cs)
  show ?thesis
  proof (cases "slug_unit c")
    case True
    then show ?thesis
      using Cons dash_runs_slug [of cs] slug_unit_not_dash [OF True]
      by (simp add: strip_end_dashes_def strip_end_dash_Cons slug_shape_def)
  next
    case False
    then show ?thesis
      using Cons dash_runs_slug [of cs] by (auto simp: strip_end_dashes_def slug_shape_def)
  qed
qed

lemma generateSlug_shape: "generateSlug name = [] \<or> slug_shape (generateSlug name)"
  unfolding generateSlug_def by (rule strip_dashed_shape)

lemma slug_run_units: "slug_run b s \<Longrightarrow> c \<in> set s \<Longrightarrow> slug_unit c \<or> c = 45"
  by (induction b s rule: slug_run.induct) (auto split: if_splits)

lemma slug_shape_units: "slug_shape s \<Longrightarrow> c \<in> set s \<Longrightarrow> slug_unit c \<or> c = 45"
  by (simp add: slug_shape_def slug_run_units)

lemma slug_shape_canonical:
  assumes "slug_shape s" and "length s \<le> 80"
  shows "canonicalWorkspace (JStr s) = Some s"
proof -
  have range: "c = 45 \<or> 48 \<le> c \<and> c \<le> 57 \<or> 97 \<le> c \<and> c \<le> 122" if "c \<in> set s" for c
    using slug_shape_units [OF assms(1) that] by (auto simp: slug_unit_def is_digit_def is_lower_def)
  have unit: "lower_unit c = c" "\<not> is_space c" "\<not> is_control c" if "c \<in> set s" for c
    using range [OF that] by (auto simp: lower_unit_def is_space_def is_control_def)
  have ne: "s \<noteq> []" using assms(1) by (auto simp: slug_shape_def)
  then have "trim s = s" using unit(2) by (intro trim_fixpoint) simp
  moreover have "toLowerCase s = s" using unit(1) by (intro toLowerCase_lower_fixpoint)
  moreover have "\<not> list_ex is_control s" using unit(3) by (auto simp: list_ex_iff)
  ultimately show ?thesis using assms ne by (simp add: canonicalWorkspace_def)
qed

lemma assertUsableSlug_Inr:
  "assertUsableSlug slug = Inr u \<longleftrightarrow> 3 \<le> length slug \<and> length slug \<le> 63 \<and> \<not> isReservedSlug slug"
  by (auto simp: assertUsableSlug_def)

section \<open>Properties\<close>

text \<open>A slug a church may have: a host name label that is not the platform's, which the member app
  accepts as a workspace and as a church code.\<close>

definition usable_slug :: "jsstring \<Rightarrow> bool" where
  "usable_slug slug \<longleftrightarrow> slug_shape slug \<and> 3 \<le> length slug \<and> length slug \<le> 63
     \<and> slug \<notin> set RESERVED_SLUGS \<and> canonicalWorkspace (JStr slug) = Some slug"

lemma generated_usable:
  assumes "assertUsableSlug (generateSlug name) = Inr u"
  shows "usable_slug (generateSlug name)"
proof -
  have len: "3 \<le> length (generateSlug name)" "length (generateSlug name) \<le> 63"
    and free: "\<not> isReservedSlug (generateSlug name)"
    using assms by (simp_all add: assertUsableSlug_Inr)
  have shape: "slug_shape (generateSlug name)" using generateSlug_shape [of name] len by auto
  have canon: "canonicalWorkspace (JStr (generateSlug name)) = Some (generateSlug name)"
    using shape len by (intro slug_shape_canonical) simp_all
  then have "toLowerCase (trim (generateSlug name)) = generateSlug name"
    by (auto simp: canonicalWorkspace_def Let_def split: if_splits)
  then show ?thesis using shape len free canon by (simp add: usable_slug_def isReservedSlug_def)
qed

text \<open>C38: a church is created only under a free and usable address, and renamed only into a usable one. When \<open>create\<close>
  returns, the repository was handed the data with the slug generated from the name, which is a host name label of 3 to
  63 characters outside the platform's reserved list, which no church had, and which the member app
  reads back unchanged as a workspace; otherwise the repository is untouched unless its own \<open>create\<close>
  failed. When \<open>update\<close> returns, the repository was handed the update as it came, with the slug generated from the new
  name when there is one, which is such a label too; that no other church has it is left to the repository, which
  \<open>update\<close> does not ask. When it fails, the repository is untouched, or is as its own \<open>update\<close> left it.\<close>

theorem created_church_has_usable_address:
  "(case church_create R data db of
      (Inr church, db') \<Rightarrow>
        usable_slug (generateSlug (cd_name data)) \<and> ch_findBySlug R (generateSlug (cd_name data)) db = None
        \<and> ch_create R (data\<lparr>cd_slug := generateSlug (cd_name data)\<rparr>) db = (Inr church, db')
    | (Inl e, db') \<Rightarrow>
        db' = db \<and> (e = app_error 400 ''That church name is too short or too long to use as a web address''
          \<or> e = app_error 409 ''That name is reserved by the platform. Please choose another.''
          \<or> e = app_error 409 ''A church with this name already exists'')
        \<or> ch_create R (data\<lparr>cd_slug := generateSlug (cd_name data)\<rparr>) db = (Inl e, db'))
   \<and> (let named = (cu_name upd \<noteq> None \<and> cu_name upd \<noteq> Some []);
          slug = generateSlug (the (cu_name upd));
          upd' = (if named then upd\<lparr>cu_slug := Some slug\<rparr> else upd)
      in case church_update R ident upd db of
        (Inr church, db') \<Rightarrow> (named \<longrightarrow> usable_slug slug) \<and> ch_update R ident upd' db = (Inr (Some church), db')
      | (Inl e, db') \<Rightarrow>
          named \<and> assertUsableSlug slug = Inl e \<and> db' = db
          \<or> (named \<longrightarrow> usable_slug slug) \<and> ch_update R ident upd' db \<in> {(Inl e, db'), (Inr None, db')})"
proof
  show "case church_create R data db of
      (Inr church, db') \<Rightarrow>
        usable_slug (generateSlug (cd_name data)) \<and> ch_findBySlug R (generateSlug (cd_name data)) db = None
        \<and> ch_create R (data\<lparr>cd_slug := generateSlug (cd_name data)\<rparr>) db = (Inr church, db')
    | (Inl e, db') \<Rightarrow>
        db' = db \<and> (e = app_error 400 ''That church name is too short or too long to use as a web address''
          \<or> e = app_error 409 ''That name is reserved by the platform. Please choose another.''
          \<or> e = app_error 409 ''A church with this name already exists'')
        \<or> ch_create R (data\<lparr>cd_slug := generateSlug (cd_name data)\<rparr>) db = (Inl e, db')"
  proof (cases "assertUsableSlug (generateSlug (cd_name data))")
    case (Inl e)
    then show ?thesis
      by (auto simp: church_create_def Let_def assertUsableSlug_def split: if_splits)
  next
    case (Inr u)
    from generated_usable [OF Inr] show ?thesis
      by (auto simp: church_create_def Let_def Inr split: prod.split sum.split)
  qed
  define named where "named = (cu_name upd \<noteq> None \<and> cu_name upd \<noteq> Some [])"
  define slug where "slug = generateSlug (the (cu_name upd))"
  define upd' where "upd' = (if named then upd\<lparr>cu_slug := Some slug\<rparr> else upd)"
  have "case church_update R ident upd db of
        (Inr church, db') \<Rightarrow> (named \<longrightarrow> usable_slug slug) \<and> ch_update R ident upd' db = (Inr (Some church), db')
      | (Inl e, db') \<Rightarrow>
          named \<and> assertUsableSlug slug = Inl e \<and> db' = db
          \<or> (named \<longrightarrow> usable_slug slug) \<and> ch_update R ident upd' db \<in> {(Inl e, db'), (Inr None, db')}"
  proof (cases "named \<and> isl (assertUsableSlug slug)")
    case True
    then show ?thesis
      by (auto simp: church_update_def church_update_with_slug_def named_def slug_def and_then_def isl_def Let_def)
  next
    case False
    then have ok: "named \<longrightarrow> assertUsableSlug slug = Inr ()"
      by (cases "assertUsableSlug slug") auto
    then have usable: "named \<longrightarrow> usable_slug slug"
      using generated_usable unfolding slug_def by blast
    have "church_update_with_slug upd = Inr upd'"
      using ok by (auto simp: church_update_with_slug_def named_def slug_def upd'_def and_then_def Let_def)
    with usable show ?thesis
      by (auto simp: church_update_def svc_bind_def svc_found_def church_not_found_def
          split: prod.split sum.split option.split)
  qed
  then show "let named = (cu_name upd \<noteq> None \<and> cu_name upd \<noteq> Some []);
          slug = generateSlug (the (cu_name upd));
          upd' = (if named then upd\<lparr>cu_slug := Some slug\<rparr> else upd)
      in case church_update R ident upd db of
        (Inr church, db') \<Rightarrow> (named \<longrightarrow> usable_slug slug) \<and> ch_update R ident upd' db = (Inr (Some church), db')
      | (Inl e, db') \<Rightarrow>
          named \<and> assertUsableSlug slug = Inl e \<and> db' = db
          \<or> (named \<longrightarrow> usable_slug slug) \<and> ch_update R ident upd' db \<in> {(Inl e, db'), (Inr None, db')}"
    unfolding named_def slug_def upd'_def Let_def .
qed

text \<open>A repository that keeps its churches in a list, numbered as they come.\<close>

definition list_repo :: "church list church_repo" where
  "list_repo =
     \<lparr>ch_findById = (\<lambda>i db. find (\<lambda>c. cr_id c = i) db),
      ch_findBySlug = (\<lambda>s db. find (\<lambda>c. cd_slug c = s) db),
      ch_findAll = (\<lambda>q db. (window (page_window (pq_page q) (pq_limit q)) db, int (length db))),
      ch_create = (\<lambda>d db. let c = church_data.extend d \<lparr>cr_id = [length db]\<rparr> in (Inr c, db @ [c])),
      ch_update = (\<lambda>i u db. (Inr (find (\<lambda>c. cr_id c = i) db), db)),
      ch_delete = (\<lambda>i db. (Inr (list_ex (\<lambda>c. cr_id c = i) db), filter (\<lambda>c. cr_id c \<noteq> i) db))\<rparr>"

definition sample_church_data :: church_data where
  "sample_church_data =
     \<lparr>cd_name = js ''Grace & Truth Chapel!'', cd_slug = [], cd_address = [], cd_city = js ''Accra'',
      cd_country = js ''Ghana'', cd_phone = js ''+233241234567'', cd_email = js ''a@b.co'',
      cd_timezone = js ''Africa/Accra'', cd_currency = js ''GHS'', cd_requestedPlan = None, cd_optional = []\<rparr>"

lemma created_church_has_usable_address_witness:
  "\<exists>church db'. church_create list_repo sample_church_data [] = (Inr church, db')
     \<and> usable_slug (generateSlug (cd_name sample_church_data))
     \<and> (\<exists>c db''. church_update list_repo (cr_id church)
          \<lparr>cu_name = Some (js ''Hope Chapel''), cu_slug = None, cu_other = []\<rparr> db' = (Inr c, db''))
     \<and> usable_slug (js ''hope-chapel'')"
proof -
  let ?upd = "\<lparr>cu_name = Some (js ''Hope Chapel''), cu_slug = None, cu_other = []\<rparr>"
  let ?run = "church_create list_repo sample_church_data []"
  obtain church db' where run: "?run = (Inr church, db')"
    and renamed: "\<not> isl (fst (church_update list_repo (cr_id church) ?upd db'))"
  proof -
    have "case ?run of (Inr c, d) \<Rightarrow> \<not> isl (fst (church_update list_repo (cr_id c) ?upd d)) | _ \<Rightarrow> False"
      by code_simp
    then show ?thesis using that by (auto split: prod.splits sum.splits)
  qed
  obtain c db'' where upd: "church_update list_repo (cr_id church) ?upd db' = (Inr c, db'')"
    using renamed by (metis prod.exhaust_sel sum.collapse(2))
  have slug: "generateSlug (js ''Hope Chapel'') = js ''hope-chapel''" by code_simp
  have "usable_slug (generateSlug (cd_name sample_church_data))"
    using created_church_has_usable_address [where R = list_repo and data = sample_church_data and db = "[]"] run by simp
  moreover have "usable_slug (js ''hope-chapel'')"
    using created_church_has_usable_address [where R = list_repo and ident = "cr_id church" and upd = ?upd and db = db',
        THEN conjunct2] upd slug by (simp add: Let_def)
  ultimately show ?thesis using run upd by blast
qed

end
