(* ===== verification/ApiAccounts.thy ===== *)
theory ApiAccounts
  imports ApiChurches
begin

text \<open>
  Accounts in the TypeScript API: \<open>apps/api/src/domain/auth/application/auth.service.ts\<close> and the
  lookup of one credential of its adapter. \<open>bcrypt\<close> is the record \<open>crypt\<close>, \<open>normalize("NFKD")\<close> the
  argument \<open>nfkd\<close>; the two repositories share the database state, and their lookups of one document cannot fail
  here except \<open>au_findById\<close>. \<open>jwt_verify\<close> is the answer at the time of the call, so a token may have expired.
\<close>

section \<open>Accounts\<close>

record account =
  ac_id :: jsstring
  ac_churchId :: jsstring
  ac_email :: jsstring
  ac_phone :: jsstring
  ac_name :: jsstring
  ac_role :: jsstring
  ac_isActive :: bool

record hashed_account = account +
  ac_passwordHash :: jsstring

record create_user =
  cu_email :: jsstring
  cu_phone :: jsstring
  cu_userName :: jsstring
  cu_passwordHash :: jsstring
  cu_churchId :: jsstring
  cu_role :: "jsstring option"

record 'db auth_repo =
  au_findByEmail :: "jsstring \<Rightarrow> jsstring option \<Rightarrow> 'db \<Rightarrow> hashed_account option"
  au_findByPhone :: "jsstring \<Rightarrow> jsstring option \<Rightarrow> 'db \<Rightarrow> hashed_account option"
  au_findById :: "jsstring \<Rightarrow> ('db, account option) service"
  au_create :: "create_user \<Rightarrow> ('db, account) service"

record crypt =
  cy_hash :: "jsstring \<Rightarrow> nat \<Rightarrow> jsstring"
  cy_compare :: "jsstring \<Rightarrow> jsstring \<Rightarrow> bool"

record register_data =
  rd_email :: jsstring
  rd_phone :: jsstring
  rd_name :: jsstring
  rd_password :: jsstring
  rd_churchId :: "jsstring option"
  rd_churchName :: "jsstring option"
  rd_churchCity :: "jsstring option"
  rd_churchDenomination :: "jsstring option"
  rd_averageWeeklyAttendance :: "int option"
  rd_ministryPriorities :: "jsstring list option"
  rd_requestedPlan :: "jsstring option"

record login_data =
  ld_email :: "jsstring option"
  ld_password :: "jsstring option"
  ld_method :: jsstring

type_synonym token_pair = "jsstring \<times> jsstring"

definition SALT_ROUNDS :: nat where
  "SALT_ROUNDS = 12"

definition SLUG_MAX_LENGTH :: nat where
  "SLUG_MAX_LENGTH = 60"

text \<open>\<open>replace(/^-+|-+$/g, "")\<close>.\<close>

definition strip_dashes :: "jsstring \<Rightarrow> jsstring" where
  "strip_dashes s = rev (dropWhile (\<lambda>c. c = 45) (rev (dropWhile (\<lambda>c. c = 45) s)))"

definition slugify :: "(jsstring \<Rightarrow> jsstring) \<Rightarrow> jsstring \<Rightarrow> jsstring" where
  "slugify nfkd v = take SLUG_MAX_LENGTH (strip_dashes (dash_runs False (nfkd (toLowerCase v))))"

section \<open>Operations\<close>

definition founding_church :: "register_data \<Rightarrow> jsstring \<Rightarrow> church_data" where
  "founding_church data slug =
     \<lparr>cd_name = the (rd_churchName data), cd_slug = slug, cd_address = [],
      cd_city = (case rd_churchCity data of Some c \<Rightarrow> c | None \<Rightarrow> []), cd_country = js ''Ghana'',
      cd_phone = rd_phone data, cd_email = rd_email data, cd_timezone = js ''Africa/Accra'',
      cd_currency = js ''GHS'',
      cd_requestedPlan = Some (case rd_requestedPlan data of Some p \<Rightarrow> p | None \<Rightarrow> js ''free''),
      cd_optional =
        [(''denomination'', opt_val JStr (rd_churchDenomination data)),
         (''averageWeeklyAttendance'', opt_val jint (rd_averageWeeklyAttendance data)),
         (''ministryPriorities'', opt_val (\<lambda>ps. JArr (map JStr ps)) (rd_ministryPriorities data))]\<rparr>"

definition resolveChurchId ::
    "(jsstring \<Rightarrow> jsstring) \<Rightarrow> 'db church_repo \<Rightarrow> register_data \<Rightarrow> ('db, jsstring) service" where
  "resolveChurchId nfkd R data =
     (if given (rd_churchId data)
      then svc_bind (svc_read (ch_findById R (the (rd_churchId data)))) (\<lambda>church.
        case church of
          None \<Rightarrow> svc_throw (app_error 404 ''That church could not be found'')
        | Some c \<Rightarrow> svc_return (cr_id c))
      else if \<not> given (rd_churchName data)
        then svc_throw (app_error 400 ''Provide either churchId to join a church, or churchName to create one'')
      else
        let baseSlug = slugify nfkd (the (rd_churchName data)) in
        if baseSlug = [] then svc_throw (app_error 400 ''Church name must contain letters or numbers'')
        else svc_bind (svc_read (ch_findBySlug R baseSlug)) (\<lambda>existing.
          if existing \<noteq> None
          then svc_throw (app_error 409
            ''A church with that name already exists. Ask an admin to invite you instead.'')
          else svc_bind (ch_create R (founding_church data baseSlug)) (\<lambda>c. svc_return (cr_id c))))"

definition access_claims :: "account \<Rightarrow> token_claims" where
  "access_claims user =
     \<lparr>ap_id = ac_id user, ap_churchId = ac_churchId user, ap_role = ac_role user, tc_type = None\<rparr>"

definition generateTokens :: "jwt \<Rightarrow> jsstring \<Rightarrow> account \<Rightarrow> token_pair" where
  "generateTokens J JWT_EXPIRES_IN user =
     (jwt_sign J (access_claims user) JWT_EXPIRES_IN,
      jwt_sign J ((access_claims user)\<lparr>tc_type := Some (js ''refresh'')\<rparr>) (js ''30d''))"

record 'db auth_service =
  as_auth :: "'db auth_repo"
  as_church :: "'db church_repo"
  as_jwt :: jwt
  as_crypt :: crypt
  as_nfkd :: "jsstring \<Rightarrow> jsstring"
  as_expires :: jsstring

definition duplicate_account :: "'db auth_repo \<Rightarrow> register_data \<Rightarrow> 'db \<Rightarrow> bool" where
  "duplicate_account A data db \<longleftrightarrow>
     au_findByEmail A (rd_email data) (rd_churchId data) db \<noteq> None
     \<or> au_findByPhone A (rd_phone data) (rd_churchId data) db \<noteq> None"

definition new_user :: "'db auth_service \<Rightarrow> register_data \<Rightarrow> jsstring \<Rightarrow> create_user" where
  "new_user S data churchId =
     \<lparr>cu_email = rd_email data, cu_phone = rd_phone data, cu_userName = rd_name data,
      cu_passwordHash = cy_hash (as_crypt S) (rd_password data) SALT_ROUNDS, cu_churchId = churchId,
      cu_role = (if \<not> given (rd_churchId data) \<and> given (rd_churchName data)
        then Some (js ''CHURCH_ADMIN'') else None)\<rparr>"

definition account_register :: "'db auth_service \<Rightarrow> register_data \<Rightarrow> ('db, account \<times> token_pair) service" where
  "account_register S data =
     svc_bind (svc_read (\<lambda>db. given (rd_churchId data) \<and> duplicate_account (as_auth S) data db)) (\<lambda>taken.
       if taken then svc_throw (app_error 409 ''An account with those details already exists'')
       else svc_bind (resolveChurchId (as_nfkd S) (as_church S) data) (\<lambda>churchId.
         svc_bind (au_create (as_auth S) (new_user S data churchId)) (\<lambda>user.
           svc_return (user, generateTokens (as_jwt S) (as_expires S) user))))"

definition account_login :: "'db auth_service \<Rightarrow> login_data \<Rightarrow> ('db, account \<times> token_pair) service" where
  "account_login S data =
     (if ld_method data = js ''PHONE'' then svc_throw (app_error 501 ''Phone OTP login not yet implemented'')
      else if \<not> given (ld_email data) \<or> \<not> given (ld_password data)
        then svc_throw (app_error 400 ''Email and password are required for email login'')
      else svc_bind (svc_read (au_findByEmail (as_auth S) (the (ld_email data)) None)) (\<lambda>found.
        case found of
          None \<Rightarrow> svc_throw (app_error 401 ''Invalid credentials'')
        | Some u \<Rightarrow>
            if \<not> cy_compare (as_crypt S) (the (ld_password data)) (ac_passwordHash u)
            then svc_throw (app_error 401 ''Invalid credentials'')
            else if \<not> ac_isActive u then svc_throw (app_error 403 ''Account is deactivated'')
            else let user = account.truncate u
              in svc_return (user, generateTokens (as_jwt S) (as_expires S) user)))"

definition account_verifyOtp :: "jsval \<Rightarrow> ('db, account \<times> token_pair) service" where
  "account_verifyOtp data = svc_throw (app_error 501 ''OTP verification not yet implemented'')"

text \<open>\<open>catch (error)\<close>: an \<open>AppError\<close> is thrown on, anything else becomes a 401.\<close>

definition refresh_catch :: "('db, 'a) service \<Rightarrow> ('db, 'a) service" where
  "refresh_catch m db =
     (case m db of
        (Inl (OtherError _), db1) \<Rightarrow> (Inl (app_error 401 ''Invalid or expired refresh token''), db1)
      | r \<Rightarrow> r)"

definition account_refreshToken :: "'db auth_service \<Rightarrow> jsstring \<Rightarrow> ('db, token_pair) service" where
  "account_refreshToken S token =
     refresh_catch
       (case jwt_verify (as_jwt S) token of
          None \<Rightarrow> svc_throw (OtherError (js ''jwt''))
        | Some payload \<Rightarrow>
            if tc_type payload \<noteq> Some (js ''refresh'') then svc_throw (app_error 401 ''Invalid refresh token'')
            else svc_bind (au_findById (as_auth S) (ap_id payload)) (\<lambda>user.
              case user of
                None \<Rightarrow> svc_throw (app_error 401 ''User not found'')
              | Some u \<Rightarrow> svc_return (generateTokens (as_jwt S) (as_expires S) u)))"

definition account_getCurrentUser :: "'db auth_service \<Rightarrow> jsstring \<Rightarrow> ('db, account) service" where
  "account_getCurrentUser S userId =
     svc_bind (au_findById (as_auth S) userId) (svc_found (app_error 404 ''User not found''))"

text \<open>The adapter's lookup: \<open>find_docs\<close> answers the documents that match, in the order of the database;
  \<open>in_church c u\<close> says that the church stored with \<open>u\<close> is one of the two forms (text or \<open>ObjectId\<close>) of \<open>c\<close>.\<close>

definition findOneCredential ::
    "((hashed_account \<Rightarrow> bool) \<Rightarrow> hashed_account list) \<Rightarrow> (jsstring \<Rightarrow> hashed_account \<Rightarrow> bool)
      \<Rightarrow> (hashed_account \<Rightarrow> bool) \<Rightarrow> jsstring option \<Rightarrow> hashed_account option" where
  "findOneCredential find_docs in_church criteria churchId =
     (let matches = (\<lambda>u. criteria u \<and> (given churchId \<longrightarrow> in_church (the churchId) u));
          docs = take 2 (find_docs matches)
      in if length docs \<noteq> 1 then None else Some (docs ! 0))"

section \<open>Properties\<close>

text \<open>C25: what a registration leaves. When it returns, exactly one account was created, with the hash of
  the password and the details entered: in the church asked for, which exists and had no account with
  that address or number, with no role of its own; or, for a founder, in a church just created under a
  free slug from the name given, as its administrator; and the tokens are for that account. When it
  fails, nothing changed, or what is left is what the one insertion that failed left: that of the account of
  whoever joins a church, who never creates one; that of the church of a founder; or that of the founder's
  account, and then the church just created stays without an administrator (lemma
  \<open>founder_leaves_church_behind\<close>).\<close>

theorem registration_outcome:
  "case account_register S data db of
     (Inr (user, tokens), db') \<Rightarrow>
       tokens = generateTokens (as_jwt S) (as_expires S) user
       \<and> (\<exists>church db1.
          au_create (as_auth S)
            \<lparr>cu_email = rd_email data, cu_phone = rd_phone data, cu_userName = rd_name data,
             cu_passwordHash = cy_hash (as_crypt S) (rd_password data) 12, cu_churchId = cr_id church,
             cu_role = (if given (rd_churchId data) then None else Some (js ''CHURCH_ADMIN''))\<rparr> db1
            = (Inr user, db')
          \<and> (if given (rd_churchId data)
             then db1 = db \<and> ch_findById (as_church S) (the (rd_churchId data)) db = Some church
               \<and> \<not> duplicate_account (as_auth S) data db
             else given (rd_churchName data)
               \<and> (let slug = slugify (as_nfkd S) (the (rd_churchName data)) in
                  slug \<noteq> [] \<and> ch_findBySlug (as_church S) slug db = None
                  \<and> ch_create (as_church S) (founding_church data slug) db = (Inr church, db1))))
   | (Inl e, db') \<Rightarrow>
       db' = db
       \<or> (if given (rd_churchId data)
           then \<exists>church. ch_findById (as_church S) (the (rd_churchId data)) db = Some church
             \<and> au_create (as_auth S) (new_user S data (cr_id church)) db = (Inl e, db')
           else let create = ch_create (as_church S)
               (founding_church data (slugify (as_nfkd S) (the (rd_churchName data)))) db
             in create = (Inl e, db')
               \<or> (\<exists>church db1. create = (Inr church, db1)
                    \<and> au_create (as_auth S) (new_user S data (cr_id church)) db1 = (Inl e, db')))"
proof (cases "account_register S data db")
  case (Pair r db')
  show ?thesis
  proof (cases r)
    case (Inl e)
    then show ?thesis
      using Pair
      by (fastforce simp: account_register_def resolveChurchId_def svc_answers Let_def
          split: if_splits option.splits)
  next
    case (Inr ut)
    then show ?thesis
      using Pair
      by (cases ut) (fastforce simp: account_register_def resolveChurchId_def svc_answers new_user_def
          SALT_ROUNDS_def Let_def split: if_splits option.splits)
  qed
qed

text \<open>The documented behaviour of \<open>jsonwebtoken\<close>: a token that was signed verifies to its claims, or is refused because
  it has expired.\<close>

definition jwt_faithful :: "jwt \<Rightarrow> bool" where
  "jwt_faithful J \<longleftrightarrow> (\<forall>c l. jwt_verify J (jwt_sign J c l) \<in> {None, Some c})"

lemma jwt_faithfulD: "jwt_faithful J \<Longrightarrow> jwt_verify J (jwt_sign J c l) = None \<or> jwt_verify J (jwt_sign J c l) = Some c"
  by (simp add: jwt_faithful_def)

lemma refresh_run:
  "fst (account_refreshToken S token db) =
     (case jwt_verify (as_jwt S) token of
        None \<Rightarrow> Inl (app_error 401 ''Invalid or expired refresh token'')
      | Some c \<Rightarrow>
          if tc_type c \<noteq> Some (js ''refresh'') then Inl (app_error 401 ''Invalid refresh token'')
          else case fst (au_findById (as_auth S) (ap_id c) db) of
              Inl (OtherError _) \<Rightarrow> Inl (app_error 401 ''Invalid or expired refresh token'')
            | Inl e \<Rightarrow> Inl e
            | Inr None \<Rightarrow> Inl (app_error 401 ''User not found'')
            | Inr (Some u) \<Rightarrow> Inr (generateTokens (as_jwt S) (as_expires S) u))"
  by (auto simp: account_refreshToken_def refresh_catch_def svc_bind_def
      split: option.split prod.split sum.split api_error.split)

text \<open>C40: a refresh returns exactly for a verified refresh token of an account that is found, with tokens
  for that account as it is stored now; every refusal is a 401 or an \<open>AppError\<close> of the repository, never
  another exception. The access token of a pair is never accepted for a refresh, expired or not: the refusal is a
  401. Its refresh token renews the pair for the identity, church and role stored now as long as it verifies, and
  when it has expired the refusal is a 401.\<close>

theorem refresh_tokens_renew:
  assumes "jwt_faithful (as_jwt S)"
  shows "(fst (account_refreshToken S token db) = Inr tokens \<longleftrightarrow>
      (\<exists>c u. jwt_verify (as_jwt S) token = Some c \<and> tc_type c = Some (js ''refresh'')
        \<and> fst (au_findById (as_auth S) (ap_id c) db) = Inr (Some u)
        \<and> tokens = generateTokens (as_jwt S) (as_expires S) u))
    \<and> (\<forall>e. fst (account_refreshToken S token db) = Inl e \<longrightarrow>
        e \<in> app_error 401 ` {''Invalid refresh token'', ''User not found'', ''Invalid or expired refresh token''}
        \<or> (\<exists>i n m es. e = AppError n m es \<and> fst (au_findById (as_auth S) i db) = Inl e))
    \<and> fst (account_refreshToken S (fst (generateTokens (as_jwt S) (as_expires S) u)) db)
       \<in> (Inl \<circ> app_error 401) ` {''Invalid refresh token'', ''Invalid or expired refresh token''}
    \<and> (fst (au_findById (as_auth S) (ac_id u) db) = Inr (Some v) \<longrightarrow>
       fst (account_refreshToken S (snd (generateTokens (as_jwt S) (as_expires S) u)) db)
       = (if jwt_verify (as_jwt S) (snd (generateTokens (as_jwt S) (as_expires S) u)) = None
          then Inl (app_error 401 ''Invalid or expired refresh token'')
          else Inr (generateTokens (as_jwt S) (as_expires S) v)))"
proof (intro conjI)
  show "fst (account_refreshToken S token db) = Inr tokens \<longleftrightarrow>
      (\<exists>c u. jwt_verify (as_jwt S) token = Some c \<and> tc_type c = Some (js ''refresh'')
        \<and> fst (au_findById (as_auth S) (ap_id c) db) = Inr (Some u)
        \<and> tokens = generateTokens (as_jwt S) (as_expires S) u)"
    by (auto simp: refresh_run split: option.splits sum.splits api_error.splits)
  show "\<forall>e. fst (account_refreshToken S token db) = Inl e \<longrightarrow>
        e \<in> app_error 401 ` {''Invalid refresh token'', ''User not found'', ''Invalid or expired refresh token''}
        \<or> (\<exists>i n m es. e = AppError n m es \<and> fst (au_findById (as_auth S) i db) = Inl e)"
    by (auto simp: refresh_run split: option.splits sum.splits api_error.splits if_splits)
  show "fst (account_refreshToken S (fst (generateTokens (as_jwt S) (as_expires S) u)) db)
       \<in> (Inl \<circ> app_error 401) ` {''Invalid refresh token'', ''Invalid or expired refresh token''}"
    using jwt_faithfulD [OF assms, of "access_claims u" "as_expires S"]
    by (auto simp: refresh_run generateTokens_def access_claims_def)
  show "fst (au_findById (as_auth S) (ac_id u) db) = Inr (Some v) \<longrightarrow>
       fst (account_refreshToken S (snd (generateTokens (as_jwt S) (as_expires S) u)) db)
       = (if jwt_verify (as_jwt S) (snd (generateTokens (as_jwt S) (as_expires S) u)) = None
          then Inl (app_error 401 ''Invalid or expired refresh token'')
          else Inr (generateTokens (as_jwt S) (as_expires S) v))"
    using jwt_faithfulD [OF assms, of "(access_claims u)\<lparr>tc_type := Some (js ''refresh'')\<rparr>" "js ''30d''"]
    by (auto simp: refresh_run generateTokens_def access_claims_def)
qed

text \<open>A credential that two accounts share belongs to no one: the lookup answers an account exactly when
  it is the only match.\<close>

lemma findOneCredential_unique:
  assumes "\<And>P. find_docs P = filter P docs"
  shows "findOneCredential find_docs in_church criteria churchId = Some u \<longleftrightarrow>
    filter (\<lambda>u. criteria u \<and> (given churchId \<longrightarrow> in_church (the churchId) u)) docs = [u]"
proof -
  have "length (take 2 xs) = 1 \<longleftrightarrow> length xs = 1" for xs :: "'a list" by auto
  moreover have "length (take 2 xs) = 1 \<Longrightarrow> take 2 xs ! 0 = xs ! 0" for xs :: "'a list" by simp
  ultimately show ?thesis
    unfolding findOneCredential_def assms Let_def
    by (auto simp: length_Suc_conv)
qed

subsection \<open>Deviations\<close>

text \<open>A deactivated account is refused by \<open>login\<close>, but its refresh token still renews.\<close>

lemma deactivated_account_refreshes:
  assumes "jwt_faithful (as_jwt S)" and "fst (au_findById (as_auth S) (ac_id u) db) = Inr (Some u)"
    and "\<not> ac_isActive u" and "jwt_verify (as_jwt S) (snd (generateTokens (as_jwt S) (as_expires S) u)) \<noteq> None"
  shows "fst (account_refreshToken S (snd (generateTokens (as_jwt S) (as_expires S) u)) db)
    = Inr (generateTokens (as_jwt S) (as_expires S) u)"
  using assms jwt_faithfulD [OF assms(1), of "(access_claims u)\<lparr>tc_type := Some (js ''refresh'')\<rparr>" "js ''30d''"]
  by (auto simp: refresh_run generateTokens_def access_claims_def)

text \<open>A refresh token, good for 30 days, passes for an access token while it verifies.\<close>

lemma refresh_token_authenticates:
  assumes "jwt_faithful J" and "jwt_verify J (snd (generateTokens J expires u)) \<noteq> None"
  shows "authenticate J (Some (js ''Bearer '' @ snd (generateTokens J expires u)))
    = Inr ((access_claims u)\<lparr>tc_type := Some (js ''refresh'')\<rparr>)"
  using assms jwt_faithfulD [OF assms(1), of "(access_claims u)\<lparr>tc_type := Some (js ''refresh'')\<rparr>" "js ''30d''"]
  by (auto simp: authenticate_def generateTokens_def)

text \<open>A founder whose account cannot be inserted leaves the church behind, and is refused when trying again, because
  the slug is taken.\<close>

lemma founder_leaves_church_behind:
  assumes "\<not> given (rd_churchId data)" and "given (rd_churchName data)"
    and slug: "slug = slugify (as_nfkd S) (the (rd_churchName data))" "slug \<noteq> []"
    and "ch_findBySlug (as_church S) slug db = None"
    and "ch_create (as_church S) (founding_church data slug) db = (Inr church, db1)"
    and "au_create (as_auth S) (new_user S data (cr_id church)) db1 = (Inl e, db1)"
    and "ch_findBySlug (as_church S) slug db1 = Some church"
  shows "account_register S data db = (Inl e, db1)"
    and "account_register S data db1 = (Inl (app_error 409
      ''A church with that name already exists. Ask an admin to invite you instead.''), db1)"
  using assms by (simp_all add: account_register_def resolveChurchId_def svc_bind_def svc_read_def svc_return_def svc_throw_def Let_def)

text \<open>The slug of a founded church may be reserved, may be one the member app refuses, and is not the
  one that the church service generates.\<close>

lemma founder_takes_reserved_slug:
  "isReservedSlug (slugify id (js ''API''))" "slugify id (js ''API'') \<noteq> []"
  by code_simp+

lemma founder_gets_refused_slug:
  "canonicalWorkspace (JStr (slugify id (replicate 59 97 @ js '' Chapel''))) = None"
  by code_simp

section \<open>Witnesses\<close>

text \<open>A server whose tokens are their claims, with one church and its accounts in a list.\<close>

definition role_text :: "jsstring option \<Rightarrow> jsstring" where
  "role_text r = (case r of Some t \<Rightarrow> t | None \<Rightarrow> js ''MEMBER'')"

definition sample_auth_repo :: "hashed_account list auth_repo" where
  "sample_auth_repo =
     \<lparr>au_findByEmail = (\<lambda>e c db. findOneCredential (\<lambda>P. filter P db) (\<lambda>i u. ac_churchId u = i)
        (\<lambda>u. ac_email u = toLowerCase e) c),
      au_findByPhone = (\<lambda>p c db. findOneCredential (\<lambda>P. filter P db) (\<lambda>i u. ac_churchId u = i)
        (\<lambda>u. ac_phone u = p) c),
      au_findById = (\<lambda>i db. (Inr (map_option account.truncate (find (\<lambda>u. ac_id u = i) db)), db)),
      au_create = (\<lambda>d db. let u = \<lparr>ac_id = [length db], ac_churchId = cu_churchId d, ac_email = cu_email d,
          ac_phone = cu_phone d, ac_name = cu_userName d, ac_role = role_text (cu_role d), ac_isActive = True,
          ac_passwordHash = cu_passwordHash d\<rparr>
        in (Inr (account.truncate u), db @ [u]))\<rparr>"

definition sample_church_repo :: "hashed_account list church_repo" where
  "sample_church_repo =
     \<lparr>ch_findById = (\<lambda>i db. if i = js ''c1''
        then Some (church_data.extend sample_church_data \<lparr>cr_id = js ''c1''\<rparr>) else None),
      ch_findBySlug = (\<lambda>s db. None), ch_findAll = (\<lambda>q db. ([], 0)),
      ch_create = (\<lambda>d. svc_throw (OtherError [])), ch_update = (\<lambda>i u. svc_return None),
      ch_delete = (\<lambda>i. svc_return False)\<rparr>"

definition toy_sign :: "token_claims \<Rightarrow> jsstring \<Rightarrow> jsstring" where
  "toy_sign c l = concat (map (\<lambda>s. length s # s) [ap_id c, ap_churchId c, ap_role c])
     @ (case tc_type c of None \<Rightarrow> [] | Some t \<Rightarrow> length t # t)"

fun toy_take :: "jsstring \<Rightarrow> jsstring \<times> jsstring" where
  "toy_take [] = ([], [])"
| "toy_take (n # s) = (take n s, drop n s)"

definition toy_verify :: "jsstring \<Rightarrow> token_claims option" where
  "toy_verify s =
     (let (i, s1) = toy_take s; (c, s2) = toy_take s1; (r, s3) = toy_take s2
      in Some \<lparr>ap_id = i, ap_churchId = c, ap_role = r,
           tc_type = (if s3 = [] then None else Some (fst (toy_take s3)))\<rparr>)"

definition sample_service :: "hashed_account list auth_service" where
  "sample_service =
     \<lparr>as_auth = sample_auth_repo, as_church = sample_church_repo,
      as_jwt = \<lparr>jwt_sign = toy_sign, jwt_verify = toy_verify\<rparr>,
      as_crypt = \<lparr>cy_hash = (\<lambda>p n. rev p), cy_compare = (\<lambda>p h. h = rev p)\<rparr>,
      as_nfkd = id, as_expires = js ''7d''\<rparr>"

lemma toy_verifies: "toy_verify (toy_sign c l) = Some c"
  by (cases c) (auto simp: toy_sign_def toy_verify_def Let_def split: option.split)

lemma sample_jwt: "jwt_faithful (as_jwt sample_service)"
  by (simp add: jwt_faithful_def sample_service_def toy_verifies)

definition sample_registration_data :: register_data where
  "sample_registration_data =
     \<lparr>rd_email = js ''a@b.co'', rd_phone = js ''+233241234567'', rd_name = js ''Ama'',
      rd_password = js ''long enough'', rd_churchId = Some (js ''c1''), rd_churchName = None,
      rd_churchCity = None, rd_churchDenomination = None, rd_averageWeeklyAttendance = None,
      rd_ministryPriorities = None, rd_requestedPlan = None\<rparr>"

lemma registration_outcome_witness:
  "\<exists>user tokens db'. account_register sample_service sample_registration_data [] = (Inr (user, tokens), db')
     \<and> tokens = generateTokens (as_jwt sample_service) (as_expires sample_service) user"
proof -
  let ?run = "account_register sample_service sample_registration_data []"
  have "\<not> isl (fst ?run)" by code_simp
  then obtain user tokens db' where run: "?run = (Inr (user, tokens), db')"
    by (metis prod.exhaust_sel sum.collapse(2))
  show ?thesis
    using registration_outcome [where S = sample_service and data = sample_registration_data and db = "[]"] run
    by simp
qed

lemma refresh_tokens_renew_witness:
  "\<exists>db u. fst (account_refreshToken sample_service
      (snd (generateTokens (as_jwt sample_service) (as_expires sample_service) u)) db)
    = Inr (generateTokens (as_jwt sample_service) (as_expires sample_service) u)"
proof -
  let ?u = "\<lparr>ac_id = js ''u1'', ac_churchId = js ''c1'', ac_email = js ''a@b.co'', ac_phone = js ''1'',
    ac_name = js ''Ama'', ac_role = js ''MEMBER'', ac_isActive = True, ac_passwordHash = []\<rparr>"
  have "fst (au_findById (as_auth sample_service) (ac_id (account.truncate ?u)) [?u])
      = Inr (Some (account.truncate ?u))"
    by (simp add: sample_service_def sample_auth_repo_def account.truncate_def)
  moreover have "jwt_verify (as_jwt sample_service)
      (snd (generateTokens (as_jwt sample_service) (as_expires sample_service) (account.truncate ?u))) \<noteq> None"
    by (simp add: generateTokens_def sample_service_def toy_verifies)
  ultimately have "fst (account_refreshToken sample_service
      (snd (generateTokens (as_jwt sample_service) (as_expires sample_service) (account.truncate ?u))) [?u])
    = Inr (generateTokens (as_jwt sample_service) (as_expires sample_service) (account.truncate ?u))"
    using refresh_tokens_renew [OF sample_jwt, where u = "account.truncate ?u" and v = "account.truncate ?u"
        and db = "[?u]"] by (simp only: if_False)
  then show ?thesis by blast
qed

end
