(* ===== verification/ApiEvents.thy ===== *)
theory ApiEvents
  imports ApiServer
begin

text \<open>
  Events and RSVPs in the TypeScript API: \<open>apps/api/src/domain/event/application/event.service.ts\<close>,
  the controllers of \<open>interfaces/http/controllers/event.controller.ts\<close> that run it for an
  authenticated caller, and the RSVP operations of its adapter. The repository port is the record
  \<open>event_repo\<close>, whose reads cannot fail here and whose other operations can; what the adapter asks of the
  database for RSVPs is the record \<open>rsvp_driver\<close>.
\<close>

section \<open>Data\<close>

record event_data =
  ed_churchId :: jsstring
  ed_title :: jsstring
  ed_description :: "jsstring option"
  ed_location :: "jsstring option"
  ed_startDate :: int
  ed_endDate :: int
  ed_isRecurring :: "bool option"
  ed_recurrenceRule :: "jsstring option"
  ed_capacity :: "int option"

record api_event = event_data +
  ae_id :: jsstring
  ae_rsvpCount :: nat

datatype rsvp_status = Going | Maybe | NotGoing

fun status_text :: "rsvp_status \<Rightarrow> jsstring" where
  "status_text Going = js ''GOING''"
| "status_text Maybe = js ''MAYBE''"
| "status_text NotGoing = js ''NOT_GOING''"

record rsvp_data =
  rv_eventId :: jsstring
  rv_memberId :: jsstring
  rv_status :: rsvp_status

record rsvp = rsvp_data +
  rv_id :: jsstring

record attendance_data =
  at_eventId :: jsstring
  at_memberId :: jsstring
  at_churchId :: jsstring
  at_method :: jsstring

record event_query =
  eq_page :: "int option"
  eq_limit :: "int option"
  eq_sortOrder :: "jsstring option"
  eq_upcoming :: "bool option"

record 'db event_repo =
  ev_create :: "event_data \<Rightarrow> ('db, api_event) service"
  ev_findById :: "jsstring \<Rightarrow> 'db \<Rightarrow> api_event option"
  ev_findByChurchId :: "jsstring \<Rightarrow> event_query \<Rightarrow> 'db \<Rightarrow> api_event list \<times> int"
  ev_update :: "jsstring \<Rightarrow> (string \<times> jsval) list \<Rightarrow> ('db, api_event option) service"
  ev_delete :: "jsstring \<Rightarrow> ('db, bool) service"
  ev_createRsvp :: "rsvp_data \<Rightarrow> ('db, rsvp) service"
  ev_findRsvpsByMember :: "jsstring \<Rightarrow> jsstring list option \<Rightarrow> 'db \<Rightarrow> rsvp list"
  ev_createAttendance :: "attendance_data \<Rightarrow> ('db, attendance_data) service"
  ev_attendance :: "jsstring \<Rightarrow> 'db \<Rightarrow> attendance_data list"

section \<open>Service\<close>

abbreviation event_not_found :: api_error where
  "event_not_found \<equiv> app_error 404 ''Event not found''"

definition event_getById :: "'db event_repo \<Rightarrow> jsstring \<Rightarrow> ('db, api_event) service" where
  "event_getById R ident = svc_bind (svc_read (ev_findById R ident)) (svc_found event_not_found)"

definition event_update :: "'db event_repo \<Rightarrow> jsstring \<Rightarrow> (string \<times> jsval) list \<Rightarrow> ('db, api_event) service" where
  "event_update R ident data = svc_bind (ev_update R ident data) (svc_found event_not_found)"

definition event_delete :: "'db event_repo \<Rightarrow> jsstring \<Rightarrow> ('db, unit) service" where
  "event_delete R ident =
     svc_bind (ev_delete R ident) (\<lambda>deleted. if deleted then svc_return () else svc_throw event_not_found)"

section \<open>Responses\<close>

definition event_json :: "api_event \<Rightarrow> jsval" where
  "event_json e = JObj
     [(''id'', JStr (ae_id e)), (''churchId'', JStr (ed_churchId e)), (''title'', JStr (ed_title e)),
      (''description'', opt_val JStr (ed_description e)), (''location'', opt_val JStr (ed_location e)),
      (''startDate'', JDate (Some (ed_startDate e))), (''endDate'', JDate (Some (ed_endDate e))),
      (''isRecurring'', opt_val JBool (ed_isRecurring e)),
      (''recurrenceRule'', opt_val JStr (ed_recurrenceRule e)),
      (''capacity'', opt_val jint (ed_capacity e)), (''rsvpCount'', jint (int (ae_rsvpCount e)))]"

definition rsvp_json :: "rsvp \<Rightarrow> jsval" where
  "rsvp_json r = JObj [(''id'', JStr (rv_id r)), (''eventId'', JStr (rv_eventId r)),
     (''memberId'', JStr (rv_memberId r)), (''status'', JStr (status_text (rv_status r)))]"

definition meta_json :: "page_meta \<Rightarrow> jsval" where
  "meta_json m = JObj [(''page'', jint (pm_page m)), (''limit'', jint (pm_limit m)),
     (''total'', jint (pm_total m)), (''totalPages'', jint (pm_totalPages m))]"

section \<open>Controllers\<close>

definition event_of_other_church :: http_response where
  "event_of_other_church = refusal 404 ''Event not found''"

definition http_getEvent :: "'db event_repo \<Rightarrow> token_claims \<Rightarrow> jsstring \<Rightarrow> ('db, http_response) service" where
  "http_getEvent R user ident =
     svc_bind (event_getById R ident) (\<lambda>event.
       if ed_churchId event \<noteq> ap_churchId user then svc_return event_of_other_church
       else svc_return (send_ok 200 (event_json event) None))"

definition http_getEventsByChurch ::
    "'db event_repo \<Rightarrow> token_claims \<Rightarrow> jsstring \<Rightarrow> event_query \<Rightarrow> ('db, http_response) service" where
  "http_getEventsByChurch R user churchId q =
     (if churchId \<noteq> ap_churchId user
      then svc_return (refusal 403 ''You cannot view another church''
        \<lparr>hr_body := JObj [(''success'', JBool False),
           (''message'', JStr (js ''You cannot view another church'' @ [39] @ js ''s events''))]\<rparr>)
      else svc_bind (svc_read (ev_findByChurchId R churchId q)) (\<lambda>(events, count).
        svc_return \<lparr>hr_status = 200, hr_body = JObj [(''success'', JBool True),
          (''data'', JArr (map event_json events)),
          (''pagination'', meta_json (page_meta_of (eq_page q) (eq_limit q) count))]\<rparr>))"

definition http_createEvent :: "'db event_repo \<Rightarrow> event_data \<Rightarrow> ('db, http_response) service" where
  "http_createEvent R data =
     svc_bind (ev_create R data) (\<lambda>event. svc_return (send_ok 201 (event_json event) (Some ''Event created'')))"

definition http_updateEvent ::
    "'db event_repo \<Rightarrow> token_claims \<Rightarrow> jsstring \<Rightarrow> (string \<times> jsval) list \<Rightarrow> ('db, http_response) service" where
  "http_updateEvent R user ident data =
     svc_bind (event_update R ident data) (\<lambda>event.
       svc_return (send_ok 200 (event_json event) (Some ''Event updated'')))"

definition http_deleteEvent :: "'db event_repo \<Rightarrow> token_claims \<Rightarrow> jsstring \<Rightarrow> ('db, http_response) service" where
  "http_deleteEvent R user ident =
     svc_bind (event_delete R ident) (\<lambda>_.
       svc_return \<lparr>hr_status = 200, hr_body = JObj [(''success'', JBool True),
         (''message'', JStr (js ''Event deleted''))]\<rparr>)"

record rsvp_body =
  rb_eventId :: jsstring
  rb_memberId :: "jsstring option"
  rb_status :: rsvp_status

definition http_rsvp :: "'db event_repo \<Rightarrow> token_claims \<Rightarrow> rsvp_body \<Rightarrow> ('db, http_response) service" where
  "http_rsvp R user body =
     svc_bind (event_getById R (rb_eventId body)) (\<lambda>event.
       if ed_churchId event \<noteq> ap_churchId user then svc_return event_of_other_church
       else svc_bind (ev_createRsvp R \<lparr>rv_eventId = rb_eventId body, rv_memberId = ap_id user,
           rv_status = rb_status body\<rparr>) (\<lambda>result.
         svc_return (send_ok 201 (rsvp_json result) (Some ''RSVP recorded''))))"

text \<open>\<open>query.split(",").map(trim).filter(Boolean).slice(0, 100)\<close>.\<close>

definition requested_event_ids :: "jsval \<Rightarrow> jsstring list option" where
  "requested_event_ids q =
     (if is_string q
      then Some (take 100 (filter (\<lambda>i. i \<noteq> []) (map trim (split_on 44 (the_str q))))) else None)"

definition http_getMyRsvps :: "'db event_repo \<Rightarrow> token_claims \<Rightarrow> jsval \<Rightarrow> ('db, http_response) service" where
  "http_getMyRsvps R user eventIds =
     svc_bind (svc_read (ev_findRsvpsByMember R (ap_id user) (requested_event_ids eventIds))) (\<lambda>result.
       svc_return (send_ok 200 (JArr (map rsvp_json result)) None))"

definition attendance_json :: "attendance_data \<Rightarrow> jsval" where
  "attendance_json a = JObj [(''eventId'', JStr (at_eventId a)), (''memberId'', JStr (at_memberId a)),
     (''churchId'', JStr (at_churchId a)), (''method'', JStr (at_method a))]"

definition http_checkIn :: "'db event_repo \<Rightarrow> attendance_data \<Rightarrow> ('db, http_response) service" where
  "http_checkIn R data =
     svc_bind (ev_createAttendance R data) (\<lambda>a.
       svc_return (send_ok 201 (attendance_json a) (Some ''Check-in recorded'')))"

definition http_getAttendance :: "'db event_repo \<Rightarrow> jsstring \<Rightarrow> ('db, http_response) service" where
  "http_getAttendance R eventId =
     svc_bind (svc_read (ev_attendance R eventId)) (\<lambda>as.
       svc_return (send_ok 200 (JArr (map attendance_json as)) None))"

section \<open>The adapter\<close>

definition upcoming_filter :: "jsstring \<Rightarrow> event_query \<Rightarrow> int \<Rightarrow> api_event \<Rightarrow> bool" where
  "upcoming_filter churchId q now e \<longleftrightarrow>
     ed_churchId e = churchId \<and> (eq_upcoming q = Some True \<longrightarrow> now \<le> ed_endDate e)"

text \<open>\<open>findOneAndUpdate\<close> with \<open>upsert\<close>, \<open>countDocuments\<close> and \<open>findByIdAndUpdate\<close>.\<close>

record 'db rsvp_driver =
  dr_upsert :: "jsstring \<Rightarrow> jsstring \<Rightarrow> rsvp_status \<Rightarrow> 'db \<Rightarrow> rsvp \<times> 'db"
  dr_countGoing :: "jsstring \<Rightarrow> 'db \<Rightarrow> nat"
  dr_setCount :: "jsstring \<Rightarrow> nat \<Rightarrow> 'db \<Rightarrow> 'db"

definition createRsvp :: "'db rsvp_driver \<Rightarrow> rsvp_data \<Rightarrow> 'db \<Rightarrow> rsvp \<times> 'db" where
  "createRsvp D data db =
     (let (doc, db1) = dr_upsert D (rv_eventId data) (rv_memberId data) (rv_status data) db;
          count = dr_countGoing D (rv_eventId data) db1
      in (doc, dr_setCount D (rv_eventId data) count db1))"

definition rsvp_service :: "'db rsvp_driver \<Rightarrow> rsvp_data \<Rightarrow> ('db, rsvp) service" where
  "rsvp_service D data db = (let (doc, db1) = createRsvp D data db in (Inr doc, db1))"

text \<open>Requests that overlap: every one of the three database operations is a step of its own.\<close>

datatype rsvp_step = UpsertStep rsvp_data | CountStep nat jsstring | SetStep nat jsstring

fun rsvp_steps :: "'db rsvp_driver \<Rightarrow> rsvp_step list \<Rightarrow> (nat \<Rightarrow> nat) \<times> 'db \<Rightarrow> (nat \<Rightarrow> nat) \<times> 'db" where
  "rsvp_steps D [] st = st"
| "rsvp_steps D (UpsertStep d # ss) (counts, db) =
     rsvp_steps D ss (counts, snd (dr_upsert D (rv_eventId d) (rv_memberId d) (rv_status d) db))"
| "rsvp_steps D (CountStep caller e # ss) (counts, db) =
     rsvp_steps D ss (counts(caller := dr_countGoing D e db), db)"
| "rsvp_steps D (SetStep caller e # ss) (counts, db) =
     rsvp_steps D ss (counts, dr_setCount D e (counts caller) db)"

section \<open>Properties\<close>

text \<open>What Express sends for a controller's outcome.\<close>

definition sent :: "bool \<Rightarrow> api_error + http_response \<Rightarrow> http_response" where
  "sent production r = (case r of Inl e \<Rightarrow> errorHandler production e | Inr response \<Rightarrow> response)"

text \<open>Two responses with the same status and the same properties once serialized (an \<open>undefined\<close> property is
  left out).\<close>

definition same_on_wire :: "http_response \<Rightarrow> http_response \<Rightarrow> bool" where
  "same_on_wire a b \<longleftrightarrow> hr_status a = hr_status b \<and> (\<forall>k. get (hr_body a) k = get (hr_body b) k)"

text \<open>C26: reading an event, listing events and answering an invitation stay in the caller's church. \<open>getEvent\<close>
  shows an event only if it is of that church, and an event of another church cannot be told from one that does not
  exist; a listing is read only for that church; \<open>rsvp\<close> changes the database only through the caller's own RSVP to an
  event found in that church, whatever member the body names. (Updating and deleting an event, checking in and reading
  the attendance do not look at its church: lemma \<open>other_church_event_is_deleted\<close>.)\<close>

theorem event_reads_and_rsvps_stay_in_church:
  "(case http_getEvent R user ident db of (r, db') \<Rightarrow> db' = db
      \<and> (case ev_findById R ident db of
           Some e \<Rightarrow> if ed_churchId e = ap_churchId user then r = Inr (send_ok 200 (event_json e) None)
             else same_on_wire (sent production r) (sent production (Inl event_not_found))
         | None \<Rightarrow> r = Inl event_not_found))
   \<and> (churchId \<noteq> ap_churchId user \<longrightarrow>
       (\<exists>r. http_getEventsByChurch R user churchId q db = (Inr r, db) \<and> hr_status r = 403))
   \<and> (case http_rsvp R user body db of (r, db') \<Rightarrow>
       db' = db \<or> (\<exists>e. ev_findById R (rb_eventId body) db = Some e \<and> ed_churchId e = ap_churchId user
         \<and> db' = snd (ev_createRsvp R \<lparr>rv_eventId = rb_eventId body, rv_memberId = ap_id user,
              rv_status = rb_status body\<rparr> db)))
   \<and> http_rsvp R user (body\<lparr>rb_memberId := m\<rparr>) = http_rsvp R user body"
proof (intro conjI)
  show "case http_getEvent R user ident db of (r, db') \<Rightarrow> db' = db
      \<and> (case ev_findById R ident db of
           Some e \<Rightarrow> if ed_churchId e = ap_churchId user then r = Inr (send_ok 200 (event_json e) None)
             else same_on_wire (sent production r) (sent production (Inl event_not_found))
         | None \<Rightarrow> r = Inl event_not_found)"
    by (cases "ev_findById R ident db")
      (auto simp: http_getEvent_def event_getById_def event_of_other_church_def refusal_def sent_def
        same_on_wire_def failure_body_def svc_bind_def svc_found_def svc_read_def)
  show "churchId \<noteq> ap_churchId user \<longrightarrow>
       (\<exists>r. http_getEventsByChurch R user churchId q db = (Inr r, db) \<and> hr_status r = 403)"
    by (simp add: http_getEventsByChurch_def refusal_def)
  show "case http_rsvp R user body db of (r, db') \<Rightarrow>
       db' = db \<or> (\<exists>e. ev_findById R (rb_eventId body) db = Some e \<and> ed_churchId e = ap_churchId user
         \<and> db' = snd (ev_createRsvp R \<lparr>rv_eventId = rb_eventId body, rv_memberId = ap_id user,
              rv_status = rb_status body\<rparr> db))"
    by (cases "ev_findById R (rb_eventId body) db")
      (auto simp: http_rsvp_def event_getById_def svc_bind_def svc_found_def svc_read_def
        split: prod.split sum.split)
  show "http_rsvp R user (body\<lparr>rb_memberId := m\<rparr>) = http_rsvp R user body"
    by (simp add: http_rsvp_def cong: if_cong)
qed

text \<open>The documented behaviour of the three database operations, in terms of the RSVP stored for an event
  and member and of the count stored with an event.\<close>

definition rsvp_driver_ok ::
    "'db rsvp_driver \<Rightarrow> ('db \<Rightarrow> jsstring \<times> jsstring \<Rightarrow> rsvp_status option) \<Rightarrow> ('db \<Rightarrow> jsstring \<Rightarrow> nat) \<Rightarrow> bool" where
  "rsvp_driver_ok D stored count \<longleftrightarrow>
     (\<forall>e m s db. let (r, db') = dr_upsert D e m s db in
        rv_eventId r = e \<and> rv_memberId r = m \<and> rv_status r = s
        \<and> stored db' = (stored db)((e, m) := Some s) \<and> count db' = count db)
     \<and> (\<forall>e db. dr_countGoing D e db = card {m. stored db (e, m) = Some Going})
     \<and> (\<forall>e n db. stored (dr_setCount D e n db) = stored db \<and> count (dr_setCount D e n db) = (count db)(e := n))"

definition counts_current :: "('db \<Rightarrow> jsstring \<times> jsstring \<Rightarrow> rsvp_status option) \<Rightarrow> ('db \<Rightarrow> jsstring \<Rightarrow> nat) \<Rightarrow> 'db \<Rightarrow> bool" where
  "counts_current stored count db \<longleftrightarrow> (\<forall>e. count db e = card {m. stored db (e, m) = Some Going})"

lemma rsvp_driver_okD:
  assumes "rsvp_driver_ok D stored count"
  shows "dr_upsert D e m s db = (r, db') \<Longrightarrow>
      stored db' = (stored db)((e, m) := Some s) \<and> count db' = count db"
    and "dr_countGoing D e db = card {m. stored db (e, m) = Some Going}"
    and "stored (dr_setCount D e n db) = stored db"
    and "count (dr_setCount D e n db) = (count db)(e := n)"
proof -
  assume up: "dr_upsert D e m s db = (r, db')"
  have "let (r, db') = dr_upsert D e m s db in
        rv_eventId r = e \<and> rv_memberId r = m \<and> rv_status r = s
        \<and> stored db' = (stored db)((e, m) := Some s) \<and> count db' = count db"
    using assms unfolding rsvp_driver_ok_def by blast
  then show "stored db' = (stored db)((e, m) := Some s) \<and> count db' = count db" by (simp add: up)
qed (use assms in \<open>simp_all add: rsvp_driver_ok_def\<close>)

lemma createRsvp_effect:
  assumes "rsvp_driver_ok D stored count"
  shows "stored (snd (createRsvp D d db)) = (stored db)((rv_eventId d, rv_memberId d) := Some (rv_status d))"
    and "count (snd (createRsvp D d db)) = (count db)(rv_eventId d :=
      card {m. stored (snd (createRsvp D d db)) (rv_eventId d, m) = Some Going})"
proof -
  obtain r db1 where up: "dr_upsert D (rv_eventId d) (rv_memberId d) (rv_status d) db = (r, db1)"
    by force
  note effect = rsvp_driver_okD [OF assms]
  show "stored (snd (createRsvp D d db)) = (stored db)((rv_eventId d, rv_memberId d) := Some (rv_status d))"
    and "count (snd (createRsvp D d db)) = (count db)(rv_eventId d :=
      card {m. stored (snd (createRsvp D d db)) (rv_eventId d, m) = Some Going})"
    using effect(1) [OF up] by (simp_all add: createRsvp_def up Let_def effect(2,3,4))
qed

text \<open>The RSVP count of every event is the number of members who are going, after every sequence of
  RSVPs handled one after the other, changes of mind included; and the RSVP stored for a member and an
  event is the last one given.\<close>

theorem rsvp_counts_are_current:
  assumes "rsvp_driver_ok D stored count" and "counts_current stored count db"
  shows "let db' = fold (\<lambda>d db. snd (createRsvp D d db)) ds db in
    counts_current stored count db'
    \<and> stored db' (e, m) = (case find (\<lambda>d. rv_eventId d = e \<and> rv_memberId d = m) (rev ds) of
        Some d \<Rightarrow> Some (rv_status d) | None \<Rightarrow> stored db (e, m))"
proof (induction ds rule: rev_induct)
  case Nil
  show ?case using assms(2) by simp
next
  case (snoc d ds)
  let ?db = "fold (\<lambda>d db. snd (createRsvp D d db)) ds db"
  have "counts_current stored count (snd (createRsvp D d ?db))"
    using snoc createRsvp_effect [OF assms(1), of d ?db] by (simp add: counts_current_def Let_def)
  then show ?case
    using snoc createRsvp_effect(1) [OF assms(1), of d ?db] by (auto simp: Let_def)
qed

subsection \<open>Deviations\<close>

text \<open>An event of another church is changed and deleted although it is not shown.\<close>

lemma other_church_event_is_deleted:
  assumes "ev_delete R ident db = (Inr True, db')"
  shows "fst (http_deleteEvent R user ident db) = Inr \<lparr>hr_status = 200,
      hr_body = JObj [(''success'', JBool True), (''message'', JStr (js ''Event deleted''))]\<rparr>
    \<and> snd (http_deleteEvent R user ident db) = db'"
  using assms by (simp add: http_deleteEvent_def event_delete_def svc_bind_def)

text \<open>A database in two lists.\<close>

type_synonym rsvp_tables = "((jsstring \<times> jsstring) \<times> rsvp_status) list \<times> (jsstring \<times> nat) list"

definition table_driver :: "rsvp_tables rsvp_driver" where
  "table_driver =
     \<lparr>dr_upsert = (\<lambda>e m s (rs, cs).
        (\<lparr>rv_eventId = e, rv_memberId = m, rv_status = s, rv_id = e @ m\<rparr>, (((e, m), s) # rs, cs))),
      dr_countGoing = (\<lambda>e (rs, cs).
        length (remdups (filter (\<lambda>m. map_of rs (e, m) = Some Going) (map (snd \<circ> fst) rs)))),
      dr_setCount = (\<lambda>e n (rs, cs). (rs, (e, n) # cs))\<rparr>"

definition table_stored :: "rsvp_tables \<Rightarrow> jsstring \<times> jsstring \<Rightarrow> rsvp_status option" where
  "table_stored db = map_of (fst db)"

definition table_count :: "rsvp_tables \<Rightarrow> jsstring \<Rightarrow> nat" where
  "table_count db e = (case map_of (snd db) e of Some n \<Rightarrow> n | None \<Rightarrow> 0)"

lemma table_driver_ok: "rsvp_driver_ok table_driver table_stored table_count"
proof -
  have "length (remdups (filter (\<lambda>m. map_of rs (e, m) = Some Going) (map (snd \<circ> fst) rs)))
      = card {m. map_of rs (e, m) = Some Going}" for rs e
  proof -
    have "set (filter (\<lambda>m. map_of rs (e, m) = Some Going) (map (snd \<circ> fst) rs)) = {m. map_of rs (e, m) = Some Going}"
      by (force dest: map_of_SomeD)
    then show ?thesis by (metis length_remdups_card_conv)
  qed
  then show ?thesis
    by (auto simp: rsvp_driver_ok_def table_driver_def table_stored_def table_count_def Let_def fun_eq_iff)
qed

lemma rsvp_counts_are_current_witness:
  "counts_current table_stored table_count (fold (\<lambda>d db. snd (createRsvp table_driver d db))
     [\<lparr>rv_eventId = [1], rv_memberId = [2], rv_status = Going\<rparr>,
      \<lparr>rv_eventId = [1], rv_memberId = [2], rv_status = NotGoing\<rparr>] ([], []))"
proof -
  have "counts_current table_stored table_count ([], [])"
    by (simp add: counts_current_def table_stored_def table_count_def)
  from rsvp_counts_are_current [OF table_driver_ok this] show ?thesis
    unfolding Let_def by (rule conjunct1)
qed

text \<open>Two requests that overlap can leave a count that is not current.\<close>

lemma overlapping_rsvps_miscount:
  "let (_, db) = rsvp_steps table_driver
      [UpsertStep \<lparr>rv_eventId = [1], rv_memberId = [2], rv_status = Going\<rparr>, CountStep 0 [1],
       UpsertStep \<lparr>rv_eventId = [1], rv_memberId = [3], rv_status = Going\<rparr>, CountStep 1 [1],
       SetStep 1 [1], SetStep 0 [1]] (\<lambda>_. 0, ([], []))
   in table_count db [1] = 1 \<and> dr_countGoing table_driver [1] db = 2"
  by code_simp

text \<open>The repository over a list of events and the RSVP tables.\<close>

type_synonym event_tables = "api_event list \<times> rsvp_tables"

definition table_repo :: "event_tables event_repo" where
  "table_repo =
     \<lparr>ev_create = (\<lambda>d (es, rs). let e = \<lparr>ed_churchId = ed_churchId d, ed_title = ed_title d,
          ed_description = ed_description d, ed_location = ed_location d, ed_startDate = ed_startDate d,
          ed_endDate = ed_endDate d, ed_isRecurring = ed_isRecurring d, ed_recurrenceRule = ed_recurrenceRule d,
          ed_capacity = ed_capacity d, ae_id = replicate (length es) 1, ae_rsvpCount = 0\<rparr>
        in (Inr e, (es @ [e], rs))),
      ev_findById = (\<lambda>ident (es, rs). find (\<lambda>e. ae_id e = ident) es),
      ev_findByChurchId = (\<lambda>churchId q (es, rs). let own = filter (\<lambda>e. ed_churchId e = churchId) es
        in (window (page_window (eq_page q) (eq_limit q)) own, int (length own))),
      ev_update = (\<lambda>ident changes (es, rs). (Inr (find (\<lambda>e. ae_id e = ident) es), (es, rs))),
      ev_delete = (\<lambda>ident (es, rs). (Inr (list_ex (\<lambda>e. ae_id e = ident) es), (filter (\<lambda>e. ae_id e \<noteq> ident) es, rs))),
      ev_createRsvp = (\<lambda>d (es, rs). let (doc, rs') = createRsvp table_driver d rs in (Inr doc, (es, rs'))),
      ev_findRsvpsByMember = (\<lambda>memberId ids (es, rs). []),
      ev_createAttendance = (\<lambda>d db. (Inr d, db)),
      ev_attendance = (\<lambda>eventId db. [])\<rparr>"

lemma event_reads_and_rsvps_stay_in_church_witness:
  "let e = \<lparr>ed_churchId = js ''c2'', ed_title = js ''Prayer'', ed_description = None, ed_location = None,
         ed_startDate = 0, ed_endDate = 1, ed_isRecurring = None, ed_recurrenceRule = None, ed_capacity = None,
         ae_id = js ''e1'', ae_rsvpCount = 0\<rparr>;
       user = \<lparr>ap_id = js ''m1'', ap_churchId = js ''c1'', ap_role = js ''MEMBER'', tc_type = None\<rparr>;
       db = ([e], [], []);
       q = \<lparr>eq_page = Some 1, eq_limit = Some 20, eq_sortOrder = None, eq_upcoming = None\<rparr>
   in js ''c2'' \<noteq> ap_churchId user
      \<and> (\<exists>r. http_getEventsByChurch table_repo user (js ''c2'') q db = (Inr r, db) \<and> hr_status r = 403)
      \<and> ev_findById table_repo (js ''e1'') db = Some e \<and> ed_churchId e \<noteq> ap_churchId user"
proof -
  have other: "js ''c2'' \<noteq> js ''c1''" by (simp add: js_def)
  have found: "ev_findById table_repo (js ''e1'') ([e], [], []) = Some e" if "ae_id e = js ''e1''" for e
    using that by (simp add: table_repo_def)
  show ?thesis
    unfolding Let_def
    using other found
      event_reads_and_rsvps_stay_in_church [where churchId = "js ''c2''" and R = table_repo
        and user = "\<lparr>ap_id = js ''m1'', ap_churchId = js ''c1'', ap_role = js ''MEMBER'', tc_type = None\<rparr>"]
    by simp
qed

end
