(* ===== verification/AuthProvider.thy ===== *)
theory AuthProvider
  imports SessionFlow
begin

text \<open>
  The authentication context of the mobile app (\<open>context/AuthContext.tsx\<close>): which member is shown, and
  every operation that may change it. An asynchronous operation is cut at its \<open>await\<close>s: what it waits for
  is a \<open>flight\<close> with the variables it keeps, and what follows the \<open>await\<close> is a function on the provider.
  A step of the provider is a call, an event of the device, or the answer to one flight, in any order.
\<close>

section \<open>State\<close>

datatype flight =
    LaunchToken
  | LaunchStored
  | LaunchCleared
  | LaunchJoined nat
  | RecToken nat int "User option"
  | RecFetch nat int "User option" "jsstring option"
  | RecReplace nat int User
  | RecCleared nat
  | SignIn int jsstring
  | Everywhere int
  | RefToken int User
  | RefFetch int User "jsstring option"
  | RefReplace int User

text \<open>What the provider asks of the session module.\<close>

datatype session_call = ClearSession | ReplaceUser jsstring User int

text \<open>
  The references of the component and its two states. \<open>ap_flights\<close> are the operations in progress,
  \<open>ap_calls\<close> the changes asked of the session module, \<open>ap_promises\<close> the number of reconciliations
  started; a reconciliation is identified by its number, as the code compares promises.
\<close>

record auth_provider =
  ap_user :: "User option"
  ap_isLoading :: bool
  ap_userRef :: "User option"
  ap_mounted :: bool
  ap_reconciliation :: "nat option"
  ap_sessionPresent :: bool
  ap_sessionRevision :: int
  ap_authAttempt :: int
  ap_previousState :: jsstring
  ap_flights :: "flight list"
  ap_calls :: "session_call list"
  ap_promises :: nat

definition provider_mounted :: "jsstring \<Rightarrow> auth_provider" where
  "provider_mounted appState =
     \<lparr>ap_user = None, ap_isLoading = True, ap_userRef = None, ap_mounted = True, ap_reconciliation = None,
      ap_sessionPresent = False, ap_sessionRevision = 0, ap_authAttempt = 0, ap_previousState = appState,
      ap_flights = [LaunchToken], ap_calls = [], ap_promises = 0\<rparr>"

definition waits :: "flight \<Rightarrow> auth_provider \<Rightarrow> auth_provider" where
  "waits f p = p\<lparr>ap_flights := ap_flights p @ [f]\<rparr>"

definition calls :: "session_call \<Rightarrow> auth_provider \<Rightarrow> auth_provider" where
  "calls c p = p\<lparr>ap_calls := ap_calls p @ [c]\<rparr>"

definition commitUser :: "User option \<Rightarrow> auth_provider \<Rightarrow> auth_provider" where
  "commitUser u p = p\<lparr>ap_userRef := u, ap_user := (if ap_mounted p then u else ap_user p)\<rparr>"

definition stop_loading :: "auth_provider \<Rightarrow> auth_provider" where
  "stop_loading p = (if ap_mounted p then p\<lparr>ap_isLoading := False\<rparr> else p)"

definition may_commit :: "int \<Rightarrow> auth_provider \<Rightarrow> bool" where
  "may_commit started p =
     canCommitSessionResult (jint started) (jint (ap_sessionRevision p)) (ap_sessionPresent p)"

section \<open>Reconciliation\<close>

definition rec_end :: "nat \<Rightarrow> auth_provider \<Rightarrow> auth_provider" where
  "rec_end k p = (if ap_reconciliation p = Some k then p\<lparr>ap_reconciliation := None\<rparr> else p)"

definition reconcileSession :: "auth_provider \<Rightarrow> nat \<times> auth_provider" where
  "reconcileSession p =
     (case ap_reconciliation p of
        Some k \<Rightarrow> (k, p)
      | None \<Rightarrow> (ap_promises p,
          waits (RecToken (ap_promises p) (ap_sessionRevision p) (ap_userRef p))
            (p\<lparr>ap_reconciliation := Some (ap_promises p), ap_promises := ap_promises p + 1\<rparr>)))"

definition rec_catch :: "nat \<Rightarrow> int \<Rightarrow> js_error \<Rightarrow> auth_provider \<Rightarrow> auth_provider" where
  "rec_catch k started e p =
     (if isTerminalMemberSessionError e \<and> may_commit started p
      then waits (RecCleared k) (calls ClearSession
        (p\<lparr>ap_sessionRevision := ap_sessionRevision p + 1, ap_sessionPresent := False\<rparr>))
      else rec_end k p)"

definition rec_token ::
    "nat \<Rightarrow> int \<Rightarrow> User option \<Rightarrow> js_error + jsstring option \<Rightarrow> auth_provider \<Rightarrow> auth_provider" where
  "rec_token k started expectedUser answer p =
     (case answer of
        Inl e \<Rightarrow> rec_catch k started e p
      | Inr expectedRefreshToken \<Rightarrow> waits (RecFetch k started expectedUser expectedRefreshToken) p)"

definition rec_fetch ::
    "nat \<Rightarrow> int \<Rightarrow> jsstring option \<Rightarrow> js_error + User \<Rightarrow> auth_provider \<Rightarrow> auth_provider" where
  "rec_fetch k started expectedRefreshToken answer p =
     (case answer of
        Inl e \<Rightarrow> rec_catch k started e p
      | Inr currentUser \<Rightarrow>
          if \<not> may_commit started p then rec_end k p
          else if given expectedRefreshToken
            then waits (RecReplace k started currentUser)
              (calls (ReplaceUser (the expectedRefreshToken) currentUser started) p)
          else rec_end k (commitUser (Some currentUser) p))"

definition rec_replace :: "nat \<Rightarrow> int \<Rightarrow> User \<Rightarrow> auth_provider \<Rightarrow> auth_provider" where
  "rec_replace k started currentUser p =
     rec_end k (if may_commit started p then commitUser (Some currentUser) p else p)"

definition rec_cleared :: "nat \<Rightarrow> auth_provider \<Rightarrow> auth_provider" where
  "rec_cleared k p = rec_end k (commitUser None p)"

section \<open>Launch and device events\<close>

definition launch_catch :: "auth_provider \<Rightarrow> auth_provider" where
  "launch_catch p = waits LaunchCleared (calls ClearSession (p\<lparr>ap_sessionPresent := False\<rparr>))"

definition launch_token :: "js_error + jsstring option \<Rightarrow> auth_provider \<Rightarrow> auth_provider" where
  "launch_token answer p =
     (case answer of
        Inl e \<Rightarrow> launch_catch p
      | Inr token \<Rightarrow>
          let p1 = p\<lparr>ap_sessionPresent := given token\<rparr>
          in if given token then waits LaunchStored p1 else stop_loading p1)"

definition launch_stored :: "js_error + User option \<Rightarrow> auth_provider \<Rightarrow> auth_provider" where
  "launch_stored answer p =
     (case answer of
        Inl e \<Rightarrow> launch_catch p
      | Inr storedUser \<Rightarrow>
          let p1 = (if storedUser \<noteq> None then commitUser storedUser p else p)
          in if canRevealCachedMember True (storedUser \<noteq> None)
             then stop_loading (snd (reconcileSession (stop_loading p1)))
             else case reconcileSession p1 of (k, p2) \<Rightarrow> waits (LaunchJoined k) p2)"

definition launch_cleared :: "auth_provider \<Rightarrow> auth_provider" where
  "launch_cleared p = stop_loading (commitUser None p)"

definition on_expired :: "auth_provider \<Rightarrow> auth_provider" where
  "on_expired p = commitUser None
     (p\<lparr>ap_authAttempt := ap_authAttempt p + 1, ap_sessionRevision := ap_sessionRevision p + 1,
        ap_sessionPresent := False\<rparr>)"

text \<open>\<open>/inactive|background/.test(previousState)\<close>.\<close>

definition was_away :: "jsstring \<Rightarrow> bool" where
  "was_away s \<longleftrightarrow> occurs_in (js ''inactive'') s \<or> occurs_in (js ''background'') s"

definition on_app_state :: "jsstring \<Rightarrow> auth_provider \<Rightarrow> auth_provider" where
  "on_app_state nextState p =
     (let returning = was_away (ap_previousState p) \<and> nextState = js ''active'';
          p1 = p\<lparr>ap_previousState := nextState\<rparr>
      in if returning \<and> ap_sessionPresent p1 then snd (reconcileSession p1) else p1)"

definition on_connectivity :: "netinfo \<Rightarrow> auth_provider \<Rightarrow> auth_provider" where
  "on_connectivity st p =
     (if shouldRecoverPendingIdentity (ap_sessionPresent p) (ap_userRef p \<noteq> None) st
      then snd (reconcileSession p) else p)"

definition unmount :: "auth_provider \<Rightarrow> auth_provider" where
  "unmount p = p\<lparr>ap_mounted := False\<rparr>"

section \<open>Operations of the context\<close>

text \<open>\<open>login\<close> and \<open>verifyOtp\<close> differ in the service they call and in the message of the refusal.
  \<open>sign_in_can_commit\<close> is the callback the service asks before it stores the session.\<close>

definition begin_sign_in :: "jsstring \<Rightarrow> auth_provider \<Rightarrow> auth_provider" where
  "begin_sign_in inactiveCopy p =
     (let p1 = p\<lparr>ap_authAttempt := ap_authAttempt p + 1\<rparr>
      in waits (SignIn (ap_authAttempt p1) inactiveCopy) p1)"

definition login_refusal :: jsstring where
  "login_refusal = js ''The sign-in attempt is no longer active.''"

definition verifyOtp_refusal :: jsstring where
  "verifyOtp_refusal = js ''The verification attempt is no longer active.''"

definition sign_in_can_commit :: "int \<Rightarrow> bool \<Rightarrow> auth_provider \<Rightarrow> bool" where
  "sign_in_can_commit attempt screenCanCommit p \<longleftrightarrow>
     attempt = ap_authAttempt p \<and> ap_mounted p \<and> screenCanCommit"

definition signed_in ::
    "int \<Rightarrow> jsstring \<Rightarrow> bool \<Rightarrow> js_error + User \<Rightarrow> auth_provider \<Rightarrow> (js_error + unit) \<times> auth_provider" where
  "signed_in attempt inactiveCopy screenCanCommit answer p =
     (case answer of
        Inl e \<Rightarrow> (Inl e, p)
      | Inr user \<Rightarrow>
          if \<not> sign_in_can_commit attempt screenCanCommit p then (Inl (JsError inactiveCopy), p)
          else (Inr (), commitUser (Some user)
            (p\<lparr>ap_sessionRevision := ap_sessionRevision p + 1, ap_sessionPresent := True\<rparr>)))"

text \<open>The telephone number the one-time code screen gets after a registration.\<close>

definition register_phone :: "js_error + User \<Rightarrow> jsstring \<Rightarrow> js_error + jsstring" where
  "register_phone answer phone =
     and_then answer (\<lambda>user. Inr (if us_phone user = [] then phone else us_phone user))"

definition begin_logout :: "auth_provider \<Rightarrow> auth_provider" where
  "begin_logout p = commitUser None
     (p\<lparr>ap_authAttempt := ap_authAttempt p + 1, ap_sessionRevision := ap_sessionRevision p + 1,
        ap_sessionPresent := False\<rparr>)"

definition begin_everywhere :: "auth_provider \<Rightarrow> auth_provider" where
  "begin_everywhere p =
     waits (Everywhere (ap_sessionRevision p)) (p\<lparr>ap_authAttempt := ap_authAttempt p + 1\<rparr>)"

definition ended_everywhere ::
    "int \<Rightarrow> js_error + bool \<Rightarrow> auth_provider \<Rightarrow> (js_error + unit) \<times> auth_provider" where
  "ended_everywhere started answer p =
     (case answer of
        Inl e \<Rightarrow> (Inl e, p)
      | Inr endedCurrentSession \<Rightarrow>
          if \<not> endedCurrentSession \<or> started \<noteq> ap_sessionRevision p
          then (Inl (throw ''The active session changed while global logout was being confirmed.''), p)
          else (Inr (), commitUser None
            (p\<lparr>ap_sessionRevision := ap_sessionRevision p + 1, ap_sessionPresent := False\<rparr>)))"

definition begin_refreshUser :: "auth_provider \<Rightarrow> (js_error + unit) \<times> auth_provider" where
  "begin_refreshUser p =
     (case ap_userRef p of
        None \<Rightarrow> (Inl (throw ''The member session is no longer active.''), p)
      | Some expectedUser \<Rightarrow> (Inr (), waits (RefToken (ap_sessionRevision p) expectedUser) p))"

definition refresh_token ::
    "int \<Rightarrow> User \<Rightarrow> js_error + jsstring option \<Rightarrow> auth_provider \<Rightarrow> (js_error + unit) \<times> auth_provider" where
  "refresh_token started expectedUser answer p =
     (case answer of
        Inl e \<Rightarrow> (Inl e, p)
      | Inr expectedRefreshToken \<Rightarrow> (Inr (), waits (RefFetch started expectedUser expectedRefreshToken) p))"

definition refresh_fetch ::
    "int \<Rightarrow> jsstring option \<Rightarrow> js_error + User \<Rightarrow> auth_provider \<Rightarrow> (js_error + unit) \<times> auth_provider" where
  "refresh_fetch started expectedRefreshToken answer p =
     (case answer of
        Inl e \<Rightarrow> (Inl e, p)
      | Inr freshUser \<Rightarrow>
          if \<not> may_commit started p then (Inr (), p)
          else if given expectedRefreshToken
            then (Inr (), waits (RefReplace started freshUser)
              (calls (ReplaceUser (the expectedRefreshToken) freshUser started) p))
          else (Inr (), commitUser (Some freshUser) p))"

definition refresh_replace :: "int \<Rightarrow> User \<Rightarrow> auth_provider \<Rightarrow> auth_provider" where
  "refresh_replace started freshUser p =
     (if may_commit started p then commitUser (Some freshUser) p else p)"

section \<open>The provider as a transition system\<close>

text \<open>What a flight may be answered with.\<close>

datatype answer =
    AnsToken "js_error + jsstring option"
  | AnsStored "js_error + User option"
  | AnsUser "js_error + User"
  | AnsSignIn bool "js_error + User"
  | AnsEnded "js_error + bool"
  | AnsDone

datatype auth_label =
    Answered flight answer
  | AppStateChanged jsstring
  | ConnectivityChanged netinfo
  | Expired
  | SignInCalled jsstring
  | LogoutCalled
  | EverywhereCalled
  | RefreshCalled
  | Unmounted

fun resumed :: "flight \<Rightarrow> answer \<Rightarrow> auth_provider \<Rightarrow> auth_provider option" where
  "resumed LaunchToken (AnsToken a) p = Some (launch_token a p)"
| "resumed LaunchStored (AnsStored a) p = Some (launch_stored a p)"
| "resumed LaunchCleared AnsDone p = Some (launch_cleared p)"
| "resumed (LaunchJoined k) AnsDone p =
     (if ap_reconciliation p = Some k then None else Some (stop_loading p))"
| "resumed (RecToken k r e) (AnsToken a) p = Some (rec_token k r e a p)"
| "resumed (RecFetch k r e t) (AnsUser a) p = Some (rec_fetch k r t a p)"
| "resumed (RecReplace k r u) AnsDone p = Some (rec_replace k r u p)"
| "resumed (RecCleared k) AnsDone p = Some (rec_cleared k p)"
| "resumed (SignIn n m) (AnsSignIn c a) p = Some (snd (signed_in n m c a p))"
| "resumed (Everywhere r) (AnsEnded a) p = Some (snd (ended_everywhere r a p))"
| "resumed (RefToken r e) (AnsToken a) p = Some (snd (refresh_token r e a p))"
| "resumed (RefFetch r e t) (AnsUser a) p = Some (snd (refresh_fetch r t a p))"
| "resumed (RefReplace r u) AnsDone p = Some (refresh_replace r u p)"
| "resumed _ _ p = None"

fun_cases resumed_elim: "resumed f a p = Some p'"

definition landed :: "flight \<Rightarrow> auth_provider \<Rightarrow> auth_provider" where
  "landed f p = p\<lparr>ap_flights := remove1 f (ap_flights p)\<rparr>"

text \<open>One step; \<open>None\<close> when it cannot happen: the listeners live as long as the component,
  and \<open>AppNavigator\<close> shows the screens that use the context only when it no longer loads.\<close>

fun auth_next :: "auth_label \<Rightarrow> auth_provider \<Rightarrow> auth_provider option" where
  "auth_next (Answered f a) p = (if f \<in> set (ap_flights p) then resumed f a (landed f p) else None)"
| "auth_next (AppStateChanged s) p = (if ap_mounted p then Some (on_app_state s p) else None)"
| "auth_next (ConnectivityChanged st) p = (if ap_mounted p then Some (on_connectivity st p) else None)"
| "auth_next Expired p = (if ap_mounted p then Some (on_expired p) else None)"
| "auth_next (SignInCalled m) p = (if ap_isLoading p then None else Some (begin_sign_in m p))"
| "auth_next LogoutCalled p = (if ap_isLoading p then None else Some (begin_logout p))"
| "auth_next EverywhereCalled p = (if ap_isLoading p then None else Some (begin_everywhere p))"
| "auth_next RefreshCalled p = (if ap_isLoading p then None else Some (snd (begin_refreshUser p)))"
| "auth_next Unmounted p = (if ap_mounted p then Some (unmount p) else None)"

inductive auth_step :: "auth_provider \<Rightarrow> auth_label \<Rightarrow> auth_provider \<Rightarrow> bool" where
  step: "auth_next l p = Some p' \<Longrightarrow> auth_step p l p'"

inductive_simps auth_step_iff: "auth_step p l p'"

text \<open>A run with the states it went through, the last first.\<close>

type_synonym auth_trace = "(auth_label \<times> auth_provider) list"

inductive auth_run :: "auth_provider \<Rightarrow> auth_trace \<Rightarrow> auth_provider \<Rightarrow> bool" for p where
  here: "auth_run p [] p"
| on: "auth_run p tr q \<Longrightarrow> auth_step q l q' \<Longrightarrow> auth_run p ((l, q') # tr) q'"

section \<open>Lemmas\<close>

named_theorems auth_ops \<open>the operations of the provider\<close>

lemmas [auth_ops] = waits_def calls_def commitUser_def stop_loading_def rec_end_def rec_catch_def
  rec_token_def rec_fetch_def rec_replace_def rec_cleared_def launch_catch_def launch_token_def
  launch_stored_def launch_cleared_def on_expired_def on_app_state_def on_connectivity_def unmount_def
  begin_sign_in_def signed_in_def sign_in_can_commit_def begin_logout_def begin_everywhere_def
  ended_everywhere_def begin_refreshUser_def refresh_token_def refresh_fetch_def refresh_replace_def
  reconcileSession_def Let_def

lemma may_commit_iff:
  "may_commit r p \<longleftrightarrow>
     r = ap_sessionRevision p \<and> 0 \<le> r \<and> r \<le> max_safe_integer \<and> ap_sessionPresent p"
  unfolding may_commit_def canCommitSessionResult_def safe_count_jint by auto

lemma may_commitD: "may_commit r p \<Longrightarrow> r = ap_sessionRevision p \<and> ap_sessionPresent p"
  by (simp add: may_commit_iff)

subsection \<open>One launch, one reconciliation\<close>

fun of_rec :: "flight \<Rightarrow> bool" where
  "of_rec (RecToken k r e) = True"
| "of_rec (RecFetch k r e t) = True"
| "of_rec (RecReplace k r u) = True"
| "of_rec (RecCleared k) = True"
| "of_rec _ = False"

fun rec_id :: "flight \<Rightarrow> nat" where
  "rec_id (RecToken k r e) = k"
| "rec_id (RecFetch k r e t) = k"
| "rec_id (RecReplace k r u) = k"
| "rec_id (RecCleared k) = k"
| "rec_id _ = 0"

fun of_launch :: "flight \<Rightarrow> bool" where
  "of_launch LaunchToken = True"
| "of_launch LaunchStored = True"
| "of_launch LaunchCleared = True"
| "of_launch (LaunchJoined k) = True"
| "of_launch _ = False"

definition launch_ok :: "bool \<Rightarrow> flight list \<Rightarrow> bool" where
  "launch_ok loading fs \<longleftrightarrow> fs = [] \<or> (\<exists>f. fs = [f] \<and> (loading \<or> f \<notin> {LaunchToken, LaunchStored, LaunchCleared}))"

definition rec_ok :: "nat option \<Rightarrow> flight list \<Rightarrow> bool" where
  "rec_ok r fs \<longleftrightarrow> (case r of None \<Rightarrow> fs = [] | Some k \<Rightarrow> \<exists>f. fs = [f] \<and> rec_id f = k)"

abbreviation launching :: "auth_provider \<Rightarrow> flight list" where
  "launching p \<equiv> filter of_launch (ap_flights p)"

abbreviation reconciling :: "auth_provider \<Rightarrow> flight list" where
  "reconciling p \<equiv> filter of_rec (ap_flights p)"

definition single_flights :: "auth_provider \<Rightarrow> bool" where
  "single_flights p \<longleftrightarrow> launch_ok (ap_isLoading p) (launching p) \<and> rec_ok (ap_reconciliation p) (reconciling p)"

lemma launch_ok_simps [simp]:
  "launch_ok b []" "launch_ok b [LaunchJoined k]" "launch_ok b [LaunchStored] = b"
  "launch_ok b [LaunchCleared] = b" "launch_ok b [LaunchToken] = b"
  by (auto simp: launch_ok_def)

lemma rec_ok_simps [simp]:
  "rec_ok None fs \<longleftrightarrow> fs = []" "rec_ok (Some k) [f] \<longleftrightarrow> rec_id f = k" "\<not> rec_ok (Some k) []"
  by (auto simp: rec_ok_def)

lemma filter_landed:
  assumes "f \<in> set xs" and "P f" and "filter P xs = [] \<or> filter P xs = [g]"
  shows "filter P xs = [f] \<and> filter P (remove1 f xs) = []"
proof -
  have "f \<in> set (filter P xs)" using assms by simp
  with assms(3) have "filter P xs = [f]"
    by (elim disjE) (simp_all only: list.set empty_iff insert_iff simp_thms)
  then show ?thesis by (simp add: filter_remove1)
qed

lemma filter_landed_other: "\<not> P f \<Longrightarrow> filter P (remove1 f xs) = filter P xs"
  by (simp add: filter_remove1 remove1_idem)

lemma launch_landed:
  assumes "single_flights p" and "f \<in> set (ap_flights p)"
  shows "of_launch f \<Longrightarrow> launching (landed f p) = [] \<and> launch_ok (ap_isLoading p) [f]"
    and "\<not> of_launch f \<Longrightarrow> launching (landed f p) = launching p"
proof -
  assume f: "of_launch f"
  have "launching p = [] \<or> (\<exists>g. launching p = [g])" using assms(1) by (auto simp: single_flights_def launch_ok_def)
  then obtain g where "launching p = [] \<or> launching p = [g]" by blast
  from filter_landed [of f "ap_flights p" of_launch, OF assms(2) f this]
  show "launching (landed f p) = [] \<and> launch_ok (ap_isLoading p) [f]"
    using assms(1) by (simp add: single_flights_def landed_def)
qed (simp add: landed_def filter_landed_other)

lemma rec_landed:
  assumes "single_flights p" and "f \<in> set (ap_flights p)"
  shows "of_rec f \<Longrightarrow> reconciling (landed f p) = [] \<and> ap_reconciliation p = Some (rec_id f)"
    and "\<not> of_rec f \<Longrightarrow> reconciling (landed f p) = reconciling p"
proof -
  assume f: "of_rec f"
  have ok: "rec_ok (ap_reconciliation p) (reconciling p)" using assms(1) by (simp add: single_flights_def)
  then have "reconciling p = [] \<or> (\<exists>g. reconciling p = [g])" by (auto simp: rec_ok_def split: option.splits)
  then obtain g where "reconciling p = [] \<or> reconciling p = [g]" by blast
  note alone = filter_landed [of f "ap_flights p" of_rec, OF assms(2) f this]
  then show "reconciling (landed f p) = [] \<and> ap_reconciliation p = Some (rec_id f)"
    using ok by (cases "ap_reconciliation p") (simp_all add: landed_def)
qed (simp add: landed_def filter_landed_other)

lemma landed_simps [simp]:
  "ap_reconciliation (landed f p) = ap_reconciliation p" "ap_isLoading (landed f p) = ap_isLoading p"
  "ap_sessionPresent (landed f p) = ap_sessionPresent p" "ap_sessionRevision (landed f p) = ap_sessionRevision p"
  "ap_userRef (landed f p) = ap_userRef p" "ap_user (landed f p) = ap_user p" "ap_mounted (landed f p) = ap_mounted p"
  "ap_authAttempt (landed f p) = ap_authAttempt p"
  by (simp_all add: landed_def)

lemma reconcileSession_single: "single_flights p \<Longrightarrow> single_flights (snd (reconcileSession p))"
  by (cases "ap_reconciliation p") (simp_all add: single_flights_def reconcileSession_def waits_def)

lemma single_flights_commit [simp]: "single_flights (commitUser u p) = single_flights p"
  by (simp add: single_flights_def commitUser_def)

lemma single_flights_calls [simp]: "single_flights (calls c p) = single_flights p"
  by (simp add: single_flights_def calls_def)

lemma single_flights_resumed:
  assumes inv: "single_flights p" and f: "f \<in> set (ap_flights p)" and "resumed f a (landed f p) = Some p'"
  shows "single_flights p'"
  using assms(3)
  apply (cases rule: resumed_elim)
  using launch_landed [OF inv f] rec_landed [OF inv f] inv
  by (auto simp: auth_ops single_flights_def canRevealCachedMember_def split: sum.splits option.splits if_splits)

lemma auth_next_cases:
  assumes "auth_next l p = Some p'"
  obtains f a where "l = Answered f a" "f \<in> set (ap_flights p)" "resumed f a (landed f p) = Some p'"
  | s where "l = AppStateChanged s" "p' = on_app_state s p"
  | st where "l = ConnectivityChanged st" "p' = on_connectivity st p"
  | "l = Expired" "p' = on_expired p"
  | m where "l = SignInCalled m" "p' = begin_sign_in m p" "\<not> ap_isLoading p"
  | "l = LogoutCalled" "p' = begin_logout p" "\<not> ap_isLoading p"
  | "l = EverywhereCalled" "p' = begin_everywhere p" "\<not> ap_isLoading p"
  | "l = RefreshCalled" "p' = snd (begin_refreshUser p)" "\<not> ap_isLoading p"
  | "l = Unmounted" "p' = unmount p"
  using assms by (cases l) (auto split: if_splits)

lemma single_flights_next:
  assumes inv: "single_flights p" and "auth_next l p = Some p'"
  shows "single_flights p'"
  using assms(2)
proof (cases rule: auth_next_cases)
  case (1 f a)
  with inv show ?thesis by (blast intro: single_flights_resumed)
next
  case (2 s)
  have "single_flights (p\<lparr>ap_previousState := s\<rparr>)" using inv by (simp add: single_flights_def)
  then show ?thesis using 2 reconcileSession_single by (auto simp: on_app_state_def Let_def)
next
  case (3 st)
  then show ?thesis using inv by (simp add: on_connectivity_def reconcileSession_single)
qed (use inv in \<open>auto simp: auth_ops single_flights_def split: option.splits\<close>)

lemma single_flights_mounted: "single_flights (provider_mounted s)"
  by (simp add: single_flights_def provider_mounted_def)

definition auth_reachable :: "auth_provider \<Rightarrow> bool" where
  "auth_reachable p \<longleftrightarrow> (\<exists>s tr. auth_run (provider_mounted s) tr p)"

lemma auth_run_induct_inv:
  assumes "auth_run p tr q" and "I p" and "\<And>l p p'. I p \<Longrightarrow> auth_next l p = Some p' \<Longrightarrow> I p'"
  shows "I q"
  using assms(1,2) by induction (auto simp: auth_step_iff intro: assms(3))

lemma reachable_inv:
  assumes "auth_reachable p" and "\<And>s. I (provider_mounted s)"
    and "\<And>l p p'. I p \<Longrightarrow> auth_next l p = Some p' \<Longrightarrow> I p'"
  shows "I p"
  using assms by (auto simp: auth_reachable_def intro: auth_run_induct_inv [where I = I])

lemma reachable_single_flights: "auth_reachable p \<Longrightarrow> single_flights p"
  by (erule reachable_inv) (auto intro: single_flights_mounted single_flights_next)

subsection \<open>The number of an attempt, and what is shown\<close>

definition attempts_ok :: "auth_provider \<Rightarrow> bool" where
  "attempts_ok p \<longleftrightarrow> (\<forall>n m. SignIn n m \<in> set (ap_flights p) \<longrightarrow> n \<le> ap_authAttempt p)"

definition shows_reference :: "auth_provider \<Rightarrow> bool" where
  "shows_reference p \<longleftrightarrow> (ap_mounted p \<longrightarrow> ap_user p = ap_userRef p)"

lemma landed_subset: "g \<in> set (ap_flights (landed f p)) \<Longrightarrow> g \<in> set (ap_flights p)"
  by (simp add: landed_def) (meson notin_set_remove1)

lemma attempts_ok_landed: "attempts_ok p \<Longrightarrow> attempts_ok (landed f p)"
  by (auto simp: attempts_ok_def dest: landed_subset)

lemma attempts_ok_resumed: "attempts_ok p \<Longrightarrow> resumed f a p = Some p' \<Longrightarrow> attempts_ok p'"
  by (erule resumed_elim) (auto simp: attempts_ok_def auth_ops split: sum.splits option.splits if_splits)

lemma attempts_ok_next: "attempts_ok p \<Longrightarrow> auth_next l p = Some p' \<Longrightarrow> attempts_ok p'"
  by (erule auth_next_cases)
    (auto intro: attempts_ok_resumed attempts_ok_landed,
     (fastforce simp: attempts_ok_def auth_ops split: option.splits if_splits)+)

lemma reachable_attempts: "auth_reachable p \<Longrightarrow> attempts_ok p"
  by (erule reachable_inv) (simp add: attempts_ok_def provider_mounted_def, rule attempts_ok_next)

lemma shows_reference_landed: "shows_reference (landed f p) = shows_reference p"
  by (simp add: shows_reference_def)

lemma shows_reference_resumed: "shows_reference p \<Longrightarrow> resumed f a p = Some p' \<Longrightarrow> shows_reference p'"
  by (erule resumed_elim) (auto simp: shows_reference_def auth_ops split: sum.splits option.splits if_splits)

lemma shows_reference_next:
  assumes "shows_reference p" and "auth_next l p = Some p'"
  shows "shows_reference p'"
  using assms(2)
proof (cases rule: auth_next_cases)
  case (1 f a)
  show ?thesis
    by (rule shows_reference_resumed [OF _ 1(3)]) (simp add: shows_reference_landed assms(1))
qed (use assms(1) in \<open>auto simp: shows_reference_def auth_ops split: option.splits if_splits\<close>)

lemma reachable_shows: "auth_reachable p \<Longrightarrow> shows_reference p"
  by (erule reachable_inv) (simp add: shows_reference_def provider_mounted_def, rule shows_reference_next)

subsection \<open>Signed out\<close>

text \<open>Nobody is signed in, and no sign-in in progress may still be committed.\<close>

definition nobody_signed_in :: "auth_provider \<Rightarrow> bool" where
  "nobody_signed_in p \<longleftrightarrow> \<not> ap_sessionPresent p \<and> ap_userRef p = None
     \<and> LaunchToken \<notin> set (ap_flights p) \<and> LaunchStored \<notin> set (ap_flights p)
     \<and> (\<forall>n m. SignIn n m \<in> set (ap_flights p) \<longrightarrow> n < ap_authAttempt p)"

lemma may_commit_absent [simp]: "\<not> ap_sessionPresent p \<Longrightarrow> \<not> may_commit r p"
  by (auto dest: may_commitD)

lemma nobody_landed: "nobody_signed_in p \<Longrightarrow> nobody_signed_in (landed f p)"
  by (auto simp: nobody_signed_in_def dest: landed_subset)

lemma nobody_answered:
  assumes "resumed f a q = Some p'" and "nobody_signed_in q" and "f \<noteq> LaunchToken" and "f \<noteq> LaunchStored"
    and "\<And>n m. f = SignIn n m \<Longrightarrow> n \<noteq> ap_authAttempt q"
  shows "nobody_signed_in p'"
  using assms(1)
proof (rule resumed_elim)
qed (use assms(2-5) in \<open>auto simp: nobody_signed_in_def auth_ops split: sum.splits option.splits if_splits\<close>)

lemma nobody_resumed:
  assumes "nobody_signed_in p" and "f \<in> set (ap_flights p)" and "resumed f a (landed f p) = Some p'"
  shows "nobody_signed_in p'"
  using assms(3) nobody_landed [OF assms(1)]
  by (rule nobody_answered) (use assms(1,2) in \<open>auto simp: nobody_signed_in_def\<close>)

lemma nobody_reconcile: "nobody_signed_in p \<Longrightarrow> nobody_signed_in (snd (reconcileSession p))"
  by (auto simp: nobody_signed_in_def reconcileSession_def waits_def split: option.splits)

lemma nobody_next:
  assumes "nobody_signed_in p" and "auth_next l p = Some p'" and "\<And>m. l \<noteq> SignInCalled m"
  shows "nobody_signed_in p'"
  using assms(2)
proof (cases rule: auth_next_cases)
  case (1 f a)
  then show ?thesis using assms(1) by (blast intro: nobody_resumed)
next
  case (3 st)
  then show ?thesis using assms(1) by (simp add: on_connectivity_def nobody_reconcile)
qed (use assms(1,3) in \<open>auto simp: nobody_signed_in_def auth_ops split: option.splits if_splits\<close>)

lemma loaded_launch:
  assumes "auth_reachable p" and "\<not> ap_isLoading p"
  shows "LaunchToken \<notin> set (ap_flights p) \<and> LaunchStored \<notin> set (ap_flights p)"
proof -
  have "launch_ok False (launching p)"
    using reachable_single_flights [OF assms(1)] assms(2) by (simp add: single_flights_def)
  then have "LaunchToken \<notin> set (launching p) \<and> LaunchStored \<notin> set (launching p)"
    by (auto simp only: launch_ok_def list.set)
  then show ?thesis by simp
qed

lemma sign_out_leaves_nobody:
  assumes "auth_reachable p" and "\<not> ap_isLoading p" and "p' \<in> {begin_logout p, on_expired p}"
  shows "nobody_signed_in p'"
proof -
  have "n < ap_authAttempt p + 1" if "SignIn n m \<in> set (ap_flights p)" for n m
    using reachable_attempts [OF assms(1)] that by (force simp: attempts_ok_def)
  then show ?thesis
    using loaded_launch [OF assms(1,2)] assms(3)
    by (auto simp: nobody_signed_in_def begin_logout_def on_expired_def commitUser_def)
qed

subsection \<open>Where the shown member comes from\<close>

text \<open>A step that may show a member at a revision of the session: the cached profile at the launch, the
  answer to a sign-in, or the answer to a lookup started at this very revision.\<close>

fun provides :: "auth_label \<Rightarrow> int \<Rightarrow> User \<Rightarrow> bool" where
  "provides (Answered LaunchStored (AnsStored (Inr (Some v)))) r u \<longleftrightarrow> v = u"
| "provides (Answered (SignIn n m) (AnsSignIn c (Inr v))) r u \<longleftrightarrow> v = u"
| "provides (Answered (RecFetch k started e t) (AnsUser (Inr v))) r u \<longleftrightarrow> started = r \<and> v = u"
| "provides (Answered (RecReplace k started v) AnsDone) r u \<longleftrightarrow> started = r \<and> v = u"
| "provides (Answered (RefFetch started e t) (AnsUser (Inr v))) r u \<longleftrightarrow> started = r \<and> v = u"
| "provides (Answered (RefReplace started v) AnsDone) r u \<longleftrightarrow> started = r \<and> v = u"
| "provides _ r u \<longleftrightarrow> False"

definition launch_first :: "auth_provider \<Rightarrow> bool" where
  "launch_first p \<longleftrightarrow> (LaunchToken \<in> set (ap_flights p) \<longrightarrow>
     ap_flights p = [LaunchToken] \<and> \<not> ap_sessionPresent p \<and> ap_userRef p = None \<and> ap_isLoading p)"

lemma launch_first_answered:
  "resumed f a q = Some p' \<Longrightarrow> LaunchToken \<notin> set (ap_flights q) \<Longrightarrow> LaunchToken \<notin> set (ap_flights p')"
  by (erule resumed_elim) (auto simp: auth_ops split: sum.splits option.splits if_splits)

lemma launch_first_next:
  assumes "launch_first p" and "auth_next l p = Some p'"
  shows "launch_first p'"
  using assms(2)
proof (cases rule: auth_next_cases)
  case (1 f a)
  have "LaunchToken \<notin> set (ap_flights (landed f p))"
    using assms(1) 1(2) landed_subset [of LaunchToken f p] by (auto simp: launch_first_def landed_def)
  then show ?thesis using launch_first_answered [OF 1(3)] by (simp add: launch_first_def)
qed (use assms(1) in \<open>auto simp: launch_first_def auth_ops shouldRecoverPendingIdentity_def
       split: option.splits if_splits\<close>)

lemma reachable_launch_first: "auth_reachable p \<Longrightarrow> launch_first p"
  by (erule reachable_inv) (simp add: launch_first_def provider_mounted_def, rule launch_first_next)

lemma answered_source:
  assumes "resumed f a q = Some p'" and "f = LaunchToken \<Longrightarrow> ap_userRef q = None"
    and "ap_sessionPresent p'" and "ap_userRef p' = Some u"
  shows "provides (Answered f a) (ap_sessionRevision p') u
     \<or> ap_sessionPresent q \<and> ap_userRef q = Some u \<and> ap_sessionRevision p' = ap_sessionRevision q"
  using assms(1)
proof (rule resumed_elim)
qed (use assms(2-4) in \<open>auto simp: auth_ops dest: may_commitD split: sum.splits option.splits if_splits\<close>)

lemma next_source:
  assumes "auth_next l p = Some p'" and "launch_first p" and "ap_sessionPresent p'" and "ap_userRef p' = Some u"
  shows "provides l (ap_sessionRevision p') u
     \<or> ap_sessionPresent p \<and> ap_userRef p = Some u \<and> ap_sessionRevision p' = ap_sessionRevision p"
  using assms(1)
proof (cases rule: auth_next_cases)
  case (1 f a)
  have "f = LaunchToken \<Longrightarrow> ap_userRef (landed f p) = None"
    using assms(2) 1(2) by (simp add: launch_first_def)
  from answered_source [OF 1(3) this assms(3,4)] show ?thesis using 1(1) by simp
qed (use assms(3,4) in \<open>auto simp: auth_ops split: option.splits if_splits\<close>)

text \<open>A run given by its labels.\<close>

fun auth_exec :: "auth_label list \<Rightarrow> auth_provider \<Rightarrow> auth_provider option" where
  "auth_exec [] p = Some p"
| "auth_exec (l # ls) p = (case auth_next l p of None \<Rightarrow> None | Some p' \<Rightarrow> auth_exec ls p')"

lemma auth_run_append:
  assumes "auth_run q tr' q'" and "auth_run p tr q"
  shows "auth_run p (tr' @ tr) q'"
  using assms by induction (simp_all add: auth_run.on)

lemma auth_exec_run: "auth_exec ls p = Some q \<Longrightarrow> \<exists>tr. auth_run p tr q \<and> map fst tr = rev ls"
proof (induction ls arbitrary: p)
  case Nil
  then show ?case by (auto intro!: exI [of _ "[]"] auth_run.here)
next
  case (Cons l ls)
  then obtain p' where first: "auth_next l p = Some p'" and "auth_exec ls p' = Some q"
    by (auto split: option.splits)
  then obtain tr where "auth_run p' tr q" "map fst tr = rev ls" using Cons.IH by blast
  moreover have "auth_run p [(l, p')] p'"
    using auth_run.on [OF auth_run.here auth_step.step [OF first]] by simp
  ultimately show ?case
    using auth_run_append by (intro exI [of _ "tr @ [(l, p')]"]) fastforce
qed

section \<open>Properties\<close>

text \<open>C4: while a session is present, the member shown belongs to it. In every order in which the calls, the device
  events and the answers arrive, while a session is present the member the provider holds was given to it
  at the current revision of the session: by the cached profile read at the launch, by a sign-in, or by
  a lookup started at this revision, so that no lookup that began before a sign-out, an expiry or a newer sign-in
  shows a member then. At most one launch and at most one reconciliation are in progress. (Without a session a member
  can be shown: lemma \<open>expired_member_is_shown_at_launch\<close>.)\<close>

theorem shown_member_is_of_current_session:
  assumes "auth_run (provider_mounted s) tr p"
  shows "(ap_sessionPresent p \<and> ap_userRef p = Some u \<longrightarrow>
      (\<exists>(l, q)\<in>set tr. provides l (ap_sessionRevision p) u
         \<and> ap_userRef q = Some u \<and> ap_sessionRevision q = ap_sessionRevision p))
    \<and> (ap_mounted p \<longrightarrow> ap_user p = ap_userRef p) \<and> single_flights p"
proof -
  have reachable: "auth_reachable p" using assms by (auto simp: auth_reachable_def)
  have "\<exists>(l, q)\<in>set tr. provides l (ap_sessionRevision p) u
         \<and> ap_userRef q = Some u \<and> ap_sessionRevision q = ap_sessionRevision p"
    if "ap_sessionPresent p" and "ap_userRef p = Some u"
    using assms that
  proof induction
    case here
    then show ?case by (simp add: provider_mounted_def)
  next
    case (on tr q l q')
    have "launch_first q" using on.hyps(1) by (intro reachable_launch_first) (auto simp: auth_reachable_def)
    with on show ?case by (auto simp: auth_step_iff dest!: next_source)
  qed
  then show ?thesis
    using reachable_shows [OF reachable] reachable_single_flights [OF reachable]
    by (simp add: shows_reference_def)
qed

text \<open>C7: signed out stays signed out. After a logout, or after the session expired once the launch was
  over, nobody is shown in whatever follows until a new sign-in is called: not by an answer that was
  still awaited, not by a reconciliation, and not by a sign-in that was in progress.\<close>

theorem signed_out_until_next_sign_in:
  assumes "auth_reachable p" and "\<not> ap_isLoading p" and "l \<in> {LogoutCalled, Expired}"
    and "auth_next l p = Some q" and "auth_run q tr q'" and "\<forall>m. SignInCalled m \<notin> fst ` set tr"
  shows "ap_userRef q' = None \<and> \<not> ap_sessionPresent q' \<and> (ap_mounted q' \<longrightarrow> ap_user q' = None)"
proof -
  have "nobody_signed_in q"
    using sign_out_leaves_nobody [OF assms(1,2)] assms(3,4) by (auto split: if_splits)
  with assms(5,6) have "nobody_signed_in q'"
    by induction (auto simp: auth_step_iff intro: nobody_next)
  moreover have "auth_reachable q'"
    using assms(1,4,5) auth_run_append auth_run.on auth_step.step unfolding auth_reachable_def by blast
  ultimately show ?thesis
    using reachable_shows by (auto simp: nobody_signed_in_def shows_reference_def)
qed

section \<open>Witnesses and deviations\<close>

definition ama :: User where
  "ama = \<lparr>us_id = js ''u1'', us_memberId = js ''m1'', us_firstName = js ''Ama'', us_lastName = js ''Mensah'',
     us_email = [], us_phone = js ''+233200000001'', us_avatar = None, us_churchId = js ''c1'',
     us_churchName = None, us_role = js ''MEMBER''\<rparr>"

text \<open>A launch with a cached member, and its first reconciliation.\<close>

definition cached_launch :: "auth_label list" where
  "cached_launch =
     [Answered LaunchToken (AnsToken (Inr (Some (js ''a1'')))), Answered LaunchStored (AnsStored (Inr (Some ama))),
      Answered (RecToken 0 0 (Some ama)) (AnsToken (Inr (Some (js ''r1''))))]"

definition cached_state :: auth_provider where
  "cached_state =
     \<lparr>ap_user = Some ama, ap_isLoading = False, ap_userRef = Some ama, ap_mounted = True,
      ap_reconciliation = Some 0, ap_sessionPresent = True, ap_sessionRevision = 0, ap_authAttempt = 0,
      ap_previousState = js ''active'', ap_flights = [RecFetch 0 0 (Some ama) (Some (js ''r1''))],
      ap_calls = [], ap_promises = 1\<rparr>"

lemma cached_launch_state: "auth_exec cached_launch (provider_mounted (js ''active'')) = Some cached_state"
  by (simp add: cached_launch_def cached_state_def provider_mounted_def auth_ops landed_def given_def
      canRevealCachedMember_def js_def)

lemma shown_member_is_of_current_session_witness:
  "\<exists>tr. auth_run (provider_mounted (js ''active'')) tr cached_state
     \<and> (\<exists>(l, q)\<in>set tr. provides l 0 ama \<and> ap_userRef q = Some ama \<and> ap_sessionRevision q = 0)"
proof -
  obtain tr where "auth_run (provider_mounted (js ''active'')) tr cached_state"
    using auth_exec_run [OF cached_launch_state] by blast
  with shown_member_is_of_current_session [OF this, of ama] show ?thesis
    by (auto simp: cached_state_def)
qed

text \<open>The member signs out while the reconciliation waits for the gateway, whose answer comes afterwards.\<close>

lemma signed_out_until_next_sign_in_witness:
  "case auth_next LogoutCalled cached_state of
     Some q \<Rightarrow> (case auth_next (Answered (RecFetch 0 0 (Some ama) (Some (js ''r1''))) (AnsUser (Inr ama))) q of
       Some q' \<Rightarrow> ap_userRef q' = None \<and> ap_user q' = None | None \<Rightarrow> False)
   | None \<Rightarrow> False"
proof -
  let ?l = "Answered (RecFetch 0 0 (Some ama) (Some (js ''r1''))) (AnsUser (Inr ama))"
  obtain q where q: "auth_next LogoutCalled cached_state = Some q" and
      flights: "ap_flights q = [RecFetch 0 0 (Some ama) (Some (js ''r1''))]" "ap_mounted q"
    by (simp add: cached_state_def begin_logout_def commitUser_def)
  obtain q' where q': "auth_next ?l q = Some q'" and mounted: "ap_mounted q'"
    using flights by (auto simp: auth_ops split: if_splits)
  have "auth_reachable cached_state"
    using auth_exec_run [OF cached_launch_state] by (auto simp: auth_reachable_def)
  moreover have "auth_run q [(?l, q')] q'"
    using auth_run.on [OF auth_run.here auth_step.step [OF q']] by simp
  ultimately have "ap_userRef q' = None \<and> \<not> ap_sessionPresent q' \<and> (ap_mounted q' \<longrightarrow> ap_user q' = None)"
    using signed_out_until_next_sign_in [where l = LogoutCalled, OF _ _ _ q]
    by (simp add: cached_state_def)
  then show ?thesis using q q' mounted by simp
qed

text \<open>The session expires while the launch reads the cached profile: the listener signs the member out, and
  the launch shows the cached member afterwards, without a session.\<close>

lemma expired_member_is_shown_at_launch:
  "case auth_exec [Answered LaunchToken (AnsToken (Inr (Some (js ''a1'')))), Expired,
      Answered LaunchStored (AnsStored (Inr (Some ama)))] (provider_mounted (js ''active'')) of
     Some q \<Rightarrow> ap_user q = Some ama \<and> \<not> ap_isLoading q \<and> \<not> ap_sessionPresent q
   | None \<Rightarrow> False"
  by (simp add: provider_mounted_def auth_ops landed_def given_def canRevealCachedMember_def js_def)

text \<open>A rejected reconciliation does not count as a change of the sign-in attempt: a sign-in that is answered
  while the rejected session is being cleared shows its member, and the end of the reconciliation takes the
  member away again, although the newer session is present.\<close>

lemma rejected_reconciliation_ends_newer_sign_in:
  "case auth_exec
     [Answered LaunchToken (AnsToken (Inr (Some (js ''a1'')))), Answered LaunchStored (AnsStored (Inr None)),
      Answered (RecToken 0 0 None) (AnsToken (Inr (Some (js ''r1'')))),
      Answered (RecFetch 0 0 None (Some (js ''r1''))) (AnsUser (Inl (AxiosError None))),
      Answered (LaunchJoined 0) AnsDone,
      ConnectivityChanged \<lparr>isConnected = Some True, isInternetReachable = Some True\<rparr>,
      Answered (RecToken 1 0 None) (AnsToken (Inr (Some (js ''r1'')))),
      SignInCalled login_refusal,
      Answered (RecFetch 1 0 None (Some (js ''r1''))) (AnsUser (Inl (AxiosError (Some (401, JNull))))),
      Answered (SignIn 1 login_refusal) (AnsSignIn True (Inr ama)),
      Answered (RecCleared 1) AnsDone] (provider_mounted (js ''active'')) of
     Some q \<Rightarrow> ap_user q = None \<and> ap_sessionPresent q \<and> ap_calls q = [ClearSession]
   | None \<Rightarrow> False"
  by (simp add: provider_mounted_def auth_ops landed_def given_def canRevealCachedMember_def js_def
      shouldRecoverPendingIdentity_def isKnownOffline_def may_commit_iff max_safe_integer_def
      isTerminalMemberSessionError_def isAuthenticationRejection_def)

end
