(* ===== verification/GivingCheckout.thy ===== *)
theory GivingCheckout
  imports GivingRecords Gates
begin

text \<open>
  The giving screen of the mobile app (\<open>screens/giving/GivingScreen.tsx\<close>): the form, the campaigns and
  pledges it offers, and the checkout from the quote over the review to the payment page. One checkout is
  an attempt with the identity it started for and the lock it holds; what it awaits is a \<open>checkout_flow\<close>.
  What the gateway, the member, the navigator and the network do is a step.
\<close>

section \<open>What the screen decides\<close>

record giving_identity =
  gi_churchId :: "jsstring option"
  gi_memberId :: "jsstring option"

definition givingAttemptBelongsToIdentity :: "giving_identity \<Rightarrow> jsstring \<Rightarrow> jsstring \<Rightarrow> bool \<Rightarrow> bool" where
  "givingAttemptBelongsToIdentity active startedChurchId startedMemberId mounted \<longleftrightarrow>
     mounted \<and> gi_churchId active = Some startedChurchId \<and> gi_memberId active = Some startedMemberId"

definition canContinueGivingCheckout :: "giving_identity \<Rightarrow> jsstring \<Rightarrow> jsstring \<Rightarrow> bool \<Rightarrow> bool" where
  "canContinueGivingCheckout active startedChurchId startedMemberId offline \<longleftrightarrow>
     \<not> offline \<and> givingAttemptBelongsToIdentity active startedChurchId startedMemberId True"

definition givingInitiationErrorMessage :: "bool \<Rightarrow> js_error \<Rightarrow> jsstring" where
  "givingInitiationErrorMessage checkoutCreated e =
     (if checkoutCreated
      then js ''A pending checkout was created, but the payment page could not be opened. Check giving history before trying again so you do not start a second payment.''
      else if isAmbiguousMutationFailure e
      then js ''We could not confirm whether a checkout was created. Check giving history before trying again so you do not start a second payment.''
      else apiErrorMessage e (js ''We could not start this gift.''))"

record action_copy =
  ac_label :: jsstring
  ac_disabled :: bool
  ac_hint :: jsstring

definition givingOptionsRetryAccessibility :: "bool \<Rightarrow> action_copy" where
  "givingOptionsRetryAccessibility offline =
     (if offline then \<lparr>ac_label = js ''Reconnect to retry'', ac_disabled = True,
        ac_hint = js ''Reconnect to reload campaigns and pledges.''\<rparr>
      else \<lparr>ac_label = js ''Try again'', ac_disabled = False,
        ac_hint = js ''Reloads your active campaigns and pledges.''\<rparr>)"

definition givingPrimaryActionState :: "jsstring \<Rightarrow> bool \<Rightarrow> bool \<Rightarrow> bool \<Rightarrow> action_copy" where
  "givingPrimaryActionState amount offline submitting identityComplete =
     (let canonicalAmount = canonicalGiftAmount amount
      in \<lparr>ac_label =
            (if submitting then js ''Preparing your secure review'' @ [0x2026]
             else if \<not> identityComplete then js ''Sign in again to give''
             else if offline then js ''Reconnect to review your gift''
             else case canonicalAmount of
                 Some a \<Rightarrow> js ''Review GHS '' @ a
               | None \<Rightarrow> js ''Enter an amount over GHS 0.00''),
          ac_disabled = (\<not> identityComplete \<or> offline \<or> canonicalAmount = None),
          ac_hint =
            (if \<not> identityComplete
             then js ''Your member session is missing church details. Sign in again before giving.''
             else if offline then js ''Reconnect to review fees and start a secure payment.''
             else if canonicalAmount = None
             then js ''Enter a positive amount using no more than 2 decimal places.''
             else js ''Shows the payment fee, levy and total debit before checkout.'')\<rparr>)"

section \<open>The form\<close>

record gift_form =
  gf_amount :: jsstring
  gf_type :: GivingType
  gf_campaignId :: "jsstring option"
  gf_pledgeId :: "jsstring option"
  gf_method :: GivingChannel
  gf_note :: jsstring
  gf_anonymous :: bool

definition empty_form :: gift_form where
  "empty_form = \<lparr>gf_amount = [], gf_type = Tithe, gf_campaignId = None, gf_pledgeId = None,
     gf_method = MobileMoney, gf_note = [], gf_anonymous = False\<rparr>"

text \<open>\<open>/^\d*(?:\.\d{0,2})?$/\<close>; a leading point gets a zero.\<close>

definition typed_amount :: "jsstring \<Rightarrow> jsstring option" where
  "typed_amount v =
     (let nextValue = (if starts_with [46] v then 48 # v else v);
          rest = dropWhile is_digit nextValue
      in if rest = [] \<or> hd rest = 46 \<and> length (tl rest) \<le> 2 \<and> list_all is_digit (tl rest)
         then Some nextValue else None)"

definition choose_type :: "GivingType \<Rightarrow> gift_form \<Rightarrow> gift_form" where
  "choose_type ty f = f\<lparr>gf_type := ty, gf_campaignId := None, gf_pledgeId := None\<rparr>"

definition choose_campaign :: "GivingCampaignOption \<Rightarrow> gift_form \<Rightarrow> gift_form" where
  "choose_campaign c f = f\<lparr>gf_type := CampaignGift, gf_campaignId := Some (co_id c), gf_pledgeId := None\<rparr>"

definition choose_pledge :: "GivingPledgeOption \<Rightarrow> gift_form \<Rightarrow> gift_form" where
  "choose_pledge p f = f\<lparr>gf_type := PledgePayment, gf_pledgeId := Some (po_id p),
     gf_campaignId := po_campaignId p, gf_anonymous := False\<rparr>"

text \<open>New options: \<open>campaignThen\<close> and \<open>pledgeThen\<close> are what was selected when the request was made, the
  values the update of the type reads; the updates of the selections read the current ones.\<close>

definition options_form ::
    "GivingCampaignOption list \<Rightarrow> GivingPledgeOption list \<Rightarrow> jsstring option \<Rightarrow> jsstring option \<Rightarrow> gift_form \<Rightarrow> gift_form" where
  "options_form campaigns pledges campaignThen pledgeThen f =
     (let offers_c = (\<lambda>c. c \<in> Some ` set (map co_id campaigns));
          offers_p = (\<lambda>p. p \<in> Some ` set (map po_id pledges))
      in f\<lparr>gf_type :=
             (if gf_type f = CampaignGift \<and> \<not> offers_c campaignThen then Tithe
              else if gf_type f = PledgePayment \<and> \<not> offers_p pledgeThen then Tithe
              else gf_type f),
           gf_campaignId :=
             (if gf_campaignId f \<noteq> Some [] \<and> offers_c (gf_campaignId f) then gf_campaignId f else None),
           gf_pledgeId :=
             (if gf_pledgeId f \<noteq> Some [] \<and> offers_p (gf_pledgeId f) then gf_pledgeId f else None)\<rparr>)"

definition gift_payload :: "jsstring \<Rightarrow> jsstring option \<Rightarrow> gift_form \<Rightarrow> (string \<times> jsval) list" where
  "gift_payload canonicalAmount email f =
     [(''amount'', JStr canonicalAmount), (''currency'', JStr (js ''GHS'')),
      (''type'', JStr (giving_type_text (gf_type f))), (''channel'', JStr (channel_text (gf_method f))),
      (''email'', if email \<in> {None, Some []} then JUndef else JStr (the email)),
      (''note'', if trim (gf_note f) = [] then JUndef else JStr (trim (gf_note f))),
      (''anonymous'', JBool (gf_anonymous f)),
      (''campaignId'', opt_val JStr (gf_campaignId f)), (''pledgeId'', opt_val JStr (gf_pledgeId f)),
      (''callbackUrl'', JStr MOBILE_PAYMENT_CALLBACK_URL)]"

section \<open>The screen\<close>

record giving_user =
  gu_identity :: giving_identity
  gu_email :: "jsstring option"

text \<open>A started checkout: the lock it acquired, and the member and church it started for.\<close>

record gift_attempt =
  ga_lock :: nat
  ga_churchId :: jsstring
  ga_memberId :: jsstring
  ga_payload :: "(string \<times> jsval) list"

datatype checkout_flow =
    Quoting gift_attempt
  | Reviewing gift_attempt LevyQuote
  | Paying gift_attempt int
  | AskingLink gift_attempt jsstring
  | OpeningLink gift_attempt jsstring

fun flow_attempt :: "checkout_flow \<Rightarrow> gift_attempt" where
  "flow_attempt (Quoting a) = a"
| "flow_attempt (Reviewing a q) = a"
| "flow_attempt (Paying a t) = a"
| "flow_attempt (AskingLink a u) = a"
| "flow_attempt (OpeningLink a u) = a"

text \<open>What happened to the member's money: a total was reviewed, a checkout was asked for with the total
  accepted, a payment page was opened; with the identity and the network at that moment.\<close>

datatype checkout_event =
    Reviewed gift_attempt int
  | CheckoutAsked gift_attempt int giving_identity bool
  | PageOpened gift_attempt jsstring giving_identity bool

text \<open>\<open>gc_locks\<close> is the number of submission locks created so far, \<open>gc_lock\<close> the current one and \<open>gc_held\<close> the
  locks that are acquired; \<open>gc_loads\<close> are the requests for options that are awaited.\<close>

record options_load =
  ol_ticket :: int
  ol_identity :: giving_identity
  ol_campaignId :: "jsstring option"
  ol_pledgeId :: "jsstring option"

record giving_screen =
  gc_form :: gift_form
  gc_campaigns :: "GivingCampaignOption list"
  gc_pledges :: "GivingPledgeOption list"
  gc_optionsLoading :: bool
  gc_optionsError :: jsstring
  gc_optionsGate :: int
  gc_loads :: "options_load list"
  gc_user :: giving_user
  gc_previous :: giving_identity
  gc_offline :: bool
  gc_mounted :: bool
  gc_submitting :: bool
  gc_error :: jsstring
  gc_lock :: nat
  gc_held :: "nat list"
  gc_locks :: nat
  gc_flows :: "checkout_flow list"
  gc_log :: "checkout_event list"

definition giving_mounted :: "giving_user \<Rightarrow> bool \<Rightarrow> giving_screen" where
  "giving_mounted user offline =
     \<lparr>gc_form = empty_form, gc_campaigns = [], gc_pledges = [], gc_optionsLoading = True, gc_optionsError = [],
      gc_optionsGate = 0, gc_loads = [], gc_user = user, gc_previous = gu_identity user, gc_offline = offline,
      gc_mounted = True, gc_submitting = False, gc_error = [], gc_lock = 0, gc_held = [], gc_locks = 1,
      gc_flows = [], gc_log = []\<rparr>"

definition ownsActiveIdentity :: "gift_attempt \<Rightarrow> giving_screen \<Rightarrow> bool" where
  "ownsActiveIdentity a s =
     givingAttemptBelongsToIdentity (gu_identity (gc_user s)) (ga_churchId a) (ga_memberId a) (gc_mounted s)"

definition canContinue :: "gift_attempt \<Rightarrow> giving_screen \<Rightarrow> bool" where
  "canContinue a s \<longleftrightarrow> ownsActiveIdentity a s \<and> \<not> gc_offline s"

subsection \<open>Identity and options\<close>

text \<open>A render with another user or another state of the network, and the effect that empties the form.\<close>

definition identity_effect :: "giving_screen \<Rightarrow> giving_screen" where
  "identity_effect s =
     (if gc_previous s = gu_identity (gc_user s) then s
      else s\<lparr>gc_lock := gc_locks s, gc_locks := gc_locks s + 1, gc_form := empty_form, gc_campaigns := [],
        gc_pledges := [], gc_error := [], gc_submitting := False, gc_previous := gu_identity (gc_user s)\<rparr>)"

text \<open>\<open>f\<close> is the form of the render the request belongs to.\<close>

definition begin_load :: "gift_form \<Rightarrow> giving_screen \<Rightarrow> giving_screen" where
  "begin_load f s =
     (let (ticket, revision) = request_begin (gc_optionsGate s)
      in s\<lparr>gc_optionsGate := revision, gc_optionsLoading := True, gc_optionsError := [],
           gc_loads := gc_loads s @ [\<lparr>ol_ticket = ticket, ol_identity = gu_identity (gc_user s),
             ol_campaignId = gf_campaignId f, ol_pledgeId = gf_pledgeId f\<rparr>]\<rparr>)"

definition options_effect :: "gift_form \<Rightarrow> giving_screen \<Rightarrow> giving_screen" where
  "options_effect f s = (if gc_offline s then s\<lparr>gc_optionsLoading := False\<rparr> else begin_load f s)"

definition invalidate_options :: "giving_screen \<Rightarrow> giving_screen" where
  "invalidate_options s = s\<lparr>gc_optionsGate := request_invalidate (gc_optionsGate s)\<rparr>"

definition rendered :: "giving_user \<Rightarrow> bool \<Rightarrow> giving_screen \<Rightarrow> giving_screen" where
  "rendered user offline s =
     (if gu_identity user = gu_identity (gc_user s) \<and> offline = gc_offline s
      then s\<lparr>gc_user := user\<rparr>
      else options_effect (gc_form s) (identity_effect
        ((invalidate_options s)\<lparr>gc_user := user, gc_offline := offline\<rparr>)))"

definition loaded_options ::
    "options_load \<Rightarrow> js_error + GivingCampaignOption list \<times> GivingPledgeOption list \<Rightarrow> giving_screen \<Rightarrow> giving_screen" where
  "loaded_options l answer s =
     (let s1 = s\<lparr>gc_loads := remove1 l (gc_loads s)\<rparr>
      in if \<not> isLatest (jint (ol_ticket l)) (gc_optionsGate s1) then s1
         else (case answer of
             Inl e \<Rightarrow> s1\<lparr>gc_optionsError := apiErrorMessage e (js ''Campaigns and pledges could not be loaded.'')\<rparr>
           | Inr (campaigns, pledges) \<Rightarrow>
               if ol_identity l \<noteq> gu_identity (gc_user s1) then s1
               else s1\<lparr>gc_campaigns := campaigns, gc_pledges := pledges,
                 gc_form := options_form campaigns pledges (ol_campaignId l) (ol_pledgeId l) (gc_form s1)\<rparr>)
           \<lparr>gc_optionsLoading := False\<rparr>)"

subsection \<open>Checkout\<close>

definition release :: "gift_attempt \<Rightarrow> giving_screen \<Rightarrow> giving_screen" where
  "release a s =
     (let s1 = s\<lparr>gc_held := removeAll (ga_lock a) (gc_held s)\<rparr>
      in if ownsActiveIdentity a s1 then s1\<lparr>gc_submitting := False\<rparr> else s1)"

definition owner_error :: "gift_attempt \<Rightarrow> jsstring \<Rightarrow> giving_screen \<Rightarrow> giving_screen" where
  "owner_error a m s = (if ownsActiveIdentity a s then s\<lparr>gc_error := m\<rparr> else s)"

definition goes_on :: "checkout_flow \<Rightarrow> giving_screen \<Rightarrow> giving_screen" where
  "goes_on f s = s\<lparr>gc_flows := gc_flows s @ [f]\<rparr>"

definition logs :: "checkout_event \<Rightarrow> giving_screen \<Rightarrow> giving_screen" where
  "logs e s = s\<lparr>gc_log := gc_log s @ [e]\<rparr>"

definition handleGive :: "giving_screen \<Rightarrow> giving_screen" where
  "handleGive s =
     (case canonicalGiftAmount (gf_amount (gc_form s)) of
        None \<Rightarrow> s\<lparr>gc_error :=
          js ''Enter an amount greater than GHS 0.00, using no more than 2 decimal places.''\<rparr>
      | Some canonicalAmount \<Rightarrow>
          (case (gi_churchId (gu_identity (gc_user s)), gi_memberId (gu_identity (gc_user s))) of
             (Some c, Some m) \<Rightarrow>
               if c = [] \<or> m = [] then s\<lparr>gc_error :=
                 js ''Your member session is missing church details. Sign in again before giving.''\<rparr>
               else if gc_lock s \<in> set (gc_held s) then s
               else goes_on (Quoting \<lparr>ga_lock = gc_lock s, ga_churchId = c, ga_memberId = m,
                     ga_payload = gift_payload canonicalAmount (gu_email (gc_user s)) (gc_form s)\<rparr>)
                   (s\<lparr>gc_held := gc_lock s # gc_held s, gc_error := [], gc_submitting := True\<rparr>)
           | _ \<Rightarrow> s\<lparr>gc_error :=
               js ''Your member session is missing church details. Sign in again before giving.''\<rparr>))"

definition quoted :: "gift_attempt \<Rightarrow> js_error + LevyQuote \<Rightarrow> giving_screen \<Rightarrow> giving_screen" where
  "quoted a answer s =
     (case answer of
        Inl e \<Rightarrow> release a (owner_error a (apiErrorMessage e (js ''We could not start this gift.'')) s)
      | Inr quote \<Rightarrow>
          if \<not> canContinue a s
          then release a (owner_error a
            (js ''You are offline. Reconnect to review this gift; no payment was started.'') s)
          else goes_on (Reviewing a quote) (logs (Reviewed a (lq_total quote)) s))"

text \<open>\<open>Not now\<close>, and the dismissal of the review when no payment was started.\<close>

definition declined :: "gift_attempt \<Rightarrow> giving_screen \<Rightarrow> giving_screen" where
  "declined a s = release a s"

definition accepted :: "gift_attempt \<Rightarrow> LevyQuote \<Rightarrow> giving_screen \<Rightarrow> giving_screen" where
  "accepted a quote s =
     (if \<not> canContinue a s
      then release a (owner_error a
        (js ''You are offline. Reconnect before continuing; no payment was started.'') s)
      else goes_on (Paying a (lq_total quote))
        (logs (CheckoutAsked a (lq_total quote) (gu_identity (gc_user s)) (gc_offline s))
          (s\<lparr>gc_submitting := True\<rparr>)))"

definition payment_failed :: "gift_attempt \<Rightarrow> bool \<Rightarrow> js_error \<Rightarrow> giving_screen \<Rightarrow> giving_screen" where
  "payment_failed a checkoutCreated e s =
     release a (owner_error a (givingInitiationErrorMessage checkoutCreated e) s)"

definition checkout_created :: "host \<Rightarrow> gift_attempt \<Rightarrow> js_error + GiveResult \<Rightarrow> giving_screen \<Rightarrow> giving_screen" where
  "checkout_created h a answer s =
     (case answer of
        Inl e \<Rightarrow> payment_failed a False e s
      | Inr result \<Rightarrow>
          if \<not> canContinue a s
          then release a (owner_error a
            (js ''Checkout was created but could not be opened while offline. Check giving history before trying again.'') s)
          else case safeCheckoutUrl h (JStr (gs_authorizationUrl result)) of
              None \<Rightarrow> payment_failed a True (throw ''The payment provider returned an unsafe checkout link.'') s
            | Some checkoutUrl \<Rightarrow> goes_on (AskingLink a checkoutUrl) s)"

definition link_supported :: "gift_attempt \<Rightarrow> jsstring \<Rightarrow> js_error + bool \<Rightarrow> giving_screen \<Rightarrow> giving_screen" where
  "link_supported a checkoutUrl answer s =
     (case answer of
        Inl e \<Rightarrow> payment_failed a True e s
      | Inr supported \<Rightarrow>
          if \<not> supported
          then payment_failed a True (throw ''This payment link cannot be opened on your device.'') s
          else if \<not> canContinue a s then release a s
          else goes_on (OpeningLink a checkoutUrl)
            (logs (PageOpened a checkoutUrl (gu_identity (gc_user s)) (gc_offline s)) s))"

definition link_opened :: "gift_attempt \<Rightarrow> js_error + unit \<Rightarrow> giving_screen \<Rightarrow> giving_screen" where
  "link_opened a answer s =
     (case answer of
        Inl e \<Rightarrow> payment_failed a True e s
      | Inr _ \<Rightarrow> release a
          (if canContinue a s then s\<lparr>gc_form := (gc_form s)\<lparr>gf_amount := [], gf_note := []\<rparr>\<rparr> else s))"

subsection \<open>Steps\<close>

text \<open>The controls of the form; they are disabled while a gift is submitted. The last argument is
  the error shown afterwards: typing an amount clears it.\<close>

inductive form_edit :: "giving_screen \<Rightarrow> gift_form \<Rightarrow> jsstring \<Rightarrow> bool" for s where
  amount: "length v \<le> 15 \<Longrightarrow> typed_amount v = Some w \<Longrightarrow> form_edit s ((gc_form s)\<lparr>gf_amount := w\<rparr>) []"
| quick: "w \<in> {js ''20'', js ''50'', js ''100'', js ''200'', js ''500''} \<Longrightarrow> form_edit s ((gc_form s)\<lparr>gf_amount := w\<rparr>) (gc_error s)"
| type: "ty \<in> {Tithe, Offering, Donation} \<Longrightarrow> form_edit s (choose_type ty (gc_form s)) (gc_error s)"
| campaign: "c \<in> set (gc_campaigns s) \<Longrightarrow> form_edit s (choose_campaign c (gc_form s)) (gc_error s)"
| pledge: "p \<in> set (gc_pledges s) \<Longrightarrow> form_edit s (choose_pledge p (gc_form s)) (gc_error s)"
| channel: "ch \<in> set PAYMENT_CHANNELS \<Longrightarrow> form_edit s ((gc_form s)\<lparr>gf_method := ch\<rparr>) (gc_error s)"
| memo: "length n \<le> 240 \<Longrightarrow> form_edit s ((gc_form s)\<lparr>gf_note := n\<rparr>) (gc_error s)"
| anonymous: "gf_type (gc_form s) \<noteq> PledgePayment \<Longrightarrow>
    form_edit s ((gc_form s)\<lparr>gf_anonymous := \<not> gf_anonymous (gc_form s)\<rparr>) (gc_error s)"

definition checkout_payload :: "gift_attempt \<Rightarrow> int \<Rightarrow> jsval" where
  "checkout_payload a t = JObj (ga_payload a @ [(''acceptedTotalMinor'', jint t)])"

definition lands :: "checkout_flow \<Rightarrow> giving_screen \<Rightarrow> giving_screen" where
  "lands f s = s\<lparr>gc_flows := remove1 f (gc_flows s)\<rparr>"

text \<open>One step; \<open>api\<close> is the gateway as the request of that step finds it.\<close>

inductive giving_step :: "host \<Rightarrow> giving_screen \<Rightarrow> giving_screen \<Rightarrow> bool" for h where
  render: "gc_mounted s \<Longrightarrow> giving_step h s (rendered user offline s)"
| edit: "gc_mounted s \<Longrightarrow> \<not> gc_submitting s \<Longrightarrow> form_edit s f m \<Longrightarrow>
    giving_step h s (s\<lparr>gc_form := f, gc_error := m\<rparr>)"
| reload: "gc_mounted s \<Longrightarrow> \<not> gc_offline s \<Longrightarrow> giving_step h s (begin_load (gc_form s) s)"
| options: "l \<in> set (gc_loads s) \<Longrightarrow> giving_step h s (loaded_options l answer s)"
| give: "gc_mounted s \<Longrightarrow> giving_step h s (handleGive s)"
| quote: "Quoting a \<in> set (gc_flows s) \<Longrightarrow>
    giving_step h s (quoted a (giving_quote api (JObj (ga_payload a))) (lands (Quoting a) s))"
| decline: "Reviewing a q \<in> set (gc_flows s) \<Longrightarrow> giving_step h s (declined a (lands (Reviewing a q) s))"
| accept: "Reviewing a q \<in> set (gc_flows s) \<Longrightarrow> giving_step h s (accepted a q (lands (Reviewing a q) s))"
| checkout: "Paying a t \<in> set (gc_flows s) \<Longrightarrow>
    giving_step h s (checkout_created h a
      (give h api (checkout_payload a t) (ga_churchId a) (ga_memberId a)) (lands (Paying a t) s))"
| supported: "AskingLink a u \<in> set (gc_flows s) \<Longrightarrow>
    giving_step h s (link_supported a u answer (lands (AskingLink a u) s))"
| opened: "OpeningLink a u \<in> set (gc_flows s) \<Longrightarrow>
    giving_step h s (link_opened a answer (lands (OpeningLink a u) s))"
| gone: "gc_mounted s \<Longrightarrow> giving_step h s (invalidate_options (s\<lparr>gc_mounted := False\<rparr>))"

inductive giving_reachable :: "host \<Rightarrow> giving_screen \<Rightarrow> bool" for h where
  start: "giving_reachable h (options_effect empty_form (giving_mounted user offline))"
| later: "giving_reachable h s \<Longrightarrow> giving_step h s s' \<Longrightarrow> giving_reachable h s'"

section \<open>Lemmas\<close>

text \<open>Locks: a checkout in progress holds a lock of its own.\<close>

definition flow_locks :: "giving_screen \<Rightarrow> nat list" where
  "flow_locks s = map (ga_lock \<circ> flow_attempt) (gc_flows s)"

definition locks_inv :: "giving_screen \<Rightarrow> bool" where
  "locks_inv s \<longleftrightarrow> distinct (flow_locks s) \<and> set (flow_locks s) \<subseteq> set (gc_held s)"

text \<open>Money: what was asked for and opened follows what was reviewed.\<close>

definition asked_for :: "gift_attempt \<Rightarrow> int \<Rightarrow> checkout_event list \<Rightarrow> nat" where
  "asked_for a t es1 = length (filter (\<lambda>e. case e of CheckoutAsked a' t' i b \<Rightarrow> a' = a \<and> t' = t | _ \<Rightarrow> False) es1)"

definition reviewed_for :: "gift_attempt \<Rightarrow> int \<Rightarrow> checkout_event list \<Rightarrow> nat" where
  "reviewed_for a t es1 = length (filter (\<lambda>e. e = Reviewed a t) es1)"

definition in_review :: "gift_attempt \<Rightarrow> int \<Rightarrow> checkout_flow list \<Rightarrow> nat" where
  "in_review a t fs = length (filter (\<lambda>f. case f of Reviewing a' q \<Rightarrow> a' = a \<and> lq_total q = t | _ \<Rightarrow> False) fs)"

fun flow_ok :: "host \<Rightarrow> checkout_event list \<Rightarrow> checkout_flow \<Rightarrow> bool" where
  "flow_ok h es1 (Paying a t) \<longleftrightarrow> 0 < asked_for a t es1"
| "flow_ok h es1 (AskingLink a u) \<longleftrightarrow> trusted_checkout h u \<and> (\<exists>t. 0 < asked_for a t es1)"
| "flow_ok h es1 (OpeningLink a u) \<longleftrightarrow> trusted_checkout h u \<and> (\<exists>t. 0 < asked_for a t es1)"
| "flow_ok h es1 _ \<longleftrightarrow> True"

definition of_attempt :: "gift_attempt \<Rightarrow> giving_identity \<Rightarrow> bool" where
  "of_attempt a i \<longleftrightarrow> gi_churchId i = Some (ga_churchId a) \<and> gi_memberId i = Some (ga_memberId a)"

fun event_ok :: "host \<Rightarrow> checkout_event list \<Rightarrow> checkout_event \<Rightarrow> bool" where
  "event_ok h es1 (CheckoutAsked a t i offline) \<longleftrightarrow> of_attempt a i \<and> \<not> offline"
| "event_ok h es1 (PageOpened a u i offline) \<longleftrightarrow>
     of_attempt a i \<and> \<not> offline \<and> trusted_checkout h u \<and> (\<exists>t. 0 < asked_for a t es1)"
| "event_ok h es1 (Reviewed a t) \<longleftrightarrow> True"

definition money_inv :: "host \<Rightarrow> giving_screen \<Rightarrow> bool" where
  "money_inv h s \<longleftrightarrow>
     (\<forall>a t. asked_for a t (gc_log s) + in_review a t (gc_flows s) \<le> reviewed_for a t (gc_log s))
     \<and> (\<forall>f\<in>set (gc_flows s). flow_ok h (gc_log s) f)
     \<and> (\<forall>e\<in>set (gc_log s). event_ok h (gc_log s) e)"

lemma asked_for_simps [simp]:
  "asked_for a t [] = 0" "reviewed_for a t [] = 0"
  "asked_for a t (es1 @ [CheckoutAsked a' t' i b]) = asked_for a t es1 + (if a' = a \<and> t' = t then 1 else 0)"
  "asked_for a t (es1 @ [Reviewed a' t']) = asked_for a t es1"
  "asked_for a t (es1 @ [PageOpened a' u i b]) = asked_for a t es1"
  "reviewed_for a t (es1 @ [CheckoutAsked a' t' i b]) = reviewed_for a t es1"
  "reviewed_for a t (es1 @ [Reviewed a' t']) = reviewed_for a t es1 + (if a' = a \<and> t' = t then 1 else 0)"
  "reviewed_for a t (es1 @ [PageOpened a' u i b]) = reviewed_for a t es1"
  by (simp_all add: asked_for_def reviewed_for_def)

lemma in_review_simps [simp]:
  "in_review a t [] = 0"
  "in_review a t (fs @ [f]) = in_review a t fs
     + (case f of Reviewing a' q \<Rightarrow> if a' = a \<and> lq_total q = t then 1 else 0 | _ \<Rightarrow> 0)"
  by (simp_all add: in_review_def split: checkout_flow.split)

lemma in_review_remove:
  "f \<in> set fs \<Longrightarrow> in_review a t fs = in_review a t (remove1 f fs)
     + (case f of Reviewing a' q \<Rightarrow> if a' = a \<and> lq_total q = t then 1 else 0 | _ \<Rightarrow> 0)"
  by (induction fs) (auto simp: in_review_def split: checkout_flow.splits)

lemma flow_ok_more:
  assumes "flow_ok h es1 f" and "\<And>a t. asked_for a t es1 \<le> asked_for a t es2"
  shows "flow_ok h es2 f"
  using assms(1) assms(2) by (cases f) (auto intro: less_le_trans)

lemma event_ok_more:
  assumes "event_ok h es1 e" and "\<And>a t. asked_for a t es1 \<le> asked_for a t es2"
  shows "event_ok h es2 e"
  using assms(1) assms(2) by (cases e) (auto intro: less_le_trans)

subsection \<open>Steps that leave the checkouts alone\<close>

definition same_money :: "giving_screen \<Rightarrow> giving_screen \<Rightarrow> bool" where
  "same_money s s' \<longleftrightarrow> gc_flows s' = gc_flows s \<and> gc_log s' = gc_log s \<and> gc_held s' = gc_held s"

lemma same_money_inv:
  "same_money s s' \<Longrightarrow> money_inv h s \<Longrightarrow> money_inv h s'"
  "same_money s s' \<Longrightarrow> locks_inv s \<Longrightarrow> locks_inv s'"
  by (simp_all add: same_money_def money_inv_def locks_inv_def flow_locks_def)

lemmas load_ops = identity_effect_def begin_load_def options_effect_def invalidate_options_def rendered_def
  loaded_options_def request_begin_def Let_def

lemma same_money_steps [simp]:
  "same_money s (rendered user offline s)" "same_money s (begin_load f s)" "same_money s (loaded_options l answer s)"
  "same_money s (s\<lparr>gc_form := f, gc_error := m\<rparr>)" "same_money s (invalidate_options (s\<lparr>gc_mounted := False\<rparr>))"
  by (simp_all add: same_money_def load_ops split: sum.splits prod.splits)

lemma same_money_start:
  "same_money (giving_mounted user offline) (options_effect empty_form (giving_mounted user offline))"
  by (simp add: same_money_def load_ops)

lemma money_start: "money_inv h (giving_mounted user offline)" "locks_inv (giving_mounted user offline)"
  by (simp_all add: money_inv_def locks_inv_def flow_locks_def giving_mounted_def)

subsection \<open>Steps of a checkout\<close>

lemma canContinueD: "canContinue a s \<Longrightarrow> of_attempt a (gu_identity (gc_user s)) \<and> \<not> gc_offline s"
  by (auto simp: canContinue_def ownsActiveIdentity_def givingAttemptBelongsToIdentity_def of_attempt_def)

text \<open>The log, the flows and the locks after the helpers of a step.\<close>

lemma release_same [simp]:
  "gc_log (release a s) = gc_log s" "gc_flows (release a s) = gc_flows s"
  "gc_held (release a s) = removeAll (ga_lock a) (gc_held s)"
  "gc_log (owner_error a m s) = gc_log s" "gc_flows (owner_error a m s) = gc_flows s" "gc_held (owner_error a m s) = gc_held s"
  "gc_log (goes_on f s) = gc_log s" "gc_flows (goes_on f s) = gc_flows s @ [f]" "gc_held (goes_on f s) = gc_held s"
  "gc_log (logs e s) = gc_log s @ [e]" "gc_flows (logs e s) = gc_flows s" "gc_held (logs e s) = gc_held s"
  "gc_log (lands f s) = gc_log s" "gc_flows (lands f s) = remove1 f (gc_flows s)" "gc_held (lands f s) = gc_held s"
  "gc_log (payment_failed a b x s) = gc_log s" "gc_flows (payment_failed a b x s) = gc_flows s"
  "gc_held (payment_failed a b x s) = removeAll (ga_lock a) (gc_held s)"
  by (simp_all add: release_def owner_error_def goes_on_def logs_def lands_def payment_failed_def Let_def)

lemma money_inv_landed:
  assumes "money_inv h s" and "f \<in> set (gc_flows s)"
  shows "\<And>a t. asked_for a t (gc_log s) + in_review a t (remove1 f (gc_flows s))
      + (case f of Reviewing a' q \<Rightarrow> if a' = a \<and> lq_total q = t then 1 else 0 | _ \<Rightarrow> 0) \<le> reviewed_for a t (gc_log s)"
    and "\<And>g. g \<in> set (remove1 f (gc_flows s)) \<Longrightarrow> flow_ok h (gc_log s) g"
    and "flow_ok h (gc_log s) f"
    and "\<And>e. e \<in> set (gc_log s) \<Longrightarrow> event_ok h (gc_log s) e"
proof -
  have inv: "\<forall>a t. asked_for a t (gc_log s) + in_review a t (gc_flows s) \<le> reviewed_for a t (gc_log s)"
    "\<forall>g\<in>set (gc_flows s). flow_ok h (gc_log s) g" "\<forall>e\<in>set (gc_log s). event_ok h (gc_log s) e"
    using assms(1) unfolding money_inv_def by blast+
  show "flow_ok h (gc_log s) g" if "g \<in> set (remove1 f (gc_flows s))" for g
    using inv(2) notin_set_remove1 that by fast
  show "flow_ok h (gc_log s) f"
    using inv(2) assms(2) by fast
  show "event_ok h (gc_log s) e" if "e \<in> set (gc_log s)" for e
    using inv(3) that by fast
  show "asked_for a t (gc_log s) + in_review a t (remove1 f (gc_flows s))
      + (case f of Reviewing a' q \<Rightarrow> if a' = a \<and> lq_total q = t then 1 else 0 | _ \<Rightarrow> 0) \<le> reviewed_for a t (gc_log s)" for a t
    using inv(1) [THEN spec, THEN spec, of a t] unfolding in_review_remove [OF assms(2), of a t] by linarith
qed

text \<open>A step that ends a flow, or replaces it by another with new events.\<close>

lemma money_inv_ends:
  assumes "money_inv h s" and "f \<in> set (gc_flows s)" and "gc_log s' = gc_log s" and "gc_flows s' = remove1 f (gc_flows s)"
  shows "money_inv h s'"
proof -
  have "asked_for a t (gc_log s) + in_review a t (remove1 f (gc_flows s)) \<le> reviewed_for a t (gc_log s)" for a t
    using money_inv_landed(1) [OF assms(1,2), of a t] by linarith
  then show ?thesis
    using money_inv_landed(2,4) [OF assms(1,2)] by (simp add: money_inv_def assms(3,4))
qed

lemma money_inv_goes_on:
  assumes inv: "money_inv h s" and f: "f \<in> set (gc_flows s)" and flows: "gc_flows s' = remove1 f (gc_flows s) @ [g]"
    and events: "gc_log s' = gc_log s @ es" and es: "es = [] \<or> es = [e]"
    and grows: "\<And>a t. asked_for a t (gc_log s) \<le> asked_for a t (gc_log s')"
    and new: "flow_ok h (gc_log s') g" "\<And>e. e \<in> set es \<Longrightarrow> event_ok h (gc_log s') e"
    and count: "\<And>a t. asked_for a t (gc_log s') + in_review a t (remove1 f (gc_flows s) @ [g]) \<le> reviewed_for a t (gc_log s')"
  shows "money_inv h s'"
  unfolding money_inv_def flows
proof (intro conjI ballI allI)
  fix k assume "k \<in> set (remove1 f (gc_flows s) @ [g])"
  then show "flow_ok h (gc_log s') k"
    using new(1) flow_ok_more [OF money_inv_landed(2) [OF inv f] grows] by auto
next
  fix e assume "e \<in> set (gc_log s')"
  then show "event_ok h (gc_log s') e"
    using new(2) event_ok_more [OF money_inv_landed(4) [OF inv f] grows] by (auto simp: events)
qed (rule count)

lemmas checkout_ops = quoted_def declined_def accepted_def checkout_created_def link_supported_def link_opened_def

lemma canContinue_lands [simp]: "canContinue a (lands f s) = canContinue a s"
  by (simp add: canContinue_def ownsActiveIdentity_def lands_def)

lemma lands_same [simp]: "gc_user (lands f s) = gc_user s" "gc_offline (lands f s) = gc_offline s"
  by (simp_all add: lands_def)

lemma money_inv_quoted:
  assumes "money_inv h s" and f: "Quoting a \<in> set (gc_flows s)"
  shows "money_inv h (quoted a answer (lands (Quoting a) s))"
proof (cases "\<exists>q. answer = Inr q \<and> canContinue a s")
  case True
  then obtain q where "answer = Inr q" "canContinue a s" by blast
  then show ?thesis
    using money_inv_landed(1) [OF assms]
    by (intro money_inv_goes_on [OF assms, where g = "Reviewing a q" and e = "Reviewed a (lq_total q)"
          and es = "[Reviewed a (lq_total q)]"]) (auto simp: quoted_def)
qed (rule money_inv_ends [OF assms], auto simp: quoted_def split: sum.splits)

lemma money_inv_accepted:
  assumes "money_inv h s" and f: "Reviewing a q \<in> set (gc_flows s)"
  shows "money_inv h (accepted a q (lands (Reviewing a q) s))"
proof (cases "canContinue a s")
  case True
  let ?e = "CheckoutAsked a (lq_total q) (gu_identity (gc_user s)) (gc_offline s)"
  have "asked_for a' t (gc_log s @ [?e]) + in_review a' t (remove1 (Reviewing a q) (gc_flows s))
      \<le> reviewed_for a' t (gc_log s)" for a' t
    using money_inv_landed(1) [OF assms, of a' t] by (simp split: if_splits)
  then show ?thesis
    using True canContinueD [OF True]
    by (intro money_inv_goes_on [OF assms, where g = "Paying a (lq_total q)" and e = ?e and es = "[?e]"])
      (auto simp: accepted_def)
qed (rule money_inv_ends [OF assms], simp_all add: accepted_def)

lemma money_inv_checkout:
  assumes "money_inv h s" and f: "Paying a t \<in> set (gc_flows s)"
  shows "money_inv h (checkout_created h a answer (lands (Paying a t) s))"
proof (cases "\<exists>r u. answer = Inr r \<and> canContinue a s \<and> safeCheckoutUrl h (JStr (gs_authorizationUrl r)) = Some u")
  case True
  then obtain r u where r: "answer = Inr r" "canContinue a s" "safeCheckoutUrl h (JStr (gs_authorizationUrl r)) = Some u"
    by blast
  then show ?thesis
    using money_inv_landed(1,3) [OF assms] safeCheckoutUrl_Some [OF r(3)]
    by (intro money_inv_goes_on [OF assms, where g = "AskingLink a u" and es = "[]"])
      (auto simp: checkout_created_def)
qed (rule money_inv_ends [OF assms], auto simp: checkout_created_def split: sum.splits option.splits)

lemma money_inv_supported:
  assumes "money_inv h s" and f: "AskingLink a u \<in> set (gc_flows s)"
  shows "money_inv h (link_supported a u answer (lands (AskingLink a u) s))"
proof (cases "answer = Inr True \<and> canContinue a s")
  case True
  let ?e = "PageOpened a u (gu_identity (gc_user s)) (gc_offline s)"
  show ?thesis
    using money_inv_landed(1,3) [OF assms] True canContinueD
    by (intro money_inv_goes_on [OF assms, where g = "OpeningLink a u" and e = ?e and es = "[?e]"])
      (auto simp: link_supported_def)
qed (rule money_inv_ends [OF assms], auto simp: link_supported_def split: sum.splits)

lemma money_inv_give: "money_inv h s \<Longrightarrow> money_inv h (handleGive s)"
  by (auto simp: money_inv_def handleGive_def split: option.splits)

lemma money_inv_step: "giving_step h s s' \<Longrightarrow> money_inv h s \<Longrightarrow> money_inv h s'"
proof (induction rule: giving_step.induct)
  case (decline a q s)
  then show ?case by (intro money_inv_ends [OF decline.prems decline.hyps]) (simp_all add: declined_def)
next
  case (opened a u s answer)
  then show ?case
    by (intro money_inv_ends [OF opened.prems opened.hyps]) (auto simp: link_opened_def split: sum.splits)
qed (auto intro: same_money_inv same_money_steps money_inv_give money_inv_quoted money_inv_accepted
      money_inv_checkout money_inv_supported)

subsection \<open>Locks\<close>

lemma flow_locks_remove: "distinct (map (ga_lock \<circ> flow_attempt) fs) \<Longrightarrow> f \<in> set fs \<Longrightarrow>
    distinct (map (ga_lock \<circ> flow_attempt) (remove1 f fs))
    \<and> set (map (ga_lock \<circ> flow_attempt) (remove1 f fs)) = set (map (ga_lock \<circ> flow_attempt) fs) - {ga_lock (flow_attempt f)}"
  by (induction fs) auto

lemma locks_inv_ends:
  assumes "locks_inv s" and "f \<in> set (gc_flows s)" and "gc_flows s' = remove1 f (gc_flows s)"
    and "gc_held s' = removeAll (ga_lock (flow_attempt f)) (gc_held s)"
  shows "locks_inv s'"
  using flow_locks_remove [of "gc_flows s" f] assms by (auto simp: locks_inv_def flow_locks_def)

lemma locks_inv_goes_on:
  assumes "locks_inv s" and "f \<in> set (gc_flows s)" and "gc_flows s' = remove1 f (gc_flows s) @ [g]"
    and "gc_held s' = gc_held s" and "flow_attempt g = flow_attempt f"
  shows "locks_inv s'"
proof -
  have "ga_lock (flow_attempt f) \<in> set (gc_held s)"
    using assms(1,2) by (force simp: locks_inv_def flow_locks_def)
  then show ?thesis
    using flow_locks_remove [of "gc_flows s" f] assms by (auto simp: locks_inv_def flow_locks_def)
qed

lemma locks_inv_step:
  assumes "giving_step h s s'" and inv: "locks_inv s"
  shows "locks_inv s'"
  using assms(1)
proof cases
  case give
  have "gc_lock s \<notin> set (gc_held s) \<Longrightarrow> gc_lock s \<notin> set (flow_locks s)"
    using inv by (auto simp: locks_inv_def)
  then show ?thesis
    using inv unfolding give by (auto simp: locks_inv_def flow_locks_def handleGive_def split: option.splits)
next
  case (quote a api)
  show ?thesis
    unfolding quote(1) quoted_def
    by (auto split: sum.splits intro: locks_inv_ends [OF inv quote(2)] locks_inv_goes_on [OF inv quote(2)])
next
  case (decline a q)
  show ?thesis
    unfolding decline(1) declined_def by (rule locks_inv_ends [OF inv decline(2)]) simp_all
next
  case (accept a q)
  show ?thesis
    unfolding accept(1) accepted_def
    by (auto intro: locks_inv_ends [OF inv accept(2)] locks_inv_goes_on [OF inv accept(2)])
next
  case (checkout a t api)
  show ?thesis
    unfolding checkout(1) checkout_created_def
    by (auto split: sum.splits option.splits intro: locks_inv_ends [OF inv checkout(2)] locks_inv_goes_on [OF inv checkout(2)])
next
  case (supported a u answer)
  show ?thesis
    unfolding supported(1) link_supported_def
    by (auto split: sum.splits intro: locks_inv_ends [OF inv supported(2)] locks_inv_goes_on [OF inv supported(2)])
next
  case (opened a u answer)
  show ?thesis
    unfolding opened(1) link_opened_def
    by (auto split: sum.splits intro: locks_inv_ends [OF inv opened(2)])
qed (use inv same_money_inv(2) same_money_steps in blast)+

lemma checkout_reachable_inv: "giving_reachable h s \<Longrightarrow> money_inv h s \<and> locks_inv s"
proof (induction rule: giving_reachable.induct)
  case (start user offline)
  show ?case using same_money_inv same_money_start money_start by blast
qed (blast intro: money_inv_step locks_inv_step)

section \<open>Properties\<close>

text \<open>C5: no payment without a reviewed total. In every order of renders, edits, answers and presses, a
  checkout is asked for only with a total that was shown to the member for this very attempt, once for
  every review at most, for the member and church that are signed in at that moment and online; a payment
  page is opened only for such a checkout, under the same conditions, and only at the payment provider;
  and no two checkouts in progress share a submission lock.\<close>

theorem no_payment_without_review:
  assumes "giving_reachable h s"
  shows "asked_for a t (gc_log s) \<le> reviewed_for a t (gc_log s)
    \<and> (CheckoutAsked a t i offline \<in> set (gc_log s) \<longrightarrow> of_attempt a i \<and> \<not> offline)
    \<and> (PageOpened a u i offline \<in> set (gc_log s) \<longrightarrow>
        of_attempt a i \<and> \<not> offline \<and> trusted_checkout h u \<and> (\<exists>t. 0 < asked_for a t (gc_log s)))
    \<and> distinct (flow_locks s)"
proof -
  have inv: "money_inv h s" "locks_inv s" using checkout_reachable_inv [OF assms] by blast+
  have "asked_for a t (gc_log s) \<le> reviewed_for a t (gc_log s)"
    using inv(1) unfolding money_inv_def by (meson add_leD1)
  moreover have "event_ok h (gc_log s) e" if "e \<in> set (gc_log s)" for e
    using inv(1) that by (simp add: money_inv_def)
  ultimately show ?thesis using inv(2) by (force simp: locks_inv_def)
qed

text \<open>A gift of fifty cedis, from the first key to the payment page.\<close>

definition sample_giver :: giving_user where
  "sample_giver = \<lparr>gu_identity = \<lparr>gi_churchId = Some (js ''c1''), gi_memberId = Some (js ''m1'')\<rparr>, gu_email = None\<rparr>"

definition sample_form :: gift_form where
  "sample_form = empty_form\<lparr>gf_amount := js ''50''\<rparr>"

definition sample_attempt :: gift_attempt where
  "sample_attempt = \<lparr>ga_lock = 0, ga_churchId = js ''c1'', ga_memberId = js ''m1'',
     ga_payload = gift_payload (js ''50.00'') None sample_form\<rparr>"

definition sample_quoting :: api where
  "sample_quoting _ = Inr (envelope (quote_json sample_quote))"

definition sample_link :: jsstring where
  "sample_link = js ''https://checkout.paystack.com/x''"

definition typed_fifty :: giving_screen where
  "typed_fifty = (options_effect empty_form (giving_mounted sample_giver False))\<lparr>gc_form := sample_form\<rparr>"

definition paid_fifty :: giving_screen where
  "paid_fifty = typed_fifty\<lparr>gc_held := [0], gc_error := [], gc_submitting := True,
     gc_log := [Reviewed sample_attempt 5100,
       CheckoutAsked sample_attempt 5100 (gu_identity sample_giver) False,
       PageOpened sample_attempt sample_link (gu_identity sample_giver) False],
     gc_flows := [OpeningLink sample_attempt sample_link]\<rparr>"

lemma sample_answers:
  "canonicalGiftAmount (js ''50'') = Some (js ''50.00'')"
  "giving_quote sample_quoting (JObj (ga_payload sample_attempt)) = Inr sample_quote"
  "give sample_host sample_checkout (checkout_payload sample_attempt 5100) (js ''c1'') (js ''m1'') = Inr sample_result"
  "safeCheckoutUrl sample_host (JStr sample_link) = Some sample_link"
  by code_simp+

lemma typed_fifty_reachable: "giving_reachable h typed_fifty"
proof -
  let ?s = "options_effect empty_form (giving_mounted sample_giver False)"
  have "giving_step h ?s (?s\<lparr>gc_form := (gc_form ?s)\<lparr>gf_amount := js ''50''\<rparr>, gc_error := gc_error ?s\<rparr>)"
  proof (rule giving_step.edit)
    show "form_edit ?s ((gc_form ?s)\<lparr>gf_amount := js ''50''\<rparr>) (gc_error ?s)"
      by (rule form_edit.quick) simp
  qed (simp_all add: load_ops giving_mounted_def)
  moreover have "?s\<lparr>gc_form := (gc_form ?s)\<lparr>gf_amount := js ''50''\<rparr>, gc_error := gc_error ?s\<rparr> = typed_fifty"
    by (simp add: typed_fifty_def sample_form_def load_ops giving_mounted_def)
  ultimately show ?thesis
    by (metis giving_reachable.start giving_reachable.later)
qed

lemma typed_fifty_fields [simp]:
  "gc_form typed_fifty = sample_form" "gc_user typed_fifty = sample_giver" "gc_offline typed_fifty = False"
  "gc_lock typed_fifty = 0" "gc_held typed_fifty = []" "gc_mounted typed_fifty" "gc_flows typed_fifty = []" "gc_log typed_fifty = []"
  by (simp_all add: typed_fifty_def load_ops giving_mounted_def)

lemma sample_fields [simp]:
  "gf_amount sample_form = js ''50''" "gu_email sample_giver = None" "ga_lock sample_attempt = 0"
  "gu_identity sample_giver = \<lparr>gi_churchId = Some (js ''c1''), gi_memberId = Some (js ''m1'')\<rparr>"
  "ga_churchId sample_attempt = js ''c1''" "ga_memberId sample_attempt = js ''m1''"
  "lq_total sample_quote = 5100" "gs_authorizationUrl sample_result = sample_link" "js ''c1'' \<noteq> []" "js ''m1'' \<noteq> []"
  by (simp_all add: sample_form_def sample_giver_def sample_attempt_def sample_quote_def sample_result_def sample_link_def js_def)

lemmas checkout_run = checkout_ops goes_on_def logs_def lands_def canContinue_def
  ownsActiveIdentity_def givingAttemptBelongsToIdentity_def

lemma paid_fifty_reachable: "giving_reachable sample_host paid_fifty"
proof -
  let ?busy = "typed_fifty\<lparr>gc_held := [0], gc_error := [], gc_submitting := True\<rparr>"
  let ?seen = "Reviewed sample_attempt 5100" let ?asked = "CheckoutAsked sample_attempt 5100 (gu_identity sample_giver) False"
  let ?s1 = "?busy\<lparr>gc_flows := [Quoting sample_attempt]\<rparr>"
  let ?s2 = "?busy\<lparr>gc_log := [?seen], gc_flows := [Reviewing sample_attempt sample_quote]\<rparr>"
  let ?s3 = "?busy\<lparr>gc_log := [?seen, ?asked], gc_flows := [Paying sample_attempt 5100]\<rparr>"
  let ?s4 = "?busy\<lparr>gc_log := [?seen, ?asked], gc_flows := [AskingLink sample_attempt sample_link]\<rparr>"
  have "handleGive typed_fifty = ?s1"
    by (simp add: handleGive_def goes_on_def sample_answers(1)) (simp add: sample_attempt_def)
  then have "giving_step sample_host typed_fifty ?s1"
    using giving_step.give [of typed_fifty] by simp
  moreover have "giving_step sample_host ?s1 ?s2"
    using giving_step.quote [of sample_attempt ?s1 sample_host sample_quoting]
    by (simp add: sample_answers(2) checkout_run)
  moreover have "giving_step sample_host ?s2 ?s3"
    using giving_step.accept [of sample_attempt sample_quote ?s2 sample_host] by (simp add: checkout_run)
  moreover have "giving_step sample_host ?s3 ?s4"
    using giving_step.checkout [of sample_attempt 5100 ?s3 sample_host sample_checkout]
    by (simp add: sample_answers(3,4) checkout_run)
  moreover have "giving_step sample_host ?s4 paid_fifty"
    using giving_step.supported [of sample_attempt sample_link ?s4 sample_host "Inr True"]
    by (simp add: checkout_run paid_fifty_def)
  ultimately show ?thesis
    by (meson typed_fifty_reachable giving_reachable.later)
qed

theorem no_payment_without_review_witness:
  "asked_for sample_attempt 5100 (gc_log paid_fifty) = 1
   \<and> reviewed_for sample_attempt 5100 (gc_log paid_fifty) = 1
   \<and> trusted_checkout sample_host sample_link"
proof -
  have log: "gc_log paid_fifty = [Reviewed sample_attempt 5100,
      CheckoutAsked sample_attempt 5100 (gu_identity sample_giver) False,
      PageOpened sample_attempt sample_link (gu_identity sample_giver) False]"
    by (simp add: paid_fifty_def)
  have "trusted_checkout sample_host sample_link"
    using no_payment_without_review [OF paid_fifty_reachable, of sample_attempt 5100 "gu_identity sample_giver" False sample_link]
    by (auto simp: log)
  then show ?thesis by (simp add: log asked_for_def reviewed_for_def)
qed

text \<open>The update of the type reads the campaign that was selected when the options were asked for. When a
  campaign is chosen while the options are awaited, the answer that offers it resets the type and keeps
  the campaign; the gift is quoted and reviewed, and its checkout is refused.\<close>

definition stale_choice :: gift_form where
  "stale_choice = options_form [\<lparr>co_id = js ''0123456789abcdef01234567'', co_title = js ''Roof'', co_description = None,
     co_targetAmount = 1000, co_currentAmount = 0, co_progress = 0, co_endDate = js ''2026-12-31''\<rparr>] [] None None
     (empty_form\<lparr>gf_amount := js ''50'', gf_type := CampaignGift,
       gf_campaignId := Some (js ''0123456789abcdef01234567'')\<rparr>)"

definition stale_attempt :: gift_attempt where
  "stale_attempt = sample_attempt\<lparr>ga_payload := gift_payload (js ''50.00'') None stale_choice\<rparr>"

lemma stale_type_is_refused:
  "gf_type stale_choice = Tithe \<and> gf_campaignId stale_choice \<noteq> None
   \<and> giving_quote sample_quoting (JObj (ga_payload stale_attempt)) = Inr sample_quote
   \<and> give sample_host api (checkout_payload stale_attempt 5100) (js ''c1'') (js ''m1'')
       = Inl (throw ''The gift details are not valid.'')"
proof -
  have "gf_type stale_choice = Tithe" "gf_campaignId stale_choice \<noteq> None"
    by (simp_all add: stale_choice_def options_form_def js_def)
  moreover have "giving_quote sample_quoting (JObj (ga_payload stale_attempt)) = Inr sample_quote"
    by code_simp
  moreover have "normalizeGiveRequest (checkout_payload stale_attempt 5100) = Inl (throw ''The gift details are not valid.'')"
    by code_simp
  ultimately show ?thesis by (simp add: give_def)
qed

end
