(* ===== verification/Settlement.thy ===== *)
theory Settlement
  imports GivingRecords Steps
begin

text \<open>
  The screen a member comes back to after a payment (\<open>screens/giving/GivingCompleteScreen.tsx\<close>): it asks the
  gateway to settle the reference of the callback, again after four seconds while the payment is pending, and
  only ever shows the answer for the payment and the member it is about. React runs the effects of a render
  before the next event, so a step of the screen is an event together with the render and the effects it causes.
\<close>

section \<open>What the screen decides\<close>

definition SETTLEMENT_MAX_ATTEMPTS :: nat where
  "SETTLEMENT_MAX_ATTEMPTS = 4"

record SettlementContext =
  st_reference :: jsstring
  st_churchId :: jsstring
  st_memberId :: jsstring

definition settlementContextMatches :: "SettlementContext option \<Rightarrow> SettlementContext option \<Rightarrow> bool" where
  "settlementContextMatches left right \<longleftrightarrow>
     (case (left, right) of
        (Some l, Some r) \<Rightarrow> st_reference l = st_reference r \<and> st_churchId l = st_churchId r \<and> st_memberId l = st_memberId r
      | _ \<Rightarrow> False)"

definition settlementContextKey :: "SettlementContext \<Rightarrow> jsstring" where
  "settlementContextKey c = st_reference c @ 0 # st_churchId c @ 0 # st_memberId c"

definition normalizePaymentCallbackReference :: "jsval \<Rightarrow> jsval \<Rightarrow> jsstring option" where
  "normalizePaymentCallbackReference reference transactionReference =
     (let primary = normalizePaymentReference reference;
          secondary = normalizePaymentReference transactionReference
      in if reference \<noteq> JUndef \<and> primary = None \<or> transactionReference \<noteq> JUndef \<and> secondary = None then None
         else if primary \<noteq> None \<and> secondary \<noteq> None \<and> primary \<noteq> secondary then None
         else if primary \<noteq> None then primary else secondary)"

definition shouldPollSettlement :: "PaymentStatus option \<Rightarrow> nat \<Rightarrow> bool" where
  "shouldPollSettlement status attempt \<longleftrightarrow>
     status = Some Pending \<and> 0 < attempt \<and> attempt < SETTLEMENT_MAX_ATTEMPTS"

definition settlementPreflightError :: "jsstring option \<Rightarrow> bool \<Rightarrow> bool \<Rightarrow> jsstring option" where
  "settlementPreflightError reference hasMemberIdentity offline =
     (if reference = None then Some (js ''The payment provider returned without a valid transaction reference. Your account has not been marked as paid.'')
      else if \<not> hasMemberIdentity then Some (js ''Your member session is missing church details. Sign in again before checking this payment.'')
      else if offline then Some (js ''You are offline. Reconnect to verify this payment safely. Do not start another payment while its status is unknown.'')
      else None)"

definition canLeaveSettlement :: "bool \<Rightarrow> bool" where
  "canLeaveSettlement explicitHistoryExit = explicitHistoryExit"

section \<open>The screen\<close>

record SettlementViewState =
  vw_owner :: "SettlementContext option"
  vw_transaction :: "GivingRecord option"
  vw_isChecking :: bool
  vw_error :: jsstring
  vw_attempt :: nat

text \<open>\<open>sc_flights\<close> are the requests awaited, with their attempt; \<open>sc_timer\<close> says whether the timer is set,
  \<open>sc_asked\<close> counts the requests sent so far, \<open>sc_left\<close> says that the screen let itself be removed.\<close>

record settle_screen =
  sc_reference :: "jsstring option"
  sc_context :: "SettlementContext option"
  sc_offline :: bool
  sc_view :: SettlementViewState
  sc_attempts :: "jsstring \<Rightarrow> nat option"
  sc_inFlight :: "jsstring list"
  sc_mounted :: bool
  sc_exit :: bool
  sc_timer :: bool
  sc_flights :: "(SettlementContext \<times> nat) list"
  sc_asked :: nat
  sc_left :: bool

definition settlement_context :: "jsstring option \<Rightarrow> jsstring option \<Rightarrow> jsstring option \<Rightarrow> SettlementContext option" where
  "settlement_context reference churchId memberId =
     (case (reference, churchId, memberId) of
        (Some r, Some c, Some m) \<Rightarrow>
          if r \<noteq> [] \<and> c \<noteq> [] \<and> m \<noteq> [] then Some \<lparr>st_reference = r, st_churchId = c, st_memberId = m\<rparr> else None
      | _ \<Rightarrow> None)"

definition initial_view :: SettlementViewState where
  "initial_view = \<lparr>vw_owner = None, vw_transaction = None, vw_isChecking = True, vw_error = [], vw_attempt = 0\<rparr>"

text \<open>What the member sees: the view when it belongs to the payment of the render.\<close>

definition ownsViewState :: "settle_screen \<Rightarrow> bool" where
  "ownsViewState s =
     (if sc_context s \<noteq> None then settlementContextMatches (vw_owner (sc_view s)) (sc_context s)
      else vw_owner (sc_view s) = None)"

definition shown_transaction :: "settle_screen \<Rightarrow> GivingRecord option" where
  "shown_transaction s = (if ownsViewState s then vw_transaction (sc_view s) else None)"

definition shown_checking :: "settle_screen \<Rightarrow> bool" where
  "shown_checking s = (if ownsViewState s then vw_isChecking (sc_view s) else True)"

definition shown_error :: "settle_screen \<Rightarrow> jsstring" where
  "shown_error s = (if ownsViewState s then vw_error (sc_view s) else [])"

definition shown_attempt :: "settle_screen \<Rightarrow> nat" where
  "shown_attempt s = (if ownsViewState s then vw_attempt (sc_view s) else 0)"

text \<open>The request for a payment, and the check that makes it.\<close>

definition asked_to_settle :: "SettlementContext \<Rightarrow> settle_screen \<Rightarrow> settle_screen" where
  "asked_to_settle requestContext s =
     (let requestKey = settlementContextKey requestContext;
          nextAttempt = (case sc_attempts s requestKey of Some n \<Rightarrow> n | None \<Rightarrow> 0) + 1
      in s\<lparr>sc_inFlight := sc_inFlight s @ [requestKey],
           sc_attempts := (sc_attempts s)(requestKey \<mapsto> nextAttempt),
           sc_view := \<lparr>vw_owner = Some requestContext, vw_transaction = None, vw_isChecking = True,
             vw_error = [], vw_attempt = nextAttempt\<rparr>,
           sc_flights := sc_flights s @ [(requestContext, nextAttempt)],
           sc_asked := sc_asked s + 1\<rparr>)"

definition verify :: "settle_screen \<Rightarrow> settle_screen" where
  "verify s =
     (case settlementPreflightError (sc_reference s) (sc_context s \<noteq> None) (sc_offline s) of
        Some preflightError \<Rightarrow> s\<lparr>sc_view := \<lparr>vw_owner = sc_context s, vw_transaction = None, vw_isChecking = False,
          vw_error = preflightError, vw_attempt = 0\<rparr>\<rparr>
      | None \<Rightarrow>
          (case sc_context s of
             None \<Rightarrow> s
           | Some requestContext \<Rightarrow>
               if settlementContextKey requestContext \<in> set (sc_inFlight s) then s
               else asked_to_settle requestContext s))"

definition settle_answered :: "SettlementContext \<Rightarrow> nat \<Rightarrow> js_error + GivingRecord \<Rightarrow> settle_screen \<Rightarrow> settle_screen" where
  "settle_answered c n answer s =
     (let s1 = s\<lparr>sc_flights := remove1 (c, n) (sc_flights s),
                 sc_inFlight := removeAll (settlementContextKey c) (sc_inFlight s)\<rparr>
      in if sc_mounted s \<and> settlementContextMatches (sc_context s) (Some c)
         then s1\<lparr>sc_view := (case answer of
             Inr result \<Rightarrow> \<lparr>vw_owner = Some c, vw_transaction = Some result, vw_isChecking = False, vw_error = [], vw_attempt = n\<rparr>
           | Inl _ \<Rightarrow> \<lparr>vw_owner = Some c, vw_transaction = None, vw_isChecking = False,
               vw_error = js ''We could not verify this payment yet. This does not mean you were charged twice. Check again shortly.'',
               vw_attempt = n\<rparr>)\<rparr>
         else s1)"

definition checkAgain :: "settle_screen \<Rightarrow> settle_screen" where
  "checkAgain s =
     verify (case sc_context s of
         Some c \<Rightarrow> s\<lparr>sc_attempts := (sc_attempts s)(settlementContextKey c \<mapsto> 0)\<rparr>
       | None \<Rightarrow> s)"

text \<open>The effect of the timer: it depends on what is shown and on \<open>verify\<close>, which is new when the reference,
  the payment or the network changed.\<close>

definition timer_deps ::
    "settle_screen \<Rightarrow> nat \<times> jsstring \<times> bool \<times> PaymentStatus option \<times> jsstring option \<times> SettlementContext option \<times> bool" where
  "timer_deps s = (shown_attempt s, shown_error s, shown_checking s, map_option gr_status (shown_transaction s),
     sc_reference s, sc_context s, sc_offline s)"

definition polls :: "settle_screen \<Rightarrow> bool" where
  "polls s \<longleftrightarrow> \<not> (shown_checking s \<or> shown_error s \<noteq> []
     \<or> \<not> shouldPollSettlement (map_option gr_status (shown_transaction s)) (shown_attempt s))"

definition timer_effect :: "settle_screen \<Rightarrow> settle_screen \<Rightarrow> settle_screen" where
  "timer_effect before s = (if timer_deps s = timer_deps before then s else s\<lparr>sc_timer := polls s\<rparr>)"

text \<open>A render: the parameters of the route, the member and the network; \<open>verify\<close> runs when it is new.\<close>

definition rendered :: "jsval \<Rightarrow> jsval \<Rightarrow> jsstring option \<Rightarrow> jsstring option \<Rightarrow> bool \<Rightarrow> settle_screen \<Rightarrow> settle_screen" where
  "rendered reference trxref churchId memberId offline s =
     (let r = normalizePaymentCallbackReference reference trxref;
          s1 = s\<lparr>sc_reference := r, sc_context := settlement_context r churchId memberId, sc_offline := offline\<rparr>
      in if (sc_reference s1, sc_context s1, sc_offline s1) = (sc_reference s, sc_context s, sc_offline s) then s1
         else verify s1)"

definition settle_mounted :: "jsval \<Rightarrow> jsval \<Rightarrow> jsstring option \<Rightarrow> jsstring option \<Rightarrow> bool \<Rightarrow> settle_screen" where
  "settle_mounted reference trxref churchId memberId offline =
     (let r = normalizePaymentCallbackReference reference trxref
      in verify \<lparr>sc_reference = r, sc_context = settlement_context r churchId memberId, sc_offline = offline,
           sc_view = initial_view, sc_attempts = Map.empty, sc_inFlight = [], sc_mounted = True, sc_exit = False,
           sc_timer = False, sc_flights = [], sc_asked = 0, sc_left = False\<rparr>)"

datatype settle_label =
    Rendered jsval jsval "jsstring option" "jsstring option" bool
  | SettleAnswered SettlementContext nat api
  | TimerFired
  | CheckAgainPressed
  | HistoryPressed
  | RemoveAsked
  | SettleUnmounted

text \<open>One event; \<open>None\<close> when it cannot happen. The button to check again is there when nothing is being checked
  and the payment is not confirmed, and is disabled offline. The history button leaves through the same guard
  as the back gesture. A logout or an expired session takes the navigator, and so the screen, away without asking it.\<close>

fun settle_next :: "host \<Rightarrow> settle_label \<Rightarrow> settle_screen \<Rightarrow> settle_screen option" where
  "settle_next h (Rendered reference trxref churchId memberId offline) s =
     (if sc_mounted s then Some (timer_effect s (rendered reference trxref churchId memberId offline s)) else None)"
| "settle_next h (SettleAnswered c n api) s =
     (if (c, n) \<in> set (sc_flights s)
      then let s' = settle_answered c n (settle_transaction h api (st_reference c) (st_churchId c) (st_memberId c)) s
        in Some (if sc_mounted s then timer_effect s s' else s')
      else None)"
| "settle_next h TimerFired s =
     (if sc_timer s then Some (timer_effect s (verify (s\<lparr>sc_timer := False\<rparr>))) else None)"
| "settle_next h CheckAgainPressed s =
     (if sc_mounted s \<and> \<not> shown_checking s \<and> map_option gr_status (shown_transaction s) \<noteq> Some Success \<and> \<not> sc_offline s
      then Some (timer_effect s (checkAgain s)) else None)"
| "settle_next h HistoryPressed s = (if sc_mounted s then Some (s\<lparr>sc_exit := True\<rparr>) else None)"
| "settle_next h RemoveAsked s =
     (if sc_mounted s then Some (if canLeaveSettlement (sc_exit s) then s\<lparr>sc_left := True\<rparr> else s) else None)"
| "settle_next h SettleUnmounted s =
     (if sc_mounted s then Some (s\<lparr>sc_mounted := False, sc_timer := False\<rparr>) else None)"

abbreviation settle_run :: "host \<Rightarrow> settle_screen \<Rightarrow> settle_label list \<Rightarrow> settle_screen \<Rightarrow> bool" where
  "settle_run h \<equiv> step_run (settle_next h)"

section \<open>Lemmas\<close>

lemma settlementContextMatches_iff [simp]: "settlementContextMatches x (Some c) \<longleftrightarrow> x = Some c"
  by (cases x) (auto simp: settlementContextMatches_def)

lemma settlementContextMatches_None [simp]: "\<not> settlementContextMatches x None"
  by (cases x) (simp_all add: settlementContextMatches_def)

lemma ownsViewState_iff: "ownsViewState s \<longleftrightarrow> vw_owner (sc_view s) = sc_context s"
  by (cases "sc_context s") (auto simp: ownsViewState_def)

text \<open>The attempts counted for a payment: those of a request or a view, or none since the member asked again.\<close>

definition attempts_fit :: "settle_screen \<Rightarrow> SettlementContext \<Rightarrow> nat \<Rightarrow> bool" where
  "attempts_fit s c n \<longleftrightarrow> sc_attempts s (settlementContextKey c) \<in> {Some n, Some 0}"

definition flights_inv :: "settle_screen \<Rightarrow> bool" where
  "flights_inv s \<longleftrightarrow> sc_inFlight s = map (settlementContextKey \<circ> fst) (sc_flights s) \<and> distinct (sc_inFlight s)
     \<and> (\<forall>c n. (c, n) \<in> set (sc_flights s) \<longrightarrow> attempts_fit s c n)"

definition view_inv :: "settle_screen \<Rightarrow> bool" where
  "view_inv s \<longleftrightarrow>
     (vw_owner (sc_view s) = None \<longrightarrow> vw_attempt (sc_view s) = 0 \<and> vw_transaction (sc_view s) = None)
     \<and> (\<forall>c. vw_owner (sc_view s) = Some c \<longrightarrow> 0 < vw_attempt (sc_view s) \<longrightarrow> attempts_fit s c (vw_attempt (sc_view s)))"

definition settle_inv :: "settle_screen \<Rightarrow> bool" where
  "settle_inv s \<longleftrightarrow> flights_inv s \<and> view_inv s \<and> (sc_timer s \<longrightarrow> polls s)"

lemma polls_same: "timer_deps s = timer_deps t \<Longrightarrow> polls s = polls t"
  by (simp add: timer_deps_def polls_def)

lemma timer_effect_same [simp]:
  "sc_reference (timer_effect b s) = sc_reference s" "sc_context (timer_effect b s) = sc_context s"
  "sc_view (timer_effect b s) = sc_view s" "sc_attempts (timer_effect b s) = sc_attempts s"
  "sc_inFlight (timer_effect b s) = sc_inFlight s" "sc_flights (timer_effect b s) = sc_flights s"
  "sc_asked (timer_effect b s) = sc_asked s" "sc_offline (timer_effect b s) = sc_offline s"
  "sc_left (timer_effect b s) = sc_left s" "sc_mounted (timer_effect b s) = sc_mounted s"
  by (simp_all add: timer_effect_def)

lemma shows_ignore_flags [simp]:
  "polls (s\<lparr>sc_timer := t\<rparr>) = polls s" "flights_inv (s\<lparr>sc_timer := t\<rparr>) = flights_inv s" "view_inv (s\<lparr>sc_timer := t\<rparr>) = view_inv s"
  "polls (s\<lparr>sc_exit := t\<rparr>) = polls s" "flights_inv (s\<lparr>sc_exit := t\<rparr>) = flights_inv s" "view_inv (s\<lparr>sc_exit := t\<rparr>) = view_inv s"
  "polls (s\<lparr>sc_left := t\<rparr>) = polls s" "flights_inv (s\<lparr>sc_left := t\<rparr>) = flights_inv s" "view_inv (s\<lparr>sc_left := t\<rparr>) = view_inv s"
  "polls (s\<lparr>sc_mounted := t\<rparr>) = polls s" "flights_inv (s\<lparr>sc_mounted := t\<rparr>) = flights_inv s" "view_inv (s\<lparr>sc_mounted := t\<rparr>) = view_inv s"
  by (simp_all add: polls_def shown_checking_def shown_error_def shown_attempt_def shown_transaction_def
      ownsViewState_iff flights_inv_def view_inv_def attempts_fit_def)

lemma timer_effect_inv:
  assumes "flights_inv s" and "view_inv s" and "sc_timer s \<Longrightarrow> sc_timer b" and "settle_inv b"
  shows "settle_inv (timer_effect b s)"
proof (cases "timer_deps s = timer_deps b")
  case True
  then show ?thesis
    using assms polls_same [OF True] by (simp add: timer_effect_def settle_inv_def)
next
  case False
  then show ?thesis
    using assms(1,2) by (simp add: timer_effect_def settle_inv_def)
qed

lemma flights_inv_empty: "sc_flights s = [] \<Longrightarrow> sc_inFlight s = [] \<Longrightarrow> flights_inv s"
  by (simp add: flights_inv_def)

lemma asked_same [simp]:
  "sc_context (asked_to_settle c s) = sc_context s" "sc_timer (asked_to_settle c s) = sc_timer s"
  "sc_mounted (asked_to_settle c s) = sc_mounted s" "sc_asked (asked_to_settle c s) = sc_asked s + 1"
  by (simp_all add: asked_to_settle_def Let_def)

lemma verify_same [simp]:
  "sc_context (verify s) = sc_context s" "sc_timer (verify s) = sc_timer s" "sc_mounted (verify s) = sc_mounted s"
  by (simp_all add: verify_def split: option.splits)

lemma asked_flights_inv:
  assumes "flights_inv s" and "settlementContextKey c \<notin> set (sc_inFlight s)"
  shows "flights_inv (asked_to_settle c s)"
proof -
  have "settlementContextKey d \<noteq> settlementContextKey c" if "(d, n) \<in> set (sc_flights s)" for d n
    using assms that by (force simp: flights_inv_def)
  then show ?thesis
    using assms by (auto simp: asked_to_settle_def flights_inv_def attempts_fit_def Let_def)
qed

lemma verify_flights_inv: "flights_inv s \<Longrightarrow> flights_inv (verify s)"
proof -
  assume inv: "flights_inv s"
  then have "flights_inv (s\<lparr>sc_view := v\<rparr>)" for v
    by (auto simp: flights_inv_def attempts_fit_def)
  with inv show ?thesis
    by (simp add: verify_def asked_flights_inv split: option.split)
qed

lemma verify_view_inv: "view_inv s \<Longrightarrow> view_inv (verify s)"
  by (auto simp: verify_def asked_to_settle_def view_inv_def attempts_fit_def Let_def split: option.splits)

lemma remove_flight:
  "distinct (map f xs) \<Longrightarrow> x \<in> set xs \<Longrightarrow> removeAll (f x) (map f xs) = map f (remove1 x xs)"
proof (induction xs)
  case (Cons y xs)
  then show ?case
    by (cases "x = y") (auto simp: removeAll_id, metis image_eqI)
qed simp

lemma answered_flights_inv:
  assumes "flights_inv s" and "(c, n) \<in> set (sc_flights s)"
  shows "flights_inv (settle_answered c n answer s)"
proof -
  have inv: "sc_inFlight s = map (settlementContextKey \<circ> fst) (sc_flights s)"
      "distinct (map (settlementContextKey \<circ> fst) (sc_flights s))"
      "\<And>c n. (c, n) \<in> set (sc_flights s) \<Longrightarrow> attempts_fit s c n"
    using assms(1) by (auto simp: flights_inv_def)
  let ?t = "settle_answered c n answer s"
  have "sc_flights ?t = remove1 (c, n) (sc_flights s)" "sc_attempts ?t = sc_attempts s"
      "sc_inFlight ?t = removeAll (settlementContextKey c) (sc_inFlight s)"
    by (simp_all add: settle_answered_def Let_def)
  moreover have "removeAll (settlementContextKey c) (sc_inFlight s)
      = map (settlementContextKey \<circ> fst) (remove1 (c, n) (sc_flights s))"
    using remove_flight [OF inv(2) assms(2)] inv(1) by simp
  moreover have "distinct (removeAll (settlementContextKey c) (sc_inFlight s))"
    using inv(1,2) by (simp add: distinct_removeAll)
  ultimately show ?thesis
    using inv(3) by (simp add: flights_inv_def attempts_fit_def) (meson notin_set_remove1)
qed

lemma answered_view_inv:
  assumes "flights_inv s" and "view_inv s" and "(c, n) \<in> set (sc_flights s)"
  shows "view_inv (settle_answered c n answer s)"
proof -
  have "attempts_fit s c n" using assms(1,3) by (auto simp: flights_inv_def)
  then show ?thesis
    using assms(2) by (auto simp: view_inv_def settle_answered_def attempts_fit_def Let_def split: option.splits sum.splits)
qed

lemma reset_inv:
  "flights_inv s \<Longrightarrow> flights_inv (s\<lparr>sc_attempts := (sc_attempts s)(k \<mapsto> 0)\<rparr>)"
  "view_inv s \<Longrightarrow> view_inv (s\<lparr>sc_attempts := (sc_attempts s)(k \<mapsto> 0)\<rparr>)"
  by (auto simp: flights_inv_def view_inv_def attempts_fit_def split: option.splits)

lemma render_inv:
  "flights_inv s \<Longrightarrow> flights_inv (rendered r x c m b s)" "view_inv s \<Longrightarrow> view_inv (rendered r x c m b s)"
  by (auto simp: rendered_def Let_def intro!: verify_flights_inv verify_view_inv)
     (auto simp: flights_inv_def view_inv_def attempts_fit_def split: option.splits)

lemma settle_inv_mounted: "settle_inv (settle_mounted r x c m b)"
  by (simp add: settle_mounted_def settle_inv_def Let_def)
     (intro conjI verify_flights_inv verify_view_inv flights_inv_empty, simp_all add: view_inv_def initial_view_def)

lemma settle_inv_next:
  assumes "settle_next h l s = Some t" and inv: "settle_inv s"
  shows "settle_inv t"
proof -
  have i: "flights_inv s" "view_inv s" "sc_timer s \<Longrightarrow> polls s" using inv by (auto simp: settle_inv_def)
  show ?thesis
  proof (cases l)
    case (Rendered r x c m b)
    then have "t = timer_effect s (rendered r x c m b s)" using assms(1) by (simp split: if_splits)
    then show ?thesis
      using inv i(1,2) by (simp add: timer_effect_inv render_inv)
        (intro timer_effect_inv render_inv, simp_all add: rendered_def Let_def split: if_splits)
  next
    case (SettleAnswered c n api)
    then obtain answer where f: "(c, n) \<in> set (sc_flights s)"
      and t: "t = (if sc_mounted s then timer_effect s (settle_answered c n answer s) else settle_answered c n answer s)"
      using assms(1) by (auto simp: Let_def split: if_splits)
    have timer: "sc_timer (settle_answered c n answer s) = sc_timer s"
      by (simp add: settle_answered_def Let_def)
    have "polls (settle_answered c n answer s) = polls s" if "\<not> sc_mounted s"
      using that by (simp add: settle_answered_def Let_def polls_def shown_checking_def shown_error_def
          shown_attempt_def shown_transaction_def ownsViewState_iff)
    then have "settle_inv (settle_answered c n answer s)" if "\<not> sc_mounted s"
      using that i timer answered_flights_inv [OF i(1) f] answered_view_inv [OF i(1,2) f] by (simp add: settle_inv_def)
    then show ?thesis
      using t timer inv timer_effect_inv [OF answered_flights_inv [OF i(1) f] answered_view_inv [OF i(1,2) f]] by auto
  next
    case TimerFired
    then have "t = timer_effect s (verify (s\<lparr>sc_timer := False\<rparr>))" using assms(1) by (simp split: if_splits)
    then show ?thesis
      using inv i(1,2) by (auto intro!: timer_effect_inv verify_flights_inv verify_view_inv)
  next
    case CheckAgainPressed
    then have "t = timer_effect s (checkAgain s)" using assms(1) by (simp split: if_splits)
    then show ?thesis
      using inv i(1,2) reset_inv
      by (auto simp: checkAgain_def intro!: timer_effect_inv verify_flights_inv verify_view_inv split: option.splits)
  qed (use assms(1) i in \<open>auto simp: settle_inv_def split: if_splits\<close>)
qed

interpretation settlement: step_invariant "settle_next h" settle_inv for h
  by unfold_locales (rule settle_inv_next)

subsection \<open>The answer shown\<close>

definition answer_in_run :: "host \<Rightarrow> settle_label list \<Rightarrow> SettlementContext \<Rightarrow> GivingRecord \<Rightarrow> bool" where
  "answer_in_run h ls c t \<longleftrightarrow>
     (\<exists>n api. SettleAnswered c n api \<in> set ls
        \<and> settle_transaction h api (st_reference c) (st_churchId c) (st_memberId c) = Inr t)"

definition view_from :: "host \<Rightarrow> settle_label list \<Rightarrow> settle_screen \<Rightarrow> bool" where
  "view_from h ls s \<longleftrightarrow>
     (\<forall>t. vw_transaction (sc_view s) = Some t \<longrightarrow> (\<exists>c. vw_owner (sc_view s) = Some c \<and> answer_in_run h ls c t))"

lemma view_from_more: "view_from h ls s \<Longrightarrow> sc_view u = sc_view s \<Longrightarrow> view_from h (ls @ ls') u"
  by (fastforce simp: view_from_def answer_in_run_def)

lemma view_from_verify: "view_from h ls s \<Longrightarrow> view_from h ls (verify s)"
  by (auto simp: view_from_def verify_def asked_to_settle_def Let_def split: option.splits)

lemma view_from_next:
  assumes "settle_next h l s = Some t" and vf: "view_from h ls s"
  shows "view_from h (ls @ [l]) t"
proof (cases l)
  case (SettleAnswered c n api)
  let ?answer = "settle_transaction h api (st_reference c) (st_churchId c) (st_memberId c)"
  have t: "sc_view t = sc_view (settle_answered c n ?answer s)"
    using assms(1) by (auto simp: SettleAnswered Let_def split: if_splits)
  show ?thesis
  proof (cases "sc_mounted s \<and> sc_context s = Some c")
    case True
    then show ?thesis
      by (auto simp: view_from_def t settle_answered_def answer_in_run_def SettleAnswered split: sum.splits)
  next
    case False
    then have "sc_view t = sc_view s" by (auto simp: t settle_answered_def Let_def)
    then show ?thesis by (rule view_from_more [OF vf])
  qed
next
  case (Rendered r x c m b)
  have "view_from h ls (rendered r x c m b s)"
    using vf view_from_more [OF vf, where ls' = "[]"]
    by (auto simp: rendered_def Let_def intro!: view_from_verify)
  then show ?thesis
    using assms(1) by (auto simp: Rendered intro: view_from_more split: if_splits)
next
  case TimerFired
  have "view_from h ls (verify (s\<lparr>sc_timer := False\<rparr>))"
    using view_from_more [OF vf, where ls' = "[]"] by (auto intro!: view_from_verify)
  then show ?thesis
    using assms(1) by (auto simp: TimerFired intro: view_from_more split: if_splits)
next
  case CheckAgainPressed
  have "view_from h ls (checkAgain s)"
    using view_from_more [OF vf, where ls' = "[]"] vf
    by (auto simp: checkAgain_def intro!: view_from_verify split: option.splits)
  then show ?thesis
    using assms(1) by (auto simp: CheckAgainPressed intro: view_from_more split: if_splits)
qed (use assms(1) in \<open>auto intro!: view_from_more [OF vf] split: if_splits\<close>)

text \<open>The screen is left only through the history button.\<close>

lemma exit_same [simp]: "sc_exit (timer_effect b s) = sc_exit s" "sc_exit (verify s) = sc_exit s" "sc_left (verify s) = sc_left s"
  by (simp_all add: timer_effect_def verify_def asked_to_settle_def Let_def split: option.splits)

lemma exit_next:
  assumes "settle_next h l s = Some t"
  shows "sc_exit t \<longleftrightarrow> sc_exit s \<or> l = HistoryPressed" and "sc_left t \<Longrightarrow> sc_left s \<or> sc_exit s"
  using assms by (cases l; auto simp: rendered_def settle_answered_def checkAgain_def canLeaveSettlement_def Let_def
      split: if_splits option.splits)+

lemma settle_run_inv:
  assumes "settle_run h s ls t" and "settle_inv s" and "vw_transaction (sc_view s) = None" and "\<not> sc_exit s" "\<not> sc_left s"
  shows "settle_inv t \<and> view_from h ls t \<and> (sc_left t \<or> sc_exit t \<longrightarrow> HistoryPressed \<in> set ls)"
proof
  show "settle_inv t" using assms(1,2) by (rule settlement.run_kept)
  show "view_from h ls t \<and> (sc_left t \<or> sc_exit t \<longrightarrow> HistoryPressed \<in> set ls)"
    using assms
  proof induction
    case here
    then show ?case by (simp add: view_from_def)
  next
    case (further ls t l u)
    have ih: "view_from h ls t" "sc_left t \<or> sc_exit t \<longrightarrow> HistoryPressed \<in> set ls"
      using further by blast+
    show ?case
      using view_from_next [OF further.hyps(2) ih(1)] ih(2) exit_next [OF further.hyps(2)] by auto
  qed
qed

lemma settle_mounted_start:
  "vw_transaction (sc_view (settle_mounted r x c m b)) = None" "\<not> sc_exit (settle_mounted r x c m b)"
  "\<not> sc_left (settle_mounted r x c m b)"
  by (simp_all add: settle_mounted_def verify_def asked_to_settle_def initial_view_def Let_def split: option.split)

subsection \<open>The automatic checks\<close>

definition remaining_attempts :: "settle_screen \<Rightarrow> nat" where
  "remaining_attempts s =
     (case sc_context s of
        Some c \<Rightarrow> SETTLEMENT_MAX_ATTEMPTS - (case sc_attempts s (settlementContextKey c) of Some n \<Rightarrow> n | None \<Rightarrow> 0)
      | None \<Rightarrow> SETTLEMENT_MAX_ATTEMPTS)"

definition automatic :: "settle_label \<Rightarrow> bool" where
  "automatic l \<longleftrightarrow> l = TimerFired \<or> (\<exists>c n api. l = SettleAnswered c n api)"

lemma automatic_next:
  assumes "settle_next h l s = Some t" and "automatic l" and inv: "settle_inv s"
  shows "sc_asked t + remaining_attempts t \<le> sc_asked s + remaining_attempts s"
proof (cases "l = TimerFired")
  case True
  then have t: "t = timer_effect s (verify (s\<lparr>sc_timer := False\<rparr>))" and "polls s"
    using assms(1) inv by (auto simp: settle_inv_def split: if_splits)
  then have poll: "ownsViewState s" "shouldPollSettlement (map_option gr_status (vw_transaction (sc_view s))) (vw_attempt (sc_view s))"
    by (auto simp: polls_def shown_checking_def shown_transaction_def shown_attempt_def split: if_splits)
  then have "vw_owner (sc_view s) \<noteq> None"
    using inv by (auto simp: settle_inv_def view_inv_def shouldPollSettlement_def)
  then obtain c where c: "sc_context s = Some c" "vw_owner (sc_view s) = Some c"
    using poll(1) by (auto simp: ownsViewState_iff)
  then have "\<exists>n<SETTLEMENT_MAX_ATTEMPTS. sc_attempts s (settlementContextKey c) = Some n"
    using inv poll(2) by (fastforce simp: settle_inv_def view_inv_def attempts_fit_def shouldPollSettlement_def)
  then show ?thesis
    using c by (auto simp: t remaining_attempts_def verify_def asked_to_settle_def Let_def split: option.splits)
next
  case False
  then show ?thesis
    using assms(1,2)
    by (auto simp: automatic_def settle_answered_def remaining_attempts_def Let_def cong: option.case_cong split: if_splits)
qed

lemma automatic_run:
  assumes "settle_run h s ls t" and "settle_inv s" and "list_all automatic ls"
  shows "settle_inv t \<and> sc_asked t + remaining_attempts t \<le> sc_asked s + remaining_attempts s"
  using assms by induction (auto dest: settle_inv_next automatic_next)

subsection \<open>What the gateway answers\<close>


section \<open>Properties\<close>


text \<open>C33: the automatic checks end. From any state the screen can be in, timers and answers alone send at
  most four more requests, whatever the gateway answers and in whatever order; only the member, the route
  or the network starts another one.\<close>

theorem automatic_checks_are_bounded:
  assumes "settle_run h (settle_mounted r x c m b) ls s" and "settle_run h s ls' s'" and "list_all automatic ls'"
  shows "sc_asked s' \<le> sc_asked s + SETTLEMENT_MAX_ATTEMPTS"
proof -
  have "settle_inv s"
    using settle_run_inv [OF assms(1) settle_inv_mounted settle_mounted_start] by blast
  moreover have "remaining_attempts s \<le> SETTLEMENT_MAX_ATTEMPTS"
    by (simp add: remaining_attempts_def split: option.split)
  ultimately show ?thesis
    using automatic_run [OF assms(2) _ assms(3)] by linarith
qed

section \<open>Witnesses\<close>

text \<open>A payment the provider keeps pending: the check of the arrival, and three of the timer.\<close>

definition arrived :: settle_screen where
  "arrived = settle_mounted (JStr (js ''ALT_abcdefghijklmnopqrstuvwxyz234567'')) JUndef (Some (js ''c1'')) (Some (js ''m1'')) False"

definition sample_context :: SettlementContext where
  "sample_context = \<lparr>st_reference = js ''alt_abcdefghijklmnopqrstuvwxyz234567'', st_churchId = js ''c1'', st_memberId = js ''m1''\<rparr>"

definition still_pending :: api where
  "still_pending _ = Inr (envelope (giving_json sample_giving))"

definition waiting :: "settle_label list" where
  "waiting = concat (map (\<lambda>n. [SettleAnswered sample_context n still_pending, TimerFired]) [1, 2, 3])
     @ [SettleAnswered sample_context 4 still_pending]"

lemma waiting_outcome:
  "map_option (\<lambda>s. (sc_asked s, shown_transaction s, sc_timer s)) (run_steps (settle_next sample_host) waiting arrived)
     = Some (4, Some sample_giving, False)"
  by code_simp

definition watched :: settle_screen where
  "watched = the (run_steps (settle_next sample_host) waiting arrived)"

lemma watched_run: "settle_run sample_host arrived waiting watched"
  "sc_asked watched = 4" "shown_transaction watched = Some sample_giving"
  using waiting_outcome by (auto simp: watched_def step_run_iff)


theorem automatic_checks_are_bounded_witness:
  "sc_asked watched = 4 \<and> sc_asked watched \<le> sc_asked arrived + SETTLEMENT_MAX_ATTEMPTS"
proof -
  have "list_all automatic waiting" by (simp add: waiting_def automatic_def)
  then show ?thesis
    using automatic_checks_are_bounded [OF step_run.here, where s' = watched] watched_run by (auto simp: arrived_def)
qed

text \<open>When the network returns while a request is awaited, the check returns early and the notice that the
  device is offline stays until the answer.\<close>

lemma reconnect_keeps_offline_notice:
  "map_option (\<lambda>s. (sc_offline s, shown_checking s, shown_error s \<noteq> []))
     (run_steps (settle_next h) [Rendered (JStr (js ''ALT_abcdefghijklmnopqrstuvwxyz234567'')) JUndef (Some (js ''c1'')) (Some (js ''m1'')) True,
       Rendered (JStr (js ''ALT_abcdefghijklmnopqrstuvwxyz234567'')) JUndef (Some (js ''c1'')) (Some (js ''m1'')) False] arrived)
   = Some (False, False, True)"
  by code_simp

end
