(* ===== verification/QuickGive.thy ===== *)
theory QuickGive
  imports ApiBoundary
begin

text \<open>
  One-tap giving: \<open>quick-give.service.ts\<close> and the bar that uses it during a service
  (\<open>components/live/QuickGiveBar.tsx\<close>). The bar is a transition system over presses, answers of the
  gateway and the end of the screen; React renders it between two events, so a press sees the state the
  event before left.
\<close>

section \<open>The service\<close>

datatype TapFailure = NoMethod | AboveLimit | Duplicate | NotReusable | Declined | Unavailable | UnknownFailure

definition tapFailureFor :: "nat option \<Rightarrow> TapFailure" where
  "tapFailureFor status =
     (if status = Some 428 then NoMethod
      else if status = Some 422 then AboveLimit
      else if status = Some 429 then Duplicate
      else if status = Some 412 then NotReusable
      else if status = Some 402 then Declined
      else if status = Some 503 then Unavailable
      else UnknownFailure)"

fun tapMessageFor :: "TapFailure \<Rightarrow> jsstring" where
  "tapMessageFor NoMethod =
     js ''Give once the usual way first, and choose to save your details for next time.''"
| "tapMessageFor AboveLimit =
     js ''That amount is above the one-tap limit. Please confirm it the usual way.''"
| "tapMessageFor Duplicate =
     js ''We already have that gift '' @ [0x2014] @ js '' it was only counted once.''"
| "tapMessageFor NotReusable =
     js ''Your saved details cannot be used for one-tap giving. Please give the usual way.''"
| "tapMessageFor Declined =
     js ''Your bank did not approve that payment. Nothing has been charged.''"
| "tapMessageFor Unavailable =
     js ''One-tap giving is not available right now. Please give the usual way.''"
| "tapMessageFor UnknownFailure =
     js ''We could not complete that gift. Nothing has been charged.''"

record TapError =
  te_reason :: TapFailure
  te_message :: jsstring

record TapRequest =
  tr_amountMinor :: jsnum
  tr_sessionId :: "jsstring option"
  tr_campaignId :: "jsstring option"
  tr_tapId :: jsstring

definition tap_json :: "TapRequest \<Rightarrow> jsval" where
  "tap_json r = JObj
     [(''amountMinor'', JNum (tr_amountMinor r)), (''currency'', JStr (js ''GHS'')),
      (''sessionId'', opt_val JStr (tr_sessionId r)), (''campaignId'', opt_val JStr (tr_campaignId r)),
      (''tapId'', JStr (tr_tapId r))]"

text \<open>\<open>statusOf\<close> is \<open>httpStatus\<close>: the status of the response an error carries.\<close>

definition tap :: "api \<Rightarrow> TapRequest \<Rightarrow> TapError + unit" where
  "tap api r =
     (case api_post api (js ''/finance/me/tap'') (tap_json r) of
        Inr _ \<Rightarrow> Inr ()
      | Inl e \<Rightarrow>
          let reason = tapFailureFor (httpStatus e)
          in Inl \<lparr>te_reason = reason, te_message = tapMessageFor reason\<rparr>)"

record QuickGiveOptions =
  qg_paymentMethod :: "jsval option"
  qg_presetAmounts :: "jsnum list"
  qg_tapLimit :: jsnum

fun number_of :: "jsval \<Rightarrow> jsnum option" where
  "number_of (JNum n) = Some n"
| "number_of _ = None"

definition quick_options :: "api \<Rightarrow> js_error + QuickGiveOptions" where
  "quick_options api =
     and_then (api_get api (js ''/finance/me/payment-method'') []) (\<lambda>data.
     and_then (unwrapApiData data (throw ''Could not load your giving options.'')) (\<lambda>payload.
       let paymentMethod = get payload ''paymentMethod''
       in Inr \<lparr>qg_paymentMethod = (if nullish paymentMethod then None else Some paymentMethod),
            qg_presetAmounts = (case get payload ''presetAmounts'' of
              JArr vs \<Rightarrow> List.map_filter number_of vs | _ \<Rightarrow> []),
            qg_tapLimit = (case number_of (get payload ''tapLimit'') of Some n \<Rightarrow> n | None \<Rightarrow> Fin 0)\<rparr>))"

definition forget :: "api \<Rightarrow> js_error + unit" where
  "forget api = and_then (api_delete api (js ''/finance/me/payment-method'')) (\<lambda>_. Inr ())"

section \<open>The bar\<close>

text \<open>\<open>a <= b\<close> on numbers.\<close>

fun num_le :: "jsnum \<Rightarrow> jsnum \<Rightarrow> bool" where
  "num_le (Fin a) (Fin b) = (a \<le> b)"
| "num_le NaN b = False"
| "num_le a NaN = False"
| "num_le NegInfinity b = True"
| "num_le a PosInfinity = True"
| "num_le PosInfinity b = False"
| "num_le a NegInfinity = False"

definition presets :: "QuickGiveOptions \<Rightarrow> jsnum list" where
  "presets opts = take 4 (filter (\<lambda>a. num_le a (qg_tapLimit opts)) (qg_presetAmounts opts))"

text \<open>
  The states and references of the component. \<open>br_sent\<close> is its history: the requests it sent and the
  confirmations it showed, the last first; \<open>br_waiting\<close> is the request it waits for.
\<close>

datatype tap_event = Sent jsstring jsnum | Confirmed jsnum

record bar =
  br_options :: "QuickGiveOptions option"
  br_pending :: "jsnum option"
  br_message :: "jsstring option"
  br_given :: "jsnum option"
  br_tapId :: "jsstring option"
  br_mounted :: bool
  br_waiting :: "TapRequest option"
  br_history :: "tap_event list"

definition bar_mounted :: bar where
  "bar_mounted = \<lparr>br_options = None, br_pending = None, br_message = None, br_given = None,
     br_tapId = None, br_mounted = True, br_waiting = None, br_history = []\<rparr>"

definition options_loaded :: "js_error + QuickGiveOptions \<Rightarrow> bar \<Rightarrow> bar" where
  "options_loaded answer b =
     (case answer of Inl _ \<Rightarrow> b | Inr loaded \<Rightarrow> if br_mounted b then b\<lparr>br_options := Some loaded\<rparr> else b)"

text \<open>The buttons that are rendered: none while thanks are shown or without a saved instrument.\<close>

definition buttons :: "bar \<Rightarrow> jsnum list" where
  "buttons b =
     (case br_options b of
        None \<Rightarrow> []
      | Some opts \<Rightarrow> if br_given b \<noteq> None \<or> qg_paymentMethod opts = None then [] else presets opts)"

text \<open>The first half of \<open>give\<close>; \<open>fresh\<close> is what \<open>newTapId\<close> would return.\<close>

definition give_pressed ::
    "jsstring \<Rightarrow> jsstring option \<Rightarrow> jsstring option \<Rightarrow> jsnum \<Rightarrow> bar \<Rightarrow> bar" where
  "give_pressed fresh sessionId campaignId amountMinor b =
     (if br_pending b \<noteq> None then b
      else
        let tapId = (case br_tapId b of None \<Rightarrow> fresh | Some t \<Rightarrow> if t = [] then fresh else t)
        in b\<lparr>br_pending := Some amountMinor, br_message := None, br_tapId := Some tapId,
             br_waiting := Some \<lparr>tr_amountMinor = amountMinor, tr_sessionId = sessionId,
               tr_campaignId = campaignId, tr_tapId = tapId\<rparr>,
             br_history := Sent tapId amountMinor # br_history b\<rparr>)"

definition confirm :: "jsnum \<Rightarrow> bar \<Rightarrow> bar" where
  "confirm amountMinor b =
     b\<lparr>br_given := Some amountMinor, br_tapId := None, br_history := Confirmed amountMinor # br_history b\<rparr>"

text \<open>The second half, once \<open>tap\<close> returned or threw; \<open>tap\<close> throws nothing but \<open>TapError\<close>.\<close>

definition give_answered :: "TapError + unit \<Rightarrow> bar \<Rightarrow> bar" where
  "give_answered answer b =
     (case br_waiting b of
        None \<Rightarrow> b
      | Some r \<Rightarrow>
          let b1 = b\<lparr>br_waiting := None\<rparr>
          in if \<not> br_mounted b1 then b1
             else (case answer of
                 Inr _ \<Rightarrow> confirm (tr_amountMinor r) b1
               | Inl e \<Rightarrow>
                   let b2 = b1\<lparr>br_message := Some (te_message e)\<rparr>
                   in if te_reason e = Duplicate then confirm (tr_amountMinor r) b2 else b2)
               \<lparr>br_pending := None\<rparr>)"

definition give_again :: "bar \<Rightarrow> bar" where
  "give_again b = b\<lparr>br_given := None\<rparr>"

datatype bar_label =
    OptionsLoaded "js_error + QuickGiveOptions"
  | Pressed jsstring "jsstring option" "jsstring option" jsnum
  | Answer "TapError + unit"
  | Again
  | BarUnmounted

text \<open>\<open>newTapId\<close> returns a text that starts with \<open>tap-\<close>; the options are loaded once.\<close>

inductive bar_step :: "bar \<Rightarrow> bar_label \<Rightarrow> bar \<Rightarrow> bool" where
  loaded: "br_options b = None \<Longrightarrow> bar_step b (OptionsLoaded answer) (options_loaded answer b)"
| pressed: "br_mounted b \<Longrightarrow> amount \<in> set (buttons b) \<Longrightarrow> fresh \<noteq> [] \<Longrightarrow>
    bar_step b (Pressed fresh s c amount) (give_pressed fresh s c amount b)"
| answer: "br_waiting b \<noteq> None \<Longrightarrow> bar_step b (Answer a) (give_answered a b)"
| again: "br_mounted b \<Longrightarrow> br_given b \<noteq> None \<Longrightarrow> bar_step b Again (give_again b)"
| unmounted: "br_mounted b \<Longrightarrow> bar_step b BarUnmounted (b\<lparr>br_mounted := False\<rparr>)"

inductive bar_run :: "bar_label list \<Rightarrow> bar \<Rightarrow> bool" where
  mounted: "bar_run [] bar_mounted"
| further: "bar_run ls b \<Longrightarrow> bar_step b l b' \<Longrightarrow> bar_run (ls @ [l]) b'"

section \<open>Lemmas\<close>

fun is_sent :: "tap_event \<Rightarrow> bool" where
  "is_sent (Sent t a) = True"
| "is_sent (Confirmed a) = False"

text \<open>The requests since the last confirmation, and the tap identifiers used.\<close>

definition open_taps :: "tap_event list \<Rightarrow> tap_event list" where
  "open_taps h = takeWhile is_sent h"

definition tap_ids :: "tap_event list \<Rightarrow> jsstring set" where
  "tap_ids h = {t. \<exists>a. Sent t a \<in> set h}"

lemma history_simps [simp]:
  "open_taps [] = []" "open_taps (Sent t a # h) = Sent t a # open_taps h" "open_taps (Confirmed a # h) = []"
  "tap_ids (h @ h') = tap_ids h \<union> tap_ids h'"
  "tap_ids [] = {}" "tap_ids (Sent t a # h) = insert t (tap_ids h)" "tap_ids (Confirmed a # h) = tap_ids h"
  by (auto simp: open_taps_def tap_ids_def)

lemma open_taps_ids: "Sent t a \<in> set (open_taps h) \<Longrightarrow> t \<in> tap_ids h"
  by (auto simp: open_taps_def tap_ids_def dest: set_takeWhileD)







text \<open>
  The history against the calls of the run: the identifiers drawn by the presses, a new one being sent
  only when none is kept, so that none is sent on both sides of a confirmation.
\<close>

fun drawn_ids :: "bar_label list \<Rightarrow> jsstring list" where
  "drawn_ids [] = []"
| "drawn_ids (Pressed fresh s c a # ls) = fresh # drawn_ids ls"
| "drawn_ids (_ # ls) = drawn_ids ls"

lemma drawn_ids_append [simp]: "drawn_ids (ls @ ls') = drawn_ids ls @ drawn_ids ls'"
  by (induction ls rule: drawn_ids.induct) simp_all

definition sent_count :: "tap_event list \<Rightarrow> nat" where
  "sent_count h = length (filter is_sent h)"

fun answer_count :: "bar_label list \<Rightarrow> nat" where
  "answer_count [] = 0"
| "answer_count (Answer a # ls) = Suc (answer_count ls)"
| "answer_count (_ # ls) = answer_count ls"

lemma answer_count_append [simp]: "answer_count (ls @ ls') = answer_count ls + answer_count ls'"
  by (induction ls rule: answer_count.induct) simp_all

lemma sent_count_simps [simp]:
  "sent_count [] = 0" "sent_count (Sent t a # h) = Suc (sent_count h)" "sent_count (Confirmed a # h) = sent_count h"
  by (simp_all add: sent_count_def)







section \<open>Properties\<close>


section \<open>Witnesses and deviations\<close>

definition two_presets :: QuickGiveOptions where
  "two_presets = \<lparr>qg_paymentMethod = Some (JObj []), qg_presetAmounts = [Fin 500, Fin 2000], qg_tapLimit = Fin 5000\<rparr>"

lemmas bar_ops = give_pressed_def give_answered_def confirm_def give_again_def options_loaded_def bar_mounted_def
  Let_def

lemmas bar_buttons = buttons_def two_presets_def presets_def

definition no_answer :: "TapError + unit" where
  "no_answer = Inl \<lparr>te_reason = UnknownFailure, te_message = tapMessageFor UnknownFailure\<rparr>"

text \<open>A press that gets no answer; then either the same press again, confirmed, with a new gift after the
  thanks, or a press of the other amount.\<close>

definition pressed_without_answer :: bar where
  "pressed_without_answer =
     give_answered no_answer (give_pressed (js ''tap-1'') None None (Fin 500)
       (options_loaded (Inr two_presets) bar_mounted))"


definition no_answer_then_other_amount :: bar where
  "no_answer_then_other_amount =
     give_answered (Inr ()) (give_pressed (js ''tap-2'') None None (Fin 2000) pressed_without_answer)"

lemma pressed_without_answer_run:
  "bar_run [OptionsLoaded (Inr two_presets), Pressed (js ''tap-1'') None None (Fin 500), Answer no_answer]
     pressed_without_answer"
proof -
  let ?b1 = "options_loaded (Inr two_presets) bar_mounted"
  let ?b2 = "give_pressed (js ''tap-1'') None None (Fin 500) ?b1"
  have "bar_step bar_mounted (OptionsLoaded (Inr two_presets)) ?b1"
    by (rule bar_step.loaded) (simp add: bar_mounted_def)
  from bar_run.further [OF bar_run.mounted this]
  have "bar_run [OptionsLoaded (Inr two_presets)] ?b1" by simp
  moreover have "bar_step ?b1 (Pressed (js ''tap-1'') None None (Fin 500)) ?b2"
    by (rule bar_step.pressed) (simp_all add: bar_ops bar_buttons)
  moreover have "bar_step ?b2 (Answer no_answer) pressed_without_answer"
    unfolding pressed_without_answer_def by (rule bar_step.answer) (simp add: bar_ops)
  ultimately have "bar_run (([OptionsLoaded (Inr two_presets)] @ [Pressed (js ''tap-1'') None None (Fin 500)])
      @ [Answer no_answer]) pressed_without_answer"
    by (blast intro: bar_run.further)
  then show ?thesis by (simp only: append.simps)
qed

lemma pressed_again_run:
  assumes "a \<in> {Fin 500, Fin 2000}"
  shows "bar_run [OptionsLoaded (Inr two_presets), Pressed (js ''tap-1'') None None (Fin 500), Answer no_answer,
      Pressed (js ''tap-2'') None None a, Answer (Inr ())]
    (give_answered (Inr ()) (give_pressed (js ''tap-2'') None None a pressed_without_answer))"
proof -
  let ?b = "give_pressed (js ''tap-2'') None None a pressed_without_answer"
  note ops = pressed_without_answer_def no_answer_def bar_ops bar_buttons
  have "bar_step pressed_without_answer (Pressed (js ''tap-2'') None None a) ?b"
    by (rule bar_step.pressed) (use assms in \<open>auto simp: ops\<close>)
  from bar_run.further [OF pressed_without_answer_run this]
  have "bar_run ([OptionsLoaded (Inr two_presets), Pressed (js ''tap-1'') None None (Fin 500), Answer no_answer]
      @ [Pressed (js ''tap-2'') None None a]) ?b" .
  moreover have "bar_step ?b (Answer (Inr ())) (give_answered (Inr ()) ?b)"
    by (rule bar_step.answer) (simp add: ops)
  ultimately have "bar_run (([OptionsLoaded (Inr two_presets), Pressed (js ''tap-1'') None None (Fin 500),
      Answer no_answer] @ [Pressed (js ''tap-2'') None None a]) @ [Answer (Inr ())]) (give_answered (Inr ()) ?b)"
    by (rule bar_run.further)
  then show ?thesis by (simp only: append.simps)
qed



lemma no_answer_run:
  "bar_run [OptionsLoaded (Inr two_presets), Pressed (js ''tap-1'') None None (Fin 500), Answer no_answer,
     Pressed (js ''tap-2'') None None (Fin 2000), Answer (Inr ())] no_answer_then_other_amount"
  unfolding no_answer_then_other_amount_def by (rule pressed_again_run) simp

text \<open>The second press carries the identifier of the first: when the first was charged, the gateway
  answers with that gift, and the bar gives thanks for an amount that was never charged.\<close>

lemma thanks_for_amount_not_charged:
  "br_given no_answer_then_other_amount = Some (Fin 2000)
   \<and> br_history no_answer_then_other_amount =
       [Confirmed (Fin 2000), Sent (js ''tap-1'') (Fin 2000), Sent (js ''tap-1'') (Fin 500)]"
  by (simp add: no_answer_then_other_amount_def pressed_without_answer_def no_answer_def bar_ops)

text \<open>A request without a response may have been charged, and is reported as not charged.\<close>

lemma lost_answer_reported_as_not_charged:
  "api \<lparr>rq_method = POST, rq_path = js ''/finance/me/tap'', rq_params = [], rq_body = tap_json r\<rparr> = Inl (AxiosError None) \<Longrightarrow>
   tap api r = Inl \<lparr>te_reason = UnknownFailure,
     te_message = js ''We could not complete that gift. Nothing has been charged.''\<rparr>"
  by (simp add: tap_def api_post_def tapFailureFor_def)

end
