(* ===== verification/Live.thy ===== *)
theory Live
  imports ApiBoundary
begin

text \<open>
  Live services in the mobile app: the calls (\<open>live.service.ts\<close>), whether the build can stream
  (\<open>webrtc-availability.ts\<close>), the signalling and media connection (\<open>live-connection.ts\<close>) and the screen
  that takes a seat, shows the recording notice and connects (\<open>screens/live/LiveSessionScreen.tsx\<close>).
  Connection and screen are transition systems; what the browser and the network do is a label. The constructors of
  the socket and of the peer connection are taken to return.
\<close>

section \<open>The service\<close>

definition isSession :: "jsval \<Rightarrow> bool" where
  "isSession v \<longleftrightarrow> is_object v
     \<and> is_string (get v ''id'') \<and> the_str (get v ''id'') \<noteq> [] \<and> is_string (get v ''title'')
     \<and> get v ''status'' \<in> {JStr (js ''scheduled''), JStr (js ''live''), JStr (js ''ended'')}"

fun is_array :: "jsval \<Rightarrow> bool" where
  "is_array (JArr _) = True"
| "is_array _ = False"

definition isGrant :: "jsval \<Rightarrow> bool" where
  "isGrant v \<longleftrightarrow> is_object v \<and> is_string (get v ''roomId'')
     \<and> is_string (get v ''token'') \<and> the_str (get v ''token'') \<noteq> [] \<and> is_array (get v ''iceServers'')"

definition HEARTBEAT_INTERVAL_MS :: nat where
  "HEARTBEAT_INTERVAL_MS = 30000"

definition live_sessions :: "api \<Rightarrow> js_error + jsval list" where
  "live_sessions api =
     and_then (api_get api (js ''/live/sessions'') []) (\<lambda>data.
     and_then (unwrapApiData data (throw ''Could not load the services.'')) (\<lambda>payload.
       case get payload ''sessions'' of
         JArr vs \<Rightarrow> Inr (filter isSession vs)
       | _ \<Rightarrow> Inr []))"

record JoinResult =
  jr_grant :: jsval
  jr_recording :: jsval

definition session_path :: "jsstring \<Rightarrow> string \<Rightarrow> jsstring" where
  "session_path sessionId action = js ''/live/sessions/'' @ sessionId @ [47] @ js action"

definition live_join :: "api \<Rightarrow> jsstring \<Rightarrow> js_error + JoinResult" where
  "live_join api sessionId =
     and_then (api_post api (session_path sessionId ''join'') (JObj [])) (\<lambda>data.
     and_then (unwrapApiData data (throw ''Could not join the service.'')) (\<lambda>payload.
       if \<not> isGrant (get payload ''grant'') then Inl (throw ''Could not join the service.'')
       else Inr \<lparr>jr_grant = get payload ''grant'',
         jr_recording = coalesce (get payload ''recording'') (JObj [(''recording'', JBool False)])\<rparr>))"

definition live_leave :: "api \<Rightarrow> jsstring \<Rightarrow> js_error + unit" where
  "live_leave api sessionId = and_then (api_post api (session_path sessionId ''leave'') (JObj [])) (\<lambda>_. Inr ())"

definition live_heartbeat :: "api \<Rightarrow> jsstring \<Rightarrow> js_error + unit" where
  "live_heartbeat api sessionId =
     and_then (api_post api (session_path sessionId ''heartbeat'') (JObj [])) (\<lambda>_. Inr ())"

section \<open>Availability of WebRTC\<close>

text \<open>\<open>required\<close>: what \<open>require('react-native-webrtc')\<close> gives, \<open>None\<close> when it throws; the module counts when
  \<open>RTCPeerConnection\<close> is a function. The cache is \<open>None\<close> before the first call.\<close>

record webrtc_module =
  wm_peerConnectionIsFunction :: bool

definition loadWebRTC :: "webrtc_module option \<Rightarrow> webrtc_module option option \<Rightarrow>
    webrtc_module option \<times> webrtc_module option option" where
  "loadWebRTC required cached =
     (case cached of
        Some c \<Rightarrow> (c, cached)
      | None \<Rightarrow>
          let c = (case required of
              Some m \<Rightarrow> if wm_peerConnectionIsFunction m then Some m else None
            | None \<Rightarrow> None)
          in (c, Some c))"

definition canStream :: "webrtc_module option \<Rightarrow> webrtc_module option option \<Rightarrow> bool" where
  "canStream required cached \<longleftrightarrow> fst (loadWebRTC required cached) \<noteq> None"

section \<open>The signalling URL\<close>

text \<open>The value of a query entry as \<open>URLSearchParams\<close> writes it.\<close>

definition form_unreserved :: "nat \<Rightarrow> bool" where
  "form_unreserved c \<longleftrightarrow> is_alnum c \<or> c \<in> set (js ''*-._'')"

definition form_point :: "nat \<Rightarrow> jsstring" where
  "form_point p =
     (if form_unreserved p then [p]
      else if p = 32 then js ''+''
      else concat (map (\<lambda>b. [37, hex_digit (b div 16), hex_digit (b mod 16)])
        (case utf8_encode p of Some bs \<Rightarrow> bs | None \<Rightarrow> the (utf8_encode 0xFFFD))))"

definition form_encode :: "jsstring \<Rightarrow> jsstring" where
  "form_encode s = concat (map form_point (code_points s))"

definition replace_scheme :: "jsstring \<Rightarrow> jsstring \<Rightarrow> jsstring \<Rightarrow> jsstring" where
  "replace_scheme old new s = (if starts_with old s then new @ drop (length old) s else s)"

text \<open>An absolute path resolved against a base is the origin of the base with that path. \<open>None\<close> is the
  \<open>TypeError\<close> of a base that is no URL.\<close>

definition signalUrl :: "host \<Rightarrow> jsstring \<Rightarrow> jsstring \<Rightarrow> jsstring option" where
  "signalUrl h base token =
     (case urlParse h base of
        None \<Rightarrow> None
      | Some u \<Rightarrow> Some (replace_scheme (js ''http:'') (js ''ws:'')
          (replace_scheme (js ''https:'') (js ''wss:'')
            (u_origin u @ js ''/api/v1/live/signal?grant='' @ form_encode token))))"

section \<open>The connection\<close>

datatype conn_status = Connecting | Watching | Reconnecting | Failed jsval | Closed

datatype report = StatusIs conn_status | StreamIs jsval

datatype signal = OfferOut jsval | AnswerOut jsval | PingOut

text \<open>What a promise of the peer connection is awaited for.\<close>

datatype conn_flight =
    CreatingOffer
  | SettingOffer jsval
  | Gathering jsval
  | RemoteAnswer
  | RemoteOffer
  | CreatingAnswer
  | SettingAnswer jsval

text \<open>\<open>lc_socket\<close>: \<open>None\<close> for null, otherwise whether its state is open. \<open>lc_reports\<close> and \<open>lc_sent\<close> are what
  the handlers were told and what was sent, in order.\<close>

record live_connection =
  lc_closed :: bool
  lc_pc :: bool
  lc_socket :: "bool option"
  lc_ping :: bool
  lc_flights :: "conn_flight list"
  lc_reports :: "report list"
  lc_sent :: "signal list"

definition new_connection :: live_connection where
  "new_connection = \<lparr>lc_closed = False, lc_pc = False, lc_socket = None, lc_ping = False,
     lc_flights = [], lc_reports = [], lc_sent = []\<rparr>"

definition onStatus :: "conn_status \<Rightarrow> live_connection \<Rightarrow> live_connection" where
  "onStatus s c = c\<lparr>lc_reports := lc_reports c @ [StatusIs s]\<rparr>"

abbreviation failed :: "string \<Rightarrow> conn_status" where
  "failed why \<equiv> Failed (JStr (js why))"

definition awaits :: "conn_flight \<Rightarrow> live_connection \<Rightarrow> live_connection" where
  "awaits f c = c\<lparr>lc_flights := lc_flights c @ [f]\<rparr>"

definition conn_start :: "bool \<Rightarrow> live_connection \<Rightarrow> live_connection" where
  "conn_start available c =
     (if \<not> available then onStatus (failed ''streaming-unavailable'') c
      else (onStatus Connecting c)\<lparr>lc_pc := True, lc_socket := Some False, lc_ping := True\<rparr>)"

definition conn_send :: "signal \<Rightarrow> live_connection \<Rightarrow> live_connection" where
  "conn_send m c = (if lc_socket c = Some True then c\<lparr>lc_sent := lc_sent c @ [m]\<rparr> else c)"

text \<open>\<open>ontrack\<close> and \<open>onconnectionstatechange\<close> of the peer connection.\<close>

definition on_track :: "jsval list \<Rightarrow> live_connection \<Rightarrow> live_connection" where
  "on_track streams c =
     (case streams of
        [] \<Rightarrow> c
      | stream # _ \<Rightarrow> onStatus Watching (c\<lparr>lc_reports := lc_reports c @ [StreamIs stream]\<rparr>))"

definition on_peer_state :: "jsstring \<Rightarrow> live_connection \<Rightarrow> live_connection" where
  "on_peer_state state c =
     (if lc_closed c then c
      else if state = js ''connected'' then onStatus Watching c
      else if state = js ''disconnected'' then onStatus Reconnecting c
      else if state = js ''failed'' then onStatus (failed ''connection-failed'') c
      else c)"

text \<open>The four handlers of the socket. \<open>onmessage\<close> gets the parsed message, \<open>None\<close> when it is no JSON.\<close>

definition sendOffer :: "live_connection \<Rightarrow> live_connection" where
  "sendOffer c = (if \<not> lc_pc c then c else awaits CreatingOffer c)"

definition on_open :: "live_connection \<Rightarrow> live_connection" where
  "on_open c = sendOffer (if lc_socket c = None then c else c\<lparr>lc_socket := Some True\<rparr>)"

definition onMessage :: "jsval option \<Rightarrow> live_connection \<Rightarrow> live_connection" where
  "onMessage message c =
     (case message of
        None \<Rightarrow> c
      | Some msg \<Rightarrow>
          if \<not> lc_pc c \<or> nullish msg then c
          else if get msg ''type'' = JStr (js ''answer'')
            then if truthy (get msg ''sdp'') then awaits RemoteAnswer c else c
          else if get msg ''type'' = JStr (js ''offer'')
            then if truthy (get msg ''sdp'') then awaits RemoteOffer c else c
          else if get msg ''type'' = JStr (js ''error'')
            then onStatus (Failed (coalesce (get msg ''reason'') (JStr (js ''server-error'')))) c
          else c)"

definition on_socket_error :: "live_connection \<Rightarrow> live_connection" where
  "on_socket_error c = (if lc_closed c then c else onStatus (failed ''signalling-failed'') c)"

definition on_socket_close :: "live_connection \<Rightarrow> live_connection" where
  "on_socket_close c =
     (let c1 = c\<lparr>lc_socket := Some False\<rparr>
      in if lc_closed c1 then c1 else onStatus (failed ''signalling-closed'') c1)"

definition ping_tick :: "live_connection \<Rightarrow> live_connection" where
  "ping_tick c = conn_send PingOut c"

text \<open>What follows an awaited promise: \<open>Inl\<close> when it was rejected. A failed offer is reported, a failed
  answer is not; \<open>described\<close> is \<open>localDescription\<close>.\<close>

definition offer_failed :: "live_connection \<Rightarrow> live_connection" where
  "offer_failed c = onStatus (failed ''offer-failed'') c"

definition conn_resume :: "conn_flight \<Rightarrow> unit + jsval \<Rightarrow> jsval \<Rightarrow> live_connection \<Rightarrow> live_connection" where
  "conn_resume f answer described c =
     (case f of
        CreatingOffer \<Rightarrow> (case answer of Inl _ \<Rightarrow> offer_failed c | Inr offer \<Rightarrow> awaits (SettingOffer offer) c)
      | SettingOffer offer \<Rightarrow> (case answer of Inl _ \<Rightarrow> offer_failed c | Inr _ \<Rightarrow> awaits (Gathering offer) c)
      | Gathering offer \<Rightarrow> conn_send (OfferOut (coalesce described offer)) c
      | RemoteAnswer \<Rightarrow> c
      | RemoteOffer \<Rightarrow> (case answer of Inl _ \<Rightarrow> c | Inr _ \<Rightarrow> awaits CreatingAnswer c)
      | CreatingAnswer \<Rightarrow> (case answer of Inl _ \<Rightarrow> c | Inr ans \<Rightarrow> awaits (SettingAnswer ans) c)
      | SettingAnswer ans \<Rightarrow> (case answer of Inl _ \<Rightarrow> c | Inr _ \<Rightarrow> conn_send (AnswerOut (coalesce described ans)) c))"

definition close :: "live_connection \<Rightarrow> live_connection" where
  "close c =
     (if lc_closed c then c
      else onStatus Closed (c\<lparr>lc_closed := True, lc_ping := False, lc_pc := False, lc_socket := None\<rparr>))"

datatype conn_label =
    Track "jsval list"
  | PeerState jsstring
  | SocketOpen
  | SocketMessage "jsval option"
  | SocketError
  | SocketClosed
  | PingTick
  | Resumed conn_flight "unit + jsval" jsval
  | CloseCalled

text \<open>\<open>close\<close> removes the handlers of the peer connection and \<open>onerror\<close> and \<open>onclose\<close> of the socket.\<close>

inductive conn_step :: "live_connection \<Rightarrow> conn_label \<Rightarrow> live_connection \<Rightarrow> bool" where
  track: "lc_pc c \<Longrightarrow> conn_step c (Track streams) (on_track streams c)"
| peer: "lc_pc c \<Longrightarrow> conn_step c (PeerState s) (on_peer_state s c)"
| opened: "conn_step c SocketOpen (on_open c)"
| received: "conn_step c (SocketMessage m) (onMessage m c)"
| erred: "lc_socket c \<noteq> None \<Longrightarrow> conn_step c SocketError (on_socket_error c)"
| ended: "lc_socket c \<noteq> None \<Longrightarrow> conn_step c SocketClosed (on_socket_close c)"
| tick: "lc_ping c \<Longrightarrow> conn_step c PingTick (ping_tick c)"
| resumed: "f \<in> set (lc_flights c) \<Longrightarrow>
    conn_step c (Resumed f a d) (conn_resume f a d (c\<lparr>lc_flights := remove1 f (lc_flights c)\<rparr>))"
| closing: "conn_step c CloseCalled (close c)"

inductive conn_run :: "live_connection \<Rightarrow> conn_label list \<Rightarrow> live_connection \<Rightarrow> bool" for c where
  here: "conn_run c [] c"
| on: "conn_run c ls d \<Longrightarrow> conn_step d l d' \<Longrightarrow> conn_run c (ls @ [l]) d'"

section \<open>The screen\<close>

datatype screen_call = LeaveSent | HeartbeatSent | ConnectionOpened jsval | ConnectionClosed

text \<open>\<open>ls_connection\<close> is whether \<open>connection.current\<close> is set, \<open>ls_opened\<close> whether the effect that opened it has
  still to be cleaned up; \<open>ls_joining\<close> whether \<open>join\<close> is awaited, \<open>ls_calls\<close> what the screen asked for.\<close>

record live_screen =
  ls_notice :: "jsval option"
  ls_accepted :: bool
  ls_joinError :: "jsstring option"
  ls_grant :: "jsval option"
  ls_connection :: bool
  ls_opened :: bool
  ls_heartbeat :: bool
  ls_joined :: bool
  ls_joining :: bool
  ls_mounted :: bool
  ls_calls :: "screen_call list"

definition screen_mounted :: live_screen where
  "screen_mounted = \<lparr>ls_notice = None, ls_accepted = False, ls_joinError = None, ls_grant = None,
     ls_connection = False, ls_opened = False, ls_heartbeat = False, ls_joined = False, ls_joining = True,
     ls_mounted = True, ls_calls = []\<rparr>"

definition asks :: "screen_call \<Rightarrow> live_screen \<Rightarrow> live_screen" where
  "asks k s = s\<lparr>ls_calls := ls_calls s @ [k]\<rparr>"

text \<open>The two effects that depend on \<open>accepted\<close>: the interval of the heartbeats, and the connection.\<close>

definition heartbeat_effect :: "live_screen \<Rightarrow> live_screen" where
  "heartbeat_effect s = (if \<not> ls_accepted s \<or> \<not> ls_joined s then s else s\<lparr>ls_heartbeat := True\<rparr>)"

definition connect_effect :: "live_screen \<Rightarrow> live_screen" where
  "connect_effect s =
     (if \<not> ls_accepted s \<or> \<not> ls_joined s \<or> ls_connection s then s
      else case ls_grant s of
          None \<Rightarrow> s
        | Some grant \<Rightarrow> asks (ConnectionOpened grant) (s\<lparr>ls_connection := True, ls_opened := True\<rparr>))"

definition setAccepted :: "live_screen \<Rightarrow> live_screen" where
  "setAccepted s = (if ls_accepted s then s else connect_effect (heartbeat_effect (s\<lparr>ls_accepted := True\<rparr>)))"

definition join_answered :: "js_error + JoinResult \<Rightarrow> live_screen \<Rightarrow> live_screen" where
  "join_answered answer s =
     (let s1 = s\<lparr>ls_joining := False\<rparr>
      in if \<not> ls_mounted s1 then s1
         else case answer of
             Inl _ \<Rightarrow> s1\<lparr>ls_joinError :=
               Some (js ''We could not join this service. It may have ended or be full.'')\<rparr>
           | Inr result \<Rightarrow>
               let s2 = s1\<lparr>ls_joined := True, ls_grant := Some (jr_grant result),
                    ls_notice := Some (jr_recording result)\<rparr>
               in if truthy (get (jr_recording result) ''recording'') then s2 else setAccepted s2)"

text \<open>Whether the consent notice is what the screen renders.\<close>

definition consent_shown :: "live_screen \<Rightarrow> bool" where
  "consent_shown s \<longleftrightarrow> ls_joinError s = None \<and> \<not> ls_accepted s
     \<and> (case ls_notice s of None \<Rightarrow> False | Some n \<Rightarrow> truthy (get n ''recording''))"

definition heartbeat_tick :: "live_screen \<Rightarrow> live_screen" where
  "heartbeat_tick s = asks HeartbeatSent s"

definition leave_pressed :: "live_screen \<Rightarrow> live_screen" where
  "leave_pressed s =
     (let s1 = (if ls_connection s then (asks ConnectionClosed s)\<lparr>ls_connection := False\<rparr> else s)
      in if ls_joined s1 then (asks LeaveSent s1)\<lparr>ls_joined := False\<rparr> else s1)"

text \<open>The clean-ups of the effects, in their order.\<close>

definition screen_unmount :: "live_screen \<Rightarrow> live_screen" where
  "screen_unmount s =
     (let s1 = s\<lparr>ls_mounted := False, ls_heartbeat := False\<rparr>;
          s2 = (if ls_opened s1
            then (asks ConnectionClosed s1)\<lparr>ls_connection := False, ls_opened := False\<rparr> else s1);
          s3 = (if ls_connection s2 then asks ConnectionClosed s2 else s2)
      in if ls_joined s3 then asks LeaveSent s3 else s3)"

datatype screen_label = JoinAnswered "js_error + JoinResult" | AcceptPressed | HeartbeatTick | LeavePressed | ScreenUnmounted

inductive screen_step :: "live_screen \<Rightarrow> screen_label \<Rightarrow> live_screen \<Rightarrow> bool" where
  joined: "ls_joining s \<Longrightarrow> screen_step s (JoinAnswered a) (join_answered a s)"
| accept: "ls_mounted s \<Longrightarrow> consent_shown s \<Longrightarrow> screen_step s AcceptPressed (setAccepted s)"
| tick: "ls_heartbeat s \<Longrightarrow> screen_step s HeartbeatTick (heartbeat_tick s)"
| leave: "ls_mounted s \<Longrightarrow> ls_joinError s = None \<Longrightarrow> screen_step s LeavePressed (leave_pressed s)"
| unmount: "ls_mounted s \<Longrightarrow> screen_step s ScreenUnmounted (screen_unmount s)"

inductive screen_run :: "screen_label list \<Rightarrow> live_screen \<Rightarrow> bool" where
  here: "screen_run [] screen_mounted"
| on: "screen_run ls s \<Longrightarrow> screen_step s l s' \<Longrightarrow> screen_run (ls @ [l]) s'"

section \<open>Lemmas\<close>

subsection \<open>Connection\<close>

definition pending_offer :: "live_connection \<Rightarrow> bool" where
  "pending_offer c \<longleftrightarrow> (\<exists>f\<in>set (lc_flights c). f = CreatingOffer \<or> (\<exists>q. f = SettingOffer q))"

definition shut :: "live_connection \<Rightarrow> bool" where
  "shut c \<longleftrightarrow> lc_closed c \<and> \<not> lc_pc c \<and> lc_socket c = None \<and> \<not> lc_ping c"

lemmas conn_ops = onStatus_def awaits_def conn_send_def on_track_def on_peer_state_def sendOffer_def on_open_def
  onMessage_def on_socket_error_def on_socket_close_def ping_tick_def offer_failed_def close_def Let_def

lemma shut_resume:
  assumes "shut c" and "f \<in> set (lc_flights c)"
    and "c' = conn_resume f a d (c\<lparr>lc_flights := remove1 f (lc_flights c)\<rparr>)"
  shows "shut c' \<and> lc_sent c' = lc_sent c
     \<and> (lc_reports c' = lc_reports c
        \<or> lc_reports c' = lc_reports c @ [StatusIs (failed ''offer-failed'')] \<and> pending_offer c)
     \<and> (pending_offer c' \<longrightarrow> pending_offer c)"
proof -
  have rest: "g \<in> set (remove1 f (lc_flights c)) \<Longrightarrow> g \<in> set (lc_flights c)" for g
    by (meson notin_set_remove1)
  show ?thesis
    using assms rest
    by (cases f; cases a) (auto simp: shut_def pending_offer_def conn_resume_def conn_ops)
qed

lemma shut_step:
  assumes "conn_step c l c'" and "shut c"
  shows "shut c' \<and> lc_sent c' = lc_sent c
     \<and> (lc_reports c' = lc_reports c
        \<or> lc_reports c' = lc_reports c @ [StatusIs (failed ''offer-failed'')] \<and> pending_offer c)
     \<and> (pending_offer c' \<longrightarrow> pending_offer c)"
  using assms(1)
proof cases
  case (resumed f a d)
  then show ?thesis using shut_resume [OF assms(2)] by blast
qed (use assms(2) in \<open>auto simp: shut_def pending_offer_def conn_ops split: option.splits\<close>)

lemma shut_run:
  assumes "conn_run c ls c'" and "shut c"
  shows "shut c' \<and> lc_sent c' = lc_sent c
     \<and> (\<exists>n. lc_reports c' = lc_reports c @ replicate n (StatusIs (failed ''offer-failed'')) \<and> (0 < n \<longrightarrow> pending_offer c))
     \<and> (pending_offer c' \<longrightarrow> pending_offer c)"
  using assms
proof induction
  case here
  then show ?case by (auto intro: exI [of _ 0])
next
  case (on ls d l d')
  then obtain n where n: "lc_reports d = lc_reports c @ replicate n (StatusIs (failed ''offer-failed''))"
      "0 < n \<longrightarrow> pending_offer c" and d: "shut d" "lc_sent d = lc_sent c" "pending_offer d \<longrightarrow> pending_offer c"
    by blast
  from shut_step [OF on.hyps(2) d(1)] consider "lc_reports d' = lc_reports d"
    | "lc_reports d' = lc_reports d @ [StatusIs (failed ''offer-failed'')]" "pending_offer d"
    by blast
  then have "\<exists>n. lc_reports d' = lc_reports c @ replicate n (StatusIs (failed ''offer-failed''))
      \<and> (0 < n \<longrightarrow> pending_offer c)"
  proof cases
    case 1
    then show ?thesis using n by auto
  next
    case 2
    then show ?thesis using n(1) d(3)
      by (intro exI [of _ "Suc n"]) (simp add: replicate_append_same)
  qed
  then show ?case using shut_step [OF on.hyps(2) d(1)] d by simp
qed

lemma shut_close: "\<not> lc_closed c \<Longrightarrow> shut (close c)"
  by (simp add: shut_def conn_ops)

subsection \<open>Screen\<close>

lemmas screen_ops = asks_def heartbeat_effect_def connect_effect_def setAccepted_def join_answered_def
  consent_shown_def heartbeat_tick_def leave_pressed_def screen_unmount_def screen_mounted_def Let_def

definition consented :: "screen_label list \<Rightarrow> bool" where
  "consented ls \<longleftrightarrow> AcceptPressed \<in> set ls
     \<or> (\<exists>r. JoinAnswered (Inr r) \<in> set ls \<and> \<not> truthy (get (jr_recording r) ''recording''))"

definition left_once :: "live_screen \<Rightarrow> nat" where
  "left_once s = length (filter (\<lambda>k. k = LeaveSent) (ls_calls s))"

definition screen_inv :: "screen_label list \<Rightarrow> live_screen \<Rightarrow> bool" where
  "screen_inv ls s \<longleftrightarrow>
     (ls_accepted s \<longrightarrow> consented ls)
     \<and> ((\<exists>g. ConnectionOpened g \<in> set (ls_calls s)) \<or> HeartbeatSent \<in> set (ls_calls s) \<or> ls_heartbeat s \<longrightarrow> ls_accepted s)
     \<and> (ls_joining s \<longrightarrow> ls_grant s = None)
     \<and> (ls_mounted s \<longrightarrow> left_once s = (if ls_grant s \<noteq> None \<and> \<not> ls_joined s then 1 else 0))
     \<and> (\<not> ls_mounted s \<longrightarrow> \<not> ls_heartbeat s \<and> left_once s = (if ls_grant s \<noteq> None then 1 else 0))
     \<and> (ls_joined s \<longrightarrow> ls_grant s \<noteq> None)"

lemma consented_more: "consented ls \<Longrightarrow> consented (ls @ [l])"
  by (auto simp: consented_def)

lemma screen_inv_step:
  assumes "screen_step s l s'" and inv: "screen_inv ls s"
  shows "screen_inv (ls @ [l]) s'"
  using assms(1)
proof cases
  case (joined a)
  then show ?thesis
    using inv consented_more [of ls l]
    by (cases a) (auto simp: screen_inv_def screen_ops left_once_def consented_def)
qed (use inv consented_more [of ls l] in \<open>auto simp: screen_inv_def screen_ops left_once_def consented_def
       split: option.splits if_splits\<close>)

lemma screen_run_inv: "screen_run ls s \<Longrightarrow> screen_inv ls s"
proof (induction rule: screen_run.induct)
  case here
  show ?case by (simp add: screen_inv_def screen_mounted_def left_once_def)
qed (rule screen_inv_step)

section \<open>Properties\<close>

text \<open>C8: nobody is connected to a recorded service without having agreed. In every run of the screen, a
  connection is opened and a heartbeat is sent only after the member accepted the recording notice or the
  service answered that it is not recorded. The seat is given back at most once, and exactly once when the
  screen is gone and the grant had arrived while it was there. (A seat whose grant arrives after the screen has gone
  is kept: lemma \<open>seat_kept_when_left_early\<close>.)\<close>

theorem nothing_connects_before_consent:
  assumes "screen_run ls s"
  shows "((\<exists>g. ConnectionOpened g \<in> set (ls_calls s)) \<or> HeartbeatSent \<in> set (ls_calls s) \<longrightarrow>
      AcceptPressed \<in> set ls
      \<or> (\<exists>r. JoinAnswered (Inr r) \<in> set ls \<and> \<not> truthy (get (jr_recording r) ''recording'')))
    \<and> left_once s \<le> 1 \<and> (\<not> ls_mounted s \<and> ls_grant s \<noteq> None \<longrightarrow> left_once s = 1)"
  using screen_run_inv [OF assms] by (auto simp: screen_inv_def consented_def split: if_splits)

text \<open>C36: a closed connection is silent. After \<open>close\<close>, whatever events arrive and whatever promises are
  settled, nothing is sent, no stream is shown, and nothing is reported but the failure of an offer that
  was being made; closing again changes nothing.\<close>

theorem closed_connection_is_silent:
  assumes "\<not> lc_closed c" and "conn_run (close c) ls c'"
  shows "lc_sent c' = lc_sent c
    \<and> (\<exists>n. lc_reports c' = lc_reports c @ StatusIs Closed # replicate n (StatusIs (failed ''offer-failed''))
        \<and> (0 < n \<longrightarrow> pending_offer c))
    \<and> close c' = c'"
proof -
  have "lc_reports (close c) = lc_reports c @ [StatusIs Closed]" "lc_sent (close c) = lc_sent c"
    and "pending_offer (close c) = pending_offer c"
    using assms(1) by (simp_all add: conn_ops pending_offer_def)
  then show ?thesis
    using shut_run [OF assms(2) shut_close [OF assms(1)]] by (auto simp: shut_def close_def)
qed

text \<open>The signalling channel of a build whose gateway address is checked is encrypted, and carries the
  grant in the query and nothing else.\<close>

lemma signalling_keeps_scheme:
  assumes "urlParse h base = Some u" and "u_origin u = js ''https:'' @ r"
  shows "signalUrl h base token = Some (js ''wss:'' @ r @ js ''/api/v1/live/signal?grant='' @ form_encode token)"
proof -
  have "starts_with (js ''https:'') (js ''https:'' @ x)" "drop 6 (js ''https:'' @ x) = x" for x
    by (simp_all add: starts_with_def)
  moreover have "\<not> starts_with (js ''http:'') (js ''wss:'' @ x)" for x
    by (cases x) (simp_all add: starts_with_def js_def)
  ultimately show ?thesis
    using assms by (simp add: signalUrl_def replace_scheme_def)
qed

section \<open>Witnesses and deviations\<close>

definition recorded_join :: JoinResult where
  "recorded_join = \<lparr>jr_grant = JObj [(''token'', JStr (js ''t''))],
     jr_recording = JObj [(''recording'', JBool True)]\<rparr>"

lemma nothing_connects_before_consent_witness:
  "case join_answered (Inr recorded_join) screen_mounted of s \<Rightarrow>
     ls_calls s = [] \<and> left_once (screen_unmount (setAccepted s)) = 1
     \<and> AcceptPressed \<in> set [JoinAnswered (Inr recorded_join), AcceptPressed, ScreenUnmounted]"
proof -
  let ?s = "join_answered (Inr recorded_join) screen_mounted"
  have calls: "ls_calls ?s = []"
    by (simp add: screen_ops recorded_join_def get_def)
  have "screen_step screen_mounted (JoinAnswered (Inr recorded_join)) ?s"
    by (rule screen_step.joined) (simp add: screen_mounted_def)
  moreover have "screen_step ?s AcceptPressed (setAccepted ?s)"
    by (rule screen_step.accept) (simp_all add: screen_ops recorded_join_def get_def)
  moreover have "screen_step (setAccepted ?s) ScreenUnmounted (screen_unmount (setAccepted ?s))"
    by (rule screen_step.unmount) (simp add: screen_ops recorded_join_def get_def)
  ultimately have "\<exists>ls. screen_run ls (screen_unmount (setAccepted ?s))"
    by (meson screen_run.on screen_run.here)
  then obtain ls where "screen_run ls (screen_unmount (setAccepted ?s))" by blast
  from nothing_connects_before_consent [OF this] show ?thesis
    using calls by (simp add: screen_ops recorded_join_def get_def)
qed

lemma closed_connection_is_silent_witness:
  "lc_sent (close (conn_start True new_connection)) = []
   \<and> close (close (conn_start True new_connection)) = close (conn_start True new_connection)"
  using closed_connection_is_silent [of "conn_start True new_connection", OF _ conn_run.here]
  by (simp add: conn_start_def new_connection_def onStatus_def)

text \<open>A seat taken while the member leaves before the answer to \<open>join\<close> arrives is not given back.\<close>

lemma seat_kept_when_left_early:
  "left_once (join_answered (Inr recorded_join) (screen_unmount (leave_pressed screen_mounted))) = 0"
  by (simp add: screen_ops left_once_def)

text \<open>A member who closed the service is told that it failed: the peer connection rejects the offer in progress
  because it was closed, and the report is not guarded.\<close>

lemma failure_after_close:
  "lc_reports (conn_resume CreatingOffer (Inl ()) JNull
      (close (on_open (conn_start True new_connection)))\<lparr>lc_flights := []\<rparr>)
   = [StatusIs Connecting, StatusIs Closed, StatusIs (failed ''offer-failed'')]"
  by (simp add: conn_resume_def conn_start_def new_connection_def conn_ops)

end
