(* ===== verification/BrowserClient.thy ===== *)
theory BrowserClient
  imports SessionToken Steps
begin

text \<open>
  The browser applications: the gateway client the member site, the dashboard and the platform console share
  (\<open>services/api.ts\<close> of each), their authentication services and their authentication contexts. A context
  is a transition system over calls and answers; what the gateway answers, the network and the order of the
  answers are its labels. \<open>localStorage\<close> is a map; JSON is the parameter of \<open>SessionToken\<close>.
\<close>

section \<open>The client\<close>

datatype web_method = WGet | WPost | WPut | WPatch | WDelete

record web_call =
  wc_method :: web_method
  wc_url :: jsstring
  wc_data :: jsval

datatype web_answer = Responded nat jsval | NoResponse

text \<open>What a caller catches: an Axios error, \<open>ApiError\<close>, and what the interceptor and the contexts throw.\<close>

datatype web_error =
    WebAxiosError "(nat \<times> jsval) option"
  | ApiError jsval nat
  | WebSyntaxError
  | WebTypeError
  | WebError jsstring

type_synonym local_storage = "string \<Rightarrow> jsstring option"

record web_app =
  app_tokens :: string
  app_user :: string

definition member_app :: web_app where
  "member_app = \<lparr>app_tokens = ''altar_tokens'', app_user = ''altar_user''\<rparr>"

definition console_app :: web_app where
  "console_app = \<lparr>app_tokens = ''altar_admin_tokens'', app_user = ''altar_admin_user''\<rparr>"

text \<open>The bearer a request carries: the stored \<open>accessToken\<close> when it is truthy.\<close>

definition request_bearer :: "json \<Rightarrow> web_app \<Rightarrow> local_storage \<Rightarrow> web_error + jsval option" where
  "request_bearer J app st =
     (case st (app_tokens app) of
        None \<Rightarrow> Inr None
      | Some tokens \<Rightarrow>
          if tokens = [] then Inr None
          else (case json_parse J tokens of
              None \<Rightarrow> Inl WebSyntaxError
            | Some v \<Rightarrow>
                if nullish v then Inl WebTypeError
                else if truthy (get v ''accessToken'') then Inr (Some (get v ''accessToken'')) else Inr None))"

definition forget_session :: "web_app \<Rightarrow> local_storage \<Rightarrow> local_storage" where
  "forget_session app st = st(app_tokens app := None, app_user app := None)"

definition accepted_status :: "nat \<Rightarrow> bool" where
  "accepted_status status \<longleftrightarrow> 200 \<le> status \<and> status < 300"

text \<open>The interceptor of the answers: a 401 forgets the session and goes to the login page.\<close>

definition refused :: "web_answer \<Rightarrow> bool" where
  "refused answer \<longleftrightarrow> (\<exists>body. answer = Responded 401 body)"

definition unwrap :: "nat \<Rightarrow> jsval \<Rightarrow> web_error + jsval" where
  "unwrap status body =
     (if has_own body ''success''
      then if \<not> truthy (get body ''success'')
        then Inl (ApiError (coalesce (get body ''message'') (JStr (js ''The request failed.''))) status)
        else Inr (get body ''data'')
      else Inr body)"

fun answer_value :: "web_answer \<Rightarrow> web_error + jsval" where
  "answer_value NoResponse = Inl (WebAxiosError None)"
| "answer_value (Responded status body) =
     (if accepted_status status then unwrap status body else Inl (WebAxiosError (Some (status, body))))"

section \<open>The authentication services\<close>

definition web_post :: "string \<Rightarrow> jsval \<Rightarrow> web_call" where
  "web_post url data = \<lparr>wc_method = WPost, wc_url = js url, wc_data = data\<rparr>"

definition web_get :: "string \<Rightarrow> web_call" where
  "web_get url = \<lparr>wc_method = WGet, wc_url = js url, wc_data = JUndef\<rparr>"

record LoginPayload =
  lp_email :: "jsstring option"
  lp_phone :: "jsstring option"
  lp_password :: jsstring

definition login_body :: "LoginPayload \<Rightarrow> jsval" where
  "login_body payload =
     JObj [(''email'', opt_val JStr (lp_email payload)), (''phone'', opt_val JStr (lp_phone payload)),
       (''password'', JStr (lp_password payload)),
       (''method'', JStr (if lp_email payload \<in> {None, Some []} then js ''PHONE'' else js ''EMAIL''))]"

definition web_login :: "LoginPayload \<Rightarrow> web_call" where
  "web_login payload = web_post ''/auth/login'' (login_body payload)"

definition console_login :: "jsstring \<Rightarrow> jsstring \<Rightarrow> web_call" where
  "console_login email password = web_post ''/auth/login''
     (JObj [(''email'', JStr email), (''password'', JStr password), (''method'', JStr (js ''EMAIL''))])"

definition web_register :: "jsval \<Rightarrow> web_call" where
  "web_register payload = web_post ''/auth/register'' payload"

definition web_requestOtp :: "jsstring \<Rightarrow> web_call" where
  "web_requestOtp phone = web_post ''/auth/request-otp'' (JObj [(''phone'', JStr phone)])"

record OtpPayload =
  op_phone :: "jsstring option"
  op_email :: "jsstring option"
  op_otp :: jsstring

definition web_verifyOtp :: "OtpPayload \<Rightarrow> web_call" where
  "web_verifyOtp payload = web_post ''/auth/verify-otp''
     (JObj [(''phone'', opt_val JStr (op_phone payload)), (''email'', opt_val JStr (op_email payload)),
       (''otp'', JStr (op_otp payload))])"

definition web_refreshToken :: "jsstring \<Rightarrow> web_call" where
  "web_refreshToken t = web_post ''/auth/refresh-token'' (JObj [(''refreshToken'', JStr t)])"

definition web_getCurrentUser :: web_call where
  "web_getCurrentUser = web_get ''/auth/me''"

definition web_logout :: web_call where
  "web_logout = web_post ''/auth/logout'' JUndef"

definition web_forgotPassword :: "jsstring \<Rightarrow> web_call" where
  "web_forgotPassword phone = web_post ''/auth/forgot-password'' (JObj [(''phone'', JStr phone)])"

definition web_resetPassword :: "jsstring \<Rightarrow> jsstring \<Rightarrow> jsstring \<Rightarrow> web_call" where
  "web_resetPassword phone code password = web_post ''/auth/reset-password''
     (JObj [(''phone'', JStr phone), (''code'', JStr code), (''password'', JStr password)])"

section \<open>The context of the member site and of the dashboard\<close>

text \<open>\<open>wa_user\<close> and \<open>wa_tokens\<close> are what React holds, \<open>wa_launching\<close> says that the request of the launch is
  awaited, \<open>wa_signing\<close> counts the sign-ins awaited; \<open>wa_leaving\<close> says that the page was sent to the login
  page and is about to be loaded again.\<close>

record web_auth =
  wa_storage :: local_storage
  wa_user :: jsval
  wa_tokens :: jsval
  wa_isLoading :: bool
  wa_launching :: bool
  wa_signing :: nat
  wa_leaving :: bool

definition isAuthenticated :: "web_auth \<Rightarrow> bool" where
  "isAuthenticated s \<longleftrightarrow> truthy (wa_user s) \<and> truthy (wa_tokens s)"

definition stored_text :: "json \<Rightarrow> jsval \<Rightarrow> jsstring" where
  "stored_text J v = (case json_stringify J v of Some t \<Rightarrow> t | None \<Rightarrow> js ''undefined'')"

definition persistAuth :: "json \<Rightarrow> jsval \<Rightarrow> jsval \<Rightarrow> web_auth \<Rightarrow> web_auth" where
  "persistAuth J user tokens s =
     s\<lparr>wa_user := user, wa_tokens := tokens,
       wa_storage := (wa_storage s)(''altar_tokens'' \<mapsto> stored_text J tokens, ''altar_user'' \<mapsto> stored_text J user)\<rparr>"

definition clearAuth :: "web_auth \<Rightarrow> web_auth" where
  "clearAuth s = s\<lparr>wa_user := JNull, wa_tokens := JNull, wa_storage := forget_session member_app (wa_storage s)\<rparr>"

text \<open>The interceptor of the answers, for any request of the page.\<close>

definition intercepted :: "web_answer \<Rightarrow> web_auth \<Rightarrow> web_auth" where
  "intercepted answer s =
     (if refused answer then s\<lparr>wa_storage := forget_session member_app (wa_storage s), wa_leaving := True\<rparr> else s)"

text \<open>\<open>loadUser\<close>: until its request is sent, and from the answer on.\<close>

definition loadUser :: "json \<Rightarrow> web_auth \<Rightarrow> web_auth" where
  "loadUser J s =
     (case wa_storage s ''altar_tokens'' of
        None \<Rightarrow> s\<lparr>wa_isLoading := False\<rparr>
      | Some storedTokens \<Rightarrow>
          if storedTokens = [] then s\<lparr>wa_isLoading := False\<rparr>
          else (case json_parse J storedTokens of
              None \<Rightarrow> (clearAuth s)\<lparr>wa_isLoading := False\<rparr>
            | Some parsedTokens \<Rightarrow>
                let s1 = s\<lparr>wa_tokens := parsedTokens\<rparr>
                in if isl (request_bearer J member_app (wa_storage s1)) then (clearAuth s1)\<lparr>wa_isLoading := False\<rparr>
                   else s1\<lparr>wa_launching := True\<rparr>))"

definition loadUser_answered :: "web_answer \<Rightarrow> web_auth \<Rightarrow> web_auth" where
  "loadUser_answered answer s =
     (let s1 = (intercepted answer s)\<lparr>wa_launching := False\<rparr>
      in (case answer_value answer of
            Inr currentUser \<Rightarrow> s1\<lparr>wa_user := currentUser\<rparr>
          | Inl _ \<Rightarrow> clearAuth s1)\<lparr>wa_isLoading := False\<rparr>)"

text \<open>The page that is loaded: nothing in memory, the storage as it is.\<close>

definition web_loaded :: "json \<Rightarrow> local_storage \<Rightarrow> web_auth" where
  "web_loaded J st = loadUser J \<lparr>wa_storage = st, wa_user = JNull, wa_tokens = JNull, wa_isLoading = True,
     wa_launching = False, wa_signing = 0, wa_leaving = False\<rparr>"

text \<open>\<open>login\<close>, \<open>register\<close> and \<open>verifyOtp\<close> differ in the request only.\<close>

definition sign_in_called :: "json \<Rightarrow> web_auth \<Rightarrow> web_auth" where
  "sign_in_called J s =
     (if isl (request_bearer J member_app (wa_storage s)) then s else s\<lparr>wa_signing := wa_signing s + 1\<rparr>)"

definition sign_in_answered :: "json \<Rightarrow> web_answer \<Rightarrow> web_auth \<Rightarrow> web_auth" where
  "sign_in_answered J answer s =
     (let s1 = (intercepted answer s)\<lparr>wa_signing := wa_signing s - 1\<rparr>
      in case answer_value answer of
           Inr response \<Rightarrow>
             if nullish response then s1
             else persistAuth J (get response ''user'') (get response ''tokens'') s1
         | Inl _ \<Rightarrow> s1)"

datatype web_label =
    LaunchAnswered web_answer
  | SignInCalled
  | SignInAnswered web_answer
  | LogoutPressed
  | OtherAnswered web_answer
  | PageLoaded

fun web_next :: "json \<Rightarrow> web_label \<Rightarrow> web_auth \<Rightarrow> web_auth option" where
  "web_next J (LaunchAnswered answer) s = (if wa_launching s then Some (loadUser_answered answer s) else None)"
| "web_next J SignInCalled s = Some (sign_in_called J s)"
| "web_next J (SignInAnswered answer) s = (if 0 < wa_signing s then Some (sign_in_answered J answer s) else None)"
| "web_next J LogoutPressed s = Some (clearAuth s)"
| "web_next J (OtherAnswered answer) s = Some (intercepted answer s)"
| "web_next J PageLoaded s = Some (web_loaded J (wa_storage s))"

abbreviation web_run :: "json \<Rightarrow> web_auth \<Rightarrow> web_label list \<Rightarrow> web_auth \<Rightarrow> bool" where
  "web_run J \<equiv> step_run (web_next J)"

section \<open>The context of the platform console\<close>

record console_auth =
  ca_storage :: local_storage
  ca_user :: jsval
  ca_tokens :: jsval
  ca_signing :: nat
  ca_crashed :: bool

definition SUPER_ADMIN :: jsval where
  "SUPER_ADMIN = JStr (js ''SUPER_ADMIN'')"

text \<open>The effect of the launch; a stored text that is no JSON throws in the effect, and React removes the page.\<close>

definition console_loaded :: "json \<Rightarrow> local_storage \<Rightarrow> console_auth" where
  "console_loaded J st =
     (let s = \<lparr>ca_storage = st, ca_user = JNull, ca_tokens = JNull, ca_signing = 0, ca_crashed = False\<rparr>
      in case (st ''altar_admin_tokens'', st ''altar_admin_user'') of
           (Some storedTokens, Some storedUser) \<Rightarrow>
             if storedTokens = [] \<or> storedUser = [] then s
             else (case (json_parse J storedTokens, json_parse J storedUser) of
                 (Some tokens, Some user) \<Rightarrow> s\<lparr>ca_tokens := tokens, ca_user := user\<rparr>
               | _ \<Rightarrow> s\<lparr>ca_crashed := True\<rparr>)
         | _ \<Rightarrow> s)"

definition console_persistAuth :: "json \<Rightarrow> jsval \<Rightarrow> jsval \<Rightarrow> console_auth \<Rightarrow> console_auth" where
  "console_persistAuth J u t s =
     s\<lparr>ca_user := u, ca_tokens := t, ca_storage := (ca_storage s)
       (''altar_admin_tokens'' \<mapsto> stored_text J t, ''altar_admin_user'' \<mapsto> stored_text J u)\<rparr>"

definition console_logout :: "console_auth \<Rightarrow> console_auth" where
  "console_logout s = s\<lparr>ca_user := JNull, ca_tokens := JNull, ca_storage := forget_session console_app (ca_storage s)\<rparr>"

definition console_intercepted :: "web_answer \<Rightarrow> console_auth \<Rightarrow> console_auth" where
  "console_intercepted answer s =
     (if refused answer then s\<lparr>ca_storage := forget_session console_app (ca_storage s)\<rparr> else s)"

definition console_login_called :: "json \<Rightarrow> console_auth \<Rightarrow> console_auth" where
  "console_login_called J s =
     (if isl (request_bearer J console_app (ca_storage s)) then s else s\<lparr>ca_signing := ca_signing s + 1\<rparr>)"

text \<open>What \<open>login\<close> throws to the page, and what it changes.\<close>

definition console_login_outcome :: "web_answer \<Rightarrow> web_error + jsval \<times> jsval" where
  "console_login_outcome answer =
     (case answer_value answer of
        Inl e \<Rightarrow> Inl e
      | Inr response \<Rightarrow>
          if nullish response \<or> nullish (get response ''user'') then Inl WebTypeError
          else if get (get response ''user'') ''role'' \<noteq> SUPER_ADMIN
          then Inl (WebError (js ''Access denied. Super admin credentials required.''))
          else Inr (get response ''user'', get response ''tokens''))"

definition console_login_answered :: "json \<Rightarrow> web_answer \<Rightarrow> console_auth \<Rightarrow> console_auth" where
  "console_login_answered J answer s =
     (let s1 = (console_intercepted answer s)\<lparr>ca_signing := ca_signing s - 1\<rparr>
      in case console_login_outcome answer of
           Inl _ \<Rightarrow> s1
         | Inr (user, tokens) \<Rightarrow> console_persistAuth J user tokens s1)"

datatype console_label =
    ConsoleLoginCalled
  | ConsoleLoginAnswered web_answer
  | ConsoleLogout
  | ConsoleAnswered web_answer
  | ConsoleLoaded

fun console_next :: "json \<Rightarrow> console_label \<Rightarrow> console_auth \<Rightarrow> console_auth option" where
  "console_next J ConsoleLoginCalled s = (if ca_crashed s then None else Some (console_login_called J s))"
| "console_next J (ConsoleLoginAnswered answer) s =
     (if 0 < ca_signing s then Some (console_login_answered J answer s) else None)"
| "console_next J ConsoleLogout s = (if ca_crashed s then None else Some (console_logout s))"
| "console_next J (ConsoleAnswered answer) s = Some (console_intercepted answer s)"
| "console_next J ConsoleLoaded s = Some (console_loaded J (ca_storage s))"

abbreviation console_run :: "json \<Rightarrow> console_auth \<Rightarrow> console_label list \<Rightarrow> console_auth \<Rightarrow> bool" where
  "console_run J \<equiv> step_run (console_next J)"

section \<open>Lemmas\<close>

lemma unwrap_outcome:
  "unwrap status body = Inl e \<longleftrightarrow>
     has_own body ''success'' \<and> \<not> truthy (get body ''success'')
     \<and> e = ApiError (coalesce (get body ''message'') (JStr (js ''The request failed.''))) status"
  "unwrap status body = Inr v \<longleftrightarrow>
     (if has_own body ''success'' then truthy (get body ''success'') \<and> v = get body ''data'' else v = body)"
  by (auto simp: unwrap_def)

lemma refused_fails: "refused answer \<Longrightarrow> answer_value answer \<noteq> Inr v"
  by (auto simp: refused_def accepted_status_def)

lemma forget_session_apply [simp]:
  "forget_session member_app st ''altar_tokens'' = None" "forget_session member_app st ''altar_user'' = None"
  "forget_session console_app st ''altar_admin_tokens'' = None" "forget_session console_app st ''altar_admin_user'' = None"
  by (simp_all add: forget_session_def member_app_def console_app_def)

lemmas web_ops = loadUser_answered_def sign_in_called_def sign_in_answered_def persistAuth_def clearAuth_def
  intercepted_def web_loaded_def loadUser_def Let_def

text \<open>Nothing is stored, and it stays so until a sign-in succeeds.\<close>

definition signs_in :: "web_label \<Rightarrow> bool" where
  "signs_in l \<longleftrightarrow> (\<exists>a v. l = SignInAnswered a \<and> answer_value a = Inr v \<and> \<not> nullish v)"

lemma forgotten_next:
  assumes "web_next J l s = Some t" and "wa_storage s ''altar_tokens'' = None" and "\<not> signs_in l"
  shows "wa_storage t ''altar_tokens'' = None" and "\<not> truthy (wa_tokens s) \<or> l = PageLoaded \<Longrightarrow> \<not> truthy (wa_tokens t)"
  using assms by (cases l; auto simp: web_ops signs_in_def split: sum.splits if_splits)+

lemma forgotten_run:
  assumes "web_run J s ls t" and "wa_storage s ''altar_tokens'' = None" and "\<not> list_ex signs_in ls"
  shows "wa_storage t ''altar_tokens'' = None \<and> (\<not> truthy (wa_tokens s) \<or> PageLoaded \<in> set ls \<longrightarrow> \<not> truthy (wa_tokens t))"
  using assms
proof induction
  case (further ls t l u)
  then show ?case using forgotten_next [OF further.hyps(2)] by auto
qed simp

text \<open>The tokens shown are the stored ones.\<close>

definition shows_stored :: "json \<Rightarrow> web_auth \<Rightarrow> bool" where
  "shows_stored J s \<longleftrightarrow> wa_leaving s \<or> \<not> truthy (wa_tokens s)
     \<or> (\<exists>t. wa_storage s ''altar_tokens'' = Some t \<and> t \<noteq> [] \<and> json_parse J t = Some (wa_tokens s))"

definition flat_tokens :: "web_label \<Rightarrow> bool" where
  "flat_tokens l \<longleftrightarrow> (\<forall>a v. l = SignInAnswered a \<longrightarrow> answer_value a = Inr v \<longrightarrow> flat_fields (get v ''tokens'') \<noteq> None)"

lemma shows_stored_loaded: "shows_stored J (web_loaded J st)"
  by (auto simp: shows_stored_def web_ops split: option.split)

lemma shows_stored_next:
  assumes "web_next J l s = Some t" and inv: "shows_stored J s" and flat: "flat_tokens l"
  shows "shows_stored J t"
proof (cases l)
  case (SignInAnswered a)
  then have t: "t = sign_in_answered J a s" using assms(1) by (simp split: if_splits)
  show ?thesis
  proof (cases "signs_in l")
    case True
    then obtain v where v: "answer_value a = Inr v" "\<not> nullish v" by (auto simp: signs_in_def SignInAnswered)
    with flat obtain kvs where "flat_fields (get v ''tokens'') = Some kvs"
      by (auto simp: flat_tokens_def SignInAnswered)
    then show ?thesis
      using json_roundtrip [of "get v ''tokens''" kvs J] v
      by (auto simp: t shows_stored_def web_ops stored_text_def)
  next
    case False
    then show ?thesis
      using inv by (auto simp: t signs_in_def SignInAnswered shows_stored_def web_ops split: sum.splits)
  qed
qed (use assms(1) inv in \<open>auto simp: shows_stored_def web_ops split: if_splits sum.splits option.splits\<close>)

lemma shows_stored_run:
  assumes "web_run J (web_loaded J st) ls s" and "list_all flat_tokens ls"
  shows "shows_stored J s"
  using assms by induction (auto intro: shows_stored_loaded shows_stored_next)

text \<open>The role survives the storage: what \<open>JSON.parse\<close> reads of a stored super administrator is one.\<close>

definition keeps_role :: "json \<Rightarrow> bool" where
  "keeps_role J \<longleftrightarrow> (\<forall>v. get v ''role'' = SUPER_ADMIN \<longrightarrow>
     (\<exists>t w. json_stringify J v = Some t \<and> json_parse J t = Some w \<and> get w ''role'' = SUPER_ADMIN))"

definition admin_text :: "json \<Rightarrow> jsstring \<Rightarrow> bool" where
  "admin_text J t \<longleftrightarrow> (\<forall>w. json_parse J t = Some w \<longrightarrow> get w ''role'' = SUPER_ADMIN)"

definition console_inv :: "json \<Rightarrow> console_auth \<Rightarrow> bool" where
  "console_inv J s \<longleftrightarrow> (truthy (ca_user s) \<longrightarrow> get (ca_user s) ''role'' = SUPER_ADMIN)
     \<and> (\<forall>t. ca_storage s ''altar_admin_user'' = Some t \<longrightarrow> admin_text J t)"

lemma keeps_role_text:
  assumes "keeps_role J" and "get u ''role'' = SUPER_ADMIN"
  shows "admin_text J (stored_text J u)"
proof -
  obtain t w where "json_stringify J u = Some t" "json_parse J t = Some w" "get w ''role'' = SUPER_ADMIN"
    using assms unfolding keeps_role_def by blast
  then show ?thesis by (simp add: stored_text_def admin_text_def)
qed

lemma console_outcome: "console_login_outcome a = Inr (u, t) \<Longrightarrow> get u ''role'' = SUPER_ADMIN"
  by (auto simp: console_login_outcome_def split: sum.splits if_splits)

lemma console_inv_loaded: "(\<And>t. st ''altar_admin_user'' = Some t \<Longrightarrow> admin_text J t) \<Longrightarrow> console_inv J (console_loaded J st)"
  by (auto simp: console_inv_def console_loaded_def admin_text_def Let_def split: option.splits)

lemma console_inv_next:
  assumes "console_next J l s = Some t" and "console_inv J s" and "keeps_role J"
  shows "console_inv J t"
proof (cases l)
  case (ConsoleLoginAnswered a)
  then show ?thesis
    using assms keeps_role_text [OF assms(3)] console_outcome [of a]
    by (auto simp: console_inv_def console_login_answered_def console_intercepted_def console_persistAuth_def
        Let_def split: if_splits sum.splits)
next
  case ConsoleLoaded
  then show ?thesis
    using assms by (auto simp: console_inv_def intro!: console_inv_loaded [unfolded console_inv_def])
qed (use assms in \<open>auto simp: console_inv_def console_login_called_def console_logout_def console_intercepted_def
      split: if_splits\<close>)

lemma console_inv_run:
  assumes "console_run J s ls t" and "console_inv J s" and "keeps_role J"
  shows "console_inv J t"
  using assms by induction (auto intro: console_inv_next)

section \<open>Properties\<close>

text \<open>C28: a session that ended in the browser stays ended. After a logout, or after any request was answered
  with 401, no request of the page carries a token in whatever follows, reloads included, until a sign-in
  succeeds; after a logout, and after a refusal as soon as the page was loaded again, nobody is signed in.\<close>

theorem refused_session_is_forgotten:
  assumes "web_next J l s = Some t"
    and "l = LogoutPressed \<or> (\<exists>a. refused a \<and> l \<in> {LaunchAnswered a, SignInAnswered a, OtherAnswered a})"
    and "web_run J t ls u" and "\<not> list_ex signs_in ls"
  shows "request_bearer J member_app (wa_storage u) = Inr None
    \<and> (l = LogoutPressed \<or> PageLoaded \<in> set ls \<longrightarrow> \<not> isAuthenticated u)"
proof -
  have "wa_storage t ''altar_tokens'' = None \<and> (l = LogoutPressed \<longrightarrow> \<not> truthy (wa_tokens t))"
    using assms(1,2) by (auto simp: web_ops split: if_splits sum.splits dest: refused_fails)
  then show ?thesis
    using forgotten_run [OF assms(3) _ assms(4)]
    by (auto simp: request_bearer_def member_app_def isAuthenticated_def)
qed

text \<open>Requests carry the token of the session that is shown. In every order of launches, sign-ins,
  logouts, answers and reloads, while the page is not on its way to the login page, the tokens in memory
  are the ones stored, so the bearer of every request is their access token.\<close>

theorem requests_carry_shown_session:
  assumes "web_run J (web_loaded J st) ls s" and "list_all flat_tokens ls" and "\<not> wa_leaving s"
    and "truthy (get (wa_tokens s) ''accessToken'')"
  shows "request_bearer J member_app (wa_storage s) = Inr (Some (get (wa_tokens s) ''accessToken''))"
proof -
  have tokens: "truthy (wa_tokens s)" "\<not> nullish (wa_tokens s)"
    using assms(4) by (auto simp: get_def nullish_def split: jsval.splits)
  then show ?thesis
    using shows_stored_run [OF assms(1,2)] assms(3,4)
    by (auto simp: shows_stored_def request_bearer_def member_app_def)
qed

text \<open>C32: the console only ever knows super administrators. Whatever the gateway answers, a user who is shown
  has the role of a super administrator, and so has a user the console stored and reads back; a login of
  anybody else is refused and stores nothing.\<close>

theorem console_knows_only_super_admins:
  assumes "keeps_role J" and "console_run J (console_loaded J (\<lambda>_. None)) ls s"
  shows "(truthy (ca_user s) \<longrightarrow> get (ca_user s) ''role'' = SUPER_ADMIN)
    \<and> (\<forall>t w. ca_storage s ''altar_admin_user'' = Some t \<longrightarrow> json_parse J t = Some w \<longrightarrow> get w ''role'' = SUPER_ADMIN)"
proof -
  have "console_inv J s"
    by (rule console_inv_run [OF assms(2) console_inv_loaded assms(1)]) simp
  then show ?thesis by (auto simp: console_inv_def admin_text_def)
qed

text \<open>An envelope that reports a failure is always an error that carries the message and the status.\<close>

lemma failed_envelope_is_an_error:
  assumes "accepted_status status"
  shows "answer_value (Responded status body) =
    (if has_own body ''success'' \<and> \<not> truthy (get body ''success'')
     then Inl (ApiError (coalesce (get body ''message'') (JStr (js ''The request failed.''))) status)
     else Inr (if has_own body ''success'' then get body ''data'' else body))"
  using assms by (simp add: unwrap_def)

section \<open>Witnesses and deviations\<close>

definition plain_json :: json where
  "plain_json = \<lparr>otherStringify = \<lambda>_. Some (js ''#''), otherParse = \<lambda>t. if t = js ''#'' then Some (JObj [(''role'', SUPER_ADMIN)]) else None\<rparr>"

definition grace_tokens :: jsval where
  "grace_tokens = JObj [(''accessToken'', JStr (js ''a1'')), (''refreshToken'', JStr (js ''r1''))]"

definition signed_in_answer :: "jsstring \<Rightarrow> jsval \<Rightarrow> web_answer" where
  "signed_in_answer name tokens = Responded 200 (JObj [(''success'', JBool True),
     (''data'', JObj [(''user'', JObj [(''name'', JStr name), (''role'', SUPER_ADMIN)]), (''tokens'', tokens)])])"

definition no_storage :: local_storage where
  "no_storage = (\<lambda>_. None)"

definition after_sign_in :: web_auth where
  "after_sign_in = sign_in_answered plain_json (signed_in_answer (js ''Grace'') grace_tokens)
     (sign_in_called plain_json (web_loaded plain_json no_storage))"

lemma sign_in_run: "web_run plain_json (web_loaded plain_json no_storage)
    [SignInCalled, SignInAnswered (signed_in_answer (js ''Grace'') grace_tokens)] after_sign_in"
  by (simp add: step_run_iff after_sign_in_def) (simp add: web_ops no_storage_def request_bearer_def member_app_def)

theorem refused_session_is_forgotten_witness:
  "request_bearer plain_json member_app (wa_storage (clearAuth after_sign_in)) = Inr None
   \<and> \<not> isAuthenticated (clearAuth after_sign_in) \<and> isAuthenticated after_sign_in"
proof -
  have "isAuthenticated after_sign_in"
    by (simp add: after_sign_in_def web_ops isAuthenticated_def signed_in_answer_def grace_tokens_def
        accepted_status_def unwrap_def get_def has_own_def nullish_def)
  then show ?thesis
    using refused_session_is_forgotten [of plain_json LogoutPressed after_sign_in, OF _ _ step_run.here] by simp
qed

theorem requests_carry_shown_session_witness:
  "request_bearer plain_json member_app (wa_storage after_sign_in) = Inr (Some (JStr (js ''a1'')))"
proof -
  have "wa_tokens after_sign_in = grace_tokens" "\<not> wa_leaving after_sign_in"
    by (simp_all add: after_sign_in_def web_ops signed_in_answer_def grace_tokens_def no_storage_def
        accepted_status_def unwrap_def get_def has_own_def nullish_def refused_def request_bearer_def member_app_def)
  moreover have "list_all flat_tokens [SignInCalled, SignInAnswered (signed_in_answer (js ''Grace'') grace_tokens)]"
    by (auto simp: flat_tokens_def signed_in_answer_def grace_tokens_def accepted_status_def unwrap_def get_def has_own_def)
  ultimately show ?thesis
    using requests_carry_shown_session [OF sign_in_run] by (simp add: grace_tokens_def get_def js_def)
qed

lemma plain_json_keeps_role: "keeps_role plain_json"
  unfolding keeps_role_def
proof (intro allI impI)
  fix v assume role: "get v ''role'' = SUPER_ADMIN"
  show "\<exists>t w. json_stringify plain_json v = Some t \<and> json_parse plain_json t = Some w \<and> get w ''role'' = SUPER_ADMIN"
  proof (cases "flat_fields v")
    case (Some kvs)
    then show ?thesis using json_roundtrip [OF Some, of plain_json] role by blast
  next
    case None
    have "json_parse plain_json (js ''#'') = Some (JObj [(''role'', SUPER_ADMIN)])"
      by code_simp
    then show ?thesis using None by (auto simp: json_stringify_def plain_json_def get_def)
  qed
qed

definition after_console_login :: console_auth where
  "after_console_login = console_login_answered plain_json (signed_in_answer (js ''Root'') grace_tokens)
     (console_login_called plain_json (console_loaded plain_json no_storage))"

theorem console_knows_only_super_admins_witness:
  "truthy (ca_user after_console_login) \<and> get (ca_user after_console_login) ''role'' = SUPER_ADMIN"
proof -
  have start: "console_login_called plain_json (console_loaded plain_json no_storage)
      = (console_loaded plain_json no_storage)\<lparr>ca_signing := 1\<rparr>"
    by (simp add: console_login_called_def console_loaded_def no_storage_def request_bearer_def console_app_def Let_def)
  then have "console_run plain_json (console_loaded plain_json (\<lambda>_. None))
      [ConsoleLoginCalled, ConsoleLoginAnswered (signed_in_answer (js ''Root'') grace_tokens)] after_console_login"
    by (simp add: step_run_iff after_console_login_def no_storage_def) (simp add: console_loaded_def Let_def)
  moreover have "truthy (ca_user after_console_login)"
    unfolding after_console_login_def start
    by (simp add: console_login_answered_def console_login_outcome_def console_persistAuth_def console_intercepted_def
        signed_in_answer_def accepted_status_def unwrap_def get_def has_own_def nullish_def refused_def Let_def)
  ultimately show ?thesis
    using console_knows_only_super_admins [OF plain_json_keeps_role] by blast
qed

text \<open>Any failure of the launch ends the session: a page opened without a network forgets the tokens, which
  are still valid.\<close>

lemma offline_launch_forgets_session:
  "loadUser_answered NoResponse s = t \<Longrightarrow> wa_storage t ''altar_tokens'' = None \<and> wa_tokens t = JNull"
  by (auto simp: web_ops)

text \<open>The answer of the launch is not compared with the session it belongs to: a sign-in that succeeds while
  it is awaited is shown as the user of the tokens before.\<close>

lemma launch_answer_replaces_newer_user:
  assumes "web_loaded J st = s" and "wa_launching s" and "answer_value a = Inr v" and "\<not> nullish v"
    and "answer_value b = Inr w"
  shows "run_steps (web_next J) [SignInCalled, SignInAnswered a, LaunchAnswered b] s \<noteq> None \<Longrightarrow>
    (\<exists>u. run_steps (web_next J) [SignInCalled, SignInAnswered a, LaunchAnswered b] s = Some u
      \<and> wa_user u = w \<and> wa_tokens u = get v ''tokens'')"
  using assms by (auto simp: web_ops dest: refused_fails split: if_splits option.splits sum.splits)

end
