(* ===== verification/WebOtp.thy ===== *)
theory WebOtp
  imports BrowserClient
begin

text \<open>
  The page of the member site where the one-time code is entered (\<open>pages/OtpPage.tsx\<close>): six boxes that are
  typed into, pasted into and corrected, and the request they end in.
\<close>

section \<open>The page\<close>

definition OTP_LENGTH :: nat where
  "OTP_LENGTH = 6"

record otp_page =
  oe_phone :: "jsstring option"
  oe_email :: "jsstring option"
  oe_otp :: "jsstring list"
  oe_isLoading :: bool
  oe_error :: "jsstring option"
  oe_resendTimer :: nat
  oe_resending :: nat

definition otp_opened :: "jsstring option \<Rightarrow> jsstring option \<Rightarrow> otp_page" where
  "otp_opened phone email = \<lparr>oe_phone = phone, oe_email = email, oe_otp = replicate OTP_LENGTH [],
     oe_isLoading = False, oe_error = None, oe_resendTimer = 60, oe_resending = 0\<rparr>"

definition otp_contact :: "otp_page \<Rightarrow> jsstring" where
  "otp_contact p =
     (if oe_phone p \<notin> {None, Some []} then the (oe_phone p)
      else if oe_email p \<notin> {None, Some []} then the (oe_email p) else [])"

text \<open>\<open>digits.forEach((d, i) => { if (index + i < OTP_LENGTH) newOtp[index + i] = d; })\<close>\<close>

fun put_digits :: "nat \<Rightarrow> jsstring \<Rightarrow> jsstring list \<Rightarrow> jsstring list" where
  "put_digits i [] boxes = boxes"
| "put_digits i (d # ds) boxes = put_digits (i + 1) ds (if i < OTP_LENGTH then boxes[i := [d]] else boxes)"

definition handleOtpChange :: "jsstring \<Rightarrow> nat \<Rightarrow> jsstring list \<Rightarrow> jsstring list" where
  "handleOtpChange value index otp =
     (if 1 < length value then put_digits index (take OTP_LENGTH (filter is_digit value)) otp
      else if value \<noteq> [] \<and> \<not> list_all is_digit value then otp
      else otp[index := value])"

definition handleKeyDown :: "bool \<Rightarrow> nat \<Rightarrow> jsstring list \<Rightarrow> jsstring list" where
  "handleKeyDown backspace index otp =
     (if backspace \<and> otp ! index = [] \<and> 0 < index then otp[index - 1 := []] else otp)"

definition handlePaste :: "jsstring \<Rightarrow> jsstring list \<Rightarrow> jsstring list" where
  "handlePaste text otp =
     (let pasted = filter is_digit text
      in if pasted = [] then otp else put_digits 0 (take OTP_LENGTH pasted) otp)"

definition isComplete :: "jsstring list \<Rightarrow> bool" where
  "isComplete otp \<longleftrightarrow> list_all (\<lambda>d. d \<noteq> []) otp"

text \<open>\<open>handleVerify\<close>: the request, or the error that is shown.\<close>

definition verify_request :: "otp_page \<Rightarrow> jsstring + web_call" where
  "verify_request p =
     (let code = concat (oe_otp p)
      in if length code \<noteq> OTP_LENGTH then Inl (js ''Please enter the full 6-digit code.'')
         else Inr (web_verifyOtp \<lparr>op_phone = None, op_email = Some (otp_contact p), op_otp = code\<rparr>))"

definition handleVerify :: "otp_page \<Rightarrow> otp_page" where
  "handleVerify p =
     (case verify_request p of
        Inl m \<Rightarrow> p\<lparr>oe_error := Some m\<rparr>
      | Inr _ \<Rightarrow> p\<lparr>oe_isLoading := True, oe_error := None\<rparr>)"

text \<open>The answer: \<open>None\<close> leaves the page, \<open>Some m\<close> is the message shown; \<open>m\<close> is the error's own message when it
  is an \<open>Error\<close>.\<close>

definition verified :: "jsstring option option \<Rightarrow> otp_page \<Rightarrow> otp_page" where
  "verified failure p =
     (case failure of
        None \<Rightarrow> p\<lparr>oe_isLoading := False\<rparr>
      | Some m \<Rightarrow> p\<lparr>oe_isLoading := False,
          oe_error := Some (case m of Some t \<Rightarrow> t | None \<Rightarrow> js ''Verification failed. Please try again.'')\<rparr>)"

definition resend_request :: "otp_page \<Rightarrow> web_call option" where
  "resend_request p = (if oe_phone p \<in> {None, Some []} then None else Some (web_requestOtp (the (oe_phone p))))"

text \<open>\<open>handleResend\<close>: until the request is sent, and its answer; without a phone nothing is sent and the
  countdown starts again.\<close>

definition handleResend :: "otp_page \<Rightarrow> otp_page" where
  "handleResend p =
     (let p1 = p\<lparr>oe_error := None\<rparr>
      in if resend_request p = None then p1\<lparr>oe_resendTimer := 60\<rparr> else p1\<lparr>oe_resending := oe_resending p + 1\<rparr>)"

definition resent :: "bool \<Rightarrow> otp_page \<Rightarrow> otp_page" where
  "resent ok p =
     (let p1 = p\<lparr>oe_resending := oe_resending p - 1\<rparr>
      in if ok then p1\<lparr>oe_resendTimer := 60\<rparr>
         else p1\<lparr>oe_error := Some (js ''Failed to resend code. Please try again.'')\<rparr>)"

datatype otp_label =
    Typed jsstring nat
  | KeyDown bool nat
  | Pasted jsstring
  | VerifyPressed
  | VerifyAnswered "jsstring option option"
  | ResendPressed
  | Resent bool
  | SecondPassed

text \<open>The button to verify is disabled until every box is filled and while a request is awaited, the one to
  resend is shown when the countdown is over.\<close>

definition verify_disabled :: "otp_page \<Rightarrow> bool" where
  "verify_disabled p \<longleftrightarrow> \<not> isComplete (oe_otp p) \<or> oe_isLoading p"

fun otp_next :: "otp_label \<Rightarrow> otp_page \<Rightarrow> otp_page option" where
  "otp_next (Typed v i) p = (if i < OTP_LENGTH then Some (p\<lparr>oe_otp := handleOtpChange v i (oe_otp p)\<rparr>) else None)"
| "otp_next (KeyDown b i) p = (if i < OTP_LENGTH then Some (p\<lparr>oe_otp := handleKeyDown b i (oe_otp p)\<rparr>) else None)"
| "otp_next (Pasted t) p = Some (p\<lparr>oe_otp := handlePaste t (oe_otp p)\<rparr>)"
| "otp_next VerifyPressed p = (if \<not> verify_disabled p then Some (handleVerify p) else None)"
| "otp_next (VerifyAnswered m) p = (if oe_isLoading p then Some (verified m p) else None)"
| "otp_next ResendPressed p = (if oe_resendTimer p = 0 then Some (handleResend p) else None)"
| "otp_next (Resent ok) p = (if 0 < oe_resending p then Some (resent ok p) else None)"
| "otp_next SecondPassed p =
     (if 0 < oe_resendTimer p then Some (p\<lparr>oe_resendTimer := oe_resendTimer p - 1\<rparr>) else None)"

section \<open>Lemmas\<close>

definition boxes_ok :: "jsstring list \<Rightarrow> bool" where
  "boxes_ok boxes \<longleftrightarrow> length boxes = OTP_LENGTH \<and> (\<forall>b\<in>set boxes. b = [] \<or> (\<exists>d. b = [d] \<and> is_digit d))"

lemma boxes_ok_update:
  "boxes_ok boxes \<Longrightarrow> b = [] \<or> (\<exists>d. b = [d] \<and> is_digit d) \<Longrightarrow> boxes_ok (boxes[i := b])"
  using set_update_subset_insert [of boxes i b] by (auto simp: boxes_ok_def)

lemma boxes_ok_put: "boxes_ok boxes \<Longrightarrow> list_all is_digit ds \<Longrightarrow> boxes_ok (put_digits i ds boxes)"
  by (induction i ds boxes rule: put_digits.induct) (simp_all add: boxes_ok_update)

lemma digits_taken: "list_all is_digit (take n (filter is_digit v))"
  by (auto simp: list_all_iff dest: in_set_takeD)

lemma boxes_ok_next:
  assumes "otp_next l p = Some q" and "boxes_ok (oe_otp p)"
  shows "boxes_ok (oe_otp q)"
proof (cases l)
  case (Typed v i)
  have "v = [] \<or> (\<exists>d. v = [d] \<and> is_digit d)" if "\<not> 1 < length v" "v = [] \<or> list_all is_digit v"
    using that by (cases v) auto
  then show ?thesis
    using assms by (auto simp: Typed handleOtpChange_def intro!: boxes_ok_update boxes_ok_put digits_taken split: if_splits)
qed (use assms in \<open>auto simp: handleKeyDown_def handlePaste_def handleVerify_def verified_def handleResend_def resent_def Let_def
      intro!: boxes_ok_update boxes_ok_put digits_taken split: if_splits sum.splits option.splits\<close>)

interpretation otp_boxes: step_invariant otp_next "\<lambda>p. boxes_ok (oe_otp p)"
  by unfold_locales (rule boxes_ok_next)

lemma code_length:
  "(\<And>b. b \<in> set boxes \<Longrightarrow> b = [] \<or> (\<exists>d. b = [d] \<and> is_digit d)) \<Longrightarrow>
    list_all is_digit (concat boxes) \<and> length (concat boxes) \<le> length boxes
    \<and> (length (concat boxes) = length boxes \<longleftrightarrow> isComplete boxes)"
proof (induction boxes)
  case (Cons b boxes)
  have ih: "list_all is_digit (concat boxes) \<and> length (concat boxes) \<le> length boxes
      \<and> (length (concat boxes) = length boxes \<longleftrightarrow> isComplete boxes)"
    by (rule Cons.IH) (simp add: Cons.prems)
  consider "b = []" | d where "b = [d]" "is_digit d" using Cons.prems [of b] by auto
  then show ?case
    using ih by cases (simp_all add: isComplete_def)
qed (simp add: isComplete_def)

section \<open>Properties\<close>

text \<open>C34: the code that is sent is six digits, however it was entered. In every run of typing, correcting and
  pasting, each of the six boxes holds one digit or nothing; the button is enabled exactly when no request is awaited
  and the boxes hold six digits; pressing it then sends them to the contact of the page and never shows the error for a
  short code; and pasting a text is the same as entering its first six digits into the boxes one after the other from
  the first box on, whatever the boxes hold.\<close>

theorem entered_code_is_six_digits:
  assumes "step_run otp_next (otp_opened phone email) ls p"
  shows "length (oe_otp p) = OTP_LENGTH \<and> (\<forall>b\<in>set (oe_otp p). b = [] \<or> (\<exists>d. b = [d] \<and> is_digit d))
    \<and> (\<not> verify_disabled p \<longleftrightarrow> \<not> oe_isLoading p \<and> length (concat (oe_otp p)) = 6)
    \<and> (\<not> verify_disabled p \<longrightarrow> list_all is_digit (concat (oe_otp p)) \<and> verify_request p
        = Inr (web_verifyOtp \<lparr>op_phone = None, op_email = Some (otp_contact p), op_otp = concat (oe_otp p)\<rparr>))
    \<and> handlePaste t (oe_otp p)
        = fold (\<lambda>(i, d). handleOtpChange [d] i) (List.enumerate 0 (take OTP_LENGTH (filter is_digit t))) (oe_otp p)"
proof -
  have "boxes_ok (oe_otp (otp_opened phone email))"
    by (simp add: otp_opened_def boxes_ok_def OTP_LENGTH_def)
  with assms have ok: "boxes_ok (oe_otp p)"
    by (rule otp_boxes.run_kept)
  have typed: "fold (\<lambda>(i, d). handleOtpChange [d] i) (List.enumerate i ds) boxes = put_digits i ds boxes"
    if "list_all is_digit ds" "i + length ds \<le> OTP_LENGTH" for i ds boxes
    using that by (induction i ds boxes rule: put_digits.induct) (auto simp: handleOtpChange_def)
  have "handlePaste t boxes = fold (\<lambda>(i, d). handleOtpChange [d] i)
      (List.enumerate 0 (take OTP_LENGTH (filter is_digit t))) boxes" for boxes
    using typed [OF digits_taken, of 0 OTP_LENGTH t boxes] by (simp add: handlePaste_def Let_def)
  then show ?thesis
    using ok code_length [of "oe_otp p"]
    by (auto simp: boxes_ok_def verify_disabled_def verify_request_def OTP_LENGTH_def Let_def)
qed

section \<open>Witnesses and deviations\<close>

definition pasted_page :: otp_page where
  "pasted_page = (otp_opened (Some (js ''+233200000001'')) None)\<lparr>oe_otp := map (\<lambda>d. [d]) (js ''123456'')\<rparr>"

lemma pasted_run: "step_run otp_next (otp_opened (Some (js ''+233200000001'')) None) [Pasted (js ''Your code: 123456'')] pasted_page"
  unfolding step_run_iff by code_simp

theorem entered_code_is_six_digits_witness:
  "\<not> verify_disabled pasted_page
   \<and> verify_request pasted_page = Inr (web_verifyOtp \<lparr>op_phone = None,
       op_email = Some (otp_contact pasted_page), op_otp = js ''123456''\<rparr>)"
proof -
  have "\<not> verify_disabled pasted_page" "concat (oe_otp pasted_page) = js ''123456''"
    by (simp_all add: pasted_page_def verify_disabled_def otp_opened_def isComplete_def js_def)
  then show ?thesis
    using entered_code_is_six_digits [OF pasted_run] by metis
qed

text \<open>The code was sent to a phone, and the request names the phone as an email address and no phone: the
  gateway, which looks the code up by the phone, finds none.\<close>

lemma phone_is_sent_as_email:
  assumes "isComplete otp" and "boxes_ok otp" and "p = (otp_opened (Some phone) None)\<lparr>oe_otp := otp\<rparr>" and "phone \<noteq> []"
  shows "\<exists>c. verify_request p = Inr c \<and> get (wc_data c) ''email'' = JStr phone \<and> get (wc_data c) ''phone'' = JUndef"
  using assms code_length [of otp]
  by (auto simp: verify_request_def otp_contact_def otp_opened_def boxes_ok_def web_verifyOtp_def web_post_def get_def opt_val_def Let_def)

end
