(* ===== verification/DashboardNav.thy ===== *)
theory DashboardNav
  imports Permissions BrowserClient
begin

text \<open>
  The navigation of the dashboard: the one list of pages (\<open>navigation.tsx\<close>), the sidebar, the guard of the
  routes, the layout that requires a session, and the small decisions of the services (appeals, plan, lists).
  It composes the navigation filter and the guards of the permissions package.
\<close>

section \<open>The list of pages\<close>

text \<open>A label, the entry, and whether the sidebar lists it.\<close>

type_synonym dashboard_item = "jsstring \<times> nav_item \<times> bool"

definition NAV_ITEMS :: "dashboard_item list" where
  "NAV_ITEMS =
    [(js ''Dashboard'', \<lparr>nav_requires = None, nav_path = js ''/dashboard''\<rparr>, True),
     (js ''Members'', \<lparr>nav_requires = Some [js ''member:read''], nav_path = js ''/members''\<rparr>, True),
     (js ''Finance'', \<lparr>nav_requires = Some [js ''finance:read''], nav_path = js ''/finance''\<rparr>, True),
     (js ''Appeals'', \<lparr>nav_requires = Some [js ''finance:read''], nav_path = js ''/campaigns''\<rparr>, True),
     (js ''Live'', \<lparr>nav_requires = Some [js ''event:read''], nav_path = js ''/live''\<rparr>, True),
     (js ''Events'', \<lparr>nav_requires = Some [js ''event:read''], nav_path = js ''/events''\<rparr>, True),
     (js ''Communications'', \<lparr>nav_requires = Some [js ''communication:read''], nav_path = js ''/communications''\<rparr>, True),
     (js ''Analytics'', \<lparr>nav_requires = Some [js ''report:read''], nav_path = js ''/analytics''\<rparr>, True),
     (js ''Departments'', \<lparr>nav_requires = Some [js ''church:read''], nav_path = js ''/departments''\<rparr>, True),
     (js ''Families'', \<lparr>nav_requires = Some [js ''member:read''], nav_path = js ''/families''\<rparr>, True),
     (js ''AI Assistant'', \<lparr>nav_requires = Some [js ''member:read''], nav_path = js ''/ai''\<rparr>, True),
     (js ''Inter-church'', \<lparr>nav_requires = Some [js ''church:read''], nav_path = js ''/inter-church''\<rparr>, True),
     (js ''People & Roles'', \<lparr>nav_requires = Some [js ''user:read''], nav_path = js ''/people''\<rparr>, True),
     (js ''Plan'', \<lparr>nav_requires = Some [js ''settings:read''], nav_path = js ''/plan''\<rparr>, True),
     (js ''Settings'', \<lparr>nav_requires = Some [js ''settings:read''], nav_path = js ''/settings''\<rparr>, True)]"

definition SIDEBAR_ITEMS :: "nav_item list" where
  "SIDEBAR_ITEMS = map (\<lambda>(label, item, inSidebar). item) (filter (\<lambda>(label, item, inSidebar). inSidebar) NAV_ITEMS)"

definition requirementFor :: "jsstring \<Rightarrow> jsstring list option" where
  "requirementFor path =
     (case find (\<lambda>(label, item, inSidebar). nav_path item = path) NAV_ITEMS of
        Some (label, item, inSidebar) \<Rightarrow> nav_requires item
      | None \<Rightarrow> None)"

text \<open>The paths of the routes of \<open>App.tsx\<close> that are wrapped in \<open>Guarded\<close>.\<close>

definition guarded_routes :: "jsstring list" where
  "guarded_routes = map js
    [''/dashboard'', ''/members'', ''/finance'', ''/campaigns'', ''/live'', ''/plan'', ''/events'', ''/communications'', ''/analytics'', ''/departments'', ''/families'', ''/ai'', ''/inter-church'', ''/people'', ''/settings'']"

section \<open>Guard, sidebar and layout\<close>

definition Guarded :: "permissions_value \<Rightarrow> jsstring \<Rightarrow> rendering" where
  "Guarded v path =
     (case requirementFor path of
        None \<Rightarrow> ShowChildren
      | Some requires \<Rightarrow> if requires = [] then ShowChildren else guard_renders v requires)"

definition sections :: "(string \<times> jsstring list) list" where
  "sections =
    [(''Church pulse'', map js [''/dashboard'', ''/analytics'']),
     (''People & care'', map js [''/members'', ''/families'', ''/departments'', ''/people'']),
     (''Ministry work'', map js [''/events'', ''/live'', ''/communications'', ''/ai'', ''/inter-church'']),
     (''Stewardship'', map js [''/finance'', ''/campaigns'']),
     (''Workspace'', map js [''/settings'', ''/plan''])]"

definition ungroupedPaths :: "nav_item list \<Rightarrow> jsstring list" where
  "ungroupedPaths items =
     (let grouped = concat (map snd sections)
      in map nav_path (filter (\<lambda>item. nav_path item \<notin> set grouped) items))"

text \<open>The groups the sidebar shows once the permissions are loaded; empty groups are left out.\<close>

definition section_items :: "nav_item list \<Rightarrow> jsstring list \<Rightarrow> nav_item list" where
  "section_items items paths = List.map_filter (\<lambda>path. find (\<lambda>item. nav_path item = path) items) paths"

definition sidebar_groups :: "PermissionSet \<Rightarrow> (string \<times> nav_item list) list" where
  "sidebar_groups permissions =
     (let items = visibleNav SIDEBAR_ITEMS permissions
      in filter (\<lambda>(label, group). group \<noteq> [])
           (map (\<lambda>(label, paths). (label, section_items items paths)) (sections @ [(''More'', ungroupedPaths items)])))"

definition sidebar_paths :: "PermissionSet \<Rightarrow> jsstring list" where
  "sidebar_paths permissions = map nav_path (concat (map snd (sidebar_groups permissions)))"

text \<open>The buttons below the groups.\<close>

definition footer_links :: "bool \<Rightarrow> jsstring list" where
  "footer_links collapsed = (if collapsed then [] else [js ''/ai'', js ''/settings''])"

text \<open>Every entry of the sidebar that leads to a page: the groups, drawn once the permissions are known, and the
  buttons below them.\<close>

definition sidebar_links :: "bool \<Rightarrow> permissions_value \<Rightarrow> jsstring list" where
  "sidebar_links collapsed v =
     (if pv_isLoading v then [] else sidebar_paths (pv_permissions v)) @ footer_links collapsed"

datatype layout = LayoutLoading | ToLogin | LayoutShown

definition MainLayout :: "web_auth \<Rightarrow> layout" where
  "MainLayout s = (if wa_isLoading s then LayoutLoading else if \<not> isAuthenticated s then ToLogin else LayoutShown)"

definition fetchMyPermissions :: "web_answer \<Rightarrow> web_error + jsval" where
  "fetchMyPermissions answer =
     (case answer_value answer of
        Inl e \<Rightarrow> Inl e
      | Inr result \<Rightarrow> if nullish result then Inl WebTypeError else Inr (coalesce (get result ''permissions'') (JArr [])))"

section \<open>Decisions of the services\<close>

text \<open>Lists: the payload when it is an array, otherwise nothing (\<open>member\<close>, \<open>finance\<close>); the named field of the
  payload (\<open>campaign\<close>, \<open>live\<close>, \<open>plan\<close>).\<close>

definition array_or_empty :: "jsval \<Rightarrow> jsval list" where
  "array_or_empty v = (case v of JArr vs \<Rightarrow> vs | _ \<Rightarrow> [])"

definition listed :: "web_answer \<Rightarrow> web_error + jsval list" where
  "listed answer = (case answer_value answer of Inl e \<Rightarrow> Inl e | Inr v \<Rightarrow> Inr (array_or_empty v))"

definition listed_field :: "string \<Rightarrow> web_answer \<Rightarrow> web_error + jsval list" where
  "listed_field k answer =
     (case answer_value answer of Inl e \<Rightarrow> Inl e | Inr v \<Rightarrow> Inr (array_or_empty (get v k)))"

datatype visibility = Draft | MembersOnly | Public

fun visibilityLabel :: "visibility \<Rightarrow> jsstring" where
  "visibilityLabel Public = js ''Public''"
| "visibilityLabel MembersOnly = js ''Members only''"
| "visibilityLabel Draft = js ''Draft''"

fun visibilityMeaning :: "visibility \<Rightarrow> jsstring" where
  "visibilityMeaning Public = js ''Anyone who visits your church website can see this appeal.''"
| "visibilityMeaning MembersOnly = js ''Members see this in the app. It is not on your public website.''"
| "visibilityMeaning Draft = js ''Only your staff can see this. Nobody has been shown it.''"

fun visibility_text :: "visibility \<Rightarrow> jsstring" where
  "visibility_text Public = js ''public''"
| "visibility_text MembersOnly = js ''members''"
| "visibility_text Draft = js ''draft''"

definition publish_body :: "visibility \<Rightarrow> bool \<Rightarrow> bool \<Rightarrow> jsval" where
  "publish_body v listedInDirectory showProgress =
     JObj [(''visibility'', JStr (visibility_text v)), (''listedInDirectory'', JBool listedInDirectory),
       (''showProgress'', JBool showProgress)]"

definition publish :: "jsstring \<Rightarrow> jsval \<Rightarrow> web_call" where
  "publish i payload = \<lparr>wc_method = WPost, wc_url = js ''/finance/campaigns/'' @ i @ js ''/publish'', wc_data = payload\<rparr>"

definition unpublish :: "jsstring \<Rightarrow> web_call" where
  "unpublish i = publish i (publish_body Draft False False)"

record TierDetails =
  td_monthlyMinor :: int
  td_streaming :: bool
  td_maxConcurrentViewers :: int
  td_commissionBasisPoints :: int

record PlanState =
  pl_entitlement :: TierDetails
  pl_tierGrants :: TierDetails

definition isWithdrawn :: "PlanState \<Rightarrow> bool" where
  "isWithdrawn s \<longleftrightarrow> td_streaming (pl_entitlement s) \<noteq> td_streaming (pl_tierGrants s)
     \<or> td_maxConcurrentViewers (pl_entitlement s) \<noteq> td_maxConcurrentViewers (pl_tierGrants s)"

section \<open>Lemmas\<close>

lemma find_path_Some: "find (\<lambda>item. nav_path item = path) items = Some i \<Longrightarrow> i \<in> set items \<and> nav_path i = path"
  by (induction items) (auto split: if_splits)

lemma section_paths:
  "map nav_path (section_items items paths) = filter (\<lambda>path. path \<in> nav_path ` set items) paths"
proof (induction paths)
  case (Cons path paths)
  show ?case
  proof (cases "find (\<lambda>item. nav_path item = path) items")
    case None
    then have "path \<notin> nav_path ` set items" by (auto simp: find_None_iff)
    with None Cons show ?thesis by (simp add: section_items_def map_filter_simps)
  next
    case (Some i)
    with find_path_Some [OF Some] Cons show ?thesis by (auto simp: section_items_def map_filter_simps)
  qed
qed (simp add: section_items_def map_filter_simps)

lemma concat_nonempty: "concat (map snd (filter (\<lambda>(label, group). group \<noteq> []) gs)) = concat (map snd gs)"
  by (induction gs) auto

lemma sidebar_paths_eq:
  "sidebar_paths permissions =
     (let items = visibleNav SIDEBAR_ITEMS permissions
      in filter (\<lambda>path. path \<in> nav_path ` set items) (concat (map snd sections)) @ ungroupedPaths items)"
proof -
  let ?items = "visibleNav SIDEBAR_ITEMS permissions"
  have groups: "map nav_path (concat (map snd (map (\<lambda>(label, paths). (label, section_items ?items paths)) gs)))
      = filter (\<lambda>path. path \<in> nav_path ` set ?items) (concat (map snd gs))" for gs
    by (induction gs) (auto simp: section_paths)
  have "filter (\<lambda>path. path \<in> nav_path ` set ?items) (ungroupedPaths ?items) = ungroupedPaths ?items"
    by (auto simp: ungroupedPaths_def filter_id_conv Let_def)
  then show ?thesis
    unfolding sidebar_paths_def sidebar_groups_def Let_def concat_nonempty groups by simp
qed

lemma sidebar_items:
  "SIDEBAR_ITEMS = map (\<lambda>(label, item, inSidebar). item) NAV_ITEMS" "distinct (map nav_path SIDEBAR_ITEMS)"
  "distinct (concat (map snd sections))" "map nav_path SIDEBAR_ITEMS = map nav_path (map (fst \<circ> snd) NAV_ITEMS)"
  "set guarded_routes = set (map nav_path SIDEBAR_ITEMS)"
  by code_simp+

lemma visible_distinct: "distinct (map nav_path (visibleNav SIDEBAR_ITEMS permissions))"
  using sidebar_items(2) by (simp add: visibleNav_def distinct_map_filter)

lemma sidebar_paths_set:
  "set (sidebar_paths permissions) = nav_path ` set (visibleNav SIDEBAR_ITEMS permissions)"
  "distinct (sidebar_paths permissions)"
  using visible_distinct sidebar_items(3)
  by (auto simp: sidebar_paths_eq ungroupedPaths_def Let_def distinct_map_filter)

lemma requirement_found:
  assumes "item \<in> set SIDEBAR_ITEMS"
  shows "requirementFor (nav_path item) = nav_requires item"
proof -
  have "list_all (\<lambda>item. requirementFor (nav_path item) = nav_requires item) SIDEBAR_ITEMS"
    by code_simp
  with assms show ?thesis by (simp add: list_all_iff)
qed

section \<open>Properties\<close>

text \<open>C27: the sidebar and the routes agree. For every guarded route of the dashboard, whatever the permissions are: while
  they are loading the sidebar leads to the pages of the buttons at its foot only; once they are known it leads to the
  route exactly when the guard renders the page or one of these buttons leads there (they are there whatever the
  permissions are: lemma \<open>footer_links_ignore_permissions\<close>), so no hidden entry of a group has an open route and no
  open page is missing; and the groups list no path twice, whether a section claims it or not.\<close>

theorem sidebar_agrees_with_routes:
  assumes "path \<in> set guarded_routes"
  shows "(path \<in> set (sidebar_links collapsed v) \<longleftrightarrow>
        path \<in> set (footer_links collapsed) \<or> \<not> pv_isLoading v \<and> Guarded v path = ShowChildren)
    \<and> set (footer_links collapsed) = (if collapsed then {} else {js ''/ai'', js ''/settings''})
    \<and> distinct (sidebar_paths (pv_permissions v))"
proof -
  obtain item where item: "item \<in> set SIDEBAR_ITEMS" "nav_path item = path"
    using assms sidebar_items(5) by auto
  have "i = item" if "i \<in> set SIDEBAR_ITEMS" "nav_path i = path" for i
    using that item sidebar_items(2) unfolding distinct_map by (metis inj_onD)
  moreover have "set (visibleNav SIDEBAR_ITEMS (pv_permissions v)) \<subseteq> set SIDEBAR_ITEMS"
    by (auto simp: visibleNav_def)
  ultimately have "path \<in> set (sidebar_paths (pv_permissions v)) \<longleftrightarrow> item \<in> set (visibleNav SIDEBAR_ITEMS (pv_permissions v))"
    using item(2) unfolding sidebar_paths_set(1) by blast
  moreover have "Guarded v path = ShowChildren \<longleftrightarrow> item \<in> set (visibleNav SIDEBAR_ITEMS (pv_permissions v))"
    if "\<not> pv_isLoading v"
    using that item(1) requirement_found [OF item(1)] unfolding item(2)
    by (simp add: Guarded_def guard_renders_def visibleNav_def split: option.split)
  ultimately have "path \<in> set (sidebar_links collapsed v) \<longleftrightarrow>
      path \<in> set (footer_links collapsed) \<or> \<not> pv_isLoading v \<and> Guarded v path = ShowChildren"
    by (auto simp: sidebar_links_def)
  then show ?thesis
    using sidebar_paths_set(2) by (simp add: footer_links_def)
qed

theorem sidebar_agrees_with_routes_witness:
  "js ''/finance'' \<in> set (sidebar_links False
       \<lparr>pv_permissions = new_PermissionSet [js ''finance:read''], pv_isLoading = False, pv_error = None\<rparr>)
   \<and> js ''/people'' \<notin> set (sidebar_links False
       \<lparr>pv_permissions = new_PermissionSet [js ''finance:read''], pv_isLoading = False, pv_error = None\<rparr>)"
proof -
  let ?v = "\<lparr>pv_permissions = new_PermissionSet [js ''finance:read''], pv_isLoading = False, pv_error = None\<rparr>"
  have "js ''/finance'' \<in> set guarded_routes" "js ''/people'' \<in> set guarded_routes"
    by code_simp+
  moreover have "Guarded ?v (js ''/finance'') = ShowChildren" "Guarded ?v (js ''/people'') = ShowFallback"
      "js ''/people'' \<notin> set (footer_links False)"
    by code_simp+
  ultimately show ?thesis
    using sidebar_agrees_with_routes [of _ False ?v] by auto
qed

text \<open>The buttons at the foot of the sidebar are not filtered: they lead to the settings and the assistant
  whatever the permissions are.\<close>

lemma footer_links_ignore_permissions:
  "js ''/settings'' \<in> set (footer_links False)
   \<and> js ''/settings'' \<notin> set (sidebar_paths NO_PERMISSIONS)
   \<and> Guarded \<lparr>pv_permissions = NO_PERMISSIONS, pv_isLoading = False, pv_error = None\<rparr> (js ''/settings'') = ShowFallback"
  by code_simp

end
