(* ===== verification/ScreenState.thy ===== *)
theory ScreenState
  imports Paging Gates Steps "HOL-Library.Multiset"
begin

text \<open>
  What the screens of the mobile app share: the sets of identifiers that are busy, the identity a handler starts
  with, locks that hold exactly the entries whose requests are awaited, and the revisions that keep an older page
  from settling a newer outcome.
\<close>

section \<open>Sets and identities\<close>

text \<open>\<open>new Set(current).add(id)\<close> and \<open>next.delete(id)\<close>, in insertion order.\<close>

definition ids_add :: "jsstring \<Rightarrow> jsstring list \<Rightarrow> jsstring list" where
  "ids_add x xs = (if x \<in> set xs then xs else xs @ [x])"

definition ids_delete :: "jsstring \<Rightarrow> jsstring list \<Rightarrow> jsstring list" where
  "ids_delete x xs = removeAll x xs"

text \<open>The church and the member of an identity when neither is missing or empty.\<close>

definition member_of :: "screen_owner \<Rightarrow> (jsstring \<times> jsstring) option" where
  "member_of u =
     (case (so_churchId u, so_memberId u) of
        (Some c, Some m) \<Rightarrow> if c = [] \<or> m = [] then None else Some (c, m)
      | _ \<Rightarrow> None)"

definition owner_of :: "jsstring \<Rightarrow> jsstring \<Rightarrow> screen_owner" where
  "owner_of churchId memberId = \<lparr>so_churchId = Some churchId, so_memberId = Some memberId\<rparr>"

lemma ids_add_iff [simp]: "y \<in> set (ids_add x xs) \<longleftrightarrow> y = x \<or> y \<in> set xs"
  by (auto simp: ids_add_def)

lemma ids_delete_iff [simp]: "y \<in> set (ids_delete x xs) \<longleftrightarrow> y \<noteq> x \<and> y \<in> set xs"
  by (auto simp: ids_delete_def)

lemma member_of_iff: "member_of u = Some (c, m) \<longleftrightarrow> u = owner_of c m \<and> c \<noteq> [] \<and> m \<noteq> []"
  by (cases u) (auto simp: member_of_def owner_of_def split: option.splits)

lemma owner_of_inject [simp]: "owner_of c m = owner_of c' m' \<longleftrightarrow> c = c' \<and> m = m'"
  by (simp add: owner_of_def)

lemma belongs_owner: "belongs_to_identity w u \<longleftrightarrow> (\<exists>c m. w = Some (owner_of c m) \<and> u = owner_of c m)"
proof (cases w)
  case (Some o')
  then show ?thesis
    by (cases o'; cases u) (auto simp: belongs_to_identity_def owner_of_def)
qed (simp add: belongs_to_identity_def)

lemma unseen_subset: "set (unseen ident seen xs) \<subseteq> set xs"
  by (induction xs arbitrary: seen) (simp_all, blast)

lemma distinct_appendUniquePage:
  "distinct (map ident (appendUniquePageById ident xs ys)) = distinct (map ident xs)"
  using pages_join_without_repeats by blast

lemma set_appendUniquePage: "x \<in> set (appendUniquePageById ident xs ys) \<Longrightarrow> x \<in> set xs \<or> x \<in> set ys"
  using unseen_subset by (fastforce simp: appendUniquePageById_unseen)

lemma set_insertUnique: "x \<in> set (insertUniqueById ident xs y b) \<Longrightarrow> x \<in> set xs \<or> x = y"
  by (auto simp: insertUniqueById_def split: if_splits)

lemma distinct_insertUnique:
  "distinct (map ident (insertUniqueById ident xs y b)) = distinct (map ident xs)"
  by (auto simp: insertUniqueById_def list_ex_iff)

section \<open>Locks\<close>

text \<open>A lock holds exactly the entries its requests are about.\<close>

definition guards :: "jsstring list \<Rightarrow> jsstring list \<Rightarrow> bool" where
  "guards lock ks \<longleftrightarrow> distinct lock \<and> mset ks = mset lock"

lemma guards_empty [simp]: "guards [] []"
  by (simp add: guards_def)

lemma guards_distinct: "guards lock ks \<Longrightarrow> distinct ks"
  unfolding guards_def by (metis mset_eq_imp_distinct_iff)

lemma guards_reorder: "guards lock ks \<Longrightarrow> mset ks = mset ks' \<Longrightarrow> guards lock ks'"
  by (simp add: guards_def)

lemma guards_acquire: "guards lock ks \<Longrightarrow> fst (keyed_acquire k lock) \<Longrightarrow> guards (snd (keyed_acquire k lock)) (ks @ [k])"
  by (auto simp: guards_def keyed_acquire_def split: if_splits)

lemma keyed_release_remove1: "distinct lock \<Longrightarrow> keyed_release k lock = remove1 k lock"
proof (induction lock)
  case (Cons x lock)
  then show ?case by (cases "x = k") (auto simp: keyed_release_def filter_id_conv remove1_idem)
qed (simp add: keyed_release_def)

lemma guards_refused:
  "guards lock ks \<Longrightarrow> fst (keyed_acquire k lock) \<Longrightarrow> guards (keyed_release k (snd (keyed_acquire k lock))) ks"
  by (auto simp: guards_def keyed_acquire_def keyed_release_remove1 remove1_append split: if_splits)

lemma guards_release:
  "guards lock ks \<Longrightarrow> mset ks = add_mset k (mset ks') \<Longrightarrow> guards (keyed_release k lock) ks'"
  by (simp add: guards_def keyed_release_remove1) (metis add_mset_remove_trivial)

text \<open>Taking a request out of those awaited, or a question out of those open.\<close>

lemma mset_concat_remove1:
  "x \<in> set xs \<Longrightarrow> mset (concat (map f xs)) = mset (f x) + mset (concat (map f (remove1 x xs)))"
  by (induction xs) (auto simp: ac_simps)

section \<open>Revisions\<close>

lemma next_revision_le [simp]: "r \<le> next_revision r"
  by (simp add: next_revision_def)

text \<open>\<open>started s\<close> are the revisions at which the pages awaited in \<open>s\<close> were asked for.\<close>

locale reconciled_screen =
  fixes nxt :: "'l \<Rightarrow> 's \<Rightarrow> 's option" and rev :: "'s \<Rightarrow> int" and started :: "'s \<Rightarrow> int set"
  assumes rev_step: "nxt l s = Some t \<Longrightarrow> rev s \<le> rev t"
    and started_step: "nxt l s = Some t \<Longrightarrow> r \<in> started t \<Longrightarrow> r \<in> started s \<or> r \<le> rev t"
begin

lemma rev_mono: "step_run nxt s ls t \<Longrightarrow> rev s \<le> rev t"
  by (induction rule: step_run.induct) (auto dest: rev_step)

lemma started_bounded: "step_run nxt s ls t \<Longrightarrow> (\<And>r. r \<in> started s \<Longrightarrow> r \<le> rev s) \<Longrightarrow> r \<in> started t \<Longrightarrow> r \<le> rev t"
proof (induction arbitrary: r rule: step_run.induct)
  case (further ls t l u)
  then show ?case using rev_step started_step by (meson order_trans)
qed simp

text \<open>A page asked for before a revision was opened is of an older revision ever after.\<close>

lemma older:
  assumes "step_run nxt s0 ls s" and "\<And>r. r \<in> started s0 \<Longrightarrow> r \<le> rev s0" and "r \<in> started s"
    and "rev s < rev s1" and "step_run nxt s1 ls' u"
  shows "r < rev u"
  using started_bounded [OF assms(1,2,3)] assms(4) rev_mono [OF assms(5)] by simp

end

end
