(* ===== verification/Feed.thy ===== *)
theory Feed
  imports Social AuthForms Money ScreenState
begin

text \<open>
  The community feed (\<open>screens/social/FeedScreen.tsx\<close>): loading and paging the posts, reacting, reporting and
  deleting. The screen keeps the values of its state hooks twice: \<open>fs_view\<close> is the value the setters produced so
  far, \<open>fs_drawn\<close> the value of the last render, which the handlers on the screen close over. A render may come
  any time after a setter, so events between the two are possible; this is the window the submission locks
  close. The focus effect runs some time after the render or the focus that asks for it.
\<close>

section \<open>The state\<close>

record feed_view =
  fv_posts :: "Post list"
  fv_feedOwner :: "screen_owner option"
  fv_isLoading :: bool
  fv_refreshing :: bool
  fv_loadingMore :: bool
  fv_loadedPage :: int
  fv_totalPosts :: int
  fv_error :: jsstring
  fv_likingIds :: "jsstring list"
  fv_reportingPost :: "Post option"
  fv_reportReason :: "jsstring option"
  fv_reportingIds :: "jsstring list"
  fv_reportedIds :: "jsstring list"
  fv_deletingIds :: "jsstring list"
  fv_deleteUnknownIds :: "jsstring list"

text \<open>A request awaited, with the values its handler closed over. A report and a deletion keep the lock they
  took; a lock is named by the number of times the locks were replaced.\<close>

datatype feed_flight =
    LoadFlight int jsstring jsstring
  | OlderFlight int jsstring jsstring int
  | ReactFlight Post jsstring jsstring
  | ReportFlight nat Post jsstring jsstring jsstring
  | DeleteFlight nat Post jsstring jsstring

text \<open>\<open>fs_effect\<close> is the identity whose focus effect is in place; \<open>fs_locks\<close> numbers the locks in use and the three
  functions give the keys every lock holds; \<open>fs_confirming\<close> are the questions before a deletion that are open,
  with the lock and the identity of the render that asked; \<open>fs_alerts\<close> are the titles and messages shown.\<close>

record feed_screen =
  fs_active :: screen_owner
  fs_offline :: bool
  fs_focused :: bool
  fs_effect :: "screen_owner option"
  fs_mounted :: bool
  fs_view :: feed_view
  fs_drawn :: feed_view
  fs_hasLoaded :: bool
  fs_gate :: int
  fs_locks :: nat
  fs_reactionLock :: "nat \<Rightarrow> jsstring list"
  fs_reportLock :: "nat \<Rightarrow> jsstring list"
  fs_deleteLock :: "nat \<Rightarrow> jsstring list"
  fs_flights :: "feed_flight list"
  fs_confirming :: "(Post \<times> nat \<times> screen_owner) list"
  fs_alerts :: "(jsstring \<times> jsstring) list"

definition REPORT_OPTIONS :: "(jsstring \<times> jsstring) list" where
  "REPORT_OPTIONS =
     [(js ''spam'', js ''Spam or promotion''), (js ''harassment'', js ''Harassment or bullying''),
      (js ''misleading'', js ''Misleading information''), (js ''inappropriate'', js ''Inappropriate content''),
      (js ''privacy'', js ''Privacy concern'')]"

definition FEED_PAGE_SIZE :: int where
  "FEED_PAGE_SIZE = 30"

record report_sheet =
  rs_optionDisabled :: bool
  rs_cancelDisabled :: bool
  rs_submitDisabled :: bool
  rs_busy :: bool

definition reportSheetActionState :: "bool \<Rightarrow> bool \<Rightarrow> report_sheet" where
  "reportSheetActionState reasonSelected busy =
     \<lparr>rs_optionDisabled = busy, rs_cancelDisabled = busy, rs_submitDisabled = (\<not> reasonSelected \<or> busy), rs_busy = busy\<rparr>"

abbreviation set_view :: "(feed_view \<Rightarrow> feed_view) \<Rightarrow> feed_screen \<Rightarrow> feed_screen" where
  "set_view f s \<equiv> s\<lparr>fs_view := f (fs_view s)\<rparr>"

definition await :: "feed_flight \<Rightarrow> feed_screen \<Rightarrow> feed_screen" where
  "await f s = s\<lparr>fs_flights := fs_flights s @ [f]\<rparr>"

definition alert :: "jsstring \<Rightarrow> jsstring \<Rightarrow> feed_screen \<Rightarrow> feed_screen" where
  "alert title message s = s\<lparr>fs_alerts := fs_alerts s @ [(title, message)]\<rparr>"

section \<open>Loading\<close>

definition feed_page :: "int \<Rightarrow> page_params" where
  "feed_page n = \<lparr>pp_page = jint n, pp_limit = jint FEED_PAGE_SIZE\<rparr>"

text \<open>What a load does first when the posts on the screen are not the member's. \<open>feedOwnerRef\<close> is set wherever
  \<open>setFeedOwner\<close> is called and again at each render, so it is \<open>fv_feedOwner\<close> of the view.\<close>

definition feed_reset :: "screen_owner \<Rightarrow> feed_screen \<Rightarrow> feed_screen" where
  "feed_reset startedOwner s =
     (let lock = fs_locks s + 1 in
      s\<lparr>fs_view := (fs_view s)\<lparr>fv_feedOwner := Some startedOwner, fv_posts := [], fv_likingIds := [],
          fv_reportingIds := [], fv_reportedIds := [], fv_reportingPost := None, fv_reportReason := None,
          fv_loadingMore := False, fv_loadedPage := 0, fv_totalPosts := 0, fv_deletingIds := [],
          fv_deleteUnknownIds := []\<rparr>,
        fs_locks := lock,
        fs_reactionLock := (fs_reactionLock s)(lock := []),
        fs_reportLock := (fs_reportLock s)(lock := []),
        fs_deleteLock := (fs_deleteLock s)(lock := []),
        fs_hasLoaded := False\<rparr>)"

text \<open>The answer to a load; \<open>finally\<close> is the last update.\<close>

definition feed_loaded ::
    "int \<Rightarrow> jsstring option \<Rightarrow> jsstring option \<Rightarrow> js_error + Post list \<times> int \<Rightarrow> feed_screen \<Rightarrow> feed_screen" where
  "feed_loaded ticket churchId memberId answer s =
     (if \<not> isLatest (jint ticket) (fs_gate s) then s
      else
        let s1 = (case answer of
            Inr (posts, tot) \<Rightarrow> set_view (\<lambda>v. v\<lparr>fv_posts := posts,
              fv_feedOwner := Some \<lparr>so_churchId = churchId, so_memberId = memberId\<rparr>, fv_loadedPage := 1,
              fv_totalPosts := tot, fv_deleteUnknownIds := []\<rparr>) s
          | Inl cause \<Rightarrow> set_view (\<lambda>v. v\<lparr>fv_error :=
              connectivityErrorMessage cause (js ''We could not load the community feed.'')\<rparr>) s)
        in set_view (\<lambda>v. v\<lparr>fv_isLoading := False, fv_refreshing := False\<rparr>) (s1\<lparr>fs_hasLoaded := True\<rparr>))"

text \<open>The start of a load, up to the request; an incomplete identity fails at once.\<close>

definition loadFeed :: "bool \<Rightarrow> feed_screen \<Rightarrow> feed_screen" where
  "loadFeed refresh s =
     (let (request, gate) = request_begin (fs_gate s);
          s1 = s\<lparr>fs_gate := gate\<rparr>;
          s2 = (if communityFeedBelongsToIdentity (fv_feedOwner (fs_view s1)) (fs_active s1) then s1
                else feed_reset (fs_active s1) s1);
          s3 = set_view (\<lambda>v. if refresh then v\<lparr>fv_refreshing := True\<rparr>
                 else v\<lparr>fv_refreshing := False, fv_isLoading := fv_isLoading v \<or> \<not> fs_hasLoaded s2\<rparr>) s2;
          s4 = set_view (\<lambda>v. v\<lparr>fv_error := [], fv_loadingMore := False\<rparr>) s3
      in case member_of (fs_active s4) of
           None \<Rightarrow> feed_loaded request (so_churchId (fs_active s4)) (so_memberId (fs_active s4))
             (Inl (throw ''No church selected'')) s4
         | Some (churchId, memberId) \<Rightarrow> await (LoadFlight request churchId memberId) s4)"

definition loadMore :: "feed_screen \<Rightarrow> feed_screen" where
  "loadMore s =
     (let d = fs_drawn s in
      case nextCommunityPage (jint (fv_loadedPage d)) (jint (int (length (fv_posts d)))) (jint (fv_totalPosts d))
          (fs_offline s \<or> fv_loadingMore d \<or> fv_refreshing d) of
        None \<Rightarrow> s
      | Some nextPage \<Rightarrow>
          (let (request, gate) = request_begin (fs_gate s); s1 = s\<lparr>fs_gate := gate\<rparr>
           in case member_of (fs_active s1) of
               None \<Rightarrow> s1
             | Some (churchId, memberId) \<Rightarrow>
                 if \<not> communityFeedBelongsToIdentity (fv_feedOwner (fs_view s1)) (fs_active s1) then s1
                 else await (OlderFlight request churchId memberId nextPage)
                   (set_view (\<lambda>v. v\<lparr>fv_loadingMore := True, fv_error := []\<rparr>) s1)))"

text \<open>The identity of the last render is the one a handler started with.\<close>

definition identity_is :: "jsstring \<Rightarrow> jsstring \<Rightarrow> feed_screen \<Rightarrow> bool" where
  "identity_is churchId memberId s \<longleftrightarrow>
     so_churchId (fs_active s) = Some churchId \<and> so_memberId (fs_active s) = Some memberId"

definition older_loaded ::
    "int \<Rightarrow> jsstring \<Rightarrow> jsstring \<Rightarrow> int \<Rightarrow> js_error + Post list \<times> int \<Rightarrow> feed_screen \<Rightarrow> feed_screen" where
  "older_loaded ticket churchId memberId nextPage answer s =
     (if \<not> isLatest (jint ticket) (fs_gate s) then s
      else
        let s1 = (if \<not> identity_is churchId memberId s then s
          else case answer of
              Inr (posts, tot) \<Rightarrow> set_view (\<lambda>v. v\<lparr>fv_posts := appendUniquePageById po_id (fv_posts v) posts,
                fv_loadedPage := nextPage, fv_totalPosts := tot\<rparr>) s
            | Inl cause \<Rightarrow> set_view (\<lambda>v. v\<lparr>fv_error :=
                connectivityErrorMessage cause (js ''Older community posts could not be loaded.'')\<rparr>) s)
        in set_view (\<lambda>v. v\<lparr>fv_loadingMore := False\<rparr>) s1)"

section \<open>Reacting, reporting and deleting\<close>

definition drawn_ids :: "feed_screen \<Rightarrow> jsstring list" where
  "drawn_ids s = map po_id (fv_posts (fs_drawn s))"

text \<open>What each handler requires after it took the lock.\<close>

definition may_start :: "Post \<Rightarrow> feed_screen \<Rightarrow> bool" where
  "may_start post s \<longleftrightarrow>
     fs_mounted s \<and> communityFeedBelongsToIdentity (fv_feedOwner (fs_view s)) (fs_active s)
     \<and> po_id post \<in> set (drawn_ids s)"

text \<open>What each handler requires of the screen when its answer arrives.\<close>

definition may_finish :: "Post \<Rightarrow> jsstring \<Rightarrow> jsstring \<Rightarrow> feed_screen \<Rightarrow> bool" where
  "may_finish post churchId memberId s \<longleftrightarrow>
     fs_mounted s \<and> identity_is churchId memberId s \<and> po_id post \<in> set (drawn_ids s)"

definition update_post :: "jsstring \<Rightarrow> (Post \<Rightarrow> Post) \<Rightarrow> Post list \<Rightarrow> Post list" where
  "update_post postId f posts = map (\<lambda>item. if po_id item = postId then f item else item) posts"

definition toggle_of :: "Post \<Rightarrow> toggle_state" where
  "toggle_of p = \<lparr>tg_selected = po_isLiked p, tg_count = po_likesCount p\<rparr>"

definition with_toggle :: "toggle_state \<Rightarrow> Post \<Rightarrow> Post" where
  "with_toggle t p = p\<lparr>po_isLiked := tg_selected t, po_likesCount := tg_count t\<rparr>"

definition optimistic_of :: "Post \<Rightarrow> toggle_state" where
  "optimistic_of post = reconcileToggleCount (toggle_of post) (\<not> po_isLiked post) None"

definition handleLike :: "Post \<Rightarrow> feed_screen \<Rightarrow> feed_screen" where
  "handleLike post s =
     (if \<not> po_reactionStatusKnown post then s
      else
        let (acquired, held) = keyed_acquire (po_id post) (fs_reactionLock s (fs_locks s));
            s1 = s\<lparr>fs_reactionLock := (fs_reactionLock s)(fs_locks s := held)\<rparr>;
            refused = s\<lparr>fs_reactionLock := (fs_reactionLock s)(fs_locks s := keyed_release (po_id post) held)\<rparr>
        in if \<not> acquired then s
          else case member_of (fs_active s) of
              Some (churchId, memberId) \<Rightarrow>
                if \<not> may_start post s then refused
                else await (ReactFlight post churchId memberId)
                  (set_view (\<lambda>v. v\<lparr>fv_error := [], fv_likingIds := ids_add (po_id post) (fv_likingIds v),
                      fv_posts := update_post (po_id post) (with_toggle (optimistic_of post)) (fv_posts v)\<rparr>) s1)
            | None \<Rightarrow> refused)"

definition reacted :: "Post \<Rightarrow> int option \<Rightarrow> Post \<Rightarrow> Post" where
  "reacted post likesCount item =
     (with_toggle (reconcileToggleCount (toggle_of item) (tg_selected (optimistic_of post)) likesCount) item)
       \<lparr>po_reactionStatusKnown := True\<rparr>"

definition reaction_failed :: "Post \<Rightarrow> failure_copy \<Rightarrow> Post \<Rightarrow> Post" where
  "reaction_failed post failure item =
     (if fc_outcomeUnknown failure then item\<lparr>po_reactionStatusKnown := False\<rparr>
      else with_toggle (rollbackOptimisticToggle (toggle_of item) (optimistic_of post) (toggle_of post)) item)"

text \<open>The \<open>finally\<close> of a reaction releases the lock in use when the answer arrives.\<close>

definition reaction_answered ::
    "Post \<Rightarrow> jsstring \<Rightarrow> jsstring \<Rightarrow> js_error + int option \<Rightarrow> feed_screen \<Rightarrow> feed_screen" where
  "reaction_answered post churchId memberId answer s =
     (let s1 = (if \<not> may_finish post churchId memberId s then s
          else case answer of
              Inr likesCount \<Rightarrow> set_view (\<lambda>v. v\<lparr>fv_posts := update_post (po_id post) (reacted post likesCount) (fv_posts v)\<rparr>) s
            | Inl cause \<Rightarrow>
                (let failure = communityMutationFailure MReaction cause in
                 set_view (\<lambda>v. v\<lparr>fv_posts := update_post (po_id post) (reaction_failed post failure) (fv_posts v),
                   fv_error := fc_message failure\<rparr>) s));
          s2 = s1\<lparr>fs_reactionLock := (fs_reactionLock s1)(fs_locks s1 :=
                 keyed_release (po_id post) (fs_reactionLock s1 (fs_locks s1)))\<rparr>
      in if fs_mounted s2 then set_view (\<lambda>v. v\<lparr>fv_likingIds := ids_delete (po_id post) (fv_likingIds v)\<rparr>) s2 else s2)"

definition handleReport :: "feed_screen \<Rightarrow> feed_screen" where
  "handleReport s =
     (case (fv_reportingPost (fs_drawn s), fv_reportReason (fs_drawn s)) of
        (Some post, Some reason) \<Rightarrow>
          if reason = [] \<or> fs_offline s \<or> po_id post \<in> set (fv_reportedIds (fs_drawn s)) then s
          else
            let (acquired, held) = keyed_acquire (po_id post) (fs_reportLock s (fs_locks s));
                s1 = s\<lparr>fs_reportLock := (fs_reportLock s)(fs_locks s := held)\<rparr>;
                refused = s\<lparr>fs_reportLock := (fs_reportLock s)(fs_locks s := keyed_release (po_id post) held)\<rparr>
            in if \<not> acquired then s
              else (case member_of (fs_active s) of
                  Some (churchId, memberId) \<Rightarrow>
                    if \<not> may_start post s then refused
                    else await (ReportFlight (fs_locks s) post reason churchId memberId)
                      (set_view (\<lambda>v. v\<lparr>fv_reportingIds := ids_add (po_id post) (fv_reportingIds v)\<rparr>) s1)
                | None \<Rightarrow> refused)
      | _ \<Rightarrow> s)"

definition report_recorded :: "jsstring \<Rightarrow> feed_screen \<Rightarrow> feed_screen" where
  "report_recorded postId = set_view (\<lambda>v. v\<lparr>fv_reportedIds := ids_add postId (fv_reportedIds v),
     fv_reportingPost := None, fv_reportReason := None\<rparr>)"

definition report_answered ::
    "nat \<Rightarrow> Post \<Rightarrow> jsstring \<Rightarrow> jsstring \<Rightarrow> js_error + unit \<Rightarrow> feed_screen \<Rightarrow> feed_screen" where
  "report_answered lock post churchId memberId answer s =
     (let s1 = (if \<not> may_finish post churchId memberId s then s
          else case answer of
              Inr _ \<Rightarrow> alert (js ''Report received'') (js ''Your church moderation team can now review this post. Reporting does not remove it automatically.'')
                (report_recorded (po_id post) s)
            | Inl cause \<Rightarrow>
                (let failure = communityMutationFailure MReport cause in
                 alert (fc_title failure) (fc_message failure)
                   (if fc_outcomeUnknown failure then report_recorded (po_id post) s else s)));
          s2 = s1\<lparr>fs_reportLock := (fs_reportLock s1)(lock := keyed_release (po_id post) (fs_reportLock s1 lock))\<rparr>
      in if fs_mounted s2 then set_view (\<lambda>v. v\<lparr>fv_reportingIds := ids_delete (po_id post) (fv_reportingIds v)\<rparr>) s2 else s2)"

text \<open>The question before a deletion takes the lock; its buttons give it back or go on with it.\<close>

definition confirmDelete :: "Post \<Rightarrow> feed_screen \<Rightarrow> feed_screen" where
  "confirmDelete post s =
     (if fs_offline s \<or> po_id post \<in> set (fv_deleteUnknownIds (fs_drawn s))
         \<or> Some (po_authorId post) \<noteq> so_memberId (fs_active s) then s
      else
        let (acquired, held) = keyed_acquire (po_id post) (fs_deleteLock s (fs_locks s)) in
        if \<not> acquired then s
        else s\<lparr>fs_deleteLock := (fs_deleteLock s)(fs_locks s := held),
               fs_confirming := fs_confirming s @ [(post, fs_locks s, fs_active s)]\<rparr>)"

definition release_delete :: "nat \<Rightarrow> jsstring \<Rightarrow> feed_screen \<Rightarrow> feed_screen" where
  "release_delete lock postId s =
     s\<lparr>fs_deleteLock := (fs_deleteLock s)(lock := keyed_release postId (fs_deleteLock s lock))\<rparr>"

text \<open>\<open>user\<close> is the member of the render that asked.\<close>

definition deleteOwnedPost :: "Post \<Rightarrow> nat \<Rightarrow> screen_owner \<Rightarrow> feed_screen \<Rightarrow> feed_screen" where
  "deleteOwnedPost post lock user s =
     (case member_of user of
        Some (churchId, memberId) \<Rightarrow>
          if po_authorId post \<noteq> memberId \<or> \<not> may_start post s then release_delete lock (po_id post) s
          else await (DeleteFlight lock post churchId memberId)
            (set_view (\<lambda>v. v\<lparr>fv_error := [], fv_deletingIds := ids_add (po_id post) (fv_deletingIds v)\<rparr>) s)
      | None \<Rightarrow> release_delete lock (po_id post) s)"

definition delete_answered ::
    "nat \<Rightarrow> Post \<Rightarrow> jsstring \<Rightarrow> jsstring \<Rightarrow> js_error + unit \<Rightarrow> feed_screen \<Rightarrow> feed_screen" where
  "delete_answered lock post churchId memberId answer s =
     (let s1 = (if \<not> may_finish post churchId memberId s then s
          else case answer of
              Inr _ \<Rightarrow> loadFeed True (set_view (\<lambda>v. v\<lparr>fv_posts := filter (\<lambda>item. po_id item \<noteq> po_id post) (fv_posts v)\<rparr>) s)
            | Inl cause \<Rightarrow>
                (let failure = communityMutationFailure MDelete cause in
                 alert (fc_title failure) (fc_message failure)
                   (set_view (\<lambda>v. v\<lparr>fv_deleteUnknownIds :=
                       (if fc_outcomeUnknown failure then ids_add (po_id post) (fv_deleteUnknownIds v) else fv_deleteUnknownIds v),
                     fv_error := fc_message failure\<rparr>) s)));
          s2 = release_delete lock (po_id post) s1
      in if fs_mounted s2 then set_view (\<lambda>v. v\<lparr>fv_deletingIds := ids_delete (po_id post) (fv_deletingIds v)\<rparr>) s2 else s2)"

section \<open>What is drawn\<close>

definition ownsFeed :: "feed_screen \<Rightarrow> bool" where
  "ownsFeed s \<longleftrightarrow> communityFeedBelongsToIdentity (fv_feedOwner (fs_drawn s)) (fs_active s)"

definition visiblePosts :: "feed_screen \<Rightarrow> Post list" where
  "visiblePosts s = (if ownsFeed s then fv_posts (fs_drawn s) else [])"

text \<open>The skeleton is drawn instead of the list while the feed is loading or is another member's.\<close>

definition list_shown :: "feed_screen \<Rightarrow> bool" where
  "list_shown s \<longleftrightarrow> \<not> (fv_isLoading (fs_drawn s) \<or> \<not> ownsFeed s)"

definition like_disabled :: "feed_screen \<Rightarrow> Post \<Rightarrow> bool" where
  "like_disabled s item \<longleftrightarrow>
     fs_offline s \<or> \<not> po_reactionStatusKnown item \<or> po_id item \<in> set (fv_likingIds (fs_drawn s))"

definition report_disabled :: "feed_screen \<Rightarrow> Post \<Rightarrow> bool" where
  "report_disabled s item \<longleftrightarrow>
     fs_offline s \<or> po_id item \<in> set (fv_reportingIds (fs_drawn s)) \<or> po_id item \<in> set (fv_reportedIds (fs_drawn s))"

definition delete_disabled :: "feed_screen \<Rightarrow> Post \<Rightarrow> bool" where
  "delete_disabled s item \<longleftrightarrow>
     fs_offline s \<or> po_id item \<in> set (fv_deletingIds (fs_drawn s)) \<or> po_id item \<in> set (fv_deleteUnknownIds (fs_drawn s))"

text \<open>A member is offered to delete an own post and to report any other.\<close>

definition own_post :: "feed_screen \<Rightarrow> Post \<Rightarrow> bool" where
  "own_post s item \<longleftrightarrow> Some (po_authorId item) = so_memberId (fs_active s)"

definition report_sheet_state :: "feed_screen \<Rightarrow> report_sheet" where
  "report_sheet_state s =
     reportSheetActionState (fv_reportReason (fs_drawn s) \<noteq> None)
       (case fv_reportingPost (fs_drawn s) of Some p \<Rightarrow> po_id p \<in> set (fv_reportingIds (fs_drawn s)) | None \<Rightarrow> False)"

definition feed_pagination :: "feed_screen \<Rightarrow> resend_state" where
  "feed_pagination s =
     paginationActionState (js ''older posts'') (fs_offline s) (fv_loadingMore (fs_drawn s)) (fv_refreshing (fs_drawn s)) False"

definition load_more_shown :: "feed_screen \<Rightarrow> bool" where
  "load_more_shown s \<longleftrightarrow> visiblePosts s \<noteq> [] \<and> int (length (visiblePosts s)) < fv_totalPosts (fs_drawn s)"

definition feed_banner :: "feed_screen \<Rightarrow> jsstring option" where
  "feed_banner s =
     (if fv_error (fs_drawn s) \<noteq> [] \<and> visiblePosts s \<noteq> [] \<or> list_ex (\<lambda>p. \<not> po_reactionStatusKnown p) (visiblePosts s)
      then Some (if fv_error (fs_drawn s) \<noteq> [] then fv_error (fs_drawn s)
        else js ''Some reaction statuses are unavailable. Refresh before liking or unliking those posts.'')
      else None)"

text \<open>\<open>timeAgo\<close>, for a date that can be parsed; \<open>now\<close> is the clock.\<close>

definition timeAgo :: "int \<Rightarrow> int \<Rightarrow> jsstring" where
  "timeAgo now date =
     (let hours = (now - date) div 3600000 in
      if hours < 1 then js ''Just now''
      else if hours < 24 then dec (nat hours) @ js ''h ago''
      else dec (nat (hours div 24)) @ js ''d ago'')"

section \<open>Steps\<close>

definition feed_init :: "screen_owner \<Rightarrow> bool \<Rightarrow> feed_screen" where
  "feed_init user offline =
     (let view = \<lparr>fv_posts = [], fv_feedOwner = Some user, fv_isLoading = True, fv_refreshing = False,
         fv_loadingMore = False, fv_loadedPage = 0, fv_totalPosts = 0, fv_error = [], fv_likingIds = [],
         fv_reportingPost = None, fv_reportReason = None, fv_reportingIds = [], fv_reportedIds = [],
         fv_deletingIds = [], fv_deleteUnknownIds = []\<rparr>
      in \<lparr>fs_active = user, fs_offline = offline, fs_focused = True, fs_effect = None, fs_mounted = True,
          fs_view = view, fs_drawn = view, fs_hasLoaded = False, fs_gate = 0, fs_locks = 0,
          fs_reactionLock = (\<lambda>_. []), fs_reportLock = (\<lambda>_. []), fs_deleteLock = (\<lambda>_. []),
          fs_flights = [], fs_confirming = [], fs_alerts = []\<rparr>)"

definition feed_rendered :: "screen_owner \<Rightarrow> bool \<Rightarrow> feed_screen \<Rightarrow> feed_screen" where
  "feed_rendered user offline s = s\<lparr>fs_active := user, fs_offline := offline, fs_drawn := fs_view s\<rparr>"

text \<open>The clean-up of the focus effect, and the effect.\<close>

definition feed_left :: "feed_screen \<Rightarrow> feed_screen" where
  "feed_left s =
     (if fs_effect s = None then s
      else s\<lparr>fs_mounted := False, fs_gate := request_invalidate (fs_gate s), fs_effect := None\<rparr>)"

definition feed_entered :: "feed_screen \<Rightarrow> feed_screen" where
  "feed_entered s = loadFeed False ((feed_left s)\<lparr>fs_mounted := True, fs_effect := Some (fs_active s)\<rparr>)"

fun feed_answer :: "host \<Rightarrow> api \<Rightarrow> feed_flight \<Rightarrow> feed_screen \<Rightarrow> feed_screen" where
  "feed_answer h api (LoadFlight ticket churchId memberId) s =
     feed_loaded ticket (Some churchId) (Some memberId) (getFeed h api churchId (feed_page 1)) s"
| "feed_answer h api (OlderFlight ticket churchId memberId n) s =
     older_loaded ticket churchId memberId n (getFeed h api churchId (feed_page n)) s"
| "feed_answer h api (ReactFlight post churchId memberId) s =
     reaction_answered post churchId memberId
       (if po_isLiked post then unlikePost api (po_id post) else likePost api (po_id post)) s"
| "feed_answer h api (ReportFlight lock post reason churchId memberId) s =
     report_answered lock post churchId memberId (reportPost api (po_id post) (JStr reason)) s"
| "feed_answer h api (DeleteFlight lock post churchId memberId) s =
     delete_answered lock post churchId memberId (deletePost api (po_id post)) s"

datatype feed_label =
    FeedRendered screen_owner bool
  | FeedFocused
  | FeedBlurred
  | FocusEffect
  | FeedAnswered feed_flight api
  | FeedPulled
  | BannerPressed
  | EmptyStatePressed
  | LoadMorePressed
  | LikePressed Post
  | ReportOpened Post
  | ReasonChosen jsstring
  | ReportCancelled
  | ReportBack
  | ReportSubmitted
  | DeletePressed Post
  | DeleteCancelled Post nat screen_owner
  | DeleteConfirmed Post nat screen_owner

definition feed_shows :: "feed_screen \<Rightarrow> Post \<Rightarrow> bool" where
  "feed_shows s post \<longleftrightarrow> fs_focused s \<and> list_shown s \<and> post \<in> set (visiblePosts s)"

text \<open>One event; \<open>None\<close> when it cannot happen. A control acts as the last render drew it. The sheet of the report is
  a modal over the screen, drawn in the same conditions as the list.\<close>

fun feed_next :: "host \<Rightarrow> feed_label \<Rightarrow> feed_screen \<Rightarrow> feed_screen option" where
  "feed_next h (FeedRendered user offline) s = Some (feed_rendered user offline s)"
| "feed_next h FeedFocused s = (if fs_focused s then None else Some (s\<lparr>fs_focused := True\<rparr>))"
| "feed_next h FeedBlurred s = (if fs_focused s then Some (feed_left (s\<lparr>fs_focused := False\<rparr>)) else None)"
| "feed_next h FocusEffect s =
     (if fs_focused s \<and> fs_effect s \<noteq> Some (fs_active s) then Some (feed_entered s) else None)"
| "feed_next h (FeedAnswered f api) s =
     (if f \<in> set (fs_flights s) then Some (feed_answer h api f (s\<lparr>fs_flights := remove1 f (fs_flights s)\<rparr>)) else None)"
| "feed_next h FeedPulled s =
     (if fs_focused s \<and> list_shown s \<and> \<not> fs_offline s then Some (loadFeed True s) else None)"
| "feed_next h BannerPressed s =
     (case communityPartialRecoveryAction (fs_offline s) Feed of (_, _, disabled) \<Rightarrow>
        if fs_focused s \<and> list_shown s \<and> feed_banner s \<noteq> None \<and> \<not> disabled then Some (loadFeed True s) else None)"
| "feed_next h EmptyStatePressed s =
     (if fs_focused s \<and> list_shown s \<and> visiblePosts s = [] \<and> fv_error (fs_drawn s) \<noteq> [] \<and> \<not> fs_offline s
      then Some (loadFeed False s) else None)"
| "feed_next h LoadMorePressed s =
     (if fs_focused s \<and> list_shown s \<and> load_more_shown s \<and> \<not> ac_disabled (feed_pagination s)
      then Some (loadMore s) else None)"
| "feed_next h (LikePressed post) s =
     (if feed_shows s post \<and> \<not> like_disabled s post then Some (handleLike post s) else None)"
| "feed_next h (ReportOpened post) s =
     (if feed_shows s post \<and> \<not> own_post s post \<and> \<not> report_disabled s post
      then Some (set_view (\<lambda>v. v\<lparr>fv_reportingPost := Some post, fv_reportReason := None\<rparr>) s) else None)"
| "feed_next h (ReasonChosen reason) s =
     (if list_shown s \<and> fv_reportingPost (fs_drawn s) \<noteq> None \<and> reason \<in> fst ` set REPORT_OPTIONS
        \<and> \<not> rs_optionDisabled (report_sheet_state s)
      then Some (set_view (\<lambda>v. v\<lparr>fv_reportReason := Some reason\<rparr>) s) else None)"
| "feed_next h ReportCancelled s =
     (if list_shown s \<and> fv_reportingPost (fs_drawn s) \<noteq> None \<and> \<not> rs_cancelDisabled (report_sheet_state s)
      then Some (set_view (\<lambda>v. v\<lparr>fv_reportingPost := None, fv_reportReason := None\<rparr>) s) else None)"
| "feed_next h ReportBack s =
     (if list_shown s \<and> fv_reportingPost (fs_drawn s) \<noteq> None
      then Some (if rs_busy (report_sheet_state s) then s else set_view (\<lambda>v. v\<lparr>fv_reportingPost := None\<rparr>) s)
      else None)"
| "feed_next h ReportSubmitted s =
     (if list_shown s \<and> fv_reportingPost (fs_drawn s) \<noteq> None \<and> \<not> rs_submitDisabled (report_sheet_state s)
      then Some (handleReport s) else None)"
| "feed_next h (DeletePressed post) s =
     (if feed_shows s post \<and> own_post s post \<and> \<not> delete_disabled s post then Some (confirmDelete post s) else None)"
| "feed_next h (DeleteCancelled post lock user) s =
     (if (post, lock, user) \<in> set (fs_confirming s)
      then Some (release_delete lock (po_id post) (s\<lparr>fs_confirming := remove1 (post, lock, user) (fs_confirming s)\<rparr>))
      else None)"
| "feed_next h (DeleteConfirmed post lock user) s =
     (if (post, lock, user) \<in> set (fs_confirming s)
      then Some (deleteOwnedPost post lock user (s\<lparr>fs_confirming := remove1 (post, lock, user) (fs_confirming s)\<rparr>))
      else None)"

abbreviation feed_run :: "host \<Rightarrow> feed_screen \<Rightarrow> feed_label list \<Rightarrow> feed_screen \<Rightarrow> bool" where
  "feed_run h \<equiv> step_run (feed_next h)"

section \<open>Lemmas\<close>

lemma feed_belongs_owner:
  "communityFeedBelongsToIdentity w u \<longleftrightarrow> (\<exists>c m. w = Some (owner_of c m) \<and> u = owner_of c m)"
  by (simp add: communityFeedBelongsToIdentity_def belongs_owner)

lemma identity_is_owner: "identity_is c m s \<longleftrightarrow> fs_active s = owner_of c m"
  by (cases "fs_active s") (auto simp: identity_is_def owner_of_def)

subsection \<open>Where the posts come from\<close>

text \<open>A post as the gateway sent it, apart from the reaction, which the screen updates.\<close>

definition same_post :: "Post \<Rightarrow> Post \<Rightarrow> bool" where
  "same_post p q \<longleftrightarrow>
     p = q\<lparr>po_isLiked := po_isLiked p, po_likesCount := po_likesCount p, po_reactionStatusKnown := po_reactionStatusKnown p\<rparr>"

definition read_for :: "host \<Rightarrow> feed_label list \<Rightarrow> jsstring \<Rightarrow> jsstring \<Rightarrow> Post \<Rightarrow> bool" where
  "read_for h ls c m p \<longleftrightarrow>
     (\<exists>f api t k ps n q. FeedAnswered f api \<in> set ls \<and> (f = LoadFlight t c m \<and> k = 1 \<or> f = OlderFlight t c m k)
        \<and> getFeed h api c (feed_page k) = Inr (ps, n) \<and> q \<in> set ps \<and> same_post p q)"

definition posts_ok :: "host \<Rightarrow> feed_label list \<Rightarrow> feed_view \<Rightarrow> bool" where
  "posts_ok h ls v \<longleftrightarrow> distinct (map po_id (fv_posts v))
     \<and> (\<forall>p\<in>set (fv_posts v). \<exists>c m. fv_feedOwner v = Some (owner_of c m) \<and> read_for h ls c m p)"

lemma same_post_refl [simp]: "same_post p p"
  by (simp add: same_post_def)

lemma read_for_more: "read_for h ls c m p \<Longrightarrow> set ls \<subseteq> set ls' \<Longrightarrow> read_for h ls' c m p"
  unfolding read_for_def by blast

lemma posts_ok_more: "posts_ok h ls v \<Longrightarrow> set ls \<subseteq> set ls' \<Longrightarrow> posts_ok h ls' v"
  unfolding posts_ok_def using read_for_more by blast

lemma posts_ok_cong: "fv_posts w = fv_posts v \<Longrightarrow> fv_feedOwner w = fv_feedOwner v \<Longrightarrow> posts_ok h ls w = posts_ok h ls v"
  by (simp add: posts_ok_def)

lemma posts_ok_empty: "fv_posts v = [] \<Longrightarrow> posts_ok h ls v"
  by (simp add: posts_ok_def)

text \<open>An update of the reaction of a post keeps it the post that was read.\<close>

definition reaction_only :: "(Post \<Rightarrow> Post) \<Rightarrow> bool" where
  "reaction_only f \<longleftrightarrow> (\<forall>p. same_post (f p) p)"

lemma same_post_id: "same_post p q \<Longrightarrow> po_id p = po_id q"
  unfolding same_post_def by (metis Post.select_convs(1) Post.surjective Post.update_convs(9) Post.update_convs(11) Post.update_convs(12))

lemma same_post_trans: "same_post p q \<Longrightarrow> same_post q r \<Longrightarrow> same_post p r"
  by (cases p; cases q; cases r) (simp add: same_post_def)

lemma reaction_updates [simp]:
  "reaction_only (with_toggle t)" "reaction_only (reacted p n)" "reaction_only (reaction_failed p e)"
  by (auto simp: reaction_only_def same_post_def with_toggle_def reacted_def reaction_failed_def)

lemma read_for_same: "read_for h ls c m q \<Longrightarrow> same_post p q \<Longrightarrow> read_for h ls c m p"
  unfolding read_for_def using same_post_trans by blast

lemma posts_ok_update:
  assumes "posts_ok h ls v" and "reaction_only f"
    and "fv_posts w = update_post i f (fv_posts v)" and "fv_feedOwner w = fv_feedOwner v"
  shows "posts_ok h ls w"
proof -
  have "map po_id (update_post i f ps) = map po_id ps" for ps
    using assms(2) same_post_id by (auto simp: update_post_def reaction_only_def)
  moreover have "\<exists>q\<in>set ps. same_post p q" if p: "p \<in> set (update_post i f ps)" for p ps
  proof -
    obtain q where "q \<in> set ps" and "p = (if po_id q = i then f q else q)"
      using p by (auto simp: update_post_def)
    then show ?thesis using assms(2) by (intro bexI [of _ q]) (auto simp: reaction_only_def)
  qed
  ultimately show ?thesis
    using assms read_for_same unfolding posts_ok_def by metis
qed

lemma posts_ok_loaded:
  assumes "FeedAnswered (LoadFlight t c m) api \<in> set ls" and "getFeed h api c (feed_page 1) = Inr (ps, n)"
    and "fv_posts w = ps" and "fv_feedOwner w = Some (owner_of c m)"
  shows "posts_ok h ls w"
proof -
  have "page_ok (post_ok h c) po_id 100 ps n" using feed_and_thread_are_own assms(2) by blast
  then show ?thesis
    using assms unfolding posts_ok_def page_ok_def read_for_def by (metis same_post_refl)
qed

lemma posts_ok_older:
  assumes "FeedAnswered (OlderFlight t c m k) api \<in> set ls" and "getFeed h api c (feed_page k) = Inr (ps, n)"
    and "posts_ok h ls v" and "fv_feedOwner v = Some (owner_of c m)"
    and "fv_posts w = appendUniquePageById po_id (fv_posts v) ps" and "fv_feedOwner w = fv_feedOwner v"
  shows "posts_ok h ls w"
proof -
  have "p \<in> set (fv_posts v) \<or> p \<in> set ps" if "p \<in> set (fv_posts w)" for p
    using that assms(5) unseen_subset by (fastforce simp: appendUniquePageById_unseen)
  moreover have "distinct (map po_id (fv_posts w))"
    using assms(3) pages_join_without_repeats [of po_id "fv_posts v" ps] unfolding assms(5) posts_ok_def by blast
  moreover have "read_for h ls c m p" if "p \<in> set ps" for p
    using assms(1,2) that unfolding read_for_def by (metis same_post_refl)
  ultimately show ?thesis
    using assms(3,4,6) unfolding posts_ok_def by metis
qed

lemma posts_ok_filter:
  "posts_ok h ls v \<Longrightarrow> fv_posts w = filter P (fv_posts v) \<Longrightarrow> fv_feedOwner w = fv_feedOwner v \<Longrightarrow> posts_ok h ls w"
  by (auto simp: posts_ok_def distinct_map intro: inj_on_subset)

subsection \<open>Tickets\<close>

fun ticket_of :: "feed_flight \<Rightarrow> int option" where
  "ticket_of (LoadFlight t _ _) = Some t"
| "ticket_of (OlderFlight t _ _ _) = Some t"
| "ticket_of _ = None"

text \<open>No ticket is newer than the gate, and while older posts own the newest one, the posts on the screen are of
  the member who asked for them.\<close>

definition tickets_bounded :: "feed_screen \<Rightarrow> bool" where
  "tickets_bounded s \<longleftrightarrow> (\<forall>f\<in>set (fs_flights s). \<forall>t. ticket_of f = Some t \<longrightarrow> t \<le> fs_gate s)"

definition older_owned :: "feed_screen \<Rightarrow> bool" where
  "older_owned s \<longleftrightarrow>
     (\<forall>c m k. OlderFlight (fs_gate s) c m k \<in> set (fs_flights s) \<longrightarrow> fs_gate s \<le> max_safe_integer
        \<longrightarrow> fv_feedOwner (fs_view s) = Some (owner_of c m)
          \<and> (\<forall>c m. LoadFlight (fs_gate s) c m \<notin> set (fs_flights s)))"

text \<open>The gate was just opened: nothing awaited has its ticket.\<close>

definition gate_fresh :: "feed_screen \<Rightarrow> bool" where
  "gate_fresh s \<longleftrightarrow> tickets_bounded s
     \<and> (fs_gate s \<le> max_safe_integer \<longrightarrow> (\<forall>f\<in>set (fs_flights s). ticket_of f \<noteq> Some (fs_gate s)))"

lemma gate_fresh_next:
  "tickets_bounded s \<Longrightarrow> fs_flights t = fs_flights s \<Longrightarrow> fs_gate t = next_revision (fs_gate s) \<Longrightarrow> gate_fresh t"
  by (fastforce simp: gate_fresh_def tickets_bounded_def next_revision_def max_safe_integer_def)

lemma gate_fresh_owned: "gate_fresh s \<Longrightarrow> tickets_bounded s \<and> older_owned s"
  by (fastforce simp: gate_fresh_def older_owned_def)

lemma tickets_await_load:
  "gate_fresh s \<Longrightarrow> tickets_bounded (await (LoadFlight (fs_gate s) c m) s) \<and> older_owned (await (LoadFlight (fs_gate s) c m) s)"
  by (fastforce simp: gate_fresh_def older_owned_def tickets_bounded_def await_def)

lemma tickets_await_older:
  "gate_fresh s \<Longrightarrow> fv_feedOwner (fs_view s) = Some (owner_of c m) \<Longrightarrow>
     tickets_bounded (await (OlderFlight (fs_gate s) c m k) s) \<and> older_owned (await (OlderFlight (fs_gate s) c m k) s)"
  by (fastforce simp: gate_fresh_def older_owned_def tickets_bounded_def await_def)

lemma tickets_keep:
  assumes "tickets_bounded s" "older_owned s" and "fs_gate t = fs_gate s"
    and "\<And>f. f \<in> set (fs_flights t) \<Longrightarrow> f \<in> set (fs_flights s) \<or> ticket_of f = None"
    and "fv_feedOwner (fs_view t) = fv_feedOwner (fs_view s)"
  shows "tickets_bounded t \<and> older_owned t"
proof
  show "tickets_bounded t" using assms(1,3,4) by (fastforce simp: tickets_bounded_def)
  have "OlderFlight n c m k \<in> set (fs_flights s)" if "OlderFlight n c m k \<in> set (fs_flights t)" for n c m k
    using assms(4) [OF that] by simp
  moreover have "LoadFlight n c m \<in> set (fs_flights s)" if "LoadFlight n c m \<in> set (fs_flights t)" for n c m
    using assms(4) [OF that] by simp
  ultimately show "older_owned t"
    using assms(2,3,5) unfolding older_owned_def by metis
qed

subsection \<open>The invariant\<close>

lemma feed_loaded_same [simp]:
  "fs_gate (feed_loaded t c m a s) = fs_gate s" "fs_flights (feed_loaded t c m a s) = fs_flights s"
  "fs_drawn (feed_loaded t c m a s) = fs_drawn s" "fs_active (feed_loaded t c m a s) = fs_active s"
  by (simp_all add: feed_loaded_def Let_def split: sum.split)

lemma feed_loaded_failed:
  "fv_feedOwner (fs_view (feed_loaded t c m (Inl e) s)) = fv_feedOwner (fs_view s)"
  "posts_ok h ls (fs_view (feed_loaded t c m (Inl e) s)) = posts_ok h ls (fs_view s)"
  by (simp_all add: feed_loaded_def Let_def posts_ok_def)

definition feed_inv :: "host \<Rightarrow> feed_label list \<Rightarrow> feed_screen \<Rightarrow> bool" where
  "feed_inv h ls s \<longleftrightarrow>
     posts_ok h ls (fs_view s) \<and> posts_ok h ls (fs_drawn s) \<and> tickets_bounded s \<and> older_owned s"

lemma feed_inv_more: "feed_inv h ls s \<Longrightarrow> set ls \<subseteq> set ls' \<Longrightarrow> feed_inv h ls' s"
  unfolding feed_inv_def using posts_ok_more by blast

text \<open>A step that leaves the gate, the owner and the posts alone keeps it.\<close>

lemma feed_inv_keep:
  assumes "feed_inv h ls s" and "fs_gate t = fs_gate s"
    and "\<And>f. f \<in> set (fs_flights t) \<Longrightarrow> f \<in> set (fs_flights s) \<or> ticket_of f = None"
    and "fv_feedOwner (fs_view t) = fv_feedOwner (fs_view s)"
    and "posts_ok h ls (fs_view s) \<Longrightarrow> posts_ok h ls (fs_view t)"
    and "fs_drawn t = fs_drawn s"
  shows "feed_inv h ls t"
  using assms tickets_keep [of s t] unfolding feed_inv_def by simp

lemma feed_inv_fresh:
  "posts_ok h ls (fs_view s) \<Longrightarrow> posts_ok h ls (fs_drawn s) \<Longrightarrow> gate_fresh s \<Longrightarrow> feed_inv h ls s"
  using gate_fresh_owned by (simp add: feed_inv_def)

lemma loadFeed_inv:
  assumes "feed_inv h ls s"
  shows "feed_inv h ls (loadFeed refresh s)"
proof -
  define g where "g = next_revision (fs_gate s)"
  define s0 where "s0 = s\<lparr>fs_gate := g\<rparr>"
  define s1 where "s1 = (if communityFeedBelongsToIdentity (fv_feedOwner (fs_view s0)) (fs_active s0) then s0
    else feed_reset (fs_active s0) s0)"
  define s2 where "s2 = set_view (\<lambda>v. v\<lparr>fv_error := [], fv_loadingMore := False\<rparr>)
    (set_view (\<lambda>v. if refresh then v\<lparr>fv_refreshing := True\<rparr>
       else v\<lparr>fv_refreshing := False, fv_isLoading := fv_isLoading v \<or> \<not> fs_hasLoaded s1\<rparr>) s1)"
  have same: "fs_gate s2 = g" "fs_flights s2 = fs_flights s" "fs_drawn s2 = fs_drawn s" "fs_active s2 = fs_active s"
    by (simp_all add: s2_def s1_def s0_def feed_reset_def Let_def)
  have "posts_ok h ls (fs_view s1)"
    using assms by (simp add: s1_def s0_def feed_inv_def feed_reset_def Let_def posts_ok_empty)
  then have view: "posts_ok h ls (fs_view s2)"
    by (rule iffD2 [OF posts_ok_cong, rotated 2]) (simp_all add: s2_def)
  have fresh: "gate_fresh s2"
    using assms same by (intro gate_fresh_next [of s]) (simp_all add: feed_inv_def g_def)
  have run: "loadFeed refresh s = (case member_of (fs_active s) of
      None \<Rightarrow> feed_loaded g (so_churchId (fs_active s)) (so_memberId (fs_active s)) (Inl (throw ''No church selected'')) s2
    | Some (c, m) \<Rightarrow> await (LoadFlight g c m) s2)"
    unfolding same(4) [symmetric] by (simp only: loadFeed_def request_begin_def s2_def s1_def s0_def g_def Let_def prod.case)
  show ?thesis
  proof (cases "member_of (fs_active s)")
    case None
    let ?t = "feed_loaded g (so_churchId (fs_active s)) (so_memberId (fs_active s)) (Inl (throw ''No church selected'')) s2"
    have "feed_inv h ls s2" using view fresh assms same by (intro feed_inv_fresh) (simp_all add: feed_inv_def)
    then have "feed_inv h ls ?t"
      by (rule feed_inv_keep) (simp_all add: feed_loaded_failed)
    with None run show ?thesis by simp
  next
    case (Some cm)
    obtain c m where "cm = (c, m)" by force
    then show ?thesis
      using Some run view fresh same assms tickets_await_load [of s2 c m] by (simp add: feed_inv_def await_def)
  qed
qed

lemma feed_loaded_inv:
  assumes "feed_inv h ls s" and "FeedAnswered (LoadFlight t c m) api \<in> set ls"
    and alone: "isLatest (jint t) (fs_gate s) \<Longrightarrow> \<forall>c m k. OlderFlight t c m k \<notin> set (fs_flights s)"
  shows "feed_inv h ls (feed_loaded t (Some c) (Some m) (getFeed h api c (feed_page 1)) s)"
    (is "feed_inv h ls ?t")
proof (cases "isLatest (jint t) (fs_gate s)")
  case False
  then show ?thesis using assms(1) by (simp add: feed_loaded_def)
next
  case True
  then have tickets: "tickets_bounded ?t" "older_owned ?t"
    using assms(1) alone by (auto simp: older_owned_def feed_inv_def tickets_bounded_def isLatest_jint)
  have "posts_ok h ls (fs_view ?t)"
  proof (cases "getFeed h api c (feed_page 1)")
    case (Inr r)
    obtain ps n where r: "r = (ps, n)" by force
    show ?thesis
      using assms(2) Inr [unfolded r]
      by (rule posts_ok_loaded) (simp_all add: feed_loaded_def Let_def Inr r True owner_of_def)
  qed (use assms(1) in \<open>simp add: feed_loaded_failed feed_inv_def\<close>)
  then show ?thesis using assms(1) tickets by (simp add: feed_inv_def)
qed

lemma older_loaded_same [simp]:
  "fs_gate (older_loaded t c m k a s) = fs_gate s" "fs_flights (older_loaded t c m k a s) = fs_flights s"
  "fs_drawn (older_loaded t c m k a s) = fs_drawn s"
  "fv_feedOwner (fs_view (older_loaded t c m k a s)) = fv_feedOwner (fs_view s)"
  by (simp_all add: older_loaded_def Let_def split: sum.split)

lemma older_loaded_inv:
  assumes "feed_inv h ls s" and "FeedAnswered (OlderFlight t c m k) api \<in> set ls"
    and "isLatest (jint t) (fs_gate s) \<Longrightarrow> fv_feedOwner (fs_view s) = Some (owner_of c m)"
  shows "feed_inv h ls (older_loaded t c m k (getFeed h api c (feed_page k)) s)"
    (is "feed_inv h ls ?t")
proof (cases "isLatest (jint t) (fs_gate s)")
  case True
  have "posts_ok h ls (fs_view ?t)" if ok: "posts_ok h ls (fs_view s)"
  proof (cases "identity_is c m s \<and> \<not> isl (getFeed h api c (feed_page k))")
    case own: True
    obtain ps n where r: "getFeed h api c (feed_page k) = Inr (ps, n)"
      using own by (cases "getFeed h api c (feed_page k)") auto
    show ?thesis
      using assms(2) r ok assms(3) [OF True]
      by (rule posts_ok_older) (simp_all add: older_loaded_def Let_def r True own)
  next
    case False
    then show ?thesis
      using ok by (cases "getFeed h api c (feed_page k)") (auto simp: older_loaded_def Let_def posts_ok_def)
  qed
  then show ?thesis
    by (intro feed_inv_keep [OF assms(1)]) simp_all
qed (use assms(1) in \<open>simp add: older_loaded_def\<close>)

lemma loadMore_inv:
  assumes inv: "feed_inv h ls s"
  shows "feed_inv h ls (loadMore s)"
proof -
  define g where "g = next_revision (fs_gate s)"
  define s1 where "s1 = s\<lparr>fs_gate := g\<rparr>"
  have fresh: "gate_fresh s1" using inv by (intro gate_fresh_next [of s]) (simp_all add: s1_def g_def feed_inv_def)
  then have i1: "feed_inv h ls s1" using inv by (intro feed_inv_fresh) (simp_all add: s1_def g_def feed_inv_def)
  define d where "d = fs_drawn s"
  define next_page where "next_page = nextCommunityPage (jint (fv_loadedPage d)) (jint (int (length (fv_posts d))))
    (jint (fv_totalPosts d)) (fs_offline s \<or> fv_loadingMore d \<or> fv_refreshing d)"
  have run: "loadMore s = (case next_page of None \<Rightarrow> s | Some k \<Rightarrow> (case member_of (fs_active s1) of
       None \<Rightarrow> s1
     | Some (c, m) \<Rightarrow> if \<not> communityFeedBelongsToIdentity (fv_feedOwner (fs_view s1)) (fs_active s1) then s1
         else await (OlderFlight g c m k) (set_view (\<lambda>v. v\<lparr>fv_loadingMore := True, fv_error := []\<rparr>) s1)))"
    by (simp only: loadMore_def next_page_def d_def s1_def g_def request_begin_def Let_def prod.case)
  show ?thesis
  proof (cases "next_page = None \<or> member_of (fs_active s1) = None
      \<or> \<not> communityFeedBelongsToIdentity (fv_feedOwner (fs_view s1)) (fs_active s1)")
    case True
    then show ?thesis using inv i1 unfolding run by (auto split: option.split)
  next
    case False
    then obtain k c m where "next_page = Some k" and "member_of (fs_active s1) = Some (c, m)"
      and owner: "fv_feedOwner (fs_view s1) = Some (owner_of c m)"
      by (auto simp: feed_belongs_owner member_of_iff)
    then have t: "loadMore s = await (OlderFlight g c m k) (set_view (\<lambda>v. v\<lparr>fv_loadingMore := True, fv_error := []\<rparr>) s1)"
      using False unfolding run by simp
    let ?s2 = "set_view (\<lambda>v. v\<lparr>fv_loadingMore := True, fv_error := []\<rparr>) s1"
    have "gate_fresh ?s2" using fresh by (simp add: gate_fresh_def tickets_bounded_def)
    then have "tickets_bounded (loadMore s) \<and> older_owned (loadMore s)"
      using t owner tickets_await_older [of ?s2 c m k] by (simp add: s1_def)
    then show ?thesis using i1 t by (simp add: feed_inv_def await_def posts_ok_def)
  qed
qed

text \<open>The handlers and the answers to reactions, reports and deletions leave the tickets alone.\<close>

definition tickets_kept :: "feed_screen \<Rightarrow> feed_screen \<Rightarrow> bool" where
  "tickets_kept s t \<longleftrightarrow> fs_gate t = fs_gate s \<and> fs_drawn t = fs_drawn s
     \<and> fv_feedOwner (fs_view t) = fv_feedOwner (fs_view s)
     \<and> (\<forall>f\<in>set (fs_flights t). f \<in> set (fs_flights s) \<or> ticket_of f = None)"

lemma feed_inv_kept:
  "feed_inv h ls s \<Longrightarrow> tickets_kept s t \<Longrightarrow> (posts_ok h ls (fs_view s) \<Longrightarrow> posts_ok h ls (fs_view t)) \<Longrightarrow> feed_inv h ls t"
  by (rule feed_inv_keep) (auto simp: tickets_kept_def)

lemma feed_inv_same_posts:
  "feed_inv h ls s \<Longrightarrow> tickets_kept s t \<Longrightarrow> fv_posts (fs_view t) = fv_posts (fs_view s) \<Longrightarrow> feed_inv h ls t"
  by (rule feed_inv_kept) (simp_all add: tickets_kept_def posts_ok_def)

lemma feed_inv_reaction:
  assumes "feed_inv h ls s" and "tickets_kept s t" and "reaction_only f"
    and "fv_posts (fs_view t) = update_post i f (fv_posts (fs_view s))"
  shows "feed_inv h ls t"
  using assms by (intro feed_inv_kept [OF assms(1,2)] posts_ok_update [of h ls "fs_view s" f "fs_view t" i])
    (simp_all add: tickets_kept_def)

lemma handleLike_inv:
  assumes "feed_inv h ls s"
  shows "feed_inv h ls (handleLike post s)"
proof -
  have "tickets_kept s (handleLike post s)"
    by (simp add: handleLike_def tickets_kept_def await_def Let_def split_beta split: option.split)
  moreover have "fv_posts (fs_view (handleLike post s)) = fv_posts (fs_view s)
      \<or> fv_posts (fs_view (handleLike post s))
        = update_post (po_id post) (with_toggle (optimistic_of post)) (fv_posts (fs_view s))"
    by (simp add: handleLike_def await_def Let_def split_beta split: option.split)
  ultimately show ?thesis
    using assms feed_inv_same_posts feed_inv_reaction reaction_updates(1) by metis
qed

lemma handleReport_inv: "feed_inv h ls s \<Longrightarrow> feed_inv h ls (handleReport s)"
  by (erule feed_inv_same_posts)
     (auto simp: handleReport_def tickets_kept_def await_def Let_def split_beta split: option.splits)

lemma confirmDelete_inv: "feed_inv h ls s \<Longrightarrow> feed_inv h ls (confirmDelete post s)"
  by (erule feed_inv_same_posts) (auto simp: confirmDelete_def tickets_kept_def Let_def split_beta)

lemma release_delete_inv: "feed_inv h ls s \<Longrightarrow> feed_inv h ls (release_delete lock i s)"
  by (erule feed_inv_same_posts) (auto simp: release_delete_def tickets_kept_def)

lemma deleteOwnedPost_inv: "feed_inv h ls s \<Longrightarrow> feed_inv h ls (deleteOwnedPost post lock user s)"
  by (erule feed_inv_same_posts)
     (auto simp: deleteOwnedPost_def release_delete_def tickets_kept_def await_def split: option.splits)

lemma report_answered_inv: "feed_inv h ls s \<Longrightarrow> feed_inv h ls (report_answered lock post c m a s)"
  by (erule feed_inv_same_posts)
     (auto simp: report_answered_def report_recorded_def alert_def tickets_kept_def Let_def split: sum.split)

lemma reaction_answered_inv:
  assumes "feed_inv h ls s"
  shows "feed_inv h ls (reaction_answered post c m a s)"
proof -
  let ?t = "reaction_answered post c m a s"
  have kept: "tickets_kept s ?t"
    by (simp add: reaction_answered_def tickets_kept_def Let_def split: sum.split)
  have "fv_posts (fs_view ?t) = fv_posts (fs_view s)
      \<or> (\<exists>n. fv_posts (fs_view ?t) = update_post (po_id post) (reacted post n) (fv_posts (fs_view s)))
      \<or> (\<exists>e. fv_posts (fs_view ?t) = update_post (po_id post) (reaction_failed post e) (fv_posts (fs_view s)))"
    by (cases a; cases "may_finish post c m s"; cases "fs_mounted s") (simp_all add: reaction_answered_def Let_def, blast+)
  then show ?thesis
    using feed_inv_same_posts [OF assms kept] feed_inv_reaction [OF assms kept] reaction_updates by blast
qed

lemma delete_answered_inv:
  assumes inv: "feed_inv h ls s"
  shows "feed_inv h ls (delete_answered lock post c m a s)"
proof -
  let ?fin = "\<lambda>t. if fs_mounted (release_delete lock (po_id post) t)
      then set_view (\<lambda>v. v\<lparr>fv_deletingIds := ids_delete (po_id post) (fv_deletingIds v)\<rparr>) (release_delete lock (po_id post) t)
      else release_delete lock (po_id post) t"
  have fin: "feed_inv h ls (?fin t)" if "feed_inv h ls t" for t
    using that by (rule feed_inv_same_posts) (auto simp: release_delete_def tickets_kept_def)
  have removed: "feed_inv h ls (set_view (\<lambda>v. v\<lparr>fv_posts := filter P (fv_posts v)\<rparr>) s)" for P
    using inv by (rule feed_inv_kept) (auto simp: tickets_kept_def elim: posts_ok_filter)
  have failed: "feed_inv h ls (alert x y (s\<lparr>fs_view := (fs_view s)\<lparr>fv_deleteUnknownIds := ids, fv_error := z\<rparr>\<rparr>))"
    for x y z ids
    using inv by (rule feed_inv_same_posts) (auto simp: tickets_kept_def alert_def)
  show ?thesis
    unfolding delete_answered_def Let_def
    by (rule fin) (simp only: inv loadFeed_inv removed failed if_True if_False split: sum.split if_split, simp)
qed

lemma feed_left_inv:
  assumes inv: "feed_inv h ls s"
  shows "feed_inv h ls (feed_left s)"
proof (cases "fs_effect s")
  case (Some u)
  have "gate_fresh (feed_left s)"
    using inv Some by (intro gate_fresh_next [of s]) (simp_all add: feed_left_def request_invalidate_def feed_inv_def)
  then show ?thesis using inv Some by (intro feed_inv_fresh) (simp_all add: feed_left_def feed_inv_def)
qed (use inv in \<open>simp add: feed_left_def\<close>)

lemma feed_entered_inv: "feed_inv h ls s \<Longrightarrow> feed_inv h ls (feed_entered s)"
  unfolding feed_entered_def
  by (intro loadFeed_inv, drule feed_left_inv, erule feed_inv_same_posts) (simp_all add: tickets_kept_def)

lemma feed_rendered_inv: "feed_inv h ls s \<Longrightarrow> feed_inv h ls (feed_rendered u b s)"
  by (auto simp: feed_inv_def feed_rendered_def tickets_bounded_def older_owned_def)

lemma feed_inv_init: "feed_inv h ls (feed_init u b)"
  by (simp add: feed_init_def feed_inv_def posts_ok_def tickets_bounded_def older_owned_def Let_def)

lemma feed_answer_inv:
  assumes inv: "feed_inv h ls s" and f: "f \<in> set (fs_flights s)" and l: "FeedAnswered f api \<in> set ls"
  shows "feed_inv h ls (feed_answer h api f (s\<lparr>fs_flights := remove1 f (fs_flights s)\<rparr>))"
proof -
  let ?s = "s\<lparr>fs_flights := remove1 f (fs_flights s)\<rparr>"
  have r: "feed_inv h ls ?s"
    using inv by (rule feed_inv_same_posts) (auto simp: tickets_kept_def dest: subsetD [OF set_remove1_subset])
  show ?thesis
  proof (cases f)
    case (LoadFlight t c m)
    then have "\<forall>c m k. OlderFlight t c m k \<notin> set (fs_flights ?s)" if "isLatest (jint t) (fs_gate ?s)"
      using that inv f by (auto simp: feed_inv_def older_owned_def isLatest_jint dest!: subsetD [OF set_remove1_subset])
    then show ?thesis
      using feed_loaded_inv [OF r] l LoadFlight by simp
  next
    case (OlderFlight t c m k)
    then have "fv_feedOwner (fs_view ?s) = Some (owner_of c m)" if "isLatest (jint t) (fs_gate ?s)"
      using that inv f by (auto simp: feed_inv_def older_owned_def isLatest_jint)
    then show ?thesis
      using older_loaded_inv [OF r] l OlderFlight by simp
  qed (use r reaction_answered_inv report_answered_inv delete_answered_inv in simp_all)
qed

lemma feed_step_inv:
  assumes "feed_next h l s = Some t" and inv: "feed_inv h ls s"
  shows "feed_inv h (ls @ [l]) t"
proof -
  have i: "feed_inv h (ls @ [l]) s" using inv by (rule feed_inv_more) auto
  have same: "feed_inv h (ls @ [l]) u" if "tickets_kept s u" "fv_posts (fs_view u) = fv_posts (fs_view s)" for u
    using i that by (rule feed_inv_same_posts)
  have closed: "feed_inv h (ls @ [l]) (s\<lparr>fs_confirming := cs\<rparr>)" for cs
    by (rule same) (auto simp: tickets_kept_def)
  have left: "feed_inv h (ls @ [l]) (s\<lparr>fs_focused := b\<rparr>)" for b
    by (rule same) (auto simp: tickets_kept_def)
  show ?thesis
  proof (cases l)
    case (FeedAnswered f api)
    then show ?thesis
      using assms(1) feed_answer_inv [OF i, of f api] by (simp split: if_splits)
  next
    case (DeleteCancelled p k u)
    then show ?thesis
      using assms(1) release_delete_inv [OF closed] by (auto split: if_splits)
  next
    case (DeleteConfirmed p k u)
    then show ?thesis
      using assms(1) deleteOwnedPost_inv [OF closed] by (auto split: if_splits)
  next
    case FeedBlurred
    then show ?thesis
      using assms(1) feed_left_inv [OF left] by (auto split: if_splits)
  qed (use assms(1) i in \<open>auto intro: loadFeed_inv loadMore_inv handleLike_inv handleReport_inv confirmDelete_inv
      feed_entered_inv feed_rendered_inv elim: feed_inv_same_posts simp: tickets_kept_def split: if_splits prod.splits\<close>)
qed

lemma feed_run_inv: "feed_run h (feed_init u b) ls s \<Longrightarrow> feed_inv h ls s"
  by (induction ls s rule: step_run.induct) (auto intro: feed_inv_init feed_step_inv)

lemma read_for_church:
  assumes "read_for h ls c m p"
  shows "post_ok h c (p\<lparr>po_isLiked := False, po_likesCount := 0\<rparr>)"
proof -
  obtain k api ps n q where "getFeed h api c (feed_page k) = Inr (ps, n)" and "q \<in> set ps" and same: "same_post p q"
    using assms unfolding read_for_def by blast
  then have "post_ok h c q" using feed_and_thread_are_own by (auto simp: page_ok_def)
  then show ?thesis
    using same by (cases p; cases q) (simp add: post_ok_def same_post_def)
qed

subsection \<open>Locks\<close>

fun report_key :: "nat \<Rightarrow> feed_flight \<Rightarrow> jsstring list" where
  "report_key k (ReportFlight lock p _ _ _) = (if lock = k then [po_id p] else [])"
| "report_key k _ = []"

fun delete_key :: "nat \<Rightarrow> feed_flight \<Rightarrow> jsstring list" where
  "delete_key k (DeleteFlight lock p _ _) = (if lock = k then [po_id p] else [])"
| "delete_key k _ = []"

fun react_key :: "feed_flight \<Rightarrow> jsstring list" where
  "react_key (ReactFlight p _ _) = [po_id p]"
| "react_key _ = []"

text \<open>The posts with a report awaited that took the lock \<open>k\<close>, with a deletion awaited or asked about, with a
  reaction awaited.\<close>

definition reporting :: "nat \<Rightarrow> feed_screen \<Rightarrow> jsstring list" where
  "reporting k s = concat (map (report_key k) (fs_flights s))"

definition deleting :: "nat \<Rightarrow> feed_screen \<Rightarrow> jsstring list" where
  "deleting k s = concat (map (delete_key k) (fs_flights s))
     @ map (po_id \<circ> fst) (filter (\<lambda>(p, lock, u). lock = k) (fs_confirming s))"

definition reacting :: "feed_screen \<Rightarrow> jsstring list" where
  "reacting s = concat (map react_key (fs_flights s))"

text \<open>\<open>due\<close> are the keys of a deletion whose answer is being handled.\<close>

definition locks_with :: "(nat \<Rightarrow> jsstring list) \<Rightarrow> feed_screen \<Rightarrow> bool" where
  "locks_with due s \<longleftrightarrow> (\<forall>k. guards (fs_reportLock s k) (reporting k s)) \<and> (\<forall>k. guards (fs_deleteLock s k) (deleting k s @ due k))
     \<and> (\<forall>k > fs_locks s. fs_reportLock s k = [] \<and> fs_deleteLock s k = [])
     \<and> (fs_locks s = 0 \<longrightarrow> guards (fs_reactionLock s 0) (reacting s))"

abbreviation locks_inv :: "feed_screen \<Rightarrow> bool" where
  "locks_inv \<equiv> locks_with (\<lambda>_. [])"

lemma locks_same:
  assumes "locks_with due s" and "fs_flights t = fs_flights s" and "fs_confirming t = fs_confirming s"
    and "fs_reportLock t = fs_reportLock s" and "fs_deleteLock t = fs_deleteLock s"
    and "fs_reactionLock t = fs_reactionLock s" and "fs_locks t = fs_locks s"
  shows "locks_with due t"
  using assms by (simp add: locks_with_def reporting_def deleting_def reacting_def)

lemma locks_await_other:
  "locks_with due s \<Longrightarrow> ticket_of f \<noteq> None \<Longrightarrow> locks_with due (await f s)"
  by (cases f) (auto simp: locks_with_def reporting_def deleting_def reacting_def await_def)

lemma locks_reset:
  assumes "locks_with due s"
  shows "locks_with due (feed_reset u s)"
proof -
  have "guards [] (reporting (Suc (fs_locks s)) s)" "guards [] (deleting (Suc (fs_locks s)) s @ due (Suc (fs_locks s)))"
    using assms unfolding locks_with_def by (metis lessI)+
  then show ?thesis
    using assms unfolding locks_with_def by (auto simp: feed_reset_def reporting_def deleting_def Let_def)
qed

lemma loadFeed_locks:
  assumes "locks_with due s"
  shows "locks_with due (loadFeed refresh s)"
proof -
  have loaded: "locks_with due (feed_loaded t c m (Inl e) u)" if "locks_with due u" for t c m e u
    using that by (rule locks_same) (simp_all add: feed_loaded_def Let_def)
  have set: "locks_with due (set_view f u)" if "locks_with due u" for f u
    using that by (rule locks_same) simp_all
  have gate: "locks_with due (s\<lparr>fs_gate := g\<rparr>)" for g
    using assms by (rule locks_same) simp_all
  show ?thesis
    unfolding loadFeed_def Let_def split_beta
    by (auto intro!: loaded locks_await_other set gate locks_reset split: option.split)
qed

lemma loadMore_locks:
  assumes "locks_with due s"
  shows "locks_with due (loadMore s)"
proof -
  have set: "locks_with due (set_view f u)" if "locks_with due u" for f u
    using that by (rule locks_same) simp_all
  have gate: "locks_with due (s\<lparr>fs_gate := g\<rparr>)" for g
    using assms by (rule locks_same) simp_all
  show ?thesis
    using assms unfolding loadMore_def Let_def split_beta
    by (auto intro!: locks_await_other set gate split: option.split)
qed

lemma keys_await [simp]:
  "reporting k (await f s) = reporting k s @ report_key k f" "reacting (await f s) = reacting s @ react_key f"
  by (simp_all add: reporting_def reacting_def await_def)

lemma handleLike_locks:
  assumes inv: "locks_inv s"
  shows "locks_inv (handleLike post s)"
proof -
  have keep: "locks_inv (s\<lparr>fs_reactionLock := (fs_reactionLock s)(fs_locks s := held)\<rparr>)"
    if "fs_locks s = 0 \<Longrightarrow> guards held (reacting s)" for held
    using inv that by (auto simp: locks_with_def reporting_def deleting_def reacting_def)
  have go: "locks_inv (await (ReactFlight post c m) (set_view f (s\<lparr>fs_reactionLock := (fs_reactionLock s)(fs_locks s := held)\<rparr>)))"
    if "fs_locks s = 0 \<Longrightarrow> guards held (reacting s @ [po_id post])" for held f c m
    using inv that by (auto simp: locks_with_def reporting_def deleting_def reacting_def await_def)
  show ?thesis
    using inv unfolding handleLike_def Let_def split_beta
    by (auto simp: locks_with_def [of _ s] intro!: keep go guards_acquire guards_refused split: option.split)
qed

lemma handleReport_locks:
  assumes inv: "locks_inv s"
  shows "locks_inv (handleReport s)"
proof -
  have keep: "locks_inv (s\<lparr>fs_reportLock := (fs_reportLock s)(fs_locks s := held)\<rparr>)"
    if "guards held (reporting (fs_locks s) s)" for held
    using inv that by (auto simp: locks_with_def reporting_def deleting_def reacting_def)
  have go: "locks_inv (await (ReportFlight (fs_locks s) post r c m) (set_view f (s\<lparr>fs_reportLock := (fs_reportLock s)(fs_locks s := held)\<rparr>)))"
    if "guards held (reporting (fs_locks s) s @ [po_id post])" for held f c m r post
    using inv that by (auto simp: locks_with_def reporting_def deleting_def reacting_def await_def)
  show ?thesis
    using inv unfolding handleReport_def Let_def split_beta
    by (auto simp: locks_with_def [of _ s] intro!: keep go guards_acquire guards_refused split: option.split)
qed

lemma confirmDelete_locks:
  assumes inv: "locks_inv s"
  shows "locks_inv (confirmDelete post s)"
proof -
  have go: "locks_inv (s\<lparr>fs_deleteLock := (fs_deleteLock s)(fs_locks s := held),
      fs_confirming := fs_confirming s @ [(post, fs_locks s, u)]\<rparr>)"
    if "guards held (deleting (fs_locks s) s @ [po_id post])" for held u
    using inv that by (auto simp: locks_with_def reporting_def deleting_def reacting_def)
  show ?thesis
    using inv unfolding confirmDelete_def Let_def split_beta
    by (auto simp: locks_with_def [of _ s] intro!: go guards_acquire)
qed

text \<open>The flight \<open>f\<close> of \<open>s\<close> is no longer awaited.\<close>

lemma keys_taken:
  assumes "f \<in> set (fs_flights s)" and "fs_flights t = remove1 f (fs_flights s)" and "fs_confirming t = fs_confirming s"
  shows "mset (reporting k s) = mset (report_key k f) + mset (reporting k t)"
    and "mset (deleting k s) = mset (delete_key k f) + mset (deleting k t)"
    and "mset (reacting s) = mset (react_key f) + mset (reacting t)"
  using mset_concat_remove1 [OF assms(1)] assms(2,3) by (simp_all add: reporting_def deleting_def reacting_def)

lemma reaction_answered_locks:
  assumes inv: "locks_inv s" and f: "ReactFlight post c m \<in> set (fs_flights s)" (is "?f \<in> _")
  shows "locks_inv (reaction_answered post c m a (s\<lparr>fs_flights := remove1 ?f (fs_flights s)\<rparr>))" (is "locks_inv ?t")
proof -
  have same: "fs_flights ?t = remove1 ?f (fs_flights s)" "fs_confirming ?t = fs_confirming s"
      "fs_reportLock ?t = fs_reportLock s" "fs_deleteLock ?t = fs_deleteLock s" "fs_locks ?t = fs_locks s"
      "fs_reactionLock ?t = (fs_reactionLock s)(fs_locks s := keyed_release (po_id post) (fs_reactionLock s (fs_locks s)))"
    by (simp_all add: reaction_answered_def Let_def split: sum.split)
  show ?thesis
    using inv same keys_taken [OF f same(1,2)] by (auto simp: locks_with_def intro: guards_release guards_reorder)
qed

lemma report_answered_locks:
  assumes inv: "locks_inv s" and f: "ReportFlight lock post r c m \<in> set (fs_flights s)" (is "?f \<in> _")
  shows "locks_inv (report_answered lock post c m a (s\<lparr>fs_flights := remove1 ?f (fs_flights s)\<rparr>))" (is "locks_inv ?t")
proof -
  have same: "fs_flights ?t = remove1 ?f (fs_flights s)" "fs_confirming ?t = fs_confirming s"
      "fs_reactionLock ?t = fs_reactionLock s" "fs_deleteLock ?t = fs_deleteLock s" "fs_locks ?t = fs_locks s"
      "fs_reportLock ?t = (fs_reportLock s)(lock := keyed_release (po_id post) (fs_reportLock s lock))"
    by (simp_all add: report_answered_def report_recorded_def alert_def Let_def split: sum.split)
  note keys = keys_taken [OF f same(1,2)]
  have "guards (fs_reportLock ?t k) (reporting k ?t)" for k
    using inv keys(1) [of k] unfolding same(6)
    by (cases "k = lock") (auto simp: locks_with_def intro: guards_release guards_reorder)
  moreover have "fs_reportLock ?t k = []" if "fs_locks s < k" for k
    using inv that unfolding same(6) by (auto simp: locks_with_def keyed_release_def)
  ultimately show ?thesis
    using inv same(2-5) keys(2,3) by (auto simp: locks_with_def intro: guards_reorder)
qed

lemma release_delete_locks:
  assumes "locks_with (\<lambda>k. if k = lock then [i] else []) s"
  shows "locks_inv (release_delete lock i s)" (is "locks_inv ?t")
proof -
  have same: "reporting k ?t = reporting k s" "deleting k ?t = deleting k s" "reacting ?t = reacting s" for k
    by (simp_all add: release_delete_def reporting_def deleting_def reacting_def)
  have "guards (fs_deleteLock ?t k) (deleting k s)" for k
    using assms by (cases "k = lock")
      (auto simp: locks_with_def release_delete_def intro!: guards_release [of _ "deleting lock s @ [i]"] split: if_splits)
  moreover have "fs_deleteLock ?t k = []" if "fs_locks s < k" for k
    using assms that by (auto simp: locks_with_def release_delete_def keyed_release_def)
  ultimately show ?thesis
    using assms same by (auto simp: locks_with_def release_delete_def)
qed

lemma locks_reorder:
  assumes "locks_with due s" and "\<And>k. mset (reporting k t) = mset (reporting k s)"
    and "\<And>k. mset (deleting k t @ due' k) = mset (deleting k s @ due k)" and "mset (reacting t) = mset (reacting s)"
    and "fs_reportLock t = fs_reportLock s" and "fs_deleteLock t = fs_deleteLock s"
    and "fs_reactionLock t = fs_reactionLock s" and "fs_locks t = fs_locks s"
  shows "locks_with due' t"
  using assms unfolding locks_with_def by (metis guards_reorder)

lemma locks_confirmed:
  assumes inv: "locks_inv s" and c: "(p, lock, u) \<in> set (fs_confirming s)"
  shows "locks_with (\<lambda>k. if k = lock then [po_id p] else []) (s\<lparr>fs_confirming := remove1 (p, lock, u) (fs_confirming s)\<rparr>)"
    (is "locks_with ?due ?t")
proof -
  let ?keys = "\<lambda>k cs. mset (map (po_id \<circ> fst) (filter (\<lambda>(p, lock, u). lock = k) cs))"
  have "?keys k cs = mset (?due k) + ?keys k (remove1 (p, lock, u) cs)" if "(p, lock, u) \<in> set cs" for k and cs :: "(Post \<times> nat \<times> screen_owner) list"
    using that by (induction cs) auto
  then show ?thesis
    using c by (intro locks_reorder [OF inv]) (simp_all add: deleting_def reporting_def reacting_def)
qed

lemma locks_delete_taken:
  assumes inv: "locks_inv s" and f: "DeleteFlight lock post c m \<in> set (fs_flights s)" (is "?f \<in> _")
  shows "locks_with (\<lambda>k. if k = lock then [po_id post] else []) (s\<lparr>fs_flights := remove1 ?f (fs_flights s)\<rparr>)"
    (is "locks_with ?due ?t")
  using keys_taken [OF f, of ?t] by (intro locks_reorder [OF inv]) simp_all

lemma locks_load_taken:
  assumes inv: "locks_inv s" and f: "f \<in> set (fs_flights s)" and "ticket_of f \<noteq> None"
  shows "locks_inv (s\<lparr>fs_flights := remove1 f (fs_flights s)\<rparr>)" (is "locks_inv ?t")
  using keys_taken [OF f, of ?t] assms(3) by (intro locks_reorder [OF inv]; cases f) simp_all

lemma delete_answered_locks:
  assumes inv: "locks_inv s" and f: "DeleteFlight lock post c m \<in> set (fs_flights s)" (is "?f \<in> _")
  shows "locks_inv (delete_answered lock post c m a (s\<lparr>fs_flights := remove1 ?f (fs_flights s)\<rparr>))"
proof -
  let ?s = "s\<lparr>fs_flights := remove1 ?f (fs_flights s)\<rparr>"
  let ?due = "\<lambda>k. if k = lock then [po_id post] else []"
  have set: "locks_with d (set_view f u)" if "locks_with d u" for d f u
    using that by (rule locks_same) simp_all
  have say: "locks_with d (alert x y u)" if "locks_with d u" for d x y u
    using that by (rule locks_same) (simp_all add: alert_def)
  have taken: "locks_with ?due ?s" using inv f by (rule locks_delete_taken)
  show ?thesis
    unfolding delete_answered_def Let_def
    by (auto intro!: set release_delete_locks say loadFeed_locks taken split: sum.split)
qed

lemma deleteOwnedPost_locks:
  assumes "locks_with (\<lambda>k. if k = lock then [po_id post] else []) s"
  shows "locks_inv (deleteOwnedPost post lock user s)"
proof -
  have "locks_inv (await (DeleteFlight lock post c m) (set_view f s))" for c m f
    by (intro locks_reorder [OF assms]) (simp_all add: reporting_def deleting_def reacting_def await_def)
  then show ?thesis
    using release_delete_locks [OF assms] by (auto simp: deleteOwnedPost_def split: option.split)
qed

lemma feed_step_locks:
  assumes step: "feed_next h l s = Some t" and inv: "locks_inv s"
  shows "locks_inv t"
proof -
  have same: "locks_inv u" if "fs_flights u = fs_flights s" "fs_confirming u = fs_confirming s"
      "fs_reportLock u = fs_reportLock s" "fs_deleteLock u = fs_deleteLock s"
      "fs_reactionLock u = fs_reactionLock s" "fs_locks u = fs_locks s" for u
    using inv that by (rule locks_same)
  show ?thesis
  proof (cases l)
    case (FeedAnswered f api)
    show ?thesis
    proof (cases "ticket_of f")
      case None
      then show ?thesis
        using step inv FeedAnswered reaction_answered_locks report_answered_locks delete_answered_locks
        by (cases f) (auto split: if_splits)
    next
      case (Some n)
      have quiet: "locks_inv (feed_loaded n' c m a u)" "locks_inv (older_loaded n' c' m' k a u)" if "locks_inv u" for n' c m c' m' k a u
        using that by (auto intro: locks_same simp: feed_loaded_def older_loaded_def Let_def split: sum.split)
      show ?thesis
        using step FeedAnswered Some locks_load_taken [OF inv, of f]
        by (cases f) (auto simp: quiet split: if_splits)
    qed
  next
    case (DeleteCancelled p k u)
    then show ?thesis
      using step release_delete_locks [OF locks_confirmed [OF inv]] by (auto split: if_splits)
  next
    case (DeleteConfirmed p k u)
    then show ?thesis
      using step deleteOwnedPost_locks [OF locks_confirmed [OF inv]] by (auto split: if_splits)
  next
    case FocusEffect
    then show ?thesis
      using step by (auto simp: feed_entered_def feed_left_def intro!: loadFeed_locks same split: if_splits)
  qed (use step inv in \<open>auto simp: feed_left_def feed_rendered_def split: if_splits prod.splits
      intro: loadFeed_locks loadMore_locks handleLike_locks handleReport_locks confirmDelete_locks same\<close>)
qed

interpretation feed: step_invariant "feed_next h" locks_inv for h
  by unfold_locales (rule feed_step_locks)

subsection \<open>A reaction answered while the screen is away\<close>

text \<open>The button of a post is busy although no reaction is awaited.\<close>

definition stuck :: "jsstring \<Rightarrow> feed_screen \<Rightarrow> bool" where
  "stuck i s \<longleftrightarrow> i \<in> set (fv_likingIds (fs_view s)) \<and> i \<in> set (fv_likingIds (fs_drawn s)) \<and> i \<notin> set (reacting s)"

lemma stuck_disabled: "stuck (po_id p) s \<Longrightarrow> like_disabled s p"
  by (simp add: stuck_def like_disabled_def)

lemma stuck_same:
  "stuck i s \<Longrightarrow> fv_likingIds (fs_view t) = fv_likingIds (fs_view s) \<Longrightarrow> fs_drawn t = fs_drawn s
     \<Longrightarrow> set (reacting t) \<subseteq> set (reacting s) \<Longrightarrow> stuck i t"
  by (auto simp: stuck_def)

lemma reacting_view [simp]: "reacting (set_view f s) = reacting s"
  by (simp add: reacting_def)

lemma loadFeed_stuck: "stuck i s \<Longrightarrow> fs_locks (loadFeed b s) = fs_locks s \<Longrightarrow> stuck i (loadFeed b s)"
  by (erule stuck_same)
     (auto simp: loadFeed_def feed_loaded_def feed_reset_def await_def reacting_def Let_def split_beta split: option.splits if_splits)

lemma loadFeed_locks_le: "fs_locks s = n \<Longrightarrow> n \<le> fs_locks (loadFeed b s)"
  by (auto simp add: loadFeed_def feed_loaded_def feed_reset_def await_def Let_def split_beta split: option.split)

lemma reacting_taken: "set (reacting (s\<lparr>fs_flights := remove1 f (fs_flights s)\<rparr>)) \<subseteq> set (reacting s)"
  unfolding reacting_def using set_remove1_subset [of f "fs_flights s"] by auto

lemma stuck_taken: "stuck i s \<Longrightarrow> stuck i (s\<lparr>fs_flights := remove1 f (fs_flights s)\<rparr>)"
  by (erule stuck_same) (simp_all add: reacting_taken)

lemma loaded_stuck:
  "stuck i s \<Longrightarrow> stuck i (feed_loaded n c m a s)" "stuck i s \<Longrightarrow> stuck i (older_loaded n' c' m' k a s)"
  by (erule stuck_same, auto simp: feed_loaded_def older_loaded_def reacting_def Let_def split: sum.split)+

lemma reaction_answered_stuck:
  assumes "stuck i s" and "i \<noteq> po_id post"
  shows "stuck i (reaction_answered post c m a s)"
  using assms by (auto simp: stuck_def reaction_answered_def reacting_def Let_def split: sum.split)

lemma report_answered_stuck: "stuck i s \<Longrightarrow> stuck i (report_answered lock post c m a s)"
  by (erule stuck_same)
     (auto simp: report_answered_def report_recorded_def alert_def reacting_def Let_def split: sum.split)

lemma delete_answered_stuck:
  assumes "stuck i s" and "fs_locks (delete_answered lock post c m a s) = fs_locks s"
  shows "stuck i (delete_answered lock post c m a s)"
proof -
  have fin: "stuck i (if b then set_view (\<lambda>v. v\<lparr>fv_deletingIds := f v\<rparr>) (release_delete lock k u) else release_delete lock k u)"
    if "stuck i u" for b f k u
    using that by (auto simp: stuck_def release_delete_def reacting_def)
  have removed: "stuck i (set_view (\<lambda>v. v\<lparr>fv_posts := f v\<rparr>) s)" for f
    using assms(1) by (simp add: stuck_def)
  have failed: "stuck i (alert x y (s\<lparr>fs_view := (fs_view s)\<lparr>fv_deleteUnknownIds := ids, fv_error := z\<rparr>\<rparr>))" for x y z ids
    using assms(1) by (simp add: stuck_def alert_def reacting_def)
  have refused: "stuck i (alert x y (set_view (\<lambda>v. v\<lparr>fv_error := z\<rparr>) s))" for x y z
    using assms(1) by (simp add: stuck_def alert_def reacting_def)
  have "fs_locks (loadFeed True (set_view (\<lambda>v. v\<lparr>fv_posts := filter (\<lambda>item. po_id item \<noteq> po_id post) (fv_posts v)\<rparr>) s)) = fs_locks s"
    if "may_finish post c m s" "a = Inr ()"
    using assms(2) that by (simp add: delete_answered_def release_delete_def Let_def split: if_splits)
  then show ?thesis
    unfolding delete_answered_def Let_def
    by (intro fin) (auto intro: assms(1) failed refused loadFeed_stuck [OF removed] split: sum.split)
qed

lemma feed_step_locks_le: "feed_next h l s = Some t \<Longrightarrow> fs_locks s \<le> fs_locks t"
proof (induction h l s rule: feed_next.induct)
  case (5 h f api s)
  then show ?case
    by (cases f) (auto simp: feed_loaded_def older_loaded_def reaction_answered_def report_answered_def report_recorded_def
        delete_answered_def release_delete_def alert_def Let_def intro!: loadFeed_locks_le
        split: if_splits sum.splits)
qed (auto simp: feed_left_def feed_rendered_def feed_entered_def loadMore_def handleLike_def handleReport_def
    confirmDelete_def deleteOwnedPost_def release_delete_def await_def Let_def split_beta
    intro!: loadFeed_locks_le split: if_splits option.splits)

lemma feed_step_stuck:
  assumes step: "feed_next h l s = Some t" and st: "stuck i s" and locks: "fs_locks t = fs_locks s"
  shows "stuck i t"
proof (cases l)
  case (FeedAnswered f api)
  let ?s = "s\<lparr>fs_flights := remove1 f (fs_flights s)\<rparr>"
  have f: "f \<in> set (fs_flights s)" and t: "t = feed_answer h api f ?s"
    using step FeedAnswered by (auto split: if_splits)
  have "stuck i ?s" using st by (rule stuck_taken)
  then show ?thesis
  proof (cases f)
    case (ReactFlight post c m)
    then have "po_id post \<in> set (reacting s)"
      using f by (auto simp: reacting_def intro!: bexI [of _ f])
    then show ?thesis
      using \<open>stuck i ?s\<close> st ReactFlight t by (auto simp: stuck_def [of i s] intro!: reaction_answered_stuck)
  qed (use t locks \<open>stuck i ?s\<close> in \<open>auto intro!: loaded_stuck report_answered_stuck delete_answered_stuck\<close>)
next
  case (LikePressed post)
  then have "t = handleLike post s" and "po_id post \<noteq> i"
    using step st by (auto simp: like_disabled_def stuck_def split: if_splits)
  then show ?thesis
    using st by (auto simp: handleLike_def stuck_def await_def reacting_def Let_def split_beta split: option.split)
next
  case FocusEffect
  then have t: "t = loadFeed False ((feed_left s)\<lparr>fs_mounted := True, fs_effect := Some (fs_active s)\<rparr>)"
    using step by (simp add: feed_entered_def split: if_splits)
  moreover have "fs_locks ((feed_left s)\<lparr>fs_mounted := True, fs_effect := Some (fs_active s)\<rparr>) = fs_locks s"
      "stuck i ((feed_left s)\<lparr>fs_mounted := True, fs_effect := Some (fs_active s)\<rparr>)"
    using st by (simp_all add: feed_left_def stuck_def reacting_def)
  ultimately show ?thesis using locks loadFeed_stuck by metis
next
  case LoadMorePressed
  then show ?thesis
    using step st by (auto simp: stuck_def loadMore_def await_def reacting_def Let_def split_beta split: if_splits option.splits)
next
  case ReportSubmitted
  then show ?thesis
    using step st by (auto simp: stuck_def handleReport_def await_def reacting_def Let_def split_beta split: if_splits option.splits)
next
  case (DeleteConfirmed post lock u)
  then show ?thesis
    using step st by (auto simp: stuck_def deleteOwnedPost_def release_delete_def await_def reacting_def split: if_splits option.splits)
next
  case FeedPulled
  then show ?thesis using step st locks by (auto intro: loadFeed_stuck split: if_splits)
next
  case BannerPressed
  then show ?thesis using step st locks by (auto intro: loadFeed_stuck split: if_splits prod.splits)
next
  case EmptyStatePressed
  then show ?thesis using step st locks by (auto intro: loadFeed_stuck split: if_splits)
qed (use step st in \<open>auto simp: stuck_def reacting_def feed_left_def feed_rendered_def confirmDelete_def release_delete_def
    Let_def split_beta split: if_splits\<close>)

text \<open>The button stays busy until the feed is loaded for another member.\<close>

lemma stuck_forever:
  assumes "feed_run h s ls t" and "stuck i s" and "fs_locks t = fs_locks s"
  shows "stuck i t"
proof -
  have "fs_locks s \<le> fs_locks t \<and> (fs_locks t = fs_locks s \<longrightarrow> stuck i t)"
    using assms(1)
  proof (induction rule: step_run.induct)
    case (further ls t l u)
    then show ?case using feed_step_locks_le [of h l t u] feed_step_stuck [of h l t u i] by auto
  qed (use assms(2) in simp)
  with assms(3) show ?thesis by simp
qed

section \<open>Properties\<close>

text \<open>C12: a member only ever sees posts of the own church that were read for that member. In every run of the screen,
  whatever the order of taps, renders, focus changes and answers and whichever members sign in meanwhile, a post
  on the screen came in an answer to a feed request of the member and the church signed in, is a post of that
  church, unchanged but for the reaction, and no post is shown twice.\<close>

theorem feed_is_own:
  assumes "feed_run h (feed_init user offline) ls s" and "p \<in> set (visiblePosts s)"
  shows "\<exists>c m. fs_active s = owner_of c m \<and> read_for h ls c m p \<and> po_churchId p = c
     \<and> distinct (map po_id (visiblePosts s))"
proof -
  have ok: "posts_ok h ls (fs_drawn s)" using feed_run_inv [OF assms(1)] by (simp add: feed_inv_def)
  obtain c m where owner: "fv_feedOwner (fs_drawn s) = Some (owner_of c m)" "fs_active s = owner_of c m"
    using assms(2) by (auto simp: visiblePosts_def ownsFeed_def feed_belongs_owner split: if_splits)
  then have "read_for h ls c m p" and "distinct (map po_id (visiblePosts s))"
    using ok assms(2) by (auto simp: posts_ok_def visiblePosts_def split: if_splits)
  moreover from this(1) have "po_churchId p = c" using read_for_church [of h ls c m p] by (simp add: post_ok_def)
  ultimately show ?thesis using owner by blast
qed

text \<open>C18: quick taps never send a request twice. In every run no post has two reports awaited, nor two deletions
  awaited or asked about, under the locks in use, and until the feed is taken over by another member no post has
  two reactions awaited.\<close>

theorem one_request_per_post:
  assumes "feed_run h (feed_init user offline) ls s"
  shows "distinct (reporting k s) \<and> distinct (deleting k s) \<and> (fs_locks s = 0 \<longrightarrow> distinct (reacting s))"
proof -
  have "locks_inv (feed_init user offline)"
    by (simp add: locks_with_def feed_init_def reporting_def deleting_def reacting_def Let_def)
  with assms have "locks_inv s" by (rule feed.run_kept)
  then show ?thesis
    using guards_distinct by (auto simp: locks_with_def)
qed

section \<open>Witnesses\<close>

definition feed_post :: jsval where
  "feed_post = JObj [(''id'', JStr (js ''p1'')), (''churchId'', JStr (js ''c1'')),
     (''content'', JStr (js ''Praise'')), (''authorId'', JStr (js ''m1'')), (''authorName'', JStr (js ''Esi'')),
     (''type'', JStr (js ''testimony'')), (''likesCount'', jint 2), (''commentsCount'', jint 0),
     (''isLikedByMe'', JBool False), (''createdAt'', JStr (js ''2026''))]"

definition feed_gateway :: api where
  "feed_gateway r = (if rq_method r = GET then Inr (envelope (JObj [(''posts'', JArr [feed_post]), (''total'', jint 1)]))
     else Inl (AxiosError None))"

definition first_post :: Post where
  "first_post = \<lparr>po_id = js ''p1'', po_churchId = js ''c1'', po_content = js ''Praise'', po_authorId = js ''m1'',
     po_authorName = js ''Esi'', po_authorAvatar = None, po_imageUrl = None, po_type = Testimony,
     po_likesCount = 2, po_commentsCount = 0, po_isLiked = False, po_reactionStatusKnown = True,
     po_createdAt = js ''2026''\<rparr>"

abbreviation esi :: screen_owner where
  "esi \<equiv> owner_of (js ''c1'') (js ''m1'')"

definition opened :: "feed_label list" where
  "opened = [FocusEffect, FeedRendered esi False,
     FeedAnswered (LoadFlight 1 (js ''c1'') (js ''m1'')) feed_gateway, FeedRendered esi False]"

lemma opened_shows:
  "map_option (\<lambda>s. (visiblePosts s, list_shown s, fs_locks s)) (run_steps (feed_next media_host) opened (feed_init esi False))
     = Some ([first_post], True, 0)"
  by code_simp

lemma opened_run: "\<exists>s. feed_run media_host (feed_init esi False) opened s \<and> visiblePosts s = [first_post] \<and> fs_locks s = 0"
  using opened_shows by (auto simp: step_run_iff)

theorem feed_is_own_witness:
  "\<exists>s. feed_run media_host (feed_init esi False) opened s \<and> first_post \<in> set (visiblePosts s)
     \<and> (\<exists>c m. fs_active s = owner_of c m \<and> read_for media_host opened c m first_post)"
proof -
  obtain s where run: "feed_run media_host (feed_init esi False) opened s" and shown: "first_post \<in> set (visiblePosts s)"
    using opened_run by auto
  from feed_is_own [OF this] show ?thesis using run shown by blast
qed

text \<open>Two taps on the reaction before the next render send one request.\<close>

definition tapped_twice :: "feed_label list" where
  "tapped_twice = opened @ [LikePressed first_post, LikePressed first_post]"

theorem one_request_per_post_witness:
  "\<exists>s. feed_run media_host (feed_init esi False) tapped_twice s \<and> reacting s = [js ''p1''] \<and> distinct (reacting s)"
proof -
  have "map_option (\<lambda>s. (reacting s, fs_locks s)) (run_steps (feed_next media_host) tapped_twice (feed_init esi False))
      = Some ([js ''p1''], 0)"
    by code_simp
  then obtain s where "feed_run media_host (feed_init esi False) tapped_twice s" and "reacting s = [js ''p1'']"
    by (auto simp: step_run_iff)
  with one_request_per_post [OF this(1)] show ?thesis by auto
qed

text \<open>A reaction that is answered while another screen is in front leaves its button busy: coming back, loading
  the feed and drawing it again does not free it, and nothing else does before the locks are replaced
  (lemma \<open>stuck_forever\<close>).\<close>

lemma reaction_answered_away_is_stuck:
  "map_option (\<lambda>s. (stuck (js ''p1'') s, list_shown s, like_disabled s first_post, fs_locks s))
     (run_steps (feed_next media_host) (opened @ [LikePressed first_post, FeedRendered esi False, FeedBlurred,
        FeedAnswered (ReactFlight first_post (js ''c1'') (js ''m1'')) (\<lambda>_. Inr JNull), FeedFocused, FocusEffect,
        FeedAnswered (LoadFlight 3 (js ''c1'') (js ''m1'')) feed_gateway, FeedRendered esi False])
      (feed_init esi False)) = Some (True, True, True, 0)"
  by code_simp

text \<open>A deletion whose outcome is unknown is offered again after the answer to a refresh that began before it.\<close>

lemma older_refresh_forgets_unknown_deletion:
  "map_option (\<lambda>s. (visiblePosts s, delete_disabled s first_post))
     (run_steps (feed_next media_host) (opened @ [FeedPulled, FeedRendered esi False, DeletePressed first_post,
        DeleteConfirmed first_post 0 esi, FeedAnswered (DeleteFlight 0 first_post (js ''c1'') (js ''m1'')) feed_gateway,
        FeedRendered esi False, FeedAnswered (LoadFlight 2 (js ''c1'') (js ''m1'')) feed_gateway, FeedRendered esi False])
      (feed_init esi False)) = Some ([first_post], False)"
  by code_simp

text \<open>The answer to a reaction of the member before releases the lock of the member now: two reactions to one post
  are awaited together.\<close>

definition ama :: screen_owner where
  "ama = owner_of (js ''c1'') (js ''m2'')"

lemma older_reaction_releases_newer_lock:
  "map_option (\<lambda>s. (reacting s, fs_active s = ama))
     (run_steps (feed_next media_host) (opened @ [LikePressed first_post, FeedRendered ama False, FocusEffect,
        FeedAnswered (LoadFlight 3 (js ''c1'') (js ''m2'')) feed_gateway, FeedRendered ama False, LikePressed first_post,
        FeedAnswered (ReactFlight first_post (js ''c1'') (js ''m1'')) (\<lambda>_. Inr JNull), LikePressed first_post])
      (feed_init esi False)) = Some ([js ''p1'', js ''p1''], True)"
  by code_simp

text \<open>The question before a deletion compares the feed with the member signed in and not with the member who was
  asked: answered after another member of the church signed in, it sends the deletion.\<close>

lemma deletion_confirmed_by_next_member:
  "map_option (\<lambda>s. (deleting 0 s, fs_confirming s, fs_active s = ama))
     (run_steps (feed_next media_host) (opened @ [DeletePressed first_post, FeedRendered ama False, FocusEffect,
        FeedAnswered (LoadFlight 3 (js ''c1'') (js ''m2'')) feed_gateway, FeedRendered ama False,
        DeleteConfirmed first_post 0 esi])
      (feed_init esi False)) = Some ([js ''p1''], [], True)"
  by code_simp

lemma report_options_are_reasons: "map fst REPORT_OPTIONS = REPORT_REASONS"
  by code_simp

end
