(* ===== verification/Prayer.thy ===== *)
theory Prayer
  imports Spiritual Social AuthForms Money ScreenState
begin

text \<open>
  The prayer wall (\<open>screens/spiritual/PrayerScreen.tsx\<close>): paging the requests, sharing one, and praying for one.
  As in the feed, \<open>py_view\<close> holds what the setters produced and \<open>py_drawn\<close> what the last render drew and its
  handlers close over; the effects of a render run some time after it.
\<close>

section \<open>What the screen decides\<close>

definition ownsPrayerMutationContext :: "screen_owner \<Rightarrow> jsstring \<Rightarrow> jsstring \<Rightarrow> bool" where
  "ownsPrayerMutationContext active startedChurchId startedMemberId \<longleftrightarrow>
     so_churchId active = Some startedChurchId \<and> so_memberId active = Some startedMemberId"

definition prayerMutationCompletionBelongsToContext :: "bool \<Rightarrow> screen_owner \<Rightarrow> jsstring \<Rightarrow> jsstring \<Rightarrow> bool" where
  "prayerMutationCompletionBelongsToContext mounted active startedChurchId startedMemberId \<longleftrightarrow>
     mounted \<and> ownsPrayerMutationContext active startedChurchId startedMemberId"

definition prayerRefreshOwnsReconciliation :: "int \<Rightarrow> int \<Rightarrow> bool" where
  "prayerRefreshOwnsReconciliation startedRevision activeRevision \<longleftrightarrow> startedRevision = activeRevision"

datatype prayer_mutation = CreatePrayer | Pray

definition prayerMutationFailureAlert :: "prayer_mutation \<Rightarrow> js_error \<Rightarrow> failure_copy" where
  "prayerMutationFailureAlert kind e =
     (if isAmbiguousMutationFailure e then
        (if kind = CreatePrayer then
           \<lparr>fc_outcomeUnknown = True, fc_title = js ''Request status unknown'',
            fc_message = js ''We could not confirm whether your prayer request was shared. Refresh the prayer wall before submitting it again.''\<rparr>
         else
           \<lparr>fc_outcomeUnknown = True, fc_title = js ''Prayer status unknown'',
            fc_message = js ''We could not confirm whether your prayer was counted. Refresh the prayer wall before pressing Pray again.''\<rparr>)
      else if kind = CreatePrayer then
        \<lparr>fc_outcomeUnknown = False, fc_title = js ''Request not shared'',
         fc_message = apiErrorMessage e (js ''Check your connection and try again.'')\<rparr>
      else
        \<lparr>fc_outcomeUnknown = False, fc_title = js ''Not saved'',
         fc_message = js ''We could not record that prayer. Try again.''\<rparr>)"

text \<open>\<open>pa_refreshes\<close>: the button refreshes the wall instead of sending something.\<close>

record prayer_action =
  pa_refreshes :: bool
  pa_label :: jsstring
  pa_disabled :: bool
  pa_hint :: "jsstring option"

definition prayerRequestActionState ::
    "jsstring \<Rightarrow> jsstring \<Rightarrow> bool \<Rightarrow> bool \<Rightarrow> bool \<Rightarrow> bool \<Rightarrow> prayer_action" where
  "prayerRequestActionState title description offline busy outcomeUnknown identityReady =
     (let draftComplete = (trim title \<noteq> [] \<and> trim description \<noteq> []) in
      \<lparr>pa_refreshes = outcomeUnknown,
       pa_label = (if outcomeUnknown then
           (if busy then ellipsis ''Refreshing prayer wall''
            else if offline then js ''Reconnect to refresh prayer wall'' else js ''Refresh prayer wall to continue'')
         else if busy then ellipsis ''Sharing prayer request''
         else if offline then js ''Reconnect to share your request''
         else if \<not> identityReady then js ''Sign in again to share''
         else if \<not> draftComplete then js ''Complete title and description'' else js ''Submit prayer request''),
       pa_disabled = (if outcomeUnknown then offline \<or> busy else offline \<or> busy \<or> \<not> identityReady \<or> \<not> draftComplete),
       pa_hint = (if outcomeUnknown then
           Some (if offline then js ''Reconnect to confirm whether your request was shared.''
             else js ''Refreshes the prayer wall before another request can be submitted.'')
         else if offline then Some (js ''Reconnect to share this prayer request.'')
         else if \<not> identityReady then Some (js ''Your member session is incomplete. Sign in again.'')
         else if \<not> draftComplete then Some (js ''Add both a title and description.'') else None)\<rparr>)"

definition prayActionState :: "int \<Rightarrow> bool \<Rightarrow> bool \<Rightarrow> bool \<Rightarrow> bool \<Rightarrow> prayer_action" where
  "prayActionState praying offline busy outcomeUnknown refreshing =
     \<lparr>pa_refreshes = outcomeUnknown,
      pa_label = (if outcomeUnknown then
          (if refreshing then ellipsis ''Refreshing prayer status''
           else if offline then js ''Reconnect to refresh prayer status'' else js ''Refresh prayer status'')
        else if busy then ellipsis ''Recording your prayer''
        else if offline then js ''Reconnect to pray'' else js ''Pray ('' @ dec (nat praying) @ js '')''),
      pa_disabled = (if outcomeUnknown then offline \<or> refreshing else offline \<or> busy \<or> refreshing),
      pa_hint = (if outcomeUnknown then
          Some (if offline then js ''Reconnect to confirm whether your prayer was counted.''
            else js ''Refreshes the prayer wall before praying again.'')
        else if offline then Some (js ''Reconnect to record that you prayed.'') else None)\<rparr>"

section \<open>The state\<close>

record prayer_view =
  pw_showForm :: bool
  pw_title :: jsstring
  pw_description :: jsstring
  pw_isAnonymous :: bool
  pw_isSubmitting :: bool
  pw_submitOutcomeUnknown :: bool
  pw_requests :: "PrayerRequest list"
  pw_isLoading :: bool
  pw_isRefreshing :: bool
  pw_isLoadingMore :: bool
  pw_loadedPage :: int
  pw_totalRequests :: int
  pw_pagingNeedsRefresh :: bool
  pw_loadError :: jsstring
  pw_prayingIds :: "jsstring list"
  pw_prayUnknownIds :: "jsstring list"

text \<open>A request awaited: a page with its ticket, the revision it started at, its church and its number; a request
  being shared and a prayer, with the lock they took.\<close>

datatype prayer_flight =
    WallFlight int int jsstring int
  | CreateFlight nat jsval jsstring jsstring
  | PrayFlight nat jsstring int jsstring jsstring

text \<open>\<open>py_effect\<close> is the identity the effects last ran for; \<open>py_locks\<close> numbers the locks in use.
  \<open>submitOutcomeUnknownRef\<close> is set wherever the state is set and again at each render: it is the value in the view.\<close>

record prayer_screen =
  py_active :: screen_owner
  py_offline :: bool
  py_mounted :: bool
  py_effect :: "screen_owner option"
  py_previous :: screen_owner
  py_view :: prayer_view
  py_drawn :: prayer_view
  py_gate :: int
  py_revision :: int
  py_locks :: nat
  py_submissionLock :: "nat \<Rightarrow> bool"
  py_prayerLock :: "nat \<Rightarrow> jsstring list"
  py_flights :: "prayer_flight list"
  py_alerts :: "(jsstring \<times> jsstring) list"

abbreviation set_wall :: "(prayer_view \<Rightarrow> prayer_view) \<Rightarrow> prayer_screen \<Rightarrow> prayer_screen" where
  "set_wall f s \<equiv> s\<lparr>py_view := f (py_view s)\<rparr>"

definition wall_await :: "prayer_flight \<Rightarrow> prayer_screen \<Rightarrow> prayer_screen" where
  "wall_await f s = s\<lparr>py_flights := py_flights s @ [f]\<rparr>"

definition wall_alert :: "jsstring \<Rightarrow> jsstring \<Rightarrow> prayer_screen \<Rightarrow> prayer_screen" where
  "wall_alert title message s = s\<lparr>py_alerts := py_alerts s @ [(title, message)]\<rparr>"

definition PRAYER_PAGE_SIZE :: int where
  "PRAYER_PAGE_SIZE = 25"

definition MAX_PRAYER_DESCRIPTION_LENGTH :: nat where
  "MAX_PRAYER_DESCRIPTION_LENGTH = 2000"

section \<open>The effects of a change of identity\<close>

definition prayer_reset :: "prayer_screen \<Rightarrow> prayer_screen" where
  "prayer_reset s =
     (if so_churchId (py_previous s) = so_churchId (py_active s) \<and> so_memberId (py_previous s) = so_memberId (py_active s)
      then s
      else
        let lock = py_locks s + 1 in
        s\<lparr>py_gate := request_invalidate (py_gate s),
          py_view := (py_view s)\<lparr>pw_requests := [], pw_loadedPage := 0, pw_totalRequests := 0,
            pw_pagingNeedsRefresh := False, pw_title := [], pw_description := [], pw_isAnonymous := False,
            pw_showForm := False, pw_loadError := [], pw_prayingIds := [], pw_prayUnknownIds := [],
            pw_isSubmitting := False, pw_submitOutcomeUnknown := False\<rparr>,
          py_revision := next_revision (py_revision s),
          py_locks := lock,
          py_submissionLock := (py_submissionLock s)(lock := False),
          py_prayerLock := (py_prayerLock s)(lock := []),
          py_previous := py_active s\<rparr>)"

section \<open>Loading\<close>

definition wall_page :: "int \<Rightarrow> page_params" where
  "wall_page n = \<lparr>pp_page = jint n, pp_limit = jint PRAYER_PAGE_SIZE\<rparr>"

text \<open>What a newest page that was loaded settles, when no outcome became unknown since it was asked for.\<close>

definition wall_reconciled :: "prayer_view \<Rightarrow> prayer_view" where
  "wall_reconciled v =
     (let v1 = v\<lparr>pw_prayUnknownIds := []\<rparr>;
          v2 = (if pw_submitOutcomeUnknown v then v1\<lparr>pw_title := [], pw_description := [], pw_isAnonymous := False,
              pw_showForm := False\<rparr> else v1)
      in v2\<lparr>pw_submitOutcomeUnknown := False\<rparr>)"

definition wall_loaded ::
    "int \<Rightarrow> int \<Rightarrow> int \<Rightarrow> js_error + PrayerRequest list \<times> int \<Rightarrow> prayer_screen \<Rightarrow> prayer_screen" where
  "wall_loaded ticket startedRevision page answer s =
     (if \<not> isLatest (jint ticket) (py_gate s) then s
      else
        let s1 = (case answer of
            Inr (requests, tot) \<Rightarrow>
              (let s2 = set_wall (\<lambda>v. v\<lparr>pw_requests := (if page = 1 then requests
                    else appendUniquePageById pr_id (pw_requests v) requests),
                    pw_loadedPage := page, pw_totalRequests := tot\<rparr>) s
               in if page \<noteq> 1 then s2
                 else
                   let s3 = set_wall (\<lambda>v. v\<lparr>pw_pagingNeedsRefresh := False\<rparr>) s2
                   in if prayerRefreshOwnsReconciliation startedRevision (py_revision s3)
                     then set_wall wall_reconciled s3 else s3)
          | Inl cause \<Rightarrow> set_wall (\<lambda>v. v\<lparr>pw_loadError :=
              connectivityErrorMessage cause (js ''Prayer requests are unavailable right now.'')\<rparr>) s)
        in set_wall (\<lambda>v. v\<lparr>pw_isLoading := False, pw_isRefreshing := False, pw_isLoadingMore := False\<rparr>) s1)"

definition loadRequests :: "bool \<Rightarrow> int \<Rightarrow> prayer_screen \<Rightarrow> prayer_screen" where
  "loadRequests refresh page s =
     (let (request, gate) = request_begin (py_gate s);
          s1 = s\<lparr>py_gate := gate\<rparr>;
          startedRevision = py_revision s1;
          s2 = set_wall (\<lambda>v. if 1 < page then v\<lparr>pw_isLoadingMore := True\<rparr>
                 else if refresh then v\<lparr>pw_isRefreshing := True\<rparr> else v\<lparr>pw_isLoading := True\<rparr>) s1;
          s3 = set_wall (\<lambda>v. v\<lparr>pw_loadError := []\<rparr>) s2
      in case so_churchId (py_active s3) of
           Some (c # cs) \<Rightarrow> wall_await (WallFlight request startedRevision (c # cs) page) s3
         | _ \<Rightarrow> wall_loaded request startedRevision page (Inl (throw ''No church selected'')) s3)"

text \<open>The effects after a render: the clean-up of the load when the church is another, the reset, the load. The
  flag of the mounting is set once.\<close>

definition prayer_effects :: "prayer_screen \<Rightarrow> prayer_screen" where
  "prayer_effects s =
     (let reload = (map_option so_churchId (py_effect s) \<noteq> Some (so_churchId (py_active s)));
          s1 = (if py_effect s \<noteq> None \<and> reload then s\<lparr>py_gate := request_invalidate (py_gate s)\<rparr> else s);
          s2 = prayer_reset (s1\<lparr>py_effect := Some (py_active s)\<rparr>)
      in if reload then loadRequests False 1 s2 else s2)"

section \<open>Sharing and praying\<close>

definition ownsActiveContext :: "jsstring \<Rightarrow> jsstring \<Rightarrow> prayer_screen \<Rightarrow> bool" where
  "ownsActiveContext churchId memberId s \<longleftrightarrow>
     prayerMutationCompletionBelongsToContext (py_mounted s) (py_active s) churchId memberId"

definition handleSubmit :: "prayer_screen \<Rightarrow> prayer_screen" where
  "handleSubmit s =
     (let d = py_drawn s in
      if trim (pw_title d) = [] \<or> trim (pw_description d) = []
      then wall_alert (js ''Missing Fields'') (js ''Please fill in both title and description.'') s
      else case member_of (py_active s) of
          None \<Rightarrow> wall_alert (js ''Request not shared'') (js ''Your member session is incomplete. Sign in again and retry.'') s
        | Some (churchId, memberId) \<Rightarrow>
            (let (acquired, locked) = lock_acquire () (py_submissionLock s (py_locks s)) in
             if \<not> acquired then s
             else wall_await (CreateFlight (py_locks s)
                 (JObj [(''title'', JStr (trim (pw_title d))), (''description'', JStr (trim (pw_description d))),
                   (''isAnonymous'', JBool (pw_isAnonymous d))]) churchId memberId)
               (set_wall (\<lambda>v. v\<lparr>pw_isSubmitting := True\<rparr>)
                 (s\<lparr>py_submissionLock := (py_submissionLock s)(py_locks s := locked)\<rparr>))))"

definition create_answered ::
    "nat \<Rightarrow> jsstring \<Rightarrow> jsstring \<Rightarrow> js_error + PrayerRequest \<Rightarrow> prayer_screen \<Rightarrow> prayer_screen" where
  "create_answered lock churchId memberId answer s =
     (let s1 = (if \<not> ownsActiveContext churchId memberId s then s
          else case answer of
              Inr created \<Rightarrow>
                loadRequests True 1
                  (set_wall (\<lambda>v. v\<lparr>pw_title := [], pw_description := [], pw_isAnonymous := False, pw_showForm := False\<rparr>)
                    (wall_alert (js ''Prayer request shared'') (js ''Your church community can now pray with you.'')
                      (set_wall (\<lambda>v. v\<lparr>pw_requests := insertUniqueById pr_id (pw_requests v) created True,
                        pw_totalRequests := pw_totalRequests v + 1, pw_pagingNeedsRefresh := True\<rparr>) s)))
            | Inl cause \<Rightarrow>
                (let copy = prayerMutationFailureAlert CreatePrayer cause;
                     s2 = set_wall (\<lambda>v. v\<lparr>pw_submitOutcomeUnknown := fc_outcomeUnknown copy\<rparr>) s;
                     s3 = (if fc_outcomeUnknown copy then s2\<lparr>py_revision := next_revision (py_revision s2)\<rparr> else s2)
                 in wall_alert (fc_title copy) (fc_message copy) s3));
          s4 = s1\<lparr>py_submissionLock := (py_submissionLock s1)(lock := lock_release () (py_submissionLock s1 lock))\<rparr>
      in if ownsActiveContext churchId memberId s4 then set_wall (\<lambda>v. v\<lparr>pw_isSubmitting := False\<rparr>) s4 else s4)"

definition wall_ids :: "prayer_screen \<Rightarrow> jsstring list" where
  "wall_ids s = map pr_id (pw_requests (py_drawn s))"

definition handlePray :: "jsstring \<Rightarrow> prayer_screen \<Rightarrow> prayer_screen" where
  "handlePray requestId s =
     (let (acquired, held_keys) = keyed_acquire requestId (py_prayerLock s (py_locks s));
          s1 = s\<lparr>py_prayerLock := (py_prayerLock s)(py_locks s := held_keys)\<rparr>;
          refused = s\<lparr>py_prayerLock := (py_prayerLock s)(py_locks s := keyed_release requestId held_keys)\<rparr>
      in if \<not> acquired then s
        else case member_of (py_active s) of
            None \<Rightarrow> refused
          | Some (churchId, memberId) \<Rightarrow>
              if \<not> ownsActiveContext churchId memberId s \<or> requestId \<notin> set (wall_ids s) then refused
              else
                let startedAt = (case find (\<lambda>r. pr_id r = requestId) (pw_requests (py_drawn s)) of
                    Some r \<Rightarrow> pr_prayerCount r | None \<Rightarrow> 0)
                in wall_await (PrayFlight (py_locks s) requestId startedAt churchId memberId)
                  (set_wall (\<lambda>v. v\<lparr>pw_prayingIds := ids_add requestId (pw_prayingIds v)\<rparr>) s1))"

definition pray_answered ::
    "nat \<Rightarrow> jsstring \<Rightarrow> int \<Rightarrow> jsstring \<Rightarrow> jsstring \<Rightarrow> js_error + int option \<Rightarrow> prayer_screen \<Rightarrow> prayer_screen" where
  "pray_answered lock requestId startedAt churchId memberId answer s =
     (let s1 = (if \<not> ownsActiveContext churchId memberId s \<or> requestId \<notin> set (wall_ids s) then s
          else case answer of
              Inr praying \<Rightarrow> set_wall (\<lambda>v. v\<lparr>pw_requests := map (\<lambda>r. if pr_id r = requestId
                then r\<lparr>pr_prayerCount := reconcileIncrementCount (pr_prayerCount r) startedAt praying\<rparr> else r) (pw_requests v)\<rparr>) s
            | Inl cause \<Rightarrow>
                (let copy = prayerMutationFailureAlert Pray cause
                 in wall_alert (fc_title copy) (fc_message copy)
                   (if fc_outcomeUnknown copy
                    then set_wall (\<lambda>v. v\<lparr>pw_prayUnknownIds := ids_add requestId (pw_prayUnknownIds v)\<rparr>)
                      (s\<lparr>py_revision := next_revision (py_revision s)\<rparr>)
                    else s)));
          s2 = s1\<lparr>py_prayerLock := (py_prayerLock s1)(lock := keyed_release requestId (py_prayerLock s1 lock))\<rparr>
      in if ownsActiveContext churchId memberId s2 \<and> requestId \<in> set (wall_ids s2)
        then set_wall (\<lambda>v. v\<lparr>pw_prayingIds := ids_delete requestId (pw_prayingIds v)\<rparr>) s2 else s2)"

section \<open>What is drawn\<close>

definition wall_shown :: "prayer_screen \<Rightarrow> bool" where
  "wall_shown s \<longleftrightarrow> py_mounted s \<and> \<not> pw_isLoading (py_drawn s)"

definition requestAction :: "prayer_screen \<Rightarrow> prayer_action" where
  "requestAction s =
     (let d = py_drawn s in
      prayerRequestActionState (pw_title d) (pw_description d) (py_offline s)
        (pw_isSubmitting d \<or> pw_submitOutcomeUnknown d \<and> pw_isRefreshing d) (pw_submitOutcomeUnknown d)
        (member_of (py_active s) \<noteq> None))"

definition prayAction :: "prayer_screen \<Rightarrow> PrayerRequest \<Rightarrow> prayer_action" where
  "prayAction s request =
     (let d = py_drawn s in
      prayActionState (pr_prayerCount request) (py_offline s) (pr_id request \<in> set (pw_prayingIds d))
        (pr_id request \<in> set (pw_prayUnknownIds d)) (pw_isRefreshing d))"

definition hasMoreRequests :: "prayer_screen \<Rightarrow> bool" where
  "hasMoreRequests s \<longleftrightarrow> int (length (pw_requests (py_drawn s))) < pw_totalRequests (py_drawn s)"

definition wall_pagination :: "prayer_screen \<Rightarrow> resend_state" where
  "wall_pagination s =
     (let d = py_drawn s in
      paginationActionState (js ''older requests'') (py_offline s) (pw_isLoadingMore d) (pw_isRefreshing d)
        (pw_pagingNeedsRefresh d \<or> pw_loadError d \<noteq> []))"

definition form_editable :: "prayer_screen \<Rightarrow> bool" where
  "form_editable s \<longleftrightarrow> \<not> pw_isSubmitting (py_drawn s) \<and> \<not> pw_submitOutcomeUnknown (py_drawn s)"

section \<open>Steps\<close>

definition prayer_init :: "screen_owner \<Rightarrow> bool \<Rightarrow> prayer_screen" where
  "prayer_init user offline =
     (let view = \<lparr>pw_showForm = False, pw_title = [], pw_description = [], pw_isAnonymous = False,
         pw_isSubmitting = False, pw_submitOutcomeUnknown = False, pw_requests = [], pw_isLoading = True,
         pw_isRefreshing = False, pw_isLoadingMore = False, pw_loadedPage = 0, pw_totalRequests = 0,
         pw_pagingNeedsRefresh = False, pw_loadError = [], pw_prayingIds = [], pw_prayUnknownIds = []\<rparr>
      in \<lparr>py_active = user, py_offline = offline, py_mounted = True, py_effect = None, py_previous = user,
          py_view = view, py_drawn = view, py_gate = 0, py_revision = 0, py_locks = 0,
          py_submissionLock = (\<lambda>_. False), py_prayerLock = (\<lambda>_. []), py_flights = [], py_alerts = []\<rparr>)"

fun prayer_answer :: "host \<Rightarrow> api \<Rightarrow> prayer_flight \<Rightarrow> prayer_screen \<Rightarrow> prayer_screen" where
  "prayer_answer h api (WallFlight ticket revision churchId page) s =
     wall_loaded ticket revision page (getPrayerRequests h api churchId (wall_page page)) s"
| "prayer_answer h api (CreateFlight lock request churchId memberId) s =
     create_answered lock churchId memberId (createPrayerRequest h api request churchId memberId) s"
| "prayer_answer h api (PrayFlight lock requestId startedAt churchId memberId) s =
     pray_answered lock requestId startedAt churchId memberId (prayForRequest api requestId) s"

datatype prayer_label =
    PrayerRendered screen_owner bool
  | PrayerEffects
  | PrayerUnmounted
  | PrayerAnswered prayer_flight api
  | WallPulled
  | FormToggled
  | TitleTyped jsstring
  | DescriptionTyped jsstring
  | AnonymousToggled
  | RequestPressed
  | WallRetried
  | PrayPressed PrayerRequest
  | WallRefreshPressed
  | OlderRequestsPressed

text \<open>One event; \<open>None\<close> when it cannot happen. A control acts as the last render drew it.\<close>

fun prayer_next :: "host \<Rightarrow> prayer_label \<Rightarrow> prayer_screen \<Rightarrow> prayer_screen option" where
  "prayer_next h (PrayerRendered user offline) s =
     (if py_mounted s then Some (s\<lparr>py_active := user, py_offline := offline, py_drawn := py_view s\<rparr>) else None)"
| "prayer_next h PrayerEffects s =
     (if py_mounted s \<and> py_effect s \<noteq> Some (py_active s) then Some (prayer_effects s) else None)"
| "prayer_next h PrayerUnmounted s =
     (if py_mounted s then Some (s\<lparr>py_mounted := False, py_gate := request_invalidate (py_gate s)\<rparr>) else None)"
| "prayer_next h (PrayerAnswered f api) s =
     (if f \<in> set (py_flights s) then Some (prayer_answer h api f (s\<lparr>py_flights := remove1 f (py_flights s)\<rparr>)) else None)"
| "prayer_next h WallPulled s =
     (if wall_shown s \<and> \<not> py_offline s then Some (loadRequests True 1 s) else None)"
| "prayer_next h FormToggled s =
     (if wall_shown s \<and> form_editable s
      then Some (set_wall (\<lambda>v. v\<lparr>pw_showForm := \<not> pw_showForm (py_drawn s)\<rparr>) s) else None)"
| "prayer_next h (TitleTyped text) s =
     (if wall_shown s \<and> pw_showForm (py_drawn s) \<and> form_editable s \<and> length text \<le> 200
      then Some (set_wall (\<lambda>v. v\<lparr>pw_title := text\<rparr>) s) else None)"
| "prayer_next h (DescriptionTyped text) s =
     (if wall_shown s \<and> pw_showForm (py_drawn s) \<and> form_editable s \<and> length text \<le> MAX_PRAYER_DESCRIPTION_LENGTH
      then Some (set_wall (\<lambda>v. v\<lparr>pw_description := text\<rparr>) s) else None)"
| "prayer_next h AnonymousToggled s =
     (if wall_shown s \<and> pw_showForm (py_drawn s) \<and> form_editable s
      then Some (set_wall (\<lambda>v. v\<lparr>pw_isAnonymous := \<not> pw_isAnonymous (py_drawn s)\<rparr>) s) else None)"
| "prayer_next h RequestPressed s =
     (if wall_shown s \<and> pw_showForm (py_drawn s) \<and> \<not> pa_disabled (requestAction s)
      then Some (if pa_refreshes (requestAction s) then loadRequests True 1 s else handleSubmit s) else None)"
| "prayer_next h WallRetried s =
     (if wall_shown s \<and> pw_loadError (py_drawn s) \<noteq> [] \<and> \<not> py_offline s then Some (loadRequests True 1 s) else None)"
| "prayer_next h (PrayPressed request) s =
     (if wall_shown s \<and> request \<in> set (pw_requests (py_drawn s)) \<and> \<not> pa_disabled (prayAction s request)
      then Some (if pa_refreshes (prayAction s request) then loadRequests True 1 s else handlePray (pr_id request) s)
      else None)"
| "prayer_next h WallRefreshPressed s =
     (if wall_shown s \<and> pw_requests (py_drawn s) \<noteq> [] \<and> pw_pagingNeedsRefresh (py_drawn s)
        \<and> \<not> (py_offline s \<or> pw_isRefreshing (py_drawn s))
      then Some (loadRequests True 1 s) else None)"
| "prayer_next h OlderRequestsPressed s =
     (if wall_shown s \<and> pw_requests (py_drawn s) \<noteq> [] \<and> \<not> pw_pagingNeedsRefresh (py_drawn s)
        \<and> hasMoreRequests s \<and> \<not> ac_disabled (wall_pagination s)
      then Some (loadRequests False (pw_loadedPage (py_drawn s) + 1) s) else None)"

abbreviation prayer_run :: "host \<Rightarrow> prayer_screen \<Rightarrow> prayer_label list \<Rightarrow> prayer_screen \<Rightarrow> bool" where
  "prayer_run h \<equiv> step_run (prayer_next h)"

section \<open>Lemmas\<close>

subsection \<open>Revisions\<close>

fun started_revision :: "prayer_flight \<Rightarrow> int option" where
  "started_revision (WallFlight _ r _ _) = Some r"
| "started_revision _ = None"

text \<open>What a step may do to the revision and the pages awaited.\<close>

definition revision_moves :: "prayer_screen \<Rightarrow> prayer_screen \<Rightarrow> bool" where
  "revision_moves s t \<longleftrightarrow> py_revision s \<le> py_revision t
     \<and> (\<forall>f\<in>set (py_flights t). f \<in> set (py_flights s)
         \<or> (\<forall>r. started_revision f = Some r \<longrightarrow> py_revision s \<le> r \<and> r \<le> py_revision t))"

lemma revision_moves_refl [simp]: "revision_moves s s"
  by (simp add: revision_moves_def)

lemma revision_moves_trans: "revision_moves s t \<Longrightarrow> revision_moves t u \<Longrightarrow> revision_moves s u"
  unfolding revision_moves_def by (meson order_trans)

lemma moves_same:
  "py_revision t = py_revision s \<Longrightarrow> set (py_flights t) \<subseteq> set (py_flights s) \<Longrightarrow> revision_moves s t"
  by (auto simp: revision_moves_def)

lemma loadRequests_moves: "revision_moves s (loadRequests b k s)"
  by (auto simp: revision_moves_def loadRequests_def wall_loaded_def wall_await_def Let_def split_beta
      split: option.split list.split)

lemma loadRequests_revision [simp]: "py_revision (loadRequests b k s) = py_revision s"
  by (simp add: loadRequests_def wall_loaded_def wall_await_def Let_def split_beta split: option.split list.split)

lemma wall_loaded_same [simp]:
  "py_revision (wall_loaded t r k a s) = py_revision s" "py_flights (wall_loaded t r k a s) = py_flights s"
  by (simp_all add: wall_loaded_def Let_def split: sum.split)

lemma moves_locks [simp]:
  "revision_moves s (t\<lparr>py_submissionLock := x\<rparr>) = revision_moves s t"
  "revision_moves s (t\<lparr>py_prayerLock := y\<rparr>) = revision_moves s t" "revision_moves s (t\<lparr>py_view := v\<rparr>) = revision_moves s t"
  by (simp_all add: revision_moves_def)

lemma loadRequests_moves_after:
  "py_revision t = py_revision s \<Longrightarrow> py_flights t = py_flights s \<Longrightarrow> revision_moves s (loadRequests b k t)"
  by (rule revision_moves_trans [OF moves_same loadRequests_moves]) simp_all

lemma create_answered_moves: "revision_moves s (create_answered lock c m a s)"
  by (auto simp: create_answered_def wall_alert_def Let_def intro!: loadRequests_moves_after split: sum.split)
     (auto simp: revision_moves_def)

lemma pray_answered_moves: "revision_moves s (pray_answered lock i n c m a s)"
  by (auto simp: pray_answered_def wall_alert_def Let_def revision_moves_def split: sum.split)

lemma prayer_effects_moves: "revision_moves s (prayer_effects s)"
proof -
  have reset: "revision_moves t (prayer_reset t)" for t
    by (simp add: prayer_reset_def revision_moves_def Let_def)
  define s1 where "s1 = (if py_effect s \<noteq> None \<and> map_option so_churchId (py_effect s) \<noteq> Some (so_churchId (py_active s))
    then s\<lparr>py_gate := request_invalidate (py_gate s)\<rparr> else s)"
  have "revision_moves s (s1\<lparr>py_effect := Some (py_active s)\<rparr>)" by (rule moves_same) (simp_all add: s1_def)
  then have "revision_moves s (prayer_reset (s1\<lparr>py_effect := Some (py_active s)\<rparr>))"
    using reset revision_moves_trans by blast
  then show ?thesis
    using loadRequests_moves revision_moves_trans by (auto simp: prayer_effects_def s1_def Let_def)
qed

lemma handlers_move:
  "revision_moves s (handleSubmit s)" "revision_moves s (handlePray i s)"
  by (auto simp: handleSubmit_def handlePray_def wall_alert_def wall_await_def revision_moves_def Let_def split_beta
      split: option.split)

lemma prayer_step_moves: "prayer_next h l s = Some t \<Longrightarrow> revision_moves s t"
proof (induction h l s rule: prayer_next.induct)
  case (4 h f api s)
  then have t: "t = prayer_answer h api f (s\<lparr>py_flights := remove1 f (py_flights s)\<rparr>)" by (simp split: if_splits)
  have "revision_moves s (s\<lparr>py_flights := remove1 f (py_flights s)\<rparr>)"
    by (rule moves_same) (simp_all add: set_remove1_subset)
  moreover have "revision_moves u (prayer_answer h api f u)" for u
    using create_answered_moves pray_answered_moves by (cases f) (auto intro: moves_same)
  ultimately show ?case unfolding t by (rule revision_moves_trans)
qed (auto intro: prayer_effects_moves loadRequests_moves handlers_move moves_same split: if_splits)

subsection \<open>Unknown outcomes\<close>

text \<open>Every outcome that is unknown in \<open>s\<close> is unknown in \<open>t\<close>; an outcome became unknown between them.\<close>

definition unknown_kept :: "prayer_screen \<Rightarrow> prayer_screen \<Rightarrow> bool" where
  "unknown_kept s t \<longleftrightarrow>
     (pw_submitOutcomeUnknown (py_view s) \<longrightarrow> pw_submitOutcomeUnknown (py_view t))
     \<and> list_all (\<lambda>i. i \<in> set (pw_prayUnknownIds (py_view t))) (pw_prayUnknownIds (py_view s))"

definition became_unknown :: "prayer_screen \<Rightarrow> prayer_screen \<Rightarrow> bool" where
  "became_unknown s t \<longleftrightarrow> \<not> unknown_kept t s"

lemma unknown_kept_refl [simp]: "unknown_kept s s"
  by (simp add: unknown_kept_def list_all_iff)

lemma unknown_kept_same:
  "pw_submitOutcomeUnknown (py_view t) = pw_submitOutcomeUnknown (py_view s)
     \<Longrightarrow> pw_prayUnknownIds (py_view t) = pw_prayUnknownIds (py_view s) \<Longrightarrow> unknown_kept t s \<and> unknown_kept s t"
  by (simp add: unknown_kept_def list_all_iff)

lemma loadRequests_unknown [simp]:
  "pw_submitOutcomeUnknown (py_view (loadRequests b k s)) = pw_submitOutcomeUnknown (py_view s)"
  "pw_prayUnknownIds (py_view (loadRequests b k s)) = pw_prayUnknownIds (py_view s)"
  by (auto simp: loadRequests_def wall_loaded_def wall_await_def Let_def split_beta split: option.split list.split)

lemma wall_loaded_older:
  "r \<noteq> py_revision s \<Longrightarrow> unknown_kept s (wall_loaded t r k a s)"
  "unknown_kept (wall_loaded t r k a s) s"
  by (auto simp: wall_loaded_def prayerRefreshOwnsReconciliation_def wall_reconciled_def unknown_kept_def list_all_iff Let_def
      split: sum.split)

lemma create_answered_unknown:
  "\<not> unknown_kept (create_answered lock c m a s) s \<Longrightarrow> py_revision (create_answered lock c m a s) = next_revision (py_revision s)"
proof -
  have "unknown_kept (create_answered lock c m a s) s \<or> py_revision (create_answered lock c m a s) = next_revision (py_revision s)"
    by (auto simp: create_answered_def wall_alert_def unknown_kept_def list_all_iff Let_def split: sum.split)
  then show "\<not> unknown_kept (create_answered lock c m a s) s \<Longrightarrow> py_revision (create_answered lock c m a s) = next_revision (py_revision s)"
    by blast
qed

lemma pray_answered_unknown:
  "\<not> unknown_kept (pray_answered lock i n c m a s) s \<Longrightarrow> py_revision (pray_answered lock i n c m a s) = next_revision (py_revision s)"
proof -
  have "unknown_kept (pray_answered lock i n c m a s) s \<or> py_revision (pray_answered lock i n c m a s) = next_revision (py_revision s)"
    by (auto simp: pray_answered_def wall_alert_def unknown_kept_def list_all_iff Let_def split: sum.split)
  then show "\<not> unknown_kept (pray_answered lock i n c m a s) s \<Longrightarrow> py_revision (pray_answered lock i n c m a s) = next_revision (py_revision s)"
    by blast
qed

lemma prayer_effects_unknown: "unknown_kept (prayer_effects s) s"
  by (simp add: prayer_effects_def prayer_reset_def unknown_kept_def list_all_iff Let_def)

lemma handlers_unknown: "unknown_kept (handleSubmit s) s" "unknown_kept (handlePray i s) s"
  by (auto simp: handleSubmit_def handlePray_def wall_alert_def wall_await_def unknown_kept_def list_all_iff Let_def split_beta
      split: option.split)

text \<open>An outcome becomes unknown in a step that opens a new revision.\<close>

lemma became_unknown_revision:
  "prayer_next h l s = Some t \<Longrightarrow> became_unknown s t \<Longrightarrow> py_revision t = next_revision (py_revision s)"
proof (induction h l s rule: prayer_next.induct)
  case (4 h f api s)
  let ?u = "s\<lparr>py_flights := remove1 f (py_flights s)\<rparr>"
  have "t = prayer_answer h api f ?u" and "\<not> unknown_kept t ?u"
    using 4 by (auto simp: became_unknown_def unknown_kept_def split: if_splits)
  then show ?case
    by (cases f) (auto simp: wall_loaded_older(2) create_answered_unknown pray_answered_unknown)
qed (auto simp: became_unknown_def prayer_effects_unknown handlers_unknown unknown_kept_same split: if_splits)

text \<open>The revisions at which the pages awaited were asked for.\<close>

definition wall_revisions :: "prayer_screen \<Rightarrow> int set" where
  "wall_revisions s = {r. \<exists>f\<in>set (py_flights s). started_revision f = Some r}"

interpretation wall: reconciled_screen "prayer_next h" py_revision wall_revisions for h
  by unfold_locales (drule prayer_step_moves, fastforce simp: revision_moves_def wall_revisions_def)+

subsection \<open>Locks\<close>

fun share_key :: "nat \<Rightarrow> prayer_flight \<Rightarrow> unit list" where
  "share_key k (CreateFlight lock _ _ _) = (if lock = k then [()] else [])"
| "share_key k _ = []"

fun pray_key :: "nat \<Rightarrow> prayer_flight \<Rightarrow> jsstring list" where
  "pray_key k (PrayFlight lock i _ _ _) = (if lock = k then [i] else [])"
| "pray_key k _ = []"

text \<open>The requests being shared and the requests being prayed for under the lock \<open>k\<close>.\<close>

definition sharing :: "nat \<Rightarrow> prayer_screen \<Rightarrow> unit list" where
  "sharing k s = concat (map (share_key k) (py_flights s))"

definition praying_for :: "nat \<Rightarrow> prayer_screen \<Rightarrow> jsstring list" where
  "praying_for k s = concat (map (pray_key k) (py_flights s))"

definition wall_locks_inv :: "prayer_screen \<Rightarrow> bool" where
  "wall_locks_inv s \<longleftrightarrow>
     (\<forall>k. length (sharing k s) = (if py_submissionLock s k then 1 else 0) \<and> guards (py_prayerLock s k) (praying_for k s))
     \<and> (\<forall>k > py_locks s. \<not> py_submissionLock s k \<and> py_prayerLock s k = [])"

lemma wall_locks_same:
  assumes "wall_locks_inv s" and "\<And>k. sharing k t = sharing k s" and "\<And>k. praying_for k t = praying_for k s"
    and "py_submissionLock t = py_submissionLock s" and "py_prayerLock t = py_prayerLock s" and "py_locks t = py_locks s"
  shows "wall_locks_inv t"
  using assms by (simp add: wall_locks_inv_def)

lemma loadRequests_locks [simp]:
  "sharing k (loadRequests b n s) = sharing k s" "praying_for k (loadRequests b n s) = praying_for k s"
  "py_submissionLock (loadRequests b n s) = py_submissionLock s" "py_prayerLock (loadRequests b n s) = py_prayerLock s"
  "py_locks (loadRequests b n s) = py_locks s" "py_flights (wall_loaded t r m a u) = py_flights u"
  by (auto simp: loadRequests_def wall_loaded_def wall_await_def sharing_def praying_for_def Let_def split_beta
      split: option.split list.split sum.split)

lemma keys_quiet [simp]:
  "sharing k (s\<lparr>py_view := v\<rparr>) = sharing k s" "praying_for k (s\<lparr>py_view := v\<rparr>) = praying_for k s"
  "sharing k (s\<lparr>py_alerts := x\<rparr>) = sharing k s" "praying_for k (s\<lparr>py_alerts := x\<rparr>) = praying_for k s"
  "sharing k (s\<lparr>py_submissionLock := y\<rparr>) = sharing k s" "praying_for k (s\<lparr>py_submissionLock := y\<rparr>) = praying_for k s"
  "sharing k (s\<lparr>py_revision := n\<rparr>) = sharing k s" "praying_for k (s\<lparr>py_revision := n\<rparr>) = praying_for k s"
  by (simp_all add: sharing_def praying_for_def)

lemma prayer_reset_locks:
  assumes inv: "wall_locks_inv s"
  shows "wall_locks_inv (prayer_reset s)"
proof -
  have "length (sharing (Suc (py_locks s)) s) = 0" "guards [] (praying_for (Suc (py_locks s)) s)"
    using inv unfolding wall_locks_inv_def by (metis lessI)+
  then show ?thesis
    using inv by (auto simp: wall_locks_inv_def prayer_reset_def sharing_def praying_for_def Let_def)
qed

lemma wall_locks_quiet:
  "wall_locks_inv (s\<lparr>py_gate := g\<rparr>) = wall_locks_inv s" "wall_locks_inv (s\<lparr>py_effect := e\<rparr>) = wall_locks_inv s"
  "wall_locks_inv (s\<lparr>py_view := v\<rparr>) = wall_locks_inv s" "wall_locks_inv (s\<lparr>py_mounted := b\<rparr>) = wall_locks_inv s"
  "wall_locks_inv (s\<lparr>py_active := u, py_offline := b, py_drawn := d\<rparr>) = wall_locks_inv s"
  "wall_locks_inv (wall_alert x y s) = wall_locks_inv s" "wall_locks_inv (loadRequests b n s) = wall_locks_inv s"
  by (simp_all add: wall_locks_inv_def wall_alert_def) (simp_all add: sharing_def praying_for_def)

lemma prayer_effects_locks: "wall_locks_inv s \<Longrightarrow> wall_locks_inv (prayer_effects s)"
  by (simp add: prayer_effects_def Let_def wall_locks_quiet prayer_reset_locks)

lemma handleSubmit_locks:
  assumes inv: "wall_locks_inv s"
  shows "wall_locks_inv (handleSubmit s)"
proof -
  have "wall_locks_inv (wall_await (CreateFlight (py_locks s) r c m) (set_wall f
      (s\<lparr>py_submissionLock := (py_submissionLock s)(py_locks s := True)\<rparr>)))" if "\<not> py_submissionLock s (py_locks s)" for f r c m
    using inv that by (auto simp: wall_locks_inv_def sharing_def praying_for_def wall_await_def)
  then show ?thesis
    using inv by (auto simp: handleSubmit_def lock_acquire_def wall_locks_quiet Let_def split: option.split)
qed

lemma handlePray_locks:
  assumes inv: "wall_locks_inv s"
  shows "wall_locks_inv (handlePray i s)"
proof -
  have keep: "wall_locks_inv (s\<lparr>py_prayerLock := (py_prayerLock s)(py_locks s := ks)\<rparr>)"
    if "guards ks (praying_for (py_locks s) s)" for ks
    using inv that by (auto simp: wall_locks_inv_def sharing_def praying_for_def)
  have go: "wall_locks_inv (wall_await (PrayFlight (py_locks s) i n c m) (set_wall f
      (s\<lparr>py_prayerLock := (py_prayerLock s)(py_locks s := ks)\<rparr>)))"
    if "guards ks (praying_for (py_locks s) s @ [i])" for ks f n c m
    using inv that by (auto simp: wall_locks_inv_def sharing_def praying_for_def wall_await_def)
  show ?thesis
    using inv unfolding handlePray_def Let_def split_beta
    by (auto simp: wall_locks_inv_def [of s] intro!: keep go guards_acquire guards_refused split: option.split)
qed

text \<open>The flight \<open>f\<close> of \<open>s\<close> is no longer awaited.\<close>

lemma wall_keys_taken:
  assumes "f \<in> set (py_flights s)" and "py_flights t = remove1 f (py_flights s)"
  shows "mset (sharing k s) = mset (share_key k f) + mset (sharing k t)"
    and "mset (praying_for k s) = mset (pray_key k f) + mset (praying_for k t)"
  using mset_concat_remove1 [OF assms(1)] assms(2) by (simp_all add: sharing_def praying_for_def)

lemma create_answered_locks:
  assumes inv: "wall_locks_inv s" and f: "CreateFlight lock r c m \<in> set (py_flights s)" (is "?f \<in> _")
  shows "wall_locks_inv (create_answered lock c m a (s\<lparr>py_flights := remove1 ?f (py_flights s)\<rparr>))" (is "wall_locks_inv ?t")
proof -
  let ?s = "s\<lparr>py_flights := remove1 ?f (py_flights s)\<rparr>"
  have same: "sharing k ?t = sharing k ?s" "praying_for k ?t = praying_for k ?s" "py_locks ?t = py_locks s"
      "py_prayerLock ?t = py_prayerLock s" "py_submissionLock ?t = (py_submissionLock s)(lock := False)" for k
    by (simp_all add: create_answered_def wall_alert_def lock_release_def Let_def split: sum.split)
  have keys: "length (sharing k s) = length (share_key k ?f) + length (sharing k ?s)"
      "mset (praying_for k s) = mset (praying_for k ?s)" for k
    using wall_keys_taken [OF f, of ?s k] by (simp_all flip: size_mset)
  have locked: "length (sharing k s) = (if py_submissionLock s k then 1 else 0)" "guards (py_prayerLock s k) (praying_for k s)" for k
    using inv by (auto simp: wall_locks_inv_def)
  have "length (sharing k ?s) = (if ((py_submissionLock s)(lock := False)) k then 1 else 0)" for k
    using keys(1) [of k] locked(1) [of k] by (cases "lock = k") (auto split: if_splits)
  moreover have "guards (py_prayerLock s k) (praying_for k ?s)" for k
    using locked(2) keys(2) by (rule guards_reorder)
  ultimately show ?thesis
    using inv unfolding wall_locks_inv_def same by simp
qed

lemma pray_answered_locks:
  assumes inv: "wall_locks_inv s" and f: "PrayFlight lock i n c m \<in> set (py_flights s)" (is "?f \<in> _")
  shows "wall_locks_inv (pray_answered lock i n c m a (s\<lparr>py_flights := remove1 ?f (py_flights s)\<rparr>))" (is "wall_locks_inv ?t")
proof -
  have same: "py_flights ?t = remove1 ?f (py_flights s)" "py_locks ?t = py_locks s"
      "py_submissionLock ?t = py_submissionLock s"
      "py_prayerLock ?t = (py_prayerLock s)(lock := keyed_release i (py_prayerLock s lock))"
    by (simp_all add: pray_answered_def wall_alert_def Let_def split: sum.split)
  have keys: "mset (praying_for k s) = mset (pray_key k ?f) + mset (praying_for k ?t)"
      "length (sharing k ?t) = length (sharing k s)" for k
    using wall_keys_taken [OF f same(1), of k] by (simp_all flip: size_mset)
  have "guards (py_prayerLock ?t k) (praying_for k ?t)" for k
    using inv keys(1) [of k] unfolding same(4)
    by (cases "k = lock") (auto simp: wall_locks_inv_def intro: guards_release guards_reorder)
  moreover have "py_prayerLock ?t k = []" if "py_locks s < k" for k
    using inv that unfolding same(4) by (auto simp: wall_locks_inv_def keyed_release_def)
  ultimately show ?thesis
    using inv keys(2) unfolding wall_locks_inv_def same(2,3) by simp
qed

lemma prayer_step_locks: "prayer_next h l s = Some t \<Longrightarrow> wall_locks_inv s \<Longrightarrow> wall_locks_inv t"
proof (induction h l s rule: prayer_next.induct)
  case (4 h f api s)
  then have f: "f \<in> set (py_flights s)" and t: "t = prayer_answer h api f (s\<lparr>py_flights := remove1 f (py_flights s)\<rparr>)"
    by (simp_all split: if_splits)
  show ?case
  proof (cases f)
    case (WallFlight n r c k)
    have "length (sharing k t) = length (sharing k s)" "mset (praying_for k s) = mset (praying_for k t)" for k
      using wall_keys_taken [OF f, of t k] t WallFlight by (simp_all flip: size_mset)
    moreover have "py_submissionLock t = py_submissionLock s" "py_prayerLock t = py_prayerLock s" "py_locks t = py_locks s"
      unfolding t WallFlight by (simp_all add: wall_loaded_def Let_def split: sum.split)
    ultimately show ?thesis
      using 4(2) by (auto simp: wall_locks_inv_def intro: guards_reorder)
  qed (use 4(2) f t create_answered_locks pray_answered_locks in simp_all)
qed (auto simp: wall_locks_quiet prayer_effects_locks handleSubmit_locks handlePray_locks split: if_splits)

interpretation prayer_locks: step_invariant "prayer_next h" wall_locks_inv for h
  by unfold_locales (rule prayer_step_locks)

section \<open>Properties\<close>

text \<open>C13: an outcome that became unknown is only settled by a refresh that began later. When sharing a request or
  praying ends without an answer, a page that was already being loaded at that moment, whenever it arrives and
  whatever happens in between, leaves every unknown outcome unknown: the draft is kept and the buttons keep asking
  for a refresh instead of sending again.\<close>

theorem older_page_keeps_unknown_outcome:
  assumes "prayer_run h (prayer_init user offline) ls s" and "WallFlight n r c k \<in> set (py_flights s)"
    and "prayer_next h l s = Some s1" and "became_unknown s s1" and "py_revision s < 9007199254740992"
    and "prayer_run h s1 ls' u" and "prayer_next h (PrayerAnswered (WallFlight n r c k) api) u = Some v"
  shows "unknown_kept u v"
proof -
  have "r < py_revision u"
  proof (rule wall.older [OF assms(1) _ _ _ assms(6)])
    show "r \<in> wall_revisions s" using assms(2) by (force simp: wall_revisions_def)
    show "py_revision s < py_revision s1" using became_unknown_revision assms(3-5) by (auto simp: next_revision_def)
  qed (simp add: wall_revisions_def prayer_init_def Let_def)
  then have "unknown_kept (u\<lparr>py_flights := remove1 (WallFlight n r c k) (py_flights u)\<rparr>) v"
    using assms(7) by (auto intro: wall_loaded_older(1) split: if_splits)
  then show ?thesis by (simp add: unknown_kept_def)
qed

text \<open>Quick taps never share a request or count a prayer twice: in every run at most one request is being shared
  and no request is being prayed for twice under one pair of locks.\<close>

theorem one_prayer_per_request:
  assumes "prayer_run h (prayer_init user offline) ls s"
  shows "length (sharing k s) \<le> 1 \<and> distinct (praying_for k s)"
proof -
  have "wall_locks_inv (prayer_init user offline)"
    by (simp add: wall_locks_inv_def prayer_init_def sharing_def praying_for_def Let_def)
  with assms have "wall_locks_inv s" by (rule prayer_locks.run_kept)
  then show ?thesis
    using guards_distinct by (auto simp: wall_locks_inv_def split: if_splits)
qed

section \<open>Witnesses\<close>

definition wall_entry :: "string \<Rightarrow> jsval" where
  "wall_entry i = JObj [(''id'', JStr (js i)), (''churchId'', JStr (js ''c1'')), (''title'', JStr (js ''Exam'')),
     (''description'', JStr (js ''Pray'')), (''isAnonymous'', JBool True), (''createdAt'', JStr (js ''2026''))]"

text \<open>Two requests, one on each page; a prayer gets no answer.\<close>

definition wall_gateway :: "string \<Rightarrow> api" where
  "wall_gateway i r = (if rq_method r = GET
     then Inr (envelope (JObj [(''requests'', JArr [wall_entry i]), (''total'', jint 2)])) else Inl (AxiosError None))"

definition wall_request :: "string \<Rightarrow> PrayerRequest" where
  "wall_request i = \<lparr>pr_id = js i, pr_churchId = js ''c1'', pr_memberId = None, pr_title = js ''Exam'',
     pr_description = js ''Pray'', pr_isAnonymous = True, pr_prayerCount = 0, pr_createdAt = js ''2026'',
     pr_authorName = None\<rparr>"

abbreviation kofi :: screen_owner where
  "kofi \<equiv> owner_of (js ''c1'') (js ''m1'')"

text \<open>The wall is loaded, refreshed, and a prayer is awaited together with the refresh.\<close>

definition wall_opened :: "prayer_label list" where
  "wall_opened = [PrayerEffects, PrayerRendered kofi False, PrayerAnswered (WallFlight 1 0 (js ''c1'') 1) (wall_gateway ''p1''),
     PrayerRendered kofi False]"

definition prayed :: "prayer_label list" where
  "prayed = wall_opened @ [PrayPressed (wall_request ''p1''), WallPulled]"

abbreviation prayer_lost :: prayer_label where
  "prayer_lost \<equiv> PrayerAnswered (PrayFlight 0 (js ''p1'') 0 (js ''c1'') (js ''m1'')) (wall_gateway ''p1'')"

abbreviation refresh_arrived :: prayer_label where
  "refresh_arrived \<equiv> PrayerAnswered (WallFlight 2 0 (js ''c1'') 1) (wall_gateway ''p1'')"

lemma prayed_state:
  "map_option (\<lambda>s. (WallFlight 2 0 (js ''c1'') 1 \<in> set (py_flights s), py_revision s, pw_prayUnknownIds (py_view s)))
     (run_steps (prayer_next media_host) prayed (prayer_init kofi False)) = Some (True, 0, [])"
  by code_simp

lemma prayed_lost:
  "map_option (\<lambda>s. pw_prayUnknownIds (py_view s))
     (run_steps (prayer_next media_host) (prayed @ [prayer_lost]) (prayer_init kofi False)) = Some [js ''p1'']"
  by code_simp

lemma prayed_refreshed:
  "map_option (\<lambda>s. pw_prayUnknownIds (py_view s))
     (run_steps (prayer_next media_host) (prayed @ [prayer_lost, refresh_arrived]) (prayer_init kofi False)) = Some [js ''p1'']"
  by code_simp

theorem older_page_keeps_unknown_outcome_witness:
  "\<exists>s s1 v. prayer_run media_host (prayer_init kofi False) prayed s \<and> became_unknown s s1
     \<and> prayer_next media_host prayer_lost s = Some s1 \<and> prayer_next media_host refresh_arrived s1 = Some v
     \<and> unknown_kept s1 v \<and> js ''p1'' \<in> set (pw_prayUnknownIds (py_view v))"
proof -
  obtain s where run: "run_steps (prayer_next media_host) prayed (prayer_init kofi False) = Some s"
    and s: "WallFlight 2 0 (js ''c1'') 1 \<in> set (py_flights s)" "py_revision s = 0" "pw_prayUnknownIds (py_view s) = []"
    using prayed_state by auto
  obtain s1 where s1: "prayer_next media_host prayer_lost s = Some s1" "pw_prayUnknownIds (py_view s1) = [js ''p1'']"
    using prayed_lost run by (auto simp: run_steps_append split: option.splits)
  obtain v where v: "prayer_next media_host refresh_arrived s1 = Some v" "pw_prayUnknownIds (py_view v) = [js ''p1'']"
    using prayed_refreshed run s1 by (auto simp: run_steps_append split: option.splits)
  have became: "became_unknown s s1" using s(3) s1(2) by (simp add: became_unknown_def unknown_kept_def)
  have run': "prayer_run media_host (prayer_init kofi False) prayed s" using run by (simp add: step_run_iff)
  have "unknown_kept s1 v"
    using older_page_keeps_unknown_outcome [OF run' s(1) s1(1) became _ step_run.here v(1)] s(2) by simp
  then show ?thesis using run' became s1 v by (metis list.set_intros(1))
qed

text \<open>Two taps on Pray before the next render count one prayer.\<close>

theorem one_prayer_per_request_witness:
  "\<exists>s. prayer_run media_host (prayer_init kofi False)
       (wall_opened @ [PrayPressed (wall_request ''p1''), PrayPressed (wall_request ''p1'')]) s
     \<and> praying_for 0 s = [js ''p1''] \<and> distinct (praying_for 0 s)"
proof -
  have "map_option (praying_for 0) (run_steps (prayer_next media_host)
      (wall_opened @ [PrayPressed (wall_request ''p1''), PrayPressed (wall_request ''p1'')]) (prayer_init kofi False))
      = Some [js ''p1'']"
    by code_simp
  then obtain s where "prayer_run media_host (prayer_init kofi False)
      (wall_opened @ [PrayPressed (wall_request ''p1''), PrayPressed (wall_request ''p1'')]) s" and "praying_for 0 s = [js ''p1'']"
    by (auto simp: step_run_iff)
  with one_prayer_per_request [OF this(1)] show ?thesis by auto
qed

text \<open>A prayer that is answered while its request is not listed leaves the request busy: the older page with the
  request shows it as being recorded although nothing is awaited.\<close>

lemma prayer_answered_unlisted_is_stuck:
  "map_option (\<lambda>s. (praying_for 0 s, pr_id (wall_request ''p2'') \<in> set (pw_prayUnknownIds (py_drawn s)),
       pa_disabled (prayAction s (wall_request ''p2'')), wall_request ''p2'' \<in> set (pw_requests (py_drawn s))))
     (run_steps (prayer_next media_host) (wall_opened @ [OlderRequestsPressed,
        PrayerAnswered (WallFlight 2 0 (js ''c1'') 2) (wall_gateway ''p2''), PrayerRendered kofi False,
        PrayPressed (wall_request ''p2''), WallPulled,
        PrayerAnswered (WallFlight 3 0 (js ''c1'') 1) (wall_gateway ''p1''), PrayerRendered kofi False,
        PrayerAnswered (PrayFlight 0 (js ''p2'') 0 (js ''c1'') (js ''m1'')) (\<lambda>_. Inr JNull), OlderRequestsPressed,
        PrayerAnswered (WallFlight 4 0 (js ''c1'') 2) (wall_gateway ''p2''), PrayerRendered kofi False])
      (prayer_init kofi False)) = Some ([], False, True, True)"
  by code_simp

text \<open>When another member of the same church takes over while the wall is loading, the load is given up and no
  other begins: the skeleton stays.\<close>

lemma member_change_while_loading_never_loads:
  "map_option (\<lambda>s. (wall_shown s, py_effect s = Some (py_active s)))
     (run_steps (prayer_next media_host) [PrayerEffects, PrayerRendered (owner_of (js ''c1'') (js ''m2'')) False, PrayerEffects,
        PrayerAnswered (WallFlight 1 0 (js ''c1'') 1) (wall_gateway ''p1''),
        PrayerRendered (owner_of (js ''c1'') (js ''m2'')) False]
      (prayer_init kofi False)) = Some (False, True)"
  by code_simp

end
