(* ===== verification/CareScreen.thy ===== *)
theory CareScreen
  imports Welfare AuthForms ScreenState
begin

text \<open>
  The private care screen (\<open>screens/welfare/WelfareScreen.tsx\<close>): the history of the requests, a request for
  support, and the urgent request with its confirmation. \<open>cs_view\<close> holds what the setters produced and \<open>cs_drawn\<close>
  what the last render drew. The question before an urgent request is a dialog over the screen: while it is open
  nothing else can be pressed, but the app may go to the background and answers may arrive.
\<close>

section \<open>The state\<close>

definition care_categories :: "(welfare_category \<times> jsstring) list" where
  "care_categories = [(Medical, js ''Medical''), (Financial, js ''Financial''), (Food, js ''Food''),
     (Housing, js ''Housing''), (Counseling, js ''Counselling''), (OtherCare, js ''Other'')]"

definition care_urgencies :: "(welfare_urgency \<times> jsstring) list" where
  "care_urgencies = [(Low, js ''Low''), (Medium, js ''Medium''), (High, js ''High''), (Critical, js ''Critical'')]"

fun statusLabels :: "welfare_status \<Rightarrow> jsstring" where
  "statusLabels Pending = js ''Pending''"
| "statusLabels UnderReview = js ''Under review''"
| "statusLabels Approved = js ''Approved''"
| "statusLabels Fulfilled = js ''Fulfilled''"
| "statusLabels Declined = js ''Declined''"

record care_view =
  cv_category :: welfare_category
  cv_description :: jsstring
  cv_urgency :: welfare_urgency
  cv_isAnonymous :: bool
  cv_submitting :: bool
  cv_emergencySubmitting :: bool
  cv_requestOutcomeUnknown :: bool
  cv_requests :: "WelfareRequest list"
  cv_stateOwner :: "screen_owner option"
  cv_loadError :: jsstring
  cv_loadingRequests :: bool
  cv_refreshingRequests :: bool
  cv_loadingMoreRequests :: bool
  cv_loadedPage :: int
  cv_totalRequests :: int

datatype care_flight =
    HistoryFlight int int jsstring jsstring int
  | SubmitFlight nat jsval jsstring jsstring
  | EmergencyFlight nat "jsstring option" jsstring jsstring

text \<open>The dialog: the token of the confirmation, the lock, and the identity and the words of the render that asked.\<close>

record care_prompt =
  cp_token :: int
  cp_lock :: nat
  cp_churchId :: jsstring
  cp_memberId :: jsstring
  cp_description :: "jsstring option"

record care_screen =
  cs_active :: screen_owner
  cs_offline :: bool
  cs_mounted :: bool
  cs_effect :: "screen_owner option"
  cs_view :: care_view
  cs_drawn :: care_view
  cs_gate :: int
  cs_revision :: int
  cs_locks :: nat
  cs_actionLock :: "nat \<Rightarrow> bool"
  cs_confirmation :: gate
  cs_prompt :: "care_prompt option"
  cs_flights :: "care_flight list"
  cs_alerts :: "(jsstring \<times> jsstring) list"

abbreviation set_care :: "(care_view \<Rightarrow> care_view) \<Rightarrow> care_screen \<Rightarrow> care_screen" where
  "set_care f s \<equiv> s\<lparr>cs_view := f (cs_view s)\<rparr>"

definition care_await :: "care_flight \<Rightarrow> care_screen \<Rightarrow> care_screen" where
  "care_await f s = s\<lparr>cs_flights := cs_flights s @ [f]\<rparr>"

definition care_alert :: "jsstring \<Rightarrow> jsstring \<Rightarrow> care_screen \<Rightarrow> care_screen" where
  "care_alert title message s = s\<lparr>cs_alerts := cs_alerts s @ [(title, message)]\<rparr>"

definition care_release :: "nat \<Rightarrow> care_screen \<Rightarrow> care_screen" where
  "care_release lock s = s\<lparr>cs_actionLock := (cs_actionLock s)(lock := lock_release () (cs_actionLock s lock))\<rparr>"

definition WELFARE_HISTORY_PAGE_SIZE :: int where
  "WELFARE_HISTORY_PAGE_SIZE = 25"

definition MAX_WELFARE_DESCRIPTION_LENGTH :: nat where
  "MAX_WELFARE_DESCRIPTION_LENGTH = 2000"

section \<open>Loading\<close>

definition care_reset :: "screen_owner \<Rightarrow> care_screen \<Rightarrow> care_screen" where
  "care_reset startedOwner s =
     (let lock = cs_locks s + 1 in
      s\<lparr>cs_view := (cs_view s)\<lparr>cv_stateOwner := Some startedOwner, cv_requests := [], cv_loadedPage := 0,
          cv_totalRequests := 0, cv_category := Medical, cv_description := [], cv_urgency := Medium,
          cv_isAnonymous := False, cv_submitting := False, cv_emergencySubmitting := False,
          cv_requestOutcomeUnknown := False\<rparr>,
        cs_revision := next_revision (cs_revision s),
        cs_locks := lock,
        cs_actionLock := (cs_actionLock s)(lock := False),
        cs_confirmation := gate_invalidate (cs_confirmation s)\<rparr>)"

definition care_reconciled :: "care_view \<Rightarrow> care_view" where
  "care_reconciled v =
     (if cv_requestOutcomeUnknown v
      then v\<lparr>cv_description := [], cv_urgency := Medium, cv_isAnonymous := False, cv_requestOutcomeUnknown := False\<rparr>
      else v\<lparr>cv_requestOutcomeUnknown := False\<rparr>)"

definition care_loaded ::
    "int \<Rightarrow> int \<Rightarrow> screen_owner \<Rightarrow> int \<Rightarrow> js_error + WelfareRequest list \<times> int \<Rightarrow> care_screen \<Rightarrow> care_screen" where
  "care_loaded ticket startedRevision owner page answer s =
     (if \<not> isLatest (jint ticket) (cs_gate s) then s
      else
        let s1 = (case answer of
            Inr (requests, tot) \<Rightarrow>
              (let s2 = set_care (\<lambda>v. v\<lparr>cv_requests := (if page = 1 then requests
                    else appendUniquePageById wr_id (cv_requests v) requests),
                    cv_loadedPage := page, cv_totalRequests := tot, cv_stateOwner := Some owner\<rparr>) s
               in if page = 1 \<and> welfareRefreshOwnsReconciliation startedRevision (cs_revision s2)
                 then set_care care_reconciled s2 else s2)
          | Inl cause \<Rightarrow> set_care (\<lambda>v. v\<lparr>cv_loadError :=
              connectivityErrorMessage cause (js ''Your requests could not be loaded.'')\<rparr>) s)
        in set_care (\<lambda>v. v\<lparr>cv_loadingRequests := False, cv_refreshingRequests := False, cv_loadingMoreRequests := False\<rparr>) s1)"

text \<open>The revision is read before the reset, which opens a new one.\<close>

definition loadHistory :: "bool \<Rightarrow> int \<Rightarrow> care_screen \<Rightarrow> care_screen" where
  "loadHistory refresh page s =
     (let (request, gate) = request_begin (cs_gate s);
          startedRevision = cs_revision s;
          s1 = s\<lparr>cs_gate := gate\<rparr>;
          s2 = (if welfareStateBelongsToIdentity (cv_stateOwner (cs_view s1)) (cs_active s1) then s1
                else care_reset (cs_active s1) s1);
          s3 = set_care (\<lambda>v. v\<lparr>cv_loadError := []\<rparr>) s2;
          s4 = set_care (\<lambda>v. if 1 < page then v\<lparr>cv_loadingMoreRequests := True\<rparr>
                 else if refresh then v\<lparr>cv_refreshingRequests := True\<rparr> else v\<lparr>cv_loadingRequests := True\<rparr>) s3
      in case member_of (cs_active s4) of
           Some (churchId, memberId) \<Rightarrow> care_await (HistoryFlight request startedRevision churchId memberId page) s4
         | None \<Rightarrow> care_loaded request startedRevision (cs_active s4) page (Inl (throw ''Member identity is incomplete'')) s4)"

text \<open>The effect of a change of identity: its clean-up when it ran before, then the load.\<close>

definition care_effect :: "care_screen \<Rightarrow> care_screen" where
  "care_effect s =
     (let s1 = (if cs_effect s = None then s else s\<lparr>cs_gate := request_invalidate (cs_gate s)\<rparr>)
      in loadHistory False 1 (s1\<lparr>cs_effect := Some (cs_active s)\<rparr>))"

text \<open>The app leaves the foreground, or the screen is removed: an open confirmation expires and gives back the lock
  in use.\<close>

definition care_expired :: "care_screen \<Rightarrow> care_screen" where
  "care_expired s =
     (let (expired, g) = expireEmergencyConfirmation (cs_confirmation s);
          s1 = s\<lparr>cs_confirmation := g\<rparr>
      in if expired then care_release (cs_locks s1) s1 else s1)"

section \<open>Requests and urgent requests\<close>

definition ownsActiveIdentity :: "jsstring \<Rightarrow> jsstring \<Rightarrow> care_screen \<Rightarrow> bool" where
  "ownsActiveIdentity churchId memberId s \<longleftrightarrow>
     welfareMutationCompletionBelongsToIdentity (cs_mounted s) (cs_active s) churchId memberId"

definition handleCareSubmit :: "care_screen \<Rightarrow> care_screen" where
  "handleCareSubmit s =
     (let d = cs_drawn s in
      if trim (cv_description d) = []
      then care_alert (js ''Describe your request'') (js ''Please tell the pastoral team what support you need.'') s
      else case member_of (cs_active s) of
          None \<Rightarrow> care_alert (js ''Request not sent'') (js ''Your member session is incomplete. Sign in again and retry.'') s
        | Some (churchId, memberId) \<Rightarrow>
            (let (acquired, locked) = lock_acquire () (cs_actionLock s (cs_locks s)) in
             if \<not> acquired then s
             else care_await (SubmitFlight (cs_locks s)
                 (JObj [(''category'', JStr (category_text (cv_category d))), (''description'', JStr (trim (cv_description d))),
                   (''urgency'', JStr (urgency_text (cv_urgency d))), (''isAnonymous'', JBool (cv_isAnonymous d))])
                 churchId memberId)
               (set_care (\<lambda>v. v\<lparr>cv_submitting := True\<rparr>)
                 (s\<lparr>cs_actionLock := (cs_actionLock s)(cs_locks s := locked)\<rparr>))))"

text \<open>What a failed mutation does when its screen is still the member's.\<close>

definition care_failed :: "welfare_mutation \<Rightarrow> js_error \<Rightarrow> care_screen \<Rightarrow> care_screen" where
  "care_failed kind cause s =
     (let (outcomeUnknown, title, message) = welfareMutationFailureAlert kind cause;
          s1 = (if outcomeUnknown
            then set_care (\<lambda>v. v\<lparr>cv_requestOutcomeUnknown := True\<rparr>) (s\<lparr>cs_revision := next_revision (cs_revision s)\<rparr>)
            else s)
      in care_alert title message s1)"

definition submit_answered ::
    "nat \<Rightarrow> jsstring \<Rightarrow> jsstring \<Rightarrow> js_error + WelfareRequest \<Rightarrow> care_screen \<Rightarrow> care_screen" where
  "submit_answered lock churchId memberId answer s =
     (let s1 = (if \<not> ownsActiveIdentity churchId memberId s then s
          else case answer of
              Inr created \<Rightarrow>
                loadHistory True 1
                  (set_care (\<lambda>v. v\<lparr>cv_description := [], cv_urgency := Medium, cv_isAnonymous := False\<rparr>)
                    (care_alert (js ''Request sent'') (js ''Your request has been sent privately to the pastoral team. Someone will reach out to you.'')
                      (set_care (\<lambda>v. v\<lparr>cv_requests := insertUniqueById wr_id (cv_requests v) created True,
                        cv_totalRequests := cv_totalRequests v + 1\<rparr>) s)))
            | Inl cause \<Rightarrow> care_failed CareRequest cause s);
          s2 = care_release lock s1
      in if ownsActiveIdentity churchId memberId s2 then set_care (\<lambda>v. v\<lparr>cv_submitting := False\<rparr>) s2 else s2)"

definition sendEmergency :: "nat \<Rightarrow> jsstring \<Rightarrow> jsstring \<Rightarrow> jsstring option \<Rightarrow> care_screen \<Rightarrow> care_screen" where
  "sendEmergency lock churchId memberId description s =
     (if \<not> ownsActiveIdentity churchId memberId s then care_release lock s
      else care_await (EmergencyFlight lock description churchId memberId)
        (set_care (\<lambda>v. v\<lparr>cv_emergencySubmitting := True\<rparr>) s))"

definition emergency_answered ::
    "nat \<Rightarrow> jsstring \<Rightarrow> jsstring \<Rightarrow> js_error + EmergencyAlertAcknowledgement \<Rightarrow> care_screen \<Rightarrow> care_screen" where
  "emergency_answered lock churchId memberId answer s =
     (let s1 = (if \<not> ownsActiveIdentity churchId memberId s then s
          else case answer of
              Inr _ \<Rightarrow> loadHistory True 1 (care_alert (js ''Urgent request recorded'')
                (js ''Your request is marked critical in the private pastoral queue. If you are in immediate danger, contact local emergency services now.'') s)
            | Inl cause \<Rightarrow> care_failed EmergencyAlert cause s);
          s2 = care_release lock s1
      in if ownsActiveIdentity churchId memberId s2 then set_care (\<lambda>v. v\<lparr>cv_emergencySubmitting := False\<rparr>) s2 else s2)"

text \<open>Asking takes the lock and opens a confirmation.\<close>

definition handleEmergency :: "care_screen \<Rightarrow> care_screen" where
  "handleEmergency s =
     (case member_of (cs_active s) of
        None \<Rightarrow> s
      | Some (churchId, memberId) \<Rightarrow>
          if \<not> ownsActiveIdentity churchId memberId s then s
          else
            let words = trim (cv_description (cs_drawn s));
                (acquired, locked) = lock_acquire () (cs_actionLock s (cs_locks s))
            in if \<not> acquired then s
              else
                let (token, g) = gate_begin (cs_confirmation s)
                in s\<lparr>cs_actionLock := (cs_actionLock s)(cs_locks s := locked), cs_confirmation := g,
                  cs_prompt := Some \<lparr>cp_token = token, cp_lock = cs_locks s, cp_churchId = churchId, cp_memberId = memberId,
                    cp_description = (if words = [] then None else Some words)\<rparr>\<rparr>)"

text \<open>The dialog is dismissed, with its button or without.\<close>

definition emergency_cancelled :: "care_prompt \<Rightarrow> care_screen \<Rightarrow> care_screen" where
  "emergency_cancelled p s =
     (let (cancelled, g) = gate_finish (cp_token p) (cs_confirmation s);
          s1 = s\<lparr>cs_confirmation := g, cs_prompt := None\<rparr>
      in if cancelled then care_release (cp_lock p) s1 else s1)"

definition emergency_confirmed :: "care_prompt \<Rightarrow> care_screen \<Rightarrow> care_screen" where
  "emergency_confirmed p s =
     (let (consumed, g) = gate_finish (cp_token p) (cs_confirmation s);
          s1 = s\<lparr>cs_confirmation := g, cs_prompt := None\<rparr>
      in if \<not> consumed then care_release (cp_lock p) s1
        else sendEmergency (cp_lock p) (cp_churchId p) (cp_memberId p) (cp_description p) s1)"

section \<open>What is drawn\<close>

definition ownsState :: "care_screen \<Rightarrow> bool" where
  "ownsState s \<longleftrightarrow> welfareStateBelongsToIdentity (cv_stateOwner (cs_drawn s)) (cs_active s)"

text \<open>The screen can be used: it is there, it is the member's, and no dialog is over it.\<close>

definition care_usable :: "care_screen \<Rightarrow> bool" where
  "care_usable s \<longleftrightarrow> cs_mounted s \<and> ownsState s \<and> cs_prompt s = None"

definition formActionState :: "care_screen \<Rightarrow> form_state" where
  "formActionState s =
     (let d = cs_drawn s in
      welfareFormActionState (cs_offline s) (cv_submitting d) (cv_emergencySubmitting d) (cv_requestOutcomeUnknown d))"

definition careRequestAction :: "care_screen \<Rightarrow> request_action" where
  "careRequestAction s =
     (let d = cs_drawn s in
      welfareRequestActionState (cs_offline s)
        (cv_submitting d \<or> cv_emergencySubmitting d \<or> cv_requestOutcomeUnknown d \<and> cv_refreshingRequests d)
        (cv_requestOutcomeUnknown d))"

definition care_pagination :: "care_screen \<Rightarrow> resend_state" where
  "care_pagination s =
     paginationActionState (js ''older requests'') (cs_offline s) (cv_loadingMoreRequests (cs_drawn s)) False
       (cv_loadError (cs_drawn s) \<noteq> [])"

definition hasOlderRequests :: "care_screen \<Rightarrow> bool" where
  "hasOlderRequests s \<longleftrightarrow> int (length (cv_requests (cs_drawn s))) < cv_totalRequests (cs_drawn s)"

definition care_history :: "care_screen \<Rightarrow> WelfareRequest list" where
  "care_history s =
     (if ownsState s \<and> \<not> cv_loadingRequests (cs_drawn s) then cv_requests (cs_drawn s) else [])"

section \<open>Steps\<close>

definition care_init :: "screen_owner \<Rightarrow> bool \<Rightarrow> care_screen" where
  "care_init user offline =
     (let view = \<lparr>cv_category = Medical, cv_description = [], cv_urgency = Medium, cv_isAnonymous = False,
         cv_submitting = False, cv_emergencySubmitting = False, cv_requestOutcomeUnknown = False, cv_requests = [],
         cv_stateOwner = Some user, cv_loadError = [], cv_loadingRequests = True, cv_refreshingRequests = False,
         cv_loadingMoreRequests = False, cv_loadedPage = 0, cv_totalRequests = 0\<rparr>
      in \<lparr>cs_active = user, cs_offline = offline, cs_mounted = True, cs_effect = None, cs_view = view, cs_drawn = view,
          cs_gate = 0, cs_revision = 0, cs_locks = 0, cs_actionLock = (\<lambda>_. False),
          cs_confirmation = createEmergencyConfirmationGate, cs_prompt = None, cs_flights = [], cs_alerts = []\<rparr>)"

fun care_answer :: "host \<Rightarrow> api \<Rightarrow> care_flight \<Rightarrow> care_screen \<Rightarrow> care_screen" where
  "care_answer h api (HistoryFlight ticket revision churchId memberId page) s =
     care_loaded ticket revision (owner_of churchId memberId) page
       (listMinePage h api churchId memberId (jint page) (jint WELFARE_HISTORY_PAGE_SIZE)) s"
| "care_answer h api (SubmitFlight lock request churchId memberId) s =
     submit_answered lock churchId memberId (createWelfare h api request churchId memberId) s"
| "care_answer h api (EmergencyFlight lock description churchId memberId) s =
     emergency_answered lock churchId memberId (emergency h api description churchId memberId) s"

datatype care_label =
    CareRendered screen_owner bool
  | CareEffect
  | CareUnmounted
  | CareBackgrounded
  | CareAnswered care_flight api
  | CarePulled
  | CategoryChosen welfare_category
  | NeedTyped jsstring
  | UrgencyChosen welfare_urgency
  | AnonymityToggled
  | CareButtonPressed
  | EmergencyPressed
  | EmergencyConfirmed
  | EmergencyDismissed
  | CareRetried
  | OlderCarePressed

text \<open>One event; \<open>None\<close> when it cannot happen.\<close>

fun care_next :: "host \<Rightarrow> care_label \<Rightarrow> care_screen \<Rightarrow> care_screen option" where
  "care_next h (CareRendered user offline) s =
     (if cs_mounted s then Some (s\<lparr>cs_active := user, cs_offline := offline, cs_drawn := cs_view s\<rparr>) else None)"
| "care_next h CareEffect s =
     (if cs_mounted s \<and> cs_effect s \<noteq> Some (cs_active s) then Some (care_effect s) else None)"
| "care_next h CareUnmounted s =
     (if cs_mounted s
      then Some (care_expired (s\<lparr>cs_mounted := False, cs_gate := request_invalidate (cs_gate s)\<rparr>)) else None)"
| "care_next h CareBackgrounded s = (if cs_mounted s \<and> cs_effect s \<noteq> None then Some (care_expired s) else None)"
| "care_next h (CareAnswered f api) s =
     (if f \<in> set (cs_flights s) then Some (care_answer h api f (s\<lparr>cs_flights := remove1 f (cs_flights s)\<rparr>)) else None)"
| "care_next h CarePulled s = (if care_usable s \<and> \<not> cs_offline s then Some (loadHistory True 1 s) else None)"
| "care_next h (CategoryChosen c) s =
     (if care_usable s \<and> \<not> fs_controlsDisabled (formActionState s)
      then Some (set_care (\<lambda>v. v\<lparr>cv_category := c\<rparr>) s) else None)"
| "care_next h (NeedTyped text) s =
     (if care_usable s \<and> \<not> fs_controlsDisabled (formActionState s) \<and> length text \<le> MAX_WELFARE_DESCRIPTION_LENGTH
      then Some (set_care (\<lambda>v. v\<lparr>cv_description := text\<rparr>) s) else None)"
| "care_next h (UrgencyChosen u) s =
     (if care_usable s \<and> \<not> fs_controlsDisabled (formActionState s)
      then Some (set_care (\<lambda>v. v\<lparr>cv_urgency := u\<rparr>) s) else None)"
| "care_next h AnonymityToggled s =
     (if care_usable s \<and> \<not> fs_controlsDisabled (formActionState s)
      then Some (set_care (\<lambda>v. v\<lparr>cv_isAnonymous := \<not> cv_isAnonymous v\<rparr>) s) else None)"
| "care_next h CareButtonPressed s =
     (if care_usable s \<and> \<not> ra_disabled (careRequestAction s)
      then Some (if ra_refresh (careRequestAction s) then loadHistory True 1 s else handleCareSubmit s) else None)"
| "care_next h EmergencyPressed s =
     (if care_usable s \<and> \<not> fs_emergencyDisabled (formActionState s) then Some (handleEmergency s) else None)"
| "care_next h EmergencyConfirmed s =
     (case cs_prompt s of Some p \<Rightarrow> Some (emergency_confirmed p s) | None \<Rightarrow> None)"
| "care_next h EmergencyDismissed s =
     (case cs_prompt s of Some p \<Rightarrow> Some (emergency_cancelled p s) | None \<Rightarrow> None)"
| "care_next h CareRetried s =
     (if care_usable s \<and> cv_loadError (cs_drawn s) \<noteq> [] \<and> \<not> cs_offline s then Some (loadHistory True 1 s) else None)"
| "care_next h OlderCarePressed s =
     (if care_usable s \<and> care_history s \<noteq> [] \<and> hasOlderRequests s \<and> \<not> ac_disabled (care_pagination s)
      then Some (loadHistory False (cv_loadedPage (cs_drawn s) + 1) s) else None)"

abbreviation care_run :: "host \<Rightarrow> care_screen \<Rightarrow> care_label list \<Rightarrow> care_screen \<Rightarrow> bool" where
  "care_run h \<equiv> step_run (care_next h)"

section \<open>Lemmas\<close>

lemma owns_identity: "ownsActiveIdentity c m s \<longleftrightarrow> cs_mounted s \<and> cs_active s = owner_of c m"
  by (cases "cs_active s")
     (auto simp: ownsActiveIdentity_def welfareMutationCompletionBelongsToIdentity_def completion_belongs_to_identity_def owner_of_def)

lemma state_belongs: "welfareStateBelongsToIdentity w u \<longleftrightarrow> (\<exists>c m. w = Some (owner_of c m) \<and> u = owner_of c m)"
  by (simp add: welfareStateBelongsToIdentity_def belongs_owner)

subsection \<open>One request at a time\<close>

fun action_key :: "nat \<Rightarrow> care_flight \<Rightarrow> unit list" where
  "action_key k (SubmitFlight lock _ _ _) = (if lock = k then [()] else [])"
| "action_key k (EmergencyFlight lock _ _ _) = (if lock = k then [()] else [])"
| "action_key k _ = []"

text \<open>The requests and urgent requests awaited that took the lock \<open>k\<close>.\<close>

definition acting :: "nat \<Rightarrow> care_screen \<Rightarrow> unit list" where
  "acting k s = concat (map (action_key k) (cs_flights s))"

text \<open>A confirmation that can still be consumed is the one of the dialog, and its lock is the one in use and held.\<close>

definition confirmation_live :: "care_screen \<Rightarrow> bool" where
  "confirmation_live s \<longleftrightarrow>
     (\<exists>p. cs_prompt s = Some p \<and> cp_token p = gt_version (cs_confirmation s) \<and> cp_lock p = cs_locks s
        \<and> cs_actionLock s (cs_locks s))"

definition care_locks_inv :: "care_screen \<Rightarrow> bool" where
  "care_locks_inv s \<longleftrightarrow>
     (\<forall>k. length (acting k s) \<le> Suc 0) \<and> (\<forall>k. \<not> cs_actionLock s k \<longrightarrow> acting k s = [])
     \<and> (\<forall>k > cs_locks s. \<not> cs_actionLock s k)
     \<and> (\<forall>p. cs_prompt s = Some p \<longrightarrow> acting (cp_lock p) s = [])
     \<and> (gt_active (cs_confirmation s) \<longrightarrow> confirmation_live s)"

lemma acting_same [simp]:
  "acting k (s\<lparr>cs_view := v\<rparr>) = acting k s" "acting k (s\<lparr>cs_gate := g\<rparr>) = acting k s"
  "acting k (s\<lparr>cs_alerts := a\<rparr>) = acting k s" "acting k (s\<lparr>cs_revision := r\<rparr>) = acting k s"
  "acting k (s\<lparr>cs_actionLock := l\<rparr>) = acting k s" "acting k (s\<lparr>cs_locks := n\<rparr>) = acting k s"
  "acting k (s\<lparr>cs_confirmation := c\<rparr>) = acting k s" "acting k (s\<lparr>cs_prompt := p\<rparr>) = acting k s"
  "acting k (s\<lparr>cs_effect := e\<rparr>) = acting k s" "acting k (s\<lparr>cs_mounted := b\<rparr>) = acting k s"
  "acting k (s\<lparr>cs_active := u, cs_offline := o', cs_drawn := d\<rparr>) = acting k s"
  "acting k (care_await f s) = acting k s @ action_key k f"
  by (simp_all add: acting_def care_await_def)

lemma acting_reset [simp]: "acting k (care_reset u s) = acting k s"
  by (simp add: care_reset_def acting_def Let_def)

lemma care_await_same [simp]:
  "cs_actionLock (care_await f s) = cs_actionLock s" "cs_locks (care_await f s) = cs_locks s"
  "cs_prompt (care_await f s) = cs_prompt s" "cs_confirmation (care_await f s) = cs_confirmation s"
  by (simp_all add: care_await_def)

lemma care_quiet [simp]:
  "care_locks_inv (s\<lparr>cs_view := v\<rparr>) = care_locks_inv s" "care_locks_inv (s\<lparr>cs_gate := g\<rparr>) = care_locks_inv s"
  "care_locks_inv (s\<lparr>cs_alerts := a\<rparr>) = care_locks_inv s" "care_locks_inv (s\<lparr>cs_revision := r\<rparr>) = care_locks_inv s"
  "care_locks_inv (s\<lparr>cs_effect := e\<rparr>) = care_locks_inv s" "care_locks_inv (s\<lparr>cs_mounted := b\<rparr>) = care_locks_inv s"
  "care_locks_inv (s\<lparr>cs_active := u, cs_offline := o', cs_drawn := d\<rparr>) = care_locks_inv s"
  "care_locks_inv (care_alert x y s) = care_locks_inv s"
  by (simp_all add: care_locks_inv_def confirmation_live_def care_alert_def)

lemma care_reset_locks: "care_locks_inv s \<Longrightarrow> care_locks_inv (care_reset u s)"
proof -
  assume inv: "care_locks_inv s"
  then have "acting (Suc (cs_locks s)) s = []"
    unfolding care_locks_inv_def by (metis lessI)
  then show ?thesis
    using inv by (auto simp: care_locks_inv_def confirmation_live_def care_reset_def gate_invalidate_def Let_def) 
qed

lemma care_await_history: "care_locks_inv (care_await (HistoryFlight t r c m k) s) = care_locks_inv s"
  by (simp add: care_locks_inv_def confirmation_live_def)

lemma care_loaded_locks [simp]: "care_locks_inv (care_loaded t r w k a s) = care_locks_inv s"
  by (simp add: care_loaded_def Let_def split: sum.split prod.split)

lemma loadHistory_locks: "care_locks_inv s \<Longrightarrow> care_locks_inv (loadHistory b k s)"
  by (simp add: loadHistory_def Let_def split_beta care_await_history care_reset_locks split: option.split)

lemma care_effect_locks: "care_locks_inv s \<Longrightarrow> care_locks_inv (care_effect s)"
  by (simp add: care_effect_def Let_def loadHistory_locks)

lemma care_expired_locks: "care_locks_inv s \<Longrightarrow> care_locks_inv (care_expired s)"
  by (auto simp: care_expired_def expireEmergencyConfirmation_def care_locks_inv_def confirmation_live_def care_release_def
      lock_release_def gate_invalidate_def Let_def)

lemma handleCareSubmit_locks: "care_locks_inv s \<Longrightarrow> cs_prompt s = None \<Longrightarrow> care_locks_inv (handleCareSubmit s)"
  by (auto simp: handleCareSubmit_def lock_acquire_def Let_def split: option.split)
     (auto simp: care_locks_inv_def confirmation_live_def care_await_def acting_def)

lemma handleEmergency_locks: "care_locks_inv s \<Longrightarrow> cs_prompt s = None \<Longrightarrow> care_locks_inv (handleEmergency s)"
  by (auto simp: handleEmergency_def lock_acquire_def gate_begin_def care_locks_inv_def confirmation_live_def Let_def
      split: option.split)

lemma emergency_cancelled_locks:
  "care_locks_inv s \<Longrightarrow> cs_prompt s = Some p \<Longrightarrow> care_locks_inv (emergency_cancelled p s)"
  by (auto simp: emergency_cancelled_def gate_finish_def care_locks_inv_def confirmation_live_def care_release_def lock_release_def
      Let_def)

lemma emergency_confirmed_locks:
  "care_locks_inv s \<Longrightarrow> cs_prompt s = Some p \<Longrightarrow> care_locks_inv (emergency_confirmed p s)"
  by (auto simp: emergency_confirmed_def sendEmergency_def gate_finish_def care_locks_inv_def confirmation_live_def care_release_def
      lock_release_def Let_def)

lemma care_release_locks:
  assumes "care_locks_inv s" and "acting k s = []" and "\<And>p. cs_prompt s = Some p \<Longrightarrow> cp_lock p \<noteq> k"
  shows "care_locks_inv (care_release k s)"
  using assms by (auto simp: care_locks_inv_def confirmation_live_def care_release_def lock_release_def)

lemma care_taken:
  assumes inv: "care_locks_inv s" and f: "f \<in> set (cs_flights s)"
  shows "care_locks_inv (s\<lparr>cs_flights := remove1 f (cs_flights s)\<rparr>)" (is "care_locks_inv ?t")
    and "action_key k f = [()] \<Longrightarrow> acting k (s\<lparr>cs_flights := remove1 f (cs_flights s)\<rparr>) = []"
    and "action_key k f = [()] \<Longrightarrow> cs_prompt s = Some p \<Longrightarrow> cp_lock p \<noteq> k"
proof -
  have keys: "mset (acting k s) = mset (action_key k f) + mset (acting k ?t)" for k
    using mset_concat_remove1 [OF f, of "action_key k"] by (simp add: acting_def)
  then have len: "length (acting k s) = length (action_key k f) + length (acting k ?t)" for k
    by (metis size_mset size_union)
  have none: "acting k ?t = []" if "acting k s = []" for k
    using len [of k] that by simp
  have "length (acting k ?t) \<le> Suc 0" for k
    using inv len [of k] unfolding care_locks_inv_def by (metis add_leE)
  then show "care_locks_inv ?t"
    using inv none by (auto simp: care_locks_inv_def confirmation_live_def)
  show "acting k ?t = []" if "action_key k f = [()]"
    using len [of k] that inv by (simp add: care_locks_inv_def) (metis Suc_le_mono le_zero_eq length_0_conv)
  show "cp_lock p \<noteq> k" if "action_key k f = [()]" "cs_prompt s = Some p"
    using len [of k] that inv by (auto simp: care_locks_inv_def)
qed

lemma loadHistory_same [simp]:
  "acting n (loadHistory b k s) = acting n s" "cs_prompt (loadHistory b k s) = cs_prompt s"
  by (simp_all add: loadHistory_def care_loaded_def care_reset_def acting_def care_await_def Let_def split_beta split: option.split)

lemma care_failed_same [simp]:
  "acting n (care_failed kind e s) = acting n s" "cs_prompt (care_failed kind e s) = cs_prompt s"
  "care_locks_inv (care_failed kind e s) = care_locks_inv s"
  by (simp_all add: care_failed_def care_alert_def Let_def split_beta)

lemma submit_answered_locks:
  assumes inv: "care_locks_inv s" and free: "acting lock s = []" "\<And>p. cs_prompt s = Some p \<Longrightarrow> cp_lock p \<noteq> lock"
  shows "care_locks_inv (submit_answered lock c m a s)"
proof -
  define s1 where "s1 = (if \<not> ownsActiveIdentity c m s then s else case a of
      Inr x \<Rightarrow> loadHistory True 1
        (set_care (\<lambda>v. v\<lparr>cv_description := [], cv_urgency := Medium, cv_isAnonymous := False\<rparr>)
          (care_alert (js ''Request sent'') (js ''Your request has been sent privately to the pastoral team. Someone will reach out to you.'')
            (set_care (\<lambda>v. v\<lparr>cv_requests := insertUniqueById wr_id (cv_requests v) x True,
              cv_totalRequests := cv_totalRequests v + 1\<rparr>) s)))
    | Inl cause \<Rightarrow> care_failed CareRequest cause s)"
  have "care_locks_inv s1" "acting lock s1 = []" "cs_prompt s1 = cs_prompt s"
    using inv free(1) by (simp_all add: s1_def loadHistory_locks care_alert_def split: sum.split)
  then have "care_locks_inv (care_release lock s1)"
    using free(2) by (intro care_release_locks) simp_all
  then show ?thesis
    by (simp add: submit_answered_def s1_def [symmetric] Let_def)
qed

lemma emergency_answered_locks:
  assumes inv: "care_locks_inv s" and free: "acting lock s = []" "\<And>p. cs_prompt s = Some p \<Longrightarrow> cp_lock p \<noteq> lock"
  shows "care_locks_inv (emergency_answered lock c m a s)"
proof -
  define s1 where "s1 = (if \<not> ownsActiveIdentity c m s then s else case a of
      Inr x \<Rightarrow> loadHistory True 1 (care_alert (js ''Urgent request recorded'')
        (js ''Your request is marked critical in the private pastoral queue. If you are in immediate danger, contact local emergency services now.'') s)
    | Inl cause \<Rightarrow> care_failed EmergencyAlert cause s)"
  have "care_locks_inv s1" "acting lock s1 = []" "cs_prompt s1 = cs_prompt s"
    using inv free(1) by (simp_all add: s1_def loadHistory_locks care_alert_def split: sum.split)
  then have "care_locks_inv (care_release lock s1)"
    using free(2) by (intro care_release_locks) simp_all
  then show ?thesis
    by (simp add: emergency_answered_def s1_def [symmetric] Let_def)
qed

lemma care_step_locks: "care_next h l s = Some t \<Longrightarrow> care_locks_inv s \<Longrightarrow> care_locks_inv t"
proof (induction h l s rule: care_next.induct)
  case (5 h f api s)
  let ?u = "s\<lparr>cs_flights := remove1 f (cs_flights s)\<rparr>"
  have f: "f \<in> set (cs_flights s)" and t: "t = care_answer h api f ?u" using 5(1) by (simp_all split: if_splits)
  note taken = care_taken [OF 5(2) f]
  show ?case
  proof (cases f)
    case (SubmitFlight lock r c m)
    then have key: "action_key lock f = [()]" by simp
    have "care_locks_inv (submit_answered lock c m a ?u)" for a
      by (rule submit_answered_locks [OF taken(1) taken(2) [OF key]]) (use taken(3) [OF key] in simp)
    then show ?thesis using t SubmitFlight by simp
  next
    case (EmergencyFlight lock d c m)
    then have key: "action_key lock f = [()]" by simp
    have "care_locks_inv (emergency_answered lock c m a ?u)" for a
      by (rule emergency_answered_locks [OF taken(1) taken(2) [OF key]]) (use taken(3) [OF key] in simp)
    then show ?thesis using t EmergencyFlight by simp
  qed (use taken(1) t in simp)
qed (auto simp: care_effect_locks care_expired_locks loadHistory_locks handleCareSubmit_locks handleEmergency_locks
    emergency_confirmed_locks emergency_cancelled_locks care_usable_def split: if_splits option.splits)

interpretation care_locks: step_invariant "care_next h" care_locks_inv for h
  by unfold_locales (rule care_step_locks)

subsection \<open>Confirmations\<close>

lemma loadHistory_confirmation:
  "gt_active (cs_confirmation (loadHistory b k s)) \<Longrightarrow> gt_active (cs_confirmation s)"
  by (simp add: loadHistory_def care_loaded_def care_reset_def care_await_def gate_invalidate_def Let_def split_beta
      split: option.splits if_splits)

lemma care_confirmation_same [simp]:
  "cs_confirmation (care_alert x y s) = cs_confirmation s" "cs_confirmation (care_release k s) = cs_confirmation s"
  "cs_confirmation (care_failed kind e s) = cs_confirmation s" "cs_confirmation (handleCareSubmit s) = cs_confirmation s"
  "cs_confirmation (care_loaded t r w n a s) = cs_confirmation s"
  "cs_confirmation (sendEmergency k c m d s) = cs_confirmation s"
  by (simp_all add: care_alert_def care_release_def care_failed_def handleCareSubmit_def care_loaded_def sendEmergency_def
      Let_def split_beta split: option.split sum.split)

lemma answered_confirmation:
  "gt_active (cs_confirmation (submit_answered k c m a s)) \<Longrightarrow> gt_active (cs_confirmation s)"
  "gt_active (cs_confirmation (emergency_answered k c m a' s)) \<Longrightarrow> gt_active (cs_confirmation s)"
  by (auto simp: submit_answered_def emergency_answered_def Let_def dest: loadHistory_confirmation split: if_splits sum.splits)

text \<open>A confirmation can be consumed only since it was asked for, in the foreground.\<close>

lemma care_step_confirmation:
  "care_next h l s = Some t \<Longrightarrow> gt_active (cs_confirmation t) \<Longrightarrow>
     l = EmergencyPressed \<or> gt_active (cs_confirmation s) \<and> l \<noteq> CareBackgrounded \<and> l \<noteq> CareUnmounted"
proof (induction h l s rule: care_next.induct)
  case (5 h f api s)
  then show ?case by (cases f) (auto dest: answered_confirmation split: if_splits)
qed (auto simp: care_effect_def care_expired_def expireEmergencyConfirmation_def gate_invalidate_def emergency_confirmed_def
    emergency_cancelled_def gate_finish_def Let_def dest!: loadHistory_confirmation split: if_splits option.splits)

text \<open>The words a screen draws in the field of the need, without the spaces around them; none when it is empty.\<close>

definition words_drawn :: "care_screen \<Rightarrow> jsstring option" where
  "words_drawn u =
     (if trim (cv_description (cs_drawn u)) = [] then None else Some (trim (cv_description (cs_drawn u))))"

text \<open>The button of the urgent request was pressed on a screen that drew the words \<open>d\<close>, and the app has not left
  the foreground since.\<close>

definition asked_in_foreground :: "host \<Rightarrow> care_screen \<Rightarrow> care_label list \<Rightarrow> jsstring option \<Rightarrow> bool" where
  "asked_in_foreground h s0 ls d \<longleftrightarrow>
     (\<exists>before after u. ls = before @ EmergencyPressed # after \<and> CareBackgrounded \<notin> set after \<and> CareUnmounted \<notin> set after
        \<and> care_run h s0 before u \<and> d = words_drawn u)"

lemma asked_now: "care_run h s0 ls s \<Longrightarrow> asked_in_foreground h s0 (ls @ [EmergencyPressed]) (words_drawn s)"
  unfolding asked_in_foreground_def by (intro exI [of _ ls] exI [of _ "[]"] exI [of _ s]) simp

lemma asked_before:
  "asked_in_foreground h s0 ls d \<Longrightarrow> l \<noteq> CareBackgrounded \<Longrightarrow> l \<noteq> CareUnmounted \<Longrightarrow> asked_in_foreground h s0 (ls @ [l]) d"
  unfolding asked_in_foreground_def by (elim exE, rule_tac x = before in exI, rule_tac x = "after @ [l]" in exI) auto

lemma care_prompt_same [simp]:
  "cs_prompt (care_alert x y s) = cs_prompt s" "cs_prompt (care_release k s) = cs_prompt s"
  "cs_prompt (care_loaded t r w n a s) = cs_prompt s" "cs_prompt (handleCareSubmit s) = cs_prompt s"
  "cs_prompt (sendEmergency k c m d s) = cs_prompt s" "cs_prompt (care_expired s) = cs_prompt s"
  by (simp_all add: care_alert_def care_release_def care_loaded_def handleCareSubmit_def sendEmergency_def care_expired_def
      Let_def split_beta split: option.split sum.split)

text \<open>Only the button opens the dialog.\<close>

lemma care_step_prompt:
  "care_next h l s = Some t \<Longrightarrow> cs_prompt t = Some p \<Longrightarrow> l \<noteq> EmergencyPressed \<Longrightarrow> cs_prompt s = Some p"
proof (induction h l s rule: care_next.induct)
  case (5 h f api s)
  then show ?case
    by (cases f) (auto simp: submit_answered_def emergency_answered_def Let_def split: if_splits sum.splits)
qed (auto simp: care_effect_def emergency_confirmed_def emergency_cancelled_def Let_def split_beta
    split: if_splits option.splits)

lemma asking_opens_dialog:
  "gt_active (cs_confirmation (handleEmergency s)) \<Longrightarrow> \<not> gt_active (cs_confirmation s) \<Longrightarrow>
     \<exists>p. cs_prompt (handleEmergency s) = Some p \<and> cp_description p = words_drawn s"
  by (auto simp: handleEmergency_def words_drawn_def Let_def split_beta split: option.splits if_splits)

lemma care_init_locks: "care_locks_inv (care_init u b)"
  by (simp add: care_locks_inv_def care_init_def acting_def createEmergencyConfirmationGate_def Let_def)

lemma care_run_confirmation:
  "care_run h (care_init u b) ls s \<Longrightarrow> gt_active (cs_confirmation s) \<Longrightarrow>
     \<exists>p. cs_prompt s = Some p \<and> asked_in_foreground h (care_init u b) ls (cp_description p)"
proof (induction ls s rule: step_run.induct)
  case here
  then show ?case by (simp add: care_init_def createEmergencyConfirmationGate_def Let_def)
next
  case (further ls s l t)
  have inv: "care_locks_inv s" by (rule care_locks.run_kept [OF further.hyps(1) care_init_locks])
  then have "care_locks_inv t" by (rule care_locks.kept [OF further.hyps(2)])
  show ?case
  proof (cases "l = EmergencyPressed")
    case True
    then have "t = handleEmergency s" "\<not> gt_active (cs_confirmation s)"
      using further.hyps(2) inv
      by (auto simp: care_usable_def care_locks_inv_def confirmation_live_def split: if_splits)
    then show ?thesis
      using asking_opens_dialog [of s] further.prems asked_now [OF further.hyps(1)] True by auto
  next
    case False
    then have "gt_active (cs_confirmation s)" and l: "l \<noteq> CareBackgrounded" "l \<noteq> CareUnmounted"
      using care_step_confirmation [OF further.hyps(2) further.prems] by auto
    moreover obtain p where p: "cs_prompt t = Some p"
      using \<open>care_locks_inv t\<close> further.prems by (auto simp: care_locks_inv_def confirmation_live_def)
    ultimately show ?thesis
      using further.IH care_step_prompt [OF further.hyps(2) p False] asked_before [OF _ l] by auto
  qed
qed

text \<open>The requests awaited after a step that are not awaited before.\<close>

fun is_emergency :: "care_flight \<Rightarrow> bool" where
  "is_emergency (EmergencyFlight _ _ _ _) = True"
| "is_emergency _ = False"

definition no_new_emergency :: "care_screen \<Rightarrow> care_screen \<Rightarrow> bool" where
  "no_new_emergency s t \<longleftrightarrow> (\<forall>f\<in>set (cs_flights t). is_emergency f \<longrightarrow> f \<in> set (cs_flights s))"

lemma no_new_same: "set (cs_flights t) \<subseteq> set (cs_flights s) \<Longrightarrow> no_new_emergency s t"
  by (auto simp: no_new_emergency_def)

lemma no_new_trans: "no_new_emergency s t \<Longrightarrow> no_new_emergency t u \<Longrightarrow> no_new_emergency s u"
  by (auto simp: no_new_emergency_def)

lemma loadHistory_no_emergency: "cs_flights s = cs_flights r \<Longrightarrow> no_new_emergency r (loadHistory b k s)"
  by (auto simp: loadHistory_def care_loaded_def care_reset_def care_await_def no_new_emergency_def Let_def split_beta
      split: option.split)

lemma flights_quiet [simp]:
  "cs_flights (care_alert x y s) = cs_flights s" "cs_flights (care_release k s) = cs_flights s"
  "cs_flights (care_failed kind e s) = cs_flights s" "cs_flights (care_loaded t r w n a s) = cs_flights s"
  "cs_flights (care_expired s) = cs_flights s" "cs_flights (emergency_cancelled p s) = cs_flights s"
  "cs_flights (handleEmergency s) = cs_flights s"
  by (simp_all add: care_alert_def care_release_def care_failed_def care_loaded_def care_expired_def emergency_cancelled_def
      handleEmergency_def Let_def split_beta split: option.split sum.split)

lemma no_new_release [simp]:
  "no_new_emergency r (care_release k s) = no_new_emergency r s" "no_new_emergency r (set_care f s) = no_new_emergency r s"
  by (simp_all add: no_new_emergency_def)

lemma answered_no_emergency:
  "no_new_emergency s (submit_answered k c m a s)" "no_new_emergency s (emergency_answered k c m a' s)"
  by (auto simp: submit_answered_def emergency_answered_def Let_def intro: loadHistory_no_emergency no_new_same split: sum.split)

lemma handleCareSubmit_no_emergency: "no_new_emergency s (handleCareSubmit s)"
  by (auto simp: handleCareSubmit_def care_await_def no_new_emergency_def Let_def split_beta split: option.split)

lemma care_effect_no_emergency: "no_new_emergency s (care_effect s)"
  by (simp add: care_effect_def Let_def loadHistory_no_emergency)

lemma care_step_no_emergency:
  "care_next h l s = Some t \<Longrightarrow> l \<noteq> EmergencyConfirmed \<Longrightarrow> no_new_emergency s t"
proof (induction h l s rule: care_next.induct)
  case (5 h f api s)
  let ?u = "s\<lparr>cs_flights := remove1 f (cs_flights s)\<rparr>"
  have "no_new_emergency s ?u" by (rule no_new_same) (simp add: set_remove1_subset)
  moreover have "t = care_answer h api f ?u" using 5 by (simp split: if_splits)
  moreover have "no_new_emergency ?u (care_answer h api f ?u)"
    by (cases f) (simp_all add: answered_no_emergency no_new_same)
  ultimately show ?case by (metis no_new_trans)
qed (auto simp: loadHistory_no_emergency handleCareSubmit_no_emergency care_effect_no_emergency intro: no_new_same
    split: if_splits option.splits)

subsection \<open>Whose history it is\<close>

lemma care_loaded_same [simp]:
  "cs_gate (care_loaded t r w k a s) = cs_gate s" "cs_drawn (care_loaded t r w k a s) = cs_drawn s"
  "cs_active (care_loaded t r w k a s) = cs_active s" "cs_mounted (care_loaded t r w k a s) = cs_mounted s"
  "cv_requests (cs_view (care_loaded t r w k (Inl e) s)) = cv_requests (cs_view s)"
  "cv_stateOwner (cs_view (care_loaded t r w k (Inl e) s)) = cv_stateOwner (cs_view s)"
  by (simp_all add: care_loaded_def Let_def split: sum.split)

definition history_ok :: "host \<Rightarrow> care_view \<Rightarrow> bool" where
  "history_ok h v \<longleftrightarrow> distinct (map wr_id (cv_requests v))
     \<and> (\<forall>r\<in>set (cv_requests v). \<exists>c m. cv_stateOwner v = Some (owner_of c m) \<and> welfare_ok h c m r)"

definition pages_bounded :: "care_screen \<Rightarrow> bool" where
  "pages_bounded s \<longleftrightarrow> (\<forall>t r c m k. HistoryFlight t r c m k \<in> set (cs_flights s) \<longrightarrow> t \<le> cs_gate s)"

text \<open>The newest page awaited is the member's whose requests are in the view.\<close>

definition pages_owned :: "care_screen \<Rightarrow> bool" where
  "pages_owned s \<longleftrightarrow>
     (\<forall>r c m k. HistoryFlight (cs_gate s) r c m k \<in> set (cs_flights s) \<longrightarrow> cs_gate s \<le> max_safe_integer
        \<longrightarrow> cv_stateOwner (cs_view s) = Some (owner_of c m))"

definition care_inv :: "host \<Rightarrow> care_screen \<Rightarrow> bool" where
  "care_inv h s \<longleftrightarrow> history_ok h (cs_view s) \<and> history_ok h (cs_drawn s) \<and> pages_bounded s \<and> pages_owned s"

lemma care_inv_same:
  assumes "care_inv h s" and "cv_requests (cs_view t) = cv_requests (cs_view s)"
    and "cv_stateOwner (cs_view t) = cv_stateOwner (cs_view s)" and "cs_drawn t = cs_drawn s" and "cs_gate t = cs_gate s"
    and "\<And>n r c m k. HistoryFlight n r c m k \<in> set (cs_flights t) \<Longrightarrow> HistoryFlight n r c m k \<in> set (cs_flights s)"
  shows "care_inv h t"
  using assms unfolding care_inv_def history_ok_def pages_bounded_def pages_owned_def by metis

text \<open>A load may start with requests that are not the member's: it drops them.\<close>

lemma loadHistory_inv:
  assumes "history_ok h (cs_drawn s)" and "pages_bounded s"
    and ok: "welfareStateBelongsToIdentity (cv_stateOwner (cs_view s)) (cs_active s) \<Longrightarrow> history_ok h (cs_view s)"
  shows "care_inv h (loadHistory b k s)"
proof -
  define g where "g = next_revision (cs_gate s)"
  define s1 where "s1 = s\<lparr>cs_gate := g\<rparr>"
  define s2 where "s2 = (if welfareStateBelongsToIdentity (cv_stateOwner (cs_view s1)) (cs_active s1) then s1
    else care_reset (cs_active s1) s1)"
  define s3 where "s3 = set_care (\<lambda>v. if 1 < k then v\<lparr>cv_loadingMoreRequests := True\<rparr>
      else if b then v\<lparr>cv_refreshingRequests := True\<rparr> else v\<lparr>cv_loadingRequests := True\<rparr>)
    (set_care (\<lambda>v. v\<lparr>cv_loadError := []\<rparr>) s2)"
  have run: "loadHistory b k s = (case member_of (cs_active s3) of
      Some (c, m) \<Rightarrow> care_await (HistoryFlight g (cs_revision s) c m k) s3
    | None \<Rightarrow> care_loaded g (cs_revision s) (cs_active s3) k (Inl (throw ''Member identity is incomplete'')) s3)"
    by (simp only: loadHistory_def request_begin_def s3_def s2_def s1_def g_def Let_def prod.case)
  have same: "cs_gate s3 = g" "cs_flights s3 = cs_flights s" "cs_drawn s3 = cs_drawn s" "cs_active s3 = cs_active s"
    by (simp_all add: s3_def s2_def s1_def care_reset_def Let_def)
  have owner: "cv_stateOwner (cs_view s3) = Some (cs_active s)"
    by (auto simp: s3_def s2_def s1_def care_reset_def state_belongs Let_def)
  have view: "history_ok h (cs_view s3)"
    using ok by (simp add: s3_def s2_def s1_def care_reset_def history_ok_def Let_def)
  have fresh: "g \<le> max_safe_integer \<Longrightarrow> HistoryFlight g r c m n \<notin> set (cs_flights s)" for r c m n
    using assms(2) by (fastforce simp: pages_bounded_def g_def next_revision_def max_safe_integer_def split: if_splits)
  have "pages_bounded s3"
    using assms(2) order_trans [OF _ next_revision_le] by (simp add: pages_bounded_def same g_def)
  then have i3: "care_inv h s3"
    using view assms(1) same fresh by (auto simp: care_inv_def pages_owned_def)
  show ?thesis
  proof (cases "member_of (cs_active s)")
    case None
    have "care_inv h (care_loaded g (cs_revision s) (cs_active s3) k (Inl e) s3)" for e
      using i3 by (rule care_inv_same) simp_all
    then show ?thesis using None run same(4) by simp
  next
    case (Some cm)
    then obtain c m where cm: "cm = (c, m)" "cs_active s = owner_of c m" by (cases cm) (auto simp: member_of_iff)
    have "care_inv h (care_await (HistoryFlight g (cs_revision s) c m k) s3)"
      using i3 same owner fresh cm by (auto simp: care_inv_def care_await_def pages_bounded_def pages_owned_def)
    then show ?thesis using Some run same(4) cm by simp
  qed
qed

lemma loadHistory_inv': "care_inv h s \<Longrightarrow> care_inv h (loadHistory b k s)"
  by (rule loadHistory_inv) (simp_all add: care_inv_def)

lemma care_loaded_inv:
  assumes inv: "care_inv h s"
    and owner: "isLatest (jint t) (cs_gate s) \<Longrightarrow> cv_stateOwner (cs_view s) = Some (owner_of c m)"
    and answer: "\<And>rs n. a = Inr (rs, n) \<Longrightarrow> distinct (map wr_id rs) \<and> (\<forall>r\<in>set rs. welfare_ok h c m r)"
  shows "care_inv h (care_loaded t r (owner_of c m) k a s)" (is "care_inv h ?t")
proof (cases "isLatest (jint t) (cs_gate s)")
  case latest: True
  show ?thesis
  proof (cases a)
    case (Inl e)
    show ?thesis unfolding Inl using inv by (rule care_inv_same) simp_all
  next
    case (Inr p)
    obtain rs n where p: "p = (rs, n)" by (cases p)
    define qs where "qs = (if k = 1 then rs else appendUniquePageById wr_id (cv_requests (cs_view s)) rs)"
    have old: "distinct (map wr_id (cv_requests (cs_view s)))" "\<forall>r\<in>set (cv_requests (cs_view s)). welfare_ok h c m r"
      using inv owner [OF latest] by (auto simp: care_inv_def history_ok_def)
    have qs: "distinct (map wr_id qs)" "\<forall>r\<in>set qs. welfare_ok h c m r"
      using old answer [OF Inr [unfolded p]] by (auto simp: qs_def distinct_appendUniquePage dest!: set_appendUniquePage)
    have view: "cv_requests (cs_view ?t) = qs" "cv_stateOwner (cs_view ?t) = Some (owner_of c m)"
      using latest by (simp_all add: care_loaded_def Inr p qs_def care_reconciled_def Let_def)
    then have "history_ok h (cs_view ?t)" using qs by (simp add: history_ok_def)
    moreover have "pages_owned ?t"
      using inv owner [OF latest] view(2) by (simp add: care_inv_def pages_owned_def)
    ultimately show ?thesis using inv by (simp add: care_inv_def pages_bounded_def)
  qed
qed (simp add: care_loaded_def inv)

lemma care_gate_next: "care_inv h s \<Longrightarrow> care_inv h (s\<lparr>cs_gate := next_revision (cs_gate s)\<rparr>)"
  by (fastforce simp: care_inv_def pages_bounded_def pages_owned_def next_revision_def max_safe_integer_def split: if_splits)

lemma care_inv_quiet [simp]:
  "care_inv h (care_alert x y s) = care_inv h s" "care_inv h (care_release n s) = care_inv h s"
  "care_inv h (s\<lparr>cs_revision := r\<rparr>) = care_inv h s" "care_inv h (s\<lparr>cs_actionLock := l\<rparr>) = care_inv h s"
  "care_inv h (s\<lparr>cs_confirmation := c\<rparr>) = care_inv h s" "care_inv h (s\<lparr>cs_prompt := p\<rparr>) = care_inv h s"
  "care_inv h (s\<lparr>cs_effect := e\<rparr>) = care_inv h s" "care_inv h (s\<lparr>cs_mounted := b\<rparr>) = care_inv h s"
  by (simp_all add: care_inv_def pages_bounded_def pages_owned_def care_alert_def care_release_def)

lemma care_inv_view:
  "cv_requests v = cv_requests (cs_view s) \<Longrightarrow> cv_stateOwner v = cv_stateOwner (cs_view s) \<Longrightarrow>
     care_inv h (s\<lparr>cs_view := v\<rparr>) = care_inv h s"
  by (simp add: care_inv_def history_ok_def pages_bounded_def pages_owned_def)

lemma care_failed_inv: "care_inv h s \<Longrightarrow> care_inv h (care_failed kind e s)"
  by (simp add: care_failed_def Let_def split_beta care_inv_view)

lemma submit_answered_inv:
  assumes inv: "care_inv h s" and answer: "\<And>r. a = Inr r \<Longrightarrow> welfare_ok h c m r"
  shows "care_inv h (submit_answered k c m a s)"
proof -
  define s1 where "s1 = (if \<not> ownsActiveIdentity c m s then s else case a of
      Inr x \<Rightarrow> loadHistory True 1
        (set_care (\<lambda>v. v\<lparr>cv_description := [], cv_urgency := Medium, cv_isAnonymous := False\<rparr>)
          (care_alert (js ''Request sent'') (js ''Your request has been sent privately to the pastoral team. Someone will reach out to you.'')
            (set_care (\<lambda>v. v\<lparr>cv_requests := insertUniqueById wr_id (cv_requests v) x True,
              cv_totalRequests := cv_totalRequests v + 1\<rparr>) s)))
    | Inl cause \<Rightarrow> care_failed CareRequest cause s)"
  have "care_inv h s1"
  proof (cases "ownsActiveIdentity c m s")
    case owns: True
    show ?thesis
    proof (cases a)
      case (Inl e)
      then show ?thesis using inv owns by (simp add: s1_def care_failed_inv)
    next
      case (Inr x)
      have "history_ok h ((cs_view s)\<lparr>cv_requests := insertUniqueById wr_id (cv_requests (cs_view s)) x True\<rparr>)"
        if "cv_stateOwner (cs_view s) = Some (owner_of c m)"
        using inv that answer [OF Inr]
        by (auto simp: care_inv_def history_ok_def distinct_insertUnique dest!: set_insertUnique)
      then show ?thesis
        using inv owns
        by (simp add: s1_def Inr care_alert_def)
           (rule loadHistory_inv, auto simp: care_inv_def pages_bounded_def history_ok_def state_belongs owns_identity)
    qed
  qed (simp add: s1_def inv)
  then show ?thesis
    by (simp add: submit_answered_def s1_def [symmetric] Let_def care_inv_view)
qed

lemma emergency_answered_inv:
  assumes inv: "care_inv h s" shows "care_inv h (emergency_answered k c m a s)"
proof -
  define s1 where "s1 = (if \<not> ownsActiveIdentity c m s then s else case a of
      Inr x \<Rightarrow> loadHistory True 1 (care_alert (js ''Urgent request recorded'')
        (js ''Your request is marked critical in the private pastoral queue. If you are in immediate danger, contact local emergency services now.'') s)
    | Inl cause \<Rightarrow> care_failed EmergencyAlert cause s)"
  have "care_inv h s1"
    using inv by (simp add: s1_def care_failed_inv loadHistory_inv' split: sum.split)
  then show ?thesis
    by (simp add: emergency_answered_def s1_def [symmetric] Let_def care_inv_view)
qed

lemma care_await_inv: "\<not> is_emergency f \<longrightarrow> (\<exists>k r c m. f = SubmitFlight k r c m) \<Longrightarrow> care_inv h (care_await f s) = care_inv h s"
  by (cases f) (simp_all add: care_inv_def pages_bounded_def pages_owned_def care_await_def)

lemma care_handlers_inv:
  assumes "care_inv h s"
  shows "care_inv h (handleCareSubmit s)" "care_inv h (handleEmergency s)" "care_inv h (emergency_confirmed p s)"
    "care_inv h (emergency_cancelled p s)" "care_inv h (care_expired s)"
  using assms by (simp_all add: handleCareSubmit_def handleEmergency_def emergency_confirmed_def emergency_cancelled_def
      sendEmergency_def care_expired_def Let_def split_beta care_await_inv care_inv_view split: option.split)

lemma care_step_inv: "care_next h l s = Some t \<Longrightarrow> care_inv h s \<Longrightarrow> care_inv h t"
proof (induction h l s rule: care_next.induct)
  case (1 h user offline s)
  have "care_inv h (s\<lparr>cs_active := user, cs_offline := offline, cs_drawn := cs_view s\<rparr>)"
    using 1(2) by (simp add: care_inv_def pages_bounded_def pages_owned_def)
  then show ?case using 1(1) by (simp split: if_splits)
next
  case (2 h s)
  then have "care_inv h (s\<lparr>cs_gate := next_revision (cs_gate s)\<rparr>)" by (simp add: care_gate_next)
  then show ?case
    using 2 by (auto simp: care_effect_def request_invalidate_def Let_def intro!: loadHistory_inv' split: if_splits)
next
  case (3 h s)
  then have "care_inv h (s\<lparr>cs_mounted := False, cs_gate := next_revision (cs_gate s)\<rparr>)"
    using care_gate_next [of h "s\<lparr>cs_mounted := False\<rparr>"] by simp
  then show ?case
    using 3 care_handlers_inv(5) by (auto simp: request_invalidate_def split: if_splits)
next
  case (5 h f api s)
  let ?u = "s\<lparr>cs_flights := remove1 f (cs_flights s)\<rparr>"
  have f: "f \<in> set (cs_flights s)" and t: "t = care_answer h api f ?u" using 5 by (simp_all split: if_splits)
  have u: "care_inv h ?u"
    using 5(2) by (rule care_inv_same) (auto dest: subsetD [OF set_remove1_subset])
  show ?case
  proof (cases f)
    case (HistoryFlight n r c m k)
    have "cv_stateOwner (cs_view ?u) = Some (owner_of c m)" if "isLatest (jint n) (cs_gate ?u)"
      using that 5(2) f HistoryFlight by (auto simp: care_inv_def pages_owned_def isLatest_jint)
    moreover have "distinct (map wr_id rs) \<and> (\<forall>r\<in>set rs. welfare_ok h c m r)"
      if "listMinePage h api c m (jint k) (jint WELFARE_HISTORY_PAGE_SIZE) = Inr (rs, i)" for rs i
      using care_history_is_own [THEN conjunct1, rule_format, OF that] by (simp add: page_ok_def)
    ultimately show ?thesis
      unfolding t HistoryFlight by (simp only: care_answer.simps) (rule care_loaded_inv, (use u HistoryFlight in simp_all))
  next
    case (SubmitFlight lock r c m)
    show ?thesis
      unfolding t SubmitFlight
      using submit_answered_inv [OF u] care_mutations_are_confirmed [THEN conjunct1, rule_format] SubmitFlight by simp
  qed (use t u emergency_answered_inv in simp)
qed (auto simp: care_inv_view loadHistory_inv' care_handlers_inv split: if_splits option.splits)

interpretation care_shown: step_invariant "care_next h" "care_inv h" for h
  by unfold_locales (rule care_step_inv)

section \<open>Revisions\<close>

definition care_revisions :: "care_screen \<Rightarrow> int set" where
  "care_revisions s = {r. \<exists>t c m k. HistoryFlight t r c m k \<in> set (cs_flights s)}"

definition care_moves :: "care_screen \<Rightarrow> care_screen \<Rightarrow> bool" where
  "care_moves s t \<longleftrightarrow> cs_revision s \<le> cs_revision t
     \<and> (\<forall>r\<in>care_revisions t. r \<in> care_revisions s \<or> r \<le> cs_revision t)"

lemma care_moves_trans: "care_moves s t \<Longrightarrow> care_moves t u \<Longrightarrow> care_moves s u"
  unfolding care_moves_def by (meson order_trans)

lemma care_moves_same:
  "cs_revision s \<le> cs_revision t \<Longrightarrow> (\<And>n r c m k. HistoryFlight n r c m k \<in> set (cs_flights t) \<Longrightarrow> HistoryFlight n r c m k \<in> set (cs_flights s))
     \<Longrightarrow> care_moves s t"
  by (fastforce simp: care_moves_def care_revisions_def)

lemma care_revision_same [simp]:
  "cs_revision (care_alert x y s) = cs_revision s" "cs_revision (care_release k s) = cs_revision s"
  "cs_revision (care_loaded t r w n a s) = cs_revision s" "cs_revision (care_await f s) = cs_revision s"
  "cs_revision (care_expired s) = cs_revision s" "cs_revision (emergency_cancelled p s) = cs_revision s"
  "cs_revision (handleEmergency s) = cs_revision s" "cs_revision (handleCareSubmit s) = cs_revision s"
  "cs_revision (emergency_confirmed p s) = cs_revision s"
  by (simp_all add: care_alert_def care_release_def care_loaded_def care_await_def care_expired_def emergency_cancelled_def
      handleEmergency_def handleCareSubmit_def emergency_confirmed_def sendEmergency_def Let_def split_beta
      split: option.split sum.split)

lemma loadHistory_moves: "care_moves s (loadHistory b k s)"
  by (auto simp: care_moves_def care_revisions_def loadHistory_def care_reset_def care_await_def Let_def split_beta
      intro: order_trans [OF _ next_revision_le] split: option.split)

lemma care_failed_moves: "care_moves s (care_failed kind e s)"
  by (rule care_moves_same) (simp_all add: care_failed_def care_alert_def Let_def split_beta split: if_splits)

lemma care_moves_release [simp]:
  "care_moves s (care_release k t) = care_moves s t" "care_moves s (set_care f t) = care_moves s t"
  by (simp_all add: care_moves_def care_revisions_def)

lemma care_load_after: "care_moves s t \<Longrightarrow> care_moves s (loadHistory b k t)"
  using loadHistory_moves care_moves_trans by blast

lemma answered_moves: "care_moves s (submit_answered k c m a s)" "care_moves s (emergency_answered k c m a' s)"
  by (auto simp: submit_answered_def emergency_answered_def Let_def
      intro!: care_load_after care_failed_moves intro: care_moves_same split: sum.split)

lemma care_handlers_moves:
  "care_moves s (handleCareSubmit s)" "care_moves s (handleEmergency s)" "care_moves s (emergency_confirmed p s)"
  "care_moves s (emergency_cancelled p s)" "care_moves s (care_expired s)"
  by (rule care_moves_same; auto simp: handleCareSubmit_def emergency_confirmed_def sendEmergency_def care_await_def Let_def
      split_beta split: option.splits if_splits)+

lemma care_step_moves: "care_next h l s = Some t \<Longrightarrow> care_moves s t"
proof (induction h l s rule: care_next.induct)
  case (5 h f api s)
  let ?u = "s\<lparr>cs_flights := remove1 f (cs_flights s)\<rparr>"
  have "care_moves s ?u" by (rule care_moves_same) (auto dest: subsetD [OF set_remove1_subset])
  moreover have "t = care_answer h api f ?u" using 5 by (simp split: if_splits)
  moreover have "care_moves ?u (care_answer h api f ?u)"
    by (cases f) (auto simp: answered_moves intro: care_moves_same)
  ultimately show ?case by (metis care_moves_trans)
qed (auto simp: care_effect_def Let_def care_handlers_moves intro!: care_load_after intro: care_moves_same
    care_moves_trans [OF care_moves_same care_handlers_moves(5)] split: if_splits option.splits)

interpretation care_pages: reconciled_screen "care_next h" cs_revision care_revisions for h
  by unfold_locales (drule care_step_moves, auto simp: care_moves_def)+

abbreviation care_unknown :: "care_screen \<Rightarrow> bool" where
  "care_unknown s \<equiv> cv_requestOutcomeUnknown (cs_view s)"

lemma loadHistory_unknown: "care_unknown (loadHistory b k s) \<Longrightarrow> care_unknown s"
  by (auto simp: loadHistory_def care_loaded_def care_reset_def care_await_def Let_def split_beta
      split: option.splits if_splits)

lemma care_unknown_same [simp]:
  "care_unknown (care_alert x y s) = care_unknown s" "care_unknown (care_release k s) = care_unknown s"
  by (simp_all add: care_alert_def care_release_def)

lemma care_failed_unknown:
  "care_unknown (care_failed kind e s) \<Longrightarrow> \<not> care_unknown s \<Longrightarrow> cs_revision (care_failed kind e s) = next_revision (cs_revision s)"
  by (auto simp: care_failed_def Let_def split_beta split: if_splits)

lemma care_loaded_unknown: "care_unknown (care_loaded t r w k a s) \<Longrightarrow> care_unknown s"
  by (auto simp: care_loaded_def care_reconciled_def Let_def split: sum.splits if_splits)

lemma care_loaded_older: "r \<noteq> cs_revision s \<Longrightarrow> care_unknown (care_loaded t r w k a s) = care_unknown s"
  by (auto simp: care_loaded_def welfareRefreshOwnsReconciliation_def Let_def split: sum.splits)

lemma answered_unknown:
  "care_unknown (submit_answered k c m a s) \<Longrightarrow> \<not> care_unknown s \<Longrightarrow>
     cs_revision (submit_answered k c m a s) = next_revision (cs_revision s)"
  "care_unknown (emergency_answered k c m a' s) \<Longrightarrow> \<not> care_unknown s \<Longrightarrow>
     cs_revision (emergency_answered k c m a' s) = next_revision (cs_revision s)"
  by (auto simp: submit_answered_def emergency_answered_def Let_def
      dest: loadHistory_unknown care_failed_unknown split: if_splits sum.splits)

lemma care_became_unknown:
  "care_next h l s = Some t \<Longrightarrow> \<not> care_unknown s \<Longrightarrow> care_unknown t \<Longrightarrow> cs_revision t = next_revision (cs_revision s)"
proof (induction h l s rule: care_next.induct)
  case (5 h f api s)
  let ?u = "s\<lparr>cs_flights := remove1 f (cs_flights s)\<rparr>"
  have "t = care_answer h api f ?u" using 5(1) by (simp split: if_splits)
  then show ?case
    using 5(2,3) answered_unknown [of _ _ _ _ ?u] by (cases f) (auto dest: care_loaded_unknown)
qed (auto simp: care_effect_def care_expired_def handleCareSubmit_def handleEmergency_def emergency_confirmed_def
    emergency_cancelled_def sendEmergency_def care_await_def Let_def split_beta dest!: loadHistory_unknown
    split: if_splits option.splits)

text \<open>A page of the history asked for before an outcome became unknown does not settle it, whenever it arrives.\<close>

lemma older_history_keeps_unknown:
  assumes "care_run h (care_init user offline) ls s" and "HistoryFlight n r c m k \<in> set (cs_flights s)"
    and "care_next h l s = Some s1" and "\<not> care_unknown s" and "care_unknown s1" and "cs_revision s < 9007199254740992"
    and "care_run h s1 ls' u" and "care_next h (CareAnswered (HistoryFlight n r c m k) api) u = Some v"
  shows "care_unknown v = care_unknown u"
proof -
  have "r < cs_revision u"
  proof (rule care_pages.older [OF assms(1) _ _ _ assms(7)])
    show "r \<in> care_revisions s" using assms(2) by (auto simp: care_revisions_def)
    show "cs_revision s < cs_revision s1" using care_became_unknown [OF assms(3-5)] assms(6) by (simp add: next_revision_def)
  qed (simp add: care_revisions_def care_init_def Let_def)
  then show ?thesis using assms(8) by (auto simp: care_loaded_older split: if_splits)
qed

section \<open>Properties\<close>

text \<open>C11: an urgent request leaves the phone only when the member confirmed it. In every run, a step that sends one
  answers the open dialog with its confirmation; the question was asked while the app was in the foreground and the
  app has not left it since; the member who asked is still the member of the screen; the request carries the words
  that the screen drew when the question was asked, without the spaces around them, and none when there were none; and
  no other request is awaited under its lock.\<close>

theorem urgent_request_is_confirmed:
  assumes "care_run h (care_init user offline) ls s" and "care_next h l s = Some t"
    and "EmergencyFlight k d c m \<in> set (cs_flights t)" and "EmergencyFlight k d c m \<notin> set (cs_flights s)"
  shows "l = EmergencyConfirmed \<and> cs_mounted s \<and> cs_active s = owner_of c m
    \<and> (\<exists>p. cs_prompt s = Some p \<and> cp_churchId p = c \<and> cp_memberId p = m)
    \<and> (\<exists>before after u. ls = before @ EmergencyPressed # after \<and> CareBackgrounded \<notin> set after
         \<and> CareUnmounted \<notin> set after \<and> care_run h (care_init user offline) before u
         \<and> d = (if trim (cv_description (cs_drawn u)) = [] then None else Some (trim (cv_description (cs_drawn u)))))
    \<and> acting k t = [()]"
proof -
  have l: "l = EmergencyConfirmed"
    using care_step_no_emergency [OF assms(2)] assms(3,4) by (force simp: no_new_emergency_def)
  then obtain p where p: "cs_prompt s = Some p" and t: "t = emergency_confirmed p s"
    using assms(2) by (auto split: option.splits)
  have inv: "care_locks_inv s"
    by (rule care_locks.run_kept [OF assms(1) care_init_locks])
  have sent: "fst (gate_finish (cp_token p) (cs_confirmation s))" "ownsActiveIdentity c m s"
      "cp_churchId p = c" "cp_memberId p = m" "cp_description p = d" "cp_lock p = k"
    using assms(3,4) by (auto simp: t emergency_confirmed_def sendEmergency_def care_await_def ownsActiveIdentity_def
        Let_def split_beta split: if_splits)
  have "asked_in_foreground h (care_init user offline) ls d"
    using care_run_confirmation [OF assms(1)] sent(1,5) p by (auto simp: gate_finish_def split: if_splits)
  moreover have "acting k t = [()]"
    using inv p sent by (auto simp: t emergency_confirmed_def sendEmergency_def ownsActiveIdentity_def care_locks_inv_def
        Let_def split_beta)
  ultimately show ?thesis
    using l p sent by (simp add: owns_identity asked_in_foreground_def words_drawn_def)
qed

text \<open>The care history on the screen is the member's own. In every run, whoever signs in or out and whenever answers
  arrive, every request drawn belongs to the church and the member of the screen, is well formed, and is drawn once.\<close>

theorem shown_history_is_own:
  assumes "care_run h (care_init user offline) ls s"
  shows "distinct (map wr_id (care_history s))
    \<and> (\<forall>r\<in>set (care_history s). \<exists>c m. cs_active s = owner_of c m \<and> welfare_ok h c m r)"
proof -
  have "care_inv h s"
    using assms by (rule care_shown.run_kept)
      (simp add: care_inv_def history_ok_def pages_bounded_def pages_owned_def care_init_def Let_def)
  then have "history_ok h (cs_drawn s)" by (simp add: care_inv_def)
  then show ?thesis by (auto simp: history_ok_def care_history_def ownsState_def state_belongs)
qed

section \<open>Witnesses\<close>

definition yaw :: screen_owner where
  "yaw = owner_of (js ''c1'') (js ''m1'')"

definition care_opened :: "care_label list" where
  "care_opened = [CareEffect, CareAnswered (HistoryFlight 1 0 (js ''c1'') (js ''m1'') 1) care_page_api, CareRendered yaw False]"

text \<open>The question is asked twice: the app was in the background after the first time, and the need was written
  before the second.\<close>

definition care_asked :: "care_label list" where
  "care_asked = care_opened @ [EmergencyPressed, CareBackgrounded, EmergencyConfirmed, NeedTyped (js '' Help ''),
     CareRendered yaw False, EmergencyPressed]"

abbreviation yaws_alert :: care_flight where
  "yaws_alert \<equiv> EmergencyFlight 0 (Some (js ''Help'')) (js ''c1'') (js ''m1'')"

lemma care_asked_run:
  "map_option cs_flights (run_steps (care_next care_host) care_asked (care_init yaw False)) = Some []"
  by code_simp

lemma care_asked_confirmed:
  "map_option cs_flights (run_steps (care_next care_host) (care_asked @ [EmergencyConfirmed]) (care_init yaw False))
     = Some [yaws_alert]"
  by code_simp

theorem urgent_request_is_confirmed_witness:
  "\<exists>s t. care_run care_host (care_init yaw False) care_asked s \<and> care_next care_host EmergencyConfirmed s = Some t
     \<and> yaws_alert \<in> set (cs_flights t) \<and> acting 0 t = [()]
     \<and> (\<exists>before after u. care_asked = before @ EmergencyPressed # after \<and> CareBackgrounded \<notin> set after
         \<and> care_run care_host (care_init yaw False) before u \<and> trim (cv_description (cs_drawn u)) = js ''Help'')"
proof -
  obtain s where run: "run_steps (care_next care_host) care_asked (care_init yaw False) = Some s" and s: "cs_flights s = []"
    using care_asked_run by auto
  obtain t where t: "care_next care_host EmergencyConfirmed s = Some t" "cs_flights t = [yaws_alert]"
    using care_asked_confirmed run by (auto simp del: care_next.simps simp: run_steps_append split: option.splits)
  have run': "care_run care_host (care_init yaw False) care_asked s" using run by (simp add: step_run_iff)
  have "yaws_alert \<in> set (cs_flights t)" "yaws_alert \<notin> set (cs_flights s)" using s t(2) by simp_all
  note sent = urgent_request_is_confirmed [OF run' t(1) this] this
  then obtain before after u where "care_asked = before @ EmergencyPressed # after" "CareBackgrounded \<notin> set after"
      "care_run care_host (care_init yaw False) before u" "trim (cv_description (cs_drawn u)) = js ''Help''"
    by (auto split: if_splits)
  then show ?thesis using run' t(1) sent by blast
qed

theorem shown_history_is_own_witness:
  "\<exists>s. care_run care_host (care_init yaw False) care_opened s \<and> care_history s = [sample_request]
     \<and> (\<exists>c m. cs_active s = owner_of c m \<and> welfare_ok care_host c m sample_request)"
proof -
  have "map_option care_history (run_steps (care_next care_host) care_opened (care_init yaw False)) = Some [sample_request]"
    by code_simp
  then obtain s where "care_run care_host (care_init yaw False) care_opened s" and "care_history s = [sample_request]"
    by (auto simp: step_run_iff)
  with shown_history_is_own [OF this(1)] show ?thesis by auto
qed

end
