(* ===== verification/Registration.thy ===== *)
theory Registration
  imports AuthProvider AuthForms ScreenState
begin

text \<open>
  The registration screen (\<open>screens/auth/RegisterScreen.tsx\<close>): four steps, the lookup of the church, the
  registration and the request of the first code. \<open>wd_view\<close> holds what the setters produced and \<open>wd_drawn\<close> what the
  last render drew. \<open>churchCodeRef\<close> is set with the field and again at each render: it is the code in the view.
\<close>

section \<open>The state\<close>

datatype wizard_field = FirstName | LastName | EmailAddress | MobileNumber | NewPassword | ConfirmPassword | ChurchCode

fun field_name :: "wizard_field \<Rightarrow> string" where
  "field_name FirstName = ''firstName''"
| "field_name LastName = ''lastName''"
| "field_name EmailAddress = ''email''"
| "field_name MobileNumber = ''phone''"
| "field_name NewPassword = ''password''"
| "field_name ConfirmPassword = ''confirmPassword''"
| "field_name ChurchCode = ''churchCode''"

fun field_step :: "wizard_field \<Rightarrow> registration_step" where
  "field_step FirstName = NameStep"
| "field_step LastName = NameStep"
| "field_step EmailAddress = ContactStep"
| "field_step MobileNumber = ContactStep"
| "field_step NewPassword = PasswordStep"
| "field_step ConfirmPassword = PasswordStep"
| "field_step ChurchCode = ChurchStep"

fun field_limit :: "wizard_field \<Rightarrow> nat" where
  "field_limit FirstName = 120"
| "field_limit LastName = 120"
| "field_limit EmailAddress = 254"
| "field_limit MobileNumber = 32"
| "field_limit NewPassword = 72"
| "field_limit ConfirmPassword = 72"
| "field_limit ChurchCode = 80"

fun set_field :: "wizard_field \<Rightarrow> jsstring \<Rightarrow> RegistrationFormValues \<Rightarrow> RegistrationFormValues" where
  "set_field FirstName v f = f\<lparr>rf_firstName := v\<rparr>"
| "set_field LastName v f = f\<lparr>rf_lastName := v\<rparr>"
| "set_field EmailAddress v f = f\<lparr>rf_email := v\<rparr>"
| "set_field MobileNumber v f = f\<lparr>rf_phone := v\<rparr>"
| "set_field NewPassword v f = f\<lparr>rf_password := v\<rparr>"
| "set_field ConfirmPassword v f = f\<lparr>rf_confirmPassword := v\<rparr>"
| "set_field ChurchCode v f = f\<lparr>rf_churchCode := v\<rparr>"

record wizard_view =
  wv_form :: RegistrationFormValues
  wv_step :: registration_step
  wv_isLoading :: bool
  wv_isResolvingChurch :: bool
  wv_resolvedChurch :: "RegistrationChurch option"
  wv_errors :: form_errors

text \<open>A request awaited: a lookup with its code and the revision it began at; a registration with the form and the
  church; the request of a code, after a registration that succeeded or one that may have.\<close>

datatype wizard_flight =
    LookupFlight jsstring nat
  | RegisterFlight RegistrationFormValues "RegistrationChurch option"
  | DispatchFlight bool jsstring jsstring

text \<open>Where the screen navigates to: the code screen with its number, workspace and flags, or away.\<close>

datatype wizard_exit = ToOtp jsstring jsstring bool bool | ToLogin | Removed

record wizard =
  wd_offline :: bool
  wd_mounted :: bool
  wd_view :: wizard_view
  wd_drawn :: wizard_view
  wd_submissionLock :: bool
  wd_churchLookupLock :: bool
  wd_churchRevision :: nat
  wd_explicitExit :: bool
  wd_flights :: "wizard_flight list"
  wd_alerts :: "(jsstring \<times> jsstring) list"
  wd_exits :: "wizard_exit list"

abbreviation set_wizard :: "(wizard_view \<Rightarrow> wizard_view) \<Rightarrow> wizard \<Rightarrow> wizard" where
  "set_wizard f s \<equiv> s\<lparr>wd_view := f (wd_view s)\<rparr>"

definition wizard_await :: "wizard_flight \<Rightarrow> wizard \<Rightarrow> wizard" where
  "wizard_await f s = s\<lparr>wd_flights := wd_flights s @ [f]\<rparr>"

definition clear_error :: "string \<Rightarrow> form_errors \<Rightarrow> form_errors" where
  "clear_error field errors = filter (\<lambda>(k, _). k \<noteq> field) errors"

section \<open>The form\<close>

text \<open>Whether an error is cleared depends on the errors that are drawn.\<close>

definition updateField :: "wizard_field \<Rightarrow> jsstring \<Rightarrow> wizard \<Rightarrow> wizard" where
  "updateField field v s =
     (let s1 = (if field = ChurchCode then s\<lparr>wd_churchRevision := wd_churchRevision s + 1\<rparr> else s);
          s2 = set_wizard (\<lambda>w. w\<lparr>wv_form := set_field field v (wv_form w)\<rparr>) s1;
          s3 = (if field = ChurchCode then set_wizard (\<lambda>w. w\<lparr>wv_resolvedChurch := None\<rparr>) s2 else s2)
      in if field_name field \<in> fst ` set (wv_errors (wd_drawn s))
         then set_wizard (\<lambda>w. w\<lparr>wv_errors := clear_error (field_name field) (wv_errors w)\<rparr>) s3 else s3)"

definition goToStep :: "registration_step \<Rightarrow> wizard \<Rightarrow> wizard" where
  "goToStep nextStep = set_wizard (\<lambda>w. w\<lparr>wv_step := nextStep, wv_errors := []\<rparr>)"

fun next_step :: "registration_step \<Rightarrow> registration_step option" where
  "next_step NameStep = Some ContactStep"
| "next_step ContactStep = Some PasswordStep"
| "next_step PasswordStep = Some ChurchStep"
| "next_step ChurchStep = None"

definition handleContinue :: "wizard \<Rightarrow> wizard" where
  "handleContinue s =
     (let d = wd_drawn s;
          stepErrors = registrationErrorsForStep (wv_step d) (wv_form d) (wv_resolvedChurch d);
          s1 = set_wizard (\<lambda>w. w\<lparr>wv_errors := stepErrors\<rparr>) s
      in case next_step (wv_step d) of
           Some nextStep \<Rightarrow> if stepErrors \<noteq> [] then s1 else goToStep nextStep s1
         | None \<Rightarrow> s1)"

text \<open>The screen is asked to go away by a gesture or the device; \<open>usePreventRemove\<close> is armed by the last render.\<close>

definition wizard_leave :: "wizard_exit \<Rightarrow> wizard \<Rightarrow> wizard" where
  "wizard_leave e s = s\<lparr>wd_exits := wd_exits s @ [e]\<rparr>"

definition remove_wizard :: "wizard \<Rightarrow> wizard" where
  "remove_wizard s =
     (let d = wd_drawn s in
      if \<not> (wv_step d \<noteq> NameStep \<or> wv_isLoading d) then wizard_leave Removed s
      else case registrationRemovalDecision (wv_step d) (wv_isLoading d) (wd_explicitExit s) of
          AllowRemoval \<Rightarrow> wizard_leave Removed s
        | StepBack step \<Rightarrow> goToStep step s
        | BlockRemoval \<Rightarrow> s)"

section \<open>The church\<close>

definition handleResolveChurch :: "wizard \<Rightarrow> wizard" where
  "handleResolveChurch s =
     (let (acquired, locked) = lock_acquire () (wd_churchLookupLock s) in
      if \<not> acquired then s
      else wizard_await (LookupFlight (trim (rf_churchCode (wv_form (wd_drawn s)))) (wd_churchRevision s))
        (set_wizard (\<lambda>w. w\<lparr>wv_resolvedChurch := None, wv_errors := clear_error ''churchCode'' (wv_errors w),
            wv_isResolvingChurch := True\<rparr>) (s\<lparr>wd_churchLookupLock := locked\<rparr>)))"

definition lookup_answered :: "jsstring \<Rightarrow> nat \<Rightarrow> js_error + RegistrationChurch \<Rightarrow> wizard \<Rightarrow> wizard" where
  "lookup_answered code startedRevision answer s =
     (let owned = (wd_mounted s
            \<and> ownsRegistrationLookup (wd_churchRevision s) startedRevision (rf_churchCode (wv_form (wd_view s))) code);
          s1 = (if \<not> owned then s
            else case answer of
                Inr church \<Rightarrow> set_wizard (\<lambda>w. w\<lparr>wv_resolvedChurch := Some church\<rparr>) s
              | Inl error \<Rightarrow> set_wizard (\<lambda>w. w\<lparr>wv_errors := clear_error ''churchCode'' (wv_errors w)
                  @ [(''churchCode'', apiErrorMessage error
                    (js ''We could not find an active church with that code. Check it with your church office.''))]\<rparr>) s);
          s2 = (if wd_mounted s1 then set_wizard (\<lambda>w. w\<lparr>wv_isResolvingChurch := False\<rparr>) s1 else s1)
      in s2\<lparr>wd_churchLookupLock := lock_release () (wd_churchLookupLock s2)\<rparr>)"

section \<open>The registration\<close>

definition handleRegister :: "wizard \<Rightarrow> wizard" where
  "handleRegister s =
     (let d = wd_drawn s; (acquired, locked) = lock_acquire () (wd_submissionLock s) in
      if \<not> acquired then s
      else case firstInvalidRegistrationStep (wv_form d) (wv_resolvedChurch d) of
          Some (step, errors) \<Rightarrow>
            (set_wizard (\<lambda>w. w\<lparr>wv_step := step, wv_errors := errors\<rparr>) s)\<lparr>wd_submissionLock := lock_release () locked\<rparr>
        | None \<Rightarrow> wizard_await (RegisterFlight (wv_form d) (wv_resolvedChurch d))
            (set_wizard (\<lambda>w. w\<lparr>wv_isLoading := True\<rparr>) (s\<lparr>wd_submissionLock := locked\<rparr>)))"

text \<open>The \<open>finally\<close> of a registration.\<close>

definition register_done :: "wizard \<Rightarrow> wizard" where
  "register_done s =
     (let s1 = (if wd_mounted s then set_wizard (\<lambda>w. w\<lparr>wv_isLoading := False\<rparr>) s else s)
      in s1\<lparr>wd_submissionLock := lock_release () (wd_submissionLock s1)\<rparr>)"

definition registration_failed :: "js_error \<Rightarrow> wizard \<Rightarrow> wizard" where
  "registration_failed error s =
     register_done (if wd_mounted s
       then s\<lparr>wd_alerts := wd_alerts s @ [(js ''Registration Failed'',
         apiErrorMessage error (js ''Registration failed. Please try again.''))]\<rparr> else s)"

definition register_answered :: "RegistrationFormValues \<Rightarrow> js_error + jsstring \<Rightarrow> wizard \<Rightarrow> wizard" where
  "register_answered form answer s =
     (case answer of
        Inr registeredPhone \<Rightarrow>
          (case canonicalPhone registeredPhone of
             None \<Rightarrow> registration_failed (throw ''The server returned an invalid phone number.'') s
           | Some phone \<Rightarrow>
               if \<not> wd_mounted s then register_done s
               else wizard_await (DispatchFlight False phone (canonicalChurchCodeInput (rf_churchCode form))) s)
      | Inl error \<Rightarrow>
          if error = RegistrationOutcomeUnknownError
          then (case unknownRegistrationRecoveryParams (rf_phone form) (rf_churchCode form) of
              Some (phone, workspace) \<Rightarrow> wizard_await (DispatchFlight True phone workspace) s
            | None \<Rightarrow> registration_failed error s)
          else registration_failed error s)"

text \<open>\<open>deliveryUnconfirmed\<close> of the recovery is overwritten by the spread that follows it.\<close>

definition code_dispatched :: "bool \<Rightarrow> jsstring \<Rightarrow> jsstring \<Rightarrow> js_error + jsstring \<Rightarrow> wizard \<Rightarrow> wizard" where
  "code_dispatched recovered phone workspace answer s =
     (let (codeRequested, deliveryUnconfirmed) = (case answer of
            Inr _ \<Rightarrow> (True, False)
          | Inl e \<Rightarrow> (e = OtpDeliveryUnknownError, e = OtpDeliveryUnknownError));
          s1 = (if wd_mounted s
            then wizard_leave (ToOtp phone workspace codeRequested deliveryUnconfirmed) (s\<lparr>wd_explicitExit := True\<rparr>) else s)
      in register_done s1)"

section \<open>Steps\<close>

definition church_actions :: "wizard \<Rightarrow> action_state \<times> action_state" where
  "church_actions s =
     (let d = wd_drawn s in
      registrationChurchActionState (wd_offline s) (wv_isResolvingChurch d) (wv_isLoading d)
        (trim (rf_churchCode (wv_form d)) \<noteq> []) (wv_resolvedChurch d \<noteq> None))"

definition wizard_init :: "bool \<Rightarrow> wizard" where
  "wizard_init offline =
     (let view = \<lparr>wv_form = \<lparr>rf_firstName = [], rf_lastName = [], rf_email = [], rf_phone = [], rf_password = [],
           rf_confirmPassword = [], rf_churchCode = []\<rparr>, wv_step = NameStep, wv_isLoading = False,
         wv_isResolvingChurch = False, wv_resolvedChurch = None, wv_errors = []\<rparr>
      in \<lparr>wd_offline = offline, wd_mounted = True, wd_view = view, wd_drawn = view, wd_submissionLock = False,
          wd_churchLookupLock = False, wd_churchRevision = 0, wd_explicitExit = False, wd_flights = [], wd_alerts = [],
          wd_exits = []\<rparr>)"

text \<open>\<open>register\<close> of the authentication context answers with the telephone number.\<close>

fun wizard_answer :: "host \<Rightarrow> api \<Rightarrow> wizard_flight \<Rightarrow> wizard \<Rightarrow> wizard" where
  "wizard_answer h api (LookupFlight code revision) s = lookup_answered code revision (resolveChurchCode api code) s"
| "wizard_answer h api (RegisterFlight form church) s =
     register_answered form
       (register_phone (map_sum id fst (register h api (register_request form church))) (trim (rf_phone form))) s"
| "wizard_answer h api (DispatchFlight recovered phone workspace) s =
     code_dispatched recovered phone workspace (requestOtp api phone (JStr workspace)) s"

datatype wizard_label =
    WizardRendered bool
  | WizardRemoved
  | WizardAnswered wizard_flight api
  | FieldTyped wizard_field jsstring
  | ContinuePressed
  | BackPressed
  | RemovalAsked
  | LookupPressed
  | CodeSubmitted
  | CreatePressed
  | SignInPressed

text \<open>One event; \<open>None\<close> when it cannot happen. A control acts as the last render drew it.\<close>

fun wizard_next :: "host \<Rightarrow> wizard_label \<Rightarrow> wizard \<Rightarrow> wizard option" where
  "wizard_next h (WizardRendered offline) s =
     (if wd_mounted s then Some (s\<lparr>wd_offline := offline, wd_drawn := wd_view s\<rparr>) else None)"
| "wizard_next h WizardRemoved s =
     (if wd_mounted s \<and> wd_exits s \<noteq> [] then Some (s\<lparr>wd_mounted := False\<rparr>) else None)"
| "wizard_next h (WizardAnswered f api) s =
     (if f \<in> set (wd_flights s) then Some (wizard_answer h api f (s\<lparr>wd_flights := remove1 f (wd_flights s)\<rparr>)) else None)"
| "wizard_next h (FieldTyped field v) s =
     (let d = wd_drawn s in
      if wd_mounted s \<and> wv_step d = field_step field \<and> \<not> wv_isLoading d
        \<and> (field = ChurchCode \<longrightarrow> \<not> wv_isResolvingChurch d) \<and> length v \<le> field_limit field
      then Some (updateField field v s) else None)"
| "wizard_next h ContinuePressed s =
     (if wd_mounted s \<and> wv_step (wd_drawn s) \<noteq> ChurchStep \<and> \<not> wv_isLoading (wd_drawn s)
      then Some (handleContinue s) else None)"
| "wizard_next h BackPressed s =
     (let d = wd_drawn s in
      case previous_step (wv_step d) of
        None \<Rightarrow> None
      | Some step \<Rightarrow>
          if wd_mounted s \<and> \<not> wv_isLoading d \<and> (wv_step d = ChurchStep \<longrightarrow> \<not> wv_isResolvingChurch d)
          then Some (goToStep step s) else None)"
| "wizard_next h RemovalAsked s = (if wd_mounted s then Some (remove_wizard s) else None)"
| "wizard_next h LookupPressed s =
     (if wd_mounted s \<and> wv_step (wd_drawn s) = ChurchStep \<and> wv_resolvedChurch (wd_drawn s) = None
        \<and> \<not> ac_disabled (fst (church_actions s))
      then Some (handleResolveChurch s) else None)"
| "wizard_next h CodeSubmitted s =
     (let d = wd_drawn s in
      if wd_mounted s \<and> wv_step d = ChurchStep \<and> \<not> wv_isLoading d \<and> \<not> wv_isResolvingChurch d
      then Some (if \<not> wd_offline s \<and> trim (rf_churchCode (wv_form d)) \<noteq> [] then handleResolveChurch s else s)
      else None)"
| "wizard_next h CreatePressed s =
     (if wd_mounted s \<and> wv_step (wd_drawn s) = ChurchStep \<and> \<not> ac_disabled (snd (church_actions s))
      then Some (handleRegister s) else None)"
| "wizard_next h SignInPressed s =
     (if wd_mounted s \<and> \<not> wv_isLoading (wd_drawn s)
      then Some (wizard_leave ToLogin (s\<lparr>wd_explicitExit := True\<rparr>)) else None)"

abbreviation wizard_run :: "host \<Rightarrow> wizard \<Rightarrow> wizard_label list \<Rightarrow> wizard \<Rightarrow> bool" where
  "wizard_run h \<equiv> step_run (wizard_next h)"

section \<open>Lemmas\<close>

lemma wizard_await_same [simp]:
  "wd_view (wizard_await f s) = wd_view s" "wd_drawn (wizard_await f s) = wd_drawn s"
  "wd_flights (wizard_await f s) = wd_flights s @ [f]" "wd_submissionLock (wizard_await f s) = wd_submissionLock s"
  "wd_churchLookupLock (wizard_await f s) = wd_churchLookupLock s" "wd_exits (wizard_await f s) = wd_exits s"
  by (simp_all add: wizard_await_def)

subsection \<open>The church of the form\<close>

text \<open>\<open>P\<close> holds of a code and the church that was found for it.\<close>

definition church_found :: "(jsstring \<Rightarrow> RegistrationChurch \<Rightarrow> bool) \<Rightarrow> wizard_view \<Rightarrow> bool" where
  "church_found P v \<longleftrightarrow> (\<forall>ch. wv_resolvedChurch v = Some ch \<longrightarrow> P (rf_churchCode (wv_form v)) ch)"

fun sent_complete :: "(jsstring \<Rightarrow> RegistrationChurch \<Rightarrow> bool) \<Rightarrow> wizard_flight \<Rightarrow> bool" where
  "sent_complete P (RegisterFlight form church) \<longleftrightarrow>
     firstInvalidRegistrationStep form church = None \<and> (\<exists>ch. church = Some ch \<and> P (rf_churchCode form) ch)"
| "sent_complete P _ \<longleftrightarrow> True"

definition wizard_inv :: "(jsstring \<Rightarrow> RegistrationChurch \<Rightarrow> bool) \<Rightarrow> wizard \<Rightarrow> bool" where
  "wizard_inv P s \<longleftrightarrow> church_found P (wd_view s) \<and> church_found P (wd_drawn s) \<and> (\<forall>f\<in>set (wd_flights s). sent_complete P f)"

lemma set_field_code [simp]: "field \<noteq> ChurchCode \<Longrightarrow> rf_churchCode (set_field field v f) = rf_churchCode f"
  by (cases field) simp_all

lemma wizard_inv_quiet [simp]:
  "wizard_inv P (s\<lparr>wd_mounted := b\<rparr>) = wizard_inv P s" "wizard_inv P (s\<lparr>wd_explicitExit := b\<rparr>) = wizard_inv P s"
  "wizard_inv P (s\<lparr>wd_alerts := a\<rparr>) = wizard_inv P s" "wizard_inv P (wizard_leave e s) = wizard_inv P s"
  by (simp_all add: wizard_inv_def wizard_leave_def)

lemma wizard_inv_rendered: "wizard_inv P s \<Longrightarrow> wizard_inv P (s\<lparr>wd_offline := b, wd_drawn := wd_view s\<rparr>)"
  by (simp add: wizard_inv_def)

lemma updateField_inv: "wizard_inv P s \<Longrightarrow> wizard_inv P (updateField field v s)"
  by (auto simp: updateField_def wizard_inv_def church_found_def Let_def)

lemma goToStep_inv [simp]: "wizard_inv P (goToStep step s) = wizard_inv P s"
  by (simp add: goToStep_def wizard_inv_def church_found_def)

lemma handleContinue_inv: "wizard_inv P s \<Longrightarrow> wizard_inv P (handleContinue s)"
  by (simp add: handleContinue_def Let_def split: option.split) (simp add: wizard_inv_def church_found_def)

lemma remove_wizard_inv: "wizard_inv P s \<Longrightarrow> wizard_inv P (remove_wizard s)"
  by (simp add: remove_wizard_def wizard_leave_def wizard_inv_def Let_def goToStep_def church_found_def split: removal_decision.split)

lemma handleResolveChurch_inv: "wizard_inv P s \<Longrightarrow> wizard_inv P (handleResolveChurch s)"
  by (simp add: handleResolveChurch_def wizard_inv_def church_found_def Let_def split_beta)

lemma handleRegister_inv: "wizard_inv P s \<Longrightarrow> wizard_inv P (handleRegister s)"
  by (auto simp: handleRegister_def wizard_inv_def church_found_def registrationChurchMatchesCode_def Let_def split_beta
      dest: registration_fields(6) split: option.splits)

lemma register_done_inv [simp]: "wizard_inv P (register_done s) = wizard_inv P s"
  by (simp add: register_done_def wizard_inv_def church_found_def)

lemma registration_failed_inv [simp]: "wizard_inv P (registration_failed e s) = wizard_inv P s"
  by (simp add: registration_failed_def)

lemma register_answered_inv: "wizard_inv P s \<Longrightarrow> wizard_inv P (register_answered form a s)"
  by (auto simp: register_answered_def split: sum.split option.split) (simp_all add: wizard_inv_def)

lemma code_dispatched_inv: "wizard_inv P s \<Longrightarrow> wizard_inv P (code_dispatched recovered phone workspace a s)"
  by (auto simp: code_dispatched_def wizard_leave_def Let_def split_beta) (simp add: wizard_inv_def)

lemma lookup_answered_inv:
  assumes "wizard_inv P s"
    and "\<And>ch c. a = Inr ch \<Longrightarrow> canonicalChurchCodeInput c = canonicalChurchCodeInput code \<Longrightarrow> P c ch"
  shows "wizard_inv P (lookup_answered code revision a s)"
  using assms by (auto simp: lookup_answered_def wizard_inv_def church_found_def ownsRegistrationLookup_def Let_def
      split: sum.split)

lemma wizard_step_inv:
  assumes "wizard_next h l s = Some t" and "wizard_inv P s"
    and found: "\<And>code r api ch c. l = WizardAnswered (LookupFlight code r) api \<Longrightarrow> resolveChurchCode api code = Inr ch
      \<Longrightarrow> canonicalChurchCodeInput c = canonicalChurchCodeInput code \<Longrightarrow> P c ch"
  shows "wizard_inv P t"
proof (cases l)
  case (WizardAnswered f api)
  define u where "u = s\<lparr>wd_flights := remove1 f (wd_flights s)\<rparr>"
  have u: "wizard_inv P u" and t: "t = wizard_answer h api f u"
    using assms(1,2) WizardAnswered by (auto simp: u_def wizard_inv_def dest: notin_set_remove1 split: if_splits)
  show ?thesis
  proof (cases f)
    case (LookupFlight code r)
    with WizardAnswered have "\<And>ch c. resolveChurchCode api code = Inr ch
        \<Longrightarrow> canonicalChurchCodeInput c = canonicalChurchCodeInput code \<Longrightarrow> P c ch"
      using found by blast
    then show ?thesis using t u LookupFlight lookup_answered_inv by simp
  qed (use t u register_answered_inv code_dispatched_inv in simp_all)
qed (use assms(1,2) in \<open>auto simp: updateField_inv handleContinue_inv remove_wizard_inv handleResolveChurch_inv
    handleRegister_inv wizard_inv_rendered Let_def split: if_splits option.splits\<close>)

text \<open>The church was the answer to a lookup of the code.\<close>

definition looked_up :: "wizard_label list \<Rightarrow> jsstring \<Rightarrow> RegistrationChurch \<Rightarrow> bool" where
  "looked_up ls code church \<longleftrightarrow>
     (\<exists>c r api. WizardAnswered (LookupFlight c r) api \<in> set ls \<and> resolveChurchCode api code = Inr church)"

lemma same_code_same_church:
  "canonicalChurchCodeInput c = canonicalChurchCodeInput d \<Longrightarrow> resolveChurchCode api c = resolveChurchCode api d"
  by (metis resolveChurchCode_code)

lemma resolved_church_ident: "resolveChurchCode api c = Inr ch \<Longrightarrow> rc_id ch \<noteq> []"
  by (auto simp: resolveChurchCode_def normalizeRegistrationChurch_def identity_ident_def boundedIdentityId_def
      boundedIdentityString_def res_simps Let_def split: option.splits if_splits)

lemma wizard_run_inv: "wizard_run h (wizard_init offline) ls s \<Longrightarrow> wizard_inv (looked_up ls) s"
proof (induction ls s rule: step_run.induct)
  case here
  then show ?case by (simp add: wizard_inv_def church_found_def wizard_init_def Let_def)
next
  case (further ls s l t)
  have later: "looked_up ls c ch \<Longrightarrow> looked_up (ls @ [l]) c ch" for c ch
    by (auto simp: looked_up_def)
  then have more: "sent_complete (looked_up ls) f \<Longrightarrow> sent_complete (looked_up (ls @ [l])) f" for f
    by (cases f) auto
  have "church_found (looked_up ls) v \<Longrightarrow> church_found (looked_up (ls @ [l])) v" for v
    using later by (simp add: church_found_def)
  then have "wizard_inv (looked_up (ls @ [l])) s"
    using further.IH more by (simp add: wizard_inv_def)
  with further.hyps(2) show ?case
    by (rule wizard_step_inv) (auto simp: looked_up_def, metis same_code_same_church)
qed

subsection \<open>One registration at a time\<close>

fun is_commit :: "wizard_flight \<Rightarrow> bool" where
  "is_commit (LookupFlight _ _) \<longleftrightarrow> False"
| "is_commit _ \<longleftrightarrow> True"

definition committing :: "wizard \<Rightarrow> wizard_flight list" where
  "committing s = filter is_commit (wd_flights s)"

definition looking :: "wizard \<Rightarrow> wizard_flight list" where
  "looking s = filter (\<lambda>f. \<not> is_commit f) (wd_flights s)"

definition wizard_locks :: "wizard \<Rightarrow> bool" where
  "wizard_locks s \<longleftrightarrow> length (committing s) = (if wd_submissionLock s then 1 else 0)
     \<and> length (looking s) = (if wd_churchLookupLock s then 1 else 0)"

lemma wizard_locks_same:
  "wd_flights t = wd_flights s \<Longrightarrow> wd_submissionLock t = wd_submissionLock s \<Longrightarrow> wd_churchLookupLock t = wd_churchLookupLock s
     \<Longrightarrow> wizard_locks t = wizard_locks s"
  by (simp add: wizard_locks_def committing_def looking_def)

lemma wizard_idle:
  "wd_flights (updateField field v s) = wd_flights s" "wd_submissionLock (updateField field v s) = wd_submissionLock s"
  "wd_churchLookupLock (updateField field v s) = wd_churchLookupLock s"
  "wd_flights (handleContinue s) = wd_flights s" "wd_submissionLock (handleContinue s) = wd_submissionLock s"
  "wd_churchLookupLock (handleContinue s) = wd_churchLookupLock s"
  "wd_flights (remove_wizard s) = wd_flights s" "wd_submissionLock (remove_wizard s) = wd_submissionLock s"
  "wd_churchLookupLock (remove_wizard s) = wd_churchLookupLock s"
  by (simp_all add: updateField_def handleContinue_def remove_wizard_def goToStep_def wizard_leave_def Let_def
      split: option.split removal_decision.split)

lemma wizard_locks_idle:
  "wizard_locks (updateField field v s) = wizard_locks s" "wizard_locks (handleContinue s) = wizard_locks s"
  "wizard_locks (remove_wizard s) = wizard_locks s" "wizard_locks (goToStep step s) = wizard_locks s"
  "wizard_locks (wizard_leave e (s\<lparr>wd_explicitExit := b\<rparr>)) = wizard_locks s"
  "wizard_locks (s\<lparr>wd_offline := b, wd_drawn := d\<rparr>) = wizard_locks s" "wizard_locks (s\<lparr>wd_mounted := b\<rparr>) = wizard_locks s"
  by (rule wizard_locks_same; simp add: wizard_idle goToStep_def wizard_leave_def)+

lemma wizard_handlers_locks:
  assumes "wizard_locks s"
  shows "wizard_locks (handleResolveChurch s)" "wizard_locks (handleRegister s)"
  using assms by (auto simp: handleResolveChurch_def handleRegister_def lock_acquire_def lock_release_def wizard_locks_def
      committing_def looking_def Let_def split: option.split)

lemma length_filter_remove1:
  "x \<in> set xs \<Longrightarrow> length (filter P xs) = (if P x then 1 else 0) + length (filter P (remove1 x xs))"
  by (induction xs) auto

lemma wizard_step_locks: "wizard_next h l s = Some t \<Longrightarrow> wizard_locks s \<Longrightarrow> wizard_locks t"
proof (induction h l s rule: wizard_next.induct)
  case (3 h f api s)
  define u where "u = s\<lparr>wd_flights := remove1 f (wd_flights s)\<rparr>"
  have f: "f \<in> set (wd_flights s)" and t: "t = wizard_answer h api f u"
    using 3 by (auto simp: u_def split: if_splits)
  have taken: "length (committing s) = (if is_commit f then 1 else 0) + length (committing u)"
      "length (looking s) = (if \<not> is_commit f then 1 else 0) + length (looking u)"
    using length_filter_remove1 [OF f] by (simp_all add: committing_def looking_def u_def)
  have locks: "length (committing s) = (if wd_submissionLock u then 1 else 0)"
      "length (looking s) = (if wd_churchLookupLock u then 1 else 0)"
    using 3(2) by (simp_all add: wizard_locks_def u_def)
  show ?case
  proof (cases f)
    case (LookupFlight code r)
    then have "length (committing u) = (if wd_submissionLock u then 1 else 0)" "looking u = []"
      using taken locks by (simp_all split: if_splits)
    then show ?thesis
      using t LookupFlight
      by (auto simp: lookup_answered_def wizard_locks_def committing_def looking_def lock_release_def Let_def split: sum.split)
  next
    case (RegisterFlight form church)
    then have "committing u = []" "wd_submissionLock u" "length (looking u) = (if wd_churchLookupLock u then 1 else 0)"
      using taken locks by (simp_all split: if_splits)
    then have "wizard_locks (register_answered form a u)" for a
      by (auto simp: register_answered_def registration_failed_def register_done_def lock_release_def wizard_locks_def
          committing_def looking_def split: sum.split option.split)
    then show ?thesis using t RegisterFlight by simp
  next
    case (DispatchFlight b c d)
    then have "committing u = []" "length (looking u) = (if wd_churchLookupLock u then 1 else 0)"
      using taken locks by (simp_all split: if_splits)
    then show ?thesis
      using t DispatchFlight
      by (auto simp: code_dispatched_def wizard_leave_def register_done_def lock_release_def wizard_locks_def committing_def
          looking_def Let_def split: sum.split)
  qed
qed (auto simp: wizard_locks_idle wizard_handlers_locks Let_def split: if_splits option.splits)

interpretation wizard_locks: step_invariant "wizard_next h" wizard_locks for h
  by unfold_locales (rule wizard_step_locks)

section \<open>Properties\<close>

text \<open>C14: a registration is sent only for the church that the member saw confirmed. In every run, whatever is typed,
  looked up and answered in whatever order, the form of a registration that is awaited passes every step; its church
  was found by a lookup of the very code in the form; an account that the gateway creates for it belongs to that
  church, with the number and the email address of the form; and no other registration is awaited.\<close>

theorem registration_joins_confirmed_church:
  assumes "wizard_run h (wizard_init offline) ls s" and "RegisterFlight form church \<in> set (wd_flights s)"
  shows "\<exists>ch. church = Some ch \<and> firstInvalidRegistrationStep form church = None \<and> looked_up ls (rf_churchCode form) ch
    \<and> (\<forall>api u m. register h api (register_request form church) = Inr (u, m)
        \<longrightarrow> us_churchId u = rc_id ch \<and> canonicalPhone (rf_phone form) = Some (us_phone u)
          \<and> canonicalEmail (JStr (rf_email form)) = Some (us_email u))
    \<and> committing s = [RegisterFlight form church]"
proof -
  have "sent_complete (looked_up ls) (RegisterFlight form church)"
    using wizard_run_inv [OF assms(1)] assms(2) by (auto simp: wizard_inv_def)
  then obtain ch where ch: "church = Some ch" "firstInvalidRegistrationStep form church = None"
      "looked_up ls (rf_churchCode form) ch"
    by auto
  then have "rc_id ch \<noteq> []" by (auto simp: looked_up_def dest!: resolved_church_ident)
  then have "us_churchId u = rc_id ch \<and> canonicalPhone (rf_phone form) = Some (us_phone u)
      \<and> canonicalEmail (JStr (rf_email form)) = Some (us_email u)"
    if "register h api (register_request form church) = Inr (u, m)" for api u m
    using registration_is_own [OF that] ch(1) by (auto simp: register_request_def given_def)
  moreover have "wizard_locks (wizard_init offline)"
    by (simp add: wizard_locks_def wizard_init_def committing_def looking_def Let_def)
  then have "length (committing s) \<le> 1"
    using wizard_locks.run_kept [OF assms(1)] by (simp add: wizard_locks_def split: if_splits)
  moreover have "RegisterFlight form church \<in> set (committing s)" using assms(2) by (simp add: committing_def)
  ultimately show ?thesis
    using ch by (cases "committing s") auto
qed

section \<open>Witnesses\<close>

definition filled :: "wizard_label list" where
  "filled = [FieldTyped FirstName (rf_firstName sample_form), FieldTyped LastName (rf_lastName sample_form),
     WizardRendered False, ContinuePressed, WizardRendered False,
     FieldTyped EmailAddress (rf_email sample_form), FieldTyped MobileNumber (rf_phone sample_form),
     WizardRendered False, ContinuePressed, WizardRendered False,
     FieldTyped NewPassword (rf_password sample_form), FieldTyped ConfirmPassword (rf_confirmPassword sample_form),
     WizardRendered False, ContinuePressed, WizardRendered False,
     FieldTyped ChurchCode (rf_churchCode sample_form), WizardRendered False, LookupPressed,
     WizardAnswered (LookupFlight (js ''Grace'') 1) church_directory, WizardRendered False, CreatePressed, CreatePressed]"

lemma filled_run:
  "map_option wd_flights (run_steps (wizard_next plain_host) filled (wizard_init False))
     = Some [RegisterFlight sample_form (Some sample_church)]"
  by code_simp

theorem registration_joins_confirmed_church_witness:
  "\<exists>s. wizard_run plain_host (wizard_init False) filled s
     \<and> committing s = [RegisterFlight sample_form (Some sample_church)]
     \<and> looked_up filled (rf_churchCode sample_form) sample_church"
proof -
  obtain s where run: "wizard_run plain_host (wizard_init False) filled s"
    and "RegisterFlight sample_form (Some sample_church) \<in> set (wd_flights s)"
    using filled_run by (auto simp: step_run_iff)
  from registration_joins_confirmed_church [OF this] run show ?thesis by auto
qed

text \<open>The answer of the registration is lost and a code is requested: the code screen is told that nothing is
  unconfirmed, although the recovery says that it is.\<close>

definition gateway_silent :: api where
  "gateway_silent r = (if rq_path r = js ''/auth/register'' then Inl (AxiosError None) else church_directory r)"

definition code_sent :: api where
  "code_sent r = Inr (envelope (JObj [(''success'', JBool True), (''message'', JStr (js ''ok''))]))"

lemma unconfirmed_account_is_not_reported:
  "map_option wd_exits (run_steps (wizard_next plain_host)
       (filled @ [WizardAnswered (RegisterFlight sample_form (Some sample_church)) gateway_silent,
          WizardAnswered (DispatchFlight True (js ''+233241234567'') (js ''grace'')) code_sent]) (wizard_init False))
     = Some [ToOtp (js ''+233241234567'') (js ''grace'') True False]"
  by code_simp

end
