(* ===== verification/OtpEntry.thy ===== *)
theory OtpEntry
  imports AuthForms ScreenState
begin

text \<open>
  The one-time code screen of the mobile application (\<open>screens/auth/OtpScreen.tsx\<close>). A journey is what the route
  asks for; \<open>oe_view\<close> holds what the setters produced and \<open>oe_drawn\<close> what the last render drew. The clock is an
  argument of what reads it. The answer to a verification is that of \<open>verifyOtp\<close> of the authentication context.
\<close>

section \<open>The state\<close>

definition OTP_LENGTH :: nat where
  "OTP_LENGTH = 6"

record otp_journey =
  oj_phone :: "jsstring option"
  oj_workspace :: "jsstring option"
  oj_codeRequested :: bool
  oj_deliveryUnconfirmed :: bool

text \<open>The parameters of the route; a flag that is missing has its default.\<close>

definition journey_of :: "jsval \<Rightarrow> jsval \<Rightarrow> bool option \<Rightarrow> bool option \<Rightarrow> otp_journey" where
  "journey_of phone workspace codeRequested deliveryUnconfirmed =
     \<lparr>oj_phone = (case phone of JStr s \<Rightarrow> canonicalPhone s | _ \<Rightarrow> None), oj_workspace = canonicalWorkspace workspace,
      oj_codeRequested = (case codeRequested of Some b \<Rightarrow> b | None \<Rightarrow> True),
      oj_deliveryUnconfirmed = (case deliveryUnconfirmed of Some b \<Rightarrow> b | None \<Rightarrow> False)\<rparr>"

definition validRoute :: "otp_journey \<Rightarrow> bool" where
  "validRoute j \<longleftrightarrow> oj_phone j \<noteq> None \<and> oj_workspace j \<noteq> None"

definition initialCodeRequested :: "otp_journey \<Rightarrow> bool" where
  "initialCodeRequested j \<longleftrightarrow> oj_codeRequested j \<and> validRoute j"

definition journeyKey :: "otp_journey \<Rightarrow> jsstring" where
  "journeyKey j = otpJourneyKey (oj_phone j) (oj_workspace j) (oj_codeRequested j) (oj_deliveryUnconfirmed j)"

abbreviation invalid_route :: jsstring where
  "invalid_route \<equiv> js ''This verification request has an invalid mobile number. Return to sign in and request a new code.''"

record otp_view =
  ov_otp :: "jsstring list"
  ov_isLoading :: bool
  ov_isResending :: bool
  ov_error :: jsstring
  ov_resendAvailableAt :: int
  ov_timerNow :: int
  ov_hasRequestedCode :: bool
  ov_outcomeUnknown :: bool

datatype otp_flight =
    VerifyFlight nat jsstring jsstring jsstring jsstring
  | ResendFlight nat jsstring jsstring jsstring bool

text \<open>\<open>oe_effect\<close> is the journey the reset last ran for; \<open>oe_locks\<close> numbers the locks.\<close>

record otp_entry =
  oe_journey :: otp_journey
  oe_offline :: bool
  oe_mounted :: bool
  oe_effect :: "otp_journey option"
  oe_view :: otp_view
  oe_drawn :: otp_view
  oe_locks :: nat
  oe_mutationLock :: "nat \<Rightarrow> bool"
  oe_flights :: "otp_flight list"
  oe_alerts :: "(jsstring \<times> jsstring) list"
  oe_left :: bool

abbreviation set_otp :: "(otp_view \<Rightarrow> otp_view) \<Rightarrow> otp_entry \<Rightarrow> otp_entry" where
  "set_otp f s \<equiv> s\<lparr>oe_view := f (oe_view s)\<rparr>"

definition otp_await :: "otp_flight \<Rightarrow> otp_entry \<Rightarrow> otp_entry" where
  "otp_await f s = s\<lparr>oe_flights := oe_flights s @ [f]\<rparr>"

definition empty_code :: "jsstring list" where
  "empty_code = replicate OTP_LENGTH []"

text \<open>The reset for a journey, which also replaces the lock.\<close>

definition journey_reset :: "int \<Rightarrow> otp_entry \<Rightarrow> otp_entry" where
  "journey_reset now s =
     (let j = oe_journey s; requested = initialCodeRequested j; lock = oe_locks s + 1
      in s\<lparr>oe_view := \<lparr>ov_otp = empty_code, ov_isLoading = False, ov_isResending = False,
             ov_error = (if validRoute j then [] else invalid_route),
             ov_resendAvailableAt = (if requested then now + int OTP_RESEND_DELAY_MS else 0), ov_timerNow = now,
             ov_hasRequestedCode = requested, ov_outcomeUnknown = False\<rparr>,
           oe_locks := lock, oe_mutationLock := (oe_mutationLock s)(lock := False), oe_effect := Some j\<rparr>)"

section \<open>The digits\<close>

definition digits_of :: "jsstring \<Rightarrow> jsstring" where
  "digits_of v = filter is_digit v"

fun put_from :: "nat \<Rightarrow> jsstring \<Rightarrow> jsstring list \<Rightarrow> jsstring list" where
  "put_from i [] cells = cells"
| "put_from i (d # ds) cells = put_from (i + 1) ds (if i < OTP_LENGTH then cells[i := [d]] else cells)"

text \<open>More than one unit is a paste. The cells that are changed are the drawn ones.\<close>

definition handleOtpEntry :: "jsstring \<Rightarrow> nat \<Rightarrow> otp_entry \<Rightarrow> otp_entry" where
  "handleOtpEntry v index s =
     (let cells = ov_otp (oe_drawn s);
          newOtp = (if 1 < length v then put_from index (take OTP_LENGTH (digits_of v)) cells
            else cells[index := (if digits_of v = [] then [] else [last (digits_of v)])])
      in set_otp (\<lambda>w. w\<lparr>ov_error := [], ov_otp := newOtp\<rparr>) s)"

definition handleKeyPress :: "bool \<Rightarrow> nat \<Rightarrow> otp_entry \<Rightarrow> otp_entry" where
  "handleKeyPress backspace index s =
     (let cells = ov_otp (oe_drawn s) in
      if backspace \<and> cells ! index = [] \<and> 0 < index
      then set_otp (\<lambda>w. w\<lparr>ov_otp := cells[index - 1 := []]\<rparr>) s else s)"

section \<open>Verifying and requesting another code\<close>

definition ownsJourney :: "jsstring \<Rightarrow> otp_entry \<Rightarrow> bool" where
  "ownsJourney started s \<longleftrightarrow> oe_mounted s \<and> ownsOtpJourney (journeyKey (oe_journey s)) started"

definition otp_refused :: "jsstring \<Rightarrow> otp_entry \<Rightarrow> otp_entry" where
  "otp_refused message = set_otp (\<lambda>w. w\<lparr>ov_error := message\<rparr>)"

definition handleVerify :: "otp_entry \<Rightarrow> otp_entry" where
  "handleVerify s =
     (case (oj_phone (oe_journey s), oj_workspace (oe_journey s)) of
        (Some phone, Some workspace) \<Rightarrow>
          (let code = concat (ov_otp (oe_drawn s)) in
           if length code \<noteq> OTP_LENGTH then otp_refused (js ''Enter the full 6-digit code.'') s
           else
             let (acquired, locked) = lock_acquire () (oe_mutationLock s (oe_locks s)) in
             if \<not> acquired then s
             else otp_await (VerifyFlight (oe_locks s) phone code workspace (journeyKey (oe_journey s)))
               (set_otp (\<lambda>w. w\<lparr>ov_isLoading := True\<rparr>)
                 (s\<lparr>oe_mutationLock := (oe_mutationLock s)(oe_locks s := locked)\<rparr>)))
      | _ \<Rightarrow> otp_refused invalid_route s)"

definition otp_release :: "nat \<Rightarrow> otp_entry \<Rightarrow> otp_entry" where
  "otp_release lock s = s\<lparr>oe_mutationLock := (oe_mutationLock s)(lock := lock_release () (oe_mutationLock s lock))\<rparr>"

definition verify_answered :: "nat \<Rightarrow> jsstring \<Rightarrow> int \<Rightarrow> js_error + unit \<Rightarrow> otp_entry \<Rightarrow> otp_entry" where
  "verify_answered lock started now answer s =
     (let s1 = (case answer of
            Inr _ \<Rightarrow> s
          | Inl error \<Rightarrow>
              if \<not> ownsJourney started s then s
              else
                let (outcomeUnknown, message) = otpVerificationFailure error;
                    s2 = (if outcomeUnknown
                      then set_otp (\<lambda>w. w\<lparr>ov_outcomeUnknown := True, ov_hasRequestedCode := False, ov_otp := empty_code,
                        ov_resendAvailableAt := 0, ov_timerNow := now\<rparr>) s else s)
                in otp_refused message s2);
          s3 = (if ownsJourney started s1 then set_otp (\<lambda>w. w\<lparr>ov_isLoading := False\<rparr>) s1 else s1)
      in otp_release lock s3)"

definition handleResend :: "otp_entry \<Rightarrow> otp_entry" where
  "handleResend s =
     (case (oj_phone (oe_journey s), oj_workspace (oe_journey s)) of
        (Some phone, Some workspace) \<Rightarrow>
          (let (acquired, locked) = lock_acquire () (oe_mutationLock s (oe_locks s)) in
           if \<not> acquired then s
           else otp_await (ResendFlight (oe_locks s) phone workspace (journeyKey (oe_journey s))
               (oj_deliveryUnconfirmed (oe_journey s)))
             (set_otp (\<lambda>w. w\<lparr>ov_isResending := True, ov_error := []\<rparr>)
               (s\<lparr>oe_mutationLock := (oe_mutationLock s)(oe_locks s := locked)\<rparr>)))
      | _ \<Rightarrow> otp_refused invalid_route s)"

text \<open>A code was requested now: the countdown starts and the boxes are emptied.\<close>

definition code_requested :: "int \<Rightarrow> otp_entry \<Rightarrow> otp_entry" where
  "code_requested now = set_otp (\<lambda>w. w\<lparr>ov_hasRequestedCode := True, ov_outcomeUnknown := False, ov_timerNow := now,
     ov_resendAvailableAt := now + int OTP_RESEND_DELAY_MS, ov_otp := empty_code\<rparr>)"

definition resend_answered :: "nat \<Rightarrow> jsstring \<Rightarrow> bool \<Rightarrow> int \<Rightarrow> js_error + jsstring \<Rightarrow> otp_entry \<Rightarrow> otp_entry" where
  "resend_answered lock started deliveryUnconfirmed now answer s =
     (let s1 = (if \<not> ownsJourney started s then s
          else case answer of
              Inr _ \<Rightarrow> (code_requested now s)\<lparr>oe_alerts := oe_alerts s @ [(js ''Code requested'',
                if deliveryUnconfirmed then js ''If this number belongs to a member account, a new verification code has been sent.''
                else js ''A new verification code has been sent.'')]\<rparr>
            | Inl resendError \<Rightarrow>
                let (deliveryUnknown, message) = otpResendFailure resendError
                in otp_refused message (if deliveryUnknown then code_requested now s else s));
          s2 = (if ownsJourney started s1 then set_otp (\<lambda>w. w\<lparr>ov_isResending := False\<rparr>) s1 else s1)
      in otp_release lock s2)"

section \<open>What is drawn\<close>

definition codeInputState :: "otp_entry \<Rightarrow> input_state" where
  "codeInputState s =
     (let d = oe_drawn s in otpCodeInputState (ov_hasRequestedCode d) (ov_isLoading d) (ov_isResending d))"

definition resendAction :: "otp_entry \<Rightarrow> resend_state" where
  "resendAction s =
     (let d = oe_drawn s in
      otpResendActionState (validRoute (oe_journey s)) (oe_offline s) (ov_isResending d) (ov_isLoading d))"

definition verifyAction :: "otp_entry \<Rightarrow> action_state" where
  "verifyAction s =
     (let d = oe_drawn s in
      otpVerifyActionState (validRoute (oe_journey s)) (oe_offline s) (ov_hasRequestedCode d) (ov_outcomeUnknown d)
        (list_all (\<lambda>c. c \<noteq> []) (ov_otp d)) (ov_isResending d) (ov_isLoading d))"

definition resendTimer :: "otp_entry \<Rightarrow> int" where
  "resendTimer s =
     otpResendSeconds (Fin (of_int (ov_resendAvailableAt (oe_drawn s)))) (Fin (of_int (ov_timerNow (oe_drawn s))))"

section \<open>Steps\<close>

definition otp_init :: "otp_journey \<Rightarrow> bool \<Rightarrow> int \<Rightarrow> otp_entry" where
  "otp_init j offline now =
     (let requested = initialCodeRequested j;
          view = \<lparr>ov_otp = empty_code, ov_isLoading = False, ov_isResending = False,
            ov_error = (if validRoute j then [] else invalid_route),
            ov_resendAvailableAt = (if requested then now + int OTP_RESEND_DELAY_MS else 0), ov_timerNow = now,
            ov_hasRequestedCode = requested, ov_outcomeUnknown = False\<rparr>
      in \<lparr>oe_journey = j, oe_offline = offline, oe_mounted = True, oe_effect = None, oe_view = view, oe_drawn = view,
          oe_locks = 0, oe_mutationLock = (\<lambda>_. False), oe_flights = [], oe_alerts = [], oe_left = False\<rparr>)"

datatype otp_label =
    OtpRendered otp_journey bool
  | JourneyEffect int
  | OtpUnmounted
  | Verified otp_flight "js_error + unit" int
  | Resent otp_flight api int
  | DigitsTyped jsstring nat
  | KeyPressed bool nat
  | VerifyPressed
  | ResendPressed
  | Ticked int
  | AnotherNumberPressed

text \<open>One event; \<open>None\<close> when it cannot happen. The first box takes a pasted code, the others one unit.\<close>

fun entry_next :: "otp_label \<Rightarrow> otp_entry \<Rightarrow> otp_entry option" where
  "entry_next (OtpRendered j offline) s =
     (if oe_mounted s then Some (s\<lparr>oe_journey := j, oe_offline := offline, oe_drawn := oe_view s\<rparr>) else None)"
| "entry_next (JourneyEffect now) s =
     (if oe_mounted s \<and> oe_effect s \<noteq> Some (oe_journey s) then Some (journey_reset now s) else None)"
| "entry_next OtpUnmounted s = (if oe_mounted s then Some (s\<lparr>oe_mounted := False\<rparr>) else None)"
| "entry_next (Verified f answer now) s =
     (case f of
        VerifyFlight lock phone code workspace started \<Rightarrow>
          if f \<in> set (oe_flights s)
          then Some (verify_answered lock started now answer (s\<lparr>oe_flights := remove1 f (oe_flights s)\<rparr>)) else None
      | _ \<Rightarrow> None)"
| "entry_next (Resent f api now) s =
     (case f of
        ResendFlight lock phone workspace started unconfirmed \<Rightarrow>
          if f \<in> set (oe_flights s)
          then Some (resend_answered lock started unconfirmed now (requestOtp api phone (JStr workspace))
            (s\<lparr>oe_flights := remove1 f (oe_flights s)\<rparr>)) else None
      | _ \<Rightarrow> None)"
| "entry_next (DigitsTyped v index) s =
     (if oe_mounted s \<and> index < OTP_LENGTH \<and> in_editable (codeInputState s)
        \<and> length v \<le> (if index = 0 then OTP_LENGTH else 1)
      then Some (handleOtpEntry v index s) else None)"
| "entry_next (KeyPressed backspace index) s =
     (if oe_mounted s \<and> index < OTP_LENGTH \<and> in_editable (codeInputState s)
      then Some (handleKeyPress backspace index s) else None)"
| "entry_next VerifyPressed s =
     (if oe_mounted s \<and> \<not> ac_disabled (verifyAction s) then Some (handleVerify s) else None)"
| "entry_next ResendPressed s =
     (if oe_mounted s \<and> resendTimer s \<le> 0 \<and> \<not> ac_disabled (resendAction s) then Some (handleResend s) else None)"
| "entry_next (Ticked now) s =
     (if oe_mounted s \<and> 0 < resendTimer s then Some (set_otp (\<lambda>w. w\<lparr>ov_timerNow := now\<rparr>) s) else None)"
| "entry_next AnotherNumberPressed s =
     (if oe_mounted s \<and> \<not> (ov_isLoading (oe_drawn s) \<or> ov_isResending (oe_drawn s)) then Some (s\<lparr>oe_left := True\<rparr>) else None)"

abbreviation otp_run :: "otp_entry \<Rightarrow> otp_label list \<Rightarrow> otp_entry \<Rightarrow> bool" where
  "otp_run \<equiv> step_run entry_next"

section \<open>Lemmas\<close>

subsection \<open>The boxes\<close>

text \<open>Six boxes, each empty or with one digit.\<close>

definition cells_ok :: "jsstring list \<Rightarrow> bool" where
  "cells_ok cells \<longleftrightarrow> length cells = OTP_LENGTH \<and> (\<forall>c\<in>set cells. c = [] \<or> (\<exists>d. c = [d] \<and> is_digit d))"

lemma cells_ok_empty [simp]: "cells_ok empty_code"
  by (simp add: cells_ok_def empty_code_def)

lemma cells_ok_update: "cells_ok cells \<Longrightarrow> c = [] \<or> (\<exists>d. c = [d] \<and> is_digit d) \<Longrightarrow> cells_ok (cells[i := c])"
  by (auto simp: cells_ok_def dest!: set_update_subset_insert [THEN subsetD])

lemma cells_ok_put: "list_all is_digit ds \<Longrightarrow> cells_ok cells \<Longrightarrow> cells_ok (put_from i ds cells)"
  by (induction ds arbitrary: i cells) (auto simp: cells_ok_update)

lemma digits_of_digits: "list_all is_digit (digits_of v)"
  by (simp add: digits_of_def list_all_iff)

lemma cells_digits: "cells_ok cells \<Longrightarrow> list_all is_digit (concat cells)"
  by (auto simp: cells_ok_def list_all_iff)

fun code_flight :: "otp_flight \<Rightarrow> bool" where
  "code_flight (VerifyFlight _ phone code workspace started) \<longleftrightarrow>
     length code = OTP_LENGTH \<and> list_all is_digit code
     \<and> (\<exists>b d. started = otpJourneyKey (Some phone) (Some workspace) b d)"
| "code_flight (ResendFlight _ _ _ _ _) \<longleftrightarrow> True"

definition entry_inv :: "otp_entry \<Rightarrow> bool" where
  "entry_inv s \<longleftrightarrow> cells_ok (ov_otp (oe_view s)) \<and> cells_ok (ov_otp (oe_drawn s)) \<and> (\<forall>f\<in>set (oe_flights s). code_flight f)"

lemma entry_inv_view: "entry_inv s \<Longrightarrow> cells_ok (ov_otp v) \<Longrightarrow> entry_inv (s\<lparr>oe_view := v\<rparr>)"
  by (simp add: entry_inv_def)

lemma entry_inv_otp: "entry_inv s \<Longrightarrow> cells_ok (ov_otp (oe_view s))"
  by (simp add: entry_inv_def)

lemma entry_inv_quiet [simp]:
  "entry_inv (s\<lparr>oe_mutationLock := l\<rparr>) = entry_inv s" "entry_inv (s\<lparr>oe_alerts := a\<rparr>) = entry_inv s"
  "entry_inv (s\<lparr>oe_mounted := b\<rparr>) = entry_inv s" "entry_inv (s\<lparr>oe_left := b\<rparr>) = entry_inv s"
  "entry_inv (otp_release k s) = entry_inv s"
  by (simp_all add: entry_inv_def otp_release_def)

lemma handleOtpEntry_inv: "entry_inv s \<Longrightarrow> entry_inv (handleOtpEntry v i s)"
proof -
  assume inv: "entry_inv s"
  then have "cells_ok (ov_otp (oe_drawn s))" by (simp add: entry_inv_def)
  moreover have "list_all is_digit (take OTP_LENGTH (digits_of v))"
    using digits_of_digits [of v] by (auto simp: list_all_iff dest: in_set_takeD)
  moreover have "digits_of v \<noteq> [] \<Longrightarrow> is_digit (last (digits_of v))"
    using digits_of_digits [of v] by (simp add: list_all_iff)
  ultimately show ?thesis
    using inv by (simp add: handleOtpEntry_def Let_def entry_inv_view cells_ok_put cells_ok_update)
qed

lemma handleKeyPress_inv: "entry_inv s \<Longrightarrow> entry_inv (handleKeyPress b i s)"
  by (simp add: handleKeyPress_def Let_def entry_inv_def cells_ok_update)

lemma handleVerify_inv:
  assumes inv: "entry_inv s"
  shows "entry_inv (handleVerify s)"
proof -
  have "list_all is_digit (concat (ov_otp (oe_drawn s)))"
    using inv by (simp add: entry_inv_def cells_digits)
  then show ?thesis
    using inv by (auto simp: handleVerify_def otp_await_def otp_refused_def entry_inv_def journeyKey_def Let_def split_beta
        split: option.split)
qed

lemma handleResend_inv: "entry_inv s \<Longrightarrow> entry_inv (handleResend s)"
  by (simp add: handleResend_def otp_await_def otp_refused_def entry_inv_def Let_def split_beta split: option.split)

lemma verify_answered_inv: "entry_inv s \<Longrightarrow> entry_inv (verify_answered k w n a s)"
  by (auto simp: verify_answered_def otp_refused_def Let_def split_beta intro!: entry_inv_view entry_inv_otp split: sum.split)

lemma resend_answered_inv: "entry_inv s \<Longrightarrow> entry_inv (resend_answered k w u n a s)"
  by (auto simp: resend_answered_def otp_refused_def code_requested_def Let_def split_beta
      intro!: entry_inv_view entry_inv_otp split: sum.split)

lemma entry_step_inv: "entry_next l s = Some t \<Longrightarrow> entry_inv s \<Longrightarrow> entry_inv t"
proof (induction l s rule: entry_next.induct)
  case (2 now s)
  then show ?case by (auto simp: journey_reset_def Let_def entry_inv_def split: if_splits)
next
  case (4 f answer now s)
  have "entry_inv (s\<lparr>oe_flights := remove1 f (oe_flights s)\<rparr>)"
    using 4(2) by (auto simp: entry_inv_def dest: notin_set_remove1)
  then show ?case using 4(1) by (auto intro: verify_answered_inv split: otp_flight.splits if_splits)
next
  case (5 f api now s)
  have "entry_inv (s\<lparr>oe_flights := remove1 f (oe_flights s)\<rparr>)"
    using 5(2) by (auto simp: entry_inv_def dest: notin_set_remove1)
  then show ?case using 5(1) by (auto intro: resend_answered_inv split: otp_flight.splits if_splits)
qed (auto simp: handleOtpEntry_inv handleKeyPress_inv handleVerify_inv handleResend_inv entry_inv_view entry_inv_otp
    split: if_splits, simp add: entry_inv_def)

interpretation entry_cells: step_invariant entry_next entry_inv
  by unfold_locales (rule entry_step_inv)

subsection \<open>One request at a time\<close>

fun flight_lock :: "otp_flight \<Rightarrow> nat" where
  "flight_lock (VerifyFlight lock _ _ _ _) = lock"
| "flight_lock (ResendFlight lock _ _ _ _) = lock"

definition under :: "nat \<Rightarrow> otp_entry \<Rightarrow> otp_flight list" where
  "under k s = filter (\<lambda>f. flight_lock f = k) (oe_flights s)"

definition entry_locks :: "otp_entry \<Rightarrow> bool" where
  "entry_locks s \<longleftrightarrow> (\<forall>k. length (under k s) = (if oe_mutationLock s k then 1 else 0)) \<and> (\<forall>k > oe_locks s. \<not> oe_mutationLock s k)"

lemma entry_locks_same:
  "oe_flights t = oe_flights s \<Longrightarrow> oe_mutationLock t = oe_mutationLock s \<Longrightarrow> oe_locks t = oe_locks s \<Longrightarrow> entry_locks t = entry_locks s"
  by (simp add: entry_locks_def under_def)

lemma entry_idle_locks [simp]:
  "entry_locks (handleOtpEntry v i s) = entry_locks s" "entry_locks (handleKeyPress b i s) = entry_locks s"
  "entry_locks (s\<lparr>oe_view := w\<rparr>) = entry_locks s" "entry_locks (s\<lparr>oe_mounted := b\<rparr>) = entry_locks s"
  "entry_locks (s\<lparr>oe_left := b\<rparr>) = entry_locks s"
  "entry_locks (s\<lparr>oe_journey := j, oe_offline := b, oe_drawn := d\<rparr>) = entry_locks s"
  by (rule entry_locks_same; simp add: handleOtpEntry_def handleKeyPress_def Let_def)+

lemma entry_acquired:
  "entry_locks s \<Longrightarrow> \<not> oe_mutationLock s (oe_locks s) \<Longrightarrow> flight_lock f = oe_locks s \<Longrightarrow>
     entry_locks (otp_await f (set_otp g (s\<lparr>oe_mutationLock := (oe_mutationLock s)(oe_locks s := True)\<rparr>)))"
  by (auto simp: entry_locks_def under_def otp_await_def)

lemma entry_handlers_locks:
  assumes "entry_locks s"
  shows "entry_locks (handleVerify s)" "entry_locks (handleResend s)" "entry_locks (journey_reset now s)"
  using assms
  by (auto simp: handleVerify_def handleResend_def lock_acquire_def otp_refused_def Let_def intro!: entry_acquired split: option.split)
     (auto simp: journey_reset_def entry_locks_def under_def Let_def)

lemma length_filter_taken:
  "x \<in> set xs \<Longrightarrow> length (filter P xs) = (if P x then 1 else 0) + length (filter P (remove1 x xs))"
  by (induction xs) auto

lemma entry_released:
  assumes locks: "entry_locks s" and f: "f \<in> set (oe_flights s)"
    and t: "oe_flights t = remove1 f (oe_flights s)" "oe_locks t = oe_locks s"
      "oe_mutationLock t = (oe_mutationLock s)(flight_lock f := False)"
  shows "entry_locks t"
proof -
  have taken: "length (under k s) = (if flight_lock f = k then 1 else 0) + length (under k t)" for k
    using length_filter_taken [OF f] by (simp add: under_def t(1))
  have held: "length (under k s) = (if oe_mutationLock s k then 1 else 0)" for k
    using locks by (simp add: entry_locks_def)
  have "length (under k t) = (if oe_mutationLock t k then 1 else 0)" for k
    using taken [of k] held [of k] by (cases "flight_lock f = k") (simp_all add: t(3) split: if_splits)
  then show ?thesis
    using locks by (auto simp: entry_locks_def t(2,3))
qed

lemma answered_release:
  "oe_flights (verify_answered k w n a s) = oe_flights s" "oe_locks (verify_answered k w n a s) = oe_locks s"
  "oe_mutationLock (verify_answered k w n a s) = (oe_mutationLock s)(k := False)"
  "oe_flights (resend_answered k w u n b s) = oe_flights s" "oe_locks (resend_answered k w u n b s) = oe_locks s"
  "oe_mutationLock (resend_answered k w u n b s) = (oe_mutationLock s)(k := False)"
  by (simp_all add: verify_answered_def resend_answered_def otp_release_def otp_refused_def code_requested_def lock_release_def
      Let_def split_beta split: sum.split)

lemma entry_step_locks: "entry_next l s = Some t \<Longrightarrow> entry_locks s \<Longrightarrow> entry_locks t"
proof (induction l s rule: entry_next.induct)
  case (4 f answer now s)
  let ?u = "s\<lparr>oe_flights := remove1 f (oe_flights s)\<rparr>"
  obtain k phone code w started where f: "f = VerifyFlight k phone code w started" "f \<in> set (oe_flights s)"
    and t: "t = verify_answered k started now answer ?u"
    using 4(1) by (auto split: otp_flight.splits if_splits)
  show ?case unfolding t by (rule entry_released [OF 4(2) f(2)]) (simp_all only: answered_release, simp_all add: f(1))
next
  case (5 f api now s)
  let ?u = "s\<lparr>oe_flights := remove1 f (oe_flights s)\<rparr>"
  obtain k phone w started b where f: "f = ResendFlight k phone w started b" "f \<in> set (oe_flights s)"
    and t: "t = resend_answered k started b now (requestOtp api phone (JStr w)) ?u"
    using 5(1) by (auto split: otp_flight.splits if_splits)
  show ?case unfolding t by (rule entry_released [OF 5(2) f(2)]) (simp_all only: answered_release, simp_all add: f(1))
qed (auto simp: entry_handlers_locks split: if_splits)

interpretation entry_locks: step_invariant entry_next entry_locks
  by unfold_locales (rule entry_step_locks)

section \<open>Properties\<close>

text \<open>C15: what is sent for verification is a whole code, once, and for its journey. In every run, whatever is typed,
  pasted and answered, a verification that is awaited carries six digits and the number and the workspace of the
  journey it belongs to, it is the only request under its lock, and when the screen is on another journey or gone,
  its answer changes nothing that is shown.\<close>

theorem code_is_sent_once_for_its_journey:
  assumes "otp_run (otp_init j offline now) ls s" and "VerifyFlight k phone code workspace started \<in> set (oe_flights s)"
    (is "?f \<in> _")
  shows "length code = OTP_LENGTH \<and> list_all is_digit code
    \<and> (\<exists>b d. started = otpJourneyKey (Some phone) (Some workspace) b d) \<and> under k s = [?f]
    \<and> (\<forall>answer later t. entry_next (Verified ?f answer later) s = Some t
        \<longrightarrow> \<not> (oe_mounted s \<and> journeyKey (oe_journey s) = started) \<longrightarrow> oe_view t = oe_view s \<and> oe_alerts t = oe_alerts s)"
proof -
  have "entry_inv (otp_init j offline now)" "entry_locks (otp_init j offline now)"
    by (simp_all add: entry_inv_def entry_locks_def under_def otp_init_def Let_def)
  then have inv: "entry_inv s" "entry_locks s"
    using assms(1) entry_cells.run_kept entry_locks.run_kept by blast+
  have "code_flight ?f" using inv(1) assms(2) unfolding entry_inv_def by blast
  moreover have "?f \<in> set (under k s)" using assms(2) by (simp add: under_def)
  moreover have "length (under k s) \<le> 1" using inv(2) by (simp add: entry_locks_def)
  ultimately show ?thesis
    using assms(2)
    by (cases "under k s") (auto simp: verify_answered_def ownsJourney_def ownsOtpJourney_def otp_release_def Let_def split: sum.split)
qed

section \<open>Witnesses\<close>

definition signing_in :: otp_journey where
  "signing_in = journey_of (JStr (js ''+233241234567'')) (JStr (js ''grace'')) None None"

definition code_pasted :: "otp_label list" where
  "code_pasted = [JourneyEffect 0, OtpRendered signing_in False, DigitsTyped (js ''12x34'') 0, OtpRendered signing_in False,
     DigitsTyped (js ''5'') 4, OtpRendered signing_in False, DigitsTyped (js ''6'') 5, OtpRendered signing_in False,
     VerifyPressed, VerifyPressed]"

abbreviation pasted_flight :: otp_flight where
  "pasted_flight \<equiv> VerifyFlight 1 (js ''+233241234567'') (js ''123456'') (js ''grace'') (journeyKey signing_in)"

lemma code_pasted_run: "map_option oe_flights (run_steps entry_next code_pasted (otp_init signing_in False 0)) = Some [pasted_flight]"
  by code_simp

theorem code_is_sent_once_for_its_journey_witness:
  "\<exists>s. otp_run (otp_init signing_in False 0) code_pasted s \<and> under 1 s = [pasted_flight]"
proof -
  obtain s where run: "otp_run (otp_init signing_in False 0) code_pasted s" and "pasted_flight \<in> set (oe_flights s)"
    using code_pasted_run by (auto simp: step_run_iff)
  from code_is_sent_once_for_its_journey [OF this] run show ?thesis by auto
qed

text \<open>A request for a code without an answer is not taken for one: the service reports it with an error of its own,
  which the failure of a resend does not know. No countdown starts, the boxes stay closed, and the button can be
  pressed again at once.\<close>

lemma lost_resend_starts_no_countdown:
  "map_option (\<lambda>s. (ov_hasRequestedCode (oe_drawn s), resendTimer s, ac_disabled (resendAction s)))
     (run_steps entry_next [JourneyEffect 0, OtpRendered (journey_of (JStr (js ''+233241234567'')) (JStr (js ''grace'')) (Some False) None) False,
        ResendPressed, OtpRendered (journey_of (JStr (js ''+233241234567'')) (JStr (js ''grace'')) (Some False) None) False,
        Resent (ResendFlight 1 (js ''+233241234567'') (js ''grace'')
          (journeyKey (journey_of (JStr (js ''+233241234567'')) (JStr (js ''grace'')) (Some False) None)) False)
          (\<lambda>_. Inl (AxiosError None)) 5,
        OtpRendered (journey_of (JStr (js ''+233241234567'')) (JStr (js ''grace'')) (Some False) None) False]
       (otp_init (journey_of (JStr (js ''+233241234567'')) (JStr (js ''grace'')) (Some False) None) False 0))
     = Some (False, 0, False)"
  by code_simp

end
