(* ===== verification/PagedScreen.thy ===== *)
theory PagedScreen
  imports ScreenState
begin

text \<open>
  The contract of the screens that page through entries of one owner behind a gate of tickets: an abstract machine,
  what every run of it keeps, and a locale for the screens whose steps are steps of the machine.
\<close>

section \<open>The machine\<close>

text \<open>The newest ticket, the pages awaited with their ticket and owner, the owner of the entries, the entries.\<close>

record ('o, 'e) paged =
  pg_gate :: int
  pg_pages :: "(int \<times> 'o) set"
  pg_owner :: "'o option"
  pg_entries :: "'e list"

text \<open>\<open>good u e\<close>: the event at hand brings the entry \<open>e\<close> for the owner \<open>u\<close>. \<open>kin d e\<close>: \<open>e\<close> is \<open>d\<close> after an update of
  the screen. A load opens a new ticket, for the owner of the entries or for another one after dropping them.\<close>

inductive paged_step ::
    "('o \<Rightarrow> 'e \<Rightarrow> bool) \<Rightarrow> ('e \<Rightarrow> 'e \<Rightarrow> bool) \<Rightarrow> ('e \<Rightarrow> jsstring) \<Rightarrow> ('o, 'e) paged \<Rightarrow> ('o, 'e) paged \<Rightarrow> bool"
  for good kin ident where
  change: "pg_gate q = pg_gate p \<Longrightarrow> pg_pages q \<subseteq> pg_pages p \<Longrightarrow> pg_owner q = pg_owner p
    \<Longrightarrow> (distinct (map ident (pg_entries p)) \<Longrightarrow> distinct (map ident (pg_entries q)))
    \<Longrightarrow> (\<And>e. e \<in> set (pg_entries q) \<Longrightarrow> (\<exists>d\<in>set (pg_entries p). kin d e) \<or> (\<exists>u. pg_owner p = Some u \<and> good u e))
    \<Longrightarrow> paged_step good kin ident p q"
| load: "pg_gate q = next_revision (pg_gate p) \<Longrightarrow> pg_pages q \<subseteq> insert (pg_gate q, u) (pg_pages p) \<Longrightarrow> pg_owner q = Some u
    \<Longrightarrow> pg_entries q = [] \<or> pg_owner p = Some u \<and> pg_entries q = pg_entries p \<Longrightarrow> paged_step good kin ident p q"
| invalidate: "pg_gate q = next_revision (pg_gate p) \<Longrightarrow> pg_pages q \<subseteq> pg_pages p \<Longrightarrow> pg_owner q = pg_owner p
    \<Longrightarrow> pg_entries q = [] \<or> pg_entries q = pg_entries p \<Longrightarrow> paged_step good kin ident p q"
| arrive: "pg_gate q = pg_gate p \<Longrightarrow> pg_pages q \<subseteq> pg_pages p \<Longrightarrow> (pg_gate p, u) \<in> pg_pages p \<Longrightarrow> pg_gate p \<le> max_safe_integer
    \<Longrightarrow> pg_owner q = Some u \<or> pg_owner q = pg_owner p \<Longrightarrow> distinct (map ident es) \<Longrightarrow> (\<And>e. e \<in> set es \<Longrightarrow> good u e)
    \<Longrightarrow> pg_entries q = es \<or> pg_entries q = appendUniquePageById ident (pg_entries p) es \<Longrightarrow> paged_step good kin ident p q"

definition paged_inv :: "('e \<Rightarrow> jsstring) \<Rightarrow> ('o \<Rightarrow> 'e \<Rightarrow> bool) \<Rightarrow> ('o, 'e) paged \<Rightarrow> bool" where
  "paged_inv ident own p \<longleftrightarrow> distinct (map ident (pg_entries p))
     \<and> (\<forall>e\<in>set (pg_entries p). \<exists>u. pg_owner p = Some u \<and> own u e)
     \<and> (\<forall>t u. (t, u) \<in> pg_pages p \<longrightarrow> t \<le> pg_gate p)
     \<and> (\<forall>u. (pg_gate p, u) \<in> pg_pages p \<longrightarrow> pg_gate p \<le> max_safe_integer \<longrightarrow> pg_owner p = Some u)"

lemma paged_invD:
  assumes "paged_inv ident own p"
  shows "distinct (map ident (pg_entries p))" "e \<in> set (pg_entries p) \<Longrightarrow> \<exists>u. pg_owner p = Some u \<and> own u e"
    "(t, u) \<in> pg_pages p \<Longrightarrow> t \<le> pg_gate p"
    "(pg_gate p, u) \<in> pg_pages p \<Longrightarrow> pg_gate p \<le> max_safe_integer \<Longrightarrow> pg_owner p = Some u"
  using assms by (auto simp: paged_inv_def)

text \<open>A gate that was just opened has no page but its own.\<close>

lemma paged_fresh:
  "paged_inv ident own p \<Longrightarrow> next_revision (pg_gate p) \<le> max_safe_integer \<Longrightarrow> (next_revision (pg_gate p), u) \<notin> pg_pages p"
  by (force simp: next_revision_def max_safe_integer_def dest: paged_invD(3) split: if_splits)

lemma paged_later: "paged_inv ident own p \<Longrightarrow> (t, u) \<in> pg_pages p \<Longrightarrow> t \<le> next_revision (pg_gate p)"
  using paged_invD(3) next_revision_le order_trans by metis

lemma paged_step_inv:
  assumes "paged_step good kin ident p q" and inv: "paged_inv ident own p"
    and good: "\<And>u e. good u e \<Longrightarrow> own u e" and kin: "\<And>u d e. own u d \<Longrightarrow> kin d e \<Longrightarrow> own u e"
  shows "paged_inv ident own q"
  using assms(1)
proof cases
  case change
  then have "\<forall>e\<in>set (pg_entries q). \<exists>u. pg_owner q = Some u \<and> own u e"
    using paged_invD(2) [OF inv] good kin by metis
  moreover have "t \<le> pg_gate q" if "(t, w) \<in> pg_pages q" for t w
    using that change(1,2) paged_invD(3) [OF inv] by auto
  moreover have "pg_owner q = Some w" if "(pg_gate q, w) \<in> pg_pages q" "pg_gate q \<le> max_safe_integer" for w
    using that change(1-3) paged_invD(4) [OF inv] by auto
  ultimately show ?thesis
    unfolding paged_inv_def using change(4) paged_invD(1) [OF inv] by blast
next
  case (load u)
  have "t \<le> pg_gate q" if "(t, w) \<in> pg_pages q" for t w
    using that load(1,2) paged_later [OF inv] by auto
  moreover have "pg_owner q = Some w" if "(pg_gate q, w) \<in> pg_pages q" "pg_gate q \<le> max_safe_integer" for w
    using that load(1-3) paged_fresh [OF inv] by auto
  ultimately show ?thesis
    unfolding paged_inv_def using load(3,4) paged_invD(1,2) [OF inv] by (auto; metis)
next
  case invalidate
  have "t \<le> pg_gate q" if "(t, w) \<in> pg_pages q" for t w
    using that invalidate(1,2) paged_later [OF inv] by auto
  moreover have "(pg_gate q, w) \<notin> pg_pages q" if "pg_gate q \<le> max_safe_integer" for w
    using that invalidate(1,2) paged_fresh [OF inv] by auto
  ultimately show ?thesis
    unfolding paged_inv_def using invalidate(3,4) paged_invD(1,2) [OF inv] by auto
next
  case (arrive u es)
  have "pg_owner p = Some u" using paged_invD(4) [OF inv] arrive(3,4) by blast
  then have q: "pg_owner q = Some u" using arrive(5) by auto
  have "\<forall>e\<in>set (pg_entries p). own u e" using paged_invD(2) [OF inv] \<open>pg_owner p = Some u\<close> by auto
  then have "\<forall>e\<in>set (pg_entries q). own u e"
    using arrive(7,8) good by (auto dest!: set_appendUniquePage)
  moreover have "distinct (map ident (pg_entries q))"
    using arrive(6,8) paged_invD(1) [OF inv] by (auto simp: distinct_appendUniquePage)
  moreover have "pg_owner q = Some w" if "(pg_gate q, w) \<in> pg_pages q" "pg_gate q \<le> max_safe_integer" for w
    using that arrive(1,2) q \<open>pg_owner p = Some u\<close> paged_invD(4) [OF inv] by (metis subsetD)
  ultimately show ?thesis
    unfolding paged_inv_def using arrive(1,2) q paged_invD(3) [OF inv] by auto
qed

lemma paged_steps_inv:
  assumes "(paged_step good kin ident)\<^sup>*\<^sup>* p q" and "paged_inv ident own p"
    and "\<And>u e. good u e \<Longrightarrow> own u e" and "\<And>u d e. own u d \<Longrightarrow> kin d e \<Longrightarrow> own u e"
  shows "paged_inv ident own q"
  using assms(1,2) by (induction rule: rtranclp_induct) (auto intro: paged_step_inv assms(3,4))

section \<open>The screens\<close>

text \<open>The entry was carried for the owner by one of the events, and was only updated since.\<close>

definition received_by :: "('l \<Rightarrow> 'o \<Rightarrow> 'e \<Rightarrow> bool) \<Rightarrow> ('e \<Rightarrow> 'e \<Rightarrow> bool) \<Rightarrow> 'l list \<Rightarrow> 'o \<Rightarrow> 'e \<Rightarrow> bool" where
  "received_by brings kin ls u e \<longleftrightarrow> (\<exists>l\<in>set ls. \<exists>d. brings l u d \<and> kin d e)"

definition owned_view :: "('e \<Rightarrow> jsstring) \<Rightarrow> ('o \<Rightarrow> 'e \<Rightarrow> bool) \<Rightarrow> 'o option \<times> 'e list \<Rightarrow> bool" where
  "owned_view ident own v \<longleftrightarrow> distinct (map ident (snd v)) \<and> (\<forall>e\<in>set (snd v). \<exists>u. fst v = Some u \<and> own u e)"

lemma received_later: "received_by brings kin ls u e \<Longrightarrow> received_by brings kin (ls @ [l]) u e"
  by (auto simp: received_by_def)

lemma owned_later:
  "owned_view ident (received_by brings kin ls) v \<Longrightarrow> owned_view ident (received_by brings kin (ls @ [l])) v"
  unfolding owned_view_def using received_later by metis

lemma paged_owned: "paged_inv ident own p \<Longrightarrow> owned_view ident own (pg_owner p, pg_entries p)"
  by (simp add: paged_inv_def owned_view_def)

text \<open>\<open>brings l u e\<close>: the event \<open>l\<close> carries the entry \<open>e\<close> for the owner \<open>u\<close>. \<open>drawn\<close> is the owner and the entries of
  the last render.\<close>

locale paged_screen =
  fixes nxt :: "'l \<Rightarrow> 's \<Rightarrow> 's option" and pages :: "'s \<Rightarrow> ('o, 'e) paged" and drawn :: "'s \<Rightarrow> 'o option \<times> 'e list"
    and brings :: "'l \<Rightarrow> 'o \<Rightarrow> 'e \<Rightarrow> bool" and kin :: "'e \<Rightarrow> 'e \<Rightarrow> bool" and ident :: "'e \<Rightarrow> jsstring"
  assumes steps: "nxt l s = Some t \<Longrightarrow> (paged_step (brings l) kin ident)\<^sup>*\<^sup>* (pages s) (pages t)"
    and renders: "nxt l s = Some t \<Longrightarrow> drawn t = drawn s \<or> drawn t = (pg_owner (pages s), pg_entries (pages s))"
    and kin_refl: "kin e e" and kin_trans: "kin d e \<Longrightarrow> kin e f \<Longrightarrow> kin d f"
begin

abbreviation received :: "'l list \<Rightarrow> 'o \<Rightarrow> 'e \<Rightarrow> bool" where
  "received \<equiv> received_by brings kin"

lemma run_owned:
  assumes "step_run nxt s0 ls s" and "pg_entries (pages s0) = []" "pg_pages (pages s0) = {}" "snd (drawn s0) = []"
  shows "paged_inv ident (received ls) (pages s) \<and> owned_view ident (received ls) (drawn s)"
  using assms(1)
proof (induction ls s rule: step_run.induct)
  case here
  then show ?case using assms(2-4) by (simp add: paged_inv_def owned_view_def)
next
  case (further ls s l t)
  have "paged_inv ident (received (ls @ [l])) (pages s)"
    using further.IH received_later unfolding paged_inv_def by metis
  then have "paged_inv ident (received (ls @ [l])) (pages t)"
    by (rule paged_steps_inv [OF steps [OF further.hyps(2)]])
      (auto simp: received_by_def intro: kin_refl kin_trans)
  moreover have "owned_view ident (received (ls @ [l])) (drawn t)"
    using renders [OF further.hyps(2)] further.IH paged_owned owned_later by metis
  ultimately show ?case by blast
qed

text \<open>What a render draws was received for its owner, and is drawn once.\<close>

theorem drawn_is_own:
  assumes "step_run nxt s0 ls s" and "pg_entries (pages s0) = []" "pg_pages (pages s0) = {}" "snd (drawn s0) = []"
  shows "distinct (map ident (snd (drawn s)))" and "e \<in> set (snd (drawn s)) \<Longrightarrow> \<exists>u. fst (drawn s) = Some u \<and> received ls u e"
  using run_owned [OF assms] by (auto simp: owned_view_def)

end

end
