(* ===== verification/KeyedScreen.thy ===== *)
theory KeyedScreen
  imports ScreenState
begin

text \<open>
  The contract of the screens that send one request per entry at a time behind a keyed lock, which is replaced when the
  owner changes: an abstract machine, what every run of it keeps, and a locale for the screens whose steps are its steps.
\<close>

section \<open>The machine\<close>

text \<open>The number of the lock in use, the keys each lock holds, and the keys of the requests awaited under it.\<close>

record keyed =
  ky_current :: nat
  ky_lock :: "nat \<Rightarrow> jsstring list"
  ky_awaited :: "nat \<Rightarrow> jsstring multiset"

inductive keyed_step :: "keyed \<Rightarrow> keyed \<Rightarrow> bool" where
  reset: "keyed_step p (p\<lparr>ky_current := Suc (ky_current p), ky_lock := (ky_lock p)(Suc (ky_current p) := [])\<rparr>)"
| refuse: "fst (keyed_acquire i (ky_lock p k))
    \<Longrightarrow> keyed_step p (p\<lparr>ky_lock := (ky_lock p)(k := keyed_release i (snd (keyed_acquire i (ky_lock p k))))\<rparr>)"
| acquire: "fst (keyed_acquire i (ky_lock p (ky_current p)))
    \<Longrightarrow> keyed_step p (p\<lparr>ky_lock := (ky_lock p)(ky_current p := snd (keyed_acquire i (ky_lock p (ky_current p)))),
      ky_awaited := (ky_awaited p)(ky_current p := add_mset i (ky_awaited p (ky_current p)))\<rparr>)"
| release: "i \<in># ky_awaited p k
    \<Longrightarrow> keyed_step p (p\<lparr>ky_lock := (ky_lock p)(k := keyed_release i (ky_lock p k)),
      ky_awaited := (ky_awaited p)(k := ky_awaited p k - {#i#})\<rparr>)"

definition keyed_inv :: "keyed \<Rightarrow> bool" where
  "keyed_inv p \<longleftrightarrow> (\<forall>k. distinct (ky_lock p k) \<and> mset (ky_lock p k) = ky_awaited p k) \<and> (\<forall>k>ky_current p. ky_lock p k = [])"

lemma acquire_inserts: "fst (keyed_acquire i ks) \<Longrightarrow> snd (keyed_acquire i ks) = ks @ [i] \<and> i \<notin> set ks"
  by (auto simp: keyed_acquire_def split: if_splits)

lemma keyed_release_quiet: "i \<notin> set ks \<Longrightarrow> keyed_release i (ks @ [i]) = ks"
  by (auto simp: keyed_release_def filter_id_conv)

lemma keyed_step_inv: "keyed_step p q \<Longrightarrow> keyed_inv p \<Longrightarrow> keyed_inv q"
proof (induction rule: keyed_step.induct)
  case (reset p)
  then have "ky_awaited p (Suc (ky_current p)) = {#}"
    unfolding keyed_inv_def by (metis lessI mset.simps(1))
  then show ?case using reset by (auto simp: keyed_inv_def)
next
  case (refuse i p k)
  then show ?case using acquire_inserts keyed_release_quiet by (simp add: fun_upd_idem)
next
  case (acquire i p)
  then show ?case using acquire_inserts [OF acquire.hyps] by (auto simp: keyed_inv_def)
next
  case (release i p k)
  then have "mset (ky_lock p k) = ky_awaited p k" by (simp add: keyed_inv_def)
  then show ?case
    using release.prems by (auto simp: keyed_inv_def keyed_release_remove1)
qed

lemma keyed_steps_inv: "keyed_step\<^sup>*\<^sup>* p q \<Longrightarrow> keyed_inv p \<Longrightarrow> keyed_inv q"
  by (induction rule: rtranclp_induct) (auto intro: keyed_step_inv)

section \<open>The screens\<close>

locale keyed_screen =
  fixes nxt :: "'l \<Rightarrow> 's \<Rightarrow> 's option" and keys :: "'s \<Rightarrow> keyed"
  assumes steps: "nxt l s = Some t \<Longrightarrow> keyed_step\<^sup>*\<^sup>* (keys s) (keys t)"
begin

lemma run_keyed: "step_run nxt s0 ls s \<Longrightarrow> keyed_inv (keys s0) \<Longrightarrow> keyed_inv (keys s)"
  by (induction ls s rule: step_run.induct) (auto dest: steps intro: keyed_steps_inv)

text \<open>Under a lock no key is awaited twice.\<close>

theorem awaited_once:
  assumes "step_run nxt s0 ls s" and "keyed_inv (keys s0)"
  shows "Multiset.count (ky_awaited (keys s) k) i \<le> 1"
proof -
  have "distinct (ky_lock (keys s) k)" "mset (ky_lock (keys s) k) = ky_awaited (keys s) k"
    using run_keyed [OF assms] by (simp_all add: keyed_inv_def)
  then show ?thesis
    by (metis distinct_count_atmost_1 zero_le_one order_refl)
qed

end

end
