(* ===== verification/Inbox.thy ===== *)
theory Inbox
  imports Notifications AuthForms PagedScreen KeyedScreen
begin

text \<open>
  The notification inbox (\<open>screens/notifications/NotificationsScreen.tsx\<close>): paging, reading an item and following
  its link, and the permission for push alerts (\<open>notification-permission-state.ts\<close>). \<open>iv\<close> fields are the state hooks;
  \<open>ib_view\<close> holds what the setters produced and \<open>ib_drawn\<close> what the last render drew.
\<close>

section \<open>The permission\<close>

datatype push_status = Granted | Denied | Undetermined

record PushPermissionState =
  ps_status :: push_status
  ps_canAskAgain :: bool

datatype permission_action = CheckingPermission | RetryCheck | PromptPermission | OpenSettings | PermissionEnabled

definition pushPermissionAction :: "PushPermissionState option \<Rightarrow> bool \<Rightarrow> permission_action" where
  "pushPermissionAction permission checkFailed =
     (if checkFailed then RetryCheck
      else case permission of
          None \<Rightarrow> CheckingPermission
        | Some p \<Rightarrow> if ps_status p = Granted then PermissionEnabled
            else if ps_canAskAgain p then PromptPermission else OpenSettings)"

section \<open>The state\<close>

record inbox_view =
  iv_items :: "MemberNotification list"
  iv_itemsOwner :: "screen_owner option"
  iv_loading :: bool
  iv_refreshing :: bool
  iv_loadingMore :: bool
  iv_loadedPage :: int
  iv_totalItems :: int
  iv_loadError :: jsstring
  iv_actionError :: jsstring
  iv_actionNeedsRefresh :: bool
  iv_permission :: "PushPermissionState option"
  iv_permissionCheckFailed :: bool
  iv_enablingPush :: bool
  iv_markingIds :: "jsstring list"

text \<open>A request awaited. A reading has its lock, the item that was drawn, the time shown meanwhile and its owner.\<close>

datatype inbox_flight =
    InboxFlight int jsstring jsstring int
  | CheckFlight int
  | EnableFlight nat jsstring jsstring
  | SettingsFlight nat jsstring jsstring
  | ReadFlight nat MemberNotification "jsval option" jsstring jsstring

text \<open>\<open>ib_opened\<close> are the links handed to the system, with the member of the screen at that time.\<close>

record inbox_screen =
  ib_pushSupported :: bool
  ib_active :: screen_owner
  ib_offline :: bool
  ib_mounted :: bool
  ib_effect :: "screen_owner option"
  ib_view :: inbox_view
  ib_drawn :: inbox_view
  ib_gate :: int
  ib_checkGate :: int
  ib_locks :: nat
  ib_permissionLock :: "nat \<Rightarrow> bool"
  ib_readLock :: "nat \<Rightarrow> jsstring list"
  ib_flights :: "inbox_flight list"
  ib_opened :: "(jsstring \<times> screen_owner) list"

abbreviation set_inbox :: "(inbox_view \<Rightarrow> inbox_view) \<Rightarrow> inbox_screen \<Rightarrow> inbox_screen" where
  "set_inbox f s \<equiv> s\<lparr>ib_view := f (ib_view s)\<rparr>"

definition inbox_await :: "inbox_flight \<Rightarrow> inbox_screen \<Rightarrow> inbox_screen" where
  "inbox_await f s = s\<lparr>ib_flights := ib_flights s @ [f]\<rparr>"

definition NOTIFICATION_PAGE_SIZE :: int where
  "NOTIFICATION_PAGE_SIZE = 50"

definition inbox_of :: "screen_owner \<Rightarrow> inbox_owner" where
  "inbox_of u = \<lparr>io_churchId = so_churchId u, io_memberId = so_memberId u\<rparr>"

definition inbox_belongs :: "screen_owner option \<Rightarrow> screen_owner \<Rightarrow> bool" where
  "inbox_belongs w u = notificationInboxBelongsToIdentity (map_option inbox_of w) (inbox_of u)"

definition inbox_owns :: "jsstring \<Rightarrow> jsstring \<Rightarrow> inbox_screen \<Rightarrow> bool" where
  "inbox_owns churchId memberId s \<longleftrightarrow>
     notificationMutationCompletionBelongsToIdentity (ib_mounted s) (inbox_of (ib_active s)) churchId memberId"

section \<open>Loading\<close>

definition inbox_reset :: "screen_owner \<Rightarrow> inbox_screen \<Rightarrow> inbox_screen" where
  "inbox_reset startedOwner s =
     (let lock = ib_locks s + 1 in
      s\<lparr>ib_view := (ib_view s)\<lparr>iv_itemsOwner := Some startedOwner, iv_items := [], iv_loadedPage := 0, iv_totalItems := 0,
          iv_actionError := [], iv_actionNeedsRefresh := False, iv_markingIds := [], iv_enablingPush := False\<rparr>,
        ib_locks := lock,
        ib_readLock := (ib_readLock s)(lock := []),
        ib_permissionLock := (ib_permissionLock s)(lock := False)\<rparr>)"

definition inbox_loaded ::
    "int \<Rightarrow> screen_owner \<Rightarrow> int \<Rightarrow> js_error + MemberNotification list \<times> int \<Rightarrow> inbox_screen \<Rightarrow> inbox_screen" where
  "inbox_loaded ticket owner page answer s =
     (if \<not> isLatest (jint ticket) (ib_gate s) then s
      else
        let s1 = (case answer of
            Inr (items, tot) \<Rightarrow> set_inbox (\<lambda>v. v\<lparr>iv_items := (if page = 1 then items
                else appendUniquePageById mn_id (iv_items v) items),
              iv_loadedPage := page, iv_totalItems := tot, iv_itemsOwner := Some owner, iv_actionError := [],
              iv_actionNeedsRefresh := False\<rparr>) s
          | Inl cause \<Rightarrow> set_inbox (\<lambda>v. v\<lparr>iv_loadError :=
              connectivityErrorMessage cause (js ''Notifications are unavailable right now.'')\<rparr>) s)
        in set_inbox (\<lambda>v. v\<lparr>iv_loading := False, iv_refreshing := False, iv_loadingMore := False\<rparr>) s1)"

definition loadInbox :: "bool \<Rightarrow> int \<Rightarrow> inbox_screen \<Rightarrow> inbox_screen" where
  "loadInbox refresh page s =
     (let (request, gate) = request_begin (ib_gate s);
          s1 = s\<lparr>ib_gate := gate\<rparr>;
          s2 = (if inbox_belongs (iv_itemsOwner (ib_view s1)) (ib_active s1) then s1 else inbox_reset (ib_active s1) s1);
          s3 = set_inbox (\<lambda>v. if 1 < page then v\<lparr>iv_loadingMore := True\<rparr>
                 else if refresh then v\<lparr>iv_refreshing := True\<rparr> else v\<lparr>iv_loading := True\<rparr>) s2;
          s4 = set_inbox (\<lambda>v. v\<lparr>iv_loadError := []\<rparr>) s3
      in case member_of (ib_active s4) of
           Some (churchId, memberId) \<Rightarrow> inbox_await (InboxFlight request churchId memberId page) s4
         | None \<Rightarrow> inbox_loaded request (ib_active s4) page (Inl (throw ''Member identity is incomplete'')) s4)"

definition checkPushPermission :: "inbox_screen \<Rightarrow> inbox_screen" where
  "checkPushPermission s =
     (if \<not> ib_pushSupported s then s
      else
        let (request, gate) = request_begin (ib_checkGate s)
        in inbox_await (CheckFlight request)
          (set_inbox (\<lambda>v. v\<lparr>iv_permissionCheckFailed := False, iv_permission := None\<rparr>) (s\<lparr>ib_checkGate := gate\<rparr>)))"

definition permission_checked :: "int \<Rightarrow> PushPermissionState option \<Rightarrow> inbox_screen \<Rightarrow> inbox_screen" where
  "permission_checked ticket answer s =
     (if \<not> (ib_mounted s \<and> isLatest (jint ticket) (ib_checkGate s)) then s
      else case answer of
          Some result \<Rightarrow> set_inbox (\<lambda>v. v\<lparr>iv_permission := Some result\<rparr>) s
        | None \<Rightarrow> set_inbox (\<lambda>v. v\<lparr>iv_permissionCheckFailed := True\<rparr>) s)"

text \<open>The effect of a change of identity: the clean-up of the one before, then both requests.\<close>

definition inbox_effect :: "inbox_screen \<Rightarrow> inbox_screen" where
  "inbox_effect s =
     (let s1 = (if ib_effect s = None then s
          else s\<lparr>ib_gate := request_invalidate (ib_gate s), ib_checkGate := request_invalidate (ib_checkGate s)\<rparr>)
      in checkPushPermission (loadInbox False 1 (s1\<lparr>ib_effect := Some (ib_active s)\<rparr>)))"

section \<open>Push alerts\<close>

definition permission_release :: "nat \<Rightarrow> inbox_screen \<Rightarrow> inbox_screen" where
  "permission_release lock s =
     s\<lparr>ib_permissionLock := (ib_permissionLock s)(lock := lock_release () (ib_permissionLock s lock))\<rparr>"

text \<open>What enabling the alerts and opening the settings have in common; \<open>f\<close> is what is awaited.\<close>

definition permission_started :: "(nat \<Rightarrow> jsstring \<Rightarrow> jsstring \<Rightarrow> inbox_flight) \<Rightarrow> inbox_screen \<Rightarrow> inbox_screen" where
  "permission_started f s =
     (case member_of (ib_active s) of
        None \<Rightarrow> s
      | Some (churchId, memberId) \<Rightarrow>
          if \<not> inbox_owns churchId memberId s then s
          else
            let (acquired, locked) = lock_acquire () (ib_permissionLock s (ib_locks s)) in
            if \<not> acquired then s
            else inbox_await (f (ib_locks s) churchId memberId)
              (set_inbox (\<lambda>v. v\<lparr>iv_enablingPush := True, iv_actionError := []\<rparr>)
                (s\<lparr>ib_permissionLock := (ib_permissionLock s)(ib_locks s := locked)\<rparr>)))"

definition permission_finished :: "nat \<Rightarrow> jsstring \<Rightarrow> jsstring \<Rightarrow> inbox_screen \<Rightarrow> inbox_screen" where
  "permission_finished lock churchId memberId s =
     (let s1 = permission_release lock s
      in if inbox_owns churchId memberId s1 then set_inbox (\<lambda>v. v\<lparr>iv_enablingPush := False\<rparr>) s1 else s1)"

definition enablePush :: "inbox_screen \<Rightarrow> inbox_screen" where
  "enablePush = permission_started EnableFlight"

definition openNotificationSettings :: "inbox_screen \<Rightarrow> inbox_screen" where
  "openNotificationSettings = permission_started SettingsFlight"

definition push_enabled ::
    "nat \<Rightarrow> jsstring \<Rightarrow> jsstring \<Rightarrow> js_error + PushPermissionState \<Rightarrow> inbox_screen \<Rightarrow> inbox_screen" where
  "push_enabled lock churchId memberId answer s =
     permission_finished lock churchId memberId
       (if \<not> inbox_owns churchId memberId s then s
        else case answer of
            Inr result \<Rightarrow>
              (let s1 = set_inbox (\<lambda>v. v\<lparr>iv_permission := Some result, iv_permissionCheckFailed := False\<rparr>) s
               in if ps_status result \<noteq> Granted
                 then set_inbox (\<lambda>v. v\<lparr>iv_actionError :=
                   js ''Notifications are off. You can enable them later in device settings.''\<rparr>) s1 else s1)
          | Inl cause \<Rightarrow> set_inbox (\<lambda>v. v\<lparr>iv_actionError :=
              apiErrorMessage cause (js ''This device could not be registered for push alerts.'')\<rparr>) s)"

definition settings_opened :: "nat \<Rightarrow> jsstring \<Rightarrow> jsstring \<Rightarrow> bool \<Rightarrow> inbox_screen \<Rightarrow> inbox_screen" where
  "settings_opened lock churchId memberId opened s =
     permission_finished lock churchId memberId
       (if \<not> opened \<and> inbox_owns churchId memberId s
        then set_inbox (\<lambda>v. v\<lparr>iv_actionError := js ''Device notification settings could not be opened.''\<rparr>) s else s)"

section \<open>Reading an item\<close>

definition inbox_ids :: "inbox_screen \<Rightarrow> jsstring list" where
  "inbox_ids s = map mn_id (iv_items (ib_drawn s))"

definition item_link :: "host \<Rightarrow> MemberNotification \<Rightarrow> jsstring option" where
  "item_link h item = (case mn_deepLink item of None \<Rightarrow> None | Some l \<Rightarrow> safeNotificationUrl h (JStr l))"

text \<open>\<open>now\<close> is the clock. The link is opened at once, and both outcomes are awaited together.\<close>

definition openItem :: "host \<Rightarrow> int \<Rightarrow> MemberNotification \<Rightarrow> inbox_screen \<Rightarrow> inbox_screen" where
  "openItem h now item s =
     (let (acquired, held_keys) = keyed_acquire (mn_id item) (ib_readLock s (ib_locks s));
          s1 = s\<lparr>ib_readLock := (ib_readLock s)(ib_locks s := held_keys)\<rparr>;
          refused = s\<lparr>ib_readLock := (ib_readLock s)(ib_locks s := keyed_release (mn_id item) held_keys)\<rparr>
      in if \<not> acquired then s
        else case member_of (ib_active s) of
            None \<Rightarrow> refused
          | Some (churchId, memberId) \<Rightarrow>
              if \<not> (inbox_owns churchId memberId s \<and> inbox_belongs (iv_itemsOwner (ib_view s)) (ib_active s)
                \<and> mn_id item \<in> set (inbox_ids s))
              then refused
              else
                let optimisticReadAt = (if mn_readAt item = None \<and> \<not> ib_offline s then Some (JStr (toISOString now)) else None);
                    s2 = set_inbox (\<lambda>v. v\<lparr>iv_actionError := [], iv_markingIds := ids_add (mn_id item) (iv_markingIds v)\<rparr>) s1;
                    s3 = (if optimisticReadAt = None then s2
                      else set_inbox (\<lambda>v. v\<lparr>iv_items := map (\<lambda>x. if mn_id x = mn_id item
                        then x\<lparr>mn_readAt := optimisticReadAt\<rparr> else x) (iv_items v)\<rparr>) s2);
                    s4 = (case item_link h item of
                        Some url \<Rightarrow> s3\<lparr>ib_opened := ib_opened s3 @ [(url, ib_active s3)]\<rparr>
                      | None \<Rightarrow> s3)
                in inbox_await (ReadFlight (ib_locks s) item optimisticReadAt churchId memberId) s4)"

text \<open>What the outcome of a reading does to the items, and what it says.\<close>

definition read_items :: "MemberNotification \<Rightarrow> jsval \<Rightarrow> js_error option \<Rightarrow> MemberNotification list \<Rightarrow> MemberNotification list" where
  "read_items item optimisticReadAt failure items =
     (case failure of
        None \<Rightarrow> map (\<lambda>x. if mn_id x = mn_id item \<and> mn_readAt x = None then x\<lparr>mn_readAt := Some optimisticReadAt\<rparr> else x) items
      | Some e \<Rightarrow> if fst (notificationReadFailure e) then items
          else map (\<lambda>x. if mn_id x = mn_id item
            then x\<lparr>mn_readAt := rollbackNotificationReadAt (mn_readAt x) optimisticReadAt (mn_readAt item)\<rparr> else x) items)"

definition item_opened ::
    "nat \<Rightarrow> MemberNotification \<Rightarrow> jsval option \<Rightarrow> jsstring \<Rightarrow> jsstring \<Rightarrow> action_result \<Rightarrow> inbox_screen \<Rightarrow> inbox_screen" where
  "item_opened lock item optimisticReadAt churchId memberId result s =
     (let there = (inbox_owns churchId memberId s \<and> mn_id item \<in> set (inbox_ids s));
          failure = (if optimisticReadAt = None then None else ar_readError result);
          errors = (case failure of Some e \<Rightarrow> [snd (notificationReadFailure e)] | None \<Rightarrow> [])
            @ (if ar_openFailed result then [js ''The related screen could not be opened.''] else []);
          s1 = (if \<not> there then s
            else set_inbox (\<lambda>v. v\<lparr>
              iv_items := (case optimisticReadAt of None \<Rightarrow> iv_items v | Some t \<Rightarrow> read_items item t failure (iv_items v)),
              iv_actionNeedsRefresh := (iv_actionNeedsRefresh v
                \<or> (case failure of Some e \<Rightarrow> fst (notificationReadFailure e) | None \<Rightarrow> False)),
              iv_actionError := (if errors = [] then iv_actionError v else join_space errors)\<rparr>) s);
          s2 = s1\<lparr>ib_readLock := (ib_readLock s1)(lock := keyed_release (mn_id item) (ib_readLock s1 lock))\<rparr>
      in if there then set_inbox (\<lambda>v. v\<lparr>iv_markingIds := ids_delete (mn_id item) (iv_markingIds v)\<rparr>) s2 else s2)"

section \<open>What is drawn\<close>

definition ownsItems :: "inbox_screen \<Rightarrow> bool" where
  "ownsItems s \<longleftrightarrow> inbox_belongs (iv_itemsOwner (ib_drawn s)) (ib_active s)"

definition visibleItems :: "inbox_screen \<Rightarrow> MemberNotification list" where
  "visibleItems s = (if ownsItems s then iv_items (ib_drawn s) else [])"

definition inbox_shown :: "inbox_screen \<Rightarrow> bool" where
  "inbox_shown s \<longleftrightarrow> ib_mounted s \<and> \<not> (iv_loading (ib_drawn s) \<or> \<not> ownsItems s \<and> iv_loadError (ib_drawn s) = [])"

definition hasOlderItems :: "inbox_screen \<Rightarrow> bool" where
  "hasOlderItems s \<longleftrightarrow> int (length (visibleItems s)) < iv_totalItems (ib_drawn s)"

definition inbox_pagination :: "inbox_screen \<Rightarrow> resend_state" where
  "inbox_pagination s =
     (let d = ib_drawn s in
      paginationActionState (js ''older notifications'') (ib_offline s) (iv_loadingMore d) (iv_refreshing d)
        (iv_actionNeedsRefresh d \<or> iv_loadError d \<noteq> []))"

definition permissionAction :: "inbox_screen \<Rightarrow> permission_action" where
  "permissionAction s = pushPermissionAction (iv_permission (ib_drawn s)) (iv_permissionCheckFailed (ib_drawn s))"

definition permission_disabled :: "inbox_screen \<Rightarrow> bool" where
  "permission_disabled s \<longleftrightarrow> ib_offline s \<and> permissionAction s = PromptPermission \<or> iv_enablingPush (ib_drawn s)
     \<or> permissionAction s = CheckingPermission"

definition inbox_banner :: "inbox_screen \<Rightarrow> (jsstring \<times> banner_action option) option" where
  "inbox_banner s =
     (let d = ib_drawn s in
      notificationBannerState (iv_actionError d) (if visibleItems s \<noteq> [] then iv_loadError d else []) (iv_actionNeedsRefresh d)
        (ib_offline s))"

definition item_disabled :: "host \<Rightarrow> inbox_screen \<Rightarrow> MemberNotification \<Rightarrow> bool" where
  "item_disabled h s item \<longleftrightarrow>
     fst (notificationActionAccessibility (item_link h item \<noteq> None) (mn_readAt item \<noteq> None) (ib_offline s)
       (mn_id item \<in> set (iv_markingIds (ib_drawn s))))"

section \<open>Steps\<close>

definition inbox_init :: "bool \<Rightarrow> screen_owner \<Rightarrow> bool \<Rightarrow> inbox_screen" where
  "inbox_init pushSupported user offline =
     (let view = \<lparr>iv_items = [], iv_itemsOwner = Some user, iv_loading = True, iv_refreshing = False,
         iv_loadingMore = False, iv_loadedPage = 0, iv_totalItems = 0, iv_loadError = [], iv_actionError = [],
         iv_actionNeedsRefresh = False, iv_permission = None, iv_permissionCheckFailed = False, iv_enablingPush = False,
         iv_markingIds = []\<rparr>
      in \<lparr>ib_pushSupported = pushSupported, ib_active = user, ib_offline = offline, ib_mounted = True, ib_effect = None,
          ib_view = view, ib_drawn = view, ib_gate = 0, ib_checkGate = 0, ib_locks = 0, ib_permissionLock = (\<lambda>_. False),
          ib_readLock = (\<lambda>_. []), ib_flights = [], ib_opened = []\<rparr>)"

text \<open>What the gateway, the system and the service answer.\<close>

datatype inbox_answer =
    FromGateway api
  | FromGatewayAndSystem api bool
  | PermissionAnswer "PushPermissionState option"
  | EnableAnswer "js_error + PushPermissionState"
  | SettingsAnswer bool

fun inbox_arrived :: "host \<Rightarrow> inbox_flight \<Rightarrow> inbox_answer \<Rightarrow> inbox_screen \<Rightarrow> inbox_screen option" where
  "inbox_arrived h (InboxFlight ticket churchId memberId page) (FromGateway api) s =
     Some (inbox_loaded ticket (owner_of churchId memberId) page
       (notification_listPage h api churchId memberId (jint page) (jint NOTIFICATION_PAGE_SIZE)) s)"
| "inbox_arrived h (CheckFlight ticket) (PermissionAnswer answer) s = Some (permission_checked ticket answer s)"
| "inbox_arrived h (EnableFlight lock churchId memberId) (EnableAnswer answer) s = Some (push_enabled lock churchId memberId answer s)"
| "inbox_arrived h (SettingsFlight lock churchId memberId) (SettingsAnswer opened) s =
     Some (settings_opened lock churchId memberId opened s)"
| "inbox_arrived h (ReadFlight lock item optimisticReadAt churchId memberId) (FromGatewayAndSystem api opened) s =
     Some (item_opened lock item optimisticReadAt churchId memberId
       (runNotificationActions (if optimisticReadAt = None then None else Some (markRead h api (mn_id item)))
         (if item_link h item = None then None else Some (if opened then Inr () else Inl ThrownValue))) s)"
| "inbox_arrived h _ _ s = None"

datatype inbox_label =
    InboxRendered screen_owner bool
  | InboxEffect
  | InboxUnmounted
  | AppForegrounded
  | InboxAnswered inbox_flight inbox_answer
  | InboxPulled
  | InboxBannerPressed
  | InboxRetried
  | OlderItemsPressed
  | PermissionPressed
  | ItemPressed MemberNotification int

text \<open>One event; \<open>None\<close> when it cannot happen. A control acts as the last render drew it.\<close>

fun inbox_next :: "host \<Rightarrow> inbox_label \<Rightarrow> inbox_screen \<Rightarrow> inbox_screen option" where
  "inbox_next h (InboxRendered user offline) s =
     (if ib_mounted s then Some (s\<lparr>ib_active := user, ib_offline := offline, ib_drawn := ib_view s\<rparr>) else None)"
| "inbox_next h InboxEffect s =
     (if ib_mounted s \<and> ib_effect s \<noteq> Some (ib_active s) then Some (inbox_effect s) else None)"
| "inbox_next h InboxUnmounted s =
     (if ib_mounted s
      then Some (s\<lparr>ib_mounted := False, ib_gate := request_invalidate (ib_gate s),
        ib_checkGate := request_invalidate (ib_checkGate s)\<rparr>)
      else None)"
| "inbox_next h AppForegrounded s = (if ib_mounted s \<and> ib_effect s \<noteq> None then Some (checkPushPermission s) else None)"
| "inbox_next h (InboxAnswered f answer) s =
     (if f \<in> set (ib_flights s) then inbox_arrived h f answer (s\<lparr>ib_flights := remove1 f (ib_flights s)\<rparr>) else None)"
| "inbox_next h InboxPulled s = (if inbox_shown s \<and> \<not> ib_offline s then Some (loadInbox True 1 s) else None)"
| "inbox_next h InboxBannerPressed s =
     (case inbox_banner s of
        Some (_, Some action) \<Rightarrow> if inbox_shown s \<and> \<not> ba_disabled action then Some (loadInbox True 1 s) else None
      | _ \<Rightarrow> None)"
| "inbox_next h InboxRetried s =
     (if inbox_shown s \<and> visibleItems s = [] \<and> iv_loadError (ib_drawn s) \<noteq> [] \<and> \<not> ib_offline s
      then Some (loadInbox False 1 s) else None)"
| "inbox_next h OlderItemsPressed s =
     (if inbox_shown s \<and> visibleItems s \<noteq> [] \<and> hasOlderItems s \<and> \<not> ac_disabled (inbox_pagination s)
      then Some (loadInbox False (iv_loadedPage (ib_drawn s) + 1) s) else None)"
| "inbox_next h PermissionPressed s =
     (if inbox_shown s \<and> ib_pushSupported s \<and> permissionAction s \<noteq> PermissionEnabled \<and> \<not> permission_disabled s
      then Some (if permissionAction s = OpenSettings then openNotificationSettings s
        else if permissionAction s = RetryCheck then checkPushPermission s else enablePush s)
      else None)"
| "inbox_next h (ItemPressed item now) s =
     (if inbox_shown s \<and> item \<in> set (visibleItems s) \<and> \<not> item_disabled h s item then Some (openItem h now item s) else None)"

abbreviation inbox_run :: "host \<Rightarrow> inbox_screen \<Rightarrow> inbox_label list \<Rightarrow> inbox_screen \<Rightarrow> bool" where
  "inbox_run h \<equiv> step_run (inbox_next h)"

section \<open>Lemmas\<close>

lemma inbox_belongs_owner: "inbox_belongs w u \<longleftrightarrow> (\<exists>c m. w = Some (owner_of c m) \<and> u = owner_of c m)"
  by (cases w; cases u)
    (auto simp: inbox_belongs_def notificationInboxBelongsToIdentity_def inbox_of_def owner_of_def
      intro!: screen_owner.equality)

lemma inbox_owns_owner: "inbox_owns c m s \<longleftrightarrow> ib_mounted s \<and> ib_active s = owner_of c m"
  by (cases "ib_active s")
    (auto simp: inbox_owns_def notificationMutationCompletionBelongsToIdentity_def inbox_of_def owner_of_def)

subsection \<open>Whose items they are\<close>

fun inbox_page :: "inbox_flight \<Rightarrow> (int \<times> screen_owner) option" where
  "inbox_page (InboxFlight t c m k) = Some (t, owner_of c m)"
| "inbox_page _ = None"

definition inbox_pages :: "inbox_screen \<Rightarrow> (screen_owner, MemberNotification) paged" where
  "inbox_pages s = \<lparr>pg_gate = ib_gate s, pg_pages = {p. \<exists>f\<in>set (ib_flights s). inbox_page f = Some p},
     pg_owner = iv_itemsOwner (ib_view s), pg_entries = iv_items (ib_view s)\<rparr>"

definition inbox_drawn :: "inbox_screen \<Rightarrow> screen_owner option \<times> MemberNotification list" where
  "inbox_drawn s = (iv_itemsOwner (ib_drawn s), iv_items (ib_drawn s))"

text \<open>The event is the answer to a page of the owner with the item. The screen changes the time of reading only.\<close>

definition inbox_brings :: "host \<Rightarrow> inbox_label \<Rightarrow> screen_owner \<Rightarrow> MemberNotification \<Rightarrow> bool" where
  "inbox_brings h l u item \<longleftrightarrow>
     (\<exists>t c m k api items n. l = InboxAnswered (InboxFlight t c m k) (FromGateway api) \<and> u = owner_of c m
        \<and> notification_listPage h api c m (jint k) (jint NOTIFICATION_PAGE_SIZE) = Inr (items, n) \<and> item \<in> set items)"

definition same_item :: "MemberNotification \<Rightarrow> MemberNotification \<Rightarrow> bool" where
  "same_item a b \<longleftrightarrow> b = a\<lparr>mn_readAt := mn_readAt b\<rparr>"

lemma same_item_refl [simp]: "same_item a a"
  by (simp add: same_item_def)

lemma same_item_trans: "same_item a b \<Longrightarrow> same_item b c \<Longrightarrow> same_item a c"
  by (cases a; cases b; cases c) (simp add: same_item_def)

lemma same_item_id: "same_item a b \<Longrightarrow> mn_id b = mn_id a"
  by (cases a; cases b) (simp add: same_item_def)

abbreviation inbox_steps :: "host \<Rightarrow> inbox_label \<Rightarrow> inbox_screen \<Rightarrow> inbox_screen \<Rightarrow> bool" where
  "inbox_steps h l s t \<equiv> (paged_step (inbox_brings h l) same_item mn_id)\<^sup>*\<^sup>* (inbox_pages s) (inbox_pages t)"

text \<open>A step that changes the times of reading only.\<close>

definition items_kept :: "inbox_screen \<Rightarrow> inbox_screen \<Rightarrow> bool" where
  "items_kept s t \<longleftrightarrow> ib_gate t = ib_gate s \<and> iv_itemsOwner (ib_view t) = iv_itemsOwner (ib_view s)
     \<and> list_all2 same_item (iv_items (ib_view s)) (iv_items (ib_view t))
     \<and> (\<forall>f\<in>set (ib_flights t). f \<in> set (ib_flights s) \<or> inbox_page f = None)"

lemma items_kept_same:
  "ib_gate t = ib_gate s \<Longrightarrow> iv_itemsOwner (ib_view t) = iv_itemsOwner (ib_view s) \<Longrightarrow> iv_items (ib_view t) = iv_items (ib_view s)
     \<Longrightarrow> (\<And>f. f \<in> set (ib_flights t) \<Longrightarrow> f \<in> set (ib_flights s) \<or> inbox_page f = None) \<Longrightarrow> items_kept s t"
  by (simp add: items_kept_def list.rel_refl)

lemma inbox_change: "items_kept s t \<Longrightarrow> inbox_steps h l s t"
proof -
  assume kept: "items_kept s t"
  then have "map mn_id (iv_items (ib_view t)) = map mn_id (iv_items (ib_view s))"
    unfolding items_kept_def by (intro nth_equalityI) (auto simp: list_all2_conv_all_nth same_item_id)
  moreover have "list_all2 same_item (iv_items (ib_view s)) (iv_items (ib_view t))"
    using kept by (simp add: items_kept_def)
  then have "\<exists>d\<in>set (iv_items (ib_view s)). same_item d e" if "e \<in> set (iv_items (ib_view t))" for e
    using that by (metis list_all2_conv_all_nth in_set_conv_nth)
  ultimately have "paged_step (inbox_brings h l) same_item mn_id (inbox_pages s) (inbox_pages t)"
    using kept by (intro paged_step.change) (fastforce simp: inbox_pages_def items_kept_def)+
  then show ?thesis by blast
qed

lemma inbox_loaded_same [simp]:
  "ib_gate (inbox_loaded t w k a s) = ib_gate s" "ib_flights (inbox_loaded t w k a s) = ib_flights s"
  "ib_drawn (inbox_loaded t w k a s) = ib_drawn s" "ib_active (inbox_loaded t w k a s) = ib_active s"
  "ib_locks (inbox_loaded t w k a s) = ib_locks s" "ib_readLock (inbox_loaded t w k a s) = ib_readLock s"
  "iv_itemsOwner (ib_view (inbox_loaded t w k (Inl e) s)) = iv_itemsOwner (ib_view s)"
  "iv_items (ib_view (inbox_loaded t w k (Inl e) s)) = iv_items (ib_view s)"
  by (simp_all add: inbox_loaded_def Let_def split: sum.split)

lemma inbox_reset_same [simp]:
  "ib_gate (inbox_reset u s) = ib_gate s" "ib_flights (inbox_reset u s) = ib_flights s" "ib_drawn (inbox_reset u s) = ib_drawn s"
  "ib_active (inbox_reset u s) = ib_active s" "iv_itemsOwner (ib_view (inbox_reset u s)) = Some u"
  "iv_items (ib_view (inbox_reset u s)) = []"
  by (simp_all add: inbox_reset_def Let_def)

lemma loadInbox_steps: "inbox_steps h l s (loadInbox b k s)"
proof -
  have "paged_step (inbox_brings h l) same_item mn_id (inbox_pages s) (inbox_pages (loadInbox b k s))"
    by (rule paged_step.load [where u = "ib_active s"])
      (auto simp: inbox_pages_def loadInbox_def request_begin_def inbox_await_def Let_def inbox_belongs_owner member_of_iff
        split: option.splits if_splits)
  then show ?thesis by blast
qed

lemma checkPushPermission_kept: "items_kept s (checkPushPermission s)"
  by (rule items_kept_same) (auto simp: checkPushPermission_def inbox_await_def Let_def split_beta split: if_splits)

lemma inbox_effect_steps: "inbox_steps h l s (inbox_effect s)"
proof -
  define s1 where "s1 = (if ib_effect s = None then s
    else s\<lparr>ib_gate := request_invalidate (ib_gate s), ib_checkGate := request_invalidate (ib_checkGate s)\<rparr>)"
  have "inbox_steps h l s s1"
  proof (cases "ib_effect s = None")
    case False
    then have "s1 = s\<lparr>ib_gate := request_invalidate (ib_gate s), ib_checkGate := request_invalidate (ib_checkGate s)\<rparr>"
      unfolding s1_def by (rule if_not_P)
    then have "paged_step (inbox_brings h l) same_item mn_id (inbox_pages s) (inbox_pages s1)"
      by (intro paged_step.invalidate) (simp_all add: inbox_pages_def request_invalidate_def)
    then show ?thesis by blast
  qed (simp add: s1_def)
  moreover have "inbox_pages (s1\<lparr>ib_effect := Some (ib_active s)\<rparr>) = inbox_pages s1"
    by (simp add: inbox_pages_def)
  then have "inbox_steps h l s1 (loadInbox False 1 (s1\<lparr>ib_effect := Some (ib_active s)\<rparr>))"
    using loadInbox_steps [of h l "s1\<lparr>ib_effect := Some (ib_active s)\<rparr>" False 1] by simp
  moreover have "inbox_effect s = checkPushPermission (loadInbox False 1 (s1\<lparr>ib_effect := Some (ib_active s)\<rparr>))"
    by (simp only: inbox_effect_def Let_def s1_def [symmetric])
  ultimately show ?thesis
    using inbox_change [OF checkPushPermission_kept] by (metis rtranclp_trans)
qed

lemma permission_checked_kept: "items_kept s (permission_checked t a s)"
  by (rule items_kept_same) (auto simp: permission_checked_def split: option.splits if_splits)

lemma permission_started_kept: "(\<And>k c m. inbox_page (f k c m) = None) \<Longrightarrow> items_kept s (permission_started f s)"
  by (rule items_kept_same)
    (auto simp: permission_started_def inbox_await_def Let_def split_beta split: option.splits if_splits)

lemma permission_finished_kept: "items_kept s t \<Longrightarrow> items_kept s (permission_finished k c m t)"
  by (simp add: items_kept_def permission_finished_def permission_release_def Let_def)

lemma push_enabled_kept: "items_kept s (push_enabled k c m a s)"
  unfolding push_enabled_def
  by (rule permission_finished_kept, rule items_kept_same) (auto simp: Let_def split: sum.splits if_splits)

lemma settings_opened_kept: "items_kept s (settings_opened k c m a s)"
  unfolding settings_opened_def
  by (rule permission_finished_kept, rule items_kept_same) (auto split: if_splits)

lemma same_read [simp]: "same_item x (x\<lparr>mn_readAt := r\<rparr>)"
  by (simp add: same_item_def)

lemma same_items_map: "(\<And>x. same_item x (f x)) \<Longrightarrow> list_all2 same_item xs (map f xs)"
  by (simp add: list_all2_conv_all_nth)

lemma openItem_kept: "items_kept s (openItem h now item s)"
  by (auto simp: openItem_def items_kept_def inbox_await_def Let_def split_beta list.rel_refl
    intro!: same_items_map split: option.splits)

lemma read_items_same: "list_all2 same_item xs (read_items item t e xs)"
  by (auto simp: read_items_def list.rel_refl intro!: same_items_map split: option.splits)

lemma item_opened_kept: "items_kept s (item_opened k item t c m r s)"
  by (auto simp: item_opened_def items_kept_def Let_def list.rel_refl read_items_same split: option.splits)

text \<open>The answer to a page.\<close>

lemma inbox_page_entries:
  assumes "notification_listPage h api c m (jint k) (jint NOTIFICATION_PAGE_SIZE) = Inr (items, n)"
  shows "distinct (map mn_id items)"
  using inbox_page_is_own [OF assms] by (simp add: page_ok_def)

lemma inbox_arrived_steps:
  assumes "f \<in> set (ib_flights s)" and "inbox_arrived h f answer (s\<lparr>ib_flights := remove1 f (ib_flights s)\<rparr>) = Some t"
  shows "inbox_steps h (InboxAnswered f answer) s t"
proof -
  define r where "r = s\<lparr>ib_flights := remove1 f (ib_flights s)\<rparr>"
  have r: "items_kept s r"
    by (rule items_kept_same) (auto simp: r_def dest!: subsetD [OF set_remove1_subset])
  have arr: "inbox_arrived h f answer r = Some t" using assms(2) by (simp add: r_def)
  have "inbox_steps h (InboxAnswered f answer) s t" if "items_kept r t"
    using inbox_change [OF r] inbox_change [OF that] by (rule rtranclp_trans)
  moreover have "items_kept r t \<or> inbox_steps h (InboxAnswered f answer) s t"
    using arr
  proof (cases rule: inbox_arrived.elims)
    case (1 ticket c m k api)
    show ?thesis
    proof (cases "notification_listPage h api c m (jint k) (jint NOTIFICATION_PAGE_SIZE)")
      case (Inl e)
      then have "items_kept r t"
        using 1 by (intro items_kept_same) auto
      then show ?thesis ..
    next
      case (Inr a)
      then obtain items n where page: "notification_listPage h api c m (jint k) (jint NOTIFICATION_PAGE_SIZE) = Inr (items, n)"
        by (cases a) auto
      show ?thesis
      proof (cases "isLatest (jint ticket) (ib_gate r)")
        case False
        then have "t = r" using 1 by (simp add: inbox_loaded_def)
        then show ?thesis using r items_kept_same [of r r] by blast
      next
        case True
        then have latest: "ticket = ib_gate s" "ib_gate s \<le> max_safe_integer"
          by (simp_all add: isLatest_jint r_def)
        have "\<exists>g\<in>set (ib_flights s). inbox_page g = Some (ticket, owner_of c m)"
          using 1 assms(1) by (intro bexI [of _ f]) simp_all
        moreover have "pg_pages (inbox_pages t) \<subseteq> pg_pages (inbox_pages s)"
          using 1 by (auto simp: inbox_pages_def r_def dest!: subsetD [OF set_remove1_subset])
        moreover have "ib_gate r = ib_gate s" "iv_items (ib_view r) = iv_items (ib_view s)" by (simp_all add: r_def)
        ultimately have "paged_step (inbox_brings h (InboxAnswered f answer)) same_item mn_id (inbox_pages s) (inbox_pages t)"
          using 1 page inbox_page_entries [OF page] True latest
          by (intro paged_step.arrive [where u = "owner_of c m" and es = items])
            (simp_all add: inbox_pages_def inbox_loaded_def inbox_brings_def Let_def)
        then show ?thesis by blast
      qed
    qed
  qed (auto intro: permission_checked_kept push_enabled_kept settings_opened_kept item_opened_kept)
  ultimately show ?thesis by blast
qed

lemma inbox_next_steps:
  assumes "inbox_next h l s = Some t"
  shows "inbox_steps h l s t"
  using assms
proof (cases l)
  case (InboxAnswered f answer)
  then show ?thesis using assms inbox_arrived_steps by (simp split: if_splits)
next
  case (InboxRendered user offline)
  then have "items_kept s t"
    using assms by (intro items_kept_same) (auto split: if_splits)
  then show ?thesis by (rule inbox_change)
next
  case PermissionPressed
  then have "items_kept s t"
    using assms by (auto simp: enablePush_def openNotificationSettings_def split: if_splits
      intro!: permission_started_kept checkPushPermission_kept)
  then show ?thesis by (rule inbox_change)
next
  case InboxUnmounted
  then have "t = s\<lparr>ib_mounted := False, ib_gate := request_invalidate (ib_gate s),
      ib_checkGate := request_invalidate (ib_checkGate s)\<rparr>"
    using assms by (simp split: if_splits)
  then have "paged_step (inbox_brings h l) same_item mn_id (inbox_pages s) (inbox_pages t)"
    by (intro paged_step.invalidate) (simp_all add: inbox_pages_def request_invalidate_def)
  then show ?thesis by blast
qed (auto intro: loadInbox_steps inbox_effect_steps inbox_change checkPushPermission_kept openItem_kept
  split: if_splits option.splits)

lemma inbox_arrived_drawn: "inbox_arrived h f a s = Some t \<Longrightarrow> ib_drawn t = ib_drawn s"
  by (cases "(h, f, a, s)" rule: inbox_arrived.cases)
    (auto simp: permission_checked_def push_enabled_def settings_opened_def item_opened_def permission_finished_def
      permission_release_def Let_def split: sum.splits option.splits if_splits)

lemma loadInbox_drawn [simp]: "ib_drawn (loadInbox b k s) = ib_drawn s"
  by (simp add: loadInbox_def request_begin_def inbox_await_def Let_def split: option.splits)

lemma checkPushPermission_drawn [simp]: "ib_drawn (checkPushPermission s) = ib_drawn s"
  by (simp add: checkPushPermission_def inbox_await_def Let_def split_beta)

lemma openItem_drawn [simp]: "ib_drawn (openItem h now item s) = ib_drawn s"
  by (simp add: openItem_def inbox_await_def Let_def split_beta split: option.splits)

lemma permission_started_drawn [simp]: "ib_drawn (permission_started f s) = ib_drawn s"
  by (simp add: permission_started_def inbox_await_def Let_def split_beta split: option.splits)

lemma inbox_next_drawn:
  assumes "inbox_next h l s = Some t"
  shows "inbox_drawn t = inbox_drawn s \<or> inbox_drawn t = (pg_owner (inbox_pages s), pg_entries (inbox_pages s))"
  using assms
  by (cases l) (auto simp: inbox_drawn_def inbox_pages_def inbox_effect_def enablePush_def openNotificationSettings_def Let_def
    dest!: inbox_arrived_drawn split: if_splits option.splits)

interpretation inbox: paged_screen "inbox_next h" inbox_pages inbox_drawn "inbox_brings h" same_item mn_id for h
  by unfold_locales (auto intro: inbox_next_steps same_item_trans dest: inbox_next_drawn)

subsection \<open>An item is read once at a time\<close>

fun reading_of :: "nat \<Rightarrow> inbox_flight \<Rightarrow> jsstring list" where
  "reading_of k (ReadFlight j item t c m) = (if j = k then [mn_id item] else [])"
| "reading_of k _ = []"

text \<open>The items whose reading is awaited under a lock.\<close>

definition readings :: "nat \<Rightarrow> inbox_screen \<Rightarrow> jsstring list" where
  "readings k s = concat (map (reading_of k) (ib_flights s))"

definition inbox_keys :: "inbox_screen \<Rightarrow> keyed" where
  "inbox_keys s = \<lparr>ky_current = ib_locks s, ky_lock = ib_readLock s, ky_awaited = (\<lambda>k. mset (readings k s))\<rparr>"

lemma readings_same: "ib_flights t = ib_flights s \<Longrightarrow> readings k t = readings k s"
  by (simp add: readings_def)

lemma inbox_keys_same:
  "ib_locks t = ib_locks s \<Longrightarrow> ib_readLock t = ib_readLock s \<Longrightarrow> (\<And>k. mset (readings k t) = mset (readings k s))
     \<Longrightarrow> inbox_keys t = inbox_keys s"
  by (simp add: inbox_keys_def)

lemma readings_await [simp]: "readings k (inbox_await f s) = readings k s @ reading_of k f"
  by (simp add: readings_def inbox_await_def)

lemma inbox_await_same [simp]:
  "ib_locks (inbox_await f s) = ib_locks s" "ib_readLock (inbox_await f s) = ib_readLock s"
  by (simp_all add: inbox_await_def)

lemma readings_view [simp]:
  "readings k (s\<lparr>ib_view := v\<rparr>) = readings k s" "readings k (s\<lparr>ib_gate := g\<rparr>) = readings k s"
  "readings k (s\<lparr>ib_checkGate := g\<rparr>) = readings k s" "readings k (s\<lparr>ib_readLock := r\<rparr>) = readings k s"
  "readings k (s\<lparr>ib_permissionLock := q\<rparr>) = readings k s" "readings k (s\<lparr>ib_opened := x\<rparr>) = readings k s"
  "readings k (s\<lparr>ib_effect := e\<rparr>) = readings k s" "readings k (inbox_loaded tk w n a s) = readings k s"
  "readings k (inbox_reset u s) = readings k s"
  by (simp_all add: readings_def)

lemma checkPushPermission_keys [simp]: "inbox_keys (checkPushPermission s) = inbox_keys s"
  by (simp add: inbox_keys_def checkPushPermission_def Let_def split_beta)

lemma permission_started_keys: "(\<And>j c m k. reading_of k (f j c m) = []) \<Longrightarrow> inbox_keys (permission_started f s) = inbox_keys s"
  by (simp add: inbox_keys_def permission_started_def Let_def split_beta split: option.splits)

lemma inbox_reset_keys: "keyed_step (inbox_keys s) (inbox_keys (inbox_reset u s))"
  using keyed_step.reset [of "inbox_keys s"] by (simp add: inbox_keys_def inbox_reset_def Let_def readings_def)

lemma loadInbox_keys: "keyed_step\<^sup>*\<^sup>* (inbox_keys s) (inbox_keys (loadInbox b k s))"
proof (cases "inbox_belongs (iv_itemsOwner (ib_view s)) (ib_active s)")
  case True
  then have "inbox_keys (loadInbox b k s) = inbox_keys s"
    by (simp add: inbox_keys_def loadInbox_def Let_def split_beta split: option.split)
  then show ?thesis by simp
next
  case False
  then have "inbox_keys (loadInbox b k s) = inbox_keys (inbox_reset (ib_active s) s)"
    by (simp add: inbox_keys_def loadInbox_def inbox_reset_def Let_def split_beta readings_def inbox_await_def split: option.split)
  then show ?thesis using inbox_reset_keys [of s "ib_active s"] by auto
qed

lemma inbox_effect_keys: "keyed_step\<^sup>*\<^sup>* (inbox_keys s) (inbox_keys (inbox_effect s))"
proof -
  have "inbox_keys s = inbox_keys ((if ib_effect s = None then s else s\<lparr>ib_gate := request_invalidate (ib_gate s),
      ib_checkGate := request_invalidate (ib_checkGate s)\<rparr>)\<lparr>ib_effect := Some (ib_active s)\<rparr>)"
    by (simp add: inbox_keys_def)
  then show ?thesis
    unfolding inbox_effect_def Let_def by (simp only: checkPushPermission_keys loadInbox_keys)
qed

lemma openItem_keys: "keyed_step\<^sup>*\<^sup>* (inbox_keys s) (inbox_keys (openItem h now item s))"
proof (cases "fst (keyed_acquire (mn_id item) (ib_readLock s (ib_locks s)))")
  case True
  note moves = keyed_step.refuse [of "mn_id item" "inbox_keys s" "ib_locks s"]
    keyed_step.acquire [of "mn_id item" "inbox_keys s"]
  have "inbox_keys (openItem h now item s) = (inbox_keys s)\<lparr>ky_lock := (ib_readLock s)(ib_locks s :=
      keyed_release (mn_id item) (snd (keyed_acquire (mn_id item) (ib_readLock s (ib_locks s)))))\<rparr>
    \<or> inbox_keys (openItem h now item s) = (inbox_keys s)\<lparr>ky_lock := (ib_readLock s)(ib_locks s :=
      snd (keyed_acquire (mn_id item) (ib_readLock s (ib_locks s)))),
      ky_awaited := (\<lambda>k. mset (readings k s))(ib_locks s := add_mset (mn_id item) (mset (readings (ib_locks s) s)))\<rparr>"
    using True by (auto simp: inbox_keys_def openItem_def Let_def split_beta fun_eq_iff split: option.split)
  then have "keyed_step (inbox_keys s) (inbox_keys (openItem h now item s))"
    using moves True by (auto simp: inbox_keys_def)
  then show ?thesis by blast
qed (simp add: openItem_def split_beta)

text \<open>A reading that was answered is awaited no longer, and its lock lets go of it.\<close>

lemma inbox_taken:
  assumes "f \<in> set (ib_flights s)" and "ib_flights t = remove1 f (ib_flights s)"
  shows "mset (readings k s) = mset (reading_of k f) + mset (readings k t)"
  using mset_concat_remove1 [OF assms(1)] assms(2) by (simp add: readings_def)

lemma item_opened_same [simp]:
  "ib_flights (item_opened k item t c m r s) = ib_flights s" "ib_locks (item_opened k item t c m r s) = ib_locks s"
  "ib_readLock (item_opened k item t c m r s) = (ib_readLock s)(k := keyed_release (mn_id item) (ib_readLock s k))"
  by (simp_all add: item_opened_def Let_def split: option.split)

lemma item_opened_keys:
  assumes f: "ReadFlight j item r c m \<in> set (ib_flights s)"
    and t: "ib_flights t = remove1 (ReadFlight j item r c m) (ib_flights s)" "ib_locks t = ib_locks s"
      "ib_readLock t = (ib_readLock s)(j := keyed_release (mn_id item) (ib_readLock s j))"
  shows "keyed_step (inbox_keys s) (inbox_keys t)"
proof -
  have taken: "mset (readings k s) = mset (reading_of k (ReadFlight j item r c m)) + mset (readings k t)" for k
    by (rule inbox_taken [OF f t(1)])
  have "mset (readings k s) = (if k = j then {#mn_id item#} else {#}) + mset (readings k t)" for k
    using taken [of k] by simp
  then have "inbox_keys t = (inbox_keys s)\<lparr>ky_lock := (ib_readLock s)(j := keyed_release (mn_id item) (ib_readLock s j)),
      ky_awaited := (\<lambda>k. mset (readings k s))(j := mset (readings j s) - {#mn_id item#})\<rparr>"
    by (simp add: inbox_keys_def t(2,3) fun_eq_iff)
  moreover have "mn_id item \<in># ky_awaited (inbox_keys s) j"
    using taken [of j] by (simp add: inbox_keys_def)
  ultimately show ?thesis
    using keyed_step.release [of "mn_id item" "inbox_keys s" j] by (simp add: inbox_keys_def)
qed

lemma inbox_arrived_keys:
  assumes f: "f \<in> set (ib_flights s)" and "inbox_arrived h f answer (s\<lparr>ib_flights := remove1 f (ib_flights s)\<rparr>) = Some t"
  shows "keyed_step\<^sup>*\<^sup>* (inbox_keys s) (inbox_keys t)"
proof (cases "\<exists>j item r c m. f = ReadFlight j item r c m")
  case True
  then obtain j item r c m where "f = ReadFlight j item r c m" by blast
  then have "keyed_step (inbox_keys s) (inbox_keys t)"
    using assms by (intro item_opened_keys) (cases answer; auto)+
  then show ?thesis by blast
next
  case False
  then have "ib_flights t = remove1 f (ib_flights s) \<and> ib_locks t = ib_locks s \<and> ib_readLock t = ib_readLock s"
    using assms(2) by (cases f; cases answer) (auto simp: permission_checked_def push_enabled_def settings_opened_def
      permission_finished_def permission_release_def Let_def split: sum.splits option.splits)
  moreover have "reading_of k f = []" for k using False by (cases f) auto
  ultimately have "inbox_keys t = inbox_keys s"
    using inbox_taken [OF f, of t] by (simp add: inbox_keys_def)
  then show ?thesis by simp
qed

lemma inbox_next_keys:
  assumes "inbox_next h l s = Some t"
  shows "keyed_step\<^sup>*\<^sup>* (inbox_keys s) (inbox_keys t)"
proof (cases l)
  case (InboxAnswered f answer)
  then show ?thesis using assms inbox_arrived_keys by (simp split: if_splits)
next
  case (InboxRendered user offline)
  then have "inbox_keys t = inbox_keys s" using assms by (auto simp: inbox_keys_def readings_def split: if_splits)
  then show ?thesis by simp
next
  case InboxUnmounted
  then have "inbox_keys t = inbox_keys s" using assms by (auto simp: inbox_keys_def readings_def split: if_splits)
  then show ?thesis by simp
qed (use assms in \<open>auto simp: enablePush_def openNotificationSettings_def permission_started_keys
  intro: loadInbox_keys inbox_effect_keys openItem_keys split: if_splits option.splits\<close>)

interpretation inbox_reads: keyed_screen "inbox_next h" inbox_keys for h
  by unfold_locales (rule inbox_next_keys)

section \<open>Properties\<close>

text \<open>C16: an item of the inbox was delivered for the member on the screen. In every run of the screen, whatever the order
  of taps, renders and answers and whichever members sign in meanwhile: for an item that is visible the run has an answer to
  a page asked for the church and the member now on the screen, the body of that answer has a record that names this church
  and this member, and the item is that record, changed since in its time of reading only; and it is shown once. An item of
  a page asked for another member, or of a record naming another one, is never visible.\<close>

theorem inbox_is_own:
  assumes "inbox_run h (inbox_init push user offline) ls s" and "item \<in> set (visibleItems s)"
  shows "\<exists>c m t k api data wire w d. ib_active s = owner_of c m
     \<and> InboxAnswered (InboxFlight t c m k) (FromGateway api) \<in> set ls
     \<and> api_get api (js ''/notifications'') [(''page'', jint k), (''limit'', jint NOTIFICATION_PAGE_SIZE)] = Inr data
     \<and> get (get data ''data'') ''data'' = JArr wire \<and> w \<in> set wire
     \<and> get w ''churchId'' = JStr c \<and> get w ''recipientId'' = JStr m
     \<and> normalizeNotification h (Some (c, m)) w = Inr d \<and> same_item d item
     \<and> distinct (map mn_id (visibleItems s))"
proof -
  have quiet: "pg_entries (inbox_pages (inbox_init push user offline)) = []"
    "pg_pages (inbox_pages (inbox_init push user offline)) = {}" "snd (inbox_drawn (inbox_init push user offline)) = []"
    by (simp_all add: inbox_pages_def inbox_init_def inbox_drawn_def Let_def)
  note own = inbox.drawn_is_own [OF assms(1) quiet]
  obtain u where u: "iv_itemsOwner (ib_drawn s) = Some u" "received_by (inbox_brings h) same_item ls u item"
    using own(2) assms(2) by (fastforce simp: visibleItems_def inbox_drawn_def split: if_splits)
  moreover have "iv_itemsOwner (ib_drawn s) = Some (ib_active s)"
    using assms(2) by (auto simp: visibleItems_def ownsItems_def inbox_belongs_owner split: if_splits)
  ultimately obtain l d where "l \<in> set ls" "inbox_brings h l (ib_active s) d" and d: "same_item d item"
    by (auto simp: received_by_def)
  then obtain t c m k api items n where l: "InboxAnswered (InboxFlight t c m k) (FromGateway api) \<in> set ls"
      "ib_active s = owner_of c m"
    and page: "notification_listPage h api c m (jint k) (jint NOTIFICATION_PAGE_SIZE) = Inr (items, n)" "d \<in> set items"
    by (auto simp: inbox_brings_def)
  have "distinct (map mn_id (visibleItems s))"
    using own(1) by (simp add: visibleItems_def inbox_drawn_def)
  with l d notification_page_record [OF page] show ?thesis by blast
qed

text \<open>An item is read once at a time. Whatever the order of taps and answers, no lock of the screen awaits the reading of
  an item twice: a second tap before the answer, the link being followed or not, sends nothing.\<close>

theorem one_reading_per_item:
  assumes "inbox_run h (inbox_init push user offline) ls s"
  shows "distinct (readings k s)"
proof -
  have "keyed_inv (inbox_keys (inbox_init push user offline))"
    by (simp add: keyed_inv_def inbox_keys_def inbox_init_def readings_def Let_def)
  from inbox_reads.awaited_once [OF assms this] show ?thesis
    by (simp add: inbox_keys_def distinct_count_atmost_1 count_mset_0_iff le_Suc_eq)
qed

section \<open>Witnesses\<close>

definition inbox_member :: screen_owner where
  "inbox_member = owner_of (js ''c1'') (js ''m1'')"

definition inbox_opened :: "inbox_label list" where
  "inbox_opened = [InboxEffect, InboxRendered inbox_member False,
     InboxAnswered (InboxFlight 1 (js ''c1'') (js ''m1'') 1) (FromGateway sample_inbox), InboxRendered inbox_member False]"

lemma inbox_opened_shows:
  "map_option (\<lambda>s. (visibleItems s, inbox_shown s, hasOlderItems s, ib_active s))
     (run_steps (inbox_next dated_host) inbox_opened (inbox_init True inbox_member False))
     = Some ([sample_item], True, True, inbox_member)"
  by code_simp

theorem inbox_is_own_witness:
  "\<exists>s. inbox_run dated_host (inbox_init True inbox_member False) inbox_opened s \<and> sample_item \<in> set (visibleItems s)
     \<and> (\<exists>t k api. InboxAnswered (InboxFlight t (js ''c1'') (js ''m1'') k) (FromGateway api) \<in> set inbox_opened)
     \<and> distinct (map mn_id (visibleItems s))"
proof -
  obtain s where run: "inbox_run dated_host (inbox_init True inbox_member False) inbox_opened s"
    and shown: "sample_item \<in> set (visibleItems s)"
    and member: "ib_active s = inbox_member"
    using inbox_opened_shows by (auto simp: step_run_iff)
  from inbox_is_own [OF run shown] obtain t c m k api where "ib_active s = owner_of c m"
      "InboxAnswered (InboxFlight t c m k) (FromGateway api) \<in> set inbox_opened" "distinct (map mn_id (visibleItems s))"
    by blast
  moreover from this member have "c = js ''c1'' \<and> m = js ''m1''" by (simp add: inbox_member_def owner_of_def)
  ultimately show ?thesis using run shown by blast
qed

text \<open>Two taps before the next render are one reading, and the second of two links is not followed.\<close>

definition item_pressed_twice :: "inbox_label list" where
  "item_pressed_twice = inbox_opened @ [ItemPressed sample_item 0, ItemPressed sample_item 0]"

lemma item_pressed_twice_run:
  "\<exists>s. inbox_run dated_host (inbox_init True inbox_member False) item_pressed_twice s \<and> readings 0 s = [js ''n1'']"
proof -
  have "map_option (readings 0) (run_steps (inbox_next dated_host) item_pressed_twice (inbox_init True inbox_member False))
      = Some [js ''n1'']"
    by code_simp
  then show ?thesis by (auto simp: step_run_iff)
qed

theorem one_reading_per_item_witness:
  "\<exists>s. inbox_run dated_host (inbox_init True inbox_member False) item_pressed_twice s \<and> readings 0 s = [js ''n1'']
     \<and> distinct (readings 0 s)"
  using item_pressed_twice_run one_reading_per_item by blast

text \<open>A reading that is answered while its item is not listed leaves the item busy: a refresh puts the first page in the
  place of both, the answer arrives, and the item can never be pressed again after the later page is read once more.\<close>

definition inbox_pages_of_two :: api where
  "inbox_pages_of_two r = (if (''page'', jint 2) \<in> set (rq_params r) then sample_inbox r
     else Inr (envelope (JObj [(''data'', JArr [case sample_notification of JObj fs \<Rightarrow> JObj ((''id'', JStr (js ''n0'')) # tl fs)]),
       (''total'', jint 3)])))"

lemma reading_answered_unlisted_is_stuck:
  "map_option (\<lambda>s. (map mn_id (visibleItems s), item_disabled dated_host s sample_item, readings 0 s))
     (run_steps (inbox_next dated_host) [InboxEffect, InboxRendered inbox_member False,
        InboxAnswered (InboxFlight 1 (js ''c1'') (js ''m1'') 1) (FromGateway inbox_pages_of_two), InboxRendered inbox_member False,
        OlderItemsPressed,
        InboxAnswered (InboxFlight 2 (js ''c1'') (js ''m1'') 2) (FromGateway inbox_pages_of_two), InboxRendered inbox_member False,
        ItemPressed sample_item 0, InboxPulled,
        InboxAnswered (InboxFlight 3 (js ''c1'') (js ''m1'') 1) (FromGateway inbox_pages_of_two), InboxRendered inbox_member False,
        InboxAnswered (ReadFlight 0 sample_item (Some (JStr (toISOString 0))) (js ''c1'') (js ''m1''))
          (FromGatewayAndSystem (\<lambda>_. Inr JNull) True), OlderItemsPressed,
        InboxAnswered (InboxFlight 4 (js ''c1'') (js ''m1'') 2) (FromGateway inbox_pages_of_two), InboxRendered inbox_member False]
      (inbox_init True inbox_member False)) = Some ([js ''n0'', js ''n1''], True, [])"
  by code_simp

text \<open>The answer to a later page clears the notice that the reading of an item on an earlier page has an unknown outcome,
  though the item stays as the screen guessed it.\<close>

lemma older_page_clears_unknown_reading:
  "map_option (\<lambda>s. (map mn_readAt (visibleItems s), iv_actionNeedsRefresh (ib_drawn s), iv_actionError (ib_drawn s)))
     (run_steps (inbox_next dated_host) (inbox_opened @ [OlderItemsPressed, ItemPressed sample_item 0,
        InboxRendered inbox_member False,
        InboxAnswered (ReadFlight 0 sample_item (Some (JStr (toISOString 0))) (js ''c1'') (js ''m1''))
          (FromGatewayAndSystem (\<lambda>_. Inl (AxiosError None)) True),
        InboxAnswered (InboxFlight 2 (js ''c1'') (js ''m1'') 2)
          (FromGateway (\<lambda>_. Inr (envelope (JObj [(''data'', JArr []), (''total'', jint 51)])))),
        InboxRendered inbox_member False]) (inbox_init True inbox_member False))
     = Some ([Some (JStr (toISOString 0))], False, [])"
  by code_simp

end
