(* ===== verification/CommentThread.thy ===== *)
theory CommentThread
  imports Social AuthForms PagedScreen KeyedScreen
begin

text \<open>
  The comments of a post (\<open>screens/social/PostCommentsScreen.tsx\<close>): paging, writing a comment and deleting an own one.
  \<open>tv\<close> fields are the state hooks; \<open>ts_view\<close> holds what the setters produced and \<open>ts_drawn\<close> what the last render drew.
  \<open>commentsOwnerRef\<close> is set with its hook and again at each render: it is the owner in the view.
\<close>

section \<open>The context\<close>

text \<open>A post with the church and the member who reads it.\<close>

record thread =
  th_postId :: jsstring
  th_who :: screen_owner

definition thread_of :: "jsstring \<Rightarrow> jsstring \<Rightarrow> jsstring \<Rightarrow> thread" where
  "thread_of postId churchId memberId = \<lparr>th_postId = postId, th_who = owner_of churchId memberId\<rparr>"

definition canSubmitCommentToPost :: "jsstring option \<Rightarrow> jsstring \<Rightarrow> bool" where
  "canSubmitCommentToPost confirmedPostId requestedPostId \<longleftrightarrow> confirmedPostId = Some requestedPostId"

definition ownsSocialMutationContext :: "thread \<Rightarrow> jsstring \<Rightarrow> jsstring \<Rightarrow> jsstring \<Rightarrow> bool" where
  "ownsSocialMutationContext active startedPostId startedChurchId startedMemberId \<longleftrightarrow>
     th_postId active = startedPostId \<and> so_churchId (th_who active) = Some startedChurchId
       \<and> so_memberId (th_who active) = Some startedMemberId"

definition socialMutationCompletionBelongsToContext ::
    "bool \<Rightarrow> thread \<Rightarrow> jsstring \<Rightarrow> jsstring \<Rightarrow> jsstring \<Rightarrow> bool" where
  "socialMutationCompletionBelongsToContext mounted active startedPostId startedChurchId startedMemberId \<longleftrightarrow>
     mounted \<and> ownsSocialMutationContext active startedPostId startedChurchId startedMemberId"

section \<open>The state\<close>

record thread_view =
  tv_comments :: "Comment list"
  tv_commentsOwner :: thread
  tv_content :: jsstring
  tv_loading :: bool
  tv_refreshing :: bool
  tv_loadingMore :: bool
  tv_loadedPage :: int
  tv_totalComments :: int
  tv_submitting :: bool
  tv_loadError :: jsstring
  tv_submitError :: jsstring
  tv_submitOutcomeUnknown :: bool
  tv_deleteError :: jsstring
  tv_deletingIds :: "jsstring list"
  tv_deleteUnknownIds :: "jsstring list"
  tv_confirmedPostId :: "jsstring option"

text \<open>A request awaited: the first page of a context, a later page, a comment, a deletion.\<close>

datatype thread_flight =
    ThreadFlight int thread
  | LaterFlight int int jsstring jsstring jsstring
  | SubmitFlight nat jsstring jsstring jsstring jsstring
  | DropFlight nat Comment jsstring jsstring jsstring

text \<open>The question before a deletion: the lock that holds the comment, the comment, and the context it was asked in.\<close>

type_synonym drop_question = "nat \<times> Comment \<times> thread"

record thread_screen =
  ts_active :: thread
  ts_offline :: bool
  ts_mounted :: bool
  ts_focused :: bool
  ts_previous :: thread
  ts_focus :: "thread option"
  ts_view :: thread_view
  ts_drawn :: thread_view
  ts_hasLoaded :: bool
  ts_outcomeUnknownRef :: bool
  ts_gate :: int
  ts_locks :: nat
  ts_submissionLock :: "nat \<Rightarrow> bool"
  ts_deleteLock :: "nat \<Rightarrow> jsstring list"
  ts_flights :: "thread_flight list"
  ts_questions :: "drop_question list"
  ts_alerts :: "(jsstring \<times> jsstring) list"

abbreviation set_thread :: "(thread_view \<Rightarrow> thread_view) \<Rightarrow> thread_screen \<Rightarrow> thread_screen" where
  "set_thread f s \<equiv> s\<lparr>ts_view := f (ts_view s)\<rparr>"

definition thread_await :: "thread_flight \<Rightarrow> thread_screen \<Rightarrow> thread_screen" where
  "thread_await f s = s\<lparr>ts_flights := ts_flights s @ [f]\<rparr>"

definition COMMENT_PAGE_SIZE :: int where
  "COMMENT_PAGE_SIZE = 50"

definition comment_page :: "int \<Rightarrow> page_params" where
  "comment_page n = \<lparr>pp_page = jint n, pp_limit = jint COMMENT_PAGE_SIZE\<rparr>"

definition ownsActiveContext :: "jsstring \<Rightarrow> jsstring \<Rightarrow> jsstring \<Rightarrow> thread_screen \<Rightarrow> bool" where
  "ownsActiveContext postId churchId memberId s \<longleftrightarrow>
     socialMutationCompletionBelongsToContext (ts_mounted s) (ts_active s) postId churchId memberId"

section \<open>Loading\<close>

text \<open>The effect of a change of context.\<close>

definition context_reset :: "thread_screen \<Rightarrow> thread_screen" where
  "context_reset s =
     (let lock = ts_locks s + 1 in
      s\<lparr>ts_gate := request_invalidate (ts_gate s), ts_hasLoaded := False,
        ts_view := (ts_view s)\<lparr>tv_comments := [], tv_content := [], tv_confirmedPostId := None, tv_loadError := [],
          tv_submitError := [], tv_submitOutcomeUnknown := False, tv_deleteError := [], tv_deletingIds := [],
          tv_deleteUnknownIds := [], tv_loadingMore := False, tv_loadedPage := 0, tv_totalComments := 0,
          tv_submitting := False\<rparr>,
        ts_outcomeUnknownRef := False, ts_locks := lock,
        ts_submissionLock := (ts_submissionLock s)(lock := False), ts_deleteLock := (ts_deleteLock s)(lock := []),
        ts_previous := ts_active s\<rparr>)"

definition loadThread :: "bool \<Rightarrow> thread_screen \<Rightarrow> thread_screen" where
  "loadThread refresh s =
     (let (request, gate) = request_begin (ts_gate s);
          startedContext = ts_active s;
          s1 = s\<lparr>ts_gate := gate\<rparr>;
          s2 = (case member_of (th_who startedContext) of
              None \<Rightarrow> set_thread (\<lambda>v. v\<lparr>tv_commentsOwner := startedContext\<rparr>) s1
            | Some (churchId, memberId) \<Rightarrow>
                if ownsSocialMutationContext (tv_commentsOwner (ts_view s1)) (th_postId startedContext) churchId memberId then s1
                else (set_thread (\<lambda>v. v\<lparr>tv_commentsOwner := startedContext, tv_comments := [], tv_confirmedPostId := None\<rparr>) s1)
                  \<lparr>ts_hasLoaded := False\<rparr>);
          s3 = (if refresh then set_thread (\<lambda>v. v\<lparr>tv_refreshing := True\<rparr>) s2
            else set_thread (\<lambda>v. v\<lparr>tv_refreshing := False, tv_loading := (tv_loading v \<or> \<not> ts_hasLoaded s2)\<rparr>) s2)
      in thread_await (ThreadFlight request startedContext)
        (set_thread (\<lambda>v. v\<lparr>tv_loadError := [], tv_loadingMore := False\<rparr>) s3))"

definition thread_loaded :: "int \<Rightarrow> jsstring \<Rightarrow> js_error + Comment list \<times> int \<Rightarrow> thread_screen \<Rightarrow> thread_screen" where
  "thread_loaded ticket postId answer s =
     (if \<not> isLatest (jint ticket) (ts_gate s) then s
      else
        let s1 = (case answer of
            Inr (comments, tot) \<Rightarrow>
              (set_thread (\<lambda>v. v\<lparr>tv_comments := comments, tv_confirmedPostId := Some postId,
                tv_content := (if ts_outcomeUnknownRef s then [] else tv_content v), tv_submitOutcomeUnknown := False,
                tv_deleteError := [], tv_deleteUnknownIds := [], tv_loadedPage := 1, tv_totalComments := tot\<rparr>) s)
              \<lparr>ts_outcomeUnknownRef := False\<rparr>
          | Inl cause \<Rightarrow> set_thread (\<lambda>v. v\<lparr>
              tv_confirmedPostId := (if httpStatus cause = Some 404 then None else tv_confirmedPostId v),
              tv_loadError := connectivityErrorMessage cause (js ''Comments could not be loaded.'')\<rparr>) s)
        in (set_thread (\<lambda>v. v\<lparr>tv_loading := False, tv_refreshing := False\<rparr>) s1)\<lparr>ts_hasLoaded := True\<rparr>)"

text \<open>The ticket is taken before the owner is compared.\<close>

definition loadLater :: "thread_screen \<Rightarrow> thread_screen" where
  "loadLater s =
     (let d = ts_drawn s in
      case nextCommunityPage (jint (tv_loadedPage d)) (jint (int (length (tv_comments d)))) (jint (tv_totalComments d))
             (ts_offline s \<or> tv_loadingMore d \<or> tv_refreshing d) of
        None \<Rightarrow> s
      | Some nextPage \<Rightarrow>
          let (request, gate) = request_begin (ts_gate s); s1 = s\<lparr>ts_gate := gate\<rparr>; postId = th_postId (ts_active s) in
          case member_of (th_who (ts_active s)) of
            None \<Rightarrow> s1
          | Some (churchId, memberId) \<Rightarrow>
              if \<not> ownsSocialMutationContext (tv_commentsOwner (ts_view s1)) postId churchId memberId then s1
              else thread_await (LaterFlight request nextPage postId churchId memberId)
                (set_thread (\<lambda>v. v\<lparr>tv_loadingMore := True, tv_loadError := []\<rparr>) s1))"

definition later_loaded ::
    "int \<Rightarrow> int \<Rightarrow> jsstring \<Rightarrow> jsstring \<Rightarrow> jsstring \<Rightarrow> js_error + Comment list \<times> int \<Rightarrow> thread_screen \<Rightarrow> thread_screen" where
  "later_loaded ticket nextPage postId churchId memberId answer s =
     (if \<not> isLatest (jint ticket) (ts_gate s) then s
      else set_thread (\<lambda>v. v\<lparr>tv_loadingMore := False\<rparr>)
        (if \<not> ownsActiveContext postId churchId memberId s then s
         else case answer of
             Inr (comments, tot) \<Rightarrow> set_thread (\<lambda>v. v\<lparr>tv_comments := appendUniquePageById co_id (tv_comments v) comments,
               tv_loadedPage := nextPage, tv_totalComments := tot\<rparr>) s
           | Inl cause \<Rightarrow> set_thread (\<lambda>v. v\<lparr>tv_loadError :=
               connectivityErrorMessage cause (js ''Older comments could not be loaded.'')\<rparr>) s))"

text \<open>The effects of a render or of a change of focus: the clean-up of the load before, the change of context, the load.\<close>

definition thread_effects :: "thread_screen \<Rightarrow> thread_screen" where
  "thread_effects s =
     (let s1 = (if ts_focus s \<noteq> None \<and> ts_focus s \<noteq> Some (ts_active s) then s\<lparr>ts_gate := request_invalidate (ts_gate s)\<rparr> else s);
          s2 = (if ts_previous s1 \<noteq> ts_active s1 then context_reset s1 else s1)
      in if ts_focused s2 \<and> ts_focus s2 \<noteq> Some (ts_active s2)
         then loadThread False (s2\<lparr>ts_focus := Some (ts_active s2)\<rparr>) else s2)"

definition thread_blurred :: "thread_screen \<Rightarrow> thread_screen" where
  "thread_blurred s =
     (if ts_focus s = None then s else s\<lparr>ts_gate := request_invalidate (ts_gate s)\<rparr>)\<lparr>ts_focus := None, ts_focused := False\<rparr>"

section \<open>Writing a comment\<close>

definition submitComment :: "thread_screen \<Rightarrow> thread_screen" where
  "submitComment s =
     (let d = ts_drawn s; message = trim (tv_content d); postId = th_postId (ts_active s) in
      case member_of (th_who (ts_active s)) of
        None \<Rightarrow> s
      | Some (churchId, memberId) \<Rightarrow>
          if message = [] \<or> \<not> canSubmitCommentToPost (tv_confirmedPostId d) postId then s
          else
            let (acquired, locked) = lock_acquire () (ts_submissionLock s (ts_locks s)) in
            if \<not> acquired then s
            else thread_await (SubmitFlight (ts_locks s) postId churchId memberId message)
              (set_thread (\<lambda>v. v\<lparr>tv_submitting := True, tv_submitError := []\<rparr>)
                (s\<lparr>ts_submissionLock := (ts_submissionLock s)(ts_locks s := locked)\<rparr>)))"

definition comment_sent ::
    "nat \<Rightarrow> jsstring \<Rightarrow> jsstring \<Rightarrow> jsstring \<Rightarrow> js_error + Comment \<Rightarrow> thread_screen \<Rightarrow> thread_screen" where
  "comment_sent lock postId churchId memberId answer s =
     (let owns = ownsActiveContext postId churchId memberId;
          s1 = (if \<not> owns s then s
            else case answer of
                Inr created \<Rightarrow> loadThread True (set_thread (\<lambda>v. v\<lparr>
                  tv_comments := insertUniqueById co_id (tv_comments v) created False, tv_content := []\<rparr>) s)
              | Inl error \<Rightarrow>
                  let copy = communityMutationFailure MComment error in
                  set_thread (\<lambda>v. v\<lparr>tv_submitOutcomeUnknown := fc_outcomeUnknown copy, tv_submitError := fc_message copy\<rparr>) s);
          s2 = s1\<lparr>ts_submissionLock := (ts_submissionLock s1)(lock := lock_release () (ts_submissionLock s1 lock))\<rparr>
      in if owns s2 then set_thread (\<lambda>v. v\<lparr>tv_submitting := False\<rparr>) s2 else s2)"

section \<open>Deleting a comment\<close>

definition drop_release :: "nat \<Rightarrow> jsstring \<Rightarrow> thread_screen \<Rightarrow> thread_screen" where
  "drop_release lock i s = s\<lparr>ts_deleteLock := (ts_deleteLock s)(lock := keyed_release i (ts_deleteLock s lock))\<rparr>"

definition thread_ids :: "thread_screen \<Rightarrow> jsstring list" where
  "thread_ids s = map co_id (tv_comments (ts_drawn s))"

definition confirmDeleteComment :: "Comment \<Rightarrow> thread_screen \<Rightarrow> thread_screen" where
  "confirmDeleteComment comment s =
     (let (acquired, held_keys) = keyed_acquire (co_id comment) (ts_deleteLock s (ts_locks s)) in
      if ts_offline s \<or> co_id comment \<in> set (tv_deleteUnknownIds (ts_drawn s))
        \<or> so_memberId (th_who (ts_active s)) \<noteq> Some (co_authorId comment) \<or> \<not> acquired
      then s
      else s\<lparr>ts_deleteLock := (ts_deleteLock s)(ts_locks s := held_keys),
        ts_questions := ts_questions s @ [(ts_locks s, comment, ts_active s)]\<rparr>)"

definition deleteOwnedComment :: "nat \<Rightarrow> Comment \<Rightarrow> thread \<Rightarrow> thread_screen \<Rightarrow> thread_screen" where
  "deleteOwnedComment lock comment started s =
     (case member_of (th_who started) of
        None \<Rightarrow> drop_release lock (co_id comment) s
      | Some (churchId, memberId) \<Rightarrow>
          if co_authorId comment \<noteq> memberId \<or> \<not> ownsActiveContext (th_postId started) churchId memberId s
            \<or> co_id comment \<notin> set (thread_ids s)
          then drop_release lock (co_id comment) s
          else thread_await (DropFlight lock comment (th_postId started) churchId memberId)
            (set_thread (\<lambda>v. v\<lparr>tv_deleteError := [], tv_deletingIds := ids_add (co_id comment) (tv_deletingIds v)\<rparr>) s))"

definition comment_deleted ::
    "nat \<Rightarrow> Comment \<Rightarrow> jsstring \<Rightarrow> jsstring \<Rightarrow> jsstring \<Rightarrow> js_error + unit \<Rightarrow> thread_screen \<Rightarrow> thread_screen" where
  "comment_deleted lock comment postId churchId memberId answer s =
     (let owns = ownsActiveContext postId churchId memberId;
          s1 = (if \<not> owns s \<or> co_id comment \<notin> set (thread_ids s) then s
            else case answer of
                Inr _ \<Rightarrow> loadThread True (set_thread (\<lambda>v. v\<lparr>
                  tv_comments := filter (\<lambda>x. co_id x \<noteq> co_id comment) (tv_comments v)\<rparr>) s)
              | Inl cause \<Rightarrow>
                  let failure = communityMutationFailure MDeleteComment cause in
                  (set_thread (\<lambda>v. v\<lparr>tv_deleteUnknownIds := (if fc_outcomeUnknown failure
                      then ids_add (co_id comment) (tv_deleteUnknownIds v) else tv_deleteUnknownIds v),
                    tv_deleteError := fc_message failure\<rparr>) s)
                  \<lparr>ts_alerts := ts_alerts s @ [(fc_title failure, fc_message failure)]\<rparr>);
          s2 = drop_release lock (co_id comment) s1
      in if owns s2 then set_thread (\<lambda>v. v\<lparr>tv_deletingIds := ids_delete (co_id comment) (tv_deletingIds v)\<rparr>) s2 else s2)"

section \<open>What is drawn\<close>

definition ownsComments :: "thread_screen \<Rightarrow> bool" where
  "ownsComments s \<longleftrightarrow>
     (case member_of (th_who (ts_active s)) of
        Some (churchId, memberId) \<Rightarrow>
          ownsSocialMutationContext (tv_commentsOwner (ts_drawn s)) (th_postId (ts_active s)) churchId memberId
      | None \<Rightarrow> False)"

definition thread_shown :: "thread_screen \<Rightarrow> bool" where
  "thread_shown s \<longleftrightarrow> ts_mounted s \<and> \<not> (tv_loading (ts_drawn s) \<or> \<not> ownsComments s)"

definition visibleComments :: "thread_screen \<Rightarrow> Comment list" where
  "visibleComments s = (if thread_shown s then tv_comments (ts_drawn s) else [])"

definition commentAction :: "thread_screen \<Rightarrow> authoring_action" where
  "commentAction s =
     (let d = ts_drawn s in
      socialAuthoringActionState AuthorComment (tv_content d) (ts_offline s)
        (tv_submitting d \<or> tv_submitOutcomeUnknown d \<and> tv_refreshing d) (tv_submitOutcomeUnknown d)
        (member_of (th_who (ts_active s)) \<noteq> None
          \<and> canSubmitCommentToPost (tv_confirmedPostId d) (th_postId (ts_active s))))"

definition later_comments :: "thread_screen \<Rightarrow> resend_state" where
  "later_comments s =
     paginationActionState (js ''older comments'') (ts_offline s) (tv_loadingMore (ts_drawn s)) (tv_refreshing (ts_drawn s)) False"

definition drop_disabled :: "thread_screen \<Rightarrow> Comment \<Rightarrow> bool" where
  "drop_disabled s comment \<longleftrightarrow> ts_offline s \<or> co_id comment \<in> set (tv_deletingIds (ts_drawn s))
     \<or> co_id comment \<in> set (tv_deleteUnknownIds (ts_drawn s))"

section \<open>Steps\<close>

definition thread_init :: "thread \<Rightarrow> bool \<Rightarrow> thread_screen" where
  "thread_init context offline =
     (let view = \<lparr>tv_comments = [], tv_commentsOwner = context, tv_content = [], tv_loading = True, tv_refreshing = False,
         tv_loadingMore = False, tv_loadedPage = 0, tv_totalComments = 0, tv_submitting = False, tv_loadError = [],
         tv_submitError = [], tv_submitOutcomeUnknown = False, tv_deleteError = [], tv_deletingIds = [],
         tv_deleteUnknownIds = [], tv_confirmedPostId = None\<rparr>
      in \<lparr>ts_active = context, ts_offline = offline, ts_mounted = True, ts_focused = True, ts_previous = context,
          ts_focus = None, ts_view = view, ts_drawn = view, ts_hasLoaded = False, ts_outcomeUnknownRef = False, ts_gate = 0,
          ts_locks = 0, ts_submissionLock = (\<lambda>_. False), ts_deleteLock = (\<lambda>_. []), ts_flights = [], ts_questions = [],
          ts_alerts = []\<rparr>)"

fun thread_answer :: "host \<Rightarrow> api \<Rightarrow> thread_flight \<Rightarrow> thread_screen \<Rightarrow> thread_screen" where
  "thread_answer h api (ThreadFlight ticket context) s =
     thread_loaded ticket (th_postId context) (getComments h api (th_postId context) (comment_page 1)) s"
| "thread_answer h api (LaterFlight ticket nextPage postId churchId memberId) s =
     later_loaded ticket nextPage postId churchId memberId (getComments h api postId (comment_page nextPage)) s"
| "thread_answer h api (SubmitFlight lock postId churchId memberId message) s =
     comment_sent lock postId churchId memberId (addComment h api postId message memberId) s"
| "thread_answer h api (DropFlight lock comment postId churchId memberId) s =
     comment_deleted lock comment postId churchId memberId (deleteComment api postId (co_id comment)) s"

datatype thread_label =
    ThreadRendered thread bool
  | ThreadEffects
  | ThreadFocused
  | ThreadBlurred
  | ThreadUnmounted
  | ThreadAnswered thread_flight api
  | ThreadPulled
  | ThreadBannerPressed
  | ThreadRetried
  | LaterPressed
  | CommentTyped jsstring
  | ComposerPressed
  | DropPressed Comment
  | DropQuestion drop_question bool

text \<open>One event; \<open>None\<close> when it cannot happen. A control acts as the last render drew it.\<close>

fun thread_next :: "host \<Rightarrow> thread_label \<Rightarrow> thread_screen \<Rightarrow> thread_screen option" where
  "thread_next h (ThreadRendered context offline) s =
     (if ts_mounted s
      then Some (s\<lparr>ts_active := context, ts_offline := offline, ts_drawn := ts_view s,
        ts_outcomeUnknownRef := tv_submitOutcomeUnknown (ts_view s)\<rparr>)
      else None)"
| "thread_next h ThreadEffects s =
     (if ts_mounted s \<and> (ts_previous s \<noteq> ts_active s \<or> ts_focused s \<and> ts_focus s \<noteq> Some (ts_active s))
      then Some (thread_effects s) else None)"
| "thread_next h ThreadFocused s = (if ts_mounted s \<and> \<not> ts_focused s then Some (s\<lparr>ts_focused := True\<rparr>) else None)"
| "thread_next h ThreadBlurred s = (if ts_mounted s \<and> ts_focused s then Some (thread_blurred s) else None)"
| "thread_next h ThreadUnmounted s =
     (if ts_mounted s then Some ((thread_blurred s)\<lparr>ts_mounted := False\<rparr>) else None)"
| "thread_next h (ThreadAnswered f api) s =
     (if f \<in> set (ts_flights s) then Some (thread_answer h api f (s\<lparr>ts_flights := remove1 f (ts_flights s)\<rparr>)) else None)"
| "thread_next h ThreadPulled s = (if thread_shown s \<and> \<not> ts_offline s then Some (loadThread True s) else None)"
| "thread_next h ThreadBannerPressed s =
     (let d = ts_drawn s in
      if thread_shown s \<and> (tv_loadError d \<noteq> [] \<or> tv_deleteError d \<noteq> []) \<and> tv_comments d \<noteq> []
        \<and> (tv_loadError d \<noteq> [] \<or> tv_deleteUnknownIds d \<noteq> [])
        \<and> \<not> snd (snd (communityPartialRecoveryAction (ts_offline s) Comments))
      then Some (loadThread True s) else None)"
| "thread_next h ThreadRetried s =
     (if thread_shown s \<and> tv_comments (ts_drawn s) = [] \<and> tv_loadError (ts_drawn s) \<noteq> [] \<and> \<not> ts_offline s
      then Some (loadThread False s) else None)"
| "thread_next h LaterPressed s =
     (let d = ts_drawn s in
      if thread_shown s \<and> tv_comments d \<noteq> [] \<and> int (length (tv_comments d)) < tv_totalComments d
        \<and> \<not> ac_disabled (later_comments s)
      then Some (loadLater s) else None)"
| "thread_next h (CommentTyped v) s =
     (let d = ts_drawn s in
      if thread_shown s \<and> \<not> tv_submitting d \<and> \<not> tv_submitOutcomeUnknown d \<and> length v \<le> 500
      then Some (set_thread (\<lambda>w. w\<lparr>tv_content := v,
        tv_submitError := (if tv_submitOutcomeUnknown d then tv_submitError w else [])\<rparr>) s)
      else None)"
| "thread_next h ComposerPressed s =
     (if thread_shown s \<and> \<not> aa_disabled (commentAction s)
      then Some (if aa_recover (commentAction s) then loadThread True s else submitComment s) else None)"
| "thread_next h (DropPressed comment) s =
     (if comment \<in> set (visibleComments s) \<and> so_memberId (th_who (ts_active s)) = Some (co_authorId comment)
        \<and> \<not> drop_disabled s comment
      then Some (confirmDeleteComment comment s) else None)"
| "thread_next h (DropQuestion (lock, comment, context) agreed) s =
     (if (lock, comment, context) \<in> set (ts_questions s)
      then let s1 = s\<lparr>ts_questions := remove1 (lock, comment, context) (ts_questions s)\<rparr> in
        Some (if agreed then deleteOwnedComment lock comment context s1 else drop_release lock (co_id comment) s1)
      else None)"

abbreviation thread_run :: "host \<Rightarrow> thread_screen \<Rightarrow> thread_label list \<Rightarrow> thread_screen \<Rightarrow> bool" where
  "thread_run h \<equiv> step_run (thread_next h)"

section \<open>Lemmas\<close>

lemma owns_thread: "ownsSocialMutationContext w p c m \<longleftrightarrow> w = thread_of p c m"
  by (cases w; cases "th_who w") (auto simp: ownsSocialMutationContext_def thread_of_def owner_of_def)

lemma ownsActiveContext_iff: "ownsActiveContext p c m s \<longleftrightarrow> ts_mounted s \<and> ts_active s = thread_of p c m"
  by (auto simp: ownsActiveContext_def socialMutationCompletionBelongsToContext_def owns_thread)

text \<open>A context of a member who is signed in.\<close>

definition complete :: "thread \<Rightarrow> bool" where
  "complete w \<longleftrightarrow> member_of (th_who w) \<noteq> None"

lemma member_thread: "member_of (th_who w) = Some (c, m) \<longleftrightarrow> w = thread_of (th_postId w) c m \<and> c \<noteq> [] \<and> m \<noteq> []"
  by (cases w) (auto simp: member_of_iff thread_of_def)

lemma owns_active: "member_of (th_who w) = Some (c, m) \<Longrightarrow> ownsSocialMutationContext v (th_postId w) c m \<longleftrightarrow> v = w"
  unfolding owns_thread member_thread by metis

subsection \<open>Whose comments they are\<close>

fun thread_page :: "thread_flight \<Rightarrow> (int \<times> thread) option" where
  "thread_page (ThreadFlight t w) = Some (t, w)"
| "thread_page (LaterFlight t k p c m) = Some (t, thread_of p c m)"
| "thread_page _ = None"

text \<open>Comments that are kept for an incomplete context are never drawn.\<close>

definition owned_comments :: "thread_view \<Rightarrow> thread option \<times> Comment list" where
  "owned_comments v = (Some (tv_commentsOwner v), if complete (tv_commentsOwner v) then tv_comments v else [])"

definition thread_pages :: "thread_screen \<Rightarrow> (thread, Comment) paged" where
  "thread_pages s = \<lparr>pg_gate = ts_gate s, pg_pages = {p. \<exists>f\<in>set (ts_flights s). thread_page f = Some p},
     pg_owner = fst (owned_comments (ts_view s)), pg_entries = snd (owned_comments (ts_view s))\<rparr>"

text \<open>The event is the answer to a page of the context, or to the comment that was sent in it.\<close>

definition thread_brings :: "host \<Rightarrow> thread_label \<Rightarrow> thread \<Rightarrow> Comment \<Rightarrow> bool" where
  "thread_brings h l w comment \<longleftrightarrow>
     (\<exists>f api. l = ThreadAnswered f api \<and>
       ((\<exists>t k cs n. thread_page f = Some (t, w) \<and> getComments h api (th_postId w) (comment_page k) = Inr (cs, n)
          \<and> comment \<in> set cs)
        \<or> (\<exists>lock p c m message. f = SubmitFlight lock p c m message \<and> w = thread_of p c m
          \<and> addComment h api p message m = Inr comment)))"

abbreviation thread_steps :: "host \<Rightarrow> thread_label \<Rightarrow> thread_screen \<Rightarrow> thread_screen \<Rightarrow> bool" where
  "thread_steps h l s t \<equiv> (paged_step (thread_brings h l) (=) co_id)\<^sup>*\<^sup>* (thread_pages s) (thread_pages t)"

abbreviation thread_step :: "host \<Rightarrow> thread_label \<Rightarrow> thread_screen \<Rightarrow> thread_screen \<Rightarrow> bool" where
  "thread_step h l s t \<equiv> paged_step (thread_brings h l) (=) co_id (thread_pages s) (thread_pages t)"

text \<open>What a load leaves, whatever the comments were.\<close>

lemma loadThread_result:
  "ts_gate (loadThread b s) = next_revision (ts_gate s)"
  "ts_flights (loadThread b s) = ts_flights s @ [ThreadFlight (next_revision (ts_gate s)) (ts_active s)]"
  "tv_commentsOwner (ts_view (loadThread b s)) = ts_active s"
  "complete (ts_active s) \<Longrightarrow> tv_comments (ts_view (loadThread b s))
     = (if tv_commentsOwner (ts_view s) = ts_active s then tv_comments (ts_view s) else [])"
  by (auto simp: loadThread_def request_begin_def thread_await_def Let_def complete_def owns_active split: option.split)

lemma loadThread_same [simp]:
  "ts_drawn (loadThread b s) = ts_drawn s" "ts_active (loadThread b s) = ts_active s" "ts_mounted (loadThread b s) = ts_mounted s"
  "ts_locks (loadThread b s) = ts_locks s" "ts_deleteLock (loadThread b s) = ts_deleteLock s"
  "ts_submissionLock (loadThread b s) = ts_submissionLock s" "ts_questions (loadThread b s) = ts_questions s"
  by (auto simp: loadThread_def request_begin_def thread_await_def Let_def split: option.splits)

lemma loadThread_step: "thread_step h l s (loadThread b s)"
  by (rule paged_step.load [where u = "ts_active s"])
    (auto simp: thread_pages_def owned_comments_def loadThread_result)

lemma loadThread_steps: "thread_steps h l s (loadThread b s)"
  using loadThread_step by blast

lemma invalidate_step: "ts_gate t = request_invalidate (ts_gate s) \<Longrightarrow> ts_flights t = ts_flights s
    \<Longrightarrow> tv_commentsOwner (ts_view t) = tv_commentsOwner (ts_view s)
    \<Longrightarrow> tv_comments (ts_view t) = [] \<or> tv_comments (ts_view t) = tv_comments (ts_view s) \<Longrightarrow> thread_step h l s t"
  by (rule paged_step.invalidate) (auto simp: thread_pages_def owned_comments_def request_invalidate_def)

text \<open>A step that brings nothing.\<close>

lemma quiet_step:
  assumes "ts_gate t = ts_gate s" "tv_commentsOwner (ts_view t) = tv_commentsOwner (ts_view s)"
    and "set (tv_comments (ts_view t)) \<subseteq> set (tv_comments (ts_view s))"
    and "distinct (map co_id (tv_comments (ts_view s))) \<Longrightarrow> distinct (map co_id (tv_comments (ts_view t)))"
    and "\<And>f. f \<in> set (ts_flights t) \<Longrightarrow> f \<in> set (ts_flights s) \<or> thread_page f = None"
  shows "thread_step h l s t"
  using assms by (intro paged_step.change) (fastforce simp: thread_pages_def owned_comments_def)+

lemma effects_steps: "thread_steps h l s (thread_effects s)"
proof -
  define s1 where "s1 = (if ts_focus s \<noteq> None \<and> ts_focus s \<noteq> Some (ts_active s)
    then s\<lparr>ts_gate := request_invalidate (ts_gate s)\<rparr> else s)"
  define s2 where "s2 = (if ts_previous s1 \<noteq> ts_active s1 then context_reset s1 else s1)"
  have "thread_steps h l s s1"
    by (auto simp: s1_def intro!: r_into_rtranclp invalidate_step)
  moreover have "thread_steps h l s1 s2"
    by (auto simp: s2_def context_reset_def Let_def intro!: r_into_rtranclp invalidate_step)
  moreover have "thread_pages (s2\<lparr>ts_focus := x\<rparr>) = thread_pages s2" for x
    by (simp add: thread_pages_def)
  then have "thread_steps h l s2 (loadThread False (s2\<lparr>ts_focus := x\<rparr>))" for x
    using loadThread_step [of h l "s2\<lparr>ts_focus := x\<rparr>" False] by (simp only: r_into_rtranclp)
  moreover have "thread_effects s = (if ts_focused s2 \<and> ts_focus s2 \<noteq> Some (ts_active s2)
      then loadThread False (s2\<lparr>ts_focus := Some (ts_active s2)\<rparr>) else s2)"
    by (simp only: thread_effects_def Let_def s1_def [symmetric] s2_def [symmetric])
  ultimately show ?thesis by (auto intro: rtranclp_trans)
qed

lemma loadLater_steps: "thread_steps h l s (loadLater s)"
proof (cases "ts_gate (loadLater s) = ts_gate s \<and> ts_flights (loadLater s) = ts_flights s")
  case True
  then have "loadLater s = s"
    by (auto simp: loadLater_def request_begin_def thread_await_def Let_def split: option.splits if_splits) 
  then show ?thesis by simp
next
  case False
  then have "thread_step h l s (loadLater s)"
    by (intro paged_step.load [where u = "tv_commentsOwner (ts_view s)"])
      (auto simp: loadLater_def request_begin_def thread_await_def Let_def thread_pages_def owned_comments_def owns_thread
        split: option.splits if_splits)
  then show ?thesis by blast
qed

lemma comments_page:
  assumes "getComments h api p (comment_page k) = Inr (cs, n)"
  shows "distinct (map co_id cs)" and "\<forall>e\<in>set cs. comment_ok h p e"
  using feed_and_thread_are_own [where h = h and api = api and postId = p and p = "comment_page k" and cs = cs and m = n] assms by (auto simp: page_ok_def list_all_iff)

text \<open>The answer to a page of the newest ticket.\<close>

lemma page_step:
  assumes f: "f \<in> set (ts_flights s)" "thread_page f = Some (ts_gate s, w)" "ts_gate s \<le> max_safe_integer"
    and page: "getComments h api (th_postId w) (comment_page k) = Inr (cs, n)"
    and t: "ts_gate t = ts_gate s" "ts_flights t = remove1 f (ts_flights s)"
      "tv_commentsOwner (ts_view t) = tv_commentsOwner (ts_view s)"
      "tv_comments (ts_view t) = cs \<or> tv_comments (ts_view t) = appendUniquePageById co_id (tv_comments (ts_view s)) cs"
  shows "thread_step h (ThreadAnswered f api) s t"
proof -
  have fewer: "pg_pages (thread_pages t) \<subseteq> pg_pages (thread_pages s)"
    using t(2) by (auto simp: thread_pages_def dest!: subsetD [OF set_remove1_subset])
  show ?thesis
  proof (cases "complete (tv_commentsOwner (ts_view s))")
    case True
    have "(ts_gate s, w) \<in> pg_pages (thread_pages s)" using f(1,2) by (auto simp: thread_pages_def)
    then show ?thesis
      using fewer t(1,3,4) f(2,3) comments_page(1) [OF page] page True
      by (intro paged_step.arrive [where u = w and es = cs])
        (auto simp: thread_pages_def owned_comments_def thread_brings_def)
  next
    case False
    then show ?thesis
      using fewer t(1,3) by (intro paged_step.change) (auto simp: thread_pages_def owned_comments_def)
  qed
qed

text \<open>An own comment is put at the end, or nowhere when the comments are of another context, and the thread is loaded.\<close>

lemma comment_created_steps:
  assumes s: "ts_gate u = ts_gate s" "set (ts_flights u) \<subseteq> set (ts_flights s)" "ts_view u = ts_view s" "ts_active u = thread_of p c m"
    and new: "\<And>w. w = thread_of p c m \<Longrightarrow> thread_brings h l w created"
  shows "thread_steps h l s (loadThread True (set_thread (\<lambda>v. v\<lparr>
    tv_comments := insertUniqueById co_id (tv_comments v) created False, tv_content := []\<rparr>) u))"
    (is "thread_steps h l s (loadThread True ?v)")
proof (cases "tv_commentsOwner (ts_view s) = thread_of p c m \<and> complete (thread_of p c m)")
  case True
  define es where "es = insertUniqueById co_id (tv_comments (ts_view s)) created False"
  have same: "pg_gate (thread_pages ?v) = pg_gate (thread_pages s)" "pg_owner (thread_pages ?v) = pg_owner (thread_pages s)"
    using s(1,3) by (simp_all add: thread_pages_def owned_comments_def)
  have here: "pg_owner (thread_pages s) = Some (thread_of p c m)" "pg_entries (thread_pages s) = tv_comments (ts_view s)"
    "pg_entries (thread_pages ?v) = es"
    using s(3) True by (simp_all add: thread_pages_def owned_comments_def es_def)
  have fewer: "pg_pages (thread_pages ?v) \<subseteq> pg_pages (thread_pages s)"
    using s(2) by (auto simp: thread_pages_def)
  have from_page: "e \<in> set (tv_comments (ts_view s)) \<or> thread_brings h l (thread_of p c m) e" if "e \<in> set es" for e
    using set_insertUnique [OF that [unfolded es_def]] new [OF refl] by auto
  have once: "distinct (map co_id es) = distinct (map co_id (tv_comments (ts_view s)))"
    by (simp add: es_def distinct_insertUnique)
  have "thread_step h l s ?v"
  proof (rule paged_step.change [OF same(1) fewer same(2)])
    show "distinct (map co_id (pg_entries (thread_pages ?v)))" if "distinct (map co_id (pg_entries (thread_pages s)))"
      using that once unfolding here by simp
    show "(\<exists>d\<in>set (pg_entries (thread_pages s)). d = e) \<or> (\<exists>u. pg_owner (thread_pages s) = Some u \<and> thread_brings h l u e)"
      if "e \<in> set (pg_entries (thread_pages ?v))" for e
      using from_page [of e] that unfolding here by simp
  qed
  from this loadThread_step [of h l ?v True] show ?thesis
    by (rule converse_rtranclp_into_rtranclp [OF _ r_into_rtranclp])
next
  case False
  then have "thread_step h l s (loadThread True ?v)"
    using s by (intro paged_step.load [where u = "thread_of p c m"])
      (auto simp: thread_pages_def owned_comments_def loadThread_result)
  then show ?thesis by blast
qed

lemma comment_sent_steps:
  assumes "t = comment_sent lock p c m (addComment h api p message m)
    (s\<lparr>ts_flights := remove1 (SubmitFlight lock p c m message) (ts_flights s)\<rparr>)"
  shows "thread_steps h (ThreadAnswered (SubmitFlight lock p c m message) api) s t" (is "thread_steps h (ThreadAnswered ?f api) s t")
proof -
  define r where "r = s\<lparr>ts_flights := remove1 ?f (ts_flights s)\<rparr>"
  have fewer: "set (ts_flights r) \<subseteq> set (ts_flights s)" by (simp add: r_def set_remove1_subset)
  have same: "thread_pages t = thread_pages (if ownsActiveContext p c m r then
      (case addComment h api p message m of
         Inr created \<Rightarrow> loadThread True (set_thread (\<lambda>v. v\<lparr>
           tv_comments := insertUniqueById co_id (tv_comments v) created False, tv_content := []\<rparr>) r)
       | Inl e \<Rightarrow> r) else r)"
    unfolding assms r_def [symmetric]
    by (simp add: comment_sent_def thread_pages_def owned_comments_def Let_def split: sum.split)
  have "thread_steps h (ThreadAnswered ?f api) s r"
    using fewer by (intro r_into_rtranclp quiet_step) (auto simp: r_def)
  moreover have "thread_steps h (ThreadAnswered ?f api) s (loadThread True (set_thread (\<lambda>v. v\<lparr>
      tv_comments := insertUniqueById co_id (tv_comments v) created False, tv_content := []\<rparr>) r))"
    if "ownsActiveContext p c m r" "addComment h api p message m = Inr created" for created
    using that fewer
    by (intro comment_created_steps [where p = p and c = c and m = m])
      (auto simp: r_def ownsActiveContext_iff thread_brings_def)
  ultimately show ?thesis
    unfolding same by (simp split: sum.split)
qed

lemma comment_deleted_steps:
  assumes "t = comment_deleted lock x p c m a (s\<lparr>ts_flights := remove1 f (ts_flights s)\<rparr>)"
  shows "thread_steps h l s t"
proof -
  define r where "r = s\<lparr>ts_flights := remove1 f (ts_flights s)\<rparr>"
  define u where "u = set_thread (\<lambda>v. v\<lparr>tv_comments := filter (\<lambda>y. co_id y \<noteq> co_id x) (tv_comments v)\<rparr>) r"
  have r: "ts_gate r = ts_gate s" "set (ts_flights r) \<subseteq> set (ts_flights s)" "ts_view r = ts_view s"
    by (simp_all add: r_def set_remove1_subset)
  have "thread_pages t = thread_pages r \<or> thread_pages t = thread_pages (loadThread True u)"
    unfolding assms r_def [symmetric] u_def
    by (simp add: comment_deleted_def drop_release_def thread_pages_def owned_comments_def Let_def split: sum.split)
  moreover have "thread_step h l s r"
    using r by (intro quiet_step) auto
  moreover have "thread_step h l s u"
    using r by (intro quiet_step) (auto simp: u_def distinct_map_filter)
  then have "thread_steps h l s (loadThread True u)"
    using loadThread_step [of h l u True] by (rule converse_rtranclp_into_rtranclp [OF _ r_into_rtranclp])
  ultimately show ?thesis by (metis r_into_rtranclp)
qed

lemma thread_loaded_same [simp]:
  "ts_gate (thread_loaded k p a s) = ts_gate s" "ts_flights (thread_loaded k p a s) = ts_flights s"
  "ts_drawn (thread_loaded k p a s) = ts_drawn s" "ts_locks (thread_loaded k p a s) = ts_locks s"
  "ts_deleteLock (thread_loaded k p a s) = ts_deleteLock s" "ts_questions (thread_loaded k p a s) = ts_questions s"
  "tv_commentsOwner (ts_view (thread_loaded k p a s)) = tv_commentsOwner (ts_view s)"
  "tv_comments (ts_view (thread_loaded k p a s)) =
     (if isLatest (jint k) (ts_gate s) then case a of Inr (cs, n) \<Rightarrow> cs | Inl e \<Rightarrow> tv_comments (ts_view s)
      else tv_comments (ts_view s))"
  by (simp_all add: thread_loaded_def Let_def split: sum.split)

lemma later_loaded_same [simp]:
  "ts_gate (later_loaded k n p c m a s) = ts_gate s" "ts_flights (later_loaded k n p c m a s) = ts_flights s"
  "ts_drawn (later_loaded k n p c m a s) = ts_drawn s" "ts_locks (later_loaded k n p c m a s) = ts_locks s"
  "ts_deleteLock (later_loaded k n p c m a s) = ts_deleteLock s" "ts_questions (later_loaded k n p c m a s) = ts_questions s"
  "tv_commentsOwner (ts_view (later_loaded k n p c m a s)) = tv_commentsOwner (ts_view s)"
  "tv_comments (ts_view (later_loaded k n p c m a s)) =
     (if isLatest (jint k) (ts_gate s) \<and> ownsActiveContext p c m s
      then case a of Inr (cs, tot) \<Rightarrow> appendUniquePageById co_id (tv_comments (ts_view s)) cs | Inl e \<Rightarrow> tv_comments (ts_view s)
      else tv_comments (ts_view s))"
  by (simp_all add: later_loaded_def split: sum.split)

lemma thread_answer_steps:
  assumes f: "f \<in> set (ts_flights s)" and t: "t = thread_answer h api f (s\<lparr>ts_flights := remove1 f (ts_flights s)\<rparr>)"
  shows "thread_steps h (ThreadAnswered f api) s t"
proof (cases f)
  case (ThreadFlight ticket w)
  have "thread_step h (ThreadAnswered f api) s t"
  proof (cases "\<exists>cs n. getComments h api (th_postId w) (comment_page 1) = Inr (cs, n) \<and> isLatest (jint ticket) (ts_gate s)")
    case True
    then obtain cs n where page: "getComments h api (th_postId w) (comment_page 1) = Inr (cs, n)" by blast
    show ?thesis
      using True page t ThreadFlight
      by (intro page_step [OF f _ _ page]) (auto simp: isLatest_jint)
  next
    case False
    then show ?thesis
      using t ThreadFlight by (intro quiet_step)
        (auto dest!: subsetD [OF set_remove1_subset] split: sum.split)
  qed
  then show ?thesis by blast
next
  case (LaterFlight ticket k p c m)
  have "thread_step h (ThreadAnswered f api) s t"
  proof (cases "\<exists>cs n. getComments h api p (comment_page k) = Inr (cs, n) \<and> isLatest (jint ticket) (ts_gate s)
      \<and> ownsActiveContext p c m s")
    case True
    then obtain cs n where page: "getComments h api (th_postId (thread_of p c m)) (comment_page k) = Inr (cs, n)"
      by (auto simp: thread_of_def)
    show ?thesis
      using True page t LaterFlight
      by (intro page_step [OF f _ _ page]) (auto simp: isLatest_jint ownsActiveContext_iff thread_of_def)
  next
    case False
    then show ?thesis
      using t LaterFlight by (intro quiet_step)
        (auto simp: ownsActiveContext_iff dest!: subsetD [OF set_remove1_subset] split: sum.split)
  qed
  then show ?thesis by blast
next
  case (SubmitFlight lock p c m message)
  then show ?thesis using comment_sent_steps t by simp
next
  case (DropFlight lock x p c m)
  then show ?thesis using comment_deleted_steps t by simp
qed

lemma blurred_steps: "thread_steps h l s (thread_blurred s)"
proof (cases "ts_focus s = None")
  case True
  then have "thread_pages (thread_blurred s) = thread_pages s" by (simp add: thread_blurred_def thread_pages_def)
  then show ?thesis by simp
next
  case False
  then have "thread_step h l s (thread_blurred s)" by (intro invalidate_step) (auto simp: thread_blurred_def)
  then show ?thesis by blast
qed

lemma thread_next_steps:
  assumes "thread_next h l s = Some t"
  shows "thread_steps h l s t"
proof (cases l)
  case (ThreadAnswered f api)
  then show ?thesis using assms thread_answer_steps [OF _ refl] by (auto split: if_splits)
next
  case ThreadBlurred
  then show ?thesis using assms blurred_steps by (auto split: if_splits)
next
  case ThreadUnmounted
  moreover have "thread_pages ((thread_blurred s)\<lparr>ts_mounted := False\<rparr>) = thread_pages (thread_blurred s)"
    by (simp add: thread_pages_def)
  ultimately show ?thesis using assms blurred_steps by (auto split: if_splits)
next
  case ThreadEffects
  then show ?thesis using assms effects_steps by (auto split: if_splits)
next
  case LaterPressed
  then show ?thesis using assms loadLater_steps by (auto simp: Let_def split: if_splits)
next
  case ComposerPressed
  have "thread_step h l s (submitComment s)"
    by (rule quiet_step)
      (auto simp: submitComment_def thread_await_def Let_def split_beta split: option.splits if_splits)
  then show ?thesis
    using ComposerPressed assms loadThread_step by (auto split: if_splits)
next
  case (DropQuestion q agreed)
  have "thread_step h l s t"
    by (rule quiet_step) (use assms DropQuestion in \<open>cases q; auto simp: deleteOwnedComment_def drop_release_def thread_await_def
      Let_def split: if_splits option.splits\<close>)+
  then show ?thesis by blast
next
  case (DropPressed x)
  then have "thread_pages t = thread_pages s"
    using assms by (auto simp: thread_pages_def confirmDeleteComment_def split_beta split: if_splits)
  then show ?thesis by simp
next
  case (ThreadRendered w offline)
  then have "thread_pages t = thread_pages s" using assms by (auto simp: thread_pages_def split: if_splits)
  then show ?thesis by simp
next
  case ThreadFocused
  then have "thread_pages t = thread_pages s" using assms by (auto simp: thread_pages_def split: if_splits)
  then show ?thesis by simp
next
  case (CommentTyped v)
  then have "thread_pages t = thread_pages s"
    using assms by (auto simp: thread_pages_def owned_comments_def Let_def split: if_splits)
  then show ?thesis by simp
qed (use assms in \<open>auto intro: loadThread_steps simp: Let_def split: if_splits\<close>)

definition thread_drawn :: "thread_screen \<Rightarrow> thread option \<times> Comment list" where
  "thread_drawn s = owned_comments (ts_drawn s)"

lemma thread_answer_drawn [simp]: "ts_drawn (thread_answer h api f s) = ts_drawn s"
  by (cases "(h, api, f, s)" rule: thread_answer.cases)
    (simp_all add: comment_sent_def comment_deleted_def drop_release_def Let_def split: sum.split)

lemma loadLater_drawn [simp]: "ts_drawn (loadLater s) = ts_drawn s"
  by (simp add: loadLater_def thread_await_def Let_def split_beta split: option.split)

lemma submitComment_drawn [simp]: "ts_drawn (submitComment s) = ts_drawn s"
  by (simp add: submitComment_def thread_await_def Let_def split_beta split: option.split)

lemma deleteOwnedComment_drawn [simp]: "ts_drawn (deleteOwnedComment k x w s) = ts_drawn s"
  by (simp add: deleteOwnedComment_def drop_release_def thread_await_def split: option.split)

lemma thread_next_drawn:
  assumes "thread_next h l s = Some t"
  shows "thread_drawn t = thread_drawn s \<or> thread_drawn t = (pg_owner (thread_pages s), pg_entries (thread_pages s))"
  using assms
  by (cases "(h, l, s)" rule: thread_next.cases)
    (auto simp: thread_drawn_def thread_pages_def thread_effects_def context_reset_def thread_blurred_def confirmDeleteComment_def
      drop_release_def Let_def split_beta split: if_splits)

interpretation comment_thread: paged_screen "thread_next h" thread_pages thread_drawn "thread_brings h" "(=)" co_id for h
  by unfold_locales (auto intro: thread_next_steps dest: thread_next_drawn)

subsection \<open>A comment is deleted once at a time\<close>

fun drop_key :: "nat \<Rightarrow> thread_flight \<Rightarrow> jsstring list" where
  "drop_key k (DropFlight j x p c m) = (if j = k then [co_id x] else [])"
| "drop_key _ _ = []"

fun question_key :: "nat \<Rightarrow> drop_question \<Rightarrow> jsstring list" where
  "question_key k (j, x, w) = (if j = k then [co_id x] else [])"

text \<open>The comments that a lock is asking about or deleting.\<close>

definition dropping :: "nat \<Rightarrow> thread_screen \<Rightarrow> jsstring list" where
  "dropping k s = concat (map (question_key k) (ts_questions s)) @ concat (map (drop_key k) (ts_flights s))"

definition thread_keys :: "thread_screen \<Rightarrow> keyed" where
  "thread_keys s = \<lparr>ky_current = ts_locks s, ky_lock = ts_deleteLock s, ky_awaited = (\<lambda>k. mset (dropping k s))\<rparr>"

lemma dropping_await [simp]: "dropping k (thread_await f s) = dropping k s @ drop_key k f"
  by (simp add: dropping_def thread_await_def)

lemma thread_await_same [simp]:
  "ts_locks (thread_await f s) = ts_locks s" "ts_deleteLock (thread_await f s) = ts_deleteLock s"
  by (simp_all add: thread_await_def)

lemma dropping_same: "ts_questions t = ts_questions s \<Longrightarrow> ts_flights t = ts_flights s \<Longrightarrow> dropping k t = dropping k s"
  by (simp add: dropping_def)

lemma thread_keys_same:
  "ts_locks t = ts_locks s \<Longrightarrow> ts_deleteLock t = ts_deleteLock s \<Longrightarrow> (\<And>k. mset (dropping k t) = mset (dropping k s))
     \<Longrightarrow> thread_keys t = thread_keys s"
  by (simp add: thread_keys_def)

lemma loadThread_keys [simp]: "thread_keys (loadThread b s) = thread_keys s"
  by (rule thread_keys_same) (simp_all add: dropping_def loadThread_result)

lemma loadLater_keys [simp]: "thread_keys (loadLater s) = thread_keys s"
  by (rule thread_keys_same)
    (simp_all add: loadLater_def Let_def split_beta dropping_def thread_await_def split: option.split)

lemma submitComment_keys [simp]: "thread_keys (submitComment s) = thread_keys s"
  by (rule thread_keys_same)
    (simp_all add: submitComment_def Let_def split_beta dropping_def thread_await_def split: option.split)

lemma context_reset_keys: "keyed_step (thread_keys s) (thread_keys (context_reset s))"
  using keyed_step.reset [of "thread_keys s"] by (simp add: thread_keys_def context_reset_def Let_def dropping_def)

lemma effects_keys: "keyed_step\<^sup>*\<^sup>* (thread_keys s) (thread_keys (thread_effects s))"
proof -
  define s1 where "s1 = (if ts_focus s \<noteq> None \<and> ts_focus s \<noteq> Some (ts_active s)
    then s\<lparr>ts_gate := request_invalidate (ts_gate s)\<rparr> else s)"
  define s2 where "s2 = (if ts_previous s1 \<noteq> ts_active s1 then context_reset s1 else s1)"
  have "thread_keys s1 = thread_keys s" by (simp add: s1_def thread_keys_def dropping_def)
  then have "keyed_step\<^sup>*\<^sup>* (thread_keys s) (thread_keys s2)"
    using context_reset_keys [of s1] by (auto simp: s2_def)
  moreover have "thread_effects s = (if ts_focused s2 \<and> ts_focus s2 \<noteq> Some (ts_active s2)
      then loadThread False (s2\<lparr>ts_focus := Some (ts_active s2)\<rparr>) else s2)"
    by (simp only: thread_effects_def Let_def s1_def [symmetric] s2_def [symmetric])
  moreover have "thread_keys (s2\<lparr>ts_focus := x\<rparr>) = thread_keys s2" for x
    by (simp add: thread_keys_def dropping_def)
  ultimately show ?thesis by simp
qed

text \<open>A key of a question or of a request that ends.\<close>

lemma drop_released:
  assumes "\<And>k. mset (dropping k s) = (if k = j then {#i#} else {#}) + mset (dropping k t)"
    and "ts_locks t = ts_locks s" "ts_deleteLock t = (ts_deleteLock s)(j := keyed_release i (ts_deleteLock s j))"
  shows "keyed_step (thread_keys s) (thread_keys t)"
proof -
  have "thread_keys t = (thread_keys s)\<lparr>ky_lock := (ky_lock (thread_keys s))(j := keyed_release i (ky_lock (thread_keys s) j)),
      ky_awaited := (ky_awaited (thread_keys s))(j := ky_awaited (thread_keys s) j - {#i#})\<rparr>"
    using assms by (simp add: thread_keys_def fun_eq_iff)
  moreover have "i \<in># ky_awaited (thread_keys s) j"
    using assms(1) [of j] by (simp add: thread_keys_def)
  ultimately show ?thesis
    using keyed_step.release [of i "thread_keys s" j] by simp
qed

lemma confirmDelete_keys: "keyed_step\<^sup>*\<^sup>* (thread_keys s) (thread_keys (confirmDeleteComment x s))"
proof (cases "confirmDeleteComment x s = s")
  case False
  let ?a = "keyed_acquire (co_id x) (ts_deleteLock s (ts_locks s))"
  have "fst ?a" and made: "confirmDeleteComment x s = s\<lparr>ts_deleteLock := (ts_deleteLock s)(ts_locks s := snd ?a),
      ts_questions := ts_questions s @ [(ts_locks s, x, ts_active s)]\<rparr>"
    using False by (auto simp: confirmDeleteComment_def split_beta split: if_splits)
  moreover have "thread_keys (confirmDeleteComment x s) = (thread_keys s)\<lparr>ky_lock := (ts_deleteLock s)(ts_locks s := snd ?a),
      ky_awaited := (\<lambda>k. mset (dropping k s))(ts_locks s := add_mset (co_id x) (mset (dropping (ts_locks s) s)))\<rparr>"
    unfolding made by (simp add: thread_keys_def dropping_def fun_eq_iff)
  ultimately have "keyed_step (thread_keys s) (thread_keys (confirmDeleteComment x s))"
    using keyed_step.acquire [of "co_id x" "thread_keys s"] by (simp add: thread_keys_def)
  then show ?thesis by blast
qed simp

lemma question_answered_keys:
  assumes q: "(j, x, w) \<in> set (ts_questions s)" and r: "r = s\<lparr>ts_questions := remove1 (j, x, w) (ts_questions s)\<rparr>"
    and t: "t = (if agreed then deleteOwnedComment j x w r else drop_release j (co_id x) r)"
  shows "keyed_step\<^sup>*\<^sup>* (thread_keys s) (thread_keys t)"
proof -
  have taken: "mset (dropping k s) = (if k = j then {#co_id x#} else {#}) + mset (dropping k r)" for k
    using mset_concat_remove1 [OF q, of "question_key k"] by (simp add: dropping_def r)
  have "t = drop_release j (co_id x) r \<or> (\<exists>p c m v. t = thread_await (DropFlight j x p c m) (r\<lparr>ts_view := v\<rparr>))"
    unfolding t deleteOwnedComment_def by (auto split: option.split)
  then consider "t = drop_release j (co_id x) r"
    | p c m v where "t = thread_await (DropFlight j x p c m) (r\<lparr>ts_view := v\<rparr>)"
    by blast
  then show ?thesis
  proof cases
    case 1
    then have "keyed_step (thread_keys s) (thread_keys t)"
      using taken by (intro drop_released [where i = "co_id x" and j = j])
        (auto simp: drop_release_def r dropping_def)
    then show ?thesis by blast
  next
    case 2
    then have "mset (dropping k t) = mset (dropping k s)" for k
      using taken [of k] by (simp add: dropping_def thread_await_def)
    then have "thread_keys t = thread_keys s"
      using 2 by (intro thread_keys_same) (simp_all add: r)
    then show ?thesis by simp
  qed
qed

lemma comment_deleted_same:
  "ts_locks (comment_deleted k x p c m a s) = ts_locks s"
  "ts_deleteLock (comment_deleted k x p c m a s) = (ts_deleteLock s)(k := keyed_release (co_id x) (ts_deleteLock s k))"
  "mset (dropping j (comment_deleted k x p c m a s)) = mset (dropping j s)"
  by (simp_all add: comment_deleted_def drop_release_def Let_def dropping_def loadThread_result split: sum.split)

lemma comment_sent_keys: "thread_keys (comment_sent k p c m a s) = thread_keys s"
  by (rule thread_keys_same)
    (simp_all add: comment_sent_def Let_def dropping_def loadThread_result split: sum.split)

lemma thread_answer_keys:
  assumes f: "f \<in> set (ts_flights s)" and t: "t = thread_answer h api f (s\<lparr>ts_flights := remove1 f (ts_flights s)\<rparr>)"
  shows "keyed_step\<^sup>*\<^sup>* (thread_keys s) (thread_keys t)"
proof -
  define r where "r = s\<lparr>ts_flights := remove1 f (ts_flights s)\<rparr>"
  have taken: "mset (dropping k s) = mset (drop_key k f) + mset (dropping k r)" for k
    using mset_concat_remove1 [OF f, of "drop_key k"] by (simp add: dropping_def r_def)
  have t: "t = thread_answer h api f r" using t by (simp add: r_def)
  show ?thesis
  proof (cases "\<exists>j x p c m. f = DropFlight j x p c m")
    case True
    then obtain j x p c m where d: "f = DropFlight j x p c m" by blast
    then have "keyed_step (thread_keys s) (thread_keys t)"
      using taken by (intro drop_released [where i = "co_id x" and j = j]) (simp_all add: t comment_deleted_same r_def)
    then show ?thesis by blast
  next
    case False
    then have "thread_keys t = thread_keys r"
      unfolding t by (cases f) (auto simp: comment_sent_keys intro!: thread_keys_same dropping_same arg_cong [of _ _ mset])
    moreover have "thread_keys r = thread_keys s"
      using taken False by (intro thread_keys_same) (cases f; simp add: r_def)+
    ultimately show ?thesis by simp
  qed
qed

lemma thread_next_keys:
  assumes "thread_next h l s = Some t"
  shows "keyed_step\<^sup>*\<^sup>* (thread_keys s) (thread_keys t)"
proof (cases l)
  case (ThreadAnswered f api)
  then show ?thesis using assms thread_answer_keys [OF _ refl] by (auto split: if_splits)
next
  case ThreadEffects
  then show ?thesis using assms effects_keys by (auto split: if_splits)
next
  case (DropPressed x)
  then show ?thesis using assms confirmDelete_keys by (auto split: if_splits)
next
  case (DropQuestion q agreed)
  moreover obtain j x w where q: "q = (j, x, w)" by (cases q)
  ultimately have "(j, x, w) \<in> set (ts_questions s)"
    and "t = (if agreed then deleteOwnedComment j x w (s\<lparr>ts_questions := remove1 (j, x, w) (ts_questions s)\<rparr>)
      else drop_release j (co_id x) (s\<lparr>ts_questions := remove1 (j, x, w) (ts_questions s)\<rparr>))"
    using assms by (auto split: if_splits)
  then show ?thesis by (rule question_answered_keys [OF _ refl])
next
  case (ThreadRendered w offline)
  then have "thread_keys t = thread_keys s" using assms by (auto simp: thread_keys_def dropping_def split: if_splits)
  then show ?thesis by simp
next
  case ThreadFocused
  then have "thread_keys t = thread_keys s" using assms by (auto simp: thread_keys_def dropping_def split: if_splits)
  then show ?thesis by simp
next
  case ThreadBlurred
  then have "thread_keys t = thread_keys s"
    using assms by (auto simp: thread_blurred_def thread_keys_def dropping_def split: if_splits)
  then show ?thesis by simp
next
  case ThreadUnmounted
  then have "thread_keys t = thread_keys s"
    using assms by (auto simp: thread_blurred_def thread_keys_def dropping_def split: if_splits)
  then show ?thesis by simp
next
  case (CommentTyped v)
  then have "thread_keys t = thread_keys s" using assms by (auto simp: thread_keys_def dropping_def Let_def split: if_splits)
  then show ?thesis by simp
qed (use assms in \<open>auto simp: Let_def split: if_splits\<close>)

interpretation thread_drops: keyed_screen "thread_next h" thread_keys for h
  by unfold_locales (rule thread_next_keys)

section \<open>Properties\<close>

text \<open>C17: a thread shows its own comments only. In every run of the screen, whatever the order of renders, focus changes, taps
  and answers, and whichever posts are opened and members sign in meanwhile, a comment on the screen came for the member
  and the church signed in, in an answer to a page of this post or to a comment written on it; it is a well-formed comment
  of the post, and is shown once.\<close>

theorem thread_is_own:
  assumes "thread_run h (thread_init context offline) ls s" and "x \<in> set (visibleComments s)"
  shows "received_by (thread_brings h) (=) ls (ts_active s) x \<and> comment_ok h (th_postId (ts_active s)) x
    \<and> distinct (map co_id (visibleComments s))"
proof -
  have quiet: "pg_entries (thread_pages (thread_init context offline)) = []"
    "pg_pages (thread_pages (thread_init context offline)) = {}" "snd (thread_drawn (thread_init context offline)) = []"
    by (simp_all add: thread_pages_def thread_init_def thread_drawn_def owned_comments_def Let_def)
  note own = comment_thread.drawn_is_own [OF assms(1) quiet]
  have shown: "ownsComments s" "visibleComments s = tv_comments (ts_drawn s)"
    using assms(2) by (auto simp: visibleComments_def thread_shown_def split: if_splits)
  then have active: "tv_commentsOwner (ts_drawn s) = ts_active s" "complete (ts_active s)"
    by (auto simp: ownsComments_def owns_active complete_def split: option.splits)
  then have drawn: "thread_drawn s = (Some (ts_active s), visibleComments s)"
    using shown(2) by (simp add: thread_drawn_def owned_comments_def)
  then obtain l where l: "l \<in> set ls" "thread_brings h l (ts_active s) x"
    using own(2) [of x] assms(2) by (auto simp: received_by_def)
  then have "comment_ok h (th_postId (ts_active s)) x"
    using comments_page(2) published_is_submitted by (fastforce simp: thread_brings_def thread_of_def)
  then show ?thesis
    using l own(1) drawn by (auto simp: received_by_def)
qed

text \<open>A comment is deleted once. Whatever the order of taps, questions and answers, no lock of the screen has two
  questions open or two deletions awaited about one comment.\<close>

theorem one_deletion_per_comment:
  assumes "thread_run h (thread_init context offline) ls s"
  shows "distinct (dropping k s)"
proof -
  have "keyed_inv (thread_keys (thread_init context offline))"
    by (simp add: keyed_inv_def thread_keys_def thread_init_def dropping_def Let_def)
  from thread_drops.awaited_once [OF assms this] show ?thesis
    by (simp add: thread_keys_def distinct_count_atmost_1 count_mset_0_iff le_Suc_eq)
qed

section \<open>Witnesses\<close>

definition sample_thread :: thread where
  "sample_thread = thread_of (js ''p1'') (js ''c1'') (js ''m1'')"

definition thread_comment :: jsval where
  "thread_comment = JObj [(''id'', JStr (js ''k1'')), (''postId'', JStr (js ''p1'')), (''content'', JStr (js ''Amen'')),
     (''authorId'', JStr (js ''m1'')), (''authorName'', JStr (js ''Esi'')), (''createdAt'', JStr (js ''2026''))]"

definition thread_gateway :: api where
  "thread_gateway r = (if rq_method r = GET then Inr (envelope (JObj [(''comments'', JArr [thread_comment]), (''total'', jint 1)]))
     else Inl (AxiosError None))"

definition first_comment :: Comment where
  "first_comment = \<lparr>co_id = js ''k1'', co_postId = js ''p1'', co_content = js ''Amen'', co_authorId = js ''m1'',
     co_authorName = js ''Esi'', co_authorAvatar = None, co_createdAt = js ''2026''\<rparr>"

definition thread_opened :: "thread_label list" where
  "thread_opened = [ThreadEffects, ThreadRendered sample_thread False, ThreadAnswered (ThreadFlight 1 sample_thread) thread_gateway,
     ThreadRendered sample_thread False]"

lemma thread_opened_shows:
  "map_option visibleComments (run_steps (thread_next media_host) thread_opened (thread_init sample_thread False))
     = Some [first_comment]"
  by code_simp

theorem thread_is_own_witness:
  "\<exists>s. thread_run media_host (thread_init sample_thread False) thread_opened s \<and> first_comment \<in> set (visibleComments s)
     \<and> comment_ok media_host (th_postId (ts_active s)) first_comment"
proof -
  obtain s where run: "thread_run media_host (thread_init sample_thread False) thread_opened s"
    and shown: "first_comment \<in> set (visibleComments s)"
    using thread_opened_shows by (auto simp: step_run_iff)
  from thread_is_own [OF this] show ?thesis using run shown by blast
qed

definition dropped_twice :: "thread_label list" where
  "dropped_twice = thread_opened @ [DropPressed first_comment, DropPressed first_comment,
     DropQuestion (0, first_comment, sample_thread) True, DropPressed first_comment]"

lemma dropped_twice_run:
  "\<exists>s. thread_run media_host (thread_init sample_thread False) dropped_twice s \<and> dropping 0 s = [js ''k1'']"
proof -
  have "map_option (dropping 0) (run_steps (thread_next media_host) dropped_twice (thread_init sample_thread False))
      = Some [js ''k1'']"
    by code_simp
  then show ?thesis by (auto simp: step_run_iff)
qed

theorem one_deletion_per_comment_witness:
  "\<exists>s. thread_run media_host (thread_init sample_thread False) dropped_twice s \<and> dropping 0 s = [js ''k1'']
     \<and> distinct (dropping 0 s)"
  using dropped_twice_run one_deletion_per_comment by blast

text \<open>The first page was asked for again before the comment was sent; its answer settles the comment whose own answer was
  lost: the draft is gone and the composer is ready for another one.\<close>

lemma older_page_settles_unknown_comment:
  "map_option (\<lambda>s. (tv_content (ts_drawn s), tv_submitOutcomeUnknown (ts_drawn s), map co_id (visibleComments s)))
     (run_steps (thread_next media_host) (thread_opened @ [CommentTyped (js ''Amen to that''), ThreadRendered sample_thread False,
        ThreadPulled, ThreadRendered sample_thread False, ComposerPressed, ThreadRendered sample_thread False,
        ThreadAnswered (SubmitFlight 0 (js ''p1'') (js ''c1'') (js ''m1'') (js ''Amen to that'')) (\<lambda>_. Inl (AxiosError None)),
        ThreadRendered sample_thread False, ThreadAnswered (ThreadFlight 2 sample_thread) thread_gateway,
        ThreadRendered sample_thread False])
      (thread_init sample_thread False)) = Some ([], False, [js ''k1''])"
  by code_simp

end
