(* ===== verification/Spec2Isabelle.thy ===== *)
theory Spec2Isabelle
  imports GivingRecords Notifications Events Spiritual Social Welfare AuthForms SessionFlow Permissions ApiAccounts ApiEvents
    AuthProvider GivingCheckout Settlement QuickGive Live BrowserClient WebOtp DashboardNav Feed Prayer CareScreen
    Registration OtpEntry Inbox CommentThread
begin

text \<open>
  \<^bold>\<open>The program.\<close> A platform for churches: a mobile application for members (\<open>src/apps/mobile\<close>), a member
  site, a dashboard for the staff and a console for the platform (\<open>src/apps/web\<close>, \<open>dashboard\<close>, \<open>admin\<close>), a
  permissions package they share (\<open>src/packages/permissions\<close>), an API in TypeScript (\<open>src/apps/api\<close>) and the
  gateway in Go that replaces it (\<open>src/internal\<close>, \<open>src/cmd\<close>). This library models the TypeScript: the services,
  the session, the authentication and the screens of the mobile application where money, identity and live
  services are decided, the clients of the browser applications, the permissions, and the parts of the API
  that decide something.

  \<^bold>\<open>How the parts interact.\<close> A screen of the mobile application calls a service; the service checks its input,
  calls the gateway through the request client, and accepts an answer only after normalizing it. The request
  client takes the bearer from the session store and renews it; the authentication services commit pairs to
  the store; the authentication context decides which member is shown; screens compare the member of an answer
  with the member at hand. The same composition is made here: \<open>AuthService\<close> runs on \<open>SessionStore\<close>, \<open>SessionFlow\<close>
  on both, \<open>AuthProvider\<close> on the answers of \<open>AuthService\<close>, \<open>GivingCheckout\<close> and \<open>Settlement\<close> on the operations of
  \<open>GivingRecords\<close>, \<open>Feed\<close>, \<open>CommentThread\<close>, \<open>Prayer\<close>, \<open>CareScreen\<close> and \<open>Inbox\<close> on those of \<open>Social\<close>, \<open>Spiritual\<close>, \<open>Welfare\<close> and
  \<open>Notifications\<close>, \<open>Registration\<close> on \<open>AuthProvider\<close> and \<open>AuthForms\<close>, \<open>DashboardNav\<close> on \<open>Permissions\<close> and \<open>BrowserClient\<close>.

  \<^bold>\<open>Theories.\<close>

  \<^item> \<open>JsRuntime\<close>, \<open>ApiBoundary\<close>, \<open>Steps\<close>: the prelude. Strings are lists of UTF-16 units, numbers are those of
    JavaScript with not-a-number and the infinities, a thrown exception is the left side of a sum; the errors,
    envelopes and checks every service shares; the locales \<open>record_normalizer\<close>, \<open>canonical_normalizer\<close> and
    \<open>canonicalizer\<close>, interpreted for every normalizer of the program; runs of a step function.
  \<^item> \<open>Money\<close>, \<open>Giving\<close>, \<open>GivingRecords\<close>: \<open>giving.service.ts\<close>. \<open>GivingCheckout\<close>: \<open>GivingScreen.tsx\<close>. \<open>Settlement\<close>:
    \<open>GivingCompleteScreen.tsx\<close>. \<open>QuickGive\<close>: \<open>quick-give.service.ts\<close> and \<open>QuickGiveBar.tsx\<close>.
  \<^item> \<open>SessionToken\<close>, \<open>StoreIO\<close>, \<open>SessionStore\<close>, \<open>SessionProperties\<close>: \<open>session-token.ts\<close> and \<open>session.ts\<close> over an
    explicit keychain and value store. \<open>SessionFlow\<close>: \<open>api.ts\<close>, \<open>token-refresh.ts\<close>, \<open>session-recovery.ts\<close>.
    \<open>AuthIdentity\<close>, \<open>AuthService\<close>: \<open>auth.service.ts\<close>. \<open>AuthForms\<close>: \<open>login-state.ts\<close>, \<open>registration-state.ts\<close>,
    \<open>otp-state.ts\<close>. \<open>AuthProvider\<close>: \<open>context/AuthContext.tsx\<close> of the mobile application.
  \<^item> \<open>Linking\<close> (with the linking options of \<open>AppNavigator.tsx\<close>), \<open>Notifications\<close>, \<open>Events\<close>, \<open>Paging\<close>, \<open>Spiritual\<close>, \<open>Social\<close>, \<open>Welfare\<close>: the services of these names
    with the decisions of their screens. \<open>Live\<close>: \<open>live.service.ts\<close>, \<open>live-connection.ts\<close>,
    \<open>webrtc-availability.ts\<close>, \<open>LiveSessionScreen.tsx\<close>. \<open>Gates\<close>: request tickets, submission locks, push
    registration, refresh flights, lists.
  \<^item> \<open>ScreenState\<close>: what screens share (busy sets, identities, locks that hold what is awaited, the locale
    \<open>reconciled_screen\<close> of screens whose older pages settle no newer outcome). \<open>Feed\<close>: \<open>FeedScreen.tsx\<close>. \<open>Prayer\<close>:
    \<open>PrayerScreen.tsx\<close>. \<open>CareScreen\<close>: \<open>WelfareScreen.tsx\<close>. \<open>Registration\<close>: \<open>RegisterScreen.tsx\<close>. \<open>OtpEntry\<close>: the mobile
    \<open>OtpScreen.tsx\<close>.
  \<^item> \<open>PagedScreen\<close>, \<open>KeyedScreen\<close>: the abstract machines of a screen that pages through entries of one owner, and of one
    that sends one request per entry at a time, with the locales of the screens that implement them. \<open>Inbox\<close>:
    \<open>NotificationsScreen.tsx\<close>. \<open>CommentThread\<close>: \<open>PostCommentsScreen.tsx\<close>.
  \<^item> \<open>Permissions\<close>: the package. \<open>BrowserClient\<close>: \<open>api.ts\<close>, \<open>auth.service.ts\<close> and \<open>AuthContext.tsx\<close> of the three
    browser applications. \<open>WebOtp\<close>: \<open>OtpPage.tsx\<close>. \<open>DashboardNav\<close>: \<open>navigation.tsx\<close>, \<open>Guarded.tsx\<close>, \<open>Sidebar.tsx\<close>.
  \<^item> \<open>ApiServer\<close>, \<open>ApiChurches\<close>, \<open>ApiAccounts\<close>, \<open>ApiEvents\<close>: errors, middleware and pages, and the services of
    churches, accounts and events with their controllers.

  A record of a theory has the fields of the interface, the state hooks or the references of the component it
  models; an operation has the name of the function or handler it models where Isabelle allows it. A handler
  that awaits is split where it awaits: what happens until then is one definition, what the answer does is
  another, and what is awaited is kept in the state, so that any other event can come in between. A call of the
  session module is one step, which its queue justifies for the mutations; the two reads that run outside the queue
  are opened in \<open>readTokensOpen\<close>, with what is lost then, and the properties of runs of the session module are about
  reads that no mutation runs into. \<open>endAllSessions\<close> takes what other calls do at its two awaits as arguments.

  \<^bold>\<open>What the groups of lemmas show.\<close> For every normalizer: what it accepts is well-formed, and where the program
  encodes it again, it is read back. For amounts: texts and pesewas correspond exactly. For the session: pairs
  are never mixed, a logout is final, a rotation never ends another session, whatever storage call fails or
  crashes. For authentication: what is shown and stored is what was answered for the identity entered, now and
  after every interleaving. For screens that move money: a payment follows a review, a retry carries the same
  identifier, an answer is shown for its own payment only, and the automatic checks end. For the community feed, the
  prayer wall and the care screen: what is drawn was read for the member at hand, quick taps send one request, an
  unknown outcome is settled by a later refresh only, and an urgent request is confirmed. For the registration and the
  code screen: what is sent is complete, sent once, and for the church and the number that were confirmed. For the
  inbox and the comments of a post: what is drawn is the member's own and of the post, an item is read and a comment is
  deleted once at a time. For live services:
  nothing connects before the consent, and a closed connection is silent. For permissions: guards never use
  stale ones, and the sidebar of the dashboard agrees with its routes. For links: what reaches Navigation is a screen of
  its options. For the API: what a registration leaves, an address is usable, event reads and RSVPs stay in the church,
  the counts of attendance are current. Each
  theory ends with witnesses that run a concrete input, and with lemmas on where the code deviates from what it
  means to do.

  \<^bold>\<open>Bounds and fuel.\<close> Every definition is total and needs no fuel; loops over retries are the two requests of
  the request client, and the four checks of a pending payment (\<open>SETTLEMENT_MAX_ATTEMPTS\<close>). Runs are finite
  lists of events of any length. A program over the storage takes the list of outcomes of its calls; an empty
  list means that everything succeeds. Safe integers, lengths and page sizes have the limits of the code.

  \<^bold>\<open>Parameters.\<close> What is not code of the repository is an argument: \<open>host\<close> (dates and URLs), \<open>json\<close> (the JSON
  texts that are no flat objects of strings; \<open>keeps_role\<close> is what a theorem asks of them), \<open>api\<close> (the gateway, as
  one request finds it), the labels that carry answers of the gateway, the ports of the repositories (whose lookups of
  one church, event or account by address cannot fail, while their other operations can), the
  database driver of the attendance (\<open>rsvp_driver_ok\<close>), bcrypt, the token library (\<open>jwt_faithful\<close>: a signed token
  verifies to its claims or has expired) and Unicode normalization.
  Witnesses instantiate them with concrete functions.

  \<^bold>\<open>Not modelled.\<close> The gateway in Go (another language); layout, styles, animation and focus; the screens whose
  orchestration is not listed above (the events, new post, login, profile, home, campaigns and privacy
  screens, and the pages of the browser applications, which validate with a third-party schema library); the
  services of the browser applications that return a payload unchanged; the services of the API that hand
  every call to a repository; what the Navigation library does with a link; exceptions of the constructors of sockets
  and peer connections; the MongoDB adapters beyond what \<open>ApiChurches\<close>, \<open>ApiAccounts\<close> and \<open>ApiEvents\<close> name;
  type declarations, themes, configuration, tests and tools. \<open>localStorage\<close> is assumed not to run out of
  space and to be changed by one page only.
\<close>

end
